(* ===== verification/Srv_Prelude.thy ===== *)
theory Srv_Prelude
  imports Main "HOL-Library.Word" "HOL-Library.Monad_Syntax"
begin

text \<open>
  What every component of the server model shares: the machine integers of utils.h, the
  way undefined behaviour is represented, and \<open>std::map\<close> as an association list ordered by
  its keys (the server iterates its maps when it broadcasts, so their order matters).

  A C++ call that dereferences a null or dangling pointer, or reads through a past-the-end
  iterator, has no defined result. The model writes it as \<open>None\<close>, and a call that returns
  as \<open>Some\<close> of its result; calls are sequenced with the \<open>do\<close> notation of the option
  monad. The boolean results of the code are kept as booleans inside.
\<close>

section \<open>Machine integers\<close>

type_synonym u8 = "8 word"
type_synonym u16 = "16 word"
type_synonym u32 = "32 word"
type_synonym u64 = "64 word"
type_synonym bytes = "8 word list"

text \<open>The collections the component theories extend: \<open>frame\<close> for facts of the form
  "this operation leaves that part of the state alone", \<open>heap\<close> for reads after writes.\<close>

named_theorems frame "parts of the state an operation does not change"
named_theorems heap "reads of the state after a write"

section \<open>Undefined behaviour and loops over lists\<close>

lemma bind_SomeE:
  assumes "Option.bind m f = Some y"
  obtains x where "m = Some x" "f x = Some y"
  using assms by (auto simp: Option.bind_eq_Some_conv)

text \<open>A \<open>for\<close> loop over a list whose body changes the state and may fail.\<close>

fun for_each :: "('a \<Rightarrow> 's \<Rightarrow> 's option) \<Rightarrow> 'a list \<Rightarrow> 's \<Rightarrow> 's option" where
  "for_each f [] s = Some s"
| "for_each f (x # xs) s = Option.bind (f x s) (for_each f xs)"

lemma for_each_append: "for_each f (xs @ ys) s = Option.bind (for_each f xs s) (for_each f ys)"
  by (induction xs arbitrary: s) (auto split: Option.bind_splits)

text \<open>An invariant the body keeps is kept by the loop.\<close>

lemma for_each_inv:
  assumes "for_each f xs s = Some t" "P s"
    and "\<And>x s t. x \<in> set xs \<Longrightarrow> f x s = Some t \<Longrightarrow> P s \<Longrightarrow> P t"
  shows "P t"
  using assms
proof (induction xs arbitrary: s)
  case Nil
  then show ?case by simp
next
  case (Cons x xs)
  from Cons.prems(1) obtain s' where s': "f x s = Some s'" "for_each f xs s' = Some t"
    by (auto elim: bind_SomeE)
  from Cons.prems(2) Cons.prems(3)[OF _ s'(1)] have "P s'" by simp
  with s'(2) show ?case by (rule Cons.IH) (use Cons.prems(3) in auto)
qed

text \<open>A relation to the start state that is reflexive and transitive is kept likewise.\<close>

lemma for_each_rel:
  assumes "for_each f xs s = Some t"
    and "\<And>s. R s s" and "\<And>s t u. R s t \<Longrightarrow> R t u \<Longrightarrow> R s u"
    and "\<And>x s t. x \<in> set xs \<Longrightarrow> f x s = Some t \<Longrightarrow> R s t"
  shows "R s t"
  using assms by (intro for_each_inv [of f xs s t "R s"]) blast+

text \<open>A loop whose body never fails on states with the invariant does not fail.\<close>

lemma for_each_total:
  assumes "P s" and "\<And>x s. x \<in> set xs \<Longrightarrow> P s \<Longrightarrow> \<exists>t. f x s = Some t \<and> P t"
  shows "\<exists>t. for_each f xs s = Some t \<and> P t"
  using assms
proof (induction xs arbitrary: s)
  case Nil
  then show ?case by simp
next
  case (Cons x xs)
  from Cons.prems(1) Cons.prems(2)[of x s] obtain s' where "f x s = Some s'" "P s'" by auto
  with Cons.IH[of s'] Cons.prems(2) show ?case by auto
qed

section \<open>Ordered maps\<close>

text \<open>\<open>std::map::insert\<close> keeps the old value when the key is present.\<close>

fun sm_insert :: "'k::linorder \<Rightarrow> 'v \<Rightarrow> ('k \<times> 'v) list \<Rightarrow> ('k \<times> 'v) list" where
  "sm_insert k v [] = [(k, v)]"
| "sm_insert k v ((k', v') # m) =
     (if k < k' then (k, v) # (k', v') # m
      else if k = k' then (k', v') # m
      else (k', v') # sm_insert k v m)"

fun sm_find :: "'k \<Rightarrow> ('k \<times> 'v) list \<Rightarrow> 'v option" where
  "sm_find k [] = None"
| "sm_find k ((k', v') # m) = (if k = k' then Some v' else sm_find k m)"

fun sm_erase :: "'k \<Rightarrow> ('k \<times> 'v) list \<Rightarrow> ('k \<times> 'v) list" where
  "sm_erase k [] = []"
| "sm_erase k ((k', v') # m) = (if k = k' then m else (k', v') # sm_erase k m)"

definition sm_ok :: "('k::linorder \<times> 'v) list \<Rightarrow> bool" where
  "sm_ok m \<longleftrightarrow> sorted_wrt (<) (map fst m)"

text \<open>The contract of \<open>std::map\<close> that the server relies on.\<close>

locale std_map =
  fixes empty :: "'m"
    and insert_new :: "'k \<Rightarrow> 'v \<Rightarrow> 'm \<Rightarrow> 'm"
    and find_key :: "'k \<Rightarrow> 'm \<Rightarrow> 'v option"
    and erase_key :: "'k \<Rightarrow> 'm \<Rightarrow> 'm"
    and ok :: "'m \<Rightarrow> bool"
  assumes ok_empty: "ok empty"
    and ok_insert: "ok m \<Longrightarrow> ok (insert_new k v m)"
    and ok_erase: "ok m \<Longrightarrow> ok (erase_key k m)"
    and find_empty: "find_key k empty = None"
    and find_insert: "ok m \<Longrightarrow> find_key k' (insert_new k v m) =
          (if k' = k \<and> find_key k m = None then Some v else find_key k' m)"
    and find_erase: "ok m \<Longrightarrow> find_key k' (erase_key k m) =
          (if k' = k then None else find_key k' m)"
begin

text \<open>An insertion never replaces a value; erasing what was inserted gives the old map.\<close>

lemma insert_keeps: "ok m \<Longrightarrow> find_key k' m = Some v' \<Longrightarrow> find_key k' (insert_new k v m) = Some v'"
  by (auto simp: find_insert)

lemma insert_erase:
  "ok m \<Longrightarrow> find_key k m = None \<Longrightarrow> find_key k' (erase_key k (insert_new k v m)) = find_key k' m"
  by (simp add: find_erase find_insert ok_insert)

lemma erase_absent: "ok m \<Longrightarrow> find_key k (erase_key k m) = None"
  by (simp add: find_erase)

end

lemma sm_find_None: "sm_find k m = None \<longleftrightarrow> k \<notin> fst ` set m"
  by (induction k m rule: sm_find.induct) auto

lemma sm_find_Some_set: "sm_find k m = Some v \<Longrightarrow> (k, v) \<in> set m"
  by (induction k m rule: sm_find.induct) (auto split: if_splits)

lemma sm_find_set: "sm_ok m \<Longrightarrow> (k, v) \<in> set m \<Longrightarrow> sm_find k m = Some v"
  by (induction m) (force simp: sm_ok_def)+

lemma sm_find_iff: "sm_ok m \<Longrightarrow> sm_find k m = Some v \<longleftrightarrow> (k, v) \<in> set m"
  by (blast intro: sm_find_set sm_find_Some_set)

lemma keys_sm_insert: "fst ` set (sm_insert k v m) = insert k (fst ` set m)"
  by (induction k v m rule: sm_insert.induct) auto

lemma sm_ok_insert: "sm_ok m \<Longrightarrow> sm_ok (sm_insert k v m)"
proof (induction m)
  case Nil
  then show ?case by (simp add: sm_ok_def)
next
  case (Cons p m)
  obtain k' v' where p: "p = (k', v')" by (cases p)
  have gt: "\<forall>x \<in> fst ` set m. k' < x" using Cons.prems p by (auto simp: sm_ok_def)
  have tl: "sm_ok (sm_insert k v m)" using Cons by (simp add: sm_ok_def)
  have "\<forall>x \<in> fst ` set (sm_insert k v m). k' < x" if "k' < k"
    using gt that by (simp add: keys_sm_insert)
  with gt tl Cons.prems show ?case
    by (auto simp: sm_ok_def p not_less)
qed

lemma set_sm_erase: "set (sm_erase k m) \<subseteq> set m"
  by (induction k m rule: sm_erase.induct) (auto split: if_splits)

lemma sm_ok_erase: "sm_ok m \<Longrightarrow> sm_ok (sm_erase k m)"
proof (induction m)
  case (Cons p m)
  then show ?case using set_sm_erase[of k m] by (cases p) (auto simp: sm_ok_def)
qed (simp add: sm_ok_def)

lemma sm_find_insert:
  "sm_find k' (sm_insert k v m) = (if k' = k \<and> sm_find k m = None then Some v else sm_find k' m)"
  if "sm_ok m"
  using that
proof (induction m)
  case (Cons p m)
  obtain a b where p: "p = (a, b)" by (cases p)
  have "\<forall>x \<in> fst ` set m. a < x" "sm_ok m" using Cons.prems p by (auto simp: sm_ok_def)
  moreover from this have "k < a \<Longrightarrow> sm_find k m = None"
    by (metis sm_find_None less_trans less_irrefl)
  ultimately show ?case using Cons.IH by (auto simp: p)
qed simp

lemma sm_find_erase:
  "sm_find k' (sm_erase k m) = (if k' = k then None else sm_find k' m)" if "sm_ok m"
  using that
proof (induction m)
  case (Cons p m)
  obtain a b where p: "p = (a, b)" by (cases p)
  have "\<forall>x \<in> fst ` set m. a < x" "sm_ok m" using Cons.prems p by (auto simp: sm_ok_def)
  then have "sm_find a m = None" by (auto simp: sm_find_None)
  with \<open>sm_ok m\<close> Cons.IH show ?case by (auto simp: p)
qed simp

interpretation sm: std_map "[]" sm_insert sm_find sm_erase sm_ok
  by unfold_locales
    (simp_all add: sm_ok_insert sm_ok_erase sm_find_insert sm_find_erase, simp add: sm_ok_def)

text \<open>The values stored in a map, for the ownership invariants.\<close>

definition sm_vals :: "('k \<times> 'v) list \<Rightarrow> 'v list" where
  "sm_vals m = map snd m"

lemma sm_vals_simps [simp]: "sm_vals [] = []" "sm_vals (p # m) = snd p # sm_vals m"
  by (simp_all add: sm_vals_def)

lemma sm_vals_insert_new:
  "sm_find k m = None \<Longrightarrow> set (sm_vals (sm_insert k v m)) = insert v (set (sm_vals m))"
  by (induction k v m rule: sm_insert.induct) (auto split: if_splits)

lemma distinct_sm_vals_insert:
  "distinct (sm_vals m) \<Longrightarrow> v \<notin> set (sm_vals m) \<Longrightarrow> distinct (sm_vals (sm_insert k v m))"
proof (induction m)
  case (Cons p m)
  have "set (sm_vals (sm_insert k v m)) \<subseteq> insert v (set (sm_vals m))"
    by (induction k v m rule: sm_insert.induct) auto
  with Cons show ?case by (cases p) auto
qed simp

lemma sm_vals_erase_subset: "set (sm_vals (sm_erase k m)) \<subseteq> set (sm_vals m)"
  by (induction k m rule: sm_erase.induct) auto

lemma distinct_sm_vals_erase: "distinct (sm_vals m) \<Longrightarrow> distinct (sm_vals (sm_erase k m))"
proof (induction m)
  case (Cons p m)
  then show ?case using sm_vals_erase_subset[of k m] by (cases p) auto
qed simp

lemma sm_vals_erase_found:
  "distinct (sm_vals m) \<Longrightarrow> sm_find k m = Some v \<Longrightarrow> set (sm_vals (sm_erase k m)) = set (sm_vals m) - {v}"
proof (induction m)
  case (Cons p m)
  obtain a b where p: "p = (a, b)" by (cases p)
  have "sm_find k m = Some v \<Longrightarrow> v \<in> set (sm_vals m)"
    by (auto dest!: sm_find_Some_set simp: sm_vals_def rev_image_eqI)
  with Cons p show ?case by (auto split: if_splits)
qed simp

lemma sm_find_vals: "sm_find k m = Some v \<Longrightarrow> v \<in> set (sm_vals m)"
  by (induction k m rule: sm_find.induct) (auto split: if_splits)

end
