(* ===== verification/Messages.thy ===== *)
theory Messages
  imports Srv_Prelude
begin

text \<open>
  The message vocabulary: the numbers of \<open>MessageType\<close> and \<open>StateType\<close> (state.h), the
  messages of message.proto that the server parses or builds, and the parameters that stand
  for the protobuf runtime.

  A \<open>required\<close> field is a plain field and an \<open>optional\<close> one an option; the C++ getter of an
  absent optional field returns the default of its type, which \<open>getd\<close> models. A required
  field that a handler may leave unset when it serializes is an option too. \<open>int32\<close>, \<open>uint32\<close>
  and enum fields are 32-bit words: the handlers only copy them, compare them and convert
  them between \<open>int\<close>, \<open>u_int32\<close> and \<open>Location\<close>, which keeps their bits.
\<close>

section \<open>Message numbers and states\<close>

datatype MessageType =
    MSG_UNKNOWN | MSG_ECHO | MSG_LOGIN | MSG_LOGIN_REPLY | MSG_LOGOUT | MSG_LOGOUT_REPLY
  | MSG_REGISTER | MSG_REGISTER_REPLY | MSG_CHESS_BOARD_USER | MSG_CHESS_BOARD_REQ
  | MSG_CHESS_BOARD | MSG_HALL_INFO_REQ | MSG_HALL_INFO | MSG_GAME_HALL_SUMARY_REQ
  | MSG_GAME_HALL_SUMARY | MSG_REQUEST_PLAY | MSG_REQUEST_PLAY_REPLY | MSG_MOVE_CHESS
  | MSG_ANNOUNCE_MOVE | MSG_USER_MSG | MSG_SYSTEM_MSG | MSG_RECONCILED_REQ
  | MSG_RECONCILED_RESP | MSG_GIVE_UP | MSG_UNDO_REQ | MSG_UNDO_REPS | MSG_GAME_READY_REQ
  | MSG_GAME_STATUS | MSG_FIND_PASSWORD | MSG_UPDATE_USER_INFO | MSG_AD_IMAGE_INFO
  | MSG_AD_IMAGE_REQ | MSG_AD_IMAGE_CONTENT | MSG_TYPE_MAX

primrec mt_code :: "MessageType \<Rightarrow> u32" where
  "mt_code MSG_UNKNOWN = 0" | "mt_code MSG_ECHO = 1" | "mt_code MSG_LOGIN = 2"
| "mt_code MSG_LOGIN_REPLY = 3" | "mt_code MSG_LOGOUT = 4" | "mt_code MSG_LOGOUT_REPLY = 5"
| "mt_code MSG_REGISTER = 6" | "mt_code MSG_REGISTER_REPLY = 7"
| "mt_code MSG_CHESS_BOARD_USER = 8" | "mt_code MSG_CHESS_BOARD_REQ = 9"
| "mt_code MSG_CHESS_BOARD = 10" | "mt_code MSG_HALL_INFO_REQ = 11"
| "mt_code MSG_HALL_INFO = 12" | "mt_code MSG_GAME_HALL_SUMARY_REQ = 13"
| "mt_code MSG_GAME_HALL_SUMARY = 14" | "mt_code MSG_REQUEST_PLAY = 15"
| "mt_code MSG_REQUEST_PLAY_REPLY = 16" | "mt_code MSG_MOVE_CHESS = 17"
| "mt_code MSG_ANNOUNCE_MOVE = 18" | "mt_code MSG_USER_MSG = 19"
| "mt_code MSG_SYSTEM_MSG = 20" | "mt_code MSG_RECONCILED_REQ = 21"
| "mt_code MSG_RECONCILED_RESP = 22" | "mt_code MSG_GIVE_UP = 23"
| "mt_code MSG_UNDO_REQ = 24" | "mt_code MSG_UNDO_REPS = 25"
| "mt_code MSG_GAME_READY_REQ = 26" | "mt_code MSG_GAME_STATUS = 27"
| "mt_code MSG_FIND_PASSWORD = 28" | "mt_code MSG_UPDATE_USER_INFO = 29"
| "mt_code MSG_AD_IMAGE_INFO = 30" | "mt_code MSG_AD_IMAGE_REQ = 31"
| "mt_code MSG_AD_IMAGE_CONTENT = 32" | "mt_code MSG_TYPE_MAX = 33"

lemma mt_code_inj [simp]: "mt_code a = mt_code b \<longleftrightarrow> a = b"
  by (cases a; cases b; simp)

datatype StateType = STATE_AUTH | STATE_DOWN_AD | STATE_GAME_READY | STATE_GAME_PLAY

section \<open>Seats\<close>

text \<open>\<open>Location\<close> is kept as the 32-bit number the messages carry: casts to the enum do not
  check the range, and \<open>GetUserByLocation\<close> treats every other number as "no such seat".\<close>

definition LOCATION_LEFT :: u32 where "LOCATION_LEFT = 0"
definition LOCATION_RIGHT :: u32 where "LOCATION_RIGHT = 1"
definition LOCATION_BOTTOM :: u32 where "LOCATION_BOTTOM = 2"
definition LOCATION_MAX :: u32 where "LOCATION_MAX = 3"
definition LOCATION_UNKNOWN :: u32 where "LOCATION_UNKNOWN = LOCATION_LEFT"

lemmas loc_defs = LOCATION_LEFT_def LOCATION_RIGHT_def LOCATION_BOTTOM_def LOCATION_MAX_def
  LOCATION_UNKNOWN_def

section \<open>Messages\<close>

definition getd :: "'a \<Rightarrow> 'a option \<Rightarrow> 'a" where
  "getd d x = (case x of None \<Rightarrow> d | Some v \<Rightarrow> v)"

lemma getd_simps [simp]: "getd d None = d" "getd d (Some v) = v"
  by (simp_all add: getd_def)

record Echo =
  echo_time_stamp :: "string option"

record LogOnorOut =
  lo_account :: string
  lo_password :: string

record ImageVersion =
  iv_server_version :: string
  iv_mandatory_update :: bool

record ChessBoardUser =
  cu_chess_board_empty :: bool
  cu_user_name :: "string option"
  cu_account :: "string option"
  cu_score :: "u32 option"
  cu_ex_email :: "string option"
  cu_phone :: "string option"
  cu_head_image :: "string option"
  cu_status :: "u32 option"

record ReplyStatus =
  rs_status :: u32
  rs_user :: "ChessBoardUser option"
  rs_version_info :: "ImageVersion option"

record Register =
  rg_email_account :: string
  rg_password :: string
  rg_username :: "string option"

record ChessBoardInfo =
  ci_id :: u32
  ci_people_num :: u32
  ci_left_user :: ChessBoardUser
  ci_right_user :: ChessBoardUser
  ci_bottom_user :: ChessBoardUser

record ChessBoardInfoReq =
  cr_chess_board_id :: u32

record HallInfoReq =
  hr_game_hall_id :: u32

record HallInfo =
  hi_game_hall_id :: u32
  hi_total_people :: u32
  hi_curr_people :: u32
  hi_total_chessboard :: u32
  hi_chess_board :: "ChessBoardInfo list"

record GameHallSumary =
  gs_account :: string
  gs_username :: string
  gs_score :: u32
  gs_hall_num :: u32
  gs_head_picture :: string
  gs_ad_picture1 :: string
  gs_hall_info :: "HallInfo list"

record RequestPlay =
  rp_game_hall_id :: u32
  rp_chess_board_id :: u32
  rp_locate :: u32

record RequestPlayReply =
  rr_status :: u32
  rr_first_come_user_locate :: u32
  rr_chessboard :: "ChessBoardInfo option"

record MoveChess =
  mc_src_chess_type :: u32
  mc_src_user_locate :: u32
  mc_from_pointX :: u32
  mc_from_pointY :: u32
  mc_des_pointX :: u32
  mc_des_pointY :: u32
  mc_is_winner :: bool
  mc_eat_target_chess_type :: "u32 option"
  mc_target_user_locate :: "u32 option"

record MoveAction =
  ma_src_user_locate :: u32
  ma_movechess :: MoveChess
  ma_token_locate :: "u32 option"

record UserMessage =
  um_src_user_locate :: u32
  um_msgContent :: string

record Reconciled =
  rc_apply_or_reply :: u32
  rc_src_user_locate :: u32
  rc_tar_user_locate :: u32
  rc_status :: "string option"

record GiveUp =
  gu_src_user_locate :: u32
  gu_opt :: "string option"

record Undo =
  ud_rep_or_respon :: u32
  ud_src_user_locate :: u32
  ud_tar_user_locate :: u32
  ud_status :: "bool option"

record GameReadyReq =
  gr_src_user_locate :: u32
  gr_total_time :: "u32 option"
  gr_single_step_time :: "u32 option"

record GameStatusReply =
  gt_left_user_status :: bool
  gt_right_user_status :: bool
  gt_bottom_user_status :: bool
  gt_token_locate :: u32
  gt_total_time :: u32
  gt_single_step_time :: u32

record FindPassword =
  fp_email :: string

record UpdateUserInfo =
  ui_user_name :: string
  ui_password :: string
  ui_ex_email :: "string option"
  ui_phone :: "string option"
  ui_head_image :: "string option"

record AdPictureItemReply =
  ap_image_id :: u32
  ap_existed :: bool
  ap_image_type :: "string option"
  ap_image_name :: "string option"
  ap_image_hashcode :: "string option"
  ap_url :: "string option"
  ap_image_size :: "u32 option"

record AdPictureReq =
  aq_image_id :: u32
  aq_req_type :: u32
  aq_last_one :: "bool option"

record AdPictureContentReply =
  ac_ended :: bool
  ac_content :: "bytes option"

section \<open>Parameters: the protobuf runtime and the other external code\<close>

text \<open>
  \<open>ParseFromString\<close> and \<open>SerializeToString\<close>, one field per message. A parse gives \<open>None\<close>
  where \<open>ParseFromString\<close> returns false. The server's components take the record as a parameter;
  \<open>with_protobuf\<close> of Pb_Server fills it with the classes of message.pb.cpp.
\<close>

record pb_lib =
  parse_Echo :: "bytes \<Rightarrow> Echo option"
  parse_LogOnorOut :: "bytes \<Rightarrow> LogOnorOut option"
  parse_Register :: "bytes \<Rightarrow> Register option"
  parse_ChessBoardInfoReq :: "bytes \<Rightarrow> ChessBoardInfoReq option"
  parse_HallInfoReq :: "bytes \<Rightarrow> HallInfoReq option"
  parse_RequestPlay :: "bytes \<Rightarrow> RequestPlay option"
  parse_MoveChess :: "bytes \<Rightarrow> MoveChess option"
  parse_UserMessage :: "bytes \<Rightarrow> UserMessage option"
  parse_Reconciled :: "bytes \<Rightarrow> Reconciled option"
  parse_GiveUp :: "bytes \<Rightarrow> GiveUp option"
  parse_Undo :: "bytes \<Rightarrow> Undo option"
  parse_GameReadyReq :: "bytes \<Rightarrow> GameReadyReq option"
  parse_FindPassword :: "bytes \<Rightarrow> FindPassword option"
  parse_UpdateUserInfo :: "bytes \<Rightarrow> UpdateUserInfo option"
  parse_AdPictureReq :: "bytes \<Rightarrow> AdPictureReq option"
  ser_Echo :: "Echo \<Rightarrow> bytes"
  ser_ReplyStatus :: "ReplyStatus \<Rightarrow> bytes"
  ser_ChessBoardInfo :: "ChessBoardInfo \<Rightarrow> bytes"
  ser_HallInfo :: "HallInfo \<Rightarrow> bytes"
  ser_GameHallSumary :: "GameHallSumary \<Rightarrow> bytes"
  ser_RequestPlayReply :: "RequestPlayReply \<Rightarrow> bytes"
  ser_MoveAction :: "MoveAction \<Rightarrow> bytes"
  ser_GiveUp :: "GiveUp \<Rightarrow> bytes"
  ser_GameStatusReply :: "GameStatusReply \<Rightarrow> bytes"
  ser_AdPictureItemReply :: "AdPictureItemReply \<Rightarrow> bytes"
  ser_AdPictureContentReply :: "AdPictureContentReply \<Rightarrow> bytes"

text \<open>
  The rest of the outside world. The database is consulted through the MySQL client library:
  its answers may depend on every command sent before, so they are functions of the log of
  commands (the last one is the command being answered). \<open>db_real_query\<close> is the result of
  \<open>mysql_real_query\<close> and \<open>mysql_query\<close>, \<open>db_ping\<close> of \<open>mysql_ping\<close>, \<open>db_result\<close> the result set
  (\<open>None\<close> for a null \<open>MYSQL_RES\<close>; a null field is \<open>None\<close>), \<open>db_escape\<close> is
  \<open>mysql_real_escape_string\<close>. \<open>file_open\<close> is \<open>fopen(path, "r")\<close> with the file's bytes,
  \<open>bufferevent_ok\<close> says whether \<open>bufferevent_new\<close> returns a
  bufferevent for a descriptor. \<open>end_reads_null\<close> says what the library's map
  gives for a read through \<open>end()\<close>, see \<open>GetChessBoardByID\<close>.
\<close>

record env = pb_lib +
  db_real_query :: "string list \<Rightarrow> int"
  db_ping :: "string list \<Rightarrow> int"
  db_result :: "string list \<Rightarrow> string option list list option"
  db_escape :: "string \<Rightarrow> string"
  file_open :: "string \<Rightarrow> bytes option"
  bufferevent_ok :: "int \<Rightarrow> bool"
  end_reads_null :: bool

end
