(* ===== verification/Session.thy ===== *)
theory Session
  imports Messages
begin

text \<open>
  The data of usersession.h and state.h: a user's account data, the advertisement and
  version records read from the database, the state of the frame reader, and the
  \<open>UserSession\<close> object with the operations that touch that object alone (constructor,
  \<open>SetNextState\<close>, \<open>GetBuffer\<close>, the score arithmetic).

  Objects on the heap are named by addresses: a session by a \<open>sid\<close>, a chess board by the
  hall and board number under which its hall created it (\<open>bid\<close>). A null pointer is \<open>None\<close>.
  The four \<open>State\<close> classes have no data of their own but the pointer back to their session,
  so a \<open>State\<close> object is its \<open>StateType\<close>.
\<close>

type_synonym sid = nat
type_synonym bid = "u32 \<times> u32"

section \<open>UserGameStatus\<close>

datatype UserGameStatus =
  STATUS_NOT_START | STATUS_READY | STATUS_BEGAN | STATUS_PLAYING | STATUS_ENDED

abbreviation STATUS_EXITED :: UserGameStatus where "STATUS_EXITED \<equiv> STATUS_NOT_START"

primrec status_code :: "UserGameStatus \<Rightarrow> u32" where
  "status_code STATUS_NOT_START = 0"
| "status_code STATUS_READY = 1"
| "status_code STATUS_BEGAN = 2"
| "status_code STATUS_PLAYING = 3"
| "status_code STATUS_ENDED = 4"

text \<open>The code compares statuses by their numbers (\<open>status > STATUS_BEGAN\<close>).\<close>

instantiation UserGameStatus :: linorder
begin

definition less_eq_UserGameStatus :: "UserGameStatus \<Rightarrow> UserGameStatus \<Rightarrow> bool" where
  "less_eq_UserGameStatus a b \<longleftrightarrow> status_code a \<le> status_code b"

definition less_UserGameStatus :: "UserGameStatus \<Rightarrow> UserGameStatus \<Rightarrow> bool" where
  "less_UserGameStatus a b \<longleftrightarrow> status_code a < status_code b"

instance
proof
  fix a b c :: UserGameStatus
  show "a < b \<longleftrightarrow> a \<le> b \<and> \<not> b \<le> a"
    by (auto simp: less_eq_UserGameStatus_def less_UserGameStatus_def)
  show "a \<le> a" by (simp add: less_eq_UserGameStatus_def)
  show "a \<le> c" if "a \<le> b" "b \<le> c"
    using that unfolding less_eq_UserGameStatus_def by (rule order_trans)
  show "a = b" if "a \<le> b" "b \<le> a"
  proof -
    have "status_code a = status_code b"
      using that unfolding less_eq_UserGameStatus_def by (rule antisym)
    then show ?thesis by (cases a; cases b; simp)
  qed
  show "a \<le> b \<or> b \<le> a" by (auto simp: less_eq_UserGameStatus_def)
qed

end

lemma status_gt_BEGAN [simp]:
  "STATUS_BEGAN < s \<longleftrightarrow> s = STATUS_PLAYING \<or> s = STATUS_ENDED"
  by (cases s) (simp_all add: less_UserGameStatus_def)

section \<open>Data records\<close>

record UsersInfo =
  account :: string
  password :: string
  score :: u32
  email :: string
  head_photo :: string
  user_name :: string
  phone :: string

definition UsersInfo_Reset :: UsersInfo where
  "UsersInfo_Reset = \<lparr>account = [], password = [], score = 0, email = [], head_photo = [],
     user_name = [], phone = []\<rparr>"

record AdPicturesInfo =
  image_id :: u32
  existed :: bool
  image_hashcode :: string
  image_name :: string
  image_type :: string
  link_url :: string
  locate_path :: string
  image_size :: u32

definition AdPicturesInfo_Reset :: AdPicturesInfo where
  "AdPicturesInfo_Reset = \<lparr>image_id = 0, existed = False, image_hashcode = [], image_name = [],
     image_type = [], link_url = [], locate_path = [], image_size = 0\<rparr>"

record ImageVersions =
  iv_version :: string
  iv_mandatory :: bool
  iv_info :: string
  iv_locate_path :: string

definition ImageVersions_init :: ImageVersions where
  "ImageVersions_init = \<lparr>iv_version = [], iv_mandatory = False, iv_info = [], iv_locate_path = []\<rparr>"

record ReadBufInfo =
  total_size :: u32
  msg_type :: u32
  got_head :: bool

definition ReadBufInfo_Reset :: ReadBufInfo where
  "ReadBufInfo_Reset = \<lparr>total_size = 0, msg_type = 0, got_head = False\<rparr>"

section \<open>UserSession\<close>

text \<open>
  \<open>ad_img_fp\<close> is the open advertisement file, as the bytes not yet read. \<open>bufev\<close> says whether
  the bufferevent exists, \<open>inbuf\<close> holds the bytes its input buffer has received and \<open>timer_on\<close> whether \<open>timer_ev\<close> is pending. The contents of
  \<open>buffer\<close> never outlive one call, so only its existence and \<open>buf_size\<close> are kept.
\<close>

record UserSession =
  clifd :: int
  timer_on :: bool
  thread :: "nat option"
  locate :: u32
  currChessBoard :: "bid option"
  stateMachine :: "StateType option"
  nextState :: "StateType option"
  user_info :: UsersInfo
  status :: UserGameStatus
  ad_img_fp :: "bytes option"
  bufev :: bool
  inbuf :: bytes
  buf_info :: ReadBufInfo
  buffer :: bool
  buf_size :: nat

definition UserSession_new :: UserSession where
  "UserSession_new = \<lparr>clifd = -1, timer_on = False, thread = None, locate = LOCATION_UNKNOWN,
     currChessBoard = None, stateMachine = None, nextState = None,
     user_info = UsersInfo_Reset, status = STATUS_NOT_START, ad_img_fp = None, bufev = False, inbuf = [],
     buf_info = ReadBufInfo_Reset, buffer = False, buf_size = 0\<rparr>"

definition SetNextState :: "StateType \<Rightarrow> UserSession \<Rightarrow> UserSession" where
  "SetNextState st u = u\<lparr>nextState := Some st\<rparr>"

definition DATA_HEAD_LENGTH :: nat where "DATA_HEAD_LENGTH = 8"
definition MAX_DATA_LENGTH :: nat where "MAX_DATA_LENGTH = DATA_HEAD_LENGTH + 2 ^ 13"

definition GetBuffer :: "nat \<Rightarrow> UserSession \<Rightarrow> UserSession" where
  "GetBuffer n u =
     (if buf_size u = 0 \<and> n < MAX_DATA_LENGTH then u\<lparr>buffer := True, buf_size := MAX_DATA_LENGTH\<rparr>
      else if n > buf_size u then u\<lparr>buffer := True, buf_size := n\<rparr>
      else u)"

definition GetBufferSize :: "UserSession \<Rightarrow> nat" where
  "GetBufferSize u = buf_size u"

text \<open>The buffer \<open>GetBuffer\<close> returns holds at least the requested size, and never shrinks.\<close>

definition buffer_ok :: "UserSession \<Rightarrow> bool" where
  "buffer_ok u \<longleftrightarrow> (buffer u \<longleftrightarrow> 0 < buf_size u)"

lemma GetBuffer_ok: "buffer_ok u \<Longrightarrow> buffer_ok (GetBuffer n u)"
  by (auto simp: buffer_ok_def GetBuffer_def MAX_DATA_LENGTH_def DATA_HEAD_LENGTH_def)

lemma GetBuffer_size:
  "0 < n \<Longrightarrow> buffer_ok u \<Longrightarrow>
     buffer (GetBuffer n u) \<and> n \<le> buf_size (GetBuffer n u) \<and> buf_size u \<le> buf_size (GetBuffer n u)"
  by (auto simp: buffer_ok_def GetBuffer_def)

lemma GetBuffer_frame [frame, simp]:
  "clifd (GetBuffer n u) = clifd u" "timer_on (GetBuffer n u) = timer_on u"
  "thread (GetBuffer n u) = thread u" "locate (GetBuffer n u) = locate u"
  "currChessBoard (GetBuffer n u) = currChessBoard u"
  "stateMachine (GetBuffer n u) = stateMachine u" "nextState (GetBuffer n u) = nextState u"
  "user_info (GetBuffer n u) = user_info u" "status (GetBuffer n u) = status u"
  "ad_img_fp (GetBuffer n u) = ad_img_fp u" "bufev (GetBuffer n u) = bufev u" "inbuf (GetBuffer n u) = inbuf u"
  "buf_info (GetBuffer n u) = buf_info u"
  by (simp_all add: GetBuffer_def)

text \<open>\<open>IncreaseScore\<close> and \<open>ReduceScore\<close>, without the database update: \<open>score\<close> is unsigned and
  wraps around.\<close>

definition score_add :: "u32 \<Rightarrow> UserSession \<Rightarrow> UserSession" where
  "score_add n u = u\<lparr>user_info := (user_info u)\<lparr>score := score (user_info u) + n\<rparr>\<rparr>"

definition score_sub :: "u32 \<Rightarrow> UserSession \<Rightarrow> UserSession" where
  "score_sub n u = u\<lparr>user_info := (user_info u)\<lparr>score := score (user_info u) - n\<rparr>\<rparr>"

lemma score_roundtrip [simp]:
  "score_sub n (score_add n u) = u" "score_add n (score_sub n u) = u"
  by (simp_all add: score_add_def score_sub_def)

end
