(* ===== verification/Sql.thy ===== *)
theory Sql
  imports Session
begin

text \<open>
  The database layer: mysqldb.cpp over the MySQL client library (a parameter, see
  Messages), and the functions of \<open>WorkThread\<close> in thread.cpp that build the SQL commands.
  The state is the log of commands sent so far, newest first. A query function returns
  the code's integer or boolean, the filled-in out parameter and the new log; \<open>None\<close> is
  undefined behaviour (a NULL field turned into a \<open>std::string\<close>, a missing column, a write
  past a buffer) or a retry loop that never ends.
\<close>

section \<open>C strings and formats\<close>

definition c_str :: "string \<Rightarrow> string" where
  "c_str s = takeWhile (\<lambda>c. c \<noteq> CHR 0x00) s"

text \<open>\<open>snprintf(buf, n, \<dots>)\<close> writes at most \<open>n - 1\<close> characters.\<close>

definition snprintf :: "nat \<Rightarrow> string \<Rightarrow> string" where
  "snprintf n s = take (n - 1) s"

lemma length_snprintf: "length (snprintf n s) \<le> n - 1"
  by (simp add: snprintf_def)

lemma snprintf_id: "length s < n \<Longrightarrow> snprintf n s = s"
  by (simp add: snprintf_def)

fun nat_str :: "nat \<Rightarrow> string" where
  "nat_str n = (if n < 10 then [char_of (48 + n)] else nat_str (n div 10) @ [char_of (48 + n mod 10)])"

declare nat_str.simps [simp del]

text \<open>\<open>%d\<close> of an unsigned argument prints its two's complement reading.\<close>

definition dec_str :: "u32 \<Rightarrow> string" where
  "dec_str w = (if sint w < 0 then CHR ''-'' # nat_str (nat (- sint w)) else nat_str (nat (sint w)))"

definition is_digit :: "char \<Rightarrow> bool" where
  "is_digit c \<longleftrightarrow> (48::nat) \<le> of_char c \<and> of_char c \<le> (57::nat)"

definition is_space :: "char \<Rightarrow> bool" where
  "is_space c \<longleftrightarrow> c = CHR '' '' \<or> ((9::nat) \<le> of_char c \<and> of_char c \<le> (13::nat))"

definition digits_val :: "string \<Rightarrow> int" where
  "digits_val s = foldl (\<lambda>n c. 10 * n + (of_char c - 48)) 0 (takeWhile is_digit s)"

text \<open>\<open>atoi\<close>, with the conversion of its result to \<open>u_int32\<close> that every caller makes.\<close>

definition atoi :: "string \<Rightarrow> u32" where
  "atoi s = (let s = dropWhile is_space s in
     word_of_int (case s of
         [] \<Rightarrow> 0
       | c # t \<Rightarrow> if c = CHR ''-'' then - digits_val t
                  else if c = CHR ''+'' then digits_val t else digits_val s))"

section \<open>mysqldb.cpp\<close>

definition CR_SERVER_GONE_ERROR :: int where "CR_SERVER_GONE_ERROR = 2006"

type_synonym row = "string option list"

text \<open>\<open>row[j]\<close>, and \<open>row[j]\<close> used where a null pointer has no defined result.\<close>

definition cell :: "row \<Rightarrow> nat \<Rightarrow> string option option" where
  "cell r j = (if j < length r then Some (map_option c_str (r ! j)) else None)"

definition cell_req :: "row \<Rightarrow> nat \<Rightarrow> string option" where
  "cell_req r j = Option.bind (cell r j) (\<lambda>x. x)"

definition cell_opt :: "row \<Rightarrow> nat \<Rightarrow> string option" where
  "cell_opt r j = map_option (getd []) (cell r j)"

definition users_row :: "row \<Rightarrow> UsersInfo \<Rightarrow> UsersInfo option" where
  "users_row r info = do {
     a \<leftarrow> cell_req r 0;
     p \<leftarrow> cell_req r 1;
     e \<leftarrow> cell_opt r 2;
     s \<leftarrow> cell_req r 3;
     n \<leftarrow> cell_opt r 5;
     ph \<leftarrow> cell_opt r 6;
     Some (info\<lparr>account := a, password := p, email := e, score := atoi s,
                user_name := n, phone := ph\<rparr>) }"

text \<open>The three query functions differ only in the row they fill in.\<close>

definition query_rows ::
  "env \<Rightarrow> string \<Rightarrow> (row \<Rightarrow> 'a \<Rightarrow> 'a option) \<Rightarrow> 'a \<Rightarrow> string list \<Rightarrow> (int \<times> 'a \<times> string list) option"
where
  "query_rows E sql f info log =
     (let log = sql # log in
      if db_real_query E log \<noteq> 0 then Some (-1, info, log)
      else case db_result E log of
          None \<Rightarrow> Some (-1, info, log)
        | Some rows \<Rightarrow> do {
            info \<leftarrow> for_each f rows info;
            Some (int (length rows), info, log) })"

definition mysql_db_query ::
  "env \<Rightarrow> string \<Rightarrow> UsersInfo \<Rightarrow> string list \<Rightarrow> (int \<times> UsersInfo \<times> string list) option" where
  "mysql_db_query E sql info log = query_rows E sql users_row info log"

definition ad_row :: "row \<Rightarrow> AdPicturesInfo \<Rightarrow> AdPicturesInfo option" where
  "ad_row r info = do {
     i \<leftarrow> cell_req r 0;
     ex \<leftarrow> cell_req r 1;
     nm \<leftarrow> cell_opt r 2;
     ty \<leftarrow> cell_opt r 3;
     hc \<leftarrow> cell_opt r 4;
     sz \<leftarrow> cell r 5;
     lu \<leftarrow> cell_opt r 6;
     lp \<leftarrow> cell_opt r 7;
     Some (info\<lparr>image_id := atoi i, existed := (atoi ex \<noteq> 0), image_name := nm, image_type := ty,
                image_hashcode := hc, image_size := (case sz of None \<Rightarrow> 0 | Some s \<Rightarrow> atoi s),
                link_url := lu, locate_path := lp\<rparr>) }"

definition mysql_db_query_ad_info ::
  "env \<Rightarrow> string \<Rightarrow> AdPicturesInfo \<Rightarrow> string list \<Rightarrow> (int \<times> AdPicturesInfo \<times> string list) option" where
  "mysql_db_query_ad_info E sql info log = query_rows E sql ad_row info log"

definition version_row :: "row \<Rightarrow> ImageVersions \<Rightarrow> ImageVersions option" where
  "version_row r info = do {
     v \<leftarrow> cell_opt r 0;
     m \<leftarrow> cell_req r 1;
     i \<leftarrow> cell_opt r 2;
     lp \<leftarrow> cell_opt r 3;
     Some (info\<lparr>iv_version := v, iv_mandatory := (atoi m = 1), iv_info := i, iv_locate_path := lp\<rparr>) }"

definition mysql_db_query_image_version ::
  "env \<Rightarrow> string \<Rightarrow> ImageVersions \<Rightarrow> string list \<Rightarrow> (int \<times> ImageVersions \<times> string list) option" where
  "mysql_db_query_image_version E sql info log = query_rows E sql version_row info log"

text \<open>\<open>con\<close> says whether the \<open>MYSQL\<close> pointer is non-null. The \<open>goto again\<close> after a
  successful ping repeats the command.\<close>

partial_function (option) mysql_db_excute ::
  "env \<Rightarrow> bool \<Rightarrow> string \<Rightarrow> string list \<Rightarrow> (int \<times> string list) option" where
  "mysql_db_excute E con sql log =
     (if \<not> con then Some (-1, log)
      else if length sql > 0 then
        (let log = sql # log; ret = db_real_query E log in
         if ret \<noteq> 0 then
           (if ret = CR_SERVER_GONE_ERROR then
              (if db_ping E log \<noteq> 0 then Some (CR_SERVER_GONE_ERROR, log)
               else mysql_db_excute E con sql log)
            else Some (-1, log))
         else Some (0, log))
      else Some (0, log))"

text \<open>The loop over rows and fields: the last non-null field read is what remains.\<close>

definition binary_rows :: "row list \<Rightarrow> string \<Rightarrow> string" where
  "binary_rows rows d = foldl (\<lambda>d c. case c of None \<Rightarrow> d | Some s \<Rightarrow> s) d (concat rows)"

partial_function (option) mysql_get_binary_data ::
  "env \<Rightarrow> bool \<Rightarrow> string \<Rightarrow> string \<Rightarrow> string list \<Rightarrow> (int \<times> string \<times> string list) option" where
  "mysql_get_binary_data E con sql d log =
     (if \<not> con then Some (-1, d, log)
      else if length sql > 0 then
        (let log = sql # log; ret = db_real_query E log in
         if ret \<noteq> 0 then
           (if ret = CR_SERVER_GONE_ERROR then
              (if db_ping E log \<noteq> 0 then Some (CR_SERVER_GONE_ERROR, d, log)
               else mysql_get_binary_data E con sql d log)
            else Some (-1, d, log))
         else (case db_result E log of
             None \<Rightarrow> Some (0, d, log)
           | Some rows \<Rightarrow> Some (0, binary_rows rows d, log)))
      else Some (0, d, log))"

section \<open>The commands of WorkThread\<close>

definition GetUsersInfoFromDB ::
  "env \<Rightarrow> string \<Rightarrow> UsersInfo \<Rightarrow> string list \<Rightarrow> (bool \<times> UsersInfo \<times> string list) option" where
  "GetUsersInfoFromDB E acct info log =
     (if acct = [] then Some (False, info, log)
      else do {
        let cmd = snprintf 254 (''SELECT * FROM users_info WHERE account='' @ [CHR 0x27] @ c_str acct @ [CHR 0x27]);
        (ret, info, log) \<leftarrow> mysql_db_query E cmd info log;
        Some (\<not> ret \<le> 0, info, log) })"

text \<open>A quoted argument, \<open>'%s'\<close>.\<close>

definition quoted :: "string \<Rightarrow> string" where
  "quoted s = [CHR 0x27] @ c_str s @ [CHR 0x27]"

text \<open>Formatting into a buffer of \<open>n\<close> bytes, executing, and testing the result.\<close>

definition run_cmd :: "env \<Rightarrow> bool \<Rightarrow> string \<Rightarrow> string list \<Rightarrow> (bool \<times> string list) option" where
  "run_cmd E con cmd log = do {
     (ret, log) \<leftarrow> mysql_db_excute E con cmd log;
     Some (ret = 0, log) }"

definition InsertUsersInfoToDB ::
  "env \<Rightarrow> bool \<Rightarrow> UsersInfo \<Rightarrow> string list \<Rightarrow> (bool \<times> string list) option" where
  "InsertUsersInfoToDB E con info log =
     run_cmd E con (snprintf 511 (
       ''INSERT INTO users_info (account,password,email,score,head_photo,user_name,phone) VALUES ('' @
       quoted (account info) @ '','' @ quoted (password info) @ '','' @ quoted (email info) @ '','' @
       dec_str (score info) @ '','' @ quoted (head_photo info) @ '','' @ quoted (user_name info) @ '','' @
       quoted (phone info) @ '')'')) log"

definition UpdateUserScoreToDB ::
  "env \<Rightarrow> bool \<Rightarrow> string \<Rightarrow> u32 \<Rightarrow> string list \<Rightarrow> (bool \<times> string list) option" where
  "UpdateUserScoreToDB E con acct sc log =
     run_cmd E con (snprintf 254 (
       ''UPDATE users_info SET score='' @ dec_str sc @ '' where account='' @ quoted acct)) log"

definition UpdateUserPasswordToDB ::
  "env \<Rightarrow> bool \<Rightarrow> string \<Rightarrow> string \<Rightarrow> string list \<Rightarrow> (bool \<times> string list) option" where
  "UpdateUserPasswordToDB E con acct pswd log =
     run_cmd E con (snprintf 254 (
       ''UPDATE users_info SET password='' @ quoted pswd @ '' WHERE account='' @ quoted acct)) log"

definition UpdateUserNameToDB ::
  "env \<Rightarrow> bool \<Rightarrow> string \<Rightarrow> string \<Rightarrow> string list \<Rightarrow> (bool \<times> string list) option" where
  "UpdateUserNameToDB E con acct name log =
     run_cmd E con (snprintf 254 (
       ''UPDATE users_info SET user_name='' @ quoted name @ '' WHERE account='' @ quoted acct)) log"

definition UpdateUserPhoneToDB ::
  "env \<Rightarrow> bool \<Rightarrow> string \<Rightarrow> string \<Rightarrow> string list \<Rightarrow> (bool \<times> string list) option" where
  "UpdateUserPhoneToDB E con acct phoneNo log =
     run_cmd E con (snprintf 254 (
       ''UPDATE users_info SET phone='' @ quoted phoneNo @ '' WHERE account='' @ quoted acct)) log"

definition UpdateUserEmailToDB ::
  "env \<Rightarrow> bool \<Rightarrow> string \<Rightarrow> string \<Rightarrow> string list \<Rightarrow> (bool \<times> string list) option" where
  "UpdateUserEmailToDB E con acct mail log =
     run_cmd E con (snprintf 254 (
       ''UPDATE users_info SET email='' @ quoted mail @ '' WHERE account='' @ quoted acct)) log"

text \<open>The command is built in a heap block of \<open>data.size() + data.size()*2/3 + 255\<close> bytes
  without a bounds check; a longer command (with its final NUL) is a write past the block.\<close>

definition head_image_cmd :: "env \<Rightarrow> string \<Rightarrow> string \<Rightarrow> string" where
  "head_image_cmd E acct data =
     ''UPDATE users_info SET head_photo='' @ [CHR 0x27] @ db_escape E data @ [CHR 0x27] @
     '' WHERE account='' @ quoted acct"

definition head_image_cap :: "string \<Rightarrow> nat" where
  "head_image_cap data = length data + length data * 2 div 3 + 255"

definition UpdateHeadImageToDB ::
  "env \<Rightarrow> bool \<Rightarrow> string \<Rightarrow> string \<Rightarrow> string list \<Rightarrow> (bool \<times> string list) option" where
  "UpdateHeadImageToDB E con acct data log =
     (let cmd = head_image_cmd E acct data in
      if length cmd + 1 \<le> head_image_cap data then run_cmd E con cmd log else None)"

definition GetHeadImageFromDB ::
  "env \<Rightarrow> bool \<Rightarrow> string \<Rightarrow> string \<Rightarrow> string list \<Rightarrow> (bool \<times> string \<times> string list) option" where
  "GetHeadImageFromDB E con acct d log = do {
     (ret, d, log) \<leftarrow> mysql_get_binary_data E con
        (snprintf 254 (''SELECT head_photo FROM users_info WHERE account='' @ quoted acct)) d log;
     Some (ret = 0, d, log) }"

definition GetAdPicturesInfoFromDB ::
  "env \<Rightarrow> u32 \<Rightarrow> AdPicturesInfo \<Rightarrow> string list \<Rightarrow> (bool \<times> AdPicturesInfo \<times> string list) option" where
  "GetAdPicturesInfoFromDB E i info log = do {
     (ret, info, log) \<leftarrow> mysql_db_query_ad_info E
        (snprintf 254 (''SELECT * FROM ad_pictures WHERE id='' @ dec_str i)) info log;
     Some (if ret \<le> 0 then (False, info\<lparr>existed := False\<rparr>, log) else (True, info, log)) }"

definition GetImageVersionInfoFromDB ::
  "env \<Rightarrow> ImageVersions \<Rightarrow> string list \<Rightarrow> (bool \<times> ImageVersions \<times> string list) option" where
  "GetImageVersionInfoFromDB E info log = do {
     (ret, info, log) \<leftarrow> mysql_db_query_image_version E
        ''SELECT version, mandatory_update, image_info, locate_path FROM image_version ORDER BY id DESC limit 1''
        info log;
     Some (if ret \<le> 0 then (False, info\<lparr>iv_version := []\<rparr>, log) else (True, info, log)) }"

section \<open>What the layer guarantees\<close>

text \<open>The documented results of \<open>mysql_real_query\<close> are zero and nonzero for an error; the error
  number itself is read with \<open>mysql_errno\<close>. A library that keeps to this never makes the retry
  branch run.\<close>

definition db_plain :: "env \<Rightarrow> bool" where
  "db_plain E \<longleftrightarrow> (\<forall>log. db_real_query E log \<noteq> CR_SERVER_GONE_ERROR)"

definition excute_once :: "env \<Rightarrow> bool \<Rightarrow> string \<Rightarrow> string list \<Rightarrow> int \<times> string list" where
  "excute_once E con sql log =
     (if \<not> con then (-1, log) else if sql = [] then (0, log)
      else (if db_real_query E (sql # log) = 0 then 0 else -1, sql # log))"

lemma mysql_db_excute_plain:
  "db_plain E \<Longrightarrow> mysql_db_excute E con sql log = Some (excute_once E con sql log)"
  by (subst mysql_db_excute.simps) (auto simp: db_plain_def excute_once_def Let_def)

text \<open>Without that assumption: whenever the loop returns, it has sent nothing but copies of its
  command, so each retry is the same command again.\<close>

lemma mysql_db_excute_log:
  assumes "mysql_db_excute E con sql log = Some (r, log')"
  shows "(\<exists>n. log' = replicate n sql @ log) \<and> (r = 0 \<or> r = -1 \<or> r = CR_SERVER_GONE_ERROR)"
proof -
  have "\<exists>n. snd rl = replicate n sql @ log \<and> fst rl \<in> {0, -1, CR_SERVER_GONE_ERROR}"
    if "mysql_db_excute E con sql log = Some rl" for rl
  proof (rule mysql_db_excute.raw_induct
      [where P = "\<lambda>E con sql log rl. \<exists>n. snd rl = replicate n sql @ log \<and> fst rl \<in> {0, -1, CR_SERVER_GONE_ERROR}",
        OF _ that], goal_cases)
    case (1 exc E con sql log rl)
    have nil: "\<exists>n. l = replicate n sql @ l" for l by (rule exI [of _ 0]) simp
    have one: "\<exists>n. sql # l = replicate n sql @ l" for l by (rule exI [of _ 1]) simp
    have more: "\<exists>n. l' = replicate n sql @ l"
      if "\<exists>n. l' = replicate n sql @ sql # l" for l l'
    proof -
      from that obtain n where "l' = replicate n sql @ sql # l" by blast
      then have "l' = replicate (Suc n) sql @ l" by (simp add: replicate_app_Cons_same)
      then show ?thesis by blast
    qed
    show ?case
      using 1(2) nil one more 1(1)[of E con sql "sql # log" rl]
      by (auto simp: Let_def split: if_splits)
  qed
  from this[OF assms] show ?thesis by auto
qed

lemma run_cmd_plain:
  "db_plain E \<Longrightarrow> run_cmd E con cmd log =
     Some (fst (excute_once E con cmd log) = 0, snd (excute_once E con cmd log))"
  by (simp add: run_cmd_def mysql_db_excute_plain split: prod.split)

text \<open>The commands that \<open>snprintf\<close> bounds never exceed their buffers.\<close>

lemma score_cmd_fits: "length (snprintf 254 cmd) < 255"
  using length_snprintf[of 254 cmd] by simp

text \<open>When the head-photo command stays inside its block: the escaped data and the account
  together may exceed the raw data by at most two thirds of it plus 202 characters.\<close>

lemma head_image_fits:
  "length (head_image_cmd E acct data) + 1 \<le> head_image_cap data \<longleftrightarrow>
     length (db_escape E data) + length (c_str acct) \<le> length data + length data * 2 div 3 + 202"
  by (auto simp: head_image_cmd_def head_image_cap_def quoted_def)

lemma query_rows_SomeD:
  "query_rows E sql f info log = Some (r, info', log') \<Longrightarrow> log' = sql # log"
  by (auto simp: query_rows_def Let_def split: if_splits option.splits elim!: bind_SomeE)

end
