(* ===== verification/Board.thy ===== *)
theory Board
  imports Session
begin

text \<open>
  One chess board (class ChessBoard of chessboard.h) as an object by itself: its seats, its
  user counter and the members of chessboard.cpp that touch nothing else. A seat holds the
  address of a session. The members that read the seated sessions or send messages are in
  Handlers. The mutex of \<open>AddUser\<close> and \<open>LeaveOutRoom\<close> makes each of them one atomic step.
\<close>

record ChessBoard =
  leftUser :: "sid option"
  rightUser :: "sid option"
  bottomUser :: "sid option"
  chessBoardID :: u32
  currentHall :: u32
  currUserNum :: u32
  first_come_user_locate :: u32
  total_time :: u32
  single_step_time :: u32
  recent_winner_locate :: u32
  recent_loser_locate :: u32

definition ChessBoard_new :: "u32 \<Rightarrow> u32 \<Rightarrow> ChessBoard" where
  "ChessBoard_new i hall = \<lparr>leftUser = None, rightUser = None, bottomUser = None,
     chessBoardID = i, currentHall = hall, currUserNum = 0,
     first_come_user_locate = LOCATION_MAX, total_time = 0, single_step_time = 0,
     recent_winner_locate = LOCATION_MAX, recent_loser_locate = LOCATION_MAX\<rparr>"

definition GetUserByLocation :: "u32 \<Rightarrow> ChessBoard \<Rightarrow> sid option" where
  "GetUserByLocation l b =
     (if l = LOCATION_LEFT then leftUser b
      else if l = LOCATION_RIGHT then rightUser b
      else if l = LOCATION_BOTTOM then bottomUser b
      else None)"

definition HasFullUsers :: "ChessBoard \<Rightarrow> bool" where
  "HasFullUsers b \<longleftrightarrow> currUserNum b = 3"

definition GetUserNum :: "ChessBoard \<Rightarrow> u32" where
  "GetUserNum b = currUserNum b"

definition GetChessBoardID :: "ChessBoard \<Rightarrow> u32" where
  "GetChessBoardID b = chessBoardID b"

text \<open>\<open>AddUser(user)\<close>: the session pointer and the session's \<open>locate\<close>.\<close>

definition AddUser :: "sid option \<Rightarrow> u32 \<Rightarrow> ChessBoard \<Rightarrow> bool \<times> ChessBoard" where
  "AddUser user l b =
     (if user \<noteq> None \<and> \<not> HasFullUsers b then
        (if l = LOCATION_LEFT then
           (if leftUser b = None
            then (True, b\<lparr>leftUser := user, currUserNum := currUserNum b + 1\<rparr>) else (False, b))
         else if l = LOCATION_RIGHT then
           (if rightUser b = None
            then (True, b\<lparr>rightUser := user, currUserNum := currUserNum b + 1\<rparr>) else (False, b))
         else if l = LOCATION_BOTTOM then
           (if bottomUser b = None
            then (True, b\<lparr>bottomUser := user, currUserNum := currUserNum b + 1\<rparr>) else (False, b))
         else (False, b))
      else (False, b))"

definition clear_seat :: "u32 \<Rightarrow> ChessBoard \<Rightarrow> bool \<times> ChessBoard" where
  "clear_seat l b =
     (if l = LOCATION_LEFT then
        (if leftUser b \<noteq> None
         then (True, b\<lparr>leftUser := None, currUserNum := currUserNum b - 1\<rparr>) else (False, b))
      else if l = LOCATION_RIGHT then
        (if rightUser b \<noteq> None
         then (True, b\<lparr>rightUser := None, currUserNum := currUserNum b - 1\<rparr>) else (False, b))
      else if l = LOCATION_BOTTOM then
        (if bottomUser b \<noteq> None
         then (True, b\<lparr>bottomUser := None, currUserNum := currUserNum b - 1\<rparr>) else (False, b))
      else (False, b))"

definition forget_first :: "u32 \<Rightarrow> ChessBoard \<Rightarrow> ChessBoard" where
  "forget_first l b =
     (if l = first_come_user_locate b then b\<lparr>first_come_user_locate := LOCATION_MAX\<rparr> else b)"

text \<open>\<open>LeaveOutRoom(const UserSession *)\<close>: given \<open>user->locate\<close> of a session that is not null
  (a null one is dereferenced after the switch).\<close>

definition LeaveOutRoom :: "u32 \<Rightarrow> ChessBoard \<Rightarrow> bool \<times> ChessBoard" where
  "LeaveOutRoom l b =
     (let (ret, b) = (if GetUserNum b > 0 then clear_seat l b else (False, b))
      in (ret, forget_first l b))"

text \<open>The overload \<open>LeaveOutRoom(const Location &)\<close> does the same for a seat number.\<close>

definition LeaveOutRoom_at :: "u32 \<Rightarrow> ChessBoard \<Rightarrow> bool \<times> ChessBoard" where
  "LeaveOutRoom_at l b =
     (let (ret, b) = (if GetUserNum b > 0 then clear_seat l b else (False, b))
      in (ret, forget_first l b))"

section \<open>The seat counter\<close>

definition seats :: "u32 list" where
  "seats = [LOCATION_LEFT, LOCATION_RIGHT, LOCATION_BOTTOM]"

definition seated :: "ChessBoard \<Rightarrow> sid list" where
  "seated b = List.map_filter (\<lambda>l. GetUserByLocation l b) seats"

definition board_ok :: "ChessBoard \<Rightarrow> bool" where
  "board_ok b \<longleftrightarrow> currUserNum b = of_nat (length (seated b))"

lemma seats_distinct [simp]:
  "LOCATION_LEFT \<noteq> LOCATION_RIGHT" "LOCATION_LEFT \<noteq> LOCATION_BOTTOM"
  "LOCATION_RIGHT \<noteq> LOCATION_LEFT" "LOCATION_RIGHT \<noteq> LOCATION_BOTTOM"
  "LOCATION_BOTTOM \<noteq> LOCATION_LEFT" "LOCATION_BOTTOM \<noteq> LOCATION_RIGHT"
  "LOCATION_MAX \<noteq> LOCATION_LEFT" "LOCATION_MAX \<noteq> LOCATION_RIGHT" "LOCATION_MAX \<noteq> LOCATION_BOTTOM"
  "LOCATION_LEFT \<noteq> LOCATION_MAX" "LOCATION_RIGHT \<noteq> LOCATION_MAX" "LOCATION_BOTTOM \<noteq> LOCATION_MAX"
  by (simp_all add: loc_defs)

lemma set_seats [simp]: "set seats = {LOCATION_LEFT, LOCATION_RIGHT, LOCATION_BOTTOM}"
  by (simp add: seats_def)

lemma seated_eq:
  "seated b = (case leftUser b of None \<Rightarrow> [] | Some s \<Rightarrow> [s]) @
     (case rightUser b of None \<Rightarrow> [] | Some s \<Rightarrow> [s]) @
     (case bottomUser b of None \<Rightarrow> [] | Some s \<Rightarrow> [s])"
  by (auto simp: seated_def seats_def map_filter_simps GetUserByLocation_def split: option.split)

lemma seated_bound: "length (seated b) \<le> 3"
  by (auto simp: seated_eq split: option.split)

lemma GetUserByLocation_simps [simp]:
  "GetUserByLocation LOCATION_LEFT b = leftUser b"
  "GetUserByLocation LOCATION_RIGHT b = rightUser b"
  "GetUserByLocation LOCATION_BOTTOM b = bottomUser b"
  "GetUserByLocation LOCATION_MAX b = None"
  by (simp_all add: GetUserByLocation_def)

lemma GetUserByLocation_seat: "GetUserByLocation l b = Some s \<Longrightarrow> l \<in> set seats"
  by (auto simp: GetUserByLocation_def split: if_splits)

lemma GetUserByLocation_none: "l \<notin> set seats \<Longrightarrow> GetUserByLocation l b = None"
  by (auto simp: GetUserByLocation_def)

lemma board_ok_new [simp]: "board_ok (ChessBoard_new i h)"
  by (simp add: board_ok_def ChessBoard_new_def seated_eq)

lemma board_ok_bound: "board_ok b \<Longrightarrow> unat (currUserNum b) \<le> 3"
  using seated_bound[of b] by (auto simp: board_ok_def seated_eq split: option.splits)

lemma board_ok_full:
  "board_ok b \<Longrightarrow> HasFullUsers b \<longleftrightarrow> leftUser b \<noteq> None \<and> rightUser b \<noteq> None \<and> bottomUser b \<noteq> None"
  by (auto simp: HasFullUsers_def board_ok_def seated_eq split: option.splits)

lemma board_ok_pos: "board_ok b \<Longrightarrow> GetUserByLocation l b = Some s \<Longrightarrow> 0 < GetUserNum b"
  by (auto simp: GetUserByLocation_def GetUserNum_def board_ok_def seated_eq
      split: option.splits if_splits)

lemma AddUser_ok: "board_ok b \<Longrightarrow> board_ok (snd (AddUser u l b))"
  by (auto simp: AddUser_def board_ok_def seated_eq split: option.splits)

lemma forget_first_frame [simp]:
  "leftUser (forget_first l b) = leftUser b" "rightUser (forget_first l b) = rightUser b"
  "bottomUser (forget_first l b) = bottomUser b" "currUserNum (forget_first l b) = currUserNum b"
  "GetUserByLocation l' (forget_first l b) = GetUserByLocation l' b"
  "chessBoardID (forget_first l b) = chessBoardID b"
  by (simp_all add: forget_first_def GetUserByLocation_def)

lemma clear_seat_ok: "board_ok b \<Longrightarrow> board_ok (snd (clear_seat l b))"
  by (auto simp: clear_seat_def board_ok_def seated_eq split: option.splits)

lemma board_ok_forget [simp]: "board_ok (forget_first l b) = board_ok b"
  by (simp add: board_ok_def seated_eq)

lemma LeaveOutRoom_ok: "board_ok b \<Longrightarrow> board_ok (snd (LeaveOutRoom l b))"
  using clear_seat_ok[of b l] by (auto simp: LeaveOutRoom_def split: prod.splits)

text \<open>When \<open>AddUser\<close> succeeds, and what the seats are afterwards.\<close>

lemma AddUser_iff:
  "board_ok b \<Longrightarrow>
     fst (AddUser (Some s) l b) \<longleftrightarrow> l \<in> set seats \<and> GetUserByLocation l b = None"
  by (auto simp: AddUser_def board_ok_full)

lemma AddUser_seat:
  "GetUserByLocation l' (snd (AddUser (Some s) l b)) =
     (if fst (AddUser (Some s) l b) \<and> l' = l then Some s else GetUserByLocation l' b)"
  by (auto simp: AddUser_def GetUserByLocation_def)

lemma AddUser_fail: "\<not> fst (AddUser u l b) \<Longrightarrow> snd (AddUser u l b) = b"
  by (auto simp: AddUser_def split: if_splits)

lemma LeaveOutRoom_iff:
  "board_ok b \<Longrightarrow> fst (LeaveOutRoom l b) \<longleftrightarrow> GetUserByLocation l b \<noteq> None"
  using board_ok_pos[of b l]
  by (auto simp: LeaveOutRoom_def clear_seat_def GetUserByLocation_def split: if_splits)

lemma LeaveOutRoom_seat:
  "board_ok b \<Longrightarrow> GetUserByLocation l' (snd (LeaveOutRoom l b)) =
     (if l' = l then None else GetUserByLocation l' b)"
  using board_ok_pos[of b l]
  by (auto simp: LeaveOutRoom_def clear_seat_def GetUserByLocation_def split: if_splits)

lemma LeaveOutRoom_at_eq: "LeaveOutRoom_at l b = LeaveOutRoom l b"
  by (simp add: LeaveOutRoom_at_def LeaveOutRoom_def)

lemma AddUser_fields [simp]:
  "chessBoardID (snd (AddUser u l b)) = chessBoardID b"
  "currentHall (snd (AddUser u l b)) = currentHall b"
  "first_come_user_locate (snd (AddUser u l b)) = first_come_user_locate b"
  by (auto simp: AddUser_def)

section \<open>The contract of a table with seats\<close>

text \<open>What the session states rely on when they seat and unseat users.\<close>

locale seating =
  fixes seat :: "'l \<Rightarrow> 'b \<Rightarrow> 's option"
    and sit :: "'s \<Rightarrow> 'l \<Rightarrow> 'b \<Rightarrow> bool \<times> 'b"
    and leave :: "'l \<Rightarrow> 'b \<Rightarrow> bool \<times> 'b"
    and valid :: "'l \<Rightarrow> bool"
    and ok :: "'b \<Rightarrow> bool"
  assumes ok_sit: "ok b \<Longrightarrow> ok (snd (sit s l b))"
    and ok_leave: "ok b \<Longrightarrow> ok (snd (leave l b))"
    and sit_iff: "ok b \<Longrightarrow> fst (sit s l b) \<longleftrightarrow> valid l \<and> seat l b = None"
    and leave_iff: "ok b \<Longrightarrow> fst (leave l b) \<longleftrightarrow> seat l b \<noteq> None"
    and seat_sit: "ok b \<Longrightarrow> seat l' (snd (sit s l b)) =
          (if fst (sit s l b) \<and> l' = l then Some s else seat l' b)"
    and seat_leave: "ok b \<Longrightarrow> seat l' (snd (leave l b)) = (if l' = l then None else seat l' b)"
begin

text \<open>Nobody is displaced, a seat taken is refused, and leaving undoes sitting.\<close>

lemma not_displaced: "ok b \<Longrightarrow> seat l' b = Some s' \<Longrightarrow> seat l' (snd (sit s l b)) = Some s'"
  by (auto simp: seat_sit sit_iff)

lemma refused: "ok b \<Longrightarrow> seat l b = Some s' \<Longrightarrow> \<not> fst (sit s l b)"
  by (simp add: sit_iff)

lemma sit_leave:
  assumes "ok b" "fst (sit s l b)"
  shows "fst (leave l (snd (sit s l b))) \<and>
    seat l' (snd (leave l (snd (sit s l b)))) = seat l' b"
proof -
  have ok': "ok (snd (sit s l b))" using assms(1) by (rule ok_sit)
  have "seat l b = None" using assms by (simp add: sit_iff)
  with assms ok' show ?thesis by (simp add: leave_iff seat_leave seat_sit)
qed

end

interpretation cb: seating GetUserByLocation "\<lambda>s. AddUser (Some s)" LeaveOutRoom
    "\<lambda>l. l \<in> set seats" board_ok
  by unfold_locales
    (simp_all add: AddUser_ok LeaveOutRoom_ok AddUser_iff LeaveOutRoom_iff AddUser_seat
      LeaveOutRoom_seat del: set_seats)

end
