(* ===== verification/Framing.thy ===== *)
theory Framing
  imports Session
begin

text \<open>
  The wire format of thread.cpp: a frame is a little-endian \<open>u_int32\<close> total length (header
  included), a little-endian \<open>u_int32\<close> message type, and the payload. \<open>OnWrite\<close> builds it with
  three \<open>memcpy\<close>s, \<open>OnReadCb\<close> reads the header back through \<open>u_int32\<close> pointers; the host is
  little-endian, as the client at the other end is.
\<close>

definition le32 :: "u32 \<Rightarrow> bytes" where
  "le32 x = [ucast x, ucast (drop_bit 8 x), ucast (drop_bit 16 x), ucast (drop_bit 24 x)]"

text \<open>\<open>*((u_int32 * )p)\<close> at offset \<open>i\<close> of a byte array.\<close>

definition get_le32 :: "nat \<Rightarrow> bytes \<Rightarrow> u32" where
  "get_le32 i bs = ucast (bs ! i) + push_bit 8 (ucast (bs ! (i + 1))) +
     push_bit 16 (ucast (bs ! (i + 2))) + push_bit 24 (ucast (bs ! (i + 3)))"

text \<open>The bytes \<open>OnWrite\<close> hands to the bufferevent: \<open>totalSize\<close> is computed in \<open>size_t\<close> and cut
  to \<open>u_int32\<close>, and that many bytes of the buffer are written.\<close>

definition wire_frame :: "u32 \<Rightarrow> bytes \<Rightarrow> bytes" where
  "wire_frame ty data =
     (let totalSize = (of_nat (length data + DATA_HEAD_LENGTH) :: u32)
      in take (unat totalSize) (le32 totalSize @ le32 ty @ data))"

lemma length_le32 [simp]: "length (le32 x) = 4"
  by (simp add: le32_def)

lemma nat_bytes:
  assumes "n < 2 ^ 32"
  shows "n mod 256 + (n div 2 ^ 8 mod 256) * 2 ^ 8 + (n div 2 ^ 16 mod 256) * 2 ^ 16 +
    (n div 2 ^ 24 mod 256) * 2 ^ 24 = (n :: nat)"
proof -
  define q1 q2 q3 where q: "q1 = n div 256" "q2 = q1 div 256" "q3 = q2 div 256"
  have "n div 2 ^ 8 = q1" "n div 2 ^ 16 = q2" "n div 2 ^ 24 = q3"
    by (simp_all add: q div_mult2_eq [symmetric])
  moreover have "n = 256 * q1 + n mod 256" "q1 = 256 * q2 + q1 mod 256" "q2 = 256 * q3 + q2 mod 256"
    by (simp_all add: q)
  moreover have "q3 mod 256 = q3"
    using assms by (simp add: q div_mult2_eq [symmetric])
  ultimately show ?thesis by simp
qed

lemma le32_bits:
  "(ucast (ucast x :: u8) :: u32) + push_bit 8 (ucast (ucast (drop_bit 8 x) :: u8)) +
     push_bit 16 (ucast (ucast (drop_bit 16 x) :: u8)) +
     push_bit 24 (ucast (ucast (drop_bit 24 x) :: u8)) = x"
proof -
  have u: "unat x < 2 ^ 32" using unsigned_less[of x, where ?'a = nat] by simp
  have b: "(ucast (ucast (drop_bit k x) :: u8) :: u32) = of_nat (unat x div 2 ^ k mod 256)" for k
  proof (rule word_unat_eq_iff [THEN iffD2])
    have "unat (drop_bit k x) = unat x div 2 ^ k"
      using unat_drop_bit_eq[of k x] by (simp only: drop_bit_eq_div [of k "unat x"])
    then show "unat (ucast (ucast (drop_bit k x) :: u8) :: u32) = unat (of_nat (unat x div 2 ^ k mod 256) :: u32)"
      by (simp add: unsigned_ucast_eq take_bit_eq_mod unat_of_nat unat_mod del: of_nat_mod)
  qed
  have b0: "(ucast (ucast x :: u8) :: u32) = of_nat (unat x mod 256)"
    using b[of 0] by simp
  have "of_nat (unat x mod 256 + (unat x div 2 ^ 8 mod 256) * 2 ^ 8 + (unat x div 2 ^ 16 mod 256) * 2 ^ 16 +
      (unat x div 2 ^ 24 mod 256) * 2 ^ 24) = x"
    unfolding nat_bytes [OF u] by simp
  then show ?thesis
    unfolding b b0 push_bit_eq_mult of_nat_add of_nat_mult of_nat_power of_nat_numeral .
qed

lemma get_le32_le32: "get_le32 0 (le32 x @ r) = x"
  using le32_bits[of x] by (simp add: get_le32_def le32_def)

lemma get_le32_append: "length a = i \<Longrightarrow> get_le32 i (a @ r) = get_le32 0 r"
  by (simp add: get_le32_def nth_append numeral_2_eq_2 numeral_3_eq_3)

text \<open>The contract of the frame: what the sender writes the receiver reads.\<close>

locale frame_codec =
  fixes enc :: "u32 \<Rightarrow> bytes \<Rightarrow> bytes"
    and size_of :: "bytes \<Rightarrow> u32"
    and type_of :: "bytes \<Rightarrow> u32"
    and body_of :: "bytes \<Rightarrow> bytes"
    and fits :: "bytes \<Rightarrow> bool"
  assumes enc_size: "fits d \<Longrightarrow> unat (size_of (enc ty d)) = length (enc ty d)"
    and enc_type: "fits d \<Longrightarrow> type_of (enc ty d) = ty"
    and enc_body: "fits d \<Longrightarrow> body_of (enc ty d) = d"
    and enc_head: "fits d \<Longrightarrow> 8 \<le> length (enc ty d)"
begin

text \<open>Two frames are equal only if they carry the same type and payload.\<close>

lemma enc_inject:
  assumes "fits d" "fits d'" "enc ty d = enc ty' d'"
  shows "ty = ty' \<and> d = d'"
  using assms enc_type[of d ty] enc_type[of d' ty'] enc_body[of d ty] enc_body[of d' ty'] by simp

text \<open>The declared size is never smaller than the header.\<close>

lemma enc_size_head: "fits d \<Longrightarrow> 8 \<le> unat (size_of (enc ty d))"
  by (simp add: enc_size enc_head)

end

definition frame_fits :: "bytes \<Rightarrow> bool" where
  "frame_fits d \<longleftrightarrow> length d + DATA_HEAD_LENGTH < 2 ^ 32"

lemma wire_frame_eq:
  "frame_fits d \<Longrightarrow>
     wire_frame ty d = le32 (of_nat (length d + DATA_HEAD_LENGTH)) @ le32 ty @ d"
proof -
  assume "frame_fits d"
  then have "unat (of_nat (length d + DATA_HEAD_LENGTH) :: u32) = length d + DATA_HEAD_LENGTH"
    by (simp add: frame_fits_def unat_of_nat del: of_nat_add)
  then show ?thesis
    by (simp add: wire_frame_def DATA_HEAD_LENGTH_def Let_def del: of_nat_add)
qed

interpretation wf: frame_codec wire_frame "get_le32 0" "get_le32 4" "drop DATA_HEAD_LENGTH" frame_fits
proof
  fix d :: bytes and ty :: u32
  assume d: "frame_fits d"
  let ?t = "of_nat (length d + DATA_HEAD_LENGTH) :: u32"
  have len: "length (wire_frame ty d) = length d + DATA_HEAD_LENGTH"
    using d by (simp add: wire_frame_eq DATA_HEAD_LENGTH_def)
  show "unat (get_le32 0 (wire_frame ty d)) = length (wire_frame ty d)"
    unfolding len using d
    by (simp add: wire_frame_eq get_le32_le32 frame_fits_def unat_of_nat del: of_nat_add)
  have "get_le32 4 (le32 ?t @ le32 ty @ d) = get_le32 0 (le32 ty @ d)"
    by (rule get_le32_append) simp
  then show "get_le32 4 (wire_frame ty d) = ty"
    using d by (simp add: wire_frame_eq get_le32_le32)
  show "drop DATA_HEAD_LENGTH (wire_frame ty d) = d"
    using d by (simp add: wire_frame_eq DATA_HEAD_LENGTH_def)
  show "8 \<le> length (wire_frame ty d)"
    unfolding len by (simp add: DATA_HEAD_LENGTH_def)
qed

end
