(* ===== verification/Server_State.thy ===== *)
theory Server_State
  imports Sql Board Framing
begin

text \<open>
  The state the worker thread's callbacks work on, and the operations that read or write
  it through pointers: the heap of sessions and boards, the halls, the threads with their
  session maps, the session pool, and two logs of what left the process (the frames handed
  to the bufferevents and the SQL commands, both newest first).

  A callback runs to its end before the next one starts: server.cpp creates one worker
  thread, so an operation of the model is a whole function of the code.
\<close>

record GameHall =
  gameHallID :: u32
  chessBoardMaxNum :: u32
  chessBoardInfo :: "(u32 \<times> bid) list"

record PipeMsg =
  command :: u8
  pipe_fd :: int

record WorkThread =
  fdSessionMap :: "(int \<times> sid) list"
  pdb_con :: bool
  notify_pipe :: "PipeMsg list"
  loop_exit :: bool

record world =
  sess :: "sid \<Rightarrow> UserSession option"
  sess_next :: sid
  boards :: "bid \<Rightarrow> ChessBoard option"
  halls :: "u32 \<Rightarrow> GameHall option"
  GameHallMap :: "(u32 \<times> u32) list"
  threadList :: "WorkThread list"
  lastSelectIndex :: u8
  sessionList :: "sid list"
  netlog :: "(int \<times> bytes) list"
  dblog :: "string list"
  closed_fds :: "int list"
  fpw_requests :: "string list"

definition gameHallMaxNum :: u32 where "gameHallMaxNum = 5"
definition chessBoardMax :: u32 where "chessBoardMax = 60"

section \<open>Access through pointers\<close>

definition upd_sess :: "sid \<Rightarrow> (UserSession \<Rightarrow> UserSession) \<Rightarrow> world \<Rightarrow> world option" where
  "upd_sess s f w = (case sess w s of None \<Rightarrow> None | Some u \<Rightarrow> Some (w\<lparr>sess := (sess w)(s \<mapsto> f u)\<rparr>))"

definition upd_board :: "bid \<Rightarrow> (ChessBoard \<Rightarrow> ChessBoard) \<Rightarrow> world \<Rightarrow> world option" where
  "upd_board b f w = (case boards w b of None \<Rightarrow> None | Some cb \<Rightarrow> Some (w\<lparr>boards := (boards w)(b \<mapsto> f cb)\<rparr>))"

definition the_thread :: "nat option \<Rightarrow> world \<Rightarrow> WorkThread option" where
  "the_thread t w = (case t of None \<Rightarrow> None
     | Some i \<Rightarrow> if i < length (threadList w) then Some (threadList w ! i) else None)"

text \<open>A database call through the connection of a thread.\<close>

definition lift_db :: "(string list \<Rightarrow> ('a \<times> string list) option) \<Rightarrow> world \<Rightarrow> ('a \<times> world) option" where
  "lift_db f w = do { (r, log) \<leftarrow> f (dblog w); Some (r, w\<lparr>dblog := log\<rparr>) }"

definition lift_db3 ::
  "(string list \<Rightarrow> (bool \<times> 'a \<times> string list) option) \<Rightarrow> world \<Rightarrow> (bool \<times> 'a \<times> world) option" where
  "lift_db3 f w = do { (r, i, log) \<leftarrow> f (dblog w); Some (r, i, w\<lparr>dblog := log\<rparr>) }"

section \<open>Sending\<close>

text \<open>\<open>OnWrite\<close> gets its buffer before it tests its arguments; a null session is already
  dereferenced then.\<close>

definition OnWrite :: "int \<Rightarrow> u32 \<Rightarrow> bytes \<Rightarrow> sid \<Rightarrow> world \<Rightarrow> (bool \<times> world) option" where
  "OnWrite iCliFd ty data s w = do {
     w \<leftarrow> upd_sess s (GetBuffer (length data + DATA_HEAD_LENGTH)) w;
     u \<leftarrow> sess w s;
     if iCliFd < 0 then Some (False, w)
     else if \<not> bufev u then None
     else Some (True, w\<lparr>netlog := (iCliFd, wire_frame ty data) # netlog w\<rparr>) }"

definition MessageReply :: "sid \<Rightarrow> MessageType \<Rightarrow> bytes \<Rightarrow> world \<Rightarrow> (bool \<times> world) option" where
  "MessageReply s ty data w = do {
     u \<leftarrow> sess w s;
     _ \<leftarrow> the_thread (thread u) w;
     OnWrite (clifd u) (mt_code ty) data s w }"

definition reply :: "sid \<Rightarrow> MessageType \<Rightarrow> bytes \<Rightarrow> world \<Rightarrow> world option" where
  "reply s ty data w = map_option snd (MessageReply s ty data w)"

text \<open>\<open>locate_filter\<close> is the seat that does not get the message (\<open>LOCATION_MAX\<close>: all get it).\<close>

definition BroadCastMsg :: "bid \<Rightarrow> MessageType \<Rightarrow> bytes \<Rightarrow> u32 \<Rightarrow> world \<Rightarrow> world option" where
  "BroadCastMsg b ty data locate_filter w =
     for_each (\<lambda>l w.
        if l \<noteq> locate_filter then do {
          cb \<leftarrow> boards w b;
          case GetUserByLocation l cb of None \<Rightarrow> Some w | Some s \<Rightarrow> reply s ty data w }
        else Some w) seats w"

section \<open>Scores\<close>

definition IncreaseScore :: "env \<Rightarrow> u32 \<Rightarrow> sid \<Rightarrow> world \<Rightarrow> world option" where
  "IncreaseScore E n s w = do {
     w \<leftarrow> upd_sess s (score_add n) w;
     u \<leftarrow> sess w s;
     t \<leftarrow> the_thread (thread u) w;
     (_, w) \<leftarrow> lift_db (UpdateUserScoreToDB E (pdb_con t) (account (user_info u)) (score (user_info u))) w;
     Some w }"

definition ReduceScore :: "env \<Rightarrow> u32 \<Rightarrow> sid \<Rightarrow> world \<Rightarrow> world option" where
  "ReduceScore E n s w = do {
     w \<leftarrow> upd_sess s (score_sub n) w;
     u \<leftarrow> sess w s;
     t \<leftarrow> the_thread (thread u) w;
     (_, w) \<leftarrow> lift_db (UpdateUserScoreToDB E (pdb_con t) (account (user_info u)) (score (user_info u))) w;
     Some w }"

section \<open>Halls\<close>

definition GetChessValidBoardNum :: "GameHall \<Rightarrow> u32" where
  "GetChessValidBoardNum h = of_nat (length (chessBoardInfo h))"

definition GetExpectedTotalPeopleNum :: "GameHall \<Rightarrow> u32" where
  "GetExpectedTotalPeopleNum h = chessBoardMaxNum h * 3"

definition GetGameHallID :: "GameHall \<Rightarrow> u32" where
  "GetGameHallID h = gameHallID h"

text \<open>The stored board pointers are non-null; each is dereferenced.\<close>

definition GetCurrentPeopleNum :: "GameHall \<Rightarrow> world \<Rightarrow> u32 option" where
  "GetCurrentPeopleNum h w =
     for_each (\<lambda>(_, b) n. do { cb \<leftarrow> boards w b; Some (n + GetUserNum cb) }) (chessBoardInfo h) 0"

definition CreateChessBoard :: "u32 \<Rightarrow> u32 \<Rightarrow> world \<Rightarrow> (bool \<times> world) option" where
  "CreateChessBoard h i w = do {
     hall \<leftarrow> halls w h;
     if GetChessValidBoardNum hall > chessBoardMaxNum hall then Some (False, w)
     else Some (True, w\<lparr>boards := (boards w)((h, i) \<mapsto> ChessBoard_new i h),
       halls := (halls w)(h \<mapsto> hall\<lparr>chessBoardInfo := sm_insert i (h, i) (chessBoardInfo hall)\<rparr>)\<rparr>) }"

text \<open>
  \<open>GetChessBoardByID\<close> reads \<open>chessBoardInfo.find(id)->second\<close> without comparing with \<open>end()\<close>.
  For a board that does not exist yet this reads through the past-the-end iterator. The read
  is undefined in C++; the code goes on only because the library's header node happens to be
  followed by memory that reads as a null pointer. \<open>end_reads_null\<close> says so.
\<close>

definition GetChessBoardByID :: "env \<Rightarrow> u32 \<Rightarrow> u32 \<Rightarrow> world \<Rightarrow> (bid option \<times> world) option" where
  "GetChessBoardByID E h i w = do {
     hall \<leftarrow> halls w h;
     if i \<le> 0 \<or> i > chessBoardMaxNum hall then Some (None, w)
     else case sm_find i (chessBoardInfo hall) of
         Some b \<Rightarrow> Some (Some b, w)
       | None \<Rightarrow>
           if \<not> end_reads_null E then None
           else do {
             (ok, w) \<leftarrow> CreateChessBoard h i w;
             if ok then do {
               hall \<leftarrow> halls w h;
               b \<leftarrow> sm_find i (chessBoardInfo hall);
               Some (Some b, w) }
             else Some (None, w) } }"

text \<open>\<open>MainThread::GetGameHall\<close>; the inner option is the pointer.\<close>

definition GetGameHall :: "u32 \<Rightarrow> world \<Rightarrow> u32 option option" where
  "GetGameHall i w =
     (if i < 1 \<or> i > gameHallMaxNum then Some None
      else case sm_find i (GameHallMap w) of None \<Rightarrow> None | Some h \<Rightarrow> Some (Some h))"

section \<open>Describing boards and halls to clients\<close>

definition empty_seat_info :: ChessBoardUser where
  "empty_seat_info = \<lparr>cu_chess_board_empty = True, cu_user_name = None, cu_account = None,
     cu_score = None, cu_ex_email = None, cu_phone = None, cu_head_image = None, cu_status = None\<rparr>"

definition seat_info :: "sid option \<Rightarrow> world \<Rightarrow> ChessBoardUser option" where
  "seat_info p w = (case p of
       None \<Rightarrow> Some empty_seat_info
     | Some s \<Rightarrow> do {
         u \<leftarrow> sess w s;
         Some (empty_seat_info\<lparr>cu_chess_board_empty := False,
           cu_account := Some (account (user_info u)),
           cu_user_name := Some (user_name (user_info u)),
           cu_score := Some (score (user_info u)),
           cu_status := Some (status_code (status u)),
           cu_head_image := Some (head_photo (user_info u))\<rparr>) })"

definition WrapChessBoardInfo :: "bid \<Rightarrow> world \<Rightarrow> ChessBoardInfo option" where
  "WrapChessBoardInfo b w = do {
     cb \<leftarrow> boards w b;
     l \<leftarrow> seat_info (GetUserByLocation LOCATION_LEFT cb) w;
     r \<leftarrow> seat_info (GetUserByLocation LOCATION_RIGHT cb) w;
     bt \<leftarrow> seat_info (GetUserByLocation LOCATION_BOTTOM cb) w;
     Some \<lparr>ci_id = GetChessBoardID cb, ci_people_num = GetUserNum cb,
       ci_left_user = l, ci_right_user = r, ci_bottom_user = bt\<rparr> }"

text \<open>The loop \<open>for (j = 1; j <= total_chessboard; ++j)\<close> of \<open>WrapHallInfo\<close>.\<close>

definition board_numbers :: "u32 list" where
  "board_numbers = map of_nat [1..<61]"

definition wrap_boards ::
  "env \<Rightarrow> u32 \<Rightarrow> world \<Rightarrow> (ChessBoardInfo list \<times> world) option" where
  "wrap_boards E h w =
     for_each (\<lambda>j (infos, w). do {
        (b, w) \<leftarrow> GetChessBoardByID E h j w;
        case b of None \<Rightarrow> Some (infos, w)
        | Some b \<Rightarrow> do {
            info \<leftarrow> WrapChessBoardInfo b w;
            Some (infos @ [info], w) } }) board_numbers ([], w)"

text \<open>The serialized hall, or \<open>None\<close> (inner) where the function returns false.\<close>

definition WrapHallInfo :: "env \<Rightarrow> u32 \<Rightarrow> world \<Rightarrow> (bytes option \<times> world) option" where
  "WrapHallInfo E hall_id w = do {
     g \<leftarrow> GetGameHall hall_id w;
     case g of None \<Rightarrow> Some (None, w)
     | Some h \<Rightarrow> do {
         hall \<leftarrow> halls w h;
         n \<leftarrow> GetCurrentPeopleNum hall w;
         (infos, w) \<leftarrow> wrap_boards E h w;
         Some (Some (ser_HallInfo E \<lparr>hi_game_hall_id = hall_id,
             hi_total_people = GetExpectedTotalPeopleNum hall, hi_curr_people = n,
             hi_total_chessboard = chessBoardMax, hi_chess_board = infos\<rparr>), w) } }"

definition hall_numbers :: "u32 list" where
  "hall_numbers = map of_nat [1..<6]"

definition sumary_halls :: "world \<Rightarrow> HallInfo list option" where
  "sumary_halls w =
     for_each (\<lambda>i infos. do {
        g \<leftarrow> GetGameHall i w;
        h \<leftarrow> g;
        hall \<leftarrow> halls w h;
        n \<leftarrow> GetCurrentPeopleNum hall w;
        Some (infos @ [\<lparr>hi_game_hall_id = i, hi_total_people = GetExpectedTotalPeopleNum hall,
          hi_curr_people = n, hi_total_chessboard = chessBoardMax, hi_chess_board = []\<rparr>]) })
      hall_numbers []"

definition GameHallSumaryHandle :: "env \<Rightarrow> sid \<Rightarrow> world \<Rightarrow> (bool \<times> world) option" where
  "GameHallSumaryHandle E s w = do {
     u \<leftarrow> sess w s;
     infos \<leftarrow> sumary_halls w;
     w \<leftarrow> reply s MSG_GAME_HALL_SUMARY (ser_GameHallSumary E
        \<lparr>gs_account = account (user_info u), gs_username = user_name (user_info u),
         gs_score = score (user_info u), gs_hall_num = gameHallMaxNum,
         gs_head_picture = ''Unknown head_picture'', gs_ad_picture1 = ''Unknown ad_picture1'',
         gs_hall_info = infos\<rparr>) w;
     Some (True, w) }"

definition in_hall :: "StateType option \<Rightarrow> bool" where
  "in_hall st \<longleftrightarrow> st = Some STATE_GAME_READY \<or> st = Some STATE_GAME_PLAY"

definition hall_update :: "env \<Rightarrow> bytes \<Rightarrow> sid \<Rightarrow> world \<Rightarrow> world option" where
  "hall_update E data s w = do {
     u \<leftarrow> sess w s;
     if in_hall (stateMachine u) then do {
       w \<leftarrow> reply s MSG_HALL_INFO data w;
       (_, w) \<leftarrow> GameHallSumaryHandle E s w;
       Some w }
     else Some w }"

text \<open>\<open>thread_num\<close> is a \<open>u_int8\<close>.\<close>

definition all_sessions :: "world \<Rightarrow> sid list" where
  "all_sessions w =
     concat (map (\<lambda>t. sm_vals (fdSessionMap t)) (take (length (threadList w) mod 256) (threadList w)))"

text \<open>When \<open>WrapHallInfo\<close> fails \<open>data\<close> stays empty and is sent all the same.\<close>

definition BroadCastHallInfo :: "env \<Rightarrow> bid \<Rightarrow> sid \<Rightarrow> world \<Rightarrow> world option" where
  "BroadCastHallInfo E b s w = do {
     u \<leftarrow> sess w s;
     _ \<leftarrow> stateMachine u;
     cb \<leftarrow> boards w b;
     hall \<leftarrow> halls w (currentHall cb);
     (data, w) \<leftarrow> WrapHallInfo E (GetGameHallID hall) w;
     for_each (hall_update E (getd [] data)) (all_sessions w) w }"

end
