(* ===== verification/Handlers.thy ===== *)
theory Handlers
  imports Server_State
begin

text \<open>
  The message handlers of class ChessBoard (chessboard.cpp): moves, chat, peace offers,
  giving up, undo, readiness and replay, and \<open>LeaveRoomHandle\<close>. Each takes the board's
  address, the raw message and the state; a message that does not parse is ignored, and
  every handler returns true.
\<close>

section \<open>Reading the table\<close>

definition status_at :: "sid option \<Rightarrow> world \<Rightarrow> UserGameStatus option option" where
  "status_at p w = (case p of None \<Rightarrow> Some None
     | Some s \<Rightarrow> do { u \<leftarrow> sess w s; Some (Some (status u)) })"

definition holds :: "('a \<Rightarrow> bool) \<Rightarrow> 'a option \<Rightarrow> bool" where
  "holds P x = (case x of None \<Rightarrow> False | Some y \<Rightarrow> P y)"

lemma holds_simps [simp]: "\<not> holds P None" "holds P (Some y) = P y"
  by (simp_all add: holds_def)

text \<open>How many of the three seats hold a user whose status satisfies \<open>P\<close>.\<close>

definition count_status :: "(UserGameStatus \<Rightarrow> bool) \<Rightarrow> bid \<Rightarrow> world \<Rightarrow> nat option" where
  "count_status P b w = do {
     cb \<leftarrow> boards w b;
     l \<leftarrow> status_at (leftUser cb) w;
     r \<leftarrow> status_at (rightUser cb) w;
     bt \<leftarrow> status_at (bottomUser cb) w;
     Some ((if holds P l then 1 else 0) + (if holds P r then 1 else 0) + (if holds P bt then 1 else 0)) }"

definition GetActiveUsersNum :: "bid \<Rightarrow> world \<Rightarrow> nat option" where
  "GetActiveUsersNum b w = count_status (\<lambda>x. x = STATUS_PLAYING) b w"

definition GameBegan :: "bid \<Rightarrow> world \<Rightarrow> bool option" where
  "GameBegan b w = map_option (\<lambda>n. n > 0) (count_status (\<lambda>x. x > STATUS_BEGAN) b w)"

definition GetOnlyActiveUser :: "bid \<Rightarrow> world \<Rightarrow> sid option option" where
  "GetOnlyActiveUser b w = do {
     cb \<leftarrow> boards w b;
     l \<leftarrow> status_at (leftUser cb) w;
     r \<leftarrow> status_at (rightUser cb) w;
     bt \<leftarrow> status_at (bottomUser cb) w;
     let (num, user) = (if l = Some STATUS_PLAYING then (1, leftUser cb) else (0::nat, None));
     let (num, user) = (if r = Some STATUS_PLAYING then (num + 1, rightUser cb) else (num, user));
     let (num, user) = (if bt = Some STATUS_PLAYING then (num + 1, bottomUser cb) else (num, user));
     Some (if num = 1 then user else None) }"

definition set_status :: "UserGameStatus \<Rightarrow> sid \<Rightarrow> world \<Rightarrow> world option" where
  "set_status st s w = upd_sess s (\<lambda>u. u\<lparr>status := st\<rparr>) w"

text \<open>Every seated user's status is set: \<open>if (leftUser != NULL) leftUser->status = \<dots>\<close>.\<close>

definition set_all_status :: "UserGameStatus \<Rightarrow> bid \<Rightarrow> world \<Rightarrow> world option" where
  "set_all_status st b w = do {
     cb \<leftarrow> boards w b;
     for_each (\<lambda>l w. case GetUserByLocation l cb of None \<Rightarrow> Some w | Some s \<Rightarrow> set_status st s w) seats w }"

section \<open>Moves\<close>

text \<open>The seat that gets the move next: the neighbour, or the third seat when the neighbour
  is absent or not playing.\<close>

definition token_seat :: "sid option \<Rightarrow> u32 \<Rightarrow> u32 \<Rightarrow> world \<Rightarrow> u32 option" where
  "token_seat tar_user next_seat other w = do {
     st \<leftarrow> status_at tar_user w;
     Some (if st \<noteq> Some STATUS_PLAYING then other else next_seat) }"

definition next_token :: "bid \<Rightarrow> u32 \<Rightarrow> world \<Rightarrow> u32 option option" where
  "next_token b l w = do {
     cb \<leftarrow> boards w b;
     if l = LOCATION_LEFT then map_option Some (token_seat (bottomUser cb) LOCATION_BOTTOM LOCATION_RIGHT w)
     else if l = LOCATION_BOTTOM then map_option Some (token_seat (rightUser cb) LOCATION_RIGHT LOCATION_LEFT w)
     else if l = LOCATION_RIGHT then map_option Some (token_seat (leftUser cb) LOCATION_LEFT LOCATION_BOTTOM w)
     else Some None }"

text \<open>The part of \<open>MoveChessHandle\<close> that settles the scores of a move.\<close>

definition move_scores :: "env \<Rightarrow> bid \<Rightarrow> MoveChess \<Rightarrow> world \<Rightarrow> world option" where
  "move_scores E b mc w =
     (if mc_is_winner mc then do {
        cb \<leftarrow> boards w b;
        w \<leftarrow> upd_board b (\<lambda>cb. cb\<lparr>recent_winner_locate := mc_src_user_locate mc,
               recent_loser_locate := getd 0 (mc_target_user_locate mc)\<rparr>) w;
        src \<leftarrow> GetUserByLocation (mc_src_user_locate mc) cb;
        w \<leftarrow> IncreaseScore E 10 src w;
        case GetUserByLocation (getd 0 (mc_target_user_locate mc)) cb of
          None \<Rightarrow> Some w
        | Some tar \<Rightarrow> do { w \<leftarrow> ReduceScore E 10 tar w; set_status STATUS_ENDED tar w } }
      else upd_board b (\<lambda>cb. cb\<lparr>recent_winner_locate := LOCATION_MAX,
               recent_loser_locate := LOCATION_MAX\<rparr>) w)"

text \<open>The part that decides who moves next, or that the game is over.\<close>

definition move_token :: "bid \<Rightarrow> sid \<Rightarrow> world \<Rightarrow> (u32 option \<times> world) option" where
  "move_token b src w = do {
     u \<leftarrow> sess w src;
     n \<leftarrow> GetActiveUsersNum b w;
     if n > 1 then do { t \<leftarrow> next_token b (locate u) w; Some (t, w) }
     else do { w \<leftarrow> set_status STATUS_ENDED src w; Some (Some LOCATION_MAX, w) } }"

definition announce_board :: "env \<Rightarrow> bid \<Rightarrow> u32 \<Rightarrow> world \<Rightarrow> world option" where
  "announce_board E b filt w = do {
     info \<leftarrow> WrapChessBoardInfo b w;
     BroadCastMsg b MSG_CHESS_BOARD (ser_ChessBoardInfo E info) filt w }"

definition MoveChessHandle :: "env \<Rightarrow> bid \<Rightarrow> bytes \<Rightarrow> world \<Rightarrow> (bool \<times> world) option" where
  "MoveChessHandle E b msg w =
     (case parse_MoveChess E msg of
        None \<Rightarrow> Some (True, w)
      | Some mc \<Rightarrow> do {
          cb \<leftarrow> boards w b;
          w \<leftarrow> move_scores E b mc w;
          src \<leftarrow> GetUserByLocation (mc_src_user_locate mc) cb;
          u \<leftarrow> sess w src;
          (t, w) \<leftarrow> move_token b src w;
          w \<leftarrow> BroadCastMsg b MSG_ANNOUNCE_MOVE (ser_MoveAction E
                 \<lparr>ma_src_user_locate = locate u, ma_movechess = mc, ma_token_locate = t\<rparr>) LOCATION_MAX w;
          w \<leftarrow> (if mc_is_winner mc then announce_board E b LOCATION_MAX w else Some w);
          Some (True, w) })"

section \<open>Chat, peace, undo\<close>

definition UserMessageHandle :: "env \<Rightarrow> bid \<Rightarrow> bytes \<Rightarrow> world \<Rightarrow> (bool \<times> world) option" where
  "UserMessageHandle E b msg w =
     (case parse_UserMessage E msg of
        None \<Rightarrow> Some (True, w)
      | Some um \<Rightarrow> do {
          w \<leftarrow> BroadCastMsg b MSG_USER_MSG msg (um_src_user_locate um) w;
          Some (True, w) })"

definition ReconciledHandle ::
  "env \<Rightarrow> bid \<Rightarrow> bytes \<Rightarrow> MessageType \<Rightarrow> world \<Rightarrow> (bool \<times> world) option" where
  "ReconciledHandle E b msg ty w =
     (case parse_Reconciled E msg of
        None \<Rightarrow> Some (True, w)
      | Some p \<Rightarrow>
          if ty = MSG_RECONCILED_REQ \<or> rc_apply_or_reply p = 0 then do {
            w \<leftarrow> BroadCastMsg b ty msg (rc_src_user_locate p) w;
            w \<leftarrow> (if rc_status p = Some ''All'' then set_all_status STATUS_ENDED b w else Some w);
            Some (True, w) }
          else if ty = MSG_RECONCILED_RESP \<or> rc_apply_or_reply p = 1 then do {
            cb \<leftarrow> boards w b;
            w \<leftarrow> (case GetUserByLocation (rc_tar_user_locate p) cb of
                    None \<Rightarrow> Some w | Some s \<Rightarrow> reply s ty msg w);
            Some (True, w) }
          else Some (True, w))"

text \<open>Taking back a winning move: the winner's and the loser's seats are dereferenced without
  a test, the surrounding \<open>try\<close> does not catch a null pointer.\<close>

definition undo_scores :: "env \<Rightarrow> bid \<Rightarrow> world \<Rightarrow> world option" where
  "undo_scores E b w = do {
     cb \<leftarrow> boards w b;
     if recent_winner_locate cb \<noteq> LOCATION_MAX then do {
       winner \<leftarrow> GetUserByLocation (recent_winner_locate cb) cb;
       w \<leftarrow> ReduceScore E 10 winner w;
       loser \<leftarrow> GetUserByLocation (recent_loser_locate cb) cb;
       w \<leftarrow> IncreaseScore E 10 loser w;
       set_status STATUS_PLAYING loser w }
     else Some w }"

definition UndoHandle ::
  "env \<Rightarrow> bid \<Rightarrow> bytes \<Rightarrow> MessageType \<Rightarrow> world \<Rightarrow> (bool \<times> world) option" where
  "UndoHandle E b msg ty w =
     (case parse_Undo E msg of
        None \<Rightarrow> Some (True, w)
      | Some ud \<Rightarrow>
          if ud_rep_or_respon ud = 0 then do {
            cb \<leftarrow> boards w b;
            w \<leftarrow> (case GetUserByLocation (ud_tar_user_locate ud) cb of
                    None \<Rightarrow> Some w | Some s \<Rightarrow> reply s ty msg w);
            Some (True, w) }
          else if ud_rep_or_respon ud = 1 then do {
            w \<leftarrow> BroadCastMsg b ty msg (ud_tar_user_locate ud) w;
            w \<leftarrow> (if ud_status ud = Some True then undo_scores E b w else Some w);
            Some (True, w) }
          else Some (True, w))"

section \<open>Leaving\<close>

text \<open>The last playing user wins. The result is the pointer the code's \<open>user\<close> holds afterwards.\<close>

definition last_user_wins :: "env \<Rightarrow> bid \<Rightarrow> sid \<Rightarrow> world \<Rightarrow> (sid option \<times> world) option" where
  "last_user_wins E b s w = do {
     n \<leftarrow> GetActiveUsersNum b w;
     if n = 1 then do {
       p \<leftarrow> GetOnlyActiveUser b w;
       case p of
         None \<Rightarrow> Some (None, w)
       | Some s' \<Rightarrow> do {
           u \<leftarrow> sess w s';
           if status u = STATUS_PLAYING then do {
             w \<leftarrow> IncreaseScore E 10 s' w;
             w \<leftarrow> set_status STATUS_ENDED s' w;
             Some (Some s', w) }
           else Some (Some s', w) } }
     else Some (Some s, w) }"

definition leave_seat :: "bid \<Rightarrow> sid \<Rightarrow> bool \<Rightarrow> world \<Rightarrow> world option" where
  "leave_seat b s really_leave w =
     (if really_leave then do {
        w \<leftarrow> set_status STATUS_EXITED s w;
        u \<leftarrow> sess w s;
        upd_board b (\<lambda>cb. snd (LeaveOutRoom (locate u) cb)) w }
      else set_status STATUS_ENDED s w)"

definition LeaveRoomHandle :: "env \<Rightarrow> bid \<Rightarrow> sid \<Rightarrow> bool \<Rightarrow> world \<Rightarrow> world option" where
  "LeaveRoomHandle E b s really_leave w = do {
     u \<leftarrow> sess w s;
     let leave_user_locate = locate u;
     let chessboard_end_game = (status u = STATUS_PLAYING);
     w \<leftarrow> (if chessboard_end_game then ReduceScore E 30 s w else Some w);
     w \<leftarrow> leave_seat b s really_leave w;
     w \<leftarrow> BroadCastMsg b MSG_GIVE_UP (ser_GiveUp E \<lparr>gu_src_user_locate = leave_user_locate,
            gu_opt = (if really_leave then Some ''exit'' else None)\<rparr>) leave_user_locate w;
     (user, w) \<leftarrow> last_user_wins E b s w;
     w \<leftarrow> (if chessboard_end_game then set_all_status STATUS_ENDED b w else Some w);
     w \<leftarrow> announce_board E b (if really_leave then leave_user_locate else LOCATION_MAX) w;
     if chessboard_end_game \<or> really_leave
     then do { s' \<leftarrow> user; BroadCastHallInfo E b s' w }
     else Some w }"

definition GiveUpHandle :: "env \<Rightarrow> bid \<Rightarrow> bytes \<Rightarrow> world \<Rightarrow> (bool \<times> world) option" where
  "GiveUpHandle E b msg w =
     (case parse_GiveUp E msg of
        None \<Rightarrow> Some (True, w)
      | Some g \<Rightarrow> do {
          cb \<leftarrow> boards w b;
          w \<leftarrow> (case GetUserByLocation (gu_src_user_locate g) cb of
                  None \<Rightarrow> Some w
                | Some s \<Rightarrow>
                    if gu_opt g = Some ''exit'' then do {
                      w \<leftarrow> LeaveRoomHandle E b s True w;
                      w \<leftarrow> upd_sess s (SetNextState STATE_GAME_READY) w;
                      upd_sess s (\<lambda>u. u\<lparr>currChessBoard := None\<rparr>) w }
                    else LeaveRoomHandle E b s False w);
          Some (True, w) })"

section \<open>Readiness and replay\<close>

definition GameReadyHandle :: "env \<Rightarrow> bid \<Rightarrow> bytes \<Rightarrow> world \<Rightarrow> (bool \<times> world) option" where
  "GameReadyHandle E b msg w =
     (case parse_GameReadyReq E msg of
        None \<Rightarrow> Some (True, w)
      | Some g \<Rightarrow> do {
          cb \<leftarrow> boards w b;
          w \<leftarrow> (case GetUserByLocation (gr_src_user_locate g) cb of
                  None \<Rightarrow> Some w | Some s \<Rightarrow> set_status STATUS_BEGAN s w);
          w \<leftarrow> (if gr_src_user_locate g = first_come_user_locate cb \<and>
                   gr_total_time g \<noteq> None \<and> gr_single_step_time g \<noteq> None
                then upd_board b (\<lambda>cb. cb\<lparr>total_time := getd 0 (gr_total_time g),
                       single_step_time := getd 0 (gr_single_step_time g)\<rparr>) w
                else Some w);
          cb \<leftarrow> boards w b;
          l \<leftarrow> status_at (leftUser cb) w;
          r \<leftarrow> status_at (rightUser cb) w;
          bt \<leftarrow> status_at (bottomUser cb) w;
          w \<leftarrow> BroadCastMsg b MSG_GAME_STATUS (ser_GameStatusReply E
                 \<lparr>gt_left_user_status = (l = Some STATUS_BEGAN),
                  gt_right_user_status = (r = Some STATUS_BEGAN),
                  gt_bottom_user_status = (bt = Some STATUS_BEGAN),
                  gt_token_locate = LOCATION_BOTTOM, gt_total_time = total_time cb,
                  gt_single_step_time = single_step_time cb\<rparr>) LOCATION_MAX w;
          w \<leftarrow> (if l = Some STATUS_BEGAN \<and> r = Some STATUS_BEGAN \<and> bt = Some STATUS_BEGAN
                then do {
                  rs \<leftarrow> rightUser cb;
                  w \<leftarrow> set_status STATUS_PLAYING rs w;
                  ls \<leftarrow> leftUser cb;
                  w \<leftarrow> set_status STATUS_PLAYING ls w;
                  bs \<leftarrow> bottomUser cb;
                  w \<leftarrow> set_status STATUS_PLAYING bs w;
                  BroadCastHallInfo E b bs w }
                else Some w);
          Some (True, w) })"

text \<open>\<open>should_update_hall\<close>: every seated user of the board is \<open>STATUS_READY\<close>.\<close>

definition all_ready :: "bid \<Rightarrow> world \<Rightarrow> bool option" where
  "all_ready b w = do {
     cb \<leftarrow> boards w b;
     l \<leftarrow> status_at (leftUser cb) w;
     r \<leftarrow> status_at (rightUser cb) w;
     bt \<leftarrow> status_at (bottomUser cb) w;
     Some (list_all (\<lambda>x. x = None \<or> x = Some STATUS_READY) [l, r, bt]) }"

text \<open>The board named in the request need not be this board; it is dereferenced unchecked.\<close>

definition GameAgainHandle :: "env \<Rightarrow> bid \<Rightarrow> bytes \<Rightarrow> world \<Rightarrow> (bool \<times> world) option" where
  "GameAgainHandle E this msg w =
     (case parse_RequestPlay E msg of
        None \<Rightarrow> Some (True, w)
      | Some rp \<Rightarrow> do {
          g \<leftarrow> GetGameHall (rp_game_hall_id rp) w;
          case g of None \<Rightarrow> Some (True, w)
          | Some h \<Rightarrow> do {
              (p, w) \<leftarrow> GetChessBoardByID E h (rp_chess_board_id rp) w;
              cb0 \<leftarrow> boards w this;
              case GetUserByLocation (rp_locate rp) cb0 of
                None \<Rightarrow> Some (True, w)
              | Some s \<Rightarrow> do {
                  b \<leftarrow> p;
                  began \<leftarrow> GameBegan b w;
                  u \<leftarrow> sess w s;
                  cb \<leftarrow> boards w b;
                  if began \<and> status u = STATUS_ENDED then do {
                    w \<leftarrow> set_status STATUS_READY s w;
                    info \<leftarrow> WrapChessBoardInfo b w;
                    let rep = \<lparr>rr_status = 1, rr_first_come_user_locate = first_come_user_locate cb,
                               rr_chessboard = Some info\<rparr>;
                    w \<leftarrow> reply s MSG_REQUEST_PLAY_REPLY (ser_RequestPlayReply E rep) w;
                    u \<leftarrow> sess w s;
                    mine \<leftarrow> currChessBoard u;
                    w \<leftarrow> BroadCastMsg mine MSG_REQUEST_PLAY_REPLY
                           (ser_RequestPlayReply E (rep\<lparr>rr_status := 2\<rparr>)) (locate u) w;
                    upd \<leftarrow> all_ready b w;
                    w \<leftarrow> (if upd then BroadCastHallInfo E b s w else Some w);
                    Some (True, w) }
                  else do {
                    w \<leftarrow> reply s MSG_REQUEST_PLAY_REPLY (ser_RequestPlayReply E
                           \<lparr>rr_status = 0, rr_first_come_user_locate = first_come_user_locate cb,
                            rr_chessboard = None\<rparr>) w;
                    Some (True, w) } } } })"

section \<open>Dispatch\<close>

definition TranslateMsg :: "env \<Rightarrow> bid \<Rightarrow> u32 \<Rightarrow> bytes \<Rightarrow> world \<Rightarrow> (bool \<times> world) option" where
  "TranslateMsg E b ty msg w =
     (if ty = mt_code MSG_MOVE_CHESS then MoveChessHandle E b msg w
      else if ty = mt_code MSG_USER_MSG then UserMessageHandle E b msg w
      else if ty = mt_code MSG_RECONCILED_REQ then ReconciledHandle E b msg MSG_RECONCILED_REQ w
      else if ty = mt_code MSG_RECONCILED_RESP then ReconciledHandle E b msg MSG_RECONCILED_RESP w
      else if ty = mt_code MSG_GIVE_UP then GiveUpHandle E b msg w
      else if ty = mt_code MSG_UNDO_REQ then UndoHandle E b msg MSG_UNDO_REQ w
      else if ty = mt_code MSG_UNDO_REPS then UndoHandle E b msg MSG_UNDO_REPS w
      else if ty = mt_code MSG_GAME_READY_REQ then GameReadyHandle E b msg w
      else if ty = mt_code MSG_REQUEST_PLAY then GameAgainHandle E b msg w
      else Some (False, w))"

end
