(* ===== verification/States.thy ===== *)
theory States
  imports Handlers
begin

text \<open>
  The session state machine: the handlers of the four \<open>State\<close> classes (statecommon.cpp,
  stateauth.cpp, stategameready.cpp, stategameplay.cpp), \<open>UserSession::MessageHandle\<close>, which
  runs the current state's handler and makes the transition it asked for, and
  \<open>UserSession::DestructResource\<close>.
\<close>

section \<open>Handlers shared by the states (statecommon.cpp)\<close>

text \<open>The reply does not depend on the request: its only field is overwritten.\<close>

definition EchoMsgHandle :: "env \<Rightarrow> sid \<Rightarrow> bytes \<Rightarrow> world \<Rightarrow> (bool \<times> world) option" where
  "EchoMsgHandle E s msg w = do {
     let echo_msg = getd \<lparr>echo_time_stamp = None\<rparr> (parse_Echo E msg);
     w \<leftarrow> reply s MSG_ECHO (ser_Echo E (echo_msg\<lparr>echo_time_stamp := Some ''Echo Reply from Server''\<rparr>)) w;
     Some (True, w) }"

definition HallInfoReqHandle :: "env \<Rightarrow> sid \<Rightarrow> bytes \<Rightarrow> world \<Rightarrow> (bool \<times> world) option" where
  "HallInfoReqHandle E s msg w =
     (case parse_HallInfoReq E msg of
        None \<Rightarrow> Some (True, w)
      | Some req \<Rightarrow> do {
          (data, w) \<leftarrow> WrapHallInfo E (hr_game_hall_id req) w;
          w \<leftarrow> (case data of None \<Rightarrow> Some w | Some d \<Rightarrow> reply s MSG_HALL_INFO d w);
          Some (True, w) })"

text \<open>The connection of the session's thread.\<close>

definition con_of :: "sid \<Rightarrow> world \<Rightarrow> bool option" where
  "con_of s w = do { u \<leftarrow> sess w s; t \<leftarrow> the_thread (thread u) w; Some (pdb_con t) }"

definition acct_of :: "sid \<Rightarrow> world \<Rightarrow> string option" where
  "acct_of s w = map_option (\<lambda>u. account (user_info u)) (sess w s)"

text \<open>One changed field: stored in the session, then written to the database.\<close>

definition update_field ::
  "(UsersInfo \<Rightarrow> UsersInfo) \<Rightarrow> (bool \<Rightarrow> string \<Rightarrow> string list \<Rightarrow> (bool \<times> string list) option) \<Rightarrow>
     sid \<Rightarrow> world \<Rightarrow> world option" where
  "update_field f db s w = do {
     w \<leftarrow> upd_sess s (\<lambda>u. u\<lparr>user_info := f (user_info u)\<rparr>) w;
     con \<leftarrow> con_of s w;
     acct \<leftarrow> acct_of s w;
     (_, w) \<leftarrow> lift_db (db con acct) w;
     Some w }"

definition UpdateUserInfos :: "env \<Rightarrow> sid \<Rightarrow> bytes \<Rightarrow> world \<Rightarrow> (bool \<times> world) option" where
  "UpdateUserInfos E s msg w =
     (case parse_UpdateUserInfo E msg of
        None \<Rightarrow> Some (True, w)
      | Some i \<Rightarrow> do {
          u \<leftarrow> sess w s;
          w \<leftarrow> (if ui_user_name i \<noteq> user_name (user_info u)
                then update_field (\<lambda>x. x\<lparr>user_name := ui_user_name i\<rparr>)
                       (\<lambda>con a. UpdateUserNameToDB E con a (ui_user_name i)) s w
                else Some w);
          w \<leftarrow> (if ui_password i \<noteq> password (user_info u)
                then update_field (\<lambda>x. x\<lparr>password := ui_password i\<rparr>)
                       (\<lambda>con a. UpdateUserPasswordToDB E con a (ui_password i)) s w
                else Some w);
          w \<leftarrow> (case ui_ex_email i of None \<Rightarrow> Some w | Some m \<Rightarrow>
                if m \<noteq> email (user_info u)
                then update_field (\<lambda>x. x\<lparr>email := m\<rparr>) (\<lambda>con a. UpdateUserEmailToDB E con a m) s w
                else Some w);
          w \<leftarrow> (case ui_phone i of None \<Rightarrow> Some w | Some p \<Rightarrow>
                if p \<noteq> phone (user_info u)
                then update_field (\<lambda>x. x\<lparr>phone := p\<rparr>) (\<lambda>con a. UpdateUserPhoneToDB E con a p) s w
                else Some w);
          w \<leftarrow> (case ui_head_image i of None \<Rightarrow> Some w | Some im \<Rightarrow>
                if length im > 0
                then update_field (\<lambda>x. x\<lparr>head_photo := im\<rparr>) (\<lambda>con a. UpdateHeadImageToDB E con a im) s w
                else Some w);
          Some (True, w) })"

section \<open>StateAdPictureDownload\<close>

definition DownloadImageInfo :: "env \<Rightarrow> sid \<Rightarrow> AdPicturesInfo \<Rightarrow> world \<Rightarrow> (bool \<times> world) option" where
  "DownloadImageInfo E s ad w =
     MessageReply s MSG_AD_IMAGE_INFO (ser_AdPictureItemReply E
       (if existed ad
        then \<lparr>ap_image_id = image_id ad, ap_existed = existed ad, ap_image_type = Some (image_type ad),
              ap_image_name = Some (image_name ad), ap_image_hashcode = Some (image_hashcode ad),
              ap_url = Some (link_url ad), ap_image_size = Some (image_size ad)\<rparr>
        else \<lparr>ap_image_id = image_id ad, ap_existed = existed ad, ap_image_type = None,
              ap_image_name = None, ap_image_hashcode = None, ap_url = None, ap_image_size = None\<rparr>)) w"

text \<open>One chunk of the open file, of at most the buffer's size; at its end the file is closed
  and the end is announced.\<close>

definition SendImageContent :: "env \<Rightarrow> sid \<Rightarrow> world \<Rightarrow> (bool \<times> world) option" where
  "SendImageContent E s w = do {
     w \<leftarrow> upd_sess s (GetBuffer MAX_DATA_LENGTH) w;
     u \<leftarrow> sess w s;
     case ad_img_fp u of
       None \<Rightarrow> Some (False, w)
     | Some rest \<Rightarrow>
         let chunk = take (GetBufferSize u) rest in
         if length chunk > 0 then do {
           w \<leftarrow> upd_sess s (\<lambda>u. u\<lparr>ad_img_fp := Some (drop (GetBufferSize u) rest)\<rparr>) w;
           (ret, w) \<leftarrow> MessageReply s MSG_AD_IMAGE_CONTENT
              (ser_AdPictureContentReply E \<lparr>ac_ended = False, ac_content = Some chunk\<rparr>) w;
           if \<not> ret then do { w \<leftarrow> upd_sess s (\<lambda>u. u\<lparr>ad_img_fp := None\<rparr>) w; Some (False, w) }
           else Some (True, w) }
         else do {
           w \<leftarrow> upd_sess s (\<lambda>u. u\<lparr>ad_img_fp := None\<rparr>) w;
           (_, w) \<leftarrow> MessageReply s MSG_AD_IMAGE_CONTENT
              (ser_AdPictureContentReply E \<lparr>ac_ended = True, ac_content = None\<rparr>) w;
           Some (True, w) } }"

text \<open>\<open>req_type\<close> 1 and 2, and any other number.\<close>

definition ad_request :: "env \<Rightarrow> sid \<Rightarrow> AdPictureReq \<Rightarrow> world \<Rightarrow> (bool \<times> world) option" where
  "ad_request E s item w =
     (if aq_req_type item = 1 then do {
        (_, ad, w) \<leftarrow> lift_db3 (GetAdPicturesInfoFromDB E (aq_image_id item) AdPicturesInfo_Reset) w;
        (_, w) \<leftarrow> DownloadImageInfo E s ad w;
        Some (True, w) }
      else if aq_req_type item = 2 then do {
        u \<leftarrow> sess w s;
        w \<leftarrow> (if ad_img_fp u = None then do {
                (found, ad, w) \<leftarrow> lift_db3 (GetAdPicturesInfoFromDB E (aq_image_id item) AdPicturesInfo_Reset) w;
                if found then upd_sess s (\<lambda>u. u\<lparr>ad_img_fp := file_open E (c_str (locate_path ad))\<rparr>) w
                else Some w }
              else Some w);
        SendImageContent E s w }
      else Some (True, w))"

definition AdPictureItemHandle :: "env \<Rightarrow> sid \<Rightarrow> bytes \<Rightarrow> world \<Rightarrow> (bool \<times> world) option" where
  "AdPictureItemHandle E s msg w =
     (case parse_AdPictureReq E msg of
        None \<Rightarrow> Some (True, w)
      | Some item \<Rightarrow> do {
          (ret, w) \<leftarrow> ad_request E s item w;
          u \<leftarrow> sess w s;
          w \<leftarrow> (if ret \<and> ad_img_fp u = None \<and> aq_last_one item = Some True
                then upd_sess s (SetNextState STATE_GAME_READY) w else Some w);
          Some (ret, w) })"

definition StateAdPictureDownload_MsgHandle ::
  "env \<Rightarrow> sid \<Rightarrow> u32 \<Rightarrow> bytes \<Rightarrow> world \<Rightarrow> (bool \<times> world) option" where
  "StateAdPictureDownload_MsgHandle E s ty msg w =
     (if ty = mt_code MSG_AD_IMAGE_REQ then AdPictureItemHandle E s msg w
      else if ty = mt_code MSG_ECHO then EchoMsgHandle E s msg w
      else Some (False, w))"

section \<open>StateAuth\<close>

text \<open>The default user name is the UTF-8 text of the source.\<close>

definition novice_name :: string where
  "novice_name = [CHR 0xE6, CHR 0x96, CHR 0xB0, CHR 0xE6, CHR 0x89, CHR 0x8B]"

definition status_only :: "u32 \<Rightarrow> ReplyStatus" where
  "status_only n = \<lparr>rs_status = n, rs_user = None, rs_version_info = None\<rparr>"

definition HandleRegister :: "env \<Rightarrow> sid \<Rightarrow> bytes \<Rightarrow> world \<Rightarrow> (bool \<times> world) option" where
  "HandleRegister E s msg w =
     (case parse_Register E msg of
        None \<Rightarrow> Some (True, w)
      | Some rg \<Rightarrow> do {
          let info = UsersInfo_Reset\<lparr>account := rg_email_account rg, password := rg_password rg,
                       score := 100, email := rg_email_account rg, user_name := novice_name\<rparr>;
          con \<leftarrow> con_of s w;
          (ok, w) \<leftarrow> lift_db (InsertUsersInfoToDB E con info) w;
          w \<leftarrow> reply s MSG_REGISTER_REPLY (ser_ReplyStatus E (status_only (if ok then 1 else 0))) w;
          Some (True, w) })"

text \<open>\<open>WorkThread::GetIndividualUser\<close>: no session of this thread has the account.\<close>

fun no_session_named :: "sid list \<Rightarrow> string \<Rightarrow> world \<Rightarrow> bool option" where
  "no_session_named [] acct w = Some True"
| "no_session_named (s # ss) acct w =
     Option.bind (sess w s) (\<lambda>u. if account (user_info u) = acct then Some False
                                 else no_session_named ss acct w)"

definition GetIndividualUser :: "WorkThread \<Rightarrow> string \<Rightarrow> world \<Rightarrow> bool option" where
  "GetIndividualUser t acct w = no_session_named (sm_vals (fdSessionMap t)) acct w"

definition login_user :: "UsersInfo \<Rightarrow> ChessBoardUser" where
  "login_user i = \<lparr>cu_chess_board_empty = False, cu_user_name = Some (user_name i),
     cu_account = Some (account i), cu_score = Some (score i), cu_ex_email = Some (email i),
     cu_phone = Some (phone i), cu_head_image = Some (head_photo i), cu_status = None\<rparr>"

text \<open>The case of a password that matches: the session's user data are completed and described
  in the reply, with the client version if the database has one.\<close>

definition login_ok :: "env \<Rightarrow> sid \<Rightarrow> bool \<Rightarrow> UsersInfo \<Rightarrow> world \<Rightarrow> (ReplyStatus \<times> world) option" where
  "login_ok E s con info w = do {
     (_, photo, w) \<leftarrow> lift_db3 (GetHeadImageFromDB E con (account info) (head_photo info)) w;
     w \<leftarrow> upd_sess s (\<lambda>u. u\<lparr>user_info := info\<lparr>head_photo := photo\<rparr>\<rparr>) w;
     (found, v, w) \<leftarrow> lift_db3 (GetImageVersionInfoFromDB E ImageVersions_init) w;
     Some (\<lparr>rs_status = 1, rs_user = Some (login_user (info\<lparr>head_photo := photo\<rparr>)),
            rs_version_info = (if found \<and> length (iv_version v) > 0
              then Some \<lparr>iv_server_version = iv_version v, iv_mandatory_update = iv_mandatory v\<rparr>
              else None)\<rparr>, w) }"

definition HandleLogin :: "env \<Rightarrow> sid \<Rightarrow> bytes \<Rightarrow> world \<Rightarrow> (bool \<times> world) option" where
  "HandleLogin E s msg w =
     (case parse_LogOnorOut E msg of
        None \<Rightarrow> Some (False, w)
      | Some lo \<Rightarrow> do {
          u \<leftarrow> sess w s;
          t \<leftarrow> the_thread (thread u) w;
          alone \<leftarrow> GetIndividualUser t (lo_account lo) w;
          (ret, rep, w) \<leftarrow>
            (if \<not> alone then Some (False, status_only 0, w)
             else do {
               (found, info, w) \<leftarrow> lift_db3 (GetUsersInfoFromDB E (lo_account lo) (user_info u)) w;
               w \<leftarrow> upd_sess s (\<lambda>u. u\<lparr>user_info := info\<rparr>) w;
               if found then
                 (if password info = lo_password lo then do {
                    (rep, w) \<leftarrow> login_ok E s (pdb_con t) info w;
                    Some (True, rep, w) }
                  else do {
                    w \<leftarrow> upd_sess s (\<lambda>u. u\<lparr>user_info := info\<lparr>account := []\<rparr>\<rparr>) w;
                    Some (False, status_only 0, w) })
               else Some (False, status_only 0, w) });
          w \<leftarrow> reply s MSG_LOGIN_REPLY (ser_ReplyStatus E rep) w;
          Some (ret, w) })"

definition HandleLogout :: "env \<Rightarrow> sid \<Rightarrow> bytes \<Rightarrow> world \<Rightarrow> (bool \<times> world) option" where
  "HandleLogout E s msg w = Some (True, w)"

text \<open>The request is handed to the password-recovery component (\<open>FindPwdViaAccount\<close>), whose
  result is ignored.\<close>

definition HandleFindPwd :: "env \<Rightarrow> sid \<Rightarrow> bytes \<Rightarrow> world \<Rightarrow> (bool \<times> world) option" where
  "HandleFindPwd E s msg w =
     (case parse_FindPassword E msg of
        None \<Rightarrow> Some (True, w)
      | Some f \<Rightarrow> Some (True, w\<lparr>fpw_requests := fp_email f # fpw_requests w\<rparr>))"

definition StateAuth_MsgHandle ::
  "env \<Rightarrow> sid \<Rightarrow> u32 \<Rightarrow> bytes \<Rightarrow> world \<Rightarrow> (bool \<times> world) option" where
  "StateAuth_MsgHandle E s ty msg w =
     (if ty = mt_code MSG_REGISTER then HandleRegister E s msg w
      else if ty = mt_code MSG_LOGIN then do {
        (ret, w) \<leftarrow> HandleLogin E s msg w;
        w \<leftarrow> (if ret then upd_sess s (SetNextState STATE_DOWN_AD) w else Some w);
        Some (True, w) }
      else if ty = mt_code MSG_LOGOUT then do {
        (ret, w) \<leftarrow> HandleLogout E s msg w;
        Some (if ret then False else ret, w) }
      else if ty = mt_code MSG_ECHO then EchoMsgHandle E s msg w
      else if ty = mt_code MSG_FIND_PASSWORD then HandleFindPwd E s msg w
      else Some (False, w))"

section \<open>StateGameReady\<close>

text \<open>Seating the user: everything between a successful \<open>AddUser\<close> and \<open>SetNextState\<close>. The
  result is the reply.\<close>

definition take_seat :: "sid \<Rightarrow> bid \<Rightarrow> RequestPlay \<Rightarrow> world \<Rightarrow> (RequestPlayReply \<times> world) option" where
  "take_seat s b rp w = do {
     w \<leftarrow> set_status STATUS_READY s w;
     w \<leftarrow> upd_sess s (\<lambda>u. u\<lparr>currChessBoard := Some b\<rparr>) w;
     w \<leftarrow> upd_board b (\<lambda>cb. if GetUserNum cb = 1
            then cb\<lparr>first_come_user_locate := rp_locate rp\<rparr> else cb) w;
     cb \<leftarrow> boards w b;
     info \<leftarrow> WrapChessBoardInfo b w;
     w \<leftarrow> upd_sess s (SetNextState STATE_GAME_PLAY) w;
     Some (\<lparr>rr_status = 1, rr_first_come_user_locate = first_come_user_locate cb,
            rr_chessboard = Some info\<rparr>, w) }"

definition GameRequestHandle :: "env \<Rightarrow> sid \<Rightarrow> bytes \<Rightarrow> world \<Rightarrow> (bool \<times> world) option" where
  "GameRequestHandle E s msg w =
     (case parse_RequestPlay E msg of
        None \<Rightarrow> Some (True, w)
      | Some rp \<Rightarrow> do {
          g \<leftarrow> GetGameHall (rp_game_hall_id rp) w;
          case g of None \<Rightarrow> Some (True, w)
          | Some h \<Rightarrow> do {
              (p, w) \<leftarrow> GetChessBoardByID E h (rp_chess_board_id rp) w;
              w \<leftarrow> upd_sess s (\<lambda>u. u\<lparr>locate := rp_locate rp\<rparr>) w;
              b \<leftarrow> p;
              began \<leftarrow> GameBegan b w;
              cb \<leftarrow> boards w b;
              if began \<or> \<not> fst (AddUser (Some s) (rp_locate rp) cb) then do {
                w \<leftarrow> reply s MSG_REQUEST_PLAY_REPLY (ser_RequestPlayReply E
                       \<lparr>rr_status = 0, rr_first_come_user_locate = first_come_user_locate cb,
                        rr_chessboard = None\<rparr>) w;
                Some (True, w) }
              else do {
                w \<leftarrow> upd_board b (\<lambda>cb. snd (AddUser (Some s) (rp_locate rp) cb)) w;
                (rep, w) \<leftarrow> take_seat s b rp w;
                w \<leftarrow> reply s MSG_REQUEST_PLAY_REPLY (ser_RequestPlayReply E rep) w;
                u \<leftarrow> sess w s;
                mine \<leftarrow> currChessBoard u;
                w \<leftarrow> BroadCastMsg mine MSG_REQUEST_PLAY_REPLY
                       (ser_RequestPlayReply E (rep\<lparr>rr_status := 2\<rparr>)) (locate u) w;
                w \<leftarrow> BroadCastHallInfo E mine s w;
                Some (True, w) } } })"

definition StateGameReady_MsgHandle ::
  "env \<Rightarrow> sid \<Rightarrow> u32 \<Rightarrow> bytes \<Rightarrow> world \<Rightarrow> (bool \<times> world) option" where
  "StateGameReady_MsgHandle E s ty msg w =
     (if ty = mt_code MSG_GAME_HALL_SUMARY_REQ then GameHallSumaryHandle E s w
      else if ty = mt_code MSG_HALL_INFO_REQ then HallInfoReqHandle E s msg w
      else if ty = mt_code MSG_REQUEST_PLAY then GameRequestHandle E s msg w
      else if ty = mt_code MSG_ECHO then EchoMsgHandle E s msg w
      else if ty = mt_code MSG_UPDATE_USER_INFO then UpdateUserInfos E s msg w
      else Some (False, w))"

section \<open>StateGamePlay\<close>

definition ChessBoardReq :: "env \<Rightarrow> sid \<Rightarrow> bytes \<Rightarrow> world \<Rightarrow> (bool \<times> world) option" where
  "ChessBoardReq E s msg w =
     (case parse_ChessBoardInfoReq E msg of
        None \<Rightarrow> Some (True, w)
      | Some _ \<Rightarrow> do {
          u \<leftarrow> sess w s;
          b \<leftarrow> currChessBoard u;
          info \<leftarrow> WrapChessBoardInfo b w;
          w \<leftarrow> reply s MSG_CHESS_BOARD (ser_ChessBoardInfo E info) w;
          Some (True, w) })"

text \<open>The message types the playing state passes on to the board.\<close>

definition board_messages :: "u32 list" where
  "board_messages = map mt_code [MSG_MOVE_CHESS, MSG_USER_MSG, MSG_UNDO_REQ, MSG_UNDO_REPS,
     MSG_GIVE_UP, MSG_GAME_READY_REQ, MSG_SYSTEM_MSG, MSG_RECONCILED_REQ, MSG_RECONCILED_RESP,
     MSG_REQUEST_PLAY]"

definition play_dispatch :: "env \<Rightarrow> sid \<Rightarrow> u32 \<Rightarrow> bytes \<Rightarrow> world \<Rightarrow> (bool \<times> world) option" where
  "play_dispatch E s ty msg w =
     (if ty = mt_code MSG_GAME_HALL_SUMARY_REQ then GameHallSumaryHandle E s w
      else if ty = mt_code MSG_HALL_INFO_REQ then HallInfoReqHandle E s msg w
      else if ty = mt_code MSG_ECHO then EchoMsgHandle E s msg w
      else if ty = mt_code MSG_CHESS_BOARD_REQ then ChessBoardReq E s msg w
      else if ty = mt_code MSG_UPDATE_USER_INFO then UpdateUserInfos E s msg w
      else if ty \<in> set board_messages then do {
        u \<leftarrow> sess w s;
        b \<leftarrow> currChessBoard u;
        TranslateMsg E b ty msg w }
      else Some (False, w))"

definition StateGamePlay_MsgHandle ::
  "env \<Rightarrow> sid \<Rightarrow> u32 \<Rightarrow> bytes \<Rightarrow> world \<Rightarrow> (bool \<times> world) option" where
  "StateGamePlay_MsgHandle E s ty msg w = do {
     (ret, w) \<leftarrow> play_dispatch E s ty msg w;
     if ret then Some (True, w)
     else do {
       w \<leftarrow> upd_sess s (SetNextState STATE_GAME_READY) w;
       w \<leftarrow> set_status STATUS_NOT_START s w;
       Some (False, w) } }"

section \<open>UserSession\<close>

definition State_MsgHandle ::
  "env \<Rightarrow> StateType \<Rightarrow> sid \<Rightarrow> u32 \<Rightarrow> bytes \<Rightarrow> world \<Rightarrow> (bool \<times> world) option" where
  "State_MsgHandle E st s ty msg w = (case st of
       STATE_AUTH \<Rightarrow> StateAuth_MsgHandle E s ty msg w
     | STATE_DOWN_AD \<Rightarrow> StateAdPictureDownload_MsgHandle E s ty msg w
     | STATE_GAME_READY \<Rightarrow> StateGameReady_MsgHandle E s ty msg w
     | STATE_GAME_PLAY \<Rightarrow> StateGamePlay_MsgHandle E s ty msg w)"

definition start_machine :: "UserSession \<Rightarrow> UserSession" where
  "start_machine u = (if stateMachine u = None
     then u\<lparr>stateMachine := Some STATE_AUTH, nextState := Some STATE_AUTH\<rparr> else u)"

definition do_transition :: "UserSession \<Rightarrow> UserSession" where
  "do_transition u = (if nextState u \<noteq> None \<and> nextState u \<noteq> stateMachine u
     then u\<lparr>stateMachine := nextState u\<rparr> else u)"

definition UserSession_MessageHandle ::
  "env \<Rightarrow> sid \<Rightarrow> u32 \<Rightarrow> bytes \<Rightarrow> world \<Rightarrow> (bool \<times> world) option" where
  "UserSession_MessageHandle E s ty msg w = do {
     w \<leftarrow> upd_sess s start_machine w;
     u \<leftarrow> sess w s;
     st \<leftarrow> stateMachine u;
     (ret, w) \<leftarrow> State_MsgHandle E st s ty msg w;
     if \<not> ret then Some (False, w)
     else do { w \<leftarrow> upd_sess s do_transition w; Some (True, w) } }"

definition release_session :: "UserSession \<Rightarrow> UserSession" where
  "release_session u =
     (let u = (if stateMachine u \<noteq> None then u\<lparr>stateMachine := None, nextState := None\<rparr> else u);
          u = u\<lparr>ad_img_fp := None, bufev := False, inbuf := []\<rparr>
      in if clifd u \<noteq> -1
         then u\<lparr>timer_on := False, clifd := -1, thread := None,
                user_info := UsersInfo_Reset, buf_info := ReadBufInfo_Reset\<rparr>
         else u)"

definition leave_current_board :: "env \<Rightarrow> sid \<Rightarrow> world \<Rightarrow> world option" where
  "leave_current_board E s w = do {
     u \<leftarrow> sess w s;
     case currChessBoard u of
       None \<Rightarrow> Some w
     | Some b \<Rightarrow> do {
         w \<leftarrow> LeaveRoomHandle E b s True w;
         upd_sess s (\<lambda>u. u\<lparr>currChessBoard := None\<rparr>) w } }"

definition DestructResource :: "env \<Rightarrow> sid \<Rightarrow> world \<Rightarrow> world option" where
  "DestructResource E s w = do {
     w \<leftarrow> leave_current_board E s w;
     u \<leftarrow> sess w s;
     let w = (if clifd u \<noteq> -1 then w\<lparr>closed_fds := clifd u # closed_fds w\<rparr> else w);
     upd_sess s release_session w }"

end
