(* ===== verification/Worker.thy ===== *)
theory Worker
  imports States
begin

text \<open>
  The worker thread and the main thread: the session pool of \<open>MainThread\<close> (mainthread.cpp),
  the map from descriptors to sessions and the libevent callbacks of \<open>WorkThread\<close>
  (thread.cpp), and the choice of a thread for a new connection. At the end, the callbacks as
  one step relation: every way the outside world can make the server move.
\<close>

section \<open>The session pool\<close>

definition connectionMaxStep :: nat where "connectionMaxStep = 10"

definition alloc_session :: "world \<Rightarrow> world" where
  "alloc_session w = w\<lparr>sess := (sess w)(sess_next w \<mapsto> UserSession_new),
     sess_next := sess_next w + 1, sessionList := sessionList w @ [sess_next w]\<rparr>"

primrec CreatSessionsPool :: "nat \<Rightarrow> world \<Rightarrow> world" where
  "CreatSessionsPool 0 w = w"
| "CreatSessionsPool (Suc num) w = CreatSessionsPool num (alloc_session w)"

definition GetOneSessionFromPool :: "world \<Rightarrow> (sid \<times> world) option" where
  "GetOneSessionFromPool w =
     (let w = (if sessionList w = [] then CreatSessionsPool connectionMaxStep w else w)
      in case sessionList w of [] \<Rightarrow> None | s # rest \<Rightarrow> Some (s, w\<lparr>sessionList := rest\<rparr>))"

text \<open>\<open>delete session\<close>: its buffer is freed first.\<close>

definition delete_session :: "env \<Rightarrow> sid \<Rightarrow> world \<Rightarrow> world option" where
  "delete_session E s w = do {
     w \<leftarrow> DestructResource E s w;
     w \<leftarrow> upd_sess s (\<lambda>u. if buffer u then u\<lparr>buffer := False, buf_size := 0\<rparr> else u) w;
     Some (w\<lparr>sess := (sess w)(s := None)\<rparr>) }"

primrec destroy_back :: "env \<Rightarrow> nat \<Rightarrow> world \<Rightarrow> world option" where
  "destroy_back E 0 w = Some w"
| "destroy_back E (Suc num) w =
     (if sessionList w = [] then None
      else do {
        w \<leftarrow> delete_session E (last (sessionList w)) w;
        destroy_back E num (w\<lparr>sessionList := butlast (sessionList w)\<rparr>) })"

definition DestrorySessionsFromPool :: "env \<Rightarrow> nat \<Rightarrow> bool \<Rightarrow> world \<Rightarrow> world option" where
  "DestrorySessionsFromPool E num del_all w =
     (if del_all then do {
        w \<leftarrow> for_each (delete_session E) (sessionList w) w;
        Some (w\<lparr>sessionList := []\<rparr>) }
      else if num > 0 then destroy_back E (min (length (sessionList w)) num) w
      else Some w)"

definition RecycleSession :: "env \<Rightarrow> sid \<Rightarrow> world \<Rightarrow> world option" where
  "RecycleSession E s w = do {
     w \<leftarrow> DestructResource E s w;
     let w = w\<lparr>sessionList := s # sessionList w\<rparr>;
     if length (sessionList w) \<ge> 2 * connectionMaxStep
     then DestrorySessionsFromPool E connectionMaxStep False w
     else Some w }"

definition GetUnhandledSessionsSize :: "world \<Rightarrow> nat" where
  "GetUnhandledSessionsSize w = length (sessionList w)"

section \<open>Choosing a thread\<close>

definition GetThreadsNum :: "world \<Rightarrow> nat" where
  "GetThreadsNum w = length (threadList w)"

definition GetOneThreadByIndex :: "u8 \<Rightarrow> world \<Rightarrow> nat option" where
  "GetOneThreadByIndex i w = (if unat i < length (threadList w) then Some (unat i) else None)"

text \<open>Round robin; with no thread the remainder by zero is undefined, and so is an index past
  the end.\<close>

definition GetOneThread :: "world \<Rightarrow> (nat \<times> world) option" where
  "GetOneThread w =
     (let i = lastSelectIndex w; n = length (threadList w) in
      if n = 0 \<or> unat i \<ge> n then None
      else Some (unat i, w\<lparr>lastSelectIndex := of_nat ((unat i + 1) mod n)\<rparr>))"

section \<open>The threads' pipes\<close>

definition COMMAND_NOTIFY_ADD_EVENT :: u8 where "COMMAND_NOTIFY_ADD_EVENT = 0x10"
definition COMMAND_NOTIFY_QUIT_LOOP :: u8 where "COMMAND_NOTIFY_QUIT_LOOP = 0x11"

definition upd_thread :: "nat \<Rightarrow> (WorkThread \<Rightarrow> WorkThread) \<Rightarrow> world \<Rightarrow> world option" where
  "upd_thread t f w = (if t < length (threadList w)
     then Some (w\<lparr>threadList := (threadList w)[t := f (threadList w ! t)]\<rparr>) else None)"

definition NotifyThread :: "nat \<Rightarrow> u8 \<Rightarrow> int \<Rightarrow> world \<Rightarrow> world option" where
  "NotifyThread t cmd fd w =
     upd_thread t (\<lambda>th. th\<lparr>notify_pipe := notify_pipe th @ [\<lparr>command = cmd, pipe_fd = fd\<rparr>]\<rparr>) w"

text \<open>\<open>accept\<close> has returned \<open>fd\<close>.\<close>

definition AcceptHandler :: "int \<Rightarrow> world \<Rightarrow> world option" where
  "AcceptHandler fd w =
     (if fd < 0 then Some w
      else do {
        (t, w) \<leftarrow> GetOneThread w;
        NotifyThread t COMMAND_NOTIFY_ADD_EVENT fd w })"

text \<open>The new session is registered under its descriptor; \<open>insert\<close> keeps an old entry.\<close>

definition add_session :: "env \<Rightarrow> nat \<Rightarrow> int \<Rightarrow> sid \<Rightarrow> world \<Rightarrow> world option" where
  "add_session E t fd s w = do {
     w \<leftarrow> upd_sess s (\<lambda>u. u\<lparr>clifd := fd, thread := Some t, timer_on := True,
            bufev := bufferevent_ok E fd, inbuf := []\<rparr>) w;
     upd_thread t (\<lambda>th. th\<lparr>fdSessionMap := sm_insert fd s (fdSessionMap th)\<rparr>) w }"

definition NotifyReceivedProcess :: "env \<Rightarrow> nat \<Rightarrow> world \<Rightarrow> world option" where
  "NotifyReceivedProcess E t w = do {
     th \<leftarrow> the_thread (Some t) w;
     case notify_pipe th of
       [] \<Rightarrow> Some w
     | msg # rest \<Rightarrow> do {
         w \<leftarrow> upd_thread t (\<lambda>th. th\<lparr>notify_pipe := rest\<rparr>) w;
         if command msg = COMMAND_NOTIFY_ADD_EVENT then do {
           (s, w) \<leftarrow> GetOneSessionFromPool w;
           add_session E t (pipe_fd msg) s w }
         else if command msg = COMMAND_NOTIFY_QUIT_LOOP then upd_thread t (\<lambda>th. th\<lparr>loop_exit := True\<rparr>) w
         else Some w } }"

section \<open>The callbacks of a connection\<close>

definition GetSessionsNum :: "WorkThread \<Rightarrow> nat" where
  "GetSessionsNum th = length (fdSessionMap th)"

definition GetUserByClientFD :: "int \<Rightarrow> WorkThread \<Rightarrow> sid option" where
  "GetUserByClientFD fd th = sm_find fd (fdSessionMap th)"

definition ClosingClientCon :: "env \<Rightarrow> nat \<Rightarrow> int \<Rightarrow> world \<Rightarrow> (bool \<times> world) option" where
  "ClosingClientCon E t fd w = do {
     th \<leftarrow> the_thread (Some t) w;
     case sm_find fd (fdSessionMap th) of
       None \<Rightarrow> Some (True, w)
     | Some s \<Rightarrow> do {
         w \<leftarrow> upd_thread t (\<lambda>th. th\<lparr>fdSessionMap := sm_erase fd (fdSessionMap th)\<rparr>) w;
         w \<leftarrow> RecycleSession E s w;
         Some (True, w) } }"

definition ResetTimer :: "sid \<Rightarrow> world \<Rightarrow> world option" where
  "ResetTimer s w = upd_sess s (\<lambda>u. u\<lparr>timer_on := True\<rparr>) w"

definition WorkThread_MessageHandle ::
  "env \<Rightarrow> nat \<Rightarrow> int \<Rightarrow> u32 \<Rightarrow> bytes \<Rightarrow> world \<Rightarrow> (bool \<times> world) option" where
  "WorkThread_MessageHandle E t fd ty msg w = do {
     th \<leftarrow> the_thread (Some t) w;
     case sm_find fd (fdSessionMap th) of
       None \<Rightarrow> Some (False, w)
     | Some s \<Rightarrow> do {
         (ok, w) \<leftarrow> UserSession_MessageHandle E s ty msg w;
         if \<not> ok then do { (_, w) \<leftarrow> ClosingClientCon E t fd w; Some (False, w) }
         else do { w \<leftarrow> ResetTimer s w; Some (True, w) } } }"

text \<open>The timer of a session fires (it is no longer pending then).\<close>

definition TimerOutHandle :: "env \<Rightarrow> sid \<Rightarrow> world \<Rightarrow> world option" where
  "TimerOutHandle E s w = do {
     w \<leftarrow> upd_sess s (\<lambda>u. u\<lparr>timer_on := False\<rparr>) w;
     u \<leftarrow> sess w s;
     t \<leftarrow> thread u;
     (_, w) \<leftarrow> ClosingClientCon E t (clifd u) w;
     Some w }"

definition max_total_size :: nat where "max_total_size = 512 * MAX_DATA_LENGTH"

text \<open>The first half of \<open>OnReadCb\<close>: the header, once it is there. \<open>None\<close> (inner) when the frame
  is refused.\<close>

definition read_head :: "nat \<Rightarrow> UserSession \<Rightarrow> UserSession option" where
  "read_head input_len u =
     (if \<not> got_head (buf_info u) \<and> input_len \<ge> DATA_HEAD_LENGTH then
        let ts = get_le32 0 (inbuf u); ty = get_le32 4 (inbuf u) in
        if ty > mt_code MSG_TYPE_MAX \<or> unat ts > max_total_size then None
        else Some (u\<lparr>buf_info := \<lparr>total_size = ts, msg_type = ty, got_head = True\<rparr>\<rparr>)
      else Some u)"

text \<open>The second half: a frame is handled when the input is exactly as long as the header says.
  A declared size below the header's would make the string's length wrap around.\<close>

definition OnReadCb :: "env \<Rightarrow> sid \<Rightarrow> world \<Rightarrow> world option" where
  "OnReadCb E s w = do {
     u \<leftarrow> sess w s;
     t \<leftarrow> thread u;
     let input_len = length (inbuf u);
     case read_head input_len u of
       None \<Rightarrow> do {
         w \<leftarrow> upd_sess s (\<lambda>u. u\<lparr>buf_info := (buf_info u)\<lparr>total_size := get_le32 0 (inbuf u),
                msg_type := get_le32 4 (inbuf u)\<rparr>\<rparr>) w;
         (_, w) \<leftarrow> ClosingClientCon E t (clifd u) w;
         Some w }
     | Some u' \<Rightarrow> do {
         w \<leftarrow> upd_sess s (\<lambda>_. u') w;
         let n = unat (total_size (buf_info u'));
         if input_len = n \<and> got_head (buf_info u') then
           if n < DATA_HEAD_LENGTH then None
           else do {
             w \<leftarrow> upd_sess s (\<lambda>u. (GetBuffer n u)\<lparr>inbuf := drop n (inbuf u)\<rparr>) w;
             (ok, w) \<leftarrow> WorkThread_MessageHandle E t (clifd u') (msg_type (buf_info u'))
                          (drop DATA_HEAD_LENGTH (take n (inbuf u'))) w;
             if ok then upd_sess s (\<lambda>u. u\<lparr>buf_info := ReadBufInfo_Reset\<rparr>) w else Some w }
         else Some w } }"

text \<open>The flags of a bufferevent error callback.\<close>

record bev_events =
  ev_reading :: bool
  ev_writing :: bool
  ev_eof :: bool
  ev_error :: bool
  ev_timeout :: bool

definition event_closes :: "bev_events \<Rightarrow> bool" where
  "event_closes ev =
     (if ev_eof ev \<or> ev_error ev then True
      else if ev_timeout ev \<and> ev_reading ev then True
      else ev_timeout ev \<and> ev_writing ev)"

definition OnEventCb :: "env \<Rightarrow> sid \<Rightarrow> bev_events \<Rightarrow> world \<Rightarrow> world option" where
  "OnEventCb E s ev w = do {
     u \<leftarrow> sess w s;
     t \<leftarrow> thread u;
     if event_closes ev then do { (_, w) \<leftarrow> ClosingClientCon E t (clifd u) w; Some w }
     else Some w }"

text \<open>After the event loop: every session is recycled and its entry erased.\<close>

definition DestrotiedSessions :: "env \<Rightarrow> nat \<Rightarrow> world \<Rightarrow> world option" where
  "DestrotiedSessions E t w = do {
     th \<leftarrow> the_thread (Some t) w;
     w \<leftarrow> for_each (\<lambda>(fd, s) w. do {
             w \<leftarrow> RecycleSession E s w;
             upd_thread t (\<lambda>th. th\<lparr>fdSessionMap := sm_erase fd (fdSessionMap th)\<rparr>) w })
           (fdSessionMap th) w;
     upd_thread t (\<lambda>th. th\<lparr>fdSessionMap := []\<rparr>) w }"

section \<open>Start-up\<close>

definition new_thread :: WorkThread where
  "new_thread = \<lparr>fdSessionMap = [], pdb_con = True, notify_pipe = [], loop_exit = False\<rparr>"

definition CreateWorkTheads :: "nat \<Rightarrow> world \<Rightarrow> world" where
  "CreateWorkTheads n w = w\<lparr>threadList := threadList w @ replicate n new_thread\<rparr>"

definition GameHall_new :: "u32 \<Rightarrow> u32 \<Rightarrow> GameHall" where
  "GameHall_new i num = \<lparr>gameHallID = i, chessBoardMaxNum = num, chessBoardInfo = []\<rparr>"

definition MainThread_new :: world where
  "MainThread_new = \<lparr>sess = (\<lambda>_. None), sess_next = 0, boards = (\<lambda>_. None),
     halls = (\<lambda>h. if h \<in> set hall_numbers then Some (GameHall_new h chessBoardMax) else None),
     GameHallMap = map (\<lambda>h. (h, h)) hall_numbers, threadList = [], lastSelectIndex = 0,
     sessionList = [], netlog = [], dblog = [], closed_fds = [], fpw_requests = []\<rparr>"

text \<open>What main does before the event loops run: the worker's SQL connection is up.\<close>

definition server_start :: world where
  "server_start = CreateWorkTheads 1 MainThread_new"

section \<open>The steps of the server\<close>

text \<open>Bytes from the client are appended to the input buffer before the read callback runs.\<close>

definition receive :: "env \<Rightarrow> sid \<Rightarrow> bytes \<Rightarrow> world \<Rightarrow> world option" where
  "receive E s bs w = do {
     w \<leftarrow> upd_sess s (\<lambda>u. u\<lparr>inbuf := inbuf u @ bs\<rparr>) w;
     OnReadCb E s w }"

definition open_fds :: "world \<Rightarrow> int set" where
  "open_fds w = (\<Union>th \<in> set (threadList w).
     fst ` set (fdSessionMap th) \<union> pipe_fd ` set (notify_pipe th))"

text \<open>The session is the one the connection's callbacks are registered with: it is in its
  thread's map and has its bufferevent.\<close>

definition connected :: "world \<Rightarrow> nat \<Rightarrow> int \<Rightarrow> sid \<Rightarrow> bool" where
  "connected w t fd s \<longleftrightarrow> t < length (threadList w) \<and> sm_find fd (fdSessionMap (threadList w ! t)) = Some s"

inductive srv_step :: "env \<Rightarrow> world \<Rightarrow> world \<Rightarrow> bool" for E where
  accept: "fd \<notin> open_fds w \<Longrightarrow> AcceptHandler fd w = Some w' \<Longrightarrow> srv_step E w w'"
| notify: "t < length (threadList w) \<Longrightarrow> NotifyReceivedProcess E t w = Some w' \<Longrightarrow> srv_step E w w'"
| read: "connected w t fd s \<Longrightarrow> sess w s = Some u \<Longrightarrow> bufev u \<Longrightarrow>
     receive E s bs w = Some w' \<Longrightarrow> srv_step E w w'"
| event: "connected w t fd s \<Longrightarrow> sess w s = Some u \<Longrightarrow> bufev u \<Longrightarrow>
     OnEventCb E s ev w = Some w' \<Longrightarrow> srv_step E w w'"
| timeout: "connected w t fd s \<Longrightarrow> sess w s = Some u \<Longrightarrow> timer_on u \<Longrightarrow>
     TimerOutHandle E s w = Some w' \<Longrightarrow> srv_step E w w'"

inductive srv_reach :: "env \<Rightarrow> world \<Rightarrow> bool" for E where
  start: "srv_reach E server_start"
| step: "srv_reach E w \<Longrightarrow> srv_step E w w' \<Longrightarrow> srv_reach E w'"

end
