(* ===== verification/Frames.thy ===== *)
theory Frames
  imports Worker
begin

text \<open>
  What the operations leave alone. \<open>talk w w'\<close>: only messages were sent and missing boards
  created, every session is the same but for its buffer. \<open>keeps w w'\<close>: the structure is the
  same (who sits where, which connection and state a session has), while statuses, scores,
  clocks and the logs may differ. Both include the consistency of the halls, so the rules
  chain through a handler's calls.
\<close>

section \<open>The halls and their boards\<close>

definition halls_ok :: "world \<Rightarrow> bool" where
  "halls_ok w \<longleftrightarrow>
     GameHallMap w = map (\<lambda>h. (h, h)) hall_numbers \<and>
     (\<forall>h. halls w h \<noteq> None \<longleftrightarrow> h \<in> set hall_numbers) \<and>
     (\<forall>h hall. halls w h = Some hall \<longrightarrow> gameHallID hall = h \<and>
        chessBoardMaxNum hall = chessBoardMax \<and> sm_ok (chessBoardInfo hall) \<and>
        (\<forall>i b. sm_find i (chessBoardInfo hall) = Some b \<longrightarrow>
           b = (h, i) \<and> i \<noteq> 0 \<and> i \<le> chessBoardMax \<and> boards w b \<noteq> None)) \<and>
     (\<forall>h i. boards w (h, i) \<noteq> None \<longrightarrow>
        (\<exists>hall. halls w h = Some hall \<and> sm_find i (chessBoardInfo hall) = Some (h, i)))"

lemma halls_ok_cong:
  "GameHallMap w' = GameHallMap w \<Longrightarrow> halls w' = halls w \<Longrightarrow>
   (\<And>b. boards w' b = None \<longleftrightarrow> boards w b = None) \<Longrightarrow> halls_ok w' = halls_ok w"
  by (simp add: halls_ok_def)

lemma halls_ok_frame [simp]:
  "halls_ok (w\<lparr>sess := x1\<rparr>) = halls_ok w" "halls_ok (w\<lparr>netlog := x2\<rparr>) = halls_ok w"
  "halls_ok (w\<lparr>dblog := x3\<rparr>) = halls_ok w" "halls_ok (w\<lparr>threadList := x4\<rparr>) = halls_ok w"
  "halls_ok (w\<lparr>sessionList := x5\<rparr>) = halls_ok w" "halls_ok (w\<lparr>sess_next := x6\<rparr>) = halls_ok w"
  "halls_ok (w\<lparr>closed_fds := x7\<rparr>) = halls_ok w" "halls_ok (w\<lparr>lastSelectIndex := x8\<rparr>) = halls_ok w"
  "halls_ok (w\<lparr>fpw_requests := x9\<rparr>) = halls_ok w"
  by (rule halls_ok_cong; simp)+

lemma hall_numbers_eq: "hall_numbers = [1, 2, 3, 4, 5]"
  by (simp add: hall_numbers_def upt_conv_Cons)

lemma GetGameHall_eq:
  assumes "halls_ok w"
  shows "GetGameHall i w = Some (if i \<in> set hall_numbers then Some i else None)"
proof -
  have "i < 1 \<or> i > 5 \<or> i \<in> set hall_numbers"
    by (simp add: hall_numbers_eq word_unat_eq_iff word_less_nat_alt) arith
  then show ?thesis
    using assms by (auto simp: GetGameHall_def gameHallMaxNum_def halls_ok_def hall_numbers_eq)
qed

lemma halls_ok_board:
  "halls_ok w \<Longrightarrow> boards w (h, i) \<noteq> None \<Longrightarrow>
   \<exists>hall. halls w h = Some hall \<and> sm_find i (chessBoardInfo hall) = Some (h, i)"
  by (simp add: halls_ok_def)

section \<open>Sending only\<close>

definition strip :: "UserSession \<Rightarrow> UserSession" where
  "strip u = u\<lparr>buffer := False, buf_size := 0\<rparr>"

definition talk :: "world \<Rightarrow> world \<Rightarrow> bool" where
  "talk w w' \<longleftrightarrow> halls_ok w' \<and>
     (\<forall>s. map_option strip (sess w' s) = map_option strip (sess w s)) \<and>
     (\<forall>b cb. boards w b = Some cb \<longrightarrow> boards w' b = Some cb) \<and>
     (\<forall>b cb. boards w b = None \<longrightarrow> boards w' b = Some cb \<longrightarrow> cb = ChessBoard_new (snd b) (fst b)) \<and>
     (\<exists>ns. netlog w' = ns @ netlog w) \<and>
     threadList w' = threadList w \<and> sessionList w' = sessionList w \<and> sess_next w' = sess_next w \<and>
     dblog w' = dblog w \<and> closed_fds w' = closed_fds w \<and> lastSelectIndex w' = lastSelectIndex w"

lemma talk_refl: "halls_ok w \<Longrightarrow> talk w w"
  by (auto simp: talk_def)

lemma talk_trans: "talk a b \<Longrightarrow> talk b c \<Longrightarrow> talk a c"
  unfolding talk_def by (elim conjE exE, intro conjI) (simp, simp, fast, metis not_Some_eq, simp_all)

lemma talk_halls: "talk w w' \<Longrightarrow> halls_ok w'"
  by (simp add: talk_def)

lemma strip_GetBuffer [simp]: "strip (GetBuffer n u) = strip u"
  by (simp add: strip_def GetBuffer_def)

lemma talk_OnWrite:
  "OnWrite fd ty data s w = Some (r, w') \<Longrightarrow> halls_ok w \<Longrightarrow> talk w w'"
  by (auto simp: OnWrite_def upd_sess_def talk_def split: option.splits if_splits
      elim!: bind_SomeE)

lemma talk_MessageReply:
  "MessageReply s ty data w = Some (r, w') \<Longrightarrow> halls_ok w \<Longrightarrow> talk w w'"
  by (auto simp: MessageReply_def elim!: bind_SomeE intro: talk_OnWrite)

lemma talk_reply: "reply s ty data w = Some w' \<Longrightarrow> halls_ok w \<Longrightarrow> talk w w'"
  by (auto simp: reply_def intro: talk_MessageReply)

lemma talk_for_each:
  assumes "for_each f xs w = Some w'" "halls_ok w"
    and "\<And>x w w'. x \<in> set xs \<Longrightarrow> f x w = Some w' \<Longrightarrow> halls_ok w \<Longrightarrow> talk w w'"
  shows "talk w w'"
  using assms(1) talk_refl [OF assms(2)]
  by (rule for_each_inv) (blast intro: assms(3) talk_trans talk_halls)

lemma talk_BroadCastMsg: "BroadCastMsg b ty data l w = Some w' \<Longrightarrow> halls_ok w \<Longrightarrow> talk w w'"
  unfolding BroadCastMsg_def
  by (erule (1) talk_for_each)
    (auto split: if_splits option.splits elim!: bind_SomeE intro: talk_refl talk_reply)

lemma CreateChessBoard_talk:
  assumes "CreateChessBoard h i w = Some (r, w')" "halls_ok w" "halls w h = Some hall"
    and "i \<noteq> 0" "i \<le> chessBoardMax" "sm_find i (chessBoardInfo hall) = None"
  shows "talk w w' \<and> (r \<longrightarrow> (\<exists>hall. halls w' h = Some hall \<and> sm_find i (chessBoardInfo hall) = Some (h, i)))"
proof (cases r)
  case False
  then show ?thesis using assms by (auto simp: CreateChessBoard_def talk_refl split: if_splits)
next
  case True
  define hall' where "hall' = hall\<lparr>chessBoardInfo := sm_insert i (h, i) (chessBoardInfo hall)\<rparr>"
  have w': "w' = w\<lparr>boards := (boards w)((h, i) \<mapsto> ChessBoard_new i h), halls := (halls w)(h \<mapsto> hall')\<rparr>"
    using assms(1,3) True by (auto simp: CreateChessBoard_def hall'_def split: if_splits)
  have ok: "sm_ok (chessBoardInfo hall)" using assms(2,3) by (auto simp: halls_ok_def)
  have new: "boards w (h, i) = None"
    using halls_ok_board [OF assms(2), of h i] assms(3,6) by (cases "boards w (h, i)") auto
  have f: "sm_find j (chessBoardInfo hall') = (if j = i then Some (h, i) else sm_find j (chessBoardInfo hall))" for j
    using ok assms(6) by (simp add: hall'_def sm_find_insert)
  have hs: "halls w' k = (if k = h then Some hall' else halls w k)" for k by (simp add: w')
  have bs: "boards w' b = (if b = (h, i) then Some (ChessBoard_new i h) else boards w b)" for b
    by (simp add: w')
  have fields: "gameHallID hall' = gameHallID hall" "chessBoardMaxNum hall' = chessBoardMaxNum hall"
    "sm_ok (chessBoardInfo hall')"
    using ok by (simp_all add: hall'_def sm_ok_insert)
  have "halls_ok w'"
    unfolding halls_ok_def
  proof (intro conjI allI impI)
    show "GameHallMap w' = map (\<lambda>h. (h, h)) hall_numbers"
      using assms(2) by (simp add: halls_ok_def w')
    show "halls w' k \<noteq> None \<longleftrightarrow> k \<in> set hall_numbers" for k
      using assms(2,3) unfolding halls_ok_def hs by (metis option.distinct(1))
  next
    fix k hl assume k: "halls w' k = Some hl"
    show "gameHallID hl = k" "chessBoardMaxNum hl = chessBoardMax" "sm_ok (chessBoardInfo hl)"
      using k assms(2,3) fields unfolding halls_ok_def hs by (cases "k = h"; simp)+
    fix j b assume j: "sm_find j (chessBoardInfo hl) = Some b"
    have "b = (k, j) \<and> j \<noteq> 0 \<and> j \<le> chessBoardMax \<and> boards w' b \<noteq> None"
    proof (cases "k = h \<and> j = i")
      case True
      with j k assms(4,5) f show ?thesis by (auto simp: hs bs)
    next
      case False
      obtain hl0 where "halls w k = Some hl0" "sm_find j (chessBoardInfo hl0) = Some b"
        using False j k assms(3) f by (cases "k = h") (auto simp: hs)
      then have "b = (k, j) \<and> j \<noteq> 0 \<and> j \<le> chessBoardMax \<and> boards w b \<noteq> None"
        using assms(2) unfolding halls_ok_def by blast
      then show ?thesis unfolding bs by auto
    qed
    then show "b = (k, j)" "j \<noteq> 0" "j \<le> chessBoardMax" "boards w' b \<noteq> None" by blast+
  next
    fix k j assume kj: "boards w' (k, j) \<noteq> None"
    show "\<exists>hall. halls w' k = Some hall \<and> sm_find j (chessBoardInfo hall) = Some (k, j)"
    proof (cases "(k, j) = (h, i)")
      case True
      then show ?thesis by (simp add: hs f)
    next
      case False
      then have "boards w (k, j) \<noteq> None" using kj unfolding bs by auto
      then obtain hl where "halls w k = Some hl" "sm_find j (chessBoardInfo hl) = Some (k, j)"
        using assms(2) unfolding halls_ok_def by blast
      with assms(3) False f show ?thesis by (cases "k = h") (auto simp: hs)
    qed
  qed
  then show ?thesis using new f by (auto simp: talk_def w')
qed

lemma GetChessBoardByID_spec:
  assumes "GetChessBoardByID E h i w = Some (p, w')" "halls_ok w"
  shows "talk w w' \<and> (\<forall>b. p = Some b \<longrightarrow> b = (h, i) \<and> boards w' b \<noteq> None \<and> i \<noteq> 0 \<and> i \<le> chessBoardMax)"
proof -
  obtain hall where hall: "halls w h = Some hall"
    using assms(1) by (auto simp: GetChessBoardByID_def elim!: bind_SomeE)
  have mx: "chessBoardMaxNum hall = chessBoardMax" using assms(2) hall by (auto simp: halls_ok_def)
  consider (bad) "i = 0 \<or> i > chessBoardMax" | (old) b where "i \<noteq> 0" "i \<le> chessBoardMax" "sm_find i (chessBoardInfo hall) = Some b"
    | (new) "i \<noteq> 0" "i \<le> chessBoardMax" "sm_find i (chessBoardInfo hall) = None"
    by (meson not_None_eq not_le)
  then show ?thesis
  proof cases
    case bad
    then show ?thesis using assms hall mx by (auto simp: GetChessBoardByID_def talk_refl)
  next
    case old
    have "GetChessBoardByID E h i w = Some (Some b, w)"
      unfolding GetChessBoardByID_def hall using old mx by (simp add: not_less)
    with assms have p: "p = Some b" "w' = w" by simp_all
    have "b = (h, i) \<and> boards w b \<noteq> None"
      using assms(2) hall old(3) unfolding halls_ok_def by blast
    with p old assms(2) show ?thesis by (auto simp: talk_refl)
  next
    case new
    then have "\<not> (i \<le> 0 \<or> i > chessBoardMaxNum hall)" using mx by (auto simp: not_less)
    then obtain ok w1 where c: "CreateChessBoard h i w = Some (ok, w1)"
      and r: "(if ok then do { hall \<leftarrow> halls w1 h; b \<leftarrow> sm_find i (chessBoardInfo hall); Some (Some b, w1) }
               else Some (None, w1)) = Some (p, w')"
      using assms(1) hall new(3)
      by (auto simp: GetChessBoardByID_def simp del: word_le_0_iff split: if_splits elim!: bind_SomeE)
    note cc = CreateChessBoard_talk [OF c assms(2) hall new]
    show ?thesis
    proof (cases ok)
      case True
      with cc obtain hl where "halls w1 h = Some hl" "sm_find i (chessBoardInfo hl) = Some (h, i)" by blast
      moreover from cc have "halls_ok w1" by (blast intro: talk_halls)
      ultimately show ?thesis using r True cc new by (auto simp: halls_ok_def)
    next
      case False
      then show ?thesis using r cc by auto
    qed
  qed
qed

lemma talk_GetChessBoardByID:
  "GetChessBoardByID E h i w = Some (p, w') \<Longrightarrow> halls_ok w \<Longrightarrow> talk w w'"
  by (simp add: GetChessBoardByID_spec)

lemma talk_wrap_boards:
  assumes "wrap_boards E h w = Some (infos, w')" "halls_ok w"
  shows "talk w w'"
proof -
  have "talk w (snd (infos, w'))"
    by (rule for_each_inv [OF assms(1) [unfolded wrap_boards_def], where P = "\<lambda>p. talk w (snd p)"])
      (use assms(2) in \<open>auto simp: talk_refl split: option.splits prod.splits elim!: bind_SomeE
        intro: talk_trans [OF _ talk_GetChessBoardByID] talk_halls\<close>)
  then show ?thesis by simp
qed

lemma talk_WrapHallInfo:
  "WrapHallInfo E i w = Some (d, w') \<Longrightarrow> halls_ok w \<Longrightarrow> talk w w'"
  unfolding WrapHallInfo_def
  by (elim bind_SomeE) (auto split: option.splits elim!: bind_SomeE intro: talk_refl talk_wrap_boards)

lemma talk_GameHallSumaryHandle:
  "GameHallSumaryHandle E s w = Some (r, w') \<Longrightarrow> halls_ok w \<Longrightarrow> talk w w'"
  by (auto simp: GameHallSumaryHandle_def elim!: bind_SomeE intro: talk_reply)

lemma talk_hall_update:
  assumes "hall_update E d s w = Some w'" "halls_ok w"
  shows "talk w w'"
proof -
  obtain u where u: "sess w s = Some u" using assms(1) by (auto simp: hall_update_def elim!: bind_SomeE)
  show ?thesis
  proof (cases "in_hall (stateMachine u)")
    case True
    then obtain w1 r where 1: "reply s MSG_HALL_INFO d w = Some w1"
      and 2: "GameHallSumaryHandle E s w1 = Some (r, w')"
      using assms(1) u by (auto simp: hall_update_def elim!: bind_SomeE)
    have t: "talk w w1" using 1 assms(2) by (rule talk_reply)
    with talk_GameHallSumaryHandle [OF 2 talk_halls [OF t]] show ?thesis by (blast intro: talk_trans)
  next
    case False
    then show ?thesis using assms u by (simp add: hall_update_def talk_refl)
  qed
qed

lemma talk_BroadCastHallInfo:
  assumes "BroadCastHallInfo E b s w = Some w'" "halls_ok w"
  shows "talk w w'"
proof -
  from assms(1) obtain d i w1 where 1: "WrapHallInfo E i w = Some (d, w1)"
    and 2: "for_each (hall_update E (getd [] d)) (all_sessions w1) w1 = Some w'"
    by (auto simp: BroadCastHallInfo_def elim!: bind_SomeE)
  have t: "talk w w1" using 1 assms(2) by (rule talk_WrapHallInfo)
  moreover have "talk w1 w'"
    using 2 talk_halls [OF t] by (rule talk_for_each) (rule talk_hall_update)
  ultimately show ?thesis by (rule talk_trans)
qed

lemma talk_announce_board: "announce_board E b l w = Some w' \<Longrightarrow> halls_ok w \<Longrightarrow> talk w w'"
  by (auto simp: announce_board_def elim!: bind_SomeE intro: talk_BroadCastMsg)

end
