(* ===== verification/Structure.thy ===== *)
theory Structure
  imports Frames
begin

text \<open>
  What the handlers do to the structure of the server: which connection, seat, board and
  state a session has, and which sessions sit at a board. \<open>keeps w w'\<close> says the structure is
  the same, while statuses, scores, clocks and logs may differ; each rule of the collection
  \<open>keeps\<close> carries the relation over one call, so that a handler's proof follows its calls.
\<close>

section \<open>The structural part of a session and of a board\<close>

text \<open>A session with everything blanked but its connection, seat, board and states.\<close>

definition ident :: "UserSession \<Rightarrow> UserSession" where
  "ident u = u\<lparr>timer_on := False, user_info := UsersInfo_Reset, status := STATUS_NOT_START,
     ad_img_fp := None, inbuf := [], buf_info := ReadBufInfo_Reset, buffer := False, buf_size := 0\<rparr>"

definition seating_of :: "ChessBoard \<Rightarrow> sid option \<times> sid option \<times> sid option \<times> u32 \<times> u32 \<times> u32" where
  "seating_of cb = (leftUser cb, rightUser cb, bottomUser cb, currUserNum cb, currentHall cb, chessBoardID cb)"

lemma ident_frame [simp]:
  "ident (u\<lparr>user_info := x1\<rparr>) = ident u" "ident (u\<lparr>status := x2\<rparr>) = ident u"
  "ident (u\<lparr>ad_img_fp := x3\<rparr>) = ident u" "ident (u\<lparr>buf_info := x4\<rparr>) = ident u"
  "ident (u\<lparr>buffer := x5\<rparr>) = ident u" "ident (u\<lparr>buf_size := x6\<rparr>) = ident u"
  "ident (u\<lparr>inbuf := x7\<rparr>) = ident u" "ident (u\<lparr>timer_on := x8\<rparr>) = ident u"
  "ident (GetBuffer n u) = ident u" "ident (score_add k u) = ident u" "ident (score_sub k u) = ident u"
  by (simp_all add: ident_def score_add_def score_sub_def)

lemma ident_fields [simp]:
  "clifd (ident u) = clifd u" "thread (ident u) = thread u" "locate (ident u) = locate u"
  "currChessBoard (ident u) = currChessBoard u" "stateMachine (ident u) = stateMachine u"
  "nextState (ident u) = nextState u" "bufev (ident u) = bufev u"
  by (simp_all add: ident_def)

lemma ident_eqD:
  assumes "ident u = ident v"
  shows "clifd u = clifd v" "thread u = thread v" "locate u = locate v"
    "currChessBoard u = currChessBoard v" "stateMachine u = stateMachine v"
    "nextState u = nextState v" "bufev u = bufev v"
  using arg_cong [OF assms, of clifd] arg_cong [OF assms, of thread] arg_cong [OF assms, of locate]
    arg_cong [OF assms, of currChessBoard] arg_cong [OF assms, of stateMachine]
    arg_cong [OF assms, of nextState] arg_cong [OF assms, of bufev]
  by simp_all

lemma ident_updates:
  "ident (u\<lparr>locate := x1\<rparr>) = (ident u)\<lparr>locate := x1\<rparr>"
  "ident (u\<lparr>currChessBoard := x2\<rparr>) = (ident u)\<lparr>currChessBoard := x2\<rparr>"
  "ident (u\<lparr>nextState := x3\<rparr>) = (ident u)\<lparr>nextState := x3\<rparr>"
  "ident (u\<lparr>stateMachine := x4\<rparr>) = (ident u)\<lparr>stateMachine := x4\<rparr>"
  "ident (SetNextState st u) = (ident u)\<lparr>nextState := Some st\<rparr>"
  by (simp_all add: ident_def SetNextState_def)

lemma strip_ident: "strip u = strip u' \<Longrightarrow> ident u = ident u'"
  by (cases u; cases u') (simp add: strip_def ident_def)

lemma seating_of_frame [simp]:
  "seating_of (cb\<lparr>first_come_user_locate := x1\<rparr>) = seating_of cb"
  "seating_of (cb\<lparr>total_time := x2\<rparr>) = seating_of cb"
  "seating_of (cb\<lparr>single_step_time := x3\<rparr>) = seating_of cb"
  "seating_of (cb\<lparr>recent_winner_locate := x4\<rparr>) = seating_of cb"
  "seating_of (cb\<lparr>recent_loser_locate := x5\<rparr>) = seating_of cb"
  by (simp_all add: seating_of_def)

definition keeps :: "world \<Rightarrow> world \<Rightarrow> bool" where
  "keeps w w' \<longleftrightarrow> halls_ok w' \<and>
     (\<forall>s. map_option ident (sess w' s) = map_option ident (sess w s)) \<and>
     (\<forall>b cb. boards w b = Some cb \<longrightarrow> (\<exists>cb'. boards w' b = Some cb' \<and> seating_of cb' = seating_of cb)) \<and>
     (\<forall>b cb. boards w b = None \<longrightarrow> boards w' b = Some cb \<longrightarrow>
        seating_of cb = seating_of (ChessBoard_new (snd b) (fst b))) \<and>
     threadList w' = threadList w \<and> sessionList w' = sessionList w \<and> sess_next w' = sess_next w \<and>
     closed_fds w' = closed_fds w \<and> lastSelectIndex w' = lastSelectIndex w"

lemma keeps_refl: "halls_ok w \<Longrightarrow> keeps w w"
  by (auto simp: keeps_def)

lemma keeps_halls: "keeps w w' \<Longrightarrow> halls_ok w'"
  by (simp add: keeps_def)

lemma keeps_old:
  "keeps w w' \<Longrightarrow> boards w b = Some cb \<Longrightarrow> \<exists>cb'. boards w' b = Some cb' \<and> seating_of cb' = seating_of cb"
  unfolding keeps_def by blast

lemma keeps_new:
  "keeps w w' \<Longrightarrow> boards w b = None \<Longrightarrow> boards w' b = Some cb \<Longrightarrow>
   seating_of cb = seating_of (ChessBoard_new (snd b) (fst b))"
  unfolding keeps_def by blast

lemma keeps_trans:
  assumes "keeps a b" "keeps b c" shows "keeps a c"
  unfolding keeps_def
proof (intro conjI allI impI)
  fix p cb assume n: "boards a p = None" and c: "boards c p = Some cb"
  show "seating_of cb = seating_of (ChessBoard_new (snd p) (fst p))"
  proof (cases "boards b p")
    case None
    then show ?thesis using c by (rule keeps_new [OF assms(2)])
  next
    case (Some cb1)
    then have "seating_of cb1 = seating_of (ChessBoard_new (snd p) (fst p))"
      using n keeps_new [OF assms(1)] by blast
    moreover have "seating_of cb = seating_of cb1" using keeps_old [OF assms(2) Some] c by auto
    ultimately show ?thesis by simp
  qed
next
  fix p cb assume "boards a p = Some cb"
  then obtain cb1 where "boards b p = Some cb1" "seating_of cb1 = seating_of cb"
    using keeps_old [OF assms(1)] by blast
  with keeps_old [OF assms(2)] show "\<exists>cb'. boards c p = Some cb' \<and> seating_of cb' = seating_of cb"
    by fastforce
qed (use assms in \<open>simp_all add: keeps_def\<close>)

lemma talk_keeps: "talk w w' \<Longrightarrow> keeps w w'"
proof -
  assume t: "talk w w'"
  have "map_option ident (sess w' s) = map_option ident (sess w s)" for s
  proof -
    have "map_option strip (sess w' s) = map_option strip (sess w s)"
      using t by (simp add: talk_def)
    then show ?thesis by (cases "sess w s"; cases "sess w' s") (auto dest: strip_ident)
  qed
  with t show ?thesis unfolding keeps_def talk_def by (intro conjI) (blast | simp)+
qed

section \<open>Rules that follow the calls of a handler\<close>

text \<open>
  \<open>post K P m\<close>: whatever \<open>m\<close> returns satisfies \<open>P\<close>. \<open>K\<close> is the property of the state that is
  carried along, stable under changes that keep the structure: \<open>keeps w\<^sub>0\<close> itself, or one of the
  server's invariants. There is one rule for each statement form and one for each operation,
  so the rules apply in the order of the code.
\<close>

definition post :: "(world \<Rightarrow> bool) \<Rightarrow> ('a \<Rightarrow> bool) \<Rightarrow> 'a option \<Rightarrow> bool" where
  "post K P m \<longleftrightarrow> (\<forall>x. m = Some x \<longrightarrow> P x)"

definition stable :: "(world \<Rightarrow> bool) \<Rightarrow> bool" where
  "stable K \<longleftrightarrow> (\<forall>w. K w \<longrightarrow> halls_ok w) \<and> (\<forall>w w'. K w \<longrightarrow> keeps w w' \<longrightarrow> K w')"

named_theorems calls "the rules of post"

lemma postD: "post K P m \<Longrightarrow> m = Some x \<Longrightarrow> P x"
  by (simp add: post_def)

lemma post_simps [simp]: "post K P (Some x) = P x" "post K P None"
  by (simp_all add: post_def)

lemma post_bind [calls]: "post K (\<lambda>x. post K P (f x)) m \<Longrightarrow> post K P (Option.bind m f)"
  by (auto simp: post_def elim!: bind_SomeE)

lemma post_if [calls]:
  "(c \<Longrightarrow> post K P a) \<Longrightarrow> (\<not> c \<Longrightarrow> post K P b) \<Longrightarrow> post K P (if c then a else b)"
  by simp

lemma post_option [calls]:
  "(p = None \<Longrightarrow> post K P a) \<Longrightarrow> (\<And>x. p = Some x \<Longrightarrow> post K P (b x)) \<Longrightarrow>
   post K P (case p of None \<Rightarrow> a | Some x \<Rightarrow> b x)"
  by (cases p) simp_all

lemma post_any: "(\<And>x. m = Some x \<Longrightarrow> P x) \<Longrightarrow> post K P m"
  by (simp add: post_def)

text \<open>Reads of the state.\<close>

lemma post_reads [calls]:
  "(\<And>u. sess w s = Some u \<Longrightarrow> P1 u) \<Longrightarrow> post K P1 (sess w s)"
  "(\<And>cb. boards w b = Some cb \<Longrightarrow> P2 cb) \<Longrightarrow> post K P2 (boards w b)"
  "(\<And>h. halls w i = Some h \<Longrightarrow> P3 h) \<Longrightarrow> post K P3 (halls w i)"
  "(\<And>t. the_thread p w = Some t \<Longrightarrow> P4 t) \<Longrightarrow> post K P4 (the_thread p w)"
  "(\<And>s. GetUserByLocation l cb = Some s \<Longrightarrow> P5 s) \<Longrightarrow> post K P5 (GetUserByLocation l cb)"
  "(\<And>x. status_at q w = Some x \<Longrightarrow> P6 x) \<Longrightarrow> post K P6 (status_at q w)"
  "(\<And>n. GetActiveUsersNum b w = Some n \<Longrightarrow> P7 n) \<Longrightarrow> post K P7 (GetActiveUsersNum b w)"
  "(\<And>x. GameBegan b w = Some x \<Longrightarrow> P8 x) \<Longrightarrow> post K P8 (GameBegan b w)"
  "(\<And>x. GetOnlyActiveUser b w = Some x \<Longrightarrow> P9 x) \<Longrightarrow> post K P9 (GetOnlyActiveUser b w)"
  "(\<And>x. WrapChessBoardInfo b w = Some x \<Longrightarrow> P10 x) \<Longrightarrow> post K P10 (WrapChessBoardInfo b w)"
  "(\<And>x. next_token b l w = Some x \<Longrightarrow> P11 x) \<Longrightarrow> post K P11 (next_token b l w)"
  "(\<And>x. all_ready b w = Some x \<Longrightarrow> P12 x) \<Longrightarrow> post K P12 (all_ready b w)"
  "(\<And>x. GetGameHall i w = Some x \<Longrightarrow> P13 x) \<Longrightarrow> post K P13 (GetGameHall i w)"
  "(\<And>x. currChessBoard u = Some x \<Longrightarrow> P14 x) \<Longrightarrow> post K P14 (currChessBoard u)"
  "(\<And>x. stateMachine u = Some x \<Longrightarrow> P15 x) \<Longrightarrow> post K P15 (stateMachine u)"
  "(\<And>x. leftUser cb = Some x \<Longrightarrow> P16 x) \<Longrightarrow> post K P16 (leftUser cb)"
  "(\<And>x. rightUser cb = Some x \<Longrightarrow> P17 x) \<Longrightarrow> post K P17 (rightUser cb)"
  "(\<And>x. bottomUser cb = Some x \<Longrightarrow> P18 x) \<Longrightarrow> post K P18 (bottomUser cb)"
  "(\<And>x. con_of s w = Some x \<Longrightarrow> P19 x) \<Longrightarrow> post K P19 (con_of s w)"
  "(\<And>x. acct_of s w = Some x \<Longrightarrow> P20 x) \<Longrightarrow> post K P20 (acct_of s w)"
  "(\<And>x. GetIndividualUser th a w = Some x \<Longrightarrow> P21 x) \<Longrightarrow> post K P21 (GetIndividualUser th a w)"
  by (simp_all add: post_def)

lemma stable_halls: "stable K \<Longrightarrow> K w \<Longrightarrow> halls_ok w"
  by (simp add: stable_def)

lemma stable_keeps: "stable K \<Longrightarrow> K w \<Longrightarrow> keeps w w' \<Longrightarrow> K w'"
  by (auto simp: stable_def)

lemma stable_keeps_self: "halls_ok w0 \<Longrightarrow> stable (keeps w0)"
  by (auto simp: stable_def keeps_halls intro: keeps_trans)

text \<open>An operation that keeps the structure from every state with consistent halls.\<close>

lemma post_keeps:
  assumes "\<And>w'. m = Some w' \<Longrightarrow> halls_ok w \<Longrightarrow> keeps w w'"
    and "stable K" "K w" "\<And>w'. K w' \<Longrightarrow> P w'"
  shows "post K P m"
  using assms stable_halls[of K w] stable_keeps[of K w] by (auto simp: post_def)

lemma post_keeps2:
  assumes "\<And>r w'. m = Some (r, w') \<Longrightarrow> halls_ok w \<Longrightarrow> keeps w w'"
    and "stable K" "K w" "\<And>r w'. K w' \<Longrightarrow> P (r, w')"
  shows "post K P m"
  using assms stable_halls[of K w] stable_keeps[of K w] by (auto simp: post_def)

lemma post_keeps3:
  assumes "\<And>r i w'. m = Some (r, i, w') \<Longrightarrow> halls_ok w \<Longrightarrow> keeps w w'"
    and "stable K" "K w" "\<And>r i w'. K w' \<Longrightarrow> P (r, i, w')"
  shows "post K P m"
  using assms stable_halls[of K w] stable_keeps[of K w] by (auto simp: post_def)

lemma calls_talk [calls]:
  "stable K \<Longrightarrow> K w \<Longrightarrow> (\<And>r w'. K w' \<Longrightarrow> P1 (r, w')) \<Longrightarrow> post K P1 (MessageReply s ty d w)"
  "stable K \<Longrightarrow> K w \<Longrightarrow> (\<And>w'. K w' \<Longrightarrow> P2 w') \<Longrightarrow> post K P2 (reply s ty d w)"
  "stable K \<Longrightarrow> K w \<Longrightarrow> (\<And>w'. K w' \<Longrightarrow> P3 w') \<Longrightarrow> post K P3 (BroadCastMsg b ty d l w)"
  "stable K \<Longrightarrow> K w \<Longrightarrow> (\<And>w'. K w' \<Longrightarrow> P4 w') \<Longrightarrow> post K P4 (BroadCastHallInfo E b s w)"
  "stable K \<Longrightarrow> K w \<Longrightarrow> (\<And>w'. K w' \<Longrightarrow> P5 w') \<Longrightarrow> post K P5 (announce_board E b l w)"
  "stable K \<Longrightarrow> K w \<Longrightarrow> (\<And>p w'. K w' \<Longrightarrow> P6 (p, w')) \<Longrightarrow> post K P6 (GetChessBoardByID E h i w)"
  "stable K \<Longrightarrow> K w \<Longrightarrow> (\<And>x w'. K w' \<Longrightarrow> P7 (x, w')) \<Longrightarrow> post K P7 (WrapHallInfo E i w)"
  "stable K \<Longrightarrow> K w \<Longrightarrow> (\<And>r w'. K w' \<Longrightarrow> P8 (r, w')) \<Longrightarrow> post K P8 (GameHallSumaryHandle E s w)"
  by (rule post_keeps2 post_keeps; simp add: talk_keeps talk_MessageReply talk_reply talk_BroadCastMsg
      talk_BroadCastHallInfo talk_announce_board talk_GetChessBoardByID talk_WrapHallInfo
      talk_GameHallSumaryHandle)+

section \<open>The elementary writes\<close>

lemma call_upd_sess:
  assumes "stable K" "K w" "\<And>u. sess w s = Some u \<Longrightarrow> ident (f u) = ident u" "\<And>w'. K w' \<Longrightarrow> P w'"
  shows "post K P (upd_sess s f w)"
  by (rule post_keeps [OF _ assms(1,2,4)])
    (use assms(3) in \<open>auto simp: keeps_def upd_sess_def split: option.splits\<close>)

lemma call_upd_board:
  assumes "stable K" "K w" "\<And>cb. seating_of (f cb) = seating_of cb" "\<And>w'. K w' \<Longrightarrow> P w'"
  shows "post K P (upd_board b f w)"
proof (rule post_keeps [OF _ assms(1,2,4)])
  fix w' assume "upd_board b f w = Some w'" and h: "halls_ok w"
  then obtain cb where cb: "boards w b = Some cb" and w': "w' = w\<lparr>boards := (boards w)(b \<mapsto> f cb)\<rparr>"
    by (auto simp: upd_board_def split: option.splits)
  have "halls_ok w'" using h halls_ok_cong [of w' w] cb by (simp add: w')
  then show "keeps w w'" using cb assms(3) by (auto simp: keeps_def w')
qed

lemma call_lift_db [calls]:
  "stable K \<Longrightarrow> K w \<Longrightarrow> (\<And>r w'. K w' \<Longrightarrow> P (r, w')) \<Longrightarrow> post K P (lift_db f w)"
  "stable K \<Longrightarrow> K w \<Longrightarrow> (\<And>r i w'. K w' \<Longrightarrow> Q (r, i, w')) \<Longrightarrow> post K Q (lift_db3 g w)"
  by (rule post_keeps2 post_keeps3; auto simp: lift_db_def lift_db3_def keeps_def elim!: bind_SomeE)+

lemma call_for_each:
  assumes "stable K" "K w" "\<And>x w. x \<in> set xs \<Longrightarrow> K w \<Longrightarrow> post K K (f x w)" "\<And>w'. K w' \<Longrightarrow> P w'"
  shows "post K P (for_each f xs w)"
  unfolding post_def using for_each_inv [of f xs w _ K] assms unfolding post_def by blast

lemma call_set_status [calls]:
  "stable K \<Longrightarrow> K w \<Longrightarrow> (\<And>w'. K w' \<Longrightarrow> P w') \<Longrightarrow> post K P (set_status st s w)"
  unfolding set_status_def by (rule call_upd_sess) auto

lemma call_scores [calls]:
  "stable K \<Longrightarrow> K w \<Longrightarrow> (\<And>w'. K w' \<Longrightarrow> P w') \<Longrightarrow> post K P (IncreaseScore E n s w)"
  "stable K \<Longrightarrow> K w \<Longrightarrow> (\<And>w'. K w' \<Longrightarrow> P w') \<Longrightarrow> post K P (ReduceScore E n s w)"
  unfolding IncreaseScore_def ReduceScore_def by (auto intro!: calls call_upd_sess)

lemma call_set_all_status [calls]:
  "stable K \<Longrightarrow> K w \<Longrightarrow> (\<And>w'. K w' \<Longrightarrow> P w') \<Longrightarrow> post K P (set_all_status st b w)"
  unfolding set_all_status_def by (auto intro!: calls call_for_each split: option.splits)

section \<open>The handlers that keep the structure\<close>

lemma call_move_scores [calls]:
  "stable K \<Longrightarrow> K w \<Longrightarrow> (\<And>w'. K w' \<Longrightarrow> P w') \<Longrightarrow> post K P (move_scores E b mc w)"
  unfolding move_scores_def by (auto intro!: calls call_upd_board)

lemma call_move_token [calls]:
  "stable K \<Longrightarrow> K w \<Longrightarrow> (\<And>t w'. K w' \<Longrightarrow> P (t, w')) \<Longrightarrow> post K P (move_token b s w)"
  unfolding move_token_def by (auto intro!: calls)

lemma call_MoveChessHandle [calls]:
  "stable K \<Longrightarrow> K w \<Longrightarrow> (\<And>r w'. K w' \<Longrightarrow> P (r, w')) \<Longrightarrow> post K P (MoveChessHandle E b msg w)"
  unfolding MoveChessHandle_def by (auto intro!: calls)

lemma call_UserMessageHandle [calls]:
  "stable K \<Longrightarrow> K w \<Longrightarrow> (\<And>r w'. K w' \<Longrightarrow> P (r, w')) \<Longrightarrow> post K P (UserMessageHandle E b msg w)"
  unfolding UserMessageHandle_def by (auto intro!: calls)

lemma call_ReconciledHandle [calls]:
  "stable K \<Longrightarrow> K w \<Longrightarrow> (\<And>r w'. K w' \<Longrightarrow> P (r, w')) \<Longrightarrow> post K P (ReconciledHandle E b msg ty w)"
  unfolding ReconciledHandle_def by (auto intro!: calls)

lemma call_undo_scores [calls]:
  "stable K \<Longrightarrow> K w \<Longrightarrow> (\<And>w'. K w' \<Longrightarrow> P w') \<Longrightarrow> post K P (undo_scores E b w)"
  unfolding undo_scores_def by (auto intro!: calls)

lemma call_UndoHandle [calls]:
  "stable K \<Longrightarrow> K w \<Longrightarrow> (\<And>r w'. K w' \<Longrightarrow> P (r, w')) \<Longrightarrow> post K P (UndoHandle E b msg ty w)"
  unfolding UndoHandle_def by (auto intro!: calls)

lemma call_last_user_wins [calls]:
  "stable K \<Longrightarrow> K w \<Longrightarrow> (\<And>p w'. K w' \<Longrightarrow> P (p, w')) \<Longrightarrow> post K P (last_user_wins E b s w)"
  unfolding last_user_wins_def by (auto intro!: calls)

lemma call_GameReadyHandle [calls]:
  "stable K \<Longrightarrow> K w \<Longrightarrow> (\<And>r w'. K w' \<Longrightarrow> P (r, w')) \<Longrightarrow> post K P (GameReadyHandle E b msg w)"
  unfolding GameReadyHandle_def by (auto intro!: calls call_upd_board)

lemma call_GameAgainHandle [calls]:
  "stable K \<Longrightarrow> K w \<Longrightarrow> (\<And>r w'. K w' \<Longrightarrow> P (r, w')) \<Longrightarrow> post K P (GameAgainHandle E b msg w)"
  unfolding GameAgainHandle_def Let_def
  by (auto intro!: calls) (rule post_any, auto intro!: calls)

lemma call_EchoMsgHandle [calls]:
  "stable K \<Longrightarrow> K w \<Longrightarrow> (\<And>r w'. K w' \<Longrightarrow> P (r, w')) \<Longrightarrow> post K P (EchoMsgHandle E s msg w)"
  unfolding EchoMsgHandle_def by (auto intro!: calls)

lemma call_HallInfoReqHandle [calls]:
  "stable K \<Longrightarrow> K w \<Longrightarrow> (\<And>r w'. K w' \<Longrightarrow> P (r, w')) \<Longrightarrow> post K P (HallInfoReqHandle E s msg w)"
  unfolding HallInfoReqHandle_def by (auto intro!: calls)

lemma call_update_field [calls]:
  "stable K \<Longrightarrow> K w \<Longrightarrow> (\<And>w'. K w' \<Longrightarrow> P w') \<Longrightarrow> post K P (update_field f db s w)"
  unfolding update_field_def by (auto intro!: calls call_upd_sess)

lemma call_UpdateUserInfos [calls]:
  "stable K \<Longrightarrow> K w \<Longrightarrow> (\<And>r w'. K w' \<Longrightarrow> P (r, w')) \<Longrightarrow> post K P (UpdateUserInfos E s msg w)"
  unfolding UpdateUserInfos_def by (auto intro!: calls)

lemma call_DownloadImageInfo [calls]:
  "stable K \<Longrightarrow> K w \<Longrightarrow> (\<And>r w'. K w' \<Longrightarrow> P (r, w')) \<Longrightarrow> post K P (DownloadImageInfo E s ad w)"
  unfolding DownloadImageInfo_def by (auto intro!: calls)

lemma call_SendImageContent [calls]:
  "stable K \<Longrightarrow> K w \<Longrightarrow> (\<And>r w'. K w' \<Longrightarrow> P (r, w')) \<Longrightarrow> post K P (SendImageContent E s w)"
  unfolding SendImageContent_def by (auto intro!: calls call_upd_sess simp: Let_def)

lemma call_ad_request [calls]:
  "stable K \<Longrightarrow> K w \<Longrightarrow> (\<And>r w'. K w' \<Longrightarrow> P (r, w')) \<Longrightarrow> post K P (ad_request E s item w)"
  unfolding ad_request_def by (auto intro!: calls call_upd_sess)

lemma call_HandleRegister [calls]:
  "stable K \<Longrightarrow> K w \<Longrightarrow> (\<And>r w'. K w' \<Longrightarrow> P (r, w')) \<Longrightarrow> post K P (HandleRegister E s msg w)"
  unfolding HandleRegister_def by (auto intro!: calls simp: Let_def)

lemma call_login_ok [calls]:
  "stable K \<Longrightarrow> K w \<Longrightarrow> (\<And>r w'. K w' \<Longrightarrow> P (r, w')) \<Longrightarrow> post K P (login_ok E s con info w)"
  unfolding login_ok_def by (auto intro!: calls call_upd_sess)

lemma call_HandleLogin [calls]:
  "stable K \<Longrightarrow> K w \<Longrightarrow> (\<And>r w'. K w' \<Longrightarrow> P (r, w')) \<Longrightarrow> post K P (HandleLogin E s msg w)"
  unfolding HandleLogin_def by (auto intro!: calls call_upd_sess)

lemma call_ChessBoardReq [calls]:
  "stable K \<Longrightarrow> K w \<Longrightarrow> (\<And>r w'. K w' \<Longrightarrow> P (r, w')) \<Longrightarrow> post K P (ChessBoardReq E s msg w)"
  unfolding ChessBoardReq_def by (auto intro!: calls)

end
