(* ===== verification/Seats.thy ===== *)
theory Seats
  imports Structure
begin

text \<open>
  The invariant of the tables: a seat holds a session exactly when that session has the
  board and the seat. The set \<open>X\<close> names the sessions that have left their seat and still
  carry the pointer to the board (between \<open>LeaveOutRoom\<close> and \<open>currChessBoard = NULL\<close>).
\<close>

section \<open>The invariant\<close>

definition sits_at :: "world \<Rightarrow> bid \<Rightarrow> u32 \<Rightarrow> sid \<Rightarrow> bool" where
  "sits_at w b l s \<longleftrightarrow> (\<exists>cb. boards w b = Some cb \<and> GetUserByLocation l cb = Some s)"

definition boards_ok :: "world \<Rightarrow> bool" where
  "boards_ok w \<longleftrightarrow> (\<forall>b cb. boards w b = Some cb \<longrightarrow>
     board_ok cb \<and> currentHall cb = fst b \<and> chessBoardID cb = snd b)"

definition has_place :: "world \<Rightarrow> sid \<Rightarrow> bid \<Rightarrow> u32 \<Rightarrow> bool" where
  "has_place w s b l \<longleftrightarrow> (\<exists>u. sess w s = Some u \<and> currChessBoard u = Some b \<and> locate u = l)"

definition seat_inv :: "sid set \<Rightarrow> world \<Rightarrow> bool" where
  "seat_inv X w \<longleftrightarrow> halls_ok w \<and> boards_ok w \<and>
     (\<forall>b l s. sits_at w b l s \<longleftrightarrow> has_place w s b l \<and> s \<notin> X)"

text \<open>What the sessions, threads and the pool look like, apart from the boards.\<close>

definition shape :: "world \<Rightarrow> (sid \<Rightarrow> UserSession option) \<times> WorkThread list \<times> sid list \<times> sid" where
  "shape w = (\<lambda>s. map_option ident (sess w s), threadList w, sessionList w, sess_next w)"

lemma seat_inv_halls: "seat_inv X w \<Longrightarrow> halls_ok w"
  by (simp add: seat_inv_def)

lemma seat_inv_board: "seat_inv X w \<Longrightarrow> boards w b = Some cb \<Longrightarrow> board_ok cb"
  unfolding seat_inv_def boards_ok_def by blast

lemma seat_inv_seated:
  "seat_inv X w \<Longrightarrow> boards w b = Some cb \<Longrightarrow> GetUserByLocation l cb = Some s \<Longrightarrow>
     (\<exists>u. sess w s = Some u \<and> currChessBoard u = Some b \<and> locate u = l) \<and> s \<notin> X"
  unfolding seat_inv_def sits_at_def has_place_def by blast

lemma seat_inv_place:
  "seat_inv X w \<Longrightarrow> sess w s = Some u \<Longrightarrow> currChessBoard u = Some b \<Longrightarrow> s \<notin> X \<Longrightarrow>
     \<exists>cb. boards w b = Some cb \<and> GetUserByLocation (locate u) cb = Some s"
  unfolding seat_inv_def sits_at_def has_place_def by blast

section \<open>It is stable\<close>

lemma seating_of_eqD:
  assumes "seating_of cb = seating_of cb'"
  shows "GetUserByLocation l cb = GetUserByLocation l cb'" "board_ok cb = board_ok cb'"
    "currentHall cb = currentHall cb'" "chessBoardID cb = chessBoardID cb'"
  using assms by (auto simp: seating_of_def GetUserByLocation_def board_ok_def seated_eq)

lemma GetUserByLocation_new [simp]: "GetUserByLocation l (ChessBoard_new i h) = None"
  by (simp add: GetUserByLocation_def ChessBoard_new_def)

lemma ChessBoard_new_fields [simp]:
  "currentHall (ChessBoard_new i h) = h" "chessBoardID (ChessBoard_new i h) = i"
  by (simp_all add: ChessBoard_new_def)

lemma keeps_sits_at:
  assumes "keeps w w'" shows "sits_at w' b l s = sits_at w b l s"
proof (cases "boards w b")
  case None
  show ?thesis
  proof (cases "boards w' b")
    case (Some cb)
    have "GetUserByLocation l cb = None"
      using seating_of_eqD(1) [OF keeps_new [OF assms None Some]] by simp
    then show ?thesis using None Some by (simp add: sits_at_def)
  qed (use None in \<open>simp add: sits_at_def\<close>)
next
  case (Some cb)
  then obtain cb' where "boards w' b = Some cb'" and e: "seating_of cb' = seating_of cb"
    using keeps_old [OF assms] by blast
  then show ?thesis using Some by (simp add: sits_at_def seating_of_eqD(1) [OF e])
qed

lemma keeps_boards_ok:
  assumes "keeps w w'" "boards_ok w" shows "boards_ok w'"
  unfolding boards_ok_def
proof (intro allI impI)
  fix b cb' assume cb': "boards w' b = Some cb'"
  show "board_ok cb' \<and> currentHall cb' = fst b \<and> chessBoardID cb' = snd b"
  proof (cases "boards w b")
    case None
    then show ?thesis using seating_of_eqD(2-4) [OF keeps_new [OF assms(1) None cb']] by simp
  next
    case (Some cb)
    with keeps_old [OF assms(1) Some] cb' have e: "seating_of cb' = seating_of cb" by simp
    have "board_ok cb \<and> currentHall cb = fst b \<and> chessBoardID cb = snd b"
      using assms(2) Some unfolding boards_ok_def by blast
    then show ?thesis using seating_of_eqD(2-4) [OF e] by simp
  qed
qed

lemma ident_lookup:
  assumes "map_option ident (sess w' s) = map_option ident (sess w s)" "sess w s = Some u"
  obtains u' where "sess w' s = Some u'" "ident u' = ident u"
  using assms by (cases "sess w' s") auto

lemma has_place_ident:
  assumes "map_option ident (sess w' s) = map_option ident (sess w s)"
  shows "has_place w' s b l = has_place w s b l"
  using assms by (cases "sess w s"; cases "sess w' s") (auto simp: has_place_def dest: ident_eqD)

lemma keeps_has_place: "keeps w w' \<Longrightarrow> has_place w' s b l = has_place w s b l"
  by (rule has_place_ident) (simp add: keeps_def)

lemma keeps_shape: "keeps w w' \<Longrightarrow> shape w' = shape w"
  by (auto simp: keeps_def shape_def fun_eq_iff)

lemma keeps_seat_inv: "keeps w w' \<Longrightarrow> seat_inv X w \<Longrightarrow> seat_inv X w'"
  by (simp add: seat_inv_def keeps_sits_at keeps_has_place keeps_boards_ok keeps_halls)

text \<open>The tracked property of the proofs below.\<close>

definition tracked :: "sid set \<Rightarrow> (sid \<Rightarrow> UserSession option) \<times> WorkThread list \<times> sid list \<times> sid \<Rightarrow> world \<Rightarrow> bool"
  where "tracked X \<sigma> w \<longleftrightarrow> seat_inv X w \<and> shape w = \<sigma>"

lemma stable_tracked [simp]: "stable (tracked X \<sigma>)"
  by (auto simp: stable_def tracked_def keeps_shape intro: keeps_seat_inv seat_inv_halls)

lemma tracked_self: "seat_inv X w \<Longrightarrow> tracked X (shape w) w"
  by (simp add: tracked_def)

text \<open>What a write to a session does to the shape.\<close>

definition put :: "sid \<Rightarrow> UserSession \<Rightarrow> (sid \<Rightarrow> UserSession option) \<times> 'r \<Rightarrow> (sid \<Rightarrow> UserSession option) \<times> 'r" where
  "put s v \<sigma> = ((fst \<sigma>)(s \<mapsto> v), snd \<sigma>)"

lemma put_sess [simp]: "fst (put s v \<sigma>) s' = (if s' = s then Some v else fst \<sigma> s')" "snd (put s v \<sigma>) = snd \<sigma>"
  by (simp_all add: put_def)

lemma put_put [simp]: "put s v (put s v' \<sigma>) = put s v \<sigma>"
  by (simp add: put_def)

lemma tracked_sess: "tracked X \<sigma> w \<Longrightarrow> sess w s = Some u \<Longrightarrow> fst \<sigma> s = Some (ident u)"
  by (auto simp: tracked_def shape_def)

section \<open>Writes to a session\<close>

lemma sess_upd: "upd_sess s f w = Some w' \<Longrightarrow>
   \<exists>u. sess w s = Some u \<and> w' = w\<lparr>sess := (sess w)(s \<mapsto> f u)\<rparr>"
  by (auto simp: upd_sess_def split: option.splits)

lemma shape_sess: "shape (w\<lparr>sess := (sess w)(s \<mapsto> v)\<rparr>) = put s (ident v) (shape w)"
  by (auto simp: shape_def put_def fun_eq_iff)

text \<open>A write that keeps board and seat.\<close>

lemma call_same_place:
  assumes "tracked X \<sigma> w"
    and "\<And>u. sess w s = Some u \<Longrightarrow> fst \<sigma> s = Some (ident u) \<Longrightarrow> currChessBoard (f u) = currChessBoard u \<and>
            (locate (f u) = locate u \<or> currChessBoard u = None)"
    and "\<And>u w'. sess w s = Some u \<Longrightarrow> fst \<sigma> s = Some (ident u) \<Longrightarrow>
            tracked X (put s (ident (f u)) \<sigma>) w' \<Longrightarrow> P w'"
  shows "post K P (upd_sess s f w)"
proof (rule post_any)
  fix w' assume "upd_sess s f w = Some w'"
  then obtain u where u: "sess w s = Some u" and w': "w' = w\<lparr>sess := (sess w)(s \<mapsto> f u)\<rparr>"
    using sess_upd by blast
  have "has_place w' s' b l = has_place w s' b l" for s' b l
    using u assms(2) [OF u tracked_sess [OF assms(1) u]] by (auto simp: has_place_def w')
  moreover have "sits_at w' b l s' = sits_at w b l s'" for b l s'
    by (simp add: sits_at_def w')
  ultimately have "tracked X (put s (ident (f u)) \<sigma>) w'"
    using assms(1) by (simp add: tracked_def seat_inv_def boards_ok_def w' shape_sess)
  with u show "P w'" using assms(3) tracked_sess [OF assms(1) u] by blast
qed

text \<open>\<open>currChessBoard = NULL\<close> for a session that sits nowhere.\<close>

lemma call_forget_board:
  assumes "tracked {s} \<sigma> w"
    and "\<And>v w'. fst \<sigma> s = Some v \<Longrightarrow>
            tracked {} (put s (v\<lparr>currChessBoard := None\<rparr>) \<sigma>) w' \<Longrightarrow> P w'"
  shows "post K P (upd_sess s (\<lambda>u. u\<lparr>currChessBoard := None\<rparr>) w)"
proof (rule post_any)
  fix w' assume "upd_sess s (\<lambda>u. u\<lparr>currChessBoard := None\<rparr>) w = Some w'"
  then obtain u where u: "sess w s = Some u"
    and w': "w' = w\<lparr>sess := (sess w)(s \<mapsto> u\<lparr>currChessBoard := None\<rparr>)\<rparr>"
    using sess_upd by blast
  have "has_place w' s' b l \<longleftrightarrow> has_place w s' b l \<and> s' \<noteq> s" for s' b l
    by (auto simp: has_place_def w')
  moreover have "sits_at w' b l s' = sits_at w b l s'" for b l s'
    by (simp add: sits_at_def w')
  ultimately have "tracked {} (put s ((ident u)\<lparr>currChessBoard := None\<rparr>) \<sigma>) w'"
    using assms(1) by (simp add: tracked_def seat_inv_def boards_ok_def w' shape_sess ident_updates)
  with u show "P w'" using assms(2) tracked_sess [OF assms(1) u] by blast
qed

section \<open>Leaving a board\<close>

text \<open>The tag of \<open>post\<close> only guides the rules.\<close>

lemma post_tag: "post K P m = post K' P m"
  by (simp add: post_def)

lemma LeaveOutRoom_fields [simp]:
  "currentHall (snd (LeaveOutRoom l b)) = currentHall b"
  "chessBoardID (snd (LeaveOutRoom l b)) = chessBoardID b"
  by (auto simp: LeaveOutRoom_def clear_seat_def forget_first_def)

lemma board_write:
  "upd_board b f w = Some w' \<Longrightarrow> \<exists>cb. boards w b = Some cb \<and> w' = w\<lparr>boards := (boards w)(b \<mapsto> f cb)\<rparr>"
  by (auto simp: upd_board_def split: option.splits)

lemma halls_board_write: "boards w b = Some cb \<Longrightarrow>
    halls_ok (w\<lparr>boards := (boards w)(b \<mapsto> cb')\<rparr>) = halls_ok w"
  by (rule halls_ok_cong) auto

lemma call_leave_board:
  assumes t: "tracked {} \<sigma> w" and u: "sess w s = Some u" "currChessBoard u = Some b"
    and P: "\<And>w'. tracked {s} \<sigma> w' \<Longrightarrow> P w'"
  shows "post K P (upd_board b (\<lambda>cb. snd (LeaveOutRoom (locate u) cb)) w)"
proof (rule post_any)
  fix w' assume "upd_board b (\<lambda>cb. snd (LeaveOutRoom (locate u) cb)) w = Some w'"
  then obtain cb where cb: "boards w b = Some cb"
    and w': "w' = w\<lparr>boards := (boards w)(b \<mapsto> snd (LeaveOutRoom (locate u) cb))\<rparr>"
    using board_write by blast
  have i: "seat_inv {} w" and sh: "shape w = \<sigma>" using t by (simp_all add: tracked_def)
  have ok: "board_ok cb" using i cb by (rule seat_inv_board)
  have S: "sits_at w b' l s' = has_place w s' b' l" for b' l s'
    using i unfolding seat_inv_def by blast
  have h: "has_place w s b' l \<longleftrightarrow> b' = b \<and> l = locate u" for b' l
    using u by (auto simp: has_place_def)
  have "sits_at w' b' l s' \<longleftrightarrow> has_place w s' b' l \<and> s' \<notin> {s}" for b' l s'
  proof (cases "b' = b")
    case False
    then have "sits_at w' b' l s' = sits_at w b' l s'" by (simp add: sits_at_def w')
    with S [of b' l s'] h [of b' l] False show ?thesis by auto
  next
    case True
    have "sits_at w' b l s' \<longleftrightarrow> l \<noteq> locate u \<and> sits_at w b l s'"
      using cb by (simp add: sits_at_def w' LeaveOutRoom_seat [OF ok])
    moreover have "sits_at w b (locate u) s' \<longleftrightarrow> s' = s"
    proof -
      have "sits_at w b (locate u) s" using S [of b "locate u" s] h [of b "locate u"] by simp
      then show ?thesis using cb by (auto simp: sits_at_def)
    qed
    ultimately show ?thesis using S h True by (cases "s' = s") auto
  qed
  moreover have "boards_ok w'"
    using i cb LeaveOutRoom_ok [OF ok] by (auto simp: seat_inv_def boards_ok_def w')
  moreover have "halls_ok w'" using i cb by (simp add: w' halls_board_write seat_inv_halls)
  ultimately show "P w'" using P sh by (simp add: tracked_def seat_inv_def has_place_def shape_def w')
qed

lemma call_leave_seat:
  assumes "tracked {} \<sigma> w" "fst \<sigma> s = Some v" "currChessBoard v = Some b"
    and "\<And>w'. tracked {s} \<sigma> w' \<Longrightarrow> P w'"
  shows "post K P (leave_seat b s True w)"
proof -
  have "post (tracked {} \<sigma>) P (upd_board b (\<lambda>cb. snd (LeaveOutRoom (locate u) cb)) w1)"
    if "tracked {} \<sigma> w1" "sess w1 s = Some u" for w1 u
    using that tracked_sess [OF that] assms(2-4) by (intro call_leave_board) auto
  then have "post (tracked {} \<sigma>) P (leave_seat b s True w)"
    using assms(1) by (auto simp: leave_seat_def intro!: calls)
  then show ?thesis by (rule post_tag [THEN iffD1])
qed

text \<open>Sequencing with a change of the tracked property.\<close>

lemma post_seq:
  "post K' Q m \<Longrightarrow> (\<And>x. Q x \<Longrightarrow> post K'' P (f x)) \<Longrightarrow> post K P (Option.bind m f)"
  by (auto simp: post_def elim!: bind_SomeE)

lemma call_LeaveRoom_exit:
  assumes "tracked {} \<sigma> w" "fst \<sigma> s = Some v" "currChessBoard v = Some b"
    and "\<And>w'. tracked {s} \<sigma> w' \<Longrightarrow> P w'"
  shows "post K P (LeaveRoomHandle E b s True w)"
proof -
  have pen: "post (tracked {} \<sigma>) (tracked {} \<sigma>) (if c then ReduceScore E 30 s w else Some w)" for c
    using assms(1) by (auto intro!: calls)
  have leave: "post (tracked {} \<sigma>) (tracked {s} \<sigma>) (leave_seat b s True w1)" if "tracked {} \<sigma> w1" for w1
    using that assms(2,3) by (rule call_leave_seat)
  show ?thesis
    unfolding LeaveRoomHandle_def Let_def
    by (rule post_seq [OF post_any], assumption, rule post_seq [OF pen], rule post_seq [where K'' = "tracked {s} \<sigma>", OF leave], assumption)
      (auto intro!: calls assms(4), (rule post_any, auto intro!: calls assms(4))+)
qed

text \<open>Giving up without leaving keeps the structure.\<close>

lemma call_LeaveRoom_stay [calls]:
  "stable K \<Longrightarrow> K w \<Longrightarrow> (\<And>w'. K w' \<Longrightarrow> P w') \<Longrightarrow> post K P (LeaveRoomHandle E b s False w)"
  unfolding LeaveRoomHandle_def leave_seat_def Let_def 
  by (auto intro!: calls) (rule post_any, auto intro!: calls)

text \<open>What leaving does to a session: no board, and the ready state comes next.\<close>

definition evicted :: "UserSession \<Rightarrow> UserSession" where
  "evicted v = v\<lparr>nextState := Some STATE_GAME_READY, currChessBoard := None\<rparr>"

lemma call_GiveUpHandle:
  assumes t: "tracked {} \<sigma> w"
    and same: "\<And>r w'. tracked {} \<sigma> w' \<Longrightarrow> P (r, w')"
    and gone: "\<And>s v r w'. fst \<sigma> s = Some v \<Longrightarrow> currChessBoard v = Some b \<Longrightarrow>
                tracked {} (put s (evicted v) \<sigma>) w' \<Longrightarrow> P (r, w')"
  shows "post K P (GiveUpHandle E b msg w)"
proof (rule post_any)
  fix x assume x: "GiveUpHandle E b msg w = Some x"
  show "P x"
  proof (cases "\<exists>g cb s. parse_GiveUp E msg = Some g \<and> boards w b = Some cb \<and>
      GetUserByLocation (gu_src_user_locate g) cb = Some s \<and> gu_opt g = Some ''exit''")
    case False
    have "post (tracked {} \<sigma>) P (GiveUpHandle E b msg w)"
      unfolding GiveUpHandle_def using False t same by (auto intro!: calls)
    then show ?thesis using x by (rule postD)
  next
    case True
    then obtain g cb s where g: "parse_GiveUp E msg = Some g" "boards w b = Some cb"
      "GetUserByLocation (gu_src_user_locate g) cb = Some s" "gu_opt g = Some ''exit''" by blast
    obtain u where u: "sess w s = Some u" "currChessBoard u = Some b"
      using seat_inv_seated [OF _ g(2,3)] t by (auto simp: tracked_def)
    note v = tracked_sess [OF t u(1)]
    obtain w1 w2 w3 where 1: "LeaveRoomHandle E b s True w = Some w1"
      and 2: "upd_sess s (SetNextState STATE_GAME_READY) w1 = Some w2"
      and 3: "upd_sess s (\<lambda>u. u\<lparr>currChessBoard := None\<rparr>) w2 = Some w3" and xe: "x = (True, w3)"
      using x g by (auto simp: GiveUpHandle_def elim!: bind_SomeE)
    have "tracked {s} \<sigma> w1"
      by (rule postD [OF call_LeaveRoom_exit [OF t v] 1]) (use u in auto)
    then have "tracked {s} (put s ((ident u)\<lparr>nextState := Some STATE_GAME_READY\<rparr>) \<sigma>) w2"
      by (rule postD [OF call_same_place 2])
        (use v in \<open>auto simp: SetNextState_def ident_updates\<close>)
    then have "tracked {} (put s (evicted (ident u)) \<sigma>) w3"
      by (rule postD [OF call_forget_board 3]) (auto simp: evicted_def)
    then show ?thesis using gone [OF v] u(2) xe by simp
  qed
qed

text \<open>The destructor's \<open>leave_current_board\<close>.\<close>

lemma call_leave_current_board:
  assumes t: "tracked {} \<sigma> w"
    and P: "\<And>v w'. fst \<sigma> s = Some v \<Longrightarrow> tracked {} (put s (v\<lparr>currChessBoard := None\<rparr>) \<sigma>) w' \<Longrightarrow> P w'"
  shows "post K P (leave_current_board E s w)"
proof (rule post_any)
  fix w' assume x: "leave_current_board E s w = Some w'"
  then obtain u where u: "sess w s = Some u" by (auto simp: leave_current_board_def elim!: bind_SomeE)
  note v = tracked_sess [OF t u]
  have "tracked {} (put s ((ident u)\<lparr>currChessBoard := None\<rparr>) \<sigma>) w'"
  proof (cases "currChessBoard u")
    case None
    then have "put s ((ident u)\<lparr>currChessBoard := None\<rparr>) \<sigma> = \<sigma>"
      using v by (cases \<sigma>) (auto simp: put_def fun_upd_idem)
    with None t x u show ?thesis by (simp add: leave_current_board_def)
  next
    case (Some b)
    then obtain w1 where 1: "LeaveRoomHandle E b s True w = Some w1"
      and 2: "upd_sess s (\<lambda>u. u\<lparr>currChessBoard := None\<rparr>) w1 = Some w'"
      using x u by (auto simp: leave_current_board_def elim!: bind_SomeE)
    have "tracked {s} \<sigma> w1"
      by (rule postD [OF call_LeaveRoom_exit [OF t v] 1]) (use Some in auto)
    then show ?thesis
      by (rule postD [OF call_forget_board 2]) (use v in auto)
  qed
  with v show "P w'" by (rule P)
qed

section \<open>Sitting down\<close>

lemma sit_down:
  assumes t: "tracked {} \<sigma> w" and cb: "boards w b = Some cb"
    and u: "sess w s = Some u" "currChessBoard u = None" and add: "fst (AddUser (Some s) (locate u) cb)"
    and w1: "upd_board b (\<lambda>cb. snd (AddUser (Some s) (locate u) cb)) w = Some w1"
    and w2: "set_status st s w1 = Some w2"
    and w3: "upd_sess s (\<lambda>u. u\<lparr>currChessBoard := Some b\<rparr>) w2 = Some w3"
  shows "tracked {} (put s ((ident u)\<lparr>currChessBoard := Some b\<rparr>) \<sigma>) w3"
proof -
  have i: "seat_inv {} w" and sh: "shape w = \<sigma>" using t by (simp_all add: tracked_def)
  have ok: "board_ok cb" using i cb by (rule seat_inv_board)
  let ?cb = "snd (AddUser (Some s) (locate u) cb)"
  have w1': "w1 = w\<lparr>boards := (boards w)(b \<mapsto> ?cb)\<rparr>" using board_write [OF w1] cb by auto
  have w3': "w3 = w1\<lparr>sess := (sess w)(s \<mapsto> u\<lparr>status := st, currChessBoard := Some b\<rparr>)\<rparr>"
    using w2 w3 u by (auto simp: set_status_def upd_sess_def w1')
  have S: "sits_at w b' l s' = has_place w s' b' l" for b' l s'
    using i unfolding seat_inv_def by blast
  have free: "GetUserByLocation (locate u) cb = None" using add AddUser_iff [OF ok] by simp
  have "sits_at w3 b' l s' \<longleftrightarrow> sits_at w b' l s' \<or> (b' = b \<and> l = locate u \<and> s' = s)" for b' l s'
    using cb free add by (auto simp: sits_at_def w3' w1' AddUser_seat)
  moreover have "has_place w3 s' b' l \<longleftrightarrow> has_place w s' b' l \<or> (b' = b \<and> l = locate u \<and> s' = s)" for b' l s'
    using u by (auto simp: has_place_def w3' w1')
  moreover have "boards_ok w3"
    using i cb AddUser_ok [OF ok] by (auto simp: seat_inv_def boards_ok_def w3' w1')
  moreover have "halls_ok w3"
    using i cb by (simp add: w3' w1' halls_board_write seat_inv_halls)
  moreover have "shape w3 = put s ((ident u)\<lparr>currChessBoard := Some b\<rparr>) \<sigma>"
    using sh shape_sess [of w1 s "u\<lparr>status := st, currChessBoard := Some b\<rparr>"]
    by (simp add: w3' w1' shape_def put_def ident_updates fun_eq_iff)
  ultimately show ?thesis using S by (simp add: tracked_def seat_inv_def)
qed

end
