(* ===== verification/Transitions.thy ===== *)
theory Transitions
  imports Seats
begin

text \<open>
  What a message does to the structure of the server: the abstract state machine of a
  session. \<open>own_change st ret v v'\<close> lists the changes that the handler of state \<open>st\<close> may make
  to the session that received the message; another session changes only when it is made to
  leave its board by a \<open>GiveUp\<close> message that names its seat.
\<close>

section \<open>Taking a seat\<close>

lemma call_take_seat:
  assumes t: "tracked {} \<sigma> w" and cb: "boards w b = Some cb"
    and v: "fst \<sigma> s = Some v" "currChessBoard v = None" and l: "locate v = rp_locate rp"
    and add: "fst (AddUser (Some s) (rp_locate rp) cb)"
    and w1: "upd_board b (\<lambda>cb. snd (AddUser (Some s) (rp_locate rp) cb)) w = Some w1"
    and P: "\<And>rep w'. tracked {} (put s (v\<lparr>currChessBoard := Some b, nextState := Some STATE_GAME_PLAY\<rparr>) \<sigma>) w' \<Longrightarrow>
             P (rep, w')"
  shows "post K P (take_seat s b rp w1)"
proof (rule post_any)
  fix x assume "take_seat s b rp w1 = Some x"
  then obtain wa wb where a: "set_status STATUS_READY s w1 = Some wa"
    and b: "upd_sess s (\<lambda>u. u\<lparr>currChessBoard := Some b\<rparr>) wa = Some wb"
    and r: "do { w \<leftarrow> upd_board b (\<lambda>cb. if GetUserNum cb = 1
              then cb\<lparr>first_come_user_locate := rp_locate rp\<rparr> else cb) wb;
            cb \<leftarrow> boards w b;
            info \<leftarrow> WrapChessBoardInfo b w;
            w \<leftarrow> upd_sess s (SetNextState STATE_GAME_PLAY) w;
            Some (\<lparr>rr_status = 1, rr_first_come_user_locate = first_come_user_locate cb,
                   rr_chessboard = Some info\<rparr>, w) } = Some x"
    unfolding take_seat_def by - (erule bind_SomeE, erule bind_SomeE, blast)
  have w1': "w1 = w\<lparr>boards := (boards w)(b \<mapsto> snd (AddUser (Some s) (rp_locate rp) cb))\<rparr>"
    using board_write [OF w1] cb by auto
  obtain u where "sess w1 s = Some u" using a by (auto simp: set_status_def upd_sess_def split: option.splits)
  then have u: "sess w s = Some u" by (simp add: w1')
  then have iu: "v = ident u" using v(1) tracked_sess [OF t] by simp
  have t1: "tracked {} (put s (v\<lparr>currChessBoard := Some b\<rparr>) \<sigma>) wb"
    unfolding iu by (rule sit_down [OF t cb u _ _ _ a b]) (use v l add w1 iu in auto)
  have "post (tracked {} \<sigma>') P (do { w \<leftarrow> upd_board b (\<lambda>cb. if GetUserNum cb = 1
              then cb\<lparr>first_come_user_locate := rp_locate rp\<rparr> else cb) wb;
            cb \<leftarrow> boards w b;
            info \<leftarrow> WrapChessBoardInfo b w;
            w \<leftarrow> upd_sess s (SetNextState STATE_GAME_PLAY) w;
            Some (\<lparr>rr_status = 1, rr_first_come_user_locate = first_come_user_locate cb,
                   rr_chessboard = Some info\<rparr>, w) })"
    if "tracked {} \<sigma>' wb" and s': "\<sigma>' = put s (v\<lparr>currChessBoard := Some b\<rparr>) \<sigma>" for \<sigma>'
  proof -
    have nx: "post (tracked {} \<sigma>') Q (upd_sess s (SetNextState STATE_GAME_PLAY) w')"
      if "tracked {} \<sigma>' w'" and Q: "\<And>w'. tracked {} (put s (v\<lparr>currChessBoard := Some b,
            nextState := Some STATE_GAME_PLAY\<rparr>) \<sigma>) w' \<Longrightarrow> Q w'" for w' Q
      using that(1) by (rule call_same_place) (auto simp: SetNextState_def ident_updates s' intro: Q)
    show ?thesis using that(1) by (auto intro!: calls call_upd_board nx P)
  qed
  from this [OF t1 refl] r show "P x" by (rule postD)
qed

lemma call_GameRequestHandle:
  assumes t: "tracked {} \<sigma> w" and v: "fst \<sigma> s = Some v" "currChessBoard v = None"
    and same: "\<And>r w'. tracked {} \<sigma> w' \<Longrightarrow> P (r, w')"
    and moved: "\<And>l r w'. tracked {} (put s (v\<lparr>locate := l\<rparr>) \<sigma>) w' \<Longrightarrow> P (r, w')"
    and seated: "\<And>l b r w'. l \<in> set seats \<Longrightarrow> tracked {} (put s (v\<lparr>locate := l, currChessBoard := Some b,
                    nextState := Some STATE_GAME_PLAY\<rparr>) \<sigma>) w' \<Longrightarrow> P (r, w')"
  shows "post K P (GameRequestHandle E s msg w)"
proof (rule post_any)
  fix x assume x: "GameRequestHandle E s msg w = Some x"
  show "P x"
  proof (cases "\<exists>rp h. parse_RequestPlay E msg = Some rp \<and> GetGameHall (rp_game_hall_id rp) w = Some (Some h)")
    case False
    then have "\<exists>r. x = (r, w)"
      using x by (auto simp: GameRequestHandle_def split: option.splits elim!: bind_SomeE)
    then show ?thesis using same t by auto
  next
    case True
    then obtain rp h where rp: "parse_RequestPlay E msg = Some rp" "GetGameHall (rp_game_hall_id rp) w = Some (Some h)"
      by blast
    let ?l = "rp_locate rp"
    obtain p w1 w2 b began cb where 1: "GetChessBoardByID E h (rp_chess_board_id rp) w = Some (p, w1)"
      and 2: "upd_sess s (\<lambda>u. u\<lparr>locate := ?l\<rparr>) w1 = Some w2" and cb: "boards w2 b = Some cb"
      and r: "(if began \<or> \<not> fst (AddUser (Some s) ?l cb) then do {
                w \<leftarrow> reply s MSG_REQUEST_PLAY_REPLY (ser_RequestPlayReply E
                       \<lparr>rr_status = 0, rr_first_come_user_locate = first_come_user_locate cb,
                        rr_chessboard = None\<rparr>) w2;
                Some (True, w) }
              else do {
                w \<leftarrow> upd_board b (\<lambda>cb. snd (AddUser (Some s) ?l cb)) w2;
                (rep, w) \<leftarrow> take_seat s b rp w;
                w \<leftarrow> reply s MSG_REQUEST_PLAY_REPLY (ser_RequestPlayReply E rep) w;
                u \<leftarrow> sess w s;
                mine \<leftarrow> currChessBoard u;
                w \<leftarrow> BroadCastMsg mine MSG_REQUEST_PLAY_REPLY
                       (ser_RequestPlayReply E (rep\<lparr>rr_status := 2\<rparr>)) (locate u) w;
                w \<leftarrow> BroadCastHallInfo E mine s w;
                Some (True, w) }) = Some x"
      using x rp by (auto simp: GameRequestHandle_def elim!: bind_SomeE)
    have "tracked {} \<sigma> w1"
      using stable_keeps [OF stable_tracked t] talk_keeps [OF talk_GetChessBoardByID [OF 1]]
        stable_halls [OF stable_tracked t] by blast
    then have t2: "tracked {} (put s (v\<lparr>locate := ?l\<rparr>) \<sigma>) w2"
      by (rule postD [OF call_same_place 2]) (use v in \<open>auto simp: ident_updates\<close>)
    show ?thesis
    proof (cases "began \<or> \<not> fst (AddUser (Some s) ?l cb)")
      case True
      have "post (tracked {} (put s (v\<lparr>locate := ?l\<rparr>) \<sigma>)) P (do {
          w \<leftarrow> reply s MSG_REQUEST_PLAY_REPLY (ser_RequestPlayReply E
                 \<lparr>rr_status = 0, rr_first_come_user_locate = first_come_user_locate cb,
                  rr_chessboard = None\<rparr>) w2;
          Some (True, w) })"
        using t2 by (auto intro!: calls moved)
      from this r [unfolded if_P [OF True]] show ?thesis by (rule postD)
    next
      case False
      then obtain w3 rep w4 where 3: "upd_board b (\<lambda>cb. snd (AddUser (Some s) ?l cb)) w2 = Some w3"
        and 4: "take_seat s b rp w3 = Some (rep, w4)"
        and r4: "do { w \<leftarrow> reply s MSG_REQUEST_PLAY_REPLY (ser_RequestPlayReply E rep) w4;
                u \<leftarrow> sess w s;
                mine \<leftarrow> currChessBoard u;
                w \<leftarrow> BroadCastMsg mine MSG_REQUEST_PLAY_REPLY
                       (ser_RequestPlayReply E (rep\<lparr>rr_status := 2\<rparr>)) (locate u) w;
                w \<leftarrow> BroadCastHallInfo E mine s w;
                Some (True, w) } = Some x"
        using r by (auto elim!: bind_SomeE)
      have ok: "board_ok cb" using t2 cb by (auto simp: tracked_def intro: seat_inv_board)
      with False have l: "?l \<in> set seats" using AddUser_iff by blast
      let ?\<sigma> = "put s (v\<lparr>locate := ?l, currChessBoard := Some b, nextState := Some STATE_GAME_PLAY\<rparr>) \<sigma>"
      have "tracked {} ?\<sigma> w4"
        using postD [OF call_take_seat [OF t2 cb _ _ _ _ 3, where P = "\<lambda>(r, w'). tracked {} ?\<sigma> w'"] 4] v False
        by simp
      then have "post (tracked {} ?\<sigma>) P (do { w \<leftarrow> reply s MSG_REQUEST_PLAY_REPLY (ser_RequestPlayReply E rep) w4;
                u \<leftarrow> sess w s;
                mine \<leftarrow> currChessBoard u;
                w \<leftarrow> BroadCastMsg mine MSG_REQUEST_PLAY_REPLY
                       (ser_RequestPlayReply E (rep\<lparr>rr_status := 2\<rparr>)) (locate u) w;
                w \<leftarrow> BroadCastHallInfo E mine s w;
                Some (True, w) })"
        by (auto intro!: calls seated l)
      then show ?thesis using r4 by (rule postD)
    qed
  qed
qed

section \<open>The abstract state machine\<close>

definition own_change :: "StateType \<Rightarrow> bool \<Rightarrow> UserSession \<Rightarrow> UserSession \<Rightarrow> bool" where
  "own_change st ret v v' \<longleftrightarrow> (case st of
       STATE_AUTH \<Rightarrow> v' = v \<or> ret \<and> v' = v\<lparr>nextState := Some STATE_DOWN_AD\<rparr>
     | STATE_DOWN_AD \<Rightarrow> v' = v \<or> ret \<and> v' = v\<lparr>nextState := Some STATE_GAME_READY\<rparr>
     | STATE_GAME_READY \<Rightarrow> (\<exists>l. v' = v\<lparr>locate := l\<rparr>) \<or>
         (\<exists>l b. l \<in> set seats \<and> v' = v\<lparr>locate := l, currChessBoard := Some b,
            nextState := Some STATE_GAME_PLAY\<rparr>)
     | STATE_GAME_PLAY \<Rightarrow> ret \<and> (v' = v \<or> v' = evicted v) \<or>
         \<not> ret \<and> (v' = v\<lparr>nextState := Some STATE_GAME_READY\<rparr> \<or> v' = evicted v))"

text \<open>The message came to session \<open>s\<close>, whose state is \<open>st\<close>.\<close>

definition change ::
  "sid \<Rightarrow> StateType \<Rightarrow> bool \<Rightarrow> (sid \<Rightarrow> UserSession option) \<times> 'r \<Rightarrow> (sid \<Rightarrow> UserSession option) \<times> 'r \<Rightarrow> bool"
  where
  "change s st ret \<sigma> \<sigma>' \<longleftrightarrow> snd \<sigma>' = snd \<sigma> \<and>
     (\<exists>v v'. fst \<sigma> s = Some v \<and> fst \<sigma>' s = Some v' \<and> own_change st ret v v') \<and>
     (\<forall>s'. s' \<noteq> s \<longrightarrow> fst \<sigma>' s' = fst \<sigma> s' \<or>
        st = STATE_GAME_PLAY \<and> (\<exists>u. fst \<sigma> s' = Some u \<and> currChessBoard u \<noteq> None \<and> fst \<sigma>' s' = Some (evicted u)))"

lemma tracked_frame [simp]: "tracked X \<sigma> (w\<lparr>fpw_requests := x\<rparr>) = tracked X \<sigma> w"
  by (simp add: tracked_def seat_inv_def shape_def boards_ok_def sits_at_def has_place_def)

lemma call_next:
  assumes "fst \<sigma> s = Some v" "tracked {} \<sigma> w"
    and "\<And>w'. tracked {} (put s (v\<lparr>nextState := Some st\<rparr>) \<sigma>) w' \<Longrightarrow> P w'"
  shows "post (tracked {} \<sigma>) P (upd_sess s (SetNextState st) w)"
  using assms(2) by (rule call_same_place) (use assms(1,3) in \<open>auto simp: SetNextState_def ident_updates\<close>)

lemma change_own:
  assumes "fst \<sigma> s = Some v"
  shows "change s st ret \<sigma> (put s v' \<sigma>) = own_change st ret v v'"
    and "change s st ret \<sigma> \<sigma> = own_change st ret v v"
  using assms by (auto simp: change_def)

lemma call_StateAuth:
  assumes "tracked {} \<sigma> w" "fst \<sigma> s = Some v"
    and "\<And>\<sigma>' r w'. tracked {} \<sigma>' w' \<Longrightarrow> change s STATE_AUTH r \<sigma> \<sigma>' \<Longrightarrow> P (r, w')"
  shows "post (tracked {} \<sigma>) P (StateAuth_MsgHandle E s ty msg w)"
proof -
  note c = change_own [OF assms(2)]
  have same: "P (r, w')" if "tracked {} \<sigma> w'" for r w'
    using that by (rule assms(3)) (simp add: c own_change_def)
  have went: "P (True, w')" if "tracked {} (put s (v\<lparr>nextState := Some STATE_DOWN_AD\<rparr>) \<sigma>) w'" for w'
    using that by (rule assms(3)) (simp add: c own_change_def)
  show ?thesis
    unfolding StateAuth_MsgHandle_def HandleFindPwd_def HandleLogout_def
    using assms(1) by (auto intro!: calls call_next [OF assms(2)] simp: same went)
qed

lemma call_StateAd:
  assumes "tracked {} \<sigma> w" "fst \<sigma> s = Some v"
    and "\<And>\<sigma>' r w'. tracked {} \<sigma>' w' \<Longrightarrow> change s STATE_DOWN_AD r \<sigma> \<sigma>' \<Longrightarrow> P (r, w')"
  shows "post (tracked {} \<sigma>) P (StateAdPictureDownload_MsgHandle E s ty msg w)"
proof -
  note c = change_own [OF assms(2)]
  have same: "P (r, w')" if "tracked {} \<sigma> w'" for r w'
    using that by (rule assms(3)) (simp add: c own_change_def)
  have went: "P (True, w')" if "tracked {} (put s (v\<lparr>nextState := Some STATE_GAME_READY\<rparr>) \<sigma>) w'" for w'
    using that by (rule assms(3)) (simp add: c own_change_def)
  show ?thesis
    unfolding StateAdPictureDownload_MsgHandle_def AdPictureItemHandle_def
    using assms(1) by (auto intro!: calls call_next [OF assms(2)] simp: same went)
qed

lemma call_StateGameReady:
  assumes "tracked {} \<sigma> w" "fst \<sigma> s = Some v" "currChessBoard v = None"
    and "\<And>\<sigma>' r w'. tracked {} \<sigma>' w' \<Longrightarrow> change s STATE_GAME_READY r \<sigma> \<sigma>' \<Longrightarrow> P (r, w')"
  shows "post (tracked {} \<sigma>) P (StateGameReady_MsgHandle E s ty msg w)"
proof -
  note c = change_own [OF assms(2)]
  have same: "P (r, w')" if "tracked {} \<sigma> w'" for r w'
    using that by (rule assms(4)) (auto simp: c own_change_def intro: exI [of _ "locate v"])
  have moved: "P (r, w')" if "tracked {} (put s (v\<lparr>locate := l\<rparr>) \<sigma>) w'" for l r w'
    using that by (rule assms(4)) (auto simp: c own_change_def)
  have seated: "P (r, w')" if "l \<in> set seats" "tracked {} (put s (v\<lparr>locate := l, currChessBoard := Some b,
      nextState := Some STATE_GAME_PLAY\<rparr>) \<sigma>) w'" for l b r w'
  proof (rule assms(4) [OF that(2)])
    show "change s STATE_GAME_READY r \<sigma> (put s (v\<lparr>locate := l, currChessBoard := Some b,
        nextState := Some STATE_GAME_PLAY\<rparr>) \<sigma>)"
      unfolding c(1) own_change_def StateType.case using that(1) by blast
  qed
  have req: "post (tracked {} \<sigma>) P (GameRequestHandle E s msg w)"
    by (rule call_GameRequestHandle [OF assms(1-3), where P = P]) (assumption | rule same moved seated)+
  show ?thesis
    unfolding StateGameReady_MsgHandle_def using assms(1) by (auto intro!: calls req same)
qed

lemma call_TranslateMsg:
  assumes "tracked {} \<sigma> w"
    and same: "\<And>r w'. tracked {} \<sigma> w' \<Longrightarrow> P (r, w')"
    and gone: "\<And>s v w' r. fst \<sigma> s = Some v \<Longrightarrow> currChessBoard v = Some b \<Longrightarrow>
                tracked {} (put s (evicted v) \<sigma>) w' \<Longrightarrow> P (r, w')"
  shows "post (tracked {} \<sigma>) P (TranslateMsg E b ty msg w)"
proof -
  have gu: "post (tracked {} \<sigma>) P (GiveUpHandle E b msg w)"
    using assms(1) by (rule call_GiveUpHandle) (blast intro: same gone)+
  show ?thesis
    unfolding TranslateMsg_def using assms(1) by (auto intro!: calls gu same)
qed

lemma call_play_dispatch:
  assumes "tracked {} \<sigma> w" "fst \<sigma> s = Some v"
    and same: "\<And>r w'. tracked {} \<sigma> w' \<Longrightarrow> P (r, w')"
    and gone: "\<And>s' u w' r. fst \<sigma> s' = Some u \<Longrightarrow> currChessBoard u \<noteq> None \<Longrightarrow>
                tracked {} (put s' (evicted u) \<sigma>) w' \<Longrightarrow> P (r, w')"
  shows "post (tracked {} \<sigma>) P (play_dispatch E s ty msg w)"
proof -
  have tr: "post (tracked {} \<sigma>) P (TranslateMsg E b ty msg w)" for b
    using assms(1) same by (rule call_TranslateMsg) (auto intro: gone)
  show ?thesis
    unfolding play_dispatch_def using assms(1) by (auto intro!: calls tr same)
qed

lemma call_StateGamePlay:
  assumes "tracked {} \<sigma> w" "fst \<sigma> s = Some v"
    and P: "\<And>\<sigma>' r w'. tracked {} \<sigma>' w' \<Longrightarrow> change s STATE_GAME_PLAY r \<sigma> \<sigma>' \<Longrightarrow> P (r, w')"
  shows "post (tracked {} \<sigma>) P (StateGamePlay_MsgHandle E s ty msg w)"
proof -
  define Q where "Q = (\<lambda>(r :: bool, w'). \<exists>\<sigma>'. tracked {} \<sigma>' w' \<and> change s STATE_GAME_PLAY True \<sigma> \<sigma>')"
  have d: "post (tracked {} \<sigma>) Q (play_dispatch E s ty msg w)"
  proof (rule call_play_dispatch [OF assms(1,2)])
    fix r w' assume "tracked {} \<sigma> w'"
    moreover have "change s STATE_GAME_PLAY True \<sigma> \<sigma>"
      using assms(2) by (simp add: change_own own_change_def)
    ultimately show "Q (r, w')" unfolding Q_def by blast
  next
    fix s' u w' r assume u: "fst \<sigma> s' = Some u" "currChessBoard u \<noteq> None" "tracked {} (put s' (evicted u) \<sigma>) w'"
    then have "change s STATE_GAME_PLAY True \<sigma> (put s' (evicted u) \<sigma>)"
      using assms(2) by (auto simp: change_def own_change_def)
    with u(3) show "Q (r, w')" unfolding Q_def by blast
  qed
  have fail: "post K P (do {
       w \<leftarrow> upd_sess s (SetNextState STATE_GAME_READY) w';
       w \<leftarrow> set_status STATUS_NOT_START s w;
       Some (False, w) })" if t: "tracked {} \<sigma>' w'" and c: "change s STATE_GAME_PLAY True \<sigma> \<sigma>'" for K \<sigma>' w'
  proof -
    obtain v' where v': "fst \<sigma>' s = Some v'" "v' = v \<or> v' = evicted v"
      using c assms(2) by (auto simp: change_def own_change_def)
    let ?\<sigma> = "put s (v'\<lparr>nextState := Some STATE_GAME_READY\<rparr>) \<sigma>'"
    have "change s STATE_GAME_PLAY False \<sigma> ?\<sigma>"
      using c assms(2) v' by (auto simp: change_def own_change_def evicted_def)
    then have "P (False, w')" if "tracked {} ?\<sigma> w'" for w' using that by (blast intro: P)
    then have "post (tracked {} ?\<sigma>) P (do { w \<leftarrow> set_status STATUS_NOT_START s w1; Some (False, w) })"
      if "tracked {} ?\<sigma> w1" for w1 using that by (auto intro!: calls)
    then show ?thesis
      by (intro post_seq [OF call_next [OF v'(1) t, where P = "tracked {} ?\<sigma>"]])
  qed
  show ?thesis
    unfolding StateGamePlay_MsgHandle_def
  proof (rule post_seq [OF d])
    fix x assume "Q x"
    then obtain r w' \<sigma>' where "x = (r, w')" "tracked {} \<sigma>' w'" "change s STATE_GAME_PLAY True \<sigma> \<sigma>'"
      unfolding Q_def by (cases x) blast
    then show "post (\<lambda>_. True) P (case x of (ret, w) \<Rightarrow> if ret then Some (True, w) else do {
         w \<leftarrow> upd_sess s (SetNextState STATE_GAME_READY) w;
         w \<leftarrow> set_status STATUS_NOT_START s w;
         Some (False, w) })"
      by (cases r) (simp_all add: P fail)
  qed
qed

lemma call_State_MsgHandle:
  assumes "tracked {} \<sigma> w" "fst \<sigma> s = Some v" "st = STATE_GAME_READY \<longrightarrow> currChessBoard v = None"
    and P: "\<And>\<sigma>' r w'. tracked {} \<sigma>' w' \<Longrightarrow> change s st r \<sigma> \<sigma>' \<Longrightarrow> P (r, w')"
  shows "post (tracked {} \<sigma>) P (State_MsgHandle E st s ty msg w)"
  unfolding State_MsgHandle_def using assms
  by (cases st) (auto intro!: call_StateAuth call_StateAd call_StateGameReady call_StateGamePlay)

lemma State_MsgHandle_change:
  assumes "tracked {} \<sigma> w" "fst \<sigma> s = Some v" "st = STATE_GAME_READY \<longrightarrow> currChessBoard v = None"
    and "State_MsgHandle E st s ty msg w = Some (r, w')"
  shows "\<exists>\<sigma>'. tracked {} \<sigma>' w' \<and> change s st r \<sigma> \<sigma>'"
proof -
  have "post (tracked {} \<sigma>) (\<lambda>(r, w'). \<exists>\<sigma>'. tracked {} \<sigma>' w' \<and> change s st r \<sigma> \<sigma>')
      (State_MsgHandle E st s ty msg w)"
    using assms(1-3) by (rule call_State_MsgHandle) blast
  from postD [OF this assms(4)] show ?thesis by simp
qed

end
