(* ===== verification/Lifetime.thy ===== *)
theory Lifetime
  imports Transitions
begin

text \<open>
  The life of a session: in the pool, connected, closed, recycled. \<open>live Z \<sigma>\<close> says of the
  shape of a state that every session is in the pool or registered under its own descriptor
  (those in \<open>Z\<close>, which a callback is moving between the two, are in neither), that pooled
  sessions are blank, and that no descriptor is used twice. \<open>placed Y \<sigma>\<close> says that whoever
  (outside \<open>Y\<close>) has a board is in the playing state.
\<close>

type_synonym shape = "(sid \<Rightarrow> UserSession option) \<times> WorkThread list \<times> sid list \<times> sid"

definition idle :: "UserSession \<Rightarrow> bool" where
  "idle v \<longleftrightarrow> clifd v = -1 \<and> thread v = None \<and> currChessBoard v = None \<and> stateMachine v = None"

text \<open>\<open>phase_ok\<close>: between messages the next state is the current one, but for a user who was made
  to leave the board and has not sent a message since.\<close>

definition phase_ok :: "UserSession \<Rightarrow> bool" where
  "phase_ok v \<longleftrightarrow> (case stateMachine v of None \<Rightarrow> True
     | Some st \<Rightarrow> nextState v = Some st \<or> st = STATE_GAME_PLAY \<and> nextState v = Some STATE_GAME_READY)"

definition placed :: "sid set \<Rightarrow> shape \<Rightarrow> bool" where
  "placed Y \<sigma> \<longleftrightarrow> (\<forall>s v. fst \<sigma> s = Some v \<longrightarrow> s \<notin> Y \<longrightarrow> phase_ok v \<and> (currChessBoard v \<noteq> None \<longrightarrow>
     stateMachine v = Some STATE_GAME_PLAY \<and> nextState v = Some STATE_GAME_PLAY))"

lemma phase_ok_idle: "idle v \<Longrightarrow> phase_ok v"
  by (simp add: idle_def phase_ok_def)

text \<open>The state a message is handled in, and the states it may lead to.\<close>

definition phase :: "UserSession \<Rightarrow> StateType" where
  "phase u = (case stateMachine u of None \<Rightarrow> STATE_AUTH | Some st \<Rightarrow> st)"

fun allowed :: "StateType \<Rightarrow> StateType \<Rightarrow> bool" where
  "allowed STATE_AUTH st \<longleftrightarrow> st = STATE_AUTH \<or> st = STATE_DOWN_AD"
| "allowed STATE_DOWN_AD st \<longleftrightarrow> st = STATE_DOWN_AD \<or> st = STATE_GAME_READY"
| "allowed STATE_GAME_READY st \<longleftrightarrow> st = STATE_GAME_READY \<or> st = STATE_GAME_PLAY"
| "allowed STATE_GAME_PLAY st \<longleftrightarrow> st = STATE_GAME_PLAY \<or> st = STATE_GAME_READY"

definition fds_ok :: "WorkThread \<Rightarrow> bool" where
  "fds_ok th \<longleftrightarrow> sm_ok (fdSessionMap th) \<and>
     distinct (map pipe_fd (notify_pipe th)) \<and>
     fst ` set (fdSessionMap th) \<inter> pipe_fd ` set (notify_pipe th) = {} \<and>
     (\<forall>fd \<in> fst ` set (fdSessionMap th) \<union> pipe_fd ` set (notify_pipe th). 0 \<le> fd)"

text \<open>main creates one worker thread, number 0.\<close>

definition live_in :: "sid set \<Rightarrow> (sid \<Rightarrow> UserSession option) \<Rightarrow> WorkThread \<Rightarrow> sid list \<Rightarrow> sid \<Rightarrow> bool" where
  "live_in Z g th pool nxt \<longleftrightarrow> fds_ok th \<and>
     (\<forall>fd s. sm_find fd (fdSessionMap th) = Some s \<longrightarrow>
        s \<notin> Z \<and> (\<exists>v. g s = Some v \<and> clifd v = fd \<and> thread v = Some 0)) \<and>
     distinct pool \<and>
     (\<forall>s \<in> set pool. s \<notin> Z \<and> (\<exists>v. g s = Some v \<and> idle v)) \<and>
     (\<forall>s v. g s = Some v \<longrightarrow> s < nxt \<and>
        (s \<in> Z \<or> s \<in> set pool \<or> sm_find (clifd v) (fdSessionMap th) = Some s))"

definition live :: "sid set \<Rightarrow> shape \<Rightarrow> bool" where
  "live Z \<sigma> \<longleftrightarrow> (\<exists>th. fst (snd \<sigma>) = [th] \<and>
     live_in Z (fst \<sigma>) th (fst (snd (snd \<sigma>))) (snd (snd (snd \<sigma>))))"

lemma shape_sel [simp]:
  "fst (shape w) s = map_option ident (sess w s)" "fst (snd (shape w)) = threadList w"
  "fst (snd (snd (shape w))) = sessionList w" "snd (snd (snd (shape w))) = sess_next w"
  by (simp_all add: shape_def)

lemma liveE:
  assumes "live Z \<sigma>"
  obtains g th pool nxt where "\<sigma> = (g, [th], pool, nxt)" "live_in Z g th pool nxt"
  using assms by (cases \<sigma>) (auto simp: live_def)

lemma live_in_conn:
  "live_in Z g th pool nxt \<Longrightarrow> sm_find fd (fdSessionMap th) = Some s \<Longrightarrow>
     s \<notin> Z \<and> (\<exists>v. g s = Some v \<and> clifd v = fd \<and> thread v = Some 0)"
  unfolding live_in_def by blast

lemma live_in_pool:
  "live_in Z g th pool nxt \<Longrightarrow> s \<in> set pool \<Longrightarrow> s \<notin> Z \<and> (\<exists>v. g s = Some v \<and> idle v)"
  unfolding live_in_def by blast

lemma live_in_all:
  "live_in Z g th pool nxt \<Longrightarrow> g s = Some v \<Longrightarrow>
     s < nxt \<and> (s \<in> Z \<or> s \<in> set pool \<or> sm_find (clifd v) (fdSessionMap th) = Some s)"
  unfolding live_in_def by blast

lemma live_in_fds: "live_in Z g th pool nxt \<Longrightarrow> fds_ok th" "live_in Z g th pool nxt \<Longrightarrow> distinct pool"
  unfolding live_in_def by blast+

lemma live_in_nonneg:
  assumes "live_in Z g th pool nxt" "sm_find fd (fdSessionMap th) = Some s"
  shows "0 \<le> fd"
proof -
  have "fd \<in> fst ` set (fdSessionMap th)" using sm_find_Some_set [OF assms(2)] by force
  then show ?thesis using live_in_fds(1) [OF assms(1)] unfolding fds_ok_def by blast
qed

lemma live_inI:
  assumes "fds_ok th" "distinct pool"
    and "\<And>fd s. sm_find fd (fdSessionMap th) = Some s \<Longrightarrow>
           s \<notin> Z \<and> (\<exists>v. g s = Some v \<and> clifd v = fd \<and> thread v = Some 0)"
    and "\<And>s. s \<in> set pool \<Longrightarrow> s \<notin> Z \<and> (\<exists>v. g s = Some v \<and> idle v)"
    and "\<And>s v. g s = Some v \<Longrightarrow>
           s < nxt \<and> (s \<in> Z \<or> s \<in> set pool \<or> sm_find (clifd v) (fdSessionMap th) = Some s)"
  shows "live_in Z g th pool nxt"
  using assms unfolding live_in_def by blast

section \<open>A message\<close>

text \<open>Changes that keep descriptor and thread of the sessions in use.\<close>

lemma live_rel:
  assumes "live Z \<sigma>" "snd \<sigma>' = snd \<sigma>"
    and "\<And>s. fst \<sigma>' s = fst \<sigma> s \<or> (\<exists>u u'. fst \<sigma> s = Some u \<and> fst \<sigma>' s = Some u' \<and>
            clifd u' = clifd u \<and> thread u' = thread u \<and> \<not> idle u)"
  shows "live Z \<sigma>'"
proof -
  obtain g th pool nxt where \<sigma>: "\<sigma> = (g, [th], pool, nxt)" and l: "live_in Z g th pool nxt"
    using assms(1) by (rule liveE)
  then obtain g' where \<sigma>': "\<sigma>' = (g', [th], pool, nxt)"
    using assms(2) by (cases \<sigma>') auto
  have rel: "g' s = g s \<or> (\<exists>u u'. g s = Some u \<and> g' s = Some u' \<and> clifd u' = clifd u \<and>
      thread u' = thread u \<and> \<not> idle u)" for s
    using assms(3) by (simp add: \<sigma> \<sigma>')
  have "live_in Z g' th pool nxt"
    unfolding live_in_def
  proof (intro conjI allI ballI impI)
    fix fd s assume "sm_find fd (fdSessionMap th) = Some s"
    then obtain u where "s \<notin> Z" "g s = Some u" "clifd u = fd" "thread u = Some 0"
      using l by (auto simp: live_in_def)
    then show "s \<notin> Z" "\<exists>v. g' s = Some v \<and> clifd v = fd \<and> thread v = Some 0" using rel [of s] by auto
  next
    fix s assume "s \<in> set pool"
    then obtain u where "s \<notin> Z" "g s = Some u" "idle u" using l by (auto simp: live_in_def)
    then show "s \<notin> Z" "\<exists>v. g' s = Some v \<and> idle v" using rel [of s] by auto
  next
    fix s u' assume "g' s = Some u'"
    then obtain u where "g s = Some u" "clifd u' = clifd u" using rel [of s] by force
    then show "s < nxt" "s \<in> Z \<or> s \<in> set pool \<or> sm_find (clifd u') (fdSessionMap th) = Some s"
      using l by (auto simp: live_in_def)
  qed (use l in \<open>simp_all add: live_in_def\<close>)
  then show ?thesis by (simp add: live_def \<sigma>')
qed

lemma own_change_thread:
  "own_change st r v v' \<Longrightarrow>
     thread v' = thread v \<and> stateMachine v' = stateMachine v \<and> clifd v' = clifd v \<and> bufev v' = bufev v"
  by (cases st) (auto simp: own_change_def evicted_def)

lemma change_thread:
  assumes "change s st r \<sigma> \<sigma>'" "fst \<sigma> s = Some v"
  shows "\<exists>v'. fst \<sigma>' s = Some v' \<and> thread v' = thread v \<and> stateMachine v' = stateMachine v \<and> clifd v' = clifd v \<and>
    bufev v' = bufev v"
proof -
  obtain v' where "fst \<sigma>' s = Some v'" "own_change st r v v'"
    using assms unfolding change_def by (metis option.inject)
  then show ?thesis by (blast dest: own_change_thread)
qed

lemma change_other:
  "change s st r \<sigma> \<sigma>' \<Longrightarrow> s' \<noteq> s \<Longrightarrow> fst \<sigma>' s' = fst \<sigma> s' \<or>
     (\<exists>u. fst \<sigma> s' = Some u \<and> currChessBoard u \<noteq> None \<and> fst \<sigma>' s' = Some (evicted u))"
  unfolding change_def by blast

lemma live_change:
  assumes "live {} \<sigma>" "change s st r \<sigma> \<sigma>'" "fst \<sigma> s = Some v" "thread v \<noteq> None"
  shows "live {} \<sigma>'"
  using assms(1)
proof (rule live_rel)
  show "snd \<sigma>' = snd \<sigma>" using assms(2) by (simp add: change_def)
  fix s' show "fst \<sigma>' s' = fst \<sigma> s' \<or> (\<exists>u u'. fst \<sigma> s' = Some u \<and> fst \<sigma>' s' = Some u' \<and>
            clifd u' = clifd u \<and> thread u' = thread u \<and> \<not> idle u)"
  proof (cases "s' = s")
    case True
    then show ?thesis using change_thread [OF assms(2,3)] assms(3,4) by (auto simp: idle_def)
  next
    case False
    then show ?thesis using change_other [OF assms(2) False] by (auto simp: idle_def evicted_def)
  qed
qed

lemma placed_change:
  assumes "placed {} \<sigma>" "change s st r \<sigma> \<sigma>'"
  shows "placed {s} \<sigma>'"
  unfolding placed_def
proof (intro allI impI)
  fix s' v assume v: "fst \<sigma>' s' = Some v" "s' \<notin> {s}"
  have pl: "phase_ok u \<and> (currChessBoard u \<noteq> None \<longrightarrow>
      stateMachine u = Some STATE_GAME_PLAY \<and> nextState u = Some STATE_GAME_PLAY)" if "fst \<sigma> s' = Some u" for u
    using assms(1) that unfolding placed_def by blast
  from v consider "fst \<sigma> s' = Some v" | u where "fst \<sigma> s' = Some u" "currChessBoard u \<noteq> None" "v = evicted u"
    using change_other [OF assms(2), of s'] by auto
  then show "phase_ok v \<and> (currChessBoard v \<noteq> None \<longrightarrow>
      stateMachine v = Some STATE_GAME_PLAY \<and> nextState v = Some STATE_GAME_PLAY)"
    by cases (use pl in \<open>auto simp: evicted_def phase_ok_def\<close>)
qed

lemma live_put:
  assumes "live Z \<sigma>" "fst \<sigma> s = Some v" "clifd v' = clifd v" "thread v' = thread v" "\<not> idle v"
  shows "live Z (put s v' \<sigma>)"
  using assms(1) by (rule live_rel) (use assms(2-) in auto)

text \<open>Before the transition, a session that still has its board goes on playing.\<close>

lemma own_change_playing:
  assumes "own_change st True v v'" "stateMachine v = Some st"
    "currChessBoard v \<noteq> None \<Longrightarrow> st = STATE_GAME_PLAY \<and> nextState v = Some STATE_GAME_PLAY"
    "currChessBoard v' \<noteq> None"
  shows "nextState v' = Some STATE_GAME_PLAY"
  using assms by (auto simp: own_change_def evicted_def split: StateType.splits)

lemma ident_transition [simp]:
  "ident (do_transition u) = do_transition (ident u)" "ident (start_machine u) = start_machine (ident u)"
  by (simp_all add: do_transition_def start_machine_def ident_updates)

text \<open>What a message does to the other sessions: nothing, or it makes one leave its board.\<close>

definition others_kept :: "sid \<Rightarrow> StateType \<Rightarrow> (sid \<Rightarrow> UserSession option) \<times> 'r \<Rightarrow>
    (sid \<Rightarrow> UserSession option) \<times> 'r \<Rightarrow> bool" where
  "others_kept s st \<sigma> \<sigma>' \<longleftrightarrow> (\<forall>s'. s' \<noteq> s \<longrightarrow> fst \<sigma>' s' = fst \<sigma> s' \<or>
     st = STATE_GAME_PLAY \<and> (\<exists>u. fst \<sigma> s' = Some u \<and> currChessBoard u \<noteq> None \<and> fst \<sigma>' s' = Some (evicted u)))"

lemma change_kept: "change s st r (put s v \<sigma>) \<sigma>' \<Longrightarrow> others_kept s st \<sigma> \<sigma>'"
  unfolding change_def others_kept_def by simp

lemma others_kept_put [simp]: "others_kept s st \<sigma> (put s v \<sigma>') = others_kept s st \<sigma> \<sigma>'"
  unfolding others_kept_def by simp

definition srv_inv :: "sid set \<Rightarrow> sid set \<Rightarrow> sid set \<Rightarrow> world \<Rightarrow> bool" where
  "srv_inv X Y Z w \<longleftrightarrow> seat_inv X w \<and> placed Y (shape w) \<and> live Z (shape w)"

lemma session_message:
  assumes i: "srv_inv {} {} {} w" and u: "sess w s = Some u" and th: "thread u \<noteq> None"
    and m: "UserSession_MessageHandle E s ty msg w = Some (r, w')"
  shows "srv_inv {} (if r then {} else {s}) {} w'" "snd (shape w') = snd (shape w)"
    "\<exists>u'. sess w' s = Some u' \<and> clifd u' = clifd u \<and> thread u' = thread u \<and>
       (r \<longrightarrow> allowed (phase u) (phase u') \<and> stateMachine u' \<noteq> None) \<and> stateMachine u' \<noteq> None \<and> bufev u' = bufev u"
    "others_kept s (phase u) (shape w) (shape w')"
proof -
  have t: "tracked {} (shape w) w" using i by (simp add: srv_inv_def tracked_self)
  have p: "placed {} (shape w)" and l: "live {} (shape w)" using i by (simp_all add: srv_inv_def)
  let ?v = "ident u"
  let ?\<sigma> = "put s (start_machine ?v) (shape w)"
  have v: "fst (shape w) s = Some ?v" using u by simp
  have pv: "currChessBoard u \<noteq> None \<Longrightarrow> stateMachine u = Some STATE_GAME_PLAY \<and> nextState u = Some STATE_GAME_PLAY"
    using p v unfolding placed_def by force
  obtain w1 u1 st w2 where 1: "upd_sess s start_machine w = Some w1" and u1: "sess w1 s = Some u1"
    and st: "stateMachine u1 = Some st" and 2: "State_MsgHandle E st s ty msg w1 = Some (r, w2)"
    and r: "(if \<not> r then Some (False, w2) else do { w \<leftarrow> upd_sess s do_transition w2; Some (True, w) }) = Some (r, w')"
    using m by (auto simp: UserSession_MessageHandle_def elim!: bind_SomeE split: if_splits)
  have t1: "tracked {} ?\<sigma> w1"
    by (rule postD [OF call_same_place 1, of _ "shape w"]) (use t v u in \<open>auto simp: start_machine_def ident_updates\<close>)
  then have v1: "ident u1 = start_machine ?v" using tracked_sess [OF t1 u1] by simp
  have st': "stateMachine (start_machine ?v) = Some st" using v1 st by (metis ident_fields(5))
  have "phase_ok (start_machine ?v)"
    using p v unfolding placed_def phase_ok_def start_machine_def by (fastforce split: option.splits)
  then have p1: "placed {} ?\<sigma>" using p pv by (auto simp: placed_def start_machine_def split: if_splits)
  have l1: "live {} ?\<sigma>" using th by (intro live_put [OF l v]) (auto simp: start_machine_def idle_def)
  have pv1: "currChessBoard (start_machine ?v) \<noteq> None \<Longrightarrow>
      st = STATE_GAME_PLAY \<and> nextState (start_machine ?v) = Some STATE_GAME_PLAY"
    using pv st' by (auto simp: start_machine_def split: if_splits)
  have sv: "fst ?\<sigma> s = Some (start_machine ?v)" by simp
  have nb: "st = STATE_GAME_READY \<longrightarrow> currChessBoard (start_machine ?v) = None"
    using pv1 by (metis StateType.distinct(11))
  obtain \<sigma>' where t2: "tracked {} \<sigma>' w2" and c: "change s st r ?\<sigma> \<sigma>'"
    using State_MsgHandle_change [OF t1 sv nb 2] by blast
  have l2: "live {} \<sigma>'" using live_change [OF l1 c] th by (simp add: start_machine_def)
  have p2: "placed {s} \<sigma>'" using p1 c by (rule placed_change)
  obtain v2 where v2: "fst \<sigma>' s = Some v2" "thread v2 = thread u" "stateMachine v2 = Some st" "clifd v2 = clifd u" "bufev v2 = bufev u"
  proof -
    have f: "thread (start_machine ?v) = thread u" "clifd (start_machine ?v) = clifd u" "bufev (start_machine ?v) = bufev u"
      by (simp_all add: start_machine_def)
    show thesis using change_thread [OF c sv] st' unfolding f by (auto intro: that)
  qed
  have sn: "snd \<sigma>' = snd (shape w)" using c by (simp add: change_def)
  have "srv_inv {} (if r then {} else {s}) {} w' \<and> snd (shape w') = snd (shape w) \<and>
    (\<exists>v'. fst (shape w') s = Some v' \<and> clifd v' = clifd u \<and> thread v' = thread u \<and>
       (r \<longrightarrow> allowed (phase u) (phase v') \<and> stateMachine v' \<noteq> None) \<and> stateMachine v' \<noteq> None \<and> bufev v' = bufev u) \<and> others_kept s st (shape w) (shape w')"
  proof (cases r)
    case False
    then have "w' = w2" using r by simp
    then show ?thesis using False t2 l2 p2 sn v2 change_kept [OF c] by (simp add: srv_inv_def tracked_def)
  next
    case True
    then have 3: "upd_sess s do_transition w2 = Some w'" using r by (auto elim!: bind_SomeE)
    have t3: "tracked {} (put s (do_transition v2) \<sigma>') w'"
      by (rule postD [OF call_same_place 3, of _ \<sigma>']) (use t2 v2 in \<open>auto simp: do_transition_def ident_updates\<close>)
    have oc: "own_change st True (start_machine ?v) v2" using c True v2(1) by (simp add: change_def)
    have ph: "phase_ok (start_machine ?v)" using p1 sv unfolding placed_def by blast
    have "currChessBoard v2 \<noteq> None \<Longrightarrow> nextState v2 = Some STATE_GAME_PLAY"
      using oc st' pv1 by (rule own_change_playing)
    moreover have "nextState v2 \<noteq> None \<and> (nextState v2 \<noteq> None \<longrightarrow> allowed st (the (nextState v2)))"
      using oc st' ph by (auto simp: own_change_def phase_ok_def evicted_def split: StateType.splits)
    then obtain nx where nx: "nextState v2 = Some nx" "allowed st nx" by auto
    ultimately have "placed {} (put s (do_transition v2) \<sigma>')"
      using p2 v2(3) by (auto simp: placed_def do_transition_def phase_ok_def)
    moreover have "live {} (put s (do_transition v2) \<sigma>')"
      using v2 th by (intro live_put [OF l2 v2(1)]) (auto simp: do_transition_def idle_def)
    moreover have "allowed (phase u) (phase (do_transition v2)) \<and> stateMachine (do_transition v2) \<noteq> None"
      using nx v2(3) st' by (auto simp: phase_def do_transition_def start_machine_def split: if_splits option.splits)
    moreover have "others_kept s st (shape w) (shape w')"
      using change_kept [OF c] t3 by (simp add: tracked_def)
    ultimately show ?thesis using True t3 sn v2 by (auto simp: srv_inv_def tracked_def do_transition_def)
  qed
  moreover have "st = phase u" using st' by (auto simp: phase_def start_machine_def split: if_splits option.splits)
  ultimately show "srv_inv {} (if r then {} else {s}) {} w'" "snd (shape w') = snd (shape w)"
    "\<exists>u'. sess w' s = Some u' \<and> clifd u' = clifd u \<and> thread u' = thread u \<and>
       (r \<longrightarrow> allowed (phase u) (phase u') \<and> stateMachine u' \<noteq> None) \<and> stateMachine u' \<noteq> None \<and> bufev u' = bufev u"
    "others_kept s (phase u) (shape w) (shape w')"
    by (auto simp: phase_def)
qed

section \<open>Closing a connection\<close>

lemma seat_inv_frame [simp]:
  "seat_inv X (w\<lparr>closed_fds := x1\<rparr>) = seat_inv X w" "seat_inv X (w\<lparr>threadList := x2\<rparr>) = seat_inv X w"
  "seat_inv X (w\<lparr>sessionList := x3\<rparr>) = seat_inv X w" "seat_inv X (w\<lparr>lastSelectIndex := x4\<rparr>) = seat_inv X w"
  by (simp_all add: seat_inv_def boards_ok_def sits_at_def has_place_def)

lemma DestructResource_idle:
  assumes "seat_inv {} w" "sess w s = Some u" "clifd u \<noteq> -1 \<or> thread u = None"
    and "DestructResource E s w = Some w'"
  shows "\<exists>v'. seat_inv {} w' \<and> shape w' = put s v' (shape w) \<and> idle v'"
proof -
  obtain w1 u1 where 1: "leave_current_board E s w = Some w1" and u1: "sess w1 s = Some u1"
    and 2: "upd_sess s release_session (if clifd u1 \<noteq> -1 then w1\<lparr>closed_fds := clifd u1 # closed_fds w1\<rparr> else w1) = Some w'"
    using assms(4) by (auto simp: DestructResource_def Let_def elim!: bind_SomeE)
  let ?\<sigma> = "put s ((ident u)\<lparr>currChessBoard := None\<rparr>) (shape w)"
  have t1: "tracked {} ?\<sigma> w1"
    by (rule postD [OF call_leave_current_board 1, of "shape w"]) (use assms(1,2) in \<open>auto simp: tracked_self\<close>)
  then have iu: "ident u1 = (ident u)\<lparr>currChessBoard := None\<rparr>" using tracked_sess [OF t1 u1] by simp
  have u1f: "clifd u1 = clifd u" "thread u1 = thread u" "currChessBoard u1 = None"
    using arg_cong [OF iu, of clifd] arg_cong [OF iu, of thread] arg_cong [OF iu, of currChessBoard] by simp_all
  let ?w = "if clifd u1 \<noteq> -1 then w1\<lparr>closed_fds := clifd u1 # closed_fds w1\<rparr> else w1"
  have t2: "tracked {} ?\<sigma> ?w" using t1 by (auto simp: tracked_def shape_def)
  have "tracked {} (put s (ident (release_session u1)) ?\<sigma>) w'"
  proof (rule postD [OF call_same_place [OF t2] 2])
    fix u2 assume "sess ?w s = Some u2"
    then have "u2 = u1" using u1 by (auto split: if_splits)
    then show "currChessBoard (release_session u2) = currChessBoard u2 \<and>
        (locate (release_session u2) = locate u2 \<or> currChessBoard u2 = None)"
      using u1f by (simp add: release_session_def Let_def)
  next
    fix u2 w'' assume "sess ?w s = Some u2" and t: "tracked {} (put s (ident (release_session u2)) ?\<sigma>) w''"
    then have "u2 = u1" using u1 by (auto split: if_splits)
    with t show "tracked {} (put s (ident (release_session u1)) ?\<sigma>) w''" by simp
  qed
  moreover have "idle (ident (release_session u1))"
    using u1f assms(3) by (auto simp: idle_def release_session_def Let_def)
  ultimately show ?thesis by (auto simp: tracked_def)
qed

lemma put_snd: "snd (put s v \<sigma>) = snd \<sigma>" by simp

lemma fds_ok_sub:
  assumes "fds_ok th" "sm_ok m" "fst ` set m \<subseteq> fst ` set (fdSessionMap th)"
  shows "fds_ok (th\<lparr>fdSessionMap := m\<rparr>)"
proof -
  have "\<forall>fd \<in> fst ` set m. 0 \<le> fd"
    using assms(1,3) unfolding fds_ok_def by (metis UnCI subsetD)
  moreover have "fst ` set m \<inter> pipe_fd ` set (notify_pipe th) = {}"
    using assms(1,3) unfolding fds_ok_def by blast
  ultimately show ?thesis using assms(1,2) by (simp add: fds_ok_def ball_Un)
qed

text \<open>Putting a session aside, and giving it to the pool.\<close>

lemma live_aside:
  assumes "live_in {} g th pool nxt" "sm_find fd (fdSessionMap th) = Some s"
  shows "live_in {s} g (th\<lparr>fdSessionMap := sm_erase fd (fdSessionMap th)\<rparr>) pool nxt"
proof -
  have ok: "sm_ok (fdSessionMap th)" using assms(1) by (simp add: live_in_def fds_ok_def)
  obtain v where v: "g s = Some v" "clifd v = fd" "thread v = Some 0"
    using assms by (auto simp: live_in_def)
  have "fds_ok (th\<lparr>fdSessionMap := sm_erase fd (fdSessionMap th)\<rparr>)"
    using assms(1) by (intro fds_ok_sub sm_ok_erase ok image_mono set_sm_erase) (simp add: live_in_def)
  then show ?thesis
  proof (rule live_inI)
    show "distinct pool" using assms(1) by (rule live_in_fds)
  next
    fix fd' s' assume "sm_find fd' (fdSessionMap (th\<lparr>fdSessionMap := sm_erase fd (fdSessionMap th)\<rparr>)) = Some s'"
    then have f: "fd' \<noteq> fd" "sm_find fd' (fdSessionMap th) = Some s'"
      by (simp_all add: sm_find_erase [OF ok] split: if_splits)
    then show "s' \<notin> {s} \<and> (\<exists>v. g s' = Some v \<and> clifd v = fd' \<and> thread v = Some 0)"
      using live_in_conn [OF assms(1) f(2)] v by auto
  next
    fix s' assume "s' \<in> set pool"
    then show "s' \<notin> {s} \<and> (\<exists>v. g s' = Some v \<and> idle v)"
      using live_in_pool [OF assms(1), of s'] v by (auto simp: idle_def)
  next
    fix s' v' assume v': "g s' = Some v'"
    have "sm_find (clifd v') (fdSessionMap th) = Some s' \<Longrightarrow> s' \<noteq> s \<Longrightarrow> clifd v' \<noteq> fd"
      using assms(2) by auto
    then show "s' < nxt \<and> (s' \<in> {s} \<or> s' \<in> set pool \<or>
        sm_find (clifd v') (fdSessionMap (th\<lparr>fdSessionMap := sm_erase fd (fdSessionMap th)\<rparr>)) = Some s')"
      using live_in_all [OF assms(1) v'] by (auto simp: sm_find_erase [OF ok])
  qed
qed

lemma live_pool:
  assumes "live_in {s} g th pool nxt" "g s = Some v0" "idle v"
  shows "live_in {} (g(s \<mapsto> v)) th (s # pool) nxt"
proof (rule live_inI)
  show "fds_ok th" using assms(1) by (rule live_in_fds)
  show "distinct (s # pool)" using live_in_fds(2) [OF assms(1)] live_in_pool [OF assms(1), of s] by auto
next
  fix fd s' assume "sm_find fd (fdSessionMap th) = Some s'"
  then show "s' \<notin> {} \<and> (\<exists>va. (g(s \<mapsto> v)) s' = Some va \<and> clifd va = fd \<and> thread va = Some 0)"
    using live_in_conn [OF assms(1)] by auto
next
  fix s' assume "s' \<in> set (s # pool)"
  then show "s' \<notin> {} \<and> (\<exists>va. (g(s \<mapsto> v)) s' = Some va \<and> idle va)"
    using live_in_pool [OF assms(1)] assms(3) by (cases "s' = s") auto
next
  fix s' v' assume "(g(s \<mapsto> v)) s' = Some v'"
  then show "s' < nxt \<and> (s' \<in> {} \<or> s' \<in> set (s # pool) \<or> sm_find (clifd v') (fdSessionMap th) = Some s')"
    using live_in_all [OF assms(1)] assms(2) by (cases "s' = s") auto
qed

lemma placed_put:
  "placed Y \<sigma> \<Longrightarrow> Y \<subseteq> {s} \<Longrightarrow> idle v \<Longrightarrow> placed {} (put s v \<sigma>)"
  using phase_ok_idle [of v] unfolding placed_def idle_def by (auto split: if_splits)

lemma placed_fst: "fst \<sigma> = fst \<sigma>' \<Longrightarrow> placed Y \<sigma> = placed Y \<sigma>'"
  by (simp add: placed_def)

section \<open>Destroying pooled sessions\<close>

lemma live_drop:
  assumes "live_in {} g th pool nxt" "pool \<noteq> []"
  shows "live_in {} (g(last pool := None)) th (butlast pool) nxt"
proof -
  have d: "distinct (butlast pool @ [last pool])" using assms by (simp add: live_in_def)
  have m: "set pool = insert (last pool) (set (butlast pool))"
    using append_butlast_last_id [OF assms(2)] by (metis list.set(1) list.set(2) set_append Un_insert_right Un_empty_right)
  obtain v where v: "g (last pool) = Some v" "idle v"
    using live_in_pool [OF assms(1) last_in_set [OF assms(2)]] by blast
  have n: "sm_find fd (fdSessionMap th) \<noteq> Some (last pool)" for fd
    using live_in_conn [OF assms(1), of fd "last pool"] v by (auto simp: idle_def)
  show ?thesis
  proof (rule live_inI)
    show "fds_ok th" using assms(1) by (rule live_in_fds)
    show "distinct (butlast pool)" using d by simp
  next
    fix fd s assume s: "sm_find fd (fdSessionMap th) = Some s"
    then have "s \<noteq> last pool" using n [of fd] by auto
    then show "s \<notin> {} \<and> (\<exists>v. (g(last pool := None)) s = Some v \<and> clifd v = fd \<and> thread v = Some 0)"
      using live_in_conn [OF assms(1) s] by simp
  next
    fix s assume s: "s \<in> set (butlast pool)"
    then have "s \<noteq> last pool" using d by auto
    then show "s \<notin> {} \<and> (\<exists>v. (g(last pool := None)) s = Some v \<and> idle v)"
      using live_in_pool [OF assms(1) in_set_butlastD [OF s]] by simp
  next
    fix s v assume "(g(last pool := None)) s = Some v"
    then have s: "s \<noteq> last pool" "g s = Some v" by (auto split: if_splits)
    then show "s < nxt \<and> (s \<in> {} \<or> s \<in> set (butlast pool) \<or> sm_find (clifd v) (fdSessionMap th) = Some s)"
      using live_in_all [OF assms(1) s(2)] m by auto
  qed
qed

end
