(* ===== verification/Reach.thy ===== *)
theory Reach
  imports Lifetime
begin

text \<open>
  The invariant of the running server: every callback keeps it, so it holds in every state
  the server can reach. The seats, the session table, the pool and the descriptors are
  always consistent, whatever the clients send and in whatever order connections come,
  fail and time out.
\<close>

definition world_ok :: "world \<Rightarrow> bool" where
  "world_ok w \<longleftrightarrow> srv_inv {} {} {} w \<and> length (sessionList w) < 2 * connectionMaxStep"

lemma fst_shape: "fst (shape w) = (\<lambda>s. map_option ident (sess w s))"
  by (simp add: shape_def)

lemma shape_eqI:
  "fst \<sigma> = fst (shape w) \<Longrightarrow> snd \<sigma> = (threadList w, sessionList w, sess_next w) \<Longrightarrow> shape w = \<sigma>"
  by (cases \<sigma>) (simp add: shape_def)

lemma idle_ident [simp]: "idle (ident u) = idle u"
  by (simp add: idle_def)

section \<open>The pool\<close>

lemma delete_session_inv:
  assumes "seat_inv {} w" "sess w s = Some u" "idle u" "delete_session E s w = Some w'"
  shows "seat_inv {} w' \<and> shape w' = ((fst (shape w))(s := None), snd (shape w))"
proof -
  obtain w1 w2 where 1: "DestructResource E s w = Some w1"
    and 2: "upd_sess s (\<lambda>u. if buffer u then u\<lparr>buffer := False, buf_size := 0\<rparr> else u) w1 = Some w2"
    and w': "w' = w2\<lparr>sess := (sess w2)(s := None)\<rparr>"
    using assms(4) by (auto simp: delete_session_def elim!: bind_SomeE)
  obtain v' where i1: "seat_inv {} w1" and s1: "shape w1 = put s v' (shape w)" and v': "idle v'"
    using DestructResource_idle [OF assms(1,2) _ 1] assms(3) by (auto simp: idle_def)
  have t2: "tracked {} (put s v' (shape w1)) w2"
    by (rule postD [OF call_same_place [OF tracked_self [OF i1]] 2]) (use s1 in \<open>auto split: if_splits\<close>)
  obtain u2 where u2: "sess w2 s = Some u2" using 2 by (auto simp: upd_sess_def split: option.splits)
  have "fst (shape w2) s = Some v'" using t2 by (simp add: tracked_def del: shape_sel)
  then have "currChessBoard u2 = None" using u2 v' by (auto simp: idle_def)
  then have "has_place w' s' b l = has_place w2 s' b l" for s' b l
    using u2 by (auto simp: has_place_def w')
  then have "seat_inv {} w'"
    using t2 by (simp add: tracked_def seat_inv_def w' boards_ok_def sits_at_def)
  moreover have "shape w' = ((fst (shape w2))(s := None), snd (shape w2))"
    by (auto simp: shape_def w' fun_eq_iff)
  ultimately show ?thesis using t2 s1 by (simp add: tracked_def put_def)
qed

lemma placed_none: "placed Y \<sigma> \<Longrightarrow> placed Y ((fst \<sigma>)(s := None), r)"
  by (auto simp: placed_def split: if_splits)

lemma destroy_back_inv:
  assumes "srv_inv {} {} {} w" "destroy_back E n w = Some w'"
  shows "srv_inv {} {} {} w' \<and> length (sessionList w') + n = length (sessionList w) \<and> threadList w' = threadList w"
  using assms
proof (induction n arbitrary: w)
  case 0
  then show ?case by simp
next
  case (Suc n)
  have i: "seat_inv {} w" "placed {} (shape w)" "live {} (shape w)"
    using Suc.prems(1) by (simp_all add: srv_inv_def)
  obtain th where T: "threadList w = [th]"
    and l: "live_in {} (fst (shape w)) th (sessionList w) (sess_next w)"
    using i(3) by (auto simp: live_def)
  have ne: "sessionList w \<noteq> []" using Suc.prems(2) by auto
  let ?s = "last (sessionList w)"
  obtain w1 where 1: "delete_session E ?s w = Some w1"
    and 2: "destroy_back E n (w1\<lparr>sessionList := butlast (sessionList w1)\<rparr>) = Some w'"
    using Suc.prems(2) ne by (auto elim!: bind_SomeE)
  obtain u where u: "sess w ?s = Some u" "idle u"
    using live_in_pool [OF l last_in_set [OF ne]] by auto
  have d: "seat_inv {} w1" and s1: "shape w1 = ((fst (shape w))(?s := None), snd (shape w))"
    using delete_session_inv [OF i(1) u 1] by simp_all
  then have f: "sessionList w1 = sessionList w" "threadList w1 = threadList w" "sess_next w1 = sess_next w"
    by (simp_all add: shape_def)
  let ?w = "w1\<lparr>sessionList := butlast (sessionList w1)\<rparr>"
  have "shape ?w = ((fst (shape w))(?s := None), [th], butlast (sessionList w), sess_next w)"
    using s1 f T by (simp add: shape_def)
  then have "srv_inv {} {} {} ?w"
    using d live_drop [OF l ne] placed_none [OF i(2)] by (simp add: srv_inv_def live_def del: shape_sel)
  from Suc.IH [OF this 2] ne f show ?case by (cases "sessionList w" rule: rev_cases) auto
qed

lemma DestrorySessionsFromPool_inv:
  assumes "srv_inv {} {} {} w" "DestrorySessionsFromPool E n False w = Some w'"
  shows "srv_inv {} {} {} w' \<and> length (sessionList w') = length (sessionList w) - n \<and> threadList w' = threadList w"
  using assms destroy_back_inv [OF assms(1), of E "min (length (sessionList w)) n" w']
  by (auto simp: DestrorySessionsFromPool_def split: if_splits)

lemma RecycleSession_inv:
  assumes i: "srv_inv {} Y {s} w" and Y: "Y \<subseteq> {s}" and u: "sess w s = Some u" "clifd u \<noteq> -1 \<or> thread u = None"
    and n: "length (sessionList w) < 2 * connectionMaxStep" and r: "RecycleSession E s w = Some w'"
  shows "world_ok w' \<and> threadList w' = threadList w"
proof -
  obtain w1 where 1: "DestructResource E s w = Some w1"
    and 2: "(let w = w1\<lparr>sessionList := s # sessionList w1\<rparr> in
        if length (sessionList w) \<ge> 2 * connectionMaxStep
        then DestrorySessionsFromPool E connectionMaxStep False w else Some w) = Some w'"
    using r by (auto simp: RecycleSession_def elim!: bind_SomeE)
  obtain th where T: "threadList w = [th]"
    and l: "live_in {s} (fst (shape w)) th (sessionList w) (sess_next w)"
    using i by (auto simp: srv_inv_def live_def)
  obtain v' where i1: "seat_inv {} w1" and s1: "shape w1 = put s v' (shape w)" and v': "idle v'"
    using DestructResource_idle [OF _ u 1] i by (auto simp: srv_inv_def)
  have f: "sessionList w1 = sessionList w" "threadList w1 = threadList w" "sess_next w1 = sess_next w"
    using s1 by (simp_all add: shape_def put_def)
  let ?w = "w1\<lparr>sessionList := s # sessionList w1\<rparr>"
  have s2: "shape ?w = ((fst (shape w))(s \<mapsto> v'), [th], s # sessionList w, sess_next w)"
    using s1 f T by (simp add: shape_def put_def)
  have "placed {} (shape ?w)"
    using placed_put [OF _ Y v', of "shape w"] i placed_fst [of "shape ?w" "put s v' (shape w)"] s2
    by (simp add: srv_inv_def put_def del: shape_sel)
  moreover have "live {} (shape ?w)"
    using live_pool [OF l _ v'] u(1) unfolding s2 by (simp add: live_def)
  ultimately have i2: "srv_inv {} {} {} ?w" using i1 by (simp add: srv_inv_def)
  show ?thesis
  proof (cases "length (sessionList ?w) \<ge> 2 * connectionMaxStep")
    case True
    then have "DestrorySessionsFromPool E connectionMaxStep False ?w = Some w'" using 2 by (simp add: Let_def)
    from DestrorySessionsFromPool_inv [OF i2 this] n f show ?thesis
      by (simp add: world_ok_def connectionMaxStep_def)
  next
    case False
    then show ?thesis using 2 i2 f by (auto simp: Let_def world_ok_def)
  qed
qed

section \<open>Closing, and the callbacks of a connection\<close>

lemma threads_one:
  assumes "srv_inv X Y Z w"
  obtains th where "threadList w = [th]" "live_in Z (fst (shape w)) th (sessionList w) (sess_next w)"
  using assms by (auto simp: srv_inv_def live_def)

lemma ClosingClientCon_inv:
  assumes i: "srv_inv {} Y {} w" and n: "length (sessionList w) < 2 * connectionMaxStep"
    and Y: "\<And>s. sm_find fd (fdSessionMap (threadList w ! t)) = Some s \<Longrightarrow> Y \<subseteq> {s}"
    and none: "sm_find fd (fdSessionMap (threadList w ! t)) = None \<Longrightarrow> Y = {}"
    and r: "ClosingClientCon E t fd w = Some (ok, w')"
  shows "world_ok w'"
proof -
  obtain th where T: "threadList w = [th]" and l: "live_in {} (fst (shape w)) th (sessionList w) (sess_next w)"
    using i by (rule threads_one)
  have t: "t = 0" using r T by (auto simp: ClosingClientCon_def the_thread_def split: if_splits)
  show ?thesis
  proof (cases "sm_find fd (fdSessionMap th)")
    case None
    then show ?thesis using r T t i n none by (simp add: ClosingClientCon_def the_thread_def world_ok_def)
  next
    case (Some s)
    let ?th = "th\<lparr>fdSessionMap := sm_erase fd (fdSessionMap th)\<rparr>"
    let ?w = "w\<lparr>threadList := [?th]\<rparr>"
    have rec: "RecycleSession E s ?w = Some w'"
      using r T t Some by (auto simp: ClosingClientCon_def the_thread_def upd_thread_def elim!: bind_SomeE)
    obtain u where u: "sess w s = Some u" "thread u = Some 0" "clifd u = fd"
      using live_in_conn [OF l Some] by auto
    have fd: "0 \<le> fd" using live_in_nonneg [OF l Some] .
    have sh: "shape ?w = (fst (shape w), [?th], sessionList w, sess_next w)" by (simp add: shape_def)
    have "srv_inv {} Y {s} ?w"
      using i live_aside [OF l Some] unfolding srv_inv_def sh by (simp add: live_def placed_def del: shape_sel)
    then show ?thesis
      using RecycleSession_inv [OF _ _ _ _ _ rec, of Y u] Y Some T t u n fd by simp
  qed
qed

lemma world_okD: "world_ok w \<Longrightarrow> srv_inv {} {} {} w" "world_ok w \<Longrightarrow> length (sessionList w) < 2 * connectionMaxStep"
  by (simp_all add: world_ok_def)

lemma close_world_ok: "world_ok w \<Longrightarrow> ClosingClientCon E t fd w = Some (ok, w') \<Longrightarrow> world_ok w'"
  by (rule ClosingClientCon_inv [of "{}"]) (auto simp: world_ok_def)

lemma world_ok_upd_sess:
  assumes "world_ok w" "upd_sess s f w = Some w'" "\<And>u. ident (f u) = ident u"
  shows "world_ok w'"
proof -
  obtain u where u: "sess w s = Some u" and w': "w' = w\<lparr>sess := (sess w)(s \<mapsto> f u)\<rparr>"
    using sess_upd [OF assms(2)] by blast
  have k: "keeps w w'" using assms(1,3) u by (auto simp: keeps_def w' world_ok_def srv_inv_def seat_inv_halls)
  show ?thesis
    using assms(1) keeps_seat_inv [OF k] keeps_shape [OF k] by (simp add: world_ok_def srv_inv_def w')
qed

lemma WorkThread_MessageHandle_ok:
  assumes i: "world_ok w" and r: "WorkThread_MessageHandle E t fd ty msg w = Some (ok, w')"
  shows "world_ok w'"
proof -
  obtain th where T: "threadList w = [th]" and l: "live_in {} (fst (shape w)) th (sessionList w) (sess_next w)"
    using world_okD(1) [OF i] by (rule threads_one)
  have t: "t = 0" using r T by (auto simp: WorkThread_MessageHandle_def the_thread_def split: if_splits)
  show ?thesis
  proof (cases "sm_find fd (fdSessionMap th)")
    case None
    then show ?thesis using r T t i by (simp add: WorkThread_MessageHandle_def the_thread_def)
  next
    case (Some s)
    obtain u where u: "sess w s = Some u" "thread u = Some 0"
      using live_in_conn [OF l Some] by auto
    obtain b w1 where 1: "UserSession_MessageHandle E s ty msg w = Some (b, w1)"
      and 2: "(if \<not> b then do { (_, w) \<leftarrow> ClosingClientCon E t fd w1; Some (False, w) }
               else do { w \<leftarrow> ResetTimer s w1; Some (True, w) }) = Some (ok, w')"
      using r T t Some by (auto simp: WorkThread_MessageHandle_def the_thread_def elim!: bind_SomeE)
    note m = session_message [OF world_okD(1) [OF i] u(1) _ 1]
    have f: "threadList w1 = [th]" "sessionList w1 = sessionList w" using m(2) u T by (simp_all add: shape_def)
    show ?thesis
    proof (cases b)
      case False
      then obtain ok' where "ClosingClientCon E t fd w1 = Some (ok', w')" using 2 by (auto elim!: bind_SomeE)
      then show ?thesis
        using ClosingClientCon_inv [of "{s}" w1 fd t] m(1) u False f Some t world_okD(2) [OF i] by auto
    next
      case True
      then have tm: "upd_sess s (\<lambda>u. u\<lparr>timer_on := True\<rparr>) w1 = Some w'" using 2 by (auto simp: ResetTimer_def elim!: bind_SomeE)
      have "world_ok w1" using m(1) u True f world_okD(2) [OF i] by (simp add: world_ok_def)
      then show ?thesis using tm by (rule world_ok_upd_sess) simp
    qed
  qed
qed

lemma OnReadCb_ok:
  assumes i: "world_ok w" and r: "OnReadCb E s w = Some w'"
  shows "world_ok w'"
proof -
  obtain u t where u: "sess w s = Some u" "thread u = Some t" using r by (auto simp: OnReadCb_def elim!: bind_SomeE)
  show ?thesis
  proof (cases "read_head (length (inbuf u)) u")
    case None
    then obtain w1 ok where 1: "upd_sess s (\<lambda>u. u\<lparr>buf_info := (buf_info u)\<lparr>total_size := get_le32 0 (inbuf u),
                msg_type := get_le32 4 (inbuf u)\<rparr>\<rparr>) w = Some w1" and 2: "ClosingClientCon E t (clifd u) w1 = Some (ok, w')"
      using r u by (auto simp: OnReadCb_def Let_def elim!: bind_SomeE)
    from i 1 have "world_ok w1" by (rule world_ok_upd_sess) simp
    then show ?thesis using 2 by (rule close_world_ok)
  next
    case (Some u')
    have iu: "ident u' = ident u" using Some by (auto simp: read_head_def Let_def split: if_splits)
    let ?n = "unat (total_size (buf_info u'))"
    obtain w1 where 1: "upd_sess s (\<lambda>_. u') w = Some w1"
      and 2: "(if length (inbuf u) = ?n \<and> got_head (buf_info u') then
           if ?n < DATA_HEAD_LENGTH then None
           else do {
             w \<leftarrow> upd_sess s (\<lambda>u. (GetBuffer ?n u)\<lparr>inbuf := drop ?n (inbuf u)\<rparr>) w1;
             (ok, w) \<leftarrow> WorkThread_MessageHandle E t (clifd u') (msg_type (buf_info u'))
                          (drop DATA_HEAD_LENGTH (take ?n (inbuf u'))) w;
             if ok then upd_sess s (\<lambda>u. u\<lparr>buf_info := ReadBufInfo_Reset\<rparr>) w else Some w }
         else Some w1) = Some w'"
      using r u Some by (auto simp: OnReadCb_def Let_def elim!: bind_SomeE)
    have w1: "world_ok w1"
    proof -
      have "upd_sess s (\<lambda>v. if v = u then u' else v) w = Some w1" using 1 u by (simp add: upd_sess_def)
      with i show ?thesis by (rule world_ok_upd_sess) (use iu in auto)
    qed
    show ?thesis
    proof (cases "length (inbuf u) = ?n \<and> got_head (buf_info u')")
      case False
      then show ?thesis using 2 w1 by auto
    next
      case True
      then obtain w2 ok w3 where 3: "upd_sess s (\<lambda>u. (GetBuffer ?n u)\<lparr>inbuf := drop ?n (inbuf u)\<rparr>) w1 = Some w2"
        and 4: "WorkThread_MessageHandle E t (clifd u') (msg_type (buf_info u'))
                          (drop DATA_HEAD_LENGTH (take ?n (inbuf u'))) w2 = Some (ok, w3)"
        and 5: "(if ok then upd_sess s (\<lambda>u. u\<lparr>buf_info := ReadBufInfo_Reset\<rparr>) w3 else Some w3) = Some w'"
        using 2 by (auto elim!: bind_SomeE split: if_splits)
      have "world_ok w2" using w1 3 by (rule world_ok_upd_sess) simp
      then have "world_ok w3" using 4 by (rule WorkThread_MessageHandle_ok)
      then show ?thesis using 5 by (cases ok) (auto elim: world_ok_upd_sess)
    qed
  qed
qed

lemma OnEventCb_ok:
  assumes i: "world_ok w" and r: "OnEventCb E s ev w = Some w'"
  shows "world_ok w'"
  using r i close_world_ok by (auto simp: OnEventCb_def split: if_splits elim!: bind_SomeE)

lemma TimerOutHandle_ok:
  assumes i: "world_ok w" and r: "TimerOutHandle E s w = Some w'"
  shows "world_ok w'"
proof -
  obtain w1 t ok and u :: UserSession where 1: "upd_sess s (\<lambda>u. u\<lparr>timer_on := False\<rparr>) w = Some w1"
    and 2: "ClosingClientCon E t (clifd u) w1 = Some (ok, w')"
    using r by (auto simp: TimerOutHandle_def elim!: bind_SomeE)
  from i 1 have "world_ok w1" by (rule world_ok_upd_sess) simp
  then show ?thesis using 2 by (rule close_world_ok)
qed

section \<open>New connections\<close>

lemma alloc_session_inv:
  assumes "srv_inv {} {} {} w"
  shows "srv_inv {} {} {} (alloc_session w)"
proof -
  obtain th where T: "threadList w = [th]" and l: "live_in {} (fst (shape w)) th (sessionList w) (sess_next w)"
    using assms by (rule threads_one)
  let ?n = "sess_next w" and ?w = "alloc_session w"
  have new: "sess w ?n = None" using live_in_all [OF l, of ?n] by (cases "sess w ?n") auto
  have id: "idle (ident UserSession_new)" by (simp add: idle_def UserSession_new_def)
  have "has_place ?w s b l = has_place w s b l" for s b l
    using new by (auto simp: has_place_def alloc_session_def UserSession_new_def)
  then have "seat_inv {} ?w"
    using assms halls_ok_cong [of ?w w]
    by (simp add: srv_inv_def seat_inv_def boards_ok_def sits_at_def alloc_session_def)
  moreover have sh: "shape ?w = ((fst (shape w))(?n \<mapsto> ident UserSession_new), [th], sessionList w @ [?n], ?n + 1)"
    using T by (auto simp: shape_def alloc_session_def fun_eq_iff)
  moreover have "placed {} (shape ?w)"
    using assms id phase_ok_idle [OF id] unfolding sh by (auto simp: srv_inv_def placed_def idle_def)
  moreover have "live_in {} ((fst (shape w))(?n \<mapsto> ident UserSession_new)) th (sessionList w @ [?n]) (?n + 1)"
  proof (rule live_inI)
    show "fds_ok th" using l by (rule live_in_fds)
    show "distinct (sessionList w @ [?n])"
      using live_in_fds(2) [OF l] live_in_pool [OF l, of ?n] new by auto
  next
    fix fd s assume "sm_find fd (fdSessionMap th) = Some s"
    then show "s \<notin> {} \<and> (\<exists>v. ((fst (shape w))(?n \<mapsto> ident UserSession_new)) s = Some v \<and> clifd v = fd \<and> thread v = Some 0)"
      using live_in_conn [OF l, of fd s] new by auto
  next
    fix s assume "s \<in> set (sessionList w @ [?n])"
    then show "s \<notin> {} \<and> (\<exists>v. ((fst (shape w))(?n \<mapsto> ident UserSession_new)) s = Some v \<and> idle v)"
      using live_in_pool [OF l, of s] id by (cases "s = ?n") auto
  next
    fix s v assume "((fst (shape w))(?n \<mapsto> ident UserSession_new)) s = Some v"
    then show "s < ?n + 1 \<and> (s \<in> {} \<or> s \<in> set (sessionList w @ [?n]) \<or> sm_find (clifd v) (fdSessionMap th) = Some s)"
      using live_in_all [OF l, of s v] by (cases "s = ?n") (auto simp del: shape_sel)
  qed
  ultimately show ?thesis by (simp add: srv_inv_def live_def)
qed

lemma CreatSessionsPool_inv:
  "srv_inv {} {} {} w \<Longrightarrow> srv_inv {} {} {} (CreatSessionsPool n w) \<and>
     length (sessionList (CreatSessionsPool n w)) = length (sessionList w) + n \<and>
     threadList (CreatSessionsPool n w) = threadList w"
proof (induction n arbitrary: w)
  case (Suc n)
  then show ?case using alloc_session_inv [of w] by (auto simp: alloc_session_def)
qed simp

lemma GetOneSessionFromPool_total:
  "srv_inv {} {} {} w \<Longrightarrow> \<exists>s w'. GetOneSessionFromPool w = Some (s, w')"
  using CreatSessionsPool_inv [of w connectionMaxStep]
  by (auto simp: GetOneSessionFromPool_def Let_def connectionMaxStep_def simp del: CreatSessionsPool.simps
      split: list.split)

lemma GetOneSessionFromPool_inv:
  assumes i: "srv_inv {} {} {} w" and n: "length (sessionList w) < 2 * connectionMaxStep"
    and r: "GetOneSessionFromPool w = Some (s, w')"
  shows "srv_inv {} {} {s} w' \<and> length (sessionList w') < 2 * connectionMaxStep \<and> threadList w' = threadList w \<and>
    (\<exists>u. sess w' s = Some u \<and> idle u)"
proof -
  define w1 where "w1 = (if sessionList w = [] then CreatSessionsPool connectionMaxStep w else w)"
  have i1: "srv_inv {} {} {} w1" "length (sessionList w1) < 2 * connectionMaxStep" "threadList w1 = threadList w"
    using CreatSessionsPool_inv [OF i, of connectionMaxStep] i n by (auto simp: w1_def connectionMaxStep_def)
  obtain rest where p: "sessionList w1 = s # rest" and w': "w' = w1\<lparr>sessionList := rest\<rparr>"
    using r by (auto simp: GetOneSessionFromPool_def w1_def Let_def split: list.splits)
  obtain th where T: "threadList w1 = [th]" and l: "live_in {} (fst (shape w1)) th (s # rest) (sess_next w1)"
    using i1(1) p by (metis threads_one)
  have d: "s \<notin> set rest" using live_in_fds(2) [OF l] by simp
  obtain u where u: "sess w1 s = Some u" "idle u" using live_in_pool [OF l, of s] by auto
  have "live_in {s} (fst (shape w1)) th rest (sess_next w1)"
  proof (rule live_inI)
    show "fds_ok th" using l by (rule live_in_fds)
    show "distinct rest" using live_in_fds(2) [OF l] by simp
  next
    fix fd s' assume "sm_find fd (fdSessionMap th) = Some s'"
    then show "s' \<notin> {s} \<and> (\<exists>v. fst (shape w1) s' = Some v \<and> clifd v = fd \<and> thread v = Some 0)"
      using live_in_conn [OF l, of fd s'] u by (auto simp: idle_def)
  next
    fix s' assume "s' \<in> set rest"
    then show "s' \<notin> {s} \<and> (\<exists>v. fst (shape w1) s' = Some v \<and> idle v)"
      using live_in_pool [OF l, of s'] d by auto
  next
    fix s' v assume "fst (shape w1) s' = Some v"
    then show "s' < sess_next w1 \<and> (s' \<in> {s} \<or> s' \<in> set rest \<or> sm_find (clifd v) (fdSessionMap th) = Some s')"
      using live_in_all [OF l, of s' v] by auto
  qed
  moreover have "shape w' = (fst (shape w1), [th], rest, sess_next w1)" using T by (simp add: shape_def w')
  ultimately have "srv_inv {} {} {s} w'"
    using i1(1) by (simp add: srv_inv_def live_def placed_def w' del: shape_sel)
  then show ?thesis using i1 p u by (simp add: w')
qed

lemma srv_inv_pipe:
  assumes "srv_inv X Y Z w" "threadList w = [th]" "fds_ok th'" "fdSessionMap th' = fdSessionMap th"
    and w': "w' = w\<lparr>threadList := [th'], lastSelectIndex := i\<rparr>"
  shows "srv_inv X Y Z w'"
proof -
  have l: "live_in Z (fst (shape w)) th (sessionList w) (sess_next w)"
    using assms(1,2) by (auto simp: srv_inv_def live_def)
  have "live_in Z (fst (shape w)) th' (sessionList w) (sess_next w)"
    using l assms(3,4) by (simp add: live_in_def)
  moreover have "shape w' = (fst (shape w), [th'], sessionList w, sess_next w)" by (simp add: shape_def w')
  ultimately show ?thesis
    using assms(1) by (simp add: srv_inv_def live_def placed_def w' del: shape_sel)
qed

lemma AcceptHandler_ok:
  assumes i: "world_ok w" and fd: "fd \<notin> open_fds w" and r: "AcceptHandler fd w = Some w'"
  shows "world_ok w'"
proof (cases "fd < 0")
  case True
  then show ?thesis using r i by (simp add: AcceptHandler_def)
next
  case False
  obtain th where T: "threadList w = [th]" and l: "live_in {} (fst (shape w)) th (sessionList w) (sess_next w)"
    using world_okD(1) [OF i] by (rule threads_one)
  let ?th = "th\<lparr>notify_pipe := notify_pipe th @ [\<lparr>command = COMMAND_NOTIFY_ADD_EVENT, pipe_fd = fd\<rparr>]\<rparr>"
  have z: "unat (lastSelectIndex w) = 0"
    using r T False by (auto simp: AcceptHandler_def GetOneThread_def Let_def split: if_splits)
  have w': "w' = w\<lparr>threadList := [?th], lastSelectIndex := 0\<rparr>"
    using r T False z by (auto simp: AcceptHandler_def GetOneThread_def Let_def NotifyThread_def upd_thread_def split: if_splits)
  have "fd \<notin> fst ` set (fdSessionMap th)" "fd \<notin> pipe_fd ` set (notify_pipe th)"
    using fd T by (auto simp: open_fds_def)
  then have "fds_ok ?th" using live_in_fds(1) [OF l] False by (auto simp: fds_ok_def)
  then show ?thesis
    using srv_inv_pipe [OF world_okD(1) [OF i] T _ _ w'] world_okD(2) [OF i] by (simp add: world_ok_def w')
qed

lemma add_session_ok:
  assumes i: "srv_inv {} {} {s} w" and n: "length (sessionList w) < 2 * connectionMaxStep"
    and T: "threadList w = [th]" and u: "sess w s = Some u" "idle u"
    and fd: "0 \<le> fd" "fd \<notin> fst ` set (fdSessionMap th)" "fd \<notin> pipe_fd ` set (notify_pipe th)"
    and r: "add_session E 0 fd s w = Some w'"
  shows "world_ok w'"
proof -
  let ?v = "u\<lparr>clifd := fd, thread := Some 0, timer_on := True, bufev := bufferevent_ok E fd, inbuf := []\<rparr>"
  let ?th = "th\<lparr>fdSessionMap := sm_insert fd s (fdSessionMap th)\<rparr>"
  have w': "w' = w\<lparr>sess := (sess w)(s \<mapsto> ?v), threadList := [?th]\<rparr>"
    using r T u by (auto simp: add_session_def upd_sess_def upd_thread_def)
  have l: "live_in {s} (fst (shape w)) th (sessionList w) (sess_next w)"
    using i T by (auto simp: srv_inv_def live_def)
  have f: "fds_ok th" using l by (rule live_in_fds)
  then have ok: "sm_ok (fdSessionMap th)" by (simp add: fds_ok_def)
  have none: "sm_find fd (fdSessionMap th) = None" using fd by (simp add: sm_find_None)
  have find: "sm_find k (sm_insert fd s (fdSessionMap th)) = (if k = fd then Some s else sm_find k (fdSessionMap th))" for k
    using none by (simp add: sm_find_insert [OF ok])
  have fth: "fds_ok ?th"
    using f fd keys_sm_insert [of fd s "fdSessionMap th"] sm_ok_insert [OF ok, of fd s]
    by (auto simp: fds_ok_def ball_Un)
  have sh: "shape w' = ((fst (shape w))(s \<mapsto> ident ?v), [?th], sessionList w, sess_next w)"
    by (auto simp: shape_def w' fun_eq_iff)
  have li: "live_in {} ((fst (shape w))(s \<mapsto> ident ?v)) ?th (sessionList w) (sess_next w)"
  proof (rule live_inI)
    show "fds_ok ?th" by (rule fth)
    show "distinct (sessionList w)" using l by (rule live_in_fds)
  next
    fix k s' assume "sm_find k (fdSessionMap ?th) = Some s'"
    then show "s' \<notin> {} \<and> (\<exists>v. ((fst (shape w))(s \<mapsto> ident ?v)) s' = Some v \<and> clifd v = k \<and> thread v = Some 0)"
      using live_in_conn [OF l, of k s'] by (auto simp: find split: if_splits)
  next
    fix s' assume "s' \<in> set (sessionList w)"
    then show "s' \<notin> {} \<and> (\<exists>v. ((fst (shape w))(s \<mapsto> ident ?v)) s' = Some v \<and> idle v)"
      using live_in_pool [OF l, of s'] by auto
  next
    fix s' v assume v: "((fst (shape w))(s \<mapsto> ident ?v)) s' = Some v"
    show "s' < sess_next w \<and> (s' \<in> {} \<or> s' \<in> set (sessionList w) \<or> sm_find (clifd v) (fdSessionMap ?th) = Some s')"
    proof (cases "s' = s")
      case True
      then show ?thesis using v live_in_all [OF l, of s "ident u"] u by (auto simp: find)
    next
      case False
      then have "fst (shape w) s' = Some v" using v by (simp del: shape_sel)
      from live_in_all [OF l this] none False show ?thesis by (auto simp: find)
    qed
  qed
  have "live {} (shape w')" using li unfolding sh live_def by simp
  moreover have "placed {} (shape w')"
    using i u(2) unfolding sh by (auto simp: srv_inv_def placed_def idle_def phase_ok_def)
  moreover have "seat_inv {} w'"
  proof -
    have "has_place w' s' b l = has_place w s' b l" for s' b l
      using u by (auto simp: has_place_def w')
    then show ?thesis using i by (simp add: srv_inv_def seat_inv_def boards_ok_def sits_at_def w')
  qed
  moreover have "sessionList w' = sessionList w" by (simp add: w')
  ultimately show ?thesis using n unfolding world_ok_def srv_inv_def by simp
qed

lemma NotifyReceivedProcess_ok:
  assumes i: "world_ok w" and r: "NotifyReceivedProcess E t w = Some w'"
  shows "world_ok w'"
proof -
  obtain th where T: "threadList w = [th]" and l: "live_in {} (fst (shape w)) th (sessionList w) (sess_next w)"
    using world_okD(1) [OF i] by (rule threads_one)
  have t: "t = 0" using r T by (auto simp: NotifyReceivedProcess_def the_thread_def split: if_splits)
  have f: "fds_ok th" using l by (rule live_in_fds)
  show ?thesis
  proof (cases "notify_pipe th")
    case Nil
    then show ?thesis using r T t i by (simp add: NotifyReceivedProcess_def the_thread_def)
  next
    case (Cons msg rest)
    let ?th = "th\<lparr>notify_pipe := rest\<rparr>"
    let ?w = "w\<lparr>threadList := [?th]\<rparr>"
    have fth: "fds_ok ?th" using f Cons by (auto simp: fds_ok_def)
    have i1: "srv_inv {} {} {} ?w"
      by (rule srv_inv_pipe [OF world_okD(1) [OF i] T fth, of _ "lastSelectIndex w"]) simp_all
    have r1: "(if command msg = COMMAND_NOTIFY_ADD_EVENT then do {
           (s, w) \<leftarrow> GetOneSessionFromPool ?w;
           add_session E t (pipe_fd msg) s w }
         else if command msg = COMMAND_NOTIFY_QUIT_LOOP then upd_thread t (\<lambda>th. th\<lparr>loop_exit := True\<rparr>) ?w
         else Some ?w) = Some w'"
      using r T t Cons by (auto simp: NotifyReceivedProcess_def the_thread_def upd_thread_def split: if_splits)
    consider (add) "command msg = COMMAND_NOTIFY_ADD_EVENT"
      | (quit) "command msg \<noteq> COMMAND_NOTIFY_ADD_EVENT" "command msg = COMMAND_NOTIFY_QUIT_LOOP"
      | (other) "command msg \<noteq> COMMAND_NOTIFY_ADD_EVENT" "command msg \<noteq> COMMAND_NOTIFY_QUIT_LOOP" by blast
    then show ?thesis
    proof cases
      case add
      then obtain s w2 where p: "GetOneSessionFromPool ?w = Some (s, w2)" and a: "add_session E 0 (pipe_fd msg) s w2 = Some w'"
        using r1 t by (auto elim!: bind_SomeE)
      have n: "length (sessionList ?w) < 2 * connectionMaxStep" using world_okD(2) [OF i] by simp
      from GetOneSessionFromPool_inv [OF i1 n p] obtain u where
        g: "srv_inv {} {} {s} w2" "length (sessionList w2) < 2 * connectionMaxStep" "threadList w2 = [?th]"
        "sess w2 s = Some u" "idle u" by auto
      have "0 \<le> pipe_fd msg" "pipe_fd msg \<notin> fst ` set (fdSessionMap ?th)" "pipe_fd msg \<notin> pipe_fd ` set (notify_pipe ?th)"
        using f Cons by (auto simp: fds_ok_def)
      then show ?thesis using add_session_ok [OF g _ _ _ a] by blast
    next
      case quit
      then have w': "w' = ?w\<lparr>threadList := [?th\<lparr>loop_exit := True\<rparr>], lastSelectIndex := lastSelectIndex ?w\<rparr>"
        using r1 t by (auto simp: upd_thread_def)
      have "srv_inv {} {} {} w'"
        by (rule srv_inv_pipe [where th = ?th, OF i1 _ _ _ w']) (use fth in \<open>simp_all add: fds_ok_def\<close>)
      then show ?thesis using world_okD(2) [OF i] by (simp add: world_ok_def w')
    next
      case other
      then show ?thesis using r1 i1 world_okD(2) [OF i] by (auto simp: world_ok_def)
    qed
  qed
qed

section \<open>Every reachable state\<close>

lemma server_start_ok: "world_ok server_start"
proof -
  have h: "halls_ok server_start"
    by (auto simp: halls_ok_def server_start_def CreateWorkTheads_def MainThread_new_def GameHall_new_def sm_ok_def)
  have "seat_inv {} server_start"
    using h by (simp add: seat_inv_def boards_ok_def sits_at_def has_place_def server_start_def
        CreateWorkTheads_def MainThread_new_def)
  moreover have "shape server_start = ((\<lambda>_. None), [new_thread], [], 0)"
    by (simp add: shape_def server_start_def CreateWorkTheads_def MainThread_new_def)
  ultimately show ?thesis
    by (simp add: world_ok_def srv_inv_def placed_def live_def live_in_def fds_ok_def new_thread_def sm_ok_def
        server_start_def CreateWorkTheads_def MainThread_new_def connectionMaxStep_def del: shape_sel)
qed

lemma receive_ok: "world_ok w \<Longrightarrow> receive E s bs w = Some w' \<Longrightarrow> world_ok w'"
proof -
  assume i: "world_ok w" and "receive E s bs w = Some w'"
  then obtain w1 where 1: "upd_sess s (\<lambda>u. u\<lparr>inbuf := inbuf u @ bs\<rparr>) w = Some w1" and 2: "OnReadCb E s w1 = Some w'"
    by (auto simp: receive_def elim!: bind_SomeE)
  from i 1 have "world_ok w1" by (rule world_ok_upd_sess) simp
  then show "world_ok w'" using 2 by (rule OnReadCb_ok)
qed

lemma srv_step_ok: "srv_step E w w' \<Longrightarrow> world_ok w \<Longrightarrow> world_ok w'"
  by (induction rule: srv_step.induct)
    (blast intro: AcceptHandler_ok NotifyReceivedProcess_ok receive_ok OnEventCb_ok TimerOutHandle_ok)+

lemma srv_reach_ok: "srv_reach E w \<Longrightarrow> world_ok w"
  by (induction rule: srv_reach.induct) (blast intro: server_start_ok srv_step_ok)+

end
