(* ===== verification/Broadcast.thy ===== *)
theory Broadcast
  imports Reach
begin

text \<open>
  Exactly what a handler's messages and score updates do: who receives a broadcast, in which
  order, and that nothing else of the state is touched. \<open>strip\<close> forgets the output buffer
  of a session, the only part that sending changes.
\<close>

section \<open>Replies and broadcasts\<close>

text \<open>The frame a session gets, as an entry of the log; none if it has no descriptor.\<close>

definition frame_to :: "UserSession \<Rightarrow> MessageType \<Rightarrow> bytes \<Rightarrow> (int \<times> bytes) list" where
  "frame_to u ty data = (if clifd u < 0 then [] else [(clifd u, wire_frame (mt_code ty) data)])"

lemma reply_eq:
  assumes "reply s ty data w = Some w'"
  shows "\<exists>u. sess w s = Some u \<and> w' = w\<lparr>sess := (sess w)(s \<mapsto> GetBuffer (length data + DATA_HEAD_LENGTH) u),
      netlog := frame_to u ty data @ netlog w\<rparr>"
  using assms
  by (auto simp: reply_def MessageReply_def OnWrite_def upd_sess_def frame_to_def
      split: option.splits if_splits elim!: bind_SomeE)

text \<open>The sessions a broadcast reaches, in the order of the seats.\<close>

definition receivers :: "u32 \<Rightarrow> ChessBoard \<Rightarrow> sid list" where
  "receivers l cb = List.map_filter (\<lambda>k. if k = l then None else GetUserByLocation k cb) seats"

definition frames_to :: "world \<Rightarrow> MessageType \<Rightarrow> bytes \<Rightarrow> sid list \<Rightarrow> (int \<times> bytes) list" where
  "frames_to w ty data ss =
     concat (map (\<lambda>s. case sess w s of None \<Rightarrow> [] | Some u \<Rightarrow> frame_to u ty data) (rev ss))"

definition quiet :: "world \<Rightarrow> world \<Rightarrow> bool" where
  "quiet w w' \<longleftrightarrow> boards w' = boards w \<and> halls w' = halls w \<and> GameHallMap w' = GameHallMap w \<and>
     threadList w' = threadList w \<and> sessionList w' = sessionList w \<and> sess_next w' = sess_next w \<and>
     lastSelectIndex w' = lastSelectIndex w \<and> dblog w' = dblog w \<and> closed_fds w' = closed_fds w \<and>
     fpw_requests w' = fpw_requests w \<and>
     (\<forall>s. map_option strip (sess w' s) = map_option strip (sess w s))"

lemma quiet_refl [simp]: "quiet w w"
  by (simp add: quiet_def)

lemma quiet_trans: "quiet a b \<Longrightarrow> quiet b c \<Longrightarrow> quiet a c"
  by (simp add: quiet_def)

lemma strip_fields:
  assumes "strip u = strip v"
  shows "clifd u = clifd v" "user_info u = user_info v" "status u = status v" "locate u = locate v"
    "currChessBoard u = currChessBoard v" "thread u = thread v" "stateMachine u = stateMachine v"
    "nextState u = nextState v"
  using assms by (cases u; cases v; simp add: strip_def)+

lemma quiet_sess: "quiet w w' \<Longrightarrow> sess w s = Some u \<Longrightarrow> \<exists>u'. sess w' s = Some u' \<and> strip u' = strip u"
  by (cases "sess w' s") (auto simp: quiet_def dest: spec [of _ s])

lemma frame_to_strip: "strip u = strip v \<Longrightarrow> frame_to u ty d = frame_to v ty d"
  unfolding frame_to_def by (drule strip_fields(1)) simp

lemma quiet_frames: "quiet w w' \<Longrightarrow> frames_to w' ty d ss = frames_to w ty d ss"
proof -
  assume q: "quiet w w'"
  have "(case sess w' s of None \<Rightarrow> [] | Some u \<Rightarrow> frame_to u ty d) =
        (case sess w s of None \<Rightarrow> [] | Some u \<Rightarrow> frame_to u ty d)" for s
  proof (cases "sess w s")
    case None
    then show ?thesis using q by (cases "sess w' s") (auto simp: quiet_def dest: spec [of _ s])
  next
    case (Some u)
    then obtain u' where u': "sess w' s = Some u'" "strip u' = strip u" using quiet_sess [OF q] by blast
    show ?thesis using frame_to_strip [OF u'(2)] Some u'(1) by simp
  qed
  then show ?thesis by (simp add: frames_to_def)
qed

lemma frames_to_simps [simp]:
  "frames_to w ty d [] = []"
  "frames_to w ty d (s # ss) = frames_to w ty d ss @ (case sess w s of None \<Rightarrow> [] | Some u \<Rightarrow> frame_to u ty d)"
  by (simp_all add: frames_to_def)

lemma reply_quiet:
  "reply s ty data w = Some w' \<Longrightarrow> quiet w w' \<and> netlog w' = frames_to w ty data [s] @ netlog w"
  by (drule reply_eq) (auto simp: quiet_def)

text \<open>A broadcast sends one frame to each seated user but the one at the filtered seat.\<close>

lemma replies_log:
  assumes "for_each (\<lambda>k w. if k \<noteq> l then do {
          cb \<leftarrow> boards w b;
          case GetUserByLocation k cb of None \<Rightarrow> Some w | Some s \<Rightarrow> reply s ty data w }
        else Some w) ks w = Some w'" "boards w b = Some cb"
  shows "quiet w w' \<and> netlog w' = frames_to w ty data
      (List.map_filter (\<lambda>k. if k = l then None else GetUserByLocation k cb) ks) @ netlog w"
  using assms
proof (induction ks arbitrary: w)
  case Nil
  then show ?case by (simp add: map_filter_simps)
next
  case (Cons k ks)
  then obtain w1 where 1: "(if k \<noteq> l then do {
          cb \<leftarrow> boards w b;
          case GetUserByLocation k cb of None \<Rightarrow> Some w | Some s \<Rightarrow> reply s ty data w }
        else Some w) = Some w1" (is "?one = _")
    and 2: "for_each (\<lambda>k w. if k \<noteq> l then do {
          cb \<leftarrow> boards w b;
          case GetUserByLocation k cb of None \<Rightarrow> Some w | Some s \<Rightarrow> reply s ty data w }
        else Some w) ks w1 = Some w'"
    by (auto elim!: bind_SomeE)
  have q: "quiet w w1 \<and> netlog w1 = frames_to w ty data
      (List.map_filter (\<lambda>k. if k = l then None else GetUserByLocation k cb) [k]) @ netlog w"
    using 1 Cons.prems(2)
    by (auto simp: map_filter_simps split: if_splits option.splits dest!: reply_quiet)
  then have "boards w1 b = Some cb" using Cons.prems(2) by (simp add: quiet_def)
  from Cons.IH [OF 2 this] quiet_frames [of w w1] q show ?case
    by (cases "if k = l then None else GetUserByLocation k cb")
      (auto simp: map_filter_simps intro: quiet_trans)
qed

lemma BroadCastMsg_log:
  assumes "BroadCastMsg b ty data l w = Some w'" "boards w b = Some cb"
  shows "quiet w w' \<and> netlog w' = frames_to w ty data (receivers l cb) @ netlog w"
  using replies_log [OF assms(1) [unfolded BroadCastMsg_def] assms(2)] by (simp add: receivers_def)

section \<open>Scores and statuses\<close>

lemma set_status_eq:
  "set_status st s w = Some w' \<Longrightarrow> \<exists>u. sess w s = Some u \<and> w' = w\<lparr>sess := (sess w)(s \<mapsto> u\<lparr>status := st\<rparr>)\<rparr>"
  unfolding set_status_def by (rule sess_upd)

lemma IncreaseScore_eq:
  "IncreaseScore E n s w = Some w' \<Longrightarrow> \<exists>u log. sess w s = Some u \<and>
     w' = w\<lparr>sess := (sess w)(s \<mapsto> score_add n u), dblog := log\<rparr>"
  by (auto simp: IncreaseScore_def lift_db_def upd_sess_def split: option.splits elim!: bind_SomeE)

lemma ReduceScore_eq:
  "ReduceScore E n s w = Some w' \<Longrightarrow> \<exists>u log. sess w s = Some u \<and>
     w' = w\<lparr>sess := (sess w)(s \<mapsto> score_sub n u), dblog := log\<rparr>"
  by (auto simp: ReduceScore_def lift_db_def upd_sess_def split: option.splits elim!: bind_SomeE)

text \<open>Setting the status of everyone at the table.\<close>

lemma set_all_status_eq:
  assumes "set_all_status st b w = Some w'" "boards w b = Some cb"
  shows "w' = w\<lparr>sess := (\<lambda>s. if s \<in> set (seated cb) then map_option (\<lambda>u. u\<lparr>status := st\<rparr>) (sess w s)
      else sess w s)\<rparr>"
proof -
  have "for_each (\<lambda>l w. case GetUserByLocation l cb of None \<Rightarrow> Some w | Some s \<Rightarrow> set_status st s w) ks w = Some w' \<Longrightarrow>
    w' = w\<lparr>sess := (\<lambda>s. if s \<in> set (List.map_filter (\<lambda>l. GetUserByLocation l cb) ks)
      then map_option (\<lambda>u. u\<lparr>status := st\<rparr>) (sess w s) else sess w s)\<rparr>" for ks w
  proof (induction ks arbitrary: w)
    case Nil
    then show ?case by (simp add: map_filter_simps)
  next
    case (Cons k ks)
    then obtain w1 where 1: "(case GetUserByLocation k cb of None \<Rightarrow> Some w | Some s \<Rightarrow> set_status st s w) = Some w1"
      and 2: "for_each (\<lambda>l w. case GetUserByLocation l cb of None \<Rightarrow> Some w | Some s \<Rightarrow> set_status st s w) ks w1 = Some w'"
      by (auto elim!: bind_SomeE)
    note ih = Cons.IH [OF 2]
    show ?case
    proof (cases "GetUserByLocation k cb")
      case None
      then have w1: "w1 = w" using 1 by simp
      show ?thesis unfolding ih w1 by (simp add: None map_filter_simps)
    next
      case (Some s)
      then obtain u where u: "sess w s = Some u" and w1: "w1 = w\<lparr>sess := (sess w)(s \<mapsto> u\<lparr>status := st\<rparr>)\<rparr>"
        using 1 set_status_eq [of st s w w1] by auto
      show ?thesis using Some u unfolding ih w1
        by (simp add: map_filter_simps) (rule arg_cong [where f = "\<lambda>g. w\<lparr>sess := g\<rparr>"], auto simp: fun_eq_iff)
    qed
  qed
  then show ?thesis using assms by (simp add: set_all_status_def seated_def)
qed

end
