(* ===== verification/Game_Rules.thy ===== *)
theory Game_Rules
  imports Broadcast
begin

text \<open>
  The rules of the game as the handlers of class ChessBoard enforce them: whose turn it is,
  what a capture, an undo, leaving and getting ready do to the players' statuses and scores,
  and who is told.
\<close>

section \<open>The turn\<close>

definition plays :: "world \<Rightarrow> bid \<Rightarrow> u32 \<Rightarrow> bool" where
  "plays w b l \<longleftrightarrow> (\<exists>cb s u. boards w b = Some cb \<and> GetUserByLocation l cb = Some s \<and>
     sess w s = Some u \<and> status u = STATUS_PLAYING)"

text \<open>The order of moves: bottom, right, left.\<close>

definition turn_after :: "u32 \<Rightarrow> u32" where
  "turn_after l = (if l = LOCATION_LEFT then LOCATION_BOTTOM
     else if l = LOCATION_BOTTOM then LOCATION_RIGHT else LOCATION_LEFT)"

lemma status_atD:
  "status_at p w = Some x \<Longrightarrow> (case p of None \<Rightarrow> x = None | Some s \<Rightarrow> \<exists>u. sess w s = Some u \<and> x = Some (status u))"
  by (cases p) (auto simp: status_at_def elim!: bind_SomeE)

lemma plays_status_at:
  assumes "boards w b = Some cb" "status_at (GetUserByLocation l cb) w = Some x"
  shows "plays w b l \<longleftrightarrow> x = Some STATUS_PLAYING"
  using assms(1) status_atD [OF assms(2)] by (cases "GetUserByLocation l cb") (auto simp: plays_def)

lemma count_statusE:
  assumes "count_status P b w = Some n"
  obtains cb x y z where "boards w b = Some cb" "status_at (leftUser cb) w = Some x"
    "status_at (rightUser cb) w = Some y" "status_at (bottomUser cb) w = Some z"
    "n = (if holds P x then 1 else 0) + (if holds P y then 1 else 0) + (if holds P z then 1 else 0)"
  using assms unfolding count_status_def by (auto elim!: bind_SomeE)

lemma holds_eq [simp]: "holds (\<lambda>x. x = a) p \<longleftrightarrow> p = Some a"
  by (cases p) auto

lemma active_users:
  assumes "GetActiveUsersNum b w = Some n"
  shows "n = (if plays w b LOCATION_LEFT then 1 else 0) + (if plays w b LOCATION_RIGHT then 1 else 0) +
     (if plays w b LOCATION_BOTTOM then 1 else 0)"
proof -
  obtain cb x y z where *: "boards w b = Some cb" "status_at (leftUser cb) w = Some x"
    "status_at (rightUser cb) w = Some y" "status_at (bottomUser cb) w = Some z"
    "n = (if holds (\<lambda>x. x = STATUS_PLAYING) x then 1 else 0) + (if holds (\<lambda>x. x = STATUS_PLAYING) y then 1 else 0) +
      (if holds (\<lambda>x. x = STATUS_PLAYING) z then 1 else 0)"
    using assms unfolding GetActiveUsersNum_def by (rule count_statusE)
  show ?thesis
    using *(5) plays_status_at [OF *(1), of LOCATION_LEFT x] plays_status_at [OF *(1), of LOCATION_RIGHT y]
      plays_status_at [OF *(1), of LOCATION_BOTTOM z] *(2-4) by simp
qed

lemma token_seat_eq:
  assumes "boards w b = Some cb" "status_at (GetUserByLocation l cb) w = Some x"
  shows "token_seat (GetUserByLocation l cb) l k w = Some (if plays w b l then l else k)"
  using assms by (simp add: token_seat_def plays_status_at)

text \<open>The seat the move goes to is the next one in turn, or the one after it when nobody plays
  there; with two players left it is always the seat of another player.\<close>

lemma next_token_plays:
  assumes n: "GetActiveUsersNum b w = Some n" "1 < n" and l: "l \<in> set seats"
  shows "\<exists>t. next_token b l w = Some (Some t) \<and> t \<noteq> l \<and> plays w b t \<and>
     (plays w b (turn_after l) \<longrightarrow> t = turn_after l)"
proof -
  obtain cb x y z where *: "boards w b = Some cb" "status_at (leftUser cb) w = Some x"
    "status_at (rightUser cb) w = Some y" "status_at (bottomUser cb) w = Some z"
    using n(1) unfolding GetActiveUsersNum_def by (rule count_statusE)
  note t = token_seat_eq [OF *(1), of LOCATION_LEFT x] token_seat_eq [OF *(1), of LOCATION_RIGHT y]
    token_seat_eq [OF *(1), of LOCATION_BOTTOM z]
  have p: "(if plays w b LOCATION_LEFT then 1 else 0) + (if plays w b LOCATION_RIGHT then 1 else 0) +
     (if plays w b LOCATION_BOTTOM then 1 else 0) > (1::nat)"
    using active_users [OF n(1)] n(2) by simp
  show ?thesis
    using l *(1-4) t p by (auto simp: next_token_def turn_after_def split: if_splits)
qed

section \<open>Moves\<close>

text \<open>\<open>same_users\<close>: every session is unchanged but for its output buffer.\<close>

definition same_users :: "world \<Rightarrow> world \<Rightarrow> bool" where
  "same_users w w' \<longleftrightarrow> (\<forall>s. map_option strip (sess w' s) = map_option strip (sess w s))"

lemma quiet_same: "quiet w w' \<Longrightarrow> same_users w w'"
  by (simp add: quiet_def same_users_def)

lemma status_at_cong: "sess w' = sess w \<Longrightarrow> status_at p w' = status_at p w"
  by (cases p) (simp_all add: status_at_def)

lemma move_quiet:
  assumes "parse_MoveChess E msg = Some mc" "\<not> mc_is_winner mc" and i: "seat_inv {} w"
    and cb: "boards w b = Some cb" and n: "GetActiveUsersNum b w = Some n" "1 < n"
    and r: "MoveChessHandle E b msg w = Some (r, w')"
  shows "\<exists>s u t. GetUserByLocation (mc_src_user_locate mc) cb = Some s \<and> sess w s = Some u \<and>
    next_token b (mc_src_user_locate mc) w = Some (Some t) \<and> same_users w w' \<and> dblog w' = dblog w \<and>
    netlog w' = frames_to w MSG_ANNOUNCE_MOVE (ser_MoveAction E \<lparr>ma_src_user_locate = mc_src_user_locate mc,
      ma_movechess = mc, ma_token_locate = Some t\<rparr>) (receivers LOCATION_MAX cb) @ netlog w"
proof -
  let ?l = "mc_src_user_locate mc"
  let ?cb = "cb\<lparr>recent_winner_locate := LOCATION_MAX, recent_loser_locate := LOCATION_MAX\<rparr>"
  let ?w = "w\<lparr>boards := (boards w)(b \<mapsto> ?cb)\<rparr>"
  have seat: "GetUserByLocation k ?cb = GetUserByLocation k cb" for k by (simp add: GetUserByLocation_def)
  have st: "status_at p ?w = status_at p w" for p by (rule status_at_cong) simp
  have n': "GetActiveUsersNum b ?w = Some n"
    using n(1) cb st by (simp add: GetActiveUsersNum_def count_status_def)
  have nt: "next_token b k ?w = next_token b k w" for k
    using cb st by (simp add: next_token_def token_seat_def)
  obtain s u p w1 w2 where 1: "GetUserByLocation ?l cb = Some s" "sess w s = Some u"
    "move_token b s ?w = Some (p, w1)" "BroadCastMsg b MSG_ANNOUNCE_MOVE (ser_MoveAction E
                 \<lparr>ma_src_user_locate = locate u, ma_movechess = mc, ma_token_locate = p\<rparr>) LOCATION_MAX w1 = Some w2"
    "w' = w2"
    using r assms(1,2) cb by (auto simp: MoveChessHandle_def move_scores_def upd_board_def elim!: bind_SomeE)
  have l: "locate u = ?l" using seat_inv_seated [OF i cb 1(1)] 1(2) by auto
  have "?l \<in> set seats" using 1(1) by (rule GetUserByLocation_seat)
  then obtain t where t: "next_token b ?l w = Some (Some t)" using next_token_plays [OF n] by blast
  then have w1: "p = Some t" "w1 = ?w" using 1(2,3) n n' l nt by (auto simp: move_token_def)
  have "boards w1 b = Some ?cb" by (simp add: w1)
  note bc = BroadCastMsg_log [OF 1(4) this]
  have "receivers LOCATION_MAX ?cb = receivers LOCATION_MAX cb"
    unfolding receivers_def seat ..
  moreover have "frames_to ?w ty d ss = frames_to w ty d ss" for ty d ss by (simp add: frames_to_def)
  ultimately show ?thesis
    using 1 bc w1 t l by (auto simp: quiet_def same_users_def)
qed

section \<open>What the players' records become\<close>

definition users :: "world \<Rightarrow> sid \<Rightarrow> UserSession option" where
  "users w s = map_option strip (sess w s)"

lemma users_Some: "sess w s = Some u \<Longrightarrow> users w s = Some (strip u)"
  by (simp add: users_def)

lemma same_users_eq: "same_users w w' \<longleftrightarrow> users w' = users w"
  by (auto simp: same_users_def users_def fun_eq_iff)

lemma quiet_users: "quiet w w' \<Longrightarrow> users w' = users w"
  using quiet_same same_users_eq by blast

lemma strip_update [simp]:
  "strip (u\<lparr>status := st\<rparr>) = (strip u)\<lparr>status := st\<rparr>"
  "strip (score_add n u) = score_add n (strip u)" "strip (score_sub n u) = score_sub n (strip u)"
  "status (strip u) = status u" "user_info (strip u) = user_info u"
  "locate (strip u) = locate u" "currChessBoard (strip u) = currChessBoard u"
  by (simp_all add: strip_def score_add_def score_sub_def)

lemma score_fields [simp]:
  "status (score_add n u) = status u" "status (score_sub n u) = status u"
  "locate (score_add n u) = locate u" "locate (score_sub n u) = locate u"
  "(score_add n u)\<lparr>status := st\<rparr> = score_add n (u\<lparr>status := st\<rparr>)"
  "(score_sub n u)\<lparr>status := st\<rparr> = score_sub n (u\<lparr>status := st\<rparr>)"
  by (simp_all add: score_add_def score_sub_def)

lemma score_undo:
  "score_sub 10 (score_add 10 u) = u"
  "score_add 10 ((score_sub 10 (u\<lparr>status := x\<rparr>))\<lparr>status := y\<rparr>) = u\<lparr>status := y\<rparr>"
  by (simp_all add: score_sub_def score_add_def)

lemma users_set_status:
  "set_status st s w = Some w' \<Longrightarrow> \<exists>u. users w s = Some u \<and> users w' = (users w)(s \<mapsto> u\<lparr>status := st\<rparr>) \<and>
     boards w' = boards w"
  by (drule set_status_eq) (auto simp: users_def fun_eq_iff)

lemma users_IncreaseScore:
  "IncreaseScore E n s w = Some w' \<Longrightarrow> \<exists>u. users w s = Some u \<and> users w' = (users w)(s \<mapsto> score_add n u) \<and>
     boards w' = boards w"
  by (drule IncreaseScore_eq) (auto simp: users_def fun_eq_iff)

lemma users_ReduceScore:
  "ReduceScore E n s w = Some w' \<Longrightarrow> \<exists>u. users w s = Some u \<and> users w' = (users w)(s \<mapsto> score_sub n u) \<and>
     boards w' = boards w"
  by (drule ReduceScore_eq) (auto simp: users_def fun_eq_iff)

lemma users_upd_board:
  "upd_board b f w = Some w' \<Longrightarrow> users w' = users w \<and> (\<exists>cb. boards w b = Some cb \<and> boards w' = (boards w)(b \<mapsto> f cb))"
  by (drule board_write) (auto simp: users_def fun_eq_iff)

lemma users_BroadCastMsg:
  "BroadCastMsg b ty d l w = Some w' \<Longrightarrow> boards w b = Some cb \<Longrightarrow> users w' = users w \<and> boards w' = boards w"
  by (drule (1) BroadCastMsg_log) (auto simp: quiet_users quiet_def)

lemma users_announce_board:
  "announce_board E b l w = Some w' \<Longrightarrow> users w' = users w \<and> boards w' = boards w"
  by (auto simp: announce_board_def WrapChessBoardInfo_def elim!: bind_SomeE dest: users_BroadCastMsg)

lemma users_set_all_status:
  "set_all_status st b w = Some w' \<Longrightarrow> boards w b = Some cb \<Longrightarrow>
     users w' = (\<lambda>s. if s \<in> set (seated cb) then map_option (\<lambda>u. u\<lparr>status := st\<rparr>) (users w s) else users w s) \<and>
     boards w' = boards w"
  by (drule (1) set_all_status_eq) (auto simp: users_def fun_eq_iff option.map_comp comp_def)

lemma status_at_users: "status_at p w = (case p of None \<Rightarrow> Some None | Some s \<Rightarrow> map_option (\<lambda>u. Some (status u)) (users w s))"
  by (cases p; cases "sess w (the p)") (auto simp: status_at_def users_def)

lemma plays_users: "plays w b l \<longleftrightarrow> (\<exists>cb s u. boards w b = Some cb \<and> GetUserByLocation l cb = Some s \<and>
     users w s = Some u \<and> status u = STATUS_PLAYING)"
  by (auto simp: plays_def users_def)

section \<open>Captures and their undoing\<close>

text \<open>The sessions at the seats of the winner and the loser named by the message.\<close>

lemma move_scores_users:
  assumes "mc_is_winner mc" "boards w b = Some cb"
    and "GetUserByLocation (mc_src_user_locate mc) cb = Some a"
    and "GetUserByLocation (getd 0 (mc_target_user_locate mc)) cb = Some t" "a \<noteq> t"
    and "move_scores E b mc w = Some w'"
  shows "\<exists>ua ut. users w a = Some ua \<and> users w t = Some ut \<and>
    users w' = (users w)(a \<mapsto> score_add 10 ua, t \<mapsto> score_sub 10 (ut\<lparr>status := STATUS_ENDED\<rparr>)) \<and>
    boards w' = (boards w)(b \<mapsto> cb\<lparr>recent_winner_locate := mc_src_user_locate mc,
      recent_loser_locate := getd 0 (mc_target_user_locate mc)\<rparr>)"
proof -
  obtain w1 w2 w3 where 1: "upd_board b (\<lambda>cb. cb\<lparr>recent_winner_locate := mc_src_user_locate mc,
        recent_loser_locate := getd 0 (mc_target_user_locate mc)\<rparr>) w = Some w1"
    and 2: "IncreaseScore E 10 a w1 = Some w2" and 3: "ReduceScore E 10 t w2 = Some w3"
    and 4: "set_status STATUS_ENDED t w3 = Some w'"
    using assms by (auto simp: move_scores_def elim!: bind_SomeE)
  show ?thesis
    using users_upd_board [OF 1] users_IncreaseScore [OF 2] users_ReduceScore [OF 3] users_set_status [OF 4] assms(2,5)
    by (auto simp: fun_eq_iff)
qed

lemma move_token_users:
  assumes "move_token b a w = Some (p, w')"
  shows "\<exists>n ua. GetActiveUsersNum b w = Some n \<and> users w a = Some ua \<and> boards w' = boards w \<and>
    users w' = (if n > 1 then users w else (users w)(a \<mapsto> ua\<lparr>status := STATUS_ENDED\<rparr>)) \<and>
    (n > 1 \<or> p = Some LOCATION_MAX)"
  using assms
  by (auto simp: move_token_def users_def fun_eq_iff split: if_splits elim!: bind_SomeE dest!: set_status_eq)

text \<open>A capture: the winner gets 10 points, the loser loses 10 and is out. If the winner is then
  the only one still playing, the game is over for the winner too.\<close>

lemma capture_users:
  assumes p: "parse_MoveChess E msg = Some mc" "mc_is_winner mc" and cb: "boards w b = Some cb"
    and a: "GetUserByLocation (mc_src_user_locate mc) cb = Some a"
    and t: "GetUserByLocation (getd 0 (mc_target_user_locate mc)) cb = Some t" "a \<noteq> t"
    and r: "MoveChessHandle E b msg w = Some (r, w')"
  shows "\<exists>ua ut st. users w a = Some ua \<and> users w t = Some ut \<and>
    users w' = (users w)(a \<mapsto> score_add 10 (ua\<lparr>status := st\<rparr>), t \<mapsto> score_sub 10 (ut\<lparr>status := STATUS_ENDED\<rparr>)) \<and>
    (st = status ua \<or> st = STATUS_ENDED) \<and>
    boards w' b = Some (cb\<lparr>recent_winner_locate := mc_src_user_locate mc,
      recent_loser_locate := getd 0 (mc_target_user_locate mc)\<rparr>)"
proof -
  obtain w1 q w2 w3 d where 1: "move_scores E b mc w = Some w1" and 2: "move_token b a w1 = Some (q, w2)"
    and 3: "BroadCastMsg b MSG_ANNOUNCE_MOVE d LOCATION_MAX w2 = Some w3" and 4: "announce_board E b LOCATION_MAX w3 = Some w'"
    using r p cb a by (auto simp: MoveChessHandle_def elim!: bind_SomeE)
  obtain ua ut where s: "users w a = Some ua" "users w t = Some ut"
    "users w1 = (users w)(a \<mapsto> score_add 10 ua, t \<mapsto> score_sub 10 (ut\<lparr>status := STATUS_ENDED\<rparr>))"
    "boards w1 = (boards w)(b \<mapsto> cb\<lparr>recent_winner_locate := mc_src_user_locate mc,
      recent_loser_locate := getd 0 (mc_target_user_locate mc)\<rparr>)"
    using move_scores_users [OF p(2) cb a t 1] by blast
  obtain n where n: "boards w2 = boards w1"
    "users w2 = (if n > (1::nat) then users w1 else (users w1)(a \<mapsto> (score_add 10 ua)\<lparr>status := STATUS_ENDED\<rparr>))"
    using move_token_users [OF 2] s(3) t(2) by auto
  have b2: "boards w2 b \<noteq> None" using n s(4) by simp
  then have w3: "users w3 = users w2" "boards w3 = boards w2" using users_BroadCastMsg [OF 3] by auto
  have e: "users w' = users w2" "boards w' = boards w2" using users_announce_board [OF 4] w3 by simp_all
  let ?st = "if n > 1 then status ua else STATUS_ENDED"
  have ua: "ua\<lparr>status := status ua\<rparr> = ua" by simp
  have "users w' = (users w)(a \<mapsto> score_add 10 (ua\<lparr>status := ?st\<rparr>), t \<mapsto> score_sub 10 (ut\<lparr>status := STATUS_ENDED\<rparr>))"
    using t(2) unfolding e n(2) s(3) by (auto simp: fun_eq_iff)
  moreover have "boards w' b = Some (cb\<lparr>recent_winner_locate := mc_src_user_locate mc,
      recent_loser_locate := getd 0 (mc_target_user_locate mc)\<rparr>)"
    unfolding e n(1) s(4) by simp
  ultimately show ?thesis using s(1,2) by fastforce
qed

text \<open>Taking back the last capture gives the points back and lets the loser play again.\<close>

lemma undo_users:
  assumes p: "parse_Undo E msg = Some ud" "ud_rep_or_respon ud = 1" "ud_status ud = Some True"
    and cb: "boards w b = Some cb" and a: "GetUserByLocation (recent_winner_locate cb) cb = Some a"
    and t: "GetUserByLocation (recent_loser_locate cb) cb = Some t" "a \<noteq> t"
    and r: "UndoHandle E b msg ty w = Some (r, w')"
  shows "\<exists>ua ut. users w a = Some ua \<and> users w t = Some ut \<and>
    users w' = (users w)(a \<mapsto> score_sub 10 ua, t \<mapsto> score_add 10 (ut\<lparr>status := STATUS_PLAYING\<rparr>)) \<and>
    boards w' = boards w"
proof -
  obtain w1 where 1: "BroadCastMsg b ty msg (ud_tar_user_locate ud) w = Some w1" and 2: "undo_scores E b w1 = Some w'"
    using r p by (auto simp: UndoHandle_def elim!: bind_SomeE)
  have q: "users w1 = users w" "boards w1 = boards w" using users_BroadCastMsg [OF 1 cb] by auto
  have "recent_winner_locate cb \<noteq> LOCATION_MAX" using a by auto
  then obtain w2 w3 where 3: "ReduceScore E 10 a w1 = Some w2" and 4: "IncreaseScore E 10 t w2 = Some w3"
    and 5: "set_status STATUS_PLAYING t w3 = Some w'"
    using 2 cb a t q by (auto simp: undo_scores_def elim!: bind_SomeE)
  show ?thesis
    using users_ReduceScore [OF 3] users_IncreaseScore [OF 4] users_set_status [OF 5] t(2) q
    by (auto simp: fun_eq_iff)
qed

section \<open>Who is still playing\<close>

definition in_play :: "world \<Rightarrow> sid \<Rightarrow> bool" where
  "in_play w s \<longleftrightarrow> (case users w s of None \<Rightarrow> False | Some u \<Rightarrow> status u = STATUS_PLAYING)"

definition playing :: "world \<Rightarrow> ChessBoard \<Rightarrow> sid list" where
  "playing w cb = filter (in_play w) (seated cb)"

lemma status_at_in_play:
  "status_at p w = Some x \<Longrightarrow> x = Some STATUS_PLAYING \<longleftrightarrow> (case p of None \<Rightarrow> False | Some s \<Rightarrow> in_play w s)"
  by (cases p) (auto simp: status_at_users in_play_def)

lemma playing_num:
  assumes "GetActiveUsersNum b w = Some n" "boards w b = Some cb"
  shows "n = length (playing w cb)"
proof -
  obtain x y z where *: "status_at (leftUser cb) w = Some x"
    "status_at (rightUser cb) w = Some y" "status_at (bottomUser cb) w = Some z"
    "n = (if x = Some STATUS_PLAYING then 1 else 0) + (if y = Some STATUS_PLAYING then 1 else 0) +
      (if z = Some STATUS_PLAYING then 1 else 0)"
    using assms(1) assms(2) unfolding GetActiveUsersNum_def by (auto elim: count_statusE)
  show ?thesis
    using *(4) status_at_in_play [OF *(1)] status_at_in_play [OF *(2)] status_at_in_play [OF *(3)]
    by (auto simp: playing_def seated_eq split: option.splits)
qed

lemma playing_only:
  assumes "GetOnlyActiveUser b w = Some p" "boards w b = Some cb"
  shows "p = (case playing w cb of [x] \<Rightarrow> Some x | _ \<Rightarrow> None)"
proof -
  obtain x y z where *: "status_at (leftUser cb) w = Some x"
    "status_at (rightUser cb) w = Some y" "status_at (bottomUser cb) w = Some z"
    using assms by (auto simp: GetOnlyActiveUser_def elim!: bind_SomeE)
  show ?thesis
    using assms * status_at_in_play [OF *(1)] status_at_in_play [OF *(2)] status_at_in_play [OF *(3)]
    by (auto simp: GetOnlyActiveUser_def playing_def seated_eq Let_def split: option.splits if_splits)
qed

lemma seated_distinct:
  assumes "seat_inv X w" "boards w b = Some cb" shows "distinct (seated cb)"
proof -
  have "l = l'" if "GetUserByLocation l cb = Some s" "GetUserByLocation l' cb = Some s" for l l' s
    using seat_inv_seated [OF assms that(1)] seat_inv_seated [OF assms that(2)] by auto
  from this [of LOCATION_LEFT _ LOCATION_RIGHT] this [of LOCATION_LEFT _ LOCATION_BOTTOM]
    this [of LOCATION_RIGHT _ LOCATION_BOTTOM] show ?thesis
    by (auto simp: seated_eq split: option.splits)
qed

lemma seated_iff: "s \<in> set (seated cb) \<longleftrightarrow> (\<exists>l. GetUserByLocation l cb = Some s)"
proof
  assume "s \<in> set (seated cb)"
  then have "leftUser cb = Some s \<or> rightUser cb = Some s \<or> bottomUser cb = Some s"
    by (auto simp: seated_eq split: option.splits)
  then show "\<exists>l. GetUserByLocation l cb = Some s"
    using GetUserByLocation_simps(1-3) [of cb] by metis
qed (auto simp: seated_eq GetUserByLocation_def split: if_splits)

lemma seated_leave:
  assumes "board_ok cb" "distinct (seated cb)" "GetUserByLocation l cb = Some s"
  shows "seated (snd (LeaveOutRoom l cb)) = filter (\<lambda>x. x \<noteq> s) (seated cb)"
proof -
  let ?cb = "snd (LeaveOutRoom l cb)"
  have f: "leftUser ?cb = (if l = LOCATION_LEFT then None else leftUser cb)"
    "rightUser ?cb = (if l = LOCATION_RIGHT then None else rightUser cb)"
    "bottomUser ?cb = (if l = LOCATION_BOTTOM then None else bottomUser cb)"
    using LeaveOutRoom_seat [OF assms(1), of LOCATION_LEFT l] LeaveOutRoom_seat [OF assms(1), of LOCATION_RIGHT l]
      LeaveOutRoom_seat [OF assms(1), of LOCATION_BOTTOM l] by auto
  show ?thesis
    using GetUserByLocation_seat [OF assms(3)] assms(2,3) f
    by (auto simp: seated_eq split: option.splits)
qed

lemma last_user_wins_users:
  assumes "last_user_wins E b s w = Some (p, w')" "boards w b = Some cb"
  shows "boards w' = boards w \<and> users w' = (case playing w cb of
      [x] \<Rightarrow> (\<lambda>y. if y = x then map_option (\<lambda>u. score_add 10 (u\<lparr>status := STATUS_ENDED\<rparr>)) (users w x) else users w y)
    | _ \<Rightarrow> users w)"
proof -
  obtain n where n: "GetActiveUsersNum b w = Some n" using assms(1) by (auto simp: last_user_wins_def elim!: bind_SomeE)
  note len = playing_num [OF n assms(2)]
  show ?thesis
  proof (cases "\<exists>x. playing w cb = [x]")
    case False
    then have "n \<noteq> 1" using len by (auto simp: length_Suc_conv)
    then have "w' = w" using assms(1) n by (simp add: last_user_wins_def)
    then show ?thesis using False by (auto split: list.splits)
  next
    case True
    then obtain x where x: "playing w cb = [x]" by blast
    obtain p0 where p0: "GetOnlyActiveUser b w = Some p0"
      using assms(1) n len x by (auto simp: last_user_wins_def elim!: bind_SomeE)
    then have px: "p0 = Some x" using playing_only [OF p0 assms(2)] x by simp
    have "x \<in> set (playing w cb)" using x by simp
    then have ip: "in_play w x" by (simp add: playing_def)
    then obtain u where u: "sess w x = Some u" "status u = STATUS_PLAYING"
      by (auto simp: in_play_def users_def split: option.splits)
    obtain w1 where 1: "IncreaseScore E 10 x w = Some w1" and 2: "set_status STATUS_ENDED x w1 = Some w'"
      using assms(1) n len x p0 px u by (auto simp: last_user_wins_def elim!: bind_SomeE)
    show ?thesis
      using users_IncreaseScore [OF 1] users_set_status [OF 2] x by (auto simp: fun_eq_iff)
  qed
qed

end
