(* ===== verification/Game_Flow.thy ===== *)
theory Game_Flow
  imports Game_Rules
begin

text \<open>
  How a game begins, who may join a table, and what leaving it costs and yields: the
  statuses and scores after \<open>GameReadyHandle\<close>, \<open>GameRequestHandle\<close>, \<open>LeaveRoomHandle\<close> and an
  accepted peace offer.
\<close>

section \<open>Leaving\<close>

lemma stable_halls_ok [simp]: "stable halls_ok"
  by (auto simp: stable_def keeps_halls)

lemma users_talk: "talk w w' \<Longrightarrow> users w' = users w"
  by (simp add: talk_def users_def fun_eq_iff)

lemma users_BroadCastHallInfo:
  "BroadCastHallInfo E b s w = Some w' \<Longrightarrow> halls_ok w \<Longrightarrow> users w' = users w"
  by (rule users_talk) (rule talk_BroadCastHallInfo)

lemma users_leave_seat:
  assumes "leave_seat b s x w = Some w'" "users w s = Some u" "boards w b = Some cb"
  shows "users w' = (users w)(s \<mapsto> u\<lparr>status := if x then STATUS_EXITED else STATUS_ENDED\<rparr>) \<and>
    boards w' = (if x then (boards w)(b \<mapsto> snd (LeaveOutRoom (locate u) cb)) else boards w)"
proof (cases x)
  case False
  then show ?thesis using assms users_set_status [of STATUS_ENDED s w w'] by (auto simp: leave_seat_def)
next
  case True
  then obtain w1 v where 1: "set_status STATUS_EXITED s w = Some w1" and v: "sess w1 s = Some v"
    and 2: "upd_board b (\<lambda>cb. snd (LeaveOutRoom (locate v) cb)) w1 = Some w'"
    using assms(1) by (auto simp: leave_seat_def elim!: bind_SomeE)
  have u1: "users w1 = (users w)(s \<mapsto> u\<lparr>status := STATUS_EXITED\<rparr>)" "boards w1 = boards w"
    using users_set_status [OF 1] assms(2) by auto
  have "strip v = u\<lparr>status := STATUS_EXITED\<rparr>"
    using users_Some [OF v] u1(1) by simp
  then have "locate v = locate u" using strip_update(6) [of v] by simp
  then show ?thesis using True users_upd_board [OF 2] u1 assms(3) by auto
qed

text \<open>The users still playing when \<open>s\<close> has left: the others, in the order of the seats.\<close>

lemma playing_leave:
  assumes "users w2 = (users w)(s \<mapsto> v)" "status v \<noteq> STATUS_PLAYING"
    and "seated cb2 = seated cb \<or> seated cb2 = filter (\<lambda>x. x \<noteq> s) (seated cb)"
  shows "playing w2 cb2 = filter (\<lambda>x. x \<noteq> s) (playing w cb)"
proof -
  have "in_play w2 x \<longleftrightarrow> in_play w x \<and> x \<noteq> s" for x
    using assms(1,2) by (auto simp: in_play_def)
  then have "in_play w2 = (\<lambda>x. in_play w x \<and> x \<noteq> s)" by (simp add: fun_eq_iff)
  then have "filter (in_play w2) (seated cb) = filter (\<lambda>x. x \<noteq> s) (playing w cb)"
    "filter (in_play w2) (filter (\<lambda>x. x \<noteq> s) (seated cb)) = filter (\<lambda>x. x \<noteq> s) (playing w cb)"
    by (simp_all add: playing_def conj_commute) (rule filter_cong, auto)
  then show ?thesis using assms(3) unfolding playing_def by metis
qed

text \<open>What a leaving user's record becomes, and what everybody else's becomes.\<close>

definition leaver :: "bool \<Rightarrow> UserSession \<Rightarrow> UserSession" where
  "leaver really u =
     (if status u = STATUS_PLAYING then score_sub 30 u else u)
       \<lparr>status := if really then STATUS_EXITED else STATUS_ENDED\<rparr>"

definition left_behind :: "bool \<Rightarrow> bool \<Rightarrow> UserSession \<Rightarrow> UserSession" where
  "left_behind alone over v =
     (if alone then score_add 10 v else v)\<lparr>status := if alone \<or> over then STATUS_ENDED else status v\<rparr>"

lemma left_behind_simps [simp]:
  "left_behind False False v = v" "left_behind False True v = v\<lparr>status := STATUS_ENDED\<rparr>"
  "left_behind True x v = score_add 10 (v\<lparr>status := STATUS_ENDED\<rparr>)"
  by (simp_all add: left_behind_def)

text \<open>The halls stay consistent on the way.\<close>

lemma leave_halls:
  assumes i: "seat_inv {} w" and u: "sess w s = Some u" "currChessBoard u = Some b"
    and 1: "(if e then ReduceScore E 30 s w else Some w) = Some w1" and 2: "leave_seat b s really w1 = Some w2"
  shows "halls_ok w2"
proof -
  let ?K = "tracked {} (shape w)"
  have "post ?K ?K (if e then ReduceScore E 30 s w else Some w)"
    using tracked_self [OF i] by (auto intro!: calls)
  then have t: "?K w1" using 1 by (rule postD)
  have "post ?K halls_ok (leave_seat b s really w1)"
  proof (cases really)
    case True
    have "post ?K halls_ok (leave_seat b s True w1)"
      by (rule call_leave_seat [OF t, of s "ident u"]) (use u in \<open>auto simp: tracked_def intro: seat_inv_halls\<close>)
    then show ?thesis using True by simp
  next
    case False
    then show ?thesis using t by (auto simp: leave_seat_def tracked_def intro!: calls intro: seat_inv_halls)
  qed
  then show ?thesis using 2 by (rule postD)
qed

lemma leave_rest_halls:
  assumes h: "halls_ok w2"
    and 3: "BroadCastMsg b MSG_GIVE_UP d l w2 = Some w3"
    and 4: "last_user_wins E b s w3 = Some (q, w4)"
    and 5: "(if e then set_all_status STATUS_ENDED b w4 else Some w4) = Some w5"
    and 6: "announce_board E b k w5 = Some w6"
  shows "halls_ok w6"
proof -
  have "post halls_ok halls_ok (BroadCastMsg b MSG_GIVE_UP d l w2)" using h by (auto intro!: calls)
  then have "halls_ok w3" using 3 by (rule postD)
  then have "post halls_ok (\<lambda>(q, w). halls_ok w) (last_user_wins E b s w3)" by (auto intro!: calls)
  from postD [OF this 4] have "halls_ok w4" by simp
  then have "post halls_ok halls_ok (if e then set_all_status STATUS_ENDED b w4 else Some w4)" by (auto intro!: calls)
  then have "halls_ok w5" using 5 by (rule postD)
  then have "post halls_ok halls_ok (announce_board E b k w5)" by (auto intro!: calls)
  then show ?thesis using 6 by (rule postD)
qed

lemma leave_users:
  assumes i: "seat_inv {} w" and u: "sess w s = Some u" "currChessBoard u = Some b"
    and cb: "boards w b = Some cb" and r: "LeaveRoomHandle E b s really w = Some w'"
  defines "rest \<equiv> filter (\<lambda>x. x \<noteq> s) (playing w cb)"
  shows "users w' = (\<lambda>x. if x = s then Some (leaver really (strip u))
     else map_option (left_behind (rest = [x]) (status u = STATUS_PLAYING \<and> x \<in> set (seated cb))) (users w x))"
proof -
  let ?e = "status u = STATUS_PLAYING" and ?me = "leaver really (strip u)"
  obtain w1 w2 w3 q w4 w5 w6 d where
    1: "(if ?e then ReduceScore E 30 s w else Some w) = Some w1" and 2: "leave_seat b s really w1 = Some w2" and
    3: "BroadCastMsg b MSG_GIVE_UP d (locate u) w2 = Some w3" and
    4: "last_user_wins E b s w3 = Some (q, w4)" and
    5: "(if ?e then set_all_status STATUS_ENDED b w4 else Some w4) = Some w5" and
    6: "announce_board E b (if really then locate u else LOCATION_MAX) w5 = Some w6" and
    7: "(if ?e \<or> really then do { s' \<leftarrow> q; BroadCastHallInfo E b s' w6 } else Some w6) = Some w'"
    using r u by (auto simp: LeaveRoomHandle_def Let_def elim!: bind_SomeE)
  have ok: "board_ok cb" and ds: "distinct (seated cb)"
    using i cb by (auto intro: seat_inv_board seated_distinct)
  have sit: "GetUserByLocation (locate u) cb = Some s"
    using seat_inv_place [OF i u] cb by simp
  then have s_in: "s \<in> set (seated cb)" by (auto simp: seated_iff)
  let ?u1 = "if ?e then score_sub 30 (strip u) else strip u"
  have u1: "users w1 = (users w)(s \<mapsto> ?u1)" "boards w1 = boards w"
    using 1 users_ReduceScore [of E 30 s w w1] users_Some [OF u(1)] by (auto simp: fun_upd_idem split: if_splits)
  define cb2 where "cb2 = (if really then snd (LeaveOutRoom (locate u) cb) else cb)"
  have me: "?u1\<lparr>status := if really then STATUS_EXITED else STATUS_ENDED\<rparr> = ?me"
    by (simp add: leaver_def)
  have l1: "locate ?u1 = locate u" by simp
  have u2: "users w2 = (users w)(s \<mapsto> ?me)" and b2: "boards w2 b = Some cb2"
    using users_leave_seat [OF 2, of ?u1 cb] cb unfolding me l1 u1 by (auto simp: cb2_def)
  have st2: "seated cb2 = (if really then filter (\<lambda>x. x \<noteq> s) (seated cb) else seated cb)"
    using seated_leave [OF ok ds sit] by (simp add: cb2_def)
  have u3: "users w3 = users w2" "boards w3 b = Some cb2"
    using users_BroadCastMsg [OF 3 b2] b2 by simp_all
  have "playing w3 cb2 = rest"
    unfolding rest_def by (rule playing_leave [where v = ?me]) (simp_all add: u2 u3 leaver_def st2)
  then have u4: "boards w4 b = Some cb2" "users w4 = (case rest of
      [x] \<Rightarrow> (\<lambda>y. if y = x then map_option (\<lambda>u. score_add 10 (u\<lparr>status := STATUS_ENDED\<rparr>)) (users w2 x) else users w2 y)
    | _ \<Rightarrow> users w2)"
    using last_user_wins_users [OF 4 u3(2)] unfolding u3(1) using u3(2) by simp_all
  have u5: "boards w5 = boards w4" "users w5 = (\<lambda>x. if ?e \<and> x \<in> set (seated cb2)
      then map_option (\<lambda>u. u\<lparr>status := STATUS_ENDED\<rparr>) (users w4 x) else users w4 x)"
    using 5 users_set_all_status [of STATUS_ENDED b w4 w5 cb2] u4(1) by (auto split: if_splits)
  have w6: "users w6 = users w5" using users_announce_board [OF 6] by simp
  have h: "halls_ok w6" using leave_halls [OF i u 1 2] 3 4 5 6 by (rule leave_rest_halls)
  have w': "users w' = users w6" using 7 by (auto split: if_splits elim!: bind_SomeE dest: users_BroadCastHallInfo [OF _ h])
  have rest_in: "x \<noteq> s" if "rest = [x]" for x
  proof -
    have "x \<in> set rest" using that by simp
    then show ?thesis unfolding rest_def by simp
  qed
  show ?thesis
  proof
    fix x
    have x4: "users w4 x = (if rest = [x] then map_option (\<lambda>u. score_add 10 (u\<lparr>status := STATUS_ENDED\<rparr>)) (users w2 x) else users w2 x)"
      unfolding u4(2) by (auto split: list.splits)
    show "users w' x = (if x = s then Some ?me
     else map_option (left_behind (rest = [x]) (?e \<and> x \<in> set (seated cb))) (users w x))"
    proof (cases "x = s")
      case True
      then have "rest \<noteq> [x]" using rest_in by blast
      then show ?thesis using True unfolding w' w6 u5(2) x4 u2 st2
        by (auto simp: leaver_def)
    next
      case False
      have "x \<in> set (seated cb2) \<longleftrightarrow> x \<in> set (seated cb)" using False st2 by simp
      then show ?thesis using False unfolding w' w6 u5(2) x4 u2
        by (cases "users w x") (auto simp: left_behind_def)
    qed
  qed
qed

section \<open>Chat and peace\<close>

lemma chat_log:
  assumes "parse_UserMessage E msg = Some um" "boards w b = Some cb"
    and "UserMessageHandle E b msg w = Some (r, w')"
  shows "r \<and> quiet w w' \<and> netlog w' = frames_to w MSG_USER_MSG msg (receivers (um_src_user_locate um) cb) @ netlog w"
  using assms by (auto simp: UserMessageHandle_def elim!: bind_SomeE dest!: BroadCastMsg_log)

lemma peace_users:
  assumes "parse_Reconciled E msg = Some rc" "ty = MSG_RECONCILED_REQ \<or> rc_apply_or_reply rc = 0"
    and "boards w b = Some cb" "ReconciledHandle E b msg ty w = Some (r, w')"
  shows "users w' = (\<lambda>x. if rc_status rc = Some ''All'' \<and> x \<in> set (seated cb)
      then map_option (\<lambda>u. u\<lparr>status := STATUS_ENDED\<rparr>) (users w x) else users w x) \<and>
    netlog w' = frames_to w ty msg (receivers (rc_src_user_locate rc) cb) @ netlog w"
proof -
  obtain w1 where 1: "BroadCastMsg b ty msg (rc_src_user_locate rc) w = Some w1"
    and 2: "(if rc_status rc = Some ''All'' then set_all_status STATUS_ENDED b w1 else Some w1) = Some w'"
    using assms by (auto simp: ReconciledHandle_def simp del: if_split elim!: bind_SomeE)
  note bc = BroadCastMsg_log [OF 1 assms(3)]
  then have u1: "users w1 = users w" "boards w1 b = Some cb"
    using quiet_users assms(3) by (auto simp: quiet_def)
  show ?thesis
  proof (cases "rc_status rc = Some ''All''")
    case True
    then have 2: "set_all_status STATUS_ENDED b w1 = Some w'" using 2 by simp
    show ?thesis
      using users_set_all_status [OF 2 u1(2)] set_all_status_eq [OF 2 u1(2)] bc u1(1) True by (auto simp: fun_eq_iff)
  next
    case False
    then show ?thesis using 2 bc u1(1) by (auto simp: fun_eq_iff)
  qed
qed

section \<open>The game begins\<close>

text \<open>All three seats are taken, by users with status \<open>STATUS_BEGAN\<close>.\<close>

definition all_began :: "(sid \<Rightarrow> UserSession option) \<Rightarrow> ChessBoard \<Rightarrow> bool" where
  "all_began us cb \<longleftrightarrow> (\<forall>l \<in> set seats. \<exists>s u. GetUserByLocation l cb = Some s \<and> us s = Some u \<and> status u = STATUS_BEGAN)"

lemma halls_steps:
  "set_status st s w = Some w' \<Longrightarrow> halls_ok w \<Longrightarrow> halls_ok w'"
  "BroadCastMsg b ty d l w = Some w' \<Longrightarrow> halls_ok w \<Longrightarrow> halls_ok w'"
  by (erule postD [where K = halls_ok and P = halls_ok, rotated], auto intro!: calls)+

lemma status_at_began:
  "status_at p w = Some x \<Longrightarrow> x = Some STATUS_BEGAN \<longleftrightarrow> (\<exists>s u. p = Some s \<and> users w s = Some u \<and> status u = STATUS_BEGAN)"
  by (cases p) (auto simp: status_at_users)

lemma three_seated: "leftUser cb = Some l \<Longrightarrow> rightUser cb = Some r \<Longrightarrow> bottomUser cb = Some bt \<Longrightarrow> seated cb = [l, r, bt]"
  by (simp add: seated_eq)

lemma users_set_status_fun:
  "set_status st s w = Some w' \<Longrightarrow>
     users w' = (\<lambda>x. if x = s then map_option (\<lambda>u. u\<lparr>status := st\<rparr>) (users w x) else users w x) \<and> boards w' = boards w"
  by (drule users_set_status) (auto simp: fun_eq_iff)

lemma users_start:
  assumes 1: "set_status STATUS_PLAYING rs w = Some w1" and 2: "set_status STATUS_PLAYING ls w1 = Some w2"
    and 3: "set_status STATUS_PLAYING bs w2 = Some w3"
  shows "users w3 = (\<lambda>x. if x \<in> {ls, rs, bs} then map_option (\<lambda>u. u\<lparr>status := STATUS_PLAYING\<rparr>) (users w x) else users w x) \<and>
    boards w3 = boards w"
  using users_set_status_fun [OF 1] users_set_status_fun [OF 2] users_set_status_fun [OF 3]
  by (simp add: fun_eq_iff option.map_comp comp_def)

lemma ready_users:
  assumes i: "seat_inv {} w" and p: "parse_GameReadyReq E msg = Some g" and cb: "boards w b = Some cb"
    and r: "GameReadyHandle E b msg w = Some (r, w')"
  defines "wb \<equiv> (\<lambda>x. if GetUserByLocation (gr_src_user_locate g) cb = Some x
      then map_option (\<lambda>u. u\<lparr>status := STATUS_BEGAN\<rparr>) (users w x) else users w x)"
  shows "users w' = (\<lambda>x. if all_began wb cb \<and> x \<in> set (seated cb)
      then map_option (\<lambda>u. u\<lparr>status := STATUS_PLAYING\<rparr>) (wb x) else wb x)"
proof -
  let ?src = "GetUserByLocation (gr_src_user_locate g) cb"
  let ?clock = "gr_src_user_locate g = first_come_user_locate cb \<and> gr_total_time g \<noteq> None \<and> gr_single_step_time g \<noteq> None"
  let ?f = "\<lambda>cb. cb\<lparr>total_time := getd 0 (gr_total_time g), single_step_time := getd 0 (gr_single_step_time g)\<rparr>"
  obtain w1 w2 cb2 l rt bt d w3 where
    1: "(case ?src of None \<Rightarrow> Some w | Some s \<Rightarrow> set_status STATUS_BEGAN s w) = Some w1" and
    2: "(if ?clock then upd_board b ?f w1 else Some w1) = Some w2" and cb2: "boards w2 b = Some cb2" and
    st: "status_at (leftUser cb2) w2 = Some l" "status_at (rightUser cb2) w2 = Some rt" "status_at (bottomUser cb2) w2 = Some bt" and
    3: "BroadCastMsg b MSG_GAME_STATUS d LOCATION_MAX w2 = Some w3" and
    4: "(if l = Some STATUS_BEGAN \<and> rt = Some STATUS_BEGAN \<and> bt = Some STATUS_BEGAN
                then do {
                  rs \<leftarrow> rightUser cb2;
                  w \<leftarrow> set_status STATUS_PLAYING rs w3;
                  ls \<leftarrow> leftUser cb2;
                  w \<leftarrow> set_status STATUS_PLAYING ls w;
                  bs \<leftarrow> bottomUser cb2;
                  w \<leftarrow> set_status STATUS_PLAYING bs w;
                  BroadCastHallInfo E b bs w }
                else Some w3) = Some w'"
    using r p cb unfolding GameReadyHandle_def by (auto simp del: if_split elim!: bind_SomeE)
  have u1: "users w1 = wb" "boards w1 = boards w"
    using 1 by (auto simp: wb_def fun_eq_iff split: option.splits dest!: users_set_status)
  have u2: "users w2 = wb" "cb2 = (if ?clock then ?f cb else cb)"
    using 2 users_upd_board [of b ?f w1 w2] u1 cb cb2 by (auto split: if_splits)
  have seats2: "leftUser cb2 = leftUser cb" "rightUser cb2 = rightUser cb" "bottomUser cb2 = bottomUser cb"
    using u2(2) by auto
  have u3: "users w3 = wb" using users_BroadCastMsg [OF 3 cb2] u2 by simp
  have ab: "all_began wb cb \<longleftrightarrow> l = Some STATUS_BEGAN \<and> rt = Some STATUS_BEGAN \<and> bt = Some STATUS_BEGAN"
    using status_at_began [OF st(1)] status_at_began [OF st(2)] status_at_began [OF st(3)]
    by (auto simp: all_began_def seats2 u1 u2)
  show ?thesis
  proof (cases "all_began wb cb")
    case False
    then show ?thesis using 4 u3 ab by auto
  next
    case True
    then obtain rs ls bs v1 v2 v3 where s: "rightUser cb = Some rs" "leftUser cb = Some ls" "bottomUser cb = Some bs"
      and v: "set_status STATUS_PLAYING rs w3 = Some v1" "set_status STATUS_PLAYING ls v1 = Some v2"
      "set_status STATUS_PLAYING bs v2 = Some v3" and h: "BroadCastHallInfo E b bs v3 = Some w'"
      using 4 ab seats2 by (auto elim!: bind_SomeE)
    have "halls_ok w1" using 1 seat_inv_halls [OF i] by (auto split: option.splits intro: halls_steps(1))
    then have "halls_ok w2" using 2 halls_board_write [of w1 b] by (auto dest: board_write split: if_splits)
    then have "halls_ok v3" using 3 v by (blast intro: halls_steps)
    then have "users w' = users v3" using h by (intro users_BroadCastHallInfo)
    then show ?thesis using users_start [OF v] u3 True three_seated [OF s(2,1,3)] by (auto simp: fun_eq_iff)
  qed
qed

end
