(* ===== verification/Joining.thy ===== *)
theory Joining
  imports Game_Flow
begin

text \<open>
  Who gets a seat: \<open>GameRequestHandle\<close> seats the user exactly when the table has not begun
  its game and the seat exists and is free, and moves nobody else.
\<close>

definition joinable :: "world \<Rightarrow> bid \<Rightarrow> u32 \<Rightarrow> bool" where
  "joinable w b l \<longleftrightarrow> l \<in> set seats \<and> (case boards w b of None \<Rightarrow> True
     | Some cb \<Rightarrow> GetUserByLocation l cb = None \<and> GameBegan b w = Some False)"

lemma GetChessBoardByID_netlog:
  "GetChessBoardByID E h i w = Some (p, w') \<Longrightarrow> netlog w' = netlog w"
  by (auto simp: GetChessBoardByID_def CreateChessBoard_def split: if_splits option.splits elim!: bind_SomeE)

lemma status_at_same:
  "(\<And>x. map_option status (users w' x) = map_option status (users w x)) \<Longrightarrow> status_at p w' = status_at p w"
proof -
  assume e: "\<And>x. map_option status (users w' x) = map_option status (users w x)"
  have "map_option (\<lambda>u. Some (status u)) y = map_option Some (map_option status y)" for y
    by (cases y) simp_all
  then have "map_option (\<lambda>u. Some (status u)) (users w' x) = map_option (\<lambda>u. Some (status u)) (users w x)" for x
    using e [of x] by metis
  then show ?thesis by (cases p) (simp_all add: status_at_users)
qed

lemma GameBegan_same:
  assumes "\<And>x. map_option status (users w' x) = map_option status (users w x)" "boards w' b = boards w b"
  shows "GameBegan b w' = GameBegan b w"
  using assms(2) status_at_same [OF assms(1)] by (simp add: GameBegan_def count_status_def)

lemma GameBegan_new: "boards w b = Some (ChessBoard_new i h) \<Longrightarrow> GameBegan b w = Some False"
  by (simp add: GameBegan_def count_status_def status_at_def ChessBoard_new_def)

lemma put_others:
  assumes "seat_inv {} w" "tracked {} (put s v (shape w)) w'" "s' \<noteq> s"
  shows "sits_at w' b l s' = sits_at w b l s'"
proof -
  have sh: "shape w' = put s v (shape w)" using assms(2) by (simp add: tracked_def)
  have "map_option ident (sess w' s') = map_option ident (sess w s')"
    using arg_cong [OF sh, of "\<lambda>x. fst x s'"] assms(3) by simp
  then have "has_place w' s' b l = has_place w s' b l" by (rule has_place_ident)
  moreover have "sits_at w b l s' = has_place w s' b l"
    using assms(1) unfolding seat_inv_def by blast
  moreover have "sits_at w' b l s' = has_place w' s' b l"
    using assms(2) unfolding tracked_def seat_inv_def by blast
  ultimately show ?thesis by simp
qed

lemma request_tracked:
  assumes i: "seat_inv {} w" and u: "sess w s = Some u" "currChessBoard u = None"
    and r: "GameRequestHandle E s msg w = Some (x, w')"
  shows "\<exists>v. tracked {} (put s v (shape w)) w'"
proof -
  let ?P = "\<lambda>(x :: bool, w'). \<exists>v. tracked {} (put s v (shape w)) w'"
  have t: "tracked {} (shape w) w" using i by (rule tracked_self)
  have same: "put s (ident u) (shape w) = shape w"
    using u(1) by (auto simp: put_def shape_def fun_eq_iff)
  have "post (tracked {} (shape w)) ?P (GameRequestHandle E s msg w)"
    by (rule call_GameRequestHandle [OF t, of s "ident u"]) (use u in \<open>auto intro: exI [of _ "ident u"] simp: same\<close>)
  from postD [OF this r] show ?thesis by simp
qed

text \<open>After \<open>take_seat\<close> the user is ready at the table.\<close>

lemma take_seat_users:
  assumes "take_seat s b rp w = Some (rep, w')" "sess w s = Some u0"
  shows "\<exists>u. users w' s = Some u \<and> status u = STATUS_READY \<and> currChessBoard u = Some b \<and>
    nextState u = Some STATE_GAME_PLAY \<and> locate u = locate u0"
proof -
  obtain w1 w2 where "upd_sess s (\<lambda>u. u\<lparr>currChessBoard := Some b\<rparr>) w1 = Some w2" "set_status STATUS_READY s w = Some w1"
    and 3: "\<exists>w3 f. upd_board b f w2 = Some w3 \<and> upd_sess s (SetNextState STATE_GAME_PLAY) w3 = Some w'"
    using assms unfolding take_seat_def by (fastforce elim!: bind_SomeE)
  then obtain u where u: "sess w2 s = Some u" "status u = STATUS_READY" "currChessBoard u = Some b" "locate u = locate u0"
    using assms(2) by (auto dest!: sess_upd set_status_eq)
  have "sess w' s = Some (SetNextState STATE_GAME_PLAY u)"
    using 3 u by (auto dest!: sess_upd board_write)
  then show ?thesis using u by (auto simp: users_def SetNextState_def strip_def)
qed

text \<open>The first part of the handler: the table is found or made, the wish is noted.\<close>

lemma halls_writes:
  "upd_sess s f w = Some w' \<Longrightarrow> halls_ok w' = halls_ok w"
  "upd_board b g w = Some w' \<Longrightarrow> halls_ok w' = halls_ok w"
  by (auto dest!: sess_upd board_write simp: halls_board_write)

lemma halls_take_seat: "take_seat s b rp w = Some (rep, w') \<Longrightarrow> halls_ok w' = halls_ok w"
  by (auto simp: take_seat_def set_status_def elim!: bind_SomeE dest!: halls_writes)

lemma request_found:
  assumes i: "seat_inv {} w" and u: "sess w s = Some u"
    and 1: "GetChessBoardByID E h k w = Some (p, w1)"
    and 2: "upd_sess s (\<lambda>u. u\<lparr>locate := l\<rparr>) w1 = Some w2" and b: "p = Some b" and cb: "boards w2 b = Some cb"
    and g: "GameBegan b w2 = Some began"
  shows "b = (h, k) \<and> k \<noteq> 0 \<and> k \<le> chessBoardMax \<and> netlog w2 = netlog w \<and>
    halls_ok w2 \<and>
    (\<exists>u2. sess w2 s = Some u2 \<and> clifd u2 = clifd u \<and> currChessBoard u2 = currChessBoard u \<and> locate u2 = l) \<and>
    (began \<or> \<not> fst (AddUser (Some s) l cb) \<longleftrightarrow> \<not> joinable w b l)"
proof -
  note sp = GetChessBoardByID_spec [OF 1 seat_inv_halls [OF i]]
  have t: "talk w w1" and be: "b = (h, k)" and k: "k \<noteq> 0" "k \<le> chessBoardMax" using sp b by blast+
  obtain u1 where u1: "sess w1 s = Some u1" and w2: "w2 = w1\<lparr>sess := (sess w1)(s \<mapsto> u1\<lparr>locate := l\<rparr>)\<rparr>"
    using sess_upd [OF 2] by blast
  have "strip u1 = strip u" using users_talk [OF t] users_Some [OF u] users_Some [OF u1] by simp
  then have cl: "clifd u1 = clifd u" "currChessBoard u1 = currChessBoard u" by (rule strip_fields)+
  have st: "map_option status (users w2 x) = map_option status (users w x)" for x
  proof -
    have "users w1 x = users w x" using users_talk [OF t] by simp
    then show ?thesis using u1 by (auto simp: w2 users_def strip_def dest: arg_cong [where f = "map_option status"])
  qed
  have i1: "seat_inv {} w1" using keeps_seat_inv [OF talk_keeps [OF t] i] .
  have ok: "board_ok cb" using i1 cb by (auto simp: w2 intro: seat_inv_board)
  have j: "joinable w b l \<longleftrightarrow> \<not> began \<and> fst (AddUser (Some s) l cb)"
  proof (cases "boards w b")
    case None
    then have "cb = ChessBoard_new (snd b) (fst b)" using t cb unfolding talk_def w2 by simp
    then show ?thesis
      using None g GameBegan_new [of w2 b "snd b" "fst b"] cb AddUser_iff [OF ok, of s l] by (simp add: joinable_def)
  next
    case (Some cb0)
    then have "boards w1 b = Some cb0" using t unfolding talk_def by blast
    then have c: "cb0 = cb" using cb by (simp add: w2)
    have "GameBegan b w2 = GameBegan b w" using st by (rule GameBegan_same) (simp add: Some c cb)
    then show ?thesis using g Some c AddUser_iff [OF ok, of s l] by (auto simp: joinable_def)
  qed
  show ?thesis
    using be k j cl GetChessBoardByID_netlog [OF 1] talk_halls [OF t] by (auto simp: w2)
qed

lemma request_play:
  assumes i: "seat_inv {} w" and u: "sess w s = Some u" "currChessBoard u = None"
    and p: "parse_RequestPlay E msg = Some rp" and h: "rp_game_hall_id rp \<in> set hall_numbers"
    and r: "GameRequestHandle E s msg w = Some (x, w')"
  defines "b \<equiv> (rp_game_hall_id rp, rp_chess_board_id rp)"
  shows "snd b \<noteq> 0 \<and> snd b \<le> chessBoardMax \<and>
    (\<forall>b' l' s'. s' \<noteq> s \<longrightarrow> sits_at w' b' l' s' = sits_at w b' l' s') \<and>
    (if joinable w b (rp_locate rp)
     then sits_at w' b (rp_locate rp) s \<and>
       (\<exists>u'. users w' s = Some u' \<and> status u' = STATUS_READY \<and> nextState u' = Some STATE_GAME_PLAY)
     else (\<forall>b' l'. \<not> sits_at w' b' l' s) \<and> (\<exists>c. netlog w' = frame_to u MSG_REQUEST_PLAY_REPLY
       (ser_RequestPlayReply E \<lparr>rr_status = 0, rr_first_come_user_locate = c, rr_chessboard = None\<rparr>) @ netlog w))"
proof -
  let ?l = "rp_locate rp"
  obtain q w1 w2 b0 began cb where 1: "GetChessBoardByID E (rp_game_hall_id rp) (rp_chess_board_id rp) w = Some (q, w1)"
    and 2: "upd_sess s (\<lambda>u. u\<lparr>locate := ?l\<rparr>) w1 = Some w2" and b0: "q = Some b0"
    and g: "GameBegan b0 w2 = Some began" and cb: "boards w2 b0 = Some cb"
    and r2: "(if began \<or> \<not> fst (AddUser (Some s) ?l cb) then do {
                w \<leftarrow> reply s MSG_REQUEST_PLAY_REPLY (ser_RequestPlayReply E
                       \<lparr>rr_status = 0, rr_first_come_user_locate = first_come_user_locate cb,
                        rr_chessboard = None\<rparr>) w2;
                Some (True, w) }
              else do {
                w \<leftarrow> upd_board b0 (\<lambda>cb. snd (AddUser (Some s) ?l cb)) w2;
                (rep, w) \<leftarrow> take_seat s b0 rp w;
                w \<leftarrow> reply s MSG_REQUEST_PLAY_REPLY (ser_RequestPlayReply E rep) w;
                u \<leftarrow> sess w s;
                mine \<leftarrow> currChessBoard u;
                w \<leftarrow> BroadCastMsg mine MSG_REQUEST_PLAY_REPLY
                       (ser_RequestPlayReply E (rep\<lparr>rr_status := 2\<rparr>)) (locate u) w;
                w \<leftarrow> BroadCastHallInfo E mine s w;
                Some (True, w) }) = Some (x, w')"
    using r p h by (auto simp: GameRequestHandle_def GetGameHall_eq [OF seat_inv_halls [OF i]] simp del: if_split
        elim!: bind_SomeE)
  note f = request_found [OF i u(1) 1 2 b0 cb g]
  then have be: "b0 = b" by (simp add: b_def)
  obtain v where tr: "tracked {} (put s v (shape w)) w'" using request_tracked [OF i u r] by blast
  have others: "\<forall>b' l' s'. s' \<noteq> s \<longrightarrow> sits_at w' b' l' s' = sits_at w b' l' s'"
    using put_others [OF i tr] by blast
  have i': "seat_inv {} w'" using tr by (simp add: tracked_def)
  have "if joinable w b ?l then sits_at w' b ?l s \<and>
       (\<exists>u'. users w' s = Some u' \<and> status u' = STATUS_READY \<and> nextState u' = Some STATE_GAME_PLAY)
     else (\<forall>b' l'. \<not> sits_at w' b' l' s) \<and> (\<exists>c. netlog w' = frame_to u MSG_REQUEST_PLAY_REPLY
       (ser_RequestPlayReply E \<lparr>rr_status = 0, rr_first_come_user_locate = c, rr_chessboard = None\<rparr>) @ netlog w)"
  proof (cases "joinable w b ?l")
    case False
    then have "began \<or> \<not> fst (AddUser (Some s) ?l cb)" using f be by blast
    then have rp: "reply s MSG_REQUEST_PLAY_REPLY (ser_RequestPlayReply E
       \<lparr>rr_status = 0, rr_first_come_user_locate = first_come_user_locate cb, rr_chessboard = None\<rparr>) w2 = Some w'"
      using r2 by (auto elim!: bind_SomeE)
    obtain u2 where u2: "sess w2 s = Some u2" "clifd u2 = clifd u" "currChessBoard u2 = None" using f u(2) by auto
    have "\<not> has_place w' s b' l'" for b' l'
      using reply_eq [OF rp] u2 by (auto simp: has_place_def GetBuffer_def)
    moreover have "netlog w' = frame_to u MSG_REQUEST_PLAY_REPLY (ser_RequestPlayReply E
       \<lparr>rr_status = 0, rr_first_come_user_locate = first_come_user_locate cb, rr_chessboard = None\<rparr>) @ netlog w"
      using reply_eq [OF rp] u2 f by (auto simp: frame_to_def)
    ultimately show ?thesis using False i' unfolding seat_inv_def by auto
  next
    case True
    then have "\<not> (began \<or> \<not> fst (AddUser (Some s) ?l cb))" using f be by blast
    then obtain w3 rep w4 w5 u5 mine w6 d d' where ub: "upd_board b0 (\<lambda>cb. snd (AddUser (Some s) ?l cb)) w2 = Some w3" and 3: "take_seat s b0 rp w3 = Some (rep, w4)"
      and 4: "reply s MSG_REQUEST_PLAY_REPLY d w4 = Some w5" and u5: "sess w5 s = Some u5" "currChessBoard u5 = Some mine"
      and 5: "BroadCastMsg mine MSG_REQUEST_PLAY_REPLY d' (locate u5) w5 = Some w6" and 6: "BroadCastHallInfo E mine s w6 = Some w'"
      using r2 by (auto elim!: bind_SomeE)
    obtain u3 where u3: "sess w3 s = Some u3" "locate u3 = ?l" using f board_write [OF ub] by auto
    obtain u4 where u4: "users w4 s = Some u4" "status u4 = STATUS_READY" "currChessBoard u4 = Some b0"
      "nextState u4 = Some STATE_GAME_PLAY" "locate u4 = ?l" using take_seat_users [OF 3 u3(1)] u3(2) by auto
    have h4: "halls_ok w4" using halls_take_seat [OF 3] halls_writes(2) [OF ub] f by blast
    have t5: "talk w4 w5" using 4 h4 by (rule talk_reply)
    have t6: "talk w5 w6" using 5 talk_halls [OF t5] by (rule talk_BroadCastMsg)
    have "talk w6 w'" using 6 talk_halls [OF t6] by (rule talk_BroadCastHallInfo)
    then have s': "users w' s = Some u4" using t5 t6 u4(1) by (simp add: users_talk)
    then have "has_place w' s b ?l"
      using u4 be by (auto simp: users_def has_place_def)
    then have "sits_at w' b ?l s" using i' unfolding seat_inv_def by blast
    then show ?thesis using True s' u4 by auto
  qed
  then show ?thesis using f be others by (auto simp: b_def)
qed

end
