(* ===== verification/Login.thy ===== *)
theory Login
  imports Broadcast
begin

text \<open>
  Logging in: which request is accepted, what the session holds afterwards, and which
  messages a session that has not logged in can use at all.
\<close>

text \<open>No session of the thread has the account.\<close>

definition account_free :: "WorkThread \<Rightarrow> string \<Rightarrow> world \<Rightarrow> bool" where
  "account_free t acct w \<longleftrightarrow> (\<forall>s \<in> set (sm_vals (fdSessionMap t)).
     \<exists>u. sess w s = Some u \<and> account (user_info u) \<noteq> acct)"

lemma no_session_named_eq:
  "no_session_named ss acct w = Some r \<Longrightarrow>
     r \<longleftrightarrow> (\<forall>s \<in> set ss. \<exists>u. sess w s = Some u \<and> account (user_info u) \<noteq> acct)"
proof (induction ss acct w rule: no_session_named.induct)
  case (2 s ss acct w)
  then obtain u where u: "sess w s = Some u" by (auto elim!: bind_SomeE)
  show ?case using 2 u by (cases "account (user_info u) = acct") auto
qed simp

lemma GetIndividualUser_eq: "GetIndividualUser t acct w = Some r \<Longrightarrow> r \<longleftrightarrow> account_free t acct w"
  unfolding GetIndividualUser_def account_free_def by (rule no_session_named_eq)

text \<open>The account is in the database, with this password.\<close>

definition credentials :: "env \<Rightarrow> LogOnorOut \<Rightarrow> UserSession \<Rightarrow> string list \<Rightarrow> bool" where
  "credentials E lo u log \<longleftrightarrow> (case GetUsersInfoFromDB E (lo_account lo) (user_info u) log of
       None \<Rightarrow> False | Some (found, info, log') \<Rightarrow> found \<and> password info = lo_password lo)"

lemma login_ok_user:
  assumes "login_ok E s con info w = Some (rep, w')"
  shows "rs_status rep = 1 \<and> (\<exists>u photo. sess w' s = Some u \<and> user_info u = info\<lparr>head_photo := photo\<rparr>)"
  using assms
  by (auto simp: login_ok_def lift_db3_def elim!: bind_SomeE dest!: sess_upd)

lemma login_spec:
  assumes p: "parse_LogOnorOut E msg = Some lo" and u: "sess w s = Some u"
    and t: "the_thread (thread u) w = Some t" and r: "HandleLogin E s msg w = Some (ret, w')"
  shows "(ret \<longleftrightarrow> account_free t (lo_account lo) w \<and> credentials E lo u (dblog w)) \<and>
    (\<exists>u'. sess w' s = Some u' \<and> (ret \<longrightarrow> password (user_info u') = lo_password lo) \<and>
      (\<forall>info log. account_free t (lo_account lo) w \<longrightarrow>
        GetUsersInfoFromDB E (lo_account lo) (user_info u) (dblog w) = Some (True, info, log) \<longrightarrow>
        account (user_info u') = (if ret then account info else [])))"
proof -
  obtain free w1 rep where free: "GetIndividualUser t (lo_account lo) w = Some free"
    and 1: "(if \<not> free then Some (False, status_only 0, w)
             else do {
               (found, info, w) \<leftarrow> lift_db3 (GetUsersInfoFromDB E (lo_account lo) (user_info u)) w;
               w \<leftarrow> upd_sess s (\<lambda>u. u\<lparr>user_info := info\<rparr>) w;
               if found then
                 (if password info = lo_password lo then do {
                    (rep, w) \<leftarrow> login_ok E s (pdb_con t) info w;
                    Some (True, rep, w) }
                  else do {
                    w \<leftarrow> upd_sess s (\<lambda>u. u\<lparr>user_info := info\<lparr>account := []\<rparr>\<rparr>) w;
                    Some (False, status_only 0, w) })
               else Some (False, status_only 0, w) }) = Some (ret, rep, w1)"
    and 2: "\<exists>d. reply s MSG_LOGIN_REPLY d w1 = Some w'"
    using r p u t by (auto simp: HandleLogin_def simp del: if_split elim!: bind_SomeE)
  have f: "free \<longleftrightarrow> account_free t (lo_account lo) w" using free by (rule GetIndividualUser_eq)
  have rep: "\<exists>u'. sess w' s = Some u' \<and> user_info u' = user_info u1" if "sess w1 s = Some u1" for u1
    using 2 that by (auto dest!: reply_eq)
  show ?thesis
  proof (cases free)
    case False
    then show ?thesis using 1 f rep u by auto
  next
    case True
    then obtain found info log where g: "GetUsersInfoFromDB E (lo_account lo) (user_info u) (dblog w) = Some (found, info, log)"
      using 1 by (auto simp: lift_db3_def elim!: bind_SomeE)
    then have c: "credentials E lo u (dblog w) \<longleftrightarrow> found \<and> password info = lo_password lo"
      by (simp add: credentials_def)
    let ?w = "w\<lparr>dblog := log, sess := (sess w)(s \<mapsto> u\<lparr>user_info := info\<rparr>)\<rparr>"
    have 3: "(if found then
                 (if password info = lo_password lo then do {
                    (rep, w) \<leftarrow> login_ok E s (pdb_con t) info ?w;
                    Some (True, rep, w) }
                  else do {
                    w \<leftarrow> upd_sess s (\<lambda>u. u\<lparr>user_info := info\<lparr>account := []\<rparr>\<rparr>) ?w;
                    Some (False, status_only 0, w) })
               else Some (False, status_only 0, ?w)) = Some (ret, rep, w1)"
      using 1 True g u by (simp add: lift_db3_def upd_sess_def)
    consider (good) "found" "password info = lo_password lo" | (bad) "found" "password info \<noteq> lo_password lo"
      | (none) "\<not> found" by blast
    then show ?thesis
    proof cases
      case good
      then obtain "ret" and l: "login_ok E s (pdb_con t) info ?w = Some (rep, w1)"
        using 3 by (auto elim!: bind_SomeE)
      then obtain u1 photo where "sess w1 s = Some u1" "user_info u1 = info\<lparr>head_photo := photo\<rparr>"
        using login_ok_user [OF l] by blast
      then show ?thesis using good f c True g rep \<open>ret\<close> by auto
    next
      case bad
      then have "\<not> ret" and l: "w1 = ?w\<lparr>sess := (sess w)(s \<mapsto> u\<lparr>user_info := info\<lparr>account := []\<rparr>\<rparr>)\<rparr>"
        using 3 by (auto simp: upd_sess_def)
      then show ?thesis using bad f c True g rep by auto
    next
      case none
      then show ?thesis using 3 f c True g rep by auto
    qed
  qed
qed

text \<open>The messages of the state before the login.\<close>

lemma auth_rejects:
  assumes "ty \<notin> mt_code ` {MSG_REGISTER, MSG_LOGIN, MSG_LOGOUT, MSG_ECHO, MSG_FIND_PASSWORD}"
  shows "StateAuth_MsgHandle E s ty msg w = Some (False, w)"
  using assms by (simp add: StateAuth_MsgHandle_def)

lemma auth_login_next:
  assumes p: "parse_LogOnorOut E msg = Some lo" and u: "sess w s = Some u" "nextState u = Some STATE_AUTH"
    and t: "the_thread (thread u) w = Some t" and h: "halls_ok w"
    and r: "StateAuth_MsgHandle E s (mt_code MSG_LOGIN) msg w = Some (x, w')"
  shows "\<exists>u'. sess w' s = Some u' \<and>
    nextState u' = Some (if account_free t (lo_account lo) w \<and> credentials E lo u (dblog w)
      then STATE_DOWN_AD else STATE_AUTH)"
proof -
  obtain ret w1 where 1: "HandleLogin E s msg w = Some (ret, w1)"
    and 2: "(if ret then upd_sess s (SetNextState STATE_DOWN_AD) w1 else Some w1) = Some w'"
    using r by (auto simp: StateAuth_MsgHandle_def simp del: if_split elim!: bind_SomeE)
  have "post (keeps w) (\<lambda>(r, w'). keeps w w') (HandleLogin E s msg w)"
    using h by (auto intro!: calls stable_keeps_self keeps_refl)
  from postD [OF this 1] have "keeps w w1" by simp
  then obtain u1 where u1: "sess w1 s = Some u1" "ident u1 = ident u"
    using u(1) ident_lookup [of w1 s w u] by (auto simp: keeps_def)
  have "nextState u1 = Some STATE_AUTH" using ident_eqD(6) [OF u1(2)] u(2) by simp
  then show ?thesis
    using 2 u1 login_spec [OF p u(1) t 1] by (auto simp: SetNextState_def dest!: sess_upd split: if_splits)
qed

end
