(* ===== verification/Progress.thy ===== *)
theory Progress
  imports Joining Login
begin

text \<open>
  When the server does not crash. \<open>wired E S B w\<close>: the sessions in \<open>S\<close>, among them everybody
  who sits at a table or is connected, can be written to, and the boards in \<open>B\<close> exist. From
  such states every sending operation returns; the handlers return except where they
  dereference an empty seat.
\<close>

definition usable :: "world \<Rightarrow> UserSession \<Rightarrow> bool" where
  "usable w u \<longleftrightarrow> the_thread (thread u) w \<noteq> None \<and> (clifd u < 0 \<or> bufev u)"

definition wired :: "env \<Rightarrow> sid set \<Rightarrow> bid set \<Rightarrow> world \<Rightarrow> bool" where
  "wired E S B w \<longleftrightarrow> end_reads_null E \<and> db_plain E \<and> halls_ok w \<and> boards_ok w \<and>
     (\<forall>b l s. sits_at w b l s \<longrightarrow> s \<in> S) \<and> set (all_sessions w) \<subseteq> S \<and>
     (\<forall>s \<in> S. \<exists>u. sess w s = Some u \<and> usable w u) \<and> (\<forall>b \<in> B. boards w b \<noteq> None)"

lemma wired_env: "wired E S B w \<Longrightarrow> end_reads_null E \<and> db_plain E \<and> halls_ok w \<and> boards_ok w"
  by (simp add: wired_def)

lemma wired_sess: "wired E S B w \<Longrightarrow> s \<in> S \<Longrightarrow> \<exists>u. sess w s = Some u \<and> usable w u"
  unfolding wired_def by blast

lemma wired_board: "wired E S B w \<Longrightarrow> b \<in> B \<Longrightarrow> \<exists>cb. boards w b = Some cb"
  unfolding wired_def by blast

lemma wired_seat:
  "wired E S B w \<Longrightarrow> boards w b = Some cb \<Longrightarrow> GetUserByLocation l cb = Some s \<Longrightarrow> s \<in> S"
  unfolding wired_def sits_at_def by blast

lemma the_thread_cong: "threadList w' = threadList w \<Longrightarrow> the_thread t w' = the_thread t w"
  by (cases t) (simp_all add: the_thread_def)

lemma stable_wired [simp]: "stable (wired E S B)"
  unfolding stable_def
proof (intro conjI allI impI)
  fix w w' assume w: "wired E S B w" and k: "keeps w w'"
  have th: "threadList w' = threadList w" using k by (simp add: keeps_def)
  have "\<exists>u. sess w' s = Some u \<and> usable w' u" if s: "s \<in> S" for s
  proof -
    obtain u where u: "sess w s = Some u" "usable w u" using wired_sess [OF w s] by blast
    have "map_option ident (sess w' s) = map_option ident (sess w s)" using k by (simp add: keeps_def)
    then obtain u' where "sess w' s = Some u'" "ident u' = ident u" using u(1) by (rule ident_lookup)
    then show ?thesis using u(2) ident_eqD [of u' u] the_thread_cong [OF th] by (auto simp: usable_def)
  qed
  moreover have "boards w' b \<noteq> None" if "b \<in> B" for b
    using wired_board [OF w that] keeps_old [OF k] by fastforce
  moreover have "all_sessions w' = all_sessions w" using th by (simp add: all_sessions_def)
  ultimately show "wired E S B w'"
    using w keeps_sits_at [OF k] keeps_boards_ok [OF k] keeps_halls [OF k] unfolding wired_def by simp
qed (simp add: wired_env)

section \<open>Rules for returning\<close>

named_theorems runs "operations that return"

definition ret :: "'a option \<Rightarrow> bool" where
  "ret m \<longleftrightarrow> m \<noteq> None"

lemma ret_simps [simp]: "ret (Some x)" "\<not> ret None"
  by (simp_all add: ret_def)

lemma retI: "m \<noteq> None \<Longrightarrow> ret m"
  by (simp add: ret_def)

lemma retD: "ret m \<Longrightarrow> m \<noteq> None"
  by (simp add: ret_def)

lemma ret_bind: "ret m \<Longrightarrow> post K (\<lambda>x. ret (f x)) m \<Longrightarrow> ret (Option.bind m f)"
  by (cases m) (auto simp: post_def)

lemma ret_if [runs]: "(c \<Longrightarrow> ret a) \<Longrightarrow> (\<not> c \<Longrightarrow> ret b) \<Longrightarrow> ret (if c then a else b)"
  by simp

lemma ret_option [runs]:
  "(p = None \<Longrightarrow> ret a) \<Longrightarrow> (\<And>x. p = Some x \<Longrightarrow> ret (b x)) \<Longrightarrow> ret (case p of None \<Rightarrow> a | Some x \<Rightarrow> b x)"
  by (cases p) simp_all

lemma runs_for_each:
  assumes "stable K" "K w" "\<And>x w. x \<in> set xs \<Longrightarrow> K w \<Longrightarrow> f x w \<noteq> None"
    and "\<And>x w. x \<in> set xs \<Longrightarrow> K w \<Longrightarrow> post K K (f x w)"
  shows "for_each f xs w \<noteq> None"
proof -
  have "\<exists>t. f x w = Some t \<and> K t" if "x \<in> set xs" "K w" for x w
    using assms(3) [OF that] postD [OF assms(4) [OF that]] by auto
  then have "\<exists>t. for_each f xs w = Some t \<and> K t" using assms(2) by (intro for_each_total) blast+
  then show ?thesis by blast
qed

lemma runs_reply: "wired E S B w \<Longrightarrow> s \<in> S \<Longrightarrow> reply s ty d w \<noteq> None"
  by (drule (1) wired_sess)
    (auto simp: reply_def MessageReply_def OnWrite_def usable_def upd_sess_def)

lemma runs_upd_sess: "wired E S B w \<Longrightarrow> s \<in> S \<Longrightarrow> upd_sess s f w \<noteq> None"
  by (drule (1) wired_sess) (auto simp: upd_sess_def)

lemma runs_set_status: "wired E S B w \<Longrightarrow> s \<in> S \<Longrightarrow> set_status st s w \<noteq> None"
  unfolding set_status_def by (rule runs_upd_sess)

lemma runs_upd_board: "wired E S B w \<Longrightarrow> b \<in> B \<Longrightarrow> upd_board b f w \<noteq> None"
  by (drule (1) wired_board) (auto simp: upd_board_def)

lemma runs_scores:
  "wired E S B w \<Longrightarrow> s \<in> S \<Longrightarrow> IncreaseScore E n s w \<noteq> None"
  "wired E S B w \<Longrightarrow> s \<in> S \<Longrightarrow> ReduceScore E n s w \<noteq> None"
  by (frule (1) wired_sess, drule wired_env, auto simp: IncreaseScore_def ReduceScore_def upd_sess_def
      usable_def lift_db_def UpdateUserScoreToDB_def run_cmd_plain score_add_def score_sub_def the_thread_def
      split: option.splits if_splits)+

lemma runs_BroadCastMsg:
  assumes "wired E S B w" "b \<in> B"
  shows "BroadCastMsg b ty d l w \<noteq> None"
  unfolding BroadCastMsg_def
proof (rule runs_for_each [of "wired E S B"])
  fix k w assume w: "wired E S B w"
  then obtain cb where cb: "boards w b = Some cb" using wired_board assms(2) by blast
  show "(if k \<noteq> l then do {
          cb \<leftarrow> boards w b;
          case GetUserByLocation k cb of None \<Rightarrow> Some w | Some s \<Rightarrow> reply s ty d w }
        else Some w) \<noteq> None"
    using cb runs_reply [OF w] wired_seat [OF w cb] by (auto split: option.splits)
  show "post (wired E S B) (wired E S B) (if k \<noteq> l then do {
          cb \<leftarrow> boards w b;
          case GetUserByLocation k cb of None \<Rightarrow> Some w | Some s \<Rightarrow> reply s ty d w }
        else Some w)"
    using w by (auto intro!: calls)
qed (use assms in simp_all)

section \<open>Halls and boards\<close>

lemma wired_infos:
  assumes "wired E S B w" "boards w b = Some cb"
  shows "WrapChessBoardInfo b w \<noteq> None"
proof -
  have "seat_info (GetUserByLocation l cb) w \<noteq> None" for l
  proof (cases "GetUserByLocation l cb")
    case (Some s)
    then obtain u where "sess w s = Some u" using wired_sess [OF assms(1) wired_seat [OF assms Some]] by blast
    then show ?thesis using Some by (simp add: seat_info_def)
  qed (simp add: seat_info_def)
  from this [of LOCATION_LEFT] this [of LOCATION_RIGHT] this [of LOCATION_BOTTOM] show ?thesis
    using assms(2) by (auto simp: WrapChessBoardInfo_def)
qed

lemma wired_status:
  assumes "wired E S B w" "boards w b = Some cb"
  shows "status_at (GetUserByLocation l cb) w \<noteq> None"
proof (cases "GetUserByLocation l cb")
  case (Some s)
  then obtain u where "sess w s = Some u" using wired_sess [OF assms(1) wired_seat [OF assms Some]] by blast
  then show ?thesis using Some by (simp add: status_at_def)
qed (simp add: status_at_def)

lemma wired_statuses:
  assumes "wired E S B w" "boards w b = Some cb"
  shows "status_at (leftUser cb) w \<noteq> None" "status_at (rightUser cb) w \<noteq> None" "status_at (bottomUser cb) w \<noteq> None"
  using wired_status [OF assms, of LOCATION_LEFT] wired_status [OF assms, of LOCATION_RIGHT]
    wired_status [OF assms, of LOCATION_BOTTOM] by simp_all

lemma wired_counts:
  assumes "wired E S B w" "boards w b = Some cb"
  shows "count_status P b w \<noteq> None" "GetActiveUsersNum b w \<noteq> None" "GameBegan b w \<noteq> None"
    "GetOnlyActiveUser b w \<noteq> None" "next_token b l w \<noteq> None" "all_ready b w \<noteq> None"
proof -
  show c: "count_status P b w \<noteq> None" for P
    using wired_statuses [OF assms] assms(2) by (auto simp: count_status_def)
  show "GetActiveUsersNum b w \<noteq> None" "GameBegan b w \<noteq> None" using c by (simp_all add: GetActiveUsersNum_def GameBegan_def)
  show "GetOnlyActiveUser b w \<noteq> None" "all_ready b w \<noteq> None" "next_token b l w \<noteq> None"
    using wired_statuses [OF assms] assms(2)
    by (auto simp: GetOnlyActiveUser_def all_ready_def next_token_def token_seat_def Let_def)
qed

lemma runs_GetChessBoardByID:
  assumes "wired E S B w" "h \<in> set hall_numbers"
  shows "GetChessBoardByID E h i w \<noteq> None"
proof -
  have h: "halls_ok w" and e: "end_reads_null E" using assms(1) by (simp_all add: wired_def)
  have "halls w h \<noteq> None" using h assms(2) unfolding halls_ok_def by blast
  then obtain hall where hall: "halls w h = Some hall" by blast
  have ok: "sm_ok (chessBoardInfo hall)" using h hall unfolding halls_ok_def by blast
  show ?thesis using hall e sm_find_insert [OF ok, of i i]
    by (auto simp: GetChessBoardByID_def CreateChessBoard_def split: option.splits)
qed

lemma runs_people:
  assumes "halls_ok w" "halls w h = Some hall"
  shows "GetCurrentPeopleNum hall w \<noteq> None"
proof -
  have ok: "sm_ok (chessBoardInfo hall)" using assms unfolding halls_ok_def by blast
  have b: "boards w b \<noteq> None" if "(i, b) \<in> set (chessBoardInfo hall)" for i b
    using assms sm_find_set [OF ok that] unfolding halls_ok_def by blast
  have "\<exists>t. for_each (\<lambda>(_, b) n. do { cb \<leftarrow> boards w b; Some (n + GetUserNum cb) }) (chessBoardInfo hall) 0 = Some t \<and> True"
    by (rule for_each_total) (use b in fastforce)+
  then show ?thesis by (auto simp: GetCurrentPeopleNum_def)
qed

lemma runs_wrap_boards:
  assumes "wired E S B w" "h \<in> set hall_numbers"
  shows "wrap_boards E h w \<noteq> None"
proof -
  let ?K = "wired E S B"
  have "\<exists>t. for_each (\<lambda>j (infos, w). do {
        (b, w) \<leftarrow> GetChessBoardByID E h j w;
        case b of None \<Rightarrow> Some (infos, w)
        | Some b \<Rightarrow> do {
            info \<leftarrow> WrapChessBoardInfo b w;
            Some (infos @ [info], w) } }) board_numbers ([], w) = Some t \<and> ?K (snd t)"
  proof (rule for_each_total)
    fix j and t :: "ChessBoardInfo list \<times> world" assume "?K (snd t)"
    then obtain infos w where t: "t = (infos, w)" and w: "?K w" by (cases t) simp
    obtain p w1 where g: "GetChessBoardByID E h j w = Some (p, w1)" using runs_GetChessBoardByID [OF w assms(2)] by fastforce
    have h: "halls_ok w" using wired_env [OF w] by simp
    have w1: "?K w1" using stable_keeps [OF stable_wired w] talk_keeps [OF talk_GetChessBoardByID [OF g h]] by simp
    show "\<exists>t'. (case t of (infos, w) \<Rightarrow> do {
        (b, w) \<leftarrow> GetChessBoardByID E h j w;
        case b of None \<Rightarrow> Some (infos, w)
        | Some b \<Rightarrow> do {
            info \<leftarrow> WrapChessBoardInfo b w;
            Some (infos @ [info], w) } }) = Some t' \<and> ?K (snd t')"
    proof (cases p)
      case None
      then show ?thesis using t g w1 by simp
    next
      case (Some b)
      then have "boards w1 b \<noteq> None" using GetChessBoardByID_spec [OF g h] by blast
      then obtain cb where "boards w1 b = Some cb" by blast
      from wired_infos [OF w1 this] show ?thesis using Some t g w1 by auto
    qed
  qed (use assms in simp)
  then show ?thesis by (auto simp: wrap_boards_def)
qed

lemma runs_WrapHallInfo:
  assumes "wired E S B w" shows "WrapHallInfo E i w \<noteq> None"
proof -
  have h: "halls_ok w" using wired_env [OF assms] by simp
  show ?thesis
  proof (cases "i \<in> set hall_numbers")
    case True
    then have "halls w i \<noteq> None" using h unfolding halls_ok_def by blast
    then obtain hall where "halls w i = Some hall" by blast
    then show ?thesis using runs_people [OF h, of i hall] runs_wrap_boards [OF assms True] True
      by (auto simp: WrapHallInfo_def GetGameHall_eq [OF h])
  next
    case False
    then show ?thesis by (simp add: WrapHallInfo_def GetGameHall_eq [OF h])
  qed
qed

lemma runs_sumary_halls:
  assumes "halls_ok w" shows "sumary_halls w \<noteq> None"
proof -
  have "\<exists>t. for_each (\<lambda>i infos. do {
        g \<leftarrow> GetGameHall i w;
        h \<leftarrow> g;
        hall \<leftarrow> halls w h;
        n \<leftarrow> GetCurrentPeopleNum hall w;
        Some (infos @ [\<lparr>hi_game_hall_id = i, hi_total_people = GetExpectedTotalPeopleNum hall,
          hi_curr_people = n, hi_total_chessboard = chessBoardMax, hi_chess_board = []\<rparr>]) })
      hall_numbers [] = Some t \<and> True"
  proof (rule for_each_total)
    fix i and infos :: "HallInfo list" assume i: "i \<in> set hall_numbers"
    then have "halls w i \<noteq> None" using assms unfolding halls_ok_def by blast
    then obtain hall where "halls w i = Some hall" by blast
    with runs_people [OF assms this] i show "\<exists>t. do {
        g \<leftarrow> GetGameHall i w;
        h \<leftarrow> g;
        hall \<leftarrow> halls w h;
        n \<leftarrow> GetCurrentPeopleNum hall w;
        Some (infos @ [\<lparr>hi_game_hall_id = i, hi_total_people = GetExpectedTotalPeopleNum hall,
          hi_curr_people = n, hi_total_chessboard = chessBoardMax, hi_chess_board = []\<rparr>]) } = Some t \<and> True"
      by (auto simp: GetGameHall_eq [OF assms])
  qed simp
  then show ?thesis by (auto simp: sumary_halls_def)
qed

lemma runs_GameHallSumaryHandle:
  assumes "wired E S B w" "s \<in> S" shows "GameHallSumaryHandle E s w \<noteq> None"
  using wired_sess [OF assms] runs_sumary_halls [of w] wired_env [OF assms(1)] runs_reply [OF assms]
  by (auto simp: GameHallSumaryHandle_def Option.bind_eq_Some_conv)

lemma runs_hall_update:
  assumes "wired E S B w" "s \<in> S" shows "hall_update E d s w \<noteq> None"
proof -
  obtain u where u: "sess w s = Some u" using wired_sess [OF assms] by blast
  obtain w1 where 1: "reply s MSG_HALL_INFO d w = Some w1" using runs_reply [OF assms] by fastforce
  have "wired E S B w1"
    using stable_keeps [OF stable_wired assms(1)] talk_keeps [OF talk_reply [OF 1]] wired_env [OF assms(1)] by simp
  from runs_GameHallSumaryHandle [OF this assms(2)] show ?thesis using u 1 by (auto simp: hall_update_def)
qed

lemma call_hall_update [calls]:
  "stable K \<Longrightarrow> K w \<Longrightarrow> (\<And>w'. K w' \<Longrightarrow> P w') \<Longrightarrow> post K P (hall_update E d s w)"
  by (rule post_keeps) (simp_all add: talk_keeps talk_hall_update)

lemma runs_BroadCastHallInfo:
  assumes w: "wired E S B w" and s: "sess w s = Some u" "stateMachine u \<noteq> None" and b: "boards w b = Some cb"
  shows "BroadCastHallInfo E b s w \<noteq> None"
proof -
  have h: "halls_ok w" and bo: "boards_ok w" using wired_env [OF w] by simp_all
  have "currentHall cb = fst b" using bo b unfolding boards_ok_def by blast
  then have "halls w (currentHall cb) \<noteq> None" using halls_ok_board [OF h, of "fst b" "snd b"] b by auto
  then obtain hall where hall: "halls w (currentHall cb) = Some hall" by blast
  obtain d w1 where 1: "WrapHallInfo E (GetGameHallID hall) w = Some (d, w1)" using runs_WrapHallInfo [OF w] by fastforce
  have w1: "wired E S B w1" using stable_keeps [OF stable_wired w] talk_keeps [OF talk_WrapHallInfo [OF 1 h]] by simp
  have "set (all_sessions w1) \<subseteq> S" using w1 by (simp add: wired_def)
  then have "for_each (hall_update E (getd [] d)) (all_sessions w1) w1 \<noteq> None"
    by (intro runs_for_each [OF stable_wired w1]) (rule runs_hall_update, assumption, blast, auto intro!: calls)
  then show ?thesis using s b hall 1 by (auto simp: BroadCastHallInfo_def)
qed

lemma runs_announce_board: "wired E S B w \<Longrightarrow> b \<in> B \<Longrightarrow> announce_board E b l w \<noteq> None"
  using wired_board [of E S B w b] wired_infos [of E S B w b] runs_BroadCastMsg [of E S B w b] by (auto simp: announce_board_def)

section \<open>The handlers of a table\<close>

lemmas runs_ops [runs] = runs_reply [THEN retI] runs_set_status [THEN retI] runs_scores [THEN retI]
  runs_BroadCastMsg [THEN retI] runs_announce_board [THEN retI] runs_upd_board [THEN retI]

lemma runs_reads [runs]:
  "wired E S B w \<Longrightarrow> s \<in> S \<Longrightarrow> ret (sess w s)" "wired E S B w \<Longrightarrow> b \<in> B \<Longrightarrow> ret (boards w b)"
  by (auto dest: wired_sess wired_board)

lemma runs_tables [runs]:
  assumes "wired E S B w" "b \<in> B"
  shows "ret (GetActiveUsersNum b w)" "ret (GameBegan b w)" "ret (GetOnlyActiveUser b w)" "ret (next_token b l w)"
    "ret (all_ready b w)" "ret (WrapChessBoardInfo b w)"
proof -
  obtain cb where "boards w b = Some cb" using wired_board [OF assms] by blast
  note c = this
  show "ret (GetActiveUsersNum b w)" "ret (GameBegan b w)" "ret (GetOnlyActiveUser b w)" "ret (next_token b l w)"
    "ret (all_ready b w)" "ret (WrapChessBoardInfo b w)"
    using wired_counts [OF assms(1) c] wired_infos [OF assms(1) c] by (simp_all add: ret_def)
qed

text \<open>What \<open>runs\<close> asks for: the session is among the writable ones, the board exists.\<close>

lemma runs_set_all_status [runs]:
  assumes "wired E S B w" "b \<in> B" shows "ret (set_all_status st b w)"
proof -
  obtain cb where cb: "boards w b = Some cb" using wired_board [OF assms] by blast
  have "for_each (\<lambda>l w. case GetUserByLocation l cb of None \<Rightarrow> Some w | Some s \<Rightarrow> set_status st s w) seats w \<noteq> None"
  proof (rule runs_for_each [OF stable_wired assms(1)])
    fix l w' assume w': "wired E S B w'"
    show "(case GetUserByLocation l cb of None \<Rightarrow> Some w' | Some s \<Rightarrow> set_status st s w') \<noteq> None"
      using runs_set_status [OF w'] wired_seat [OF assms(1) cb] by (auto split: option.splits)
    show "post (wired E S B) (wired E S B) (case GetUserByLocation l cb of None \<Rightarrow> Some w' | Some s \<Rightarrow> set_status st s w')"
      using w' by (auto intro!: calls)
  qed
  then show ?thesis using cb by (simp add: set_all_status_def ret_def)
qed

lemma chat_returns: "wired E S B w \<Longrightarrow> b \<in> B \<Longrightarrow> ret (UserMessageHandle E b msg w)"
  unfolding UserMessageHandle_def by (auto intro!: runs calls ret_bind [where K = "wired E S B"])

lemma peace_returns: "wired E S B w \<Longrightarrow> b \<in> B \<Longrightarrow> ret (ReconciledHandle E b msg ty w)"
  unfolding ReconciledHandle_def by (auto intro!: runs calls ret_bind [where K = "wired E S B"] intro: wired_seat)

text \<open>A move is lost only when it names an empty seat as its source.\<close>

lemma move_scores_returns:
  assumes "wired E S B w" "b \<in> B" "boards w b = Some cb" "GetUserByLocation (mc_src_user_locate mc) cb = Some s"
  shows "ret (move_scores E b mc w)"
  using assms unfolding move_scores_def
  by (auto intro!: runs calls call_upd_board ret_bind [where K = "wired E S B"] intro: wired_seat)

lemma move_token_returns: "wired E S B w \<Longrightarrow> b \<in> B \<Longrightarrow> s \<in> S \<Longrightarrow> ret (move_token b s w)"
  unfolding move_token_def by (auto intro!: runs calls ret_bind [where K = "wired E S B"])

lemma move_returns:
  assumes w: "wired E S B w" "b \<in> B" and p: "parse_MoveChess E msg = Some mc" and cb: "boards w b = Some cb"
  shows "ret (MoveChessHandle E b msg w) \<longleftrightarrow> GetUserByLocation (mc_src_user_locate mc) cb \<noteq> None"
proof (cases "GetUserByLocation (mc_src_user_locate mc) cb")
  case None
  then show ?thesis using p cb by (auto simp: MoveChessHandle_def ret_def Option.bind_eq_Some_conv)
next
  case (Some s)
  have s: "s \<in> S" using wired_seat [OF w(1) cb Some] .
  have "ret (MoveChessHandle E b msg w)"
    unfolding MoveChessHandle_def using w p cb Some s
    by (auto intro!: runs calls move_scores_returns move_token_returns ret_bind [where K = "wired E S B"])
  then show ?thesis using Some by simp
qed

text \<open>An undo is lost when a capture is recorded and one of the two has left.\<close>

lemma undo_scores_returns:
  assumes w: "wired E S B w" and cb: "boards w b = Some cb"
  shows "ret (undo_scores E b w) \<longleftrightarrow> recent_winner_locate cb = LOCATION_MAX \<or>
     GetUserByLocation (recent_winner_locate cb) cb \<noteq> None \<and> GetUserByLocation (recent_loser_locate cb) cb \<noteq> None"
proof (cases "recent_winner_locate cb = LOCATION_MAX \<or>
     GetUserByLocation (recent_winner_locate cb) cb \<noteq> None \<and> GetUserByLocation (recent_loser_locate cb) cb \<noteq> None")
  case True
  then have "ret (undo_scores E b w)"
    unfolding undo_scores_def using w cb
    by (auto intro!: runs calls ret_bind [where K = "wired E S B"] intro: wired_seat)
  then show ?thesis using True by simp
next
  case False
  then show ?thesis using cb by (auto simp: undo_scores_def ret_def Option.bind_eq_Some_conv)
qed

lemma undo_returns:
  assumes w: "wired E S B w" "b \<in> B" and p: "parse_Undo E msg = Some ud" "ud_rep_or_respon ud = 1" "ud_status ud = Some True"
    and cb: "boards w b = Some cb"
  shows "ret (UndoHandle E b msg ty w) \<longleftrightarrow> recent_winner_locate cb = LOCATION_MAX \<or>
     GetUserByLocation (recent_winner_locate cb) cb \<noteq> None \<and> GetUserByLocation (recent_loser_locate cb) cb \<noteq> None"
proof -
  obtain w1 where 1: "BroadCastMsg b ty msg (ud_tar_user_locate ud) w = Some w1" using runs_BroadCastMsg [OF w] by fastforce
  have w1: "wired E S B w1" by (rule postD [OF _ 1, of "wired E S B"]) (use w in \<open>auto intro!: calls\<close>)
  have cb1: "boards w1 b = Some cb" using BroadCastMsg_log [OF 1 cb] cb by (simp add: quiet_def)
  have "ret (UndoHandle E b msg ty w) = ret (undo_scores E b w1)"
    using p 1 by (cases "undo_scores E b w1") (simp_all add: UndoHandle_def)
  then show ?thesis using undo_scores_returns [OF w1 cb1] by simp
qed

section \<open>Leaving returns\<close>

text \<open>\<open>started M\<close>: the sessions in \<open>M\<close> and everybody at a table have their state machine.\<close>

definition started :: "sid set \<Rightarrow> world \<Rightarrow> bool" where
  "started M w \<longleftrightarrow> (\<forall>s. s \<in> M \<or> (\<exists>b l. sits_at w b l s) \<longrightarrow> (\<exists>u. sess w s = Some u \<and> stateMachine u \<noteq> None))"

definition going :: "env \<Rightarrow> sid set \<Rightarrow> bid set \<Rightarrow> sid set \<Rightarrow> world \<Rightarrow> bool" where
  "going E S B M w \<longleftrightarrow> wired E S B w \<and> started M w"

lemma going_wired: "going E S B M w \<Longrightarrow> wired E S B w"
  by (simp add: going_def)

lemma going_env:
  "going E S B M w \<Longrightarrow> end_reads_null E' \<Longrightarrow> db_plain E' \<Longrightarrow> going E' S B M w"
  by (simp add: going_def wired_def)

lemma keeps_started:
  assumes "keeps w w'" "started M w" shows "started M w'"
  unfolding started_def
proof (intro allI impI)
  fix s assume "s \<in> M \<or> (\<exists>b l. sits_at w' b l s)"
  then obtain u where u: "sess w s = Some u" "stateMachine u \<noteq> None"
    using assms(2) unfolding started_def keeps_sits_at [OF assms(1)] by blast
  have "map_option ident (sess w' s) = map_option ident (sess w s)" using assms(1) by (simp add: keeps_def)
  then obtain u' where "sess w' s = Some u'" "ident u' = ident u" using u(1) by (rule ident_lookup)
  then show "\<exists>u. sess w' s = Some u \<and> stateMachine u \<noteq> None" using u(2) ident_eqD(5) [of u' u] by auto
qed

lemma stable_going [simp]: "stable (going E S B M)"
  using stable_wired [of E S B] keeps_started unfolding stable_def going_def by blast

lemma GetOnlyActiveUser_seated:
  "GetOnlyActiveUser b w = Some (Some s) \<Longrightarrow> \<exists>cb l. boards w b = Some cb \<and> GetUserByLocation l cb = Some s"
  by (auto simp: GetOnlyActiveUser_def Let_def split: if_splits elim!: bind_SomeE)
    (metis GetUserByLocation_simps(1-3))+

lemma last_user_wins_returns:
  assumes w: "wired E S B w" "b \<in> B" shows "ret (last_user_wins E b s w)"
proof -
  have "s' \<in> S" if "GetOnlyActiveUser b w = Some (Some s')" for s'
    using GetOnlyActiveUser_seated [OF that] wired_seat [OF w(1)] by blast
  then show ?thesis
    unfolding last_user_wins_def using w by (auto intro!: runs calls ret_bind [where K = "wired E S B"])
qed

lemma last_user_wins_who:
  assumes "last_user_wins E b s w = Some (q, w')"
  shows "q = Some s \<or> (\<exists>s' cb l. q = Some s' \<and> boards w b = Some cb \<and> GetUserByLocation l cb = Some s')"
proof -
  obtain n where n: "GetActiveUsersNum b w = Some n" using assms by (auto simp: last_user_wins_def elim!: bind_SomeE)
  show ?thesis
  proof (cases "n = 1")
    case False
    then show ?thesis using assms n by (simp add: last_user_wins_def)
  next
    case True
    then obtain p where p: "GetOnlyActiveUser b w = Some p" using assms n by (auto simp: last_user_wins_def elim!: bind_SomeE)
    obtain cb where cb: "boards w b = Some cb" using p by (auto simp: GetOnlyActiveUser_def elim!: bind_SomeE)
    have "length (playing w cb) = 1" using playing_num [OF n cb] True by simp
    then obtain s' where "p = Some s'" using playing_only [OF p cb] by (auto simp: length_Suc_conv)
    then have "q = Some s'" and "GetOnlyActiveUser b w = Some (Some s')" using p assms n True
      by (auto simp: last_user_wins_def split: if_splits elim!: bind_SomeE)
    then show ?thesis using GetOnlyActiveUser_seated by blast
  qed
qed

text \<open>The part of the handler after the seat is given up.\<close>

lemma leave_tail_returns:
  assumes g: "going E S B M w" and b: "b \<in> B" and s: "s \<in> M"
  shows "ret (do {
     w \<leftarrow> BroadCastMsg b MSG_GIVE_UP d k w;
     (user, w) \<leftarrow> last_user_wins E b s w;
     w \<leftarrow> (if e then set_all_status STATUS_ENDED b w else Some w);
     w \<leftarrow> announce_board E b k' w;
     if e' then do { s' \<leftarrow> user; BroadCastHallInfo E b s' w } else Some w })"
proof -
  let ?K = "going E S B M"
  note st = stable_going [of E S B M]
  obtain w1 where 1: "BroadCastMsg b MSG_GIVE_UP d k w = Some w1" using runs_BroadCastMsg [OF going_wired [OF g] b] by fastforce
  have g1: "?K w1" by (rule postD [OF _ 1, of ?K]) (use g in \<open>auto intro!: calls\<close>)
  obtain q w2 where 2: "last_user_wins E b s w1 = Some (q, w2)"
    using last_user_wins_returns [OF going_wired [OF g1] b] by (fastforce simp: ret_def)
  have "post ?K (\<lambda>(p, w). ?K w) (last_user_wins E b s w1)" using g1 by (auto intro!: calls)
  from postD [OF this 2] have g2: "?K w2" by simp
  have q: "\<exists>s'. q = Some s' \<and> (\<exists>u. sess w2 s' = Some u \<and> stateMachine u \<noteq> None)"
  proof -
    have "\<exists>s'. q = Some s' \<and> (s' \<in> M \<or> (\<exists>b l. sits_at w1 b l s'))"
      using last_user_wins_who [OF 2] s unfolding sits_at_def by blast
    moreover have "keeps w1 w2"
    proof -
      have "post (keeps w1) (\<lambda>(p, w). keeps w1 w) (last_user_wins E b s w1)"
        using wired_env [OF going_wired [OF g1]] by (auto intro!: calls stable_keeps_self keeps_refl)
      from postD [OF this 2] show ?thesis by simp
    qed
    ultimately show ?thesis using g2 keeps_sits_at [of w1 w2] unfolding going_def started_def by metis
  qed
  obtain w3 where 3: "(if e then set_all_status STATUS_ENDED b w2 else Some w2) = Some w3"
    using runs_set_all_status [OF going_wired [OF g2] b, of STATUS_ENDED] by (cases e) (auto simp: ret_def)
  obtain w4 where 4: "announce_board E b k' w3 = Some w4"
  proof -
    have "?K w3" by (rule postD [OF _ 3, of ?K]) (use g2 in \<open>auto intro!: calls\<close>)
    from runs_announce_board [OF going_wired [OF this] b] show ?thesis using that by fastforce
  qed
  have k4: "keeps w2 w4"
  proof -
    have h: "halls_ok w2" using wired_env [OF going_wired [OF g2]] by simp
    have k3: "keeps w2 w3"
      by (rule postD [OF _ 3, of "keeps w2"]) (use h in \<open>auto intro!: calls stable_keeps_self keeps_refl\<close>)
    show ?thesis
      by (rule postD [OF _ 4, of "keeps w2"]) (use k3 h in \<open>auto intro!: calls stable_keeps_self\<close>)
  qed
  have g4: "?K w4" using stable_keeps [OF st g2 k4] .
  obtain s' u where s': "q = Some s'" "sess w2 s' = Some u" "stateMachine u \<noteq> None" using q by blast
  have "map_option ident (sess w4 s') = map_option ident (sess w2 s')" using k4 by (simp add: keeps_def)
  then obtain u4 where u4: "sess w4 s' = Some u4" "ident u4 = ident u" using s'(2) by (rule ident_lookup)
  obtain cb where "boards w4 b = Some cb" using wired_board [OF going_wired [OF g4] b] by blast
  then have "BroadCastHallInfo E b s' w4 \<noteq> None"
    using runs_BroadCastHallInfo [OF going_wired [OF g4] u4(1)] ident_eqD(5) [OF u4(2)] s'(3) by simp
  then show ?thesis using 1 2 3 4 s'(1) by (auto simp: ret_def)
qed

text \<open>Giving up a seat leaves a state of the same kind.\<close>

lemma leave_seat_going:
  assumes g: "going E S B M w" and b: "b \<in> B" and s: "s \<in> S"
  shows "\<exists>w'. leave_seat b s x w = Some w' \<and> going E S B M w'"
proof -
  let ?K = "going E S B M"
  obtain w1 where 1: "set_status (if x then STATUS_EXITED else STATUS_ENDED) s w = Some w1"
    using runs_set_status [OF going_wired [OF g] s] by fastforce
  have g1: "?K w1" by (rule postD [OF _ 1, of ?K]) (use g in \<open>auto intro!: calls\<close>)
  show ?thesis
  proof (cases x)
    case False
    then show ?thesis using 1 g1 by (auto simp: leave_seat_def)
  next
    case True
    obtain u where u: "sess w1 s = Some u" using wired_sess [OF going_wired [OF g1] s] by blast
    obtain cb where cb: "boards w1 b = Some cb" using wired_board [OF going_wired [OF g1] b] by blast
    let ?cb = "snd (LeaveOutRoom (locate u) cb)"
    let ?w = "w1\<lparr>boards := (boards w1)(b \<mapsto> ?cb)\<rparr>"
    have wd: "wired E S B w1" using g1 by (rule going_wired)
    have ok: "board_ok cb" and bo: "boards_ok w1" using wired_env [OF wd] cb unfolding boards_ok_def by blast+
    have sub: "sits_at ?w b' l s' \<Longrightarrow> sits_at w1 b' l s'" for b' l s'
      using cb by (auto simp: sits_at_def LeaveOutRoom_seat [OF ok] split: if_splits)
    have "boards_ok ?w" using bo cb LeaveOutRoom_ok [OF ok] by (auto simp: boards_ok_def)
    moreover have "all_sessions ?w = all_sessions w1" by (simp add: all_sessions_def)
    moreover have "usable ?w = usable w1" by (simp add: usable_def the_thread_def fun_eq_iff split: option.splits)
    moreover have "s' \<in> S" if "sits_at ?w b' l s'" for b' l s'
      using sub [OF that] wd unfolding wired_def by blast
    ultimately have "wired E S B ?w"
      using wd cb unfolding wired_def by (intro conjI) (auto simp: halls_board_write intro: sub)
    moreover have "started M ?w" using g1 sub unfolding going_def started_def by fastforce
    ultimately show ?thesis using True 1 u cb by (auto simp: leave_seat_def upd_board_def going_def)
  qed
qed

lemma leave_returns:
  assumes g: "going E S B M w" and b: "b \<in> B" and s: "s \<in> S" "s \<in> M"
  shows "ret (LeaveRoomHandle E b s really w)"
proof -
  let ?K = "going E S B M"
  obtain u where u: "sess w s = Some u" using wired_sess [OF going_wired [OF g] s(1)] by blast
  obtain w1 where 1: "(if status u = STATUS_PLAYING then ReduceScore E 30 s w else Some w) = Some w1"
    using runs_scores(2) [OF going_wired [OF g] s(1), of 30] by (cases "status u = STATUS_PLAYING") auto
  have g1: "?K w1" by (rule postD [OF _ 1, of ?K]) (use g in \<open>auto intro!: calls\<close>)
  obtain w2 where 2: "leave_seat b s really w1 = Some w2" "?K w2"
    using leave_seat_going [OF g1 b s(1)] by blast
  show ?thesis
    using leave_tail_returns [OF 2(2) b s(2)] u 1 2(1) by (simp add: LeaveRoomHandle_def Let_def)
qed

section \<open>Getting ready and joining return\<close>

lemma runs_hall:
  assumes g: "going E S B M w" and m: "S \<subseteq> M" "b \<in> B" "s \<in> S"
  shows "ret (BroadCastHallInfo E b s w)"
proof -
  obtain u where "sess w s = Some u" "stateMachine u \<noteq> None" using g m unfolding going_def started_def by blast
  moreover obtain cb where "boards w b = Some cb" using wired_board [OF going_wired [OF g] m(2)] by blast
  ultimately show ?thesis by (intro retI runs_BroadCastHallInfo [OF going_wired [OF g]])
qed

lemma ret_seat: "status_at p w = Some (Some x) \<Longrightarrow> ret p"
  by (cases p) (simp_all add: status_at_def)

lemma runs_status_at [runs]:
  assumes "wired E S B w" "boards w b = Some cb"
  shows "ret (status_at (leftUser cb) w)" "ret (status_at (rightUser cb) w)" "ret (status_at (bottomUser cb) w)"
  using wired_statuses [OF assms] by (simp_all add: ret_def)

lemmas going_runs = runs_ops [OF going_wired] runs_reads [OF going_wired] runs_tables [OF going_wired]
  runs_set_all_status [OF going_wired] runs_status_at [OF going_wired] last_user_wins_returns [OF going_wired]

lemma wired_named_seat:
  assumes "wired E S B w" "boards w b = Some cb"
  shows "leftUser cb = Some s \<Longrightarrow> s \<in> S" "rightUser cb = Some s \<Longrightarrow> s \<in> S" "bottomUser cb = Some s \<Longrightarrow> s \<in> S"
  using wired_seat [OF assms, of LOCATION_LEFT] wired_seat [OF assms, of LOCATION_RIGHT]
    wired_seat [OF assms, of LOCATION_BOTTOM] by simp_all

lemma ready_returns:
  assumes g: "going E S B M w" and m: "S \<subseteq> M" "b \<in> B"
  shows "ret (GameReadyHandle E b msg w)"
  unfolding GameReadyHandle_def using g m
  by (auto intro!: going_runs ret_if ret_option calls call_upd_board ret_bind [where K = "going E S B M"] runs_hall ret_seat
      intro: wired_seat [OF going_wired] wired_named_seat [OF going_wired])

end
