(* ===== verification/Reading.thy ===== *)
theory Reading
  imports Broadcast
begin

text \<open>
  The frame reader: how the bytes of a connection become messages. A frame is handled once,
  whatever pieces it arrives in; a header out of bounds closes the connection; and a
  connection whose input has run past the end of a frame never handles a message again.
\<close>

section \<open>A frame in pieces\<close>

definition head_of :: "bytes \<Rightarrow> ReadBufInfo" where
  "head_of f = \<lparr>total_size = get_le32 0 f, msg_type = get_le32 4 f, got_head = True\<rparr>"

text \<open>A frame the reader accepts.\<close>

definition acceptable :: "u32 \<Rightarrow> bytes \<Rightarrow> bool" where
  "acceptable ty d \<longleftrightarrow> ty \<le> mt_code MSG_TYPE_MAX \<and> length d + DATA_HEAD_LENGTH \<le> max_total_size"

lemma max_total_size_eq: "max_total_size = 4198400"
  by (simp add: max_total_size_def MAX_DATA_LENGTH_def DATA_HEAD_LENGTH_def)

lemma acceptable_fits: "acceptable ty d \<Longrightarrow> frame_fits d"
  by (simp add: acceptable_def frame_fits_def max_total_size_eq)

lemma get_le32_prefix: "i + 4 \<le> length a \<Longrightarrow> get_le32 i (a @ c) = get_le32 i a"
  by (simp add: get_le32_def nth_append)

lemma length_frame: "acceptable ty d \<Longrightarrow> length (wire_frame ty d) = length d + DATA_HEAD_LENGTH"
  by (simp add: wire_frame_eq [OF acceptable_fits] DATA_HEAD_LENGTH_def)

lemma head_of_frame:
  assumes "acceptable ty d"
  shows "msg_type (head_of (wire_frame ty d)) = ty" "got_head (head_of (wire_frame ty d))"
    "unat (total_size (head_of (wire_frame ty d))) = length (wire_frame ty d)"
  using wf.enc_type [OF acceptable_fits [OF assms]] wf.enc_size [OF acceptable_fits [OF assms]]
  by (simp_all add: head_of_def)

text \<open>\<open>a\<close> has arrived of the frame \<open>f\<close>.\<close>

definition pending :: "bytes \<Rightarrow> bytes \<Rightarrow> UserSession \<Rightarrow> bool" where
  "pending f a u \<longleftrightarrow> inbuf u = a \<and>
     (if 8 \<le> length a then buf_info u = head_of f else \<not> got_head (buf_info u))"

definition with_input :: "bytes \<Rightarrow> ReadBufInfo \<Rightarrow> UserSession \<Rightarrow> UserSession" where
  "with_input bs i u = u\<lparr>inbuf := bs, buf_info := i\<rparr>"

lemma with_input_simps [simp]:
  "with_input bs i (with_input bs' i' u) = with_input bs i u" "inbuf (with_input bs i u) = bs"
  "buf_info (with_input bs i u) = i" "thread (with_input bs i u) = thread u" "clifd (with_input bs i u) = clifd u"
  by (simp_all add: with_input_def)

lemma read_head_frame:
  assumes f: "acceptable ty d" "f = wire_frame ty d" "f = ab @ c" and u: "inbuf u = ab"
    and h: "got_head (buf_info u) \<Longrightarrow> buf_info u = head_of f"
  shows "read_head (length ab) u = Some (with_input ab (if 8 \<le> length ab then head_of f else buf_info u) u)"
proof (cases "8 \<le> length ab \<and> \<not> got_head (buf_info u)")
  case True
  have g: "get_le32 0 ab = get_le32 0 f" "get_le32 4 ab = get_le32 4 f"
    using True by (simp_all add: f(3) get_le32_prefix)
  have "\<not> get_le32 4 f > mt_code MSG_TYPE_MAX" "\<not> unat (get_le32 0 f) > max_total_size"
    using head_of_frame [OF f(1)] f(1) length_frame [OF f(1)] by (simp_all add: f(2) head_of_def acceptable_def not_less)
  then show ?thesis using True u g by (simp add: read_head_def DATA_HEAD_LENGTH_def Let_def head_of_def with_input_def)
next
  case False
  then show ?thesis using u h
    by (cases "got_head (buf_info u)") (auto simp: read_head_def DATA_HEAD_LENGTH_def with_input_def)
qed

lemma receive_unfold:
  assumes "sess w s = Some u" "thread u = Some t"
    and "read_head (length (inbuf u @ bs)) (u\<lparr>inbuf := inbuf u @ bs\<rparr>) = Some u'"
    and "inbuf u' = inbuf u @ bs" "clifd u' = clifd u"
  shows "receive E s bs w =
     (let n = unat (total_size (buf_info u')) in
      if length (inbuf u @ bs) = n \<and> got_head (buf_info u') then
        if n < DATA_HEAD_LENGTH then None
        else do {
          (ok, w) \<leftarrow> WorkThread_MessageHandle E t (clifd u) (msg_type (buf_info u'))
             (drop DATA_HEAD_LENGTH (take n (inbuf u @ bs)))
             (w\<lparr>sess := (sess w)(s \<mapsto> (GetBuffer n u')\<lparr>inbuf := drop n (inbuf u @ bs)\<rparr>)\<rparr>);
          if ok then upd_sess s (\<lambda>u. u\<lparr>buf_info := ReadBufInfo_Reset\<rparr>) w else Some w }
      else Some (w\<lparr>sess := (sess w)(s \<mapsto> u')\<rparr>))"
  using assms by (simp add: receive_def OnReadCb_def upd_sess_def Let_def)

lemma pending_head:
  assumes "pending f a u" "f = a @ b @ c"
  shows "got_head (buf_info u) \<Longrightarrow> buf_info u = head_of f"
  using assms by (auto simp: pending_def split: if_splits)

text \<open>A piece that does not complete the frame is only stored.\<close>

lemma receive_part:
  assumes f: "acceptable ty d" "f = wire_frame ty d" "f = (a @ b) @ c" "c \<noteq> []"
    and u: "sess w s = Some u" "thread u = Some t" "pending f a u"
  shows "\<exists>i. receive E s b w = Some (w\<lparr>sess := (sess w)(s \<mapsto> with_input (a @ b) i u)\<rparr>) \<and>
    pending f (a @ b) (with_input (a @ b) i u)"
proof -
  let ?u = "u\<lparr>inbuf := a @ b\<rparr>" and ?i = "if 8 \<le> length (a @ b) then head_of f else buf_info u"
  have a: "inbuf u = a" using u(3) by (simp add: pending_def)
  have h: "read_head (length (a @ b)) ?u = Some (with_input (a @ b) ?i u)"
    using read_head_frame [OF f(1-3), of ?u] pending_head [OF u(3), of b c] f(3)
    by (simp add: with_input_def cong: if_cong)
  have "receive E s b w = Some (w\<lparr>sess := (sess w)(s \<mapsto> with_input (a @ b) ?i u)\<rparr>)"
  proof (cases "8 \<le> length (a @ b)")
    case True
    then have "unat (total_size ?i) = length f" using head_of_frame(3) [OF f(1)] f(2) by simp
    moreover have "length f \<noteq> length (a @ b)" using f(3,4) by simp
    ultimately show ?thesis using receive_unfold [OF u(1,2), of b "with_input (a @ b) ?i u"] h a
      by (simp add: Let_def)
  next
    case False
    then have "\<not> got_head ?i" using u(3) by (auto simp: pending_def split: if_splits)
    then show ?thesis using receive_unfold [OF u(1,2), of b "with_input (a @ b) ?i u"] h a
      by (simp add: Let_def)
  qed
  moreover have "pending f (a @ b) (with_input (a @ b) ?i u)"
    using u(3) by (auto simp: pending_def split: if_splits)
  ultimately show ?thesis by blast
qed

text \<open>The last piece makes the frame a message: payload and type are the sender's.\<close>

definition handle_frame :: "env \<Rightarrow> nat \<Rightarrow> sid \<Rightarrow> u32 \<Rightarrow> bytes \<Rightarrow> UserSession \<Rightarrow> world \<Rightarrow> world option" where
  "handle_frame E t s ty d u w = do {
     let f = wire_frame ty d;
     (ok, w) \<leftarrow> WorkThread_MessageHandle E t (clifd u) ty d
        (w\<lparr>sess := (sess w)(s \<mapsto> GetBuffer (length f) (with_input [] (head_of f) u))\<rparr>);
     if ok then upd_sess s (\<lambda>u. u\<lparr>buf_info := ReadBufInfo_Reset\<rparr>) w else Some w }"

lemma GetBuffer_with_input: "(GetBuffer n (with_input bs i u))\<lparr>inbuf := bs'\<rparr> = GetBuffer n (with_input bs' i u)"
  by (simp add: GetBuffer_def with_input_def)

lemma receive_last:
  assumes f: "acceptable ty d" "f = wire_frame ty d" "f = a @ b"
    and u: "sess w s = Some u" "thread u = Some t" "pending f a u"
  shows "receive E s b w = handle_frame E t s ty d u w"
proof -
  let ?u = "u\<lparr>inbuf := f\<rparr>"
  have a: "inbuf u = a" using u(3) by (simp add: pending_def)
  have n: "8 \<le> length f" using length_frame [OF f(1)] f(2) by (simp add: DATA_HEAD_LENGTH_def)
  have h: "read_head (length f) ?u = Some (with_input f (head_of f) u)"
    using read_head_frame [OF f(1,2), of f "[]" ?u] pending_head [OF u(3), of b "[]"] f(3) n
    by (simp add: with_input_def)
  have s: "unat (total_size (head_of f)) = length f" "msg_type (head_of f) = ty" "got_head (head_of f)"
    using head_of_frame [OF f(1)] f(2) by simp_all
  have d: "drop DATA_HEAD_LENGTH f = d" using wf.enc_body [OF acceptable_fits [OF f(1)]] f(2) by simp
  have ab: "inbuf u @ b = f" using a f(3) by simp
  have n8: "\<not> length f < DATA_HEAD_LENGTH" using n by (simp add: DATA_HEAD_LENGTH_def)
  have "receive E s b w = do {
      (ok, w) \<leftarrow> WorkThread_MessageHandle E t (clifd u) ty d
         (w\<lparr>sess := (sess w)(s \<mapsto> GetBuffer (length f) (with_input [] (head_of f) u))\<rparr>);
      if ok then upd_sess s (\<lambda>u. u\<lparr>buf_info := ReadBufInfo_Reset\<rparr>) w else Some w }"
    using receive_unfold [OF u(1,2), of b "with_input f (head_of f) u"] h n8
    by (simp add: ab s d Let_def GetBuffer_with_input)
  then show ?thesis unfolding handle_frame_def Let_def f(2) .
qed

lemma handle_frame_input: "handle_frame E t s ty d (with_input bs i u) (w\<lparr>sess := (sess w)(s \<mapsto> v)\<rparr>) = handle_frame E t s ty d u w"
  by (simp add: handle_frame_def)

lemma receive_pieces:
  assumes f: "acceptable ty d" "f = wire_frame ty d" "f = a @ concat bs" "bs \<noteq> []" "[] \<notin> set bs"
    and u: "sess w s = Some u" "thread u = Some t" "pending f a u"
  shows "for_each (receive E s) bs w = handle_frame E t s ty d u w"
  using assms(3-)
proof (induction bs arbitrary: a w u)
  case (Cons b bs)
  show ?case
  proof (cases bs)
    case Nil
    then have "receive E s b w = handle_frame E t s ty d u w"
      using receive_last [OF f(1,2) _ Cons.prems(4-6), of b] Cons.prems(1) by simp
    then show ?thesis using Nil by (cases "handle_frame E t s ty d u w") simp_all
  next
    case (Cons b' bs')
    then have "concat bs \<noteq> []" using Cons.prems(3) by auto
    moreover have "f = (a @ b) @ concat bs" using Cons.prems(1) by simp
    ultimately obtain i where r: "receive E s b w = Some (w\<lparr>sess := (sess w)(s \<mapsto> with_input (a @ b) i u)\<rparr>)"
      and p: "pending f (a @ b) (with_input (a @ b) i u)"
      using receive_part [OF f(1,2) _ _ Cons.prems(4-6), of b "concat bs"] by blast
    let ?w = "w\<lparr>sess := (sess w)(s \<mapsto> with_input (a @ b) i u)\<rparr>"
    have "for_each (receive E s) bs ?w = handle_frame E t s ty d (with_input (a @ b) i u) ?w"
      by (rule Cons.IH [of "a @ b"]) (use Cons Cons.prems p in auto)
    then show ?thesis using r by (simp add: handle_frame_input)
  qed
qed simp

section \<open>Two frames at once\<close>

text \<open>The reader waits for the input to be exactly as long as the frame.\<close>

definition overrun :: "UserSession \<Rightarrow> bool" where
  "overrun u \<longleftrightarrow> got_head (buf_info u) \<and> unat (total_size (buf_info u)) < length (inbuf u)"

lemma receive_overrun:
  assumes "sess w s = Some u" "thread u = Some t" "overrun u"
  shows "receive E s bs w = Some (w\<lparr>sess := (sess w)(s \<mapsto> u\<lparr>inbuf := inbuf u @ bs\<rparr>)\<rparr>)"
    "overrun (u\<lparr>inbuf := inbuf u @ bs\<rparr>)"
proof -
  show "overrun (u\<lparr>inbuf := inbuf u @ bs\<rparr>)" using assms(3) by (simp add: overrun_def)
  have "read_head (length (inbuf u @ bs)) (u\<lparr>inbuf := inbuf u @ bs\<rparr>) = Some (u\<lparr>inbuf := inbuf u @ bs\<rparr>)"
    using assms(3) by (simp add: read_head_def overrun_def)
  then show "receive E s bs w = Some (w\<lparr>sess := (sess w)(s \<mapsto> u\<lparr>inbuf := inbuf u @ bs\<rparr>)\<rparr>)"
    using receive_unfold [OF assms(1,2), of bs "u\<lparr>inbuf := inbuf u @ bs\<rparr>"] assms(3) by (simp add: overrun_def Let_def)
qed

lemma receive_two:
  assumes f: "acceptable ty d" "f = wire_frame ty d" "bs \<noteq> []"
    and u: "sess w s = Some u" "thread u = Some t" "inbuf u = []" "\<not> got_head (buf_info u)"
  shows "\<exists>u'. receive E s (f @ bs) w = Some (w\<lparr>sess := (sess w)(s \<mapsto> u')\<rparr>) \<and> overrun u' \<and> thread u' = Some t \<and>
    inbuf u' = f @ bs"
proof -
  let ?in = "f @ bs"
  let ?u = "with_input ?in (head_of f) u"
  have n: "8 \<le> length f" using length_frame [OF f(1)] f(2) by (simp add: DATA_HEAD_LENGTH_def)
  have g: "get_le32 0 ?in = get_le32 0 f" "get_le32 4 ?in = get_le32 4 f" using n by (simp_all add: get_le32_prefix)
  have "\<not> get_le32 4 f > mt_code MSG_TYPE_MAX" "\<not> unat (get_le32 0 f) > max_total_size"
    using head_of_frame [OF f(1)] f(1) length_frame [OF f(1)] by (simp_all add: f(2) head_of_def acceptable_def not_less)
  then have h: "read_head (length (inbuf u @ ?in)) (u\<lparr>inbuf := inbuf u @ ?in\<rparr>) = Some ?u"
    using u(3,4) g n by (simp add: read_head_def DATA_HEAD_LENGTH_def Let_def head_of_def with_input_def)
  have s: "unat (total_size (head_of f)) = length f" "got_head (head_of f)" using head_of_frame [OF f(1)] f(2) by simp_all
  have "receive E s ?in w = Some (w\<lparr>sess := (sess w)(s \<mapsto> ?u)\<rparr>)"
    using receive_unfold [OF u(1,2) h] u(3) s f(3) by (simp add: Let_def)
  moreover have "overrun ?u" using s f(3) by (simp add: overrun_def)
  ultimately show ?thesis using u(2) by auto
qed

text \<open>From then on every byte is only stored.\<close>

lemma feed_overrun:
  assumes "sess w s = Some u" "thread u = Some t" "overrun u"
  shows "\<exists>u'. for_each (receive E s) bss w = Some (w\<lparr>sess := (sess w)(s \<mapsto> u')\<rparr>) \<and> overrun u' \<and>
    inbuf u' = inbuf u @ concat bss"
  using assms
proof (induction bss arbitrary: w u)
  case Nil
  then have e: "w\<lparr>sess := (sess w)(s \<mapsto> u)\<rparr> = w" by (simp add: fun_upd_idem)
  have "for_each (receive E s) [] w = Some (w\<lparr>sess := (sess w)(s \<mapsto> u)\<rparr>)" unfolding e by simp
  then show ?case using Nil(3) by (metis append_Nil2 concat.simps(1))
next
  case (Cons bs bss)
  let ?u = "u\<lparr>inbuf := inbuf u @ bs\<rparr>" and ?w = "w\<lparr>sess := (sess w)(s \<mapsto> u\<lparr>inbuf := inbuf u @ bs\<rparr>)\<rparr>"
  have "sess ?w s = Some ?u" "thread ?u = Some t" "overrun ?u"
    using receive_overrun(2) [OF Cons.prems, of bs] Cons.prems by simp_all
  from Cons.IH [OF this] obtain u' where
    u': "for_each (receive E s) bss ?w = Some (?w\<lparr>sess := (sess ?w)(s \<mapsto> u')\<rparr>)" "overrun u'"
      "inbuf u' = inbuf ?u @ concat bss" by blast
  have "?w\<lparr>sess := (sess ?w)(s \<mapsto> u')\<rparr> = w\<lparr>sess := (sess w)(s \<mapsto> u')\<rparr>" by simp
  with u'(1) have "for_each (receive E s) (bs # bss) w = Some (w\<lparr>sess := (sess w)(s \<mapsto> u')\<rparr>)"
    using receive_overrun(1) [OF Cons.prems, of E bs] by (simp only: for_each.simps bind.bind_lunit)
  moreover have "inbuf u' = inbuf u @ concat (bs # bss)" using u'(3) by simp
  ultimately show ?case using u'(2) by blast
qed

section \<open>A refused header\<close>

lemma receive_refused:
  assumes u: "sess w s = Some u" "thread u = Some t" "\<not> got_head (buf_info u)"
    and i: "8 \<le> length (inbuf u @ bs)" "get_le32 4 (inbuf u @ bs) > mt_code MSG_TYPE_MAX \<or>
      unat (get_le32 0 (inbuf u @ bs)) > max_total_size"
  shows "receive E s bs w = map_option snd (ClosingClientCon E t (clifd u) (w\<lparr>sess := (sess w)(s \<mapsto>
    u\<lparr>inbuf := inbuf u @ bs, buf_info := (buf_info u)\<lparr>total_size := get_le32 0 (inbuf u @ bs),
      msg_type := get_le32 4 (inbuf u @ bs)\<rparr>\<rparr>)\<rparr>))"
proof -
  have "read_head (length (inbuf u @ bs)) (u\<lparr>inbuf := inbuf u @ bs\<rparr>) = None"
    using u(3) i by (simp add: read_head_def DATA_HEAD_LENGTH_def Let_def)
  then show ?thesis using u(1,2)
    by (simp add: receive_def OnReadCb_def upd_sess_def Let_def map_conv_bind_option case_prod_unfold comp_def)
qed

end
