(* ===== verification/Demo.thy ===== *)
theory Demo
  imports Progress Reading
begin

text \<open>
  A concrete outside world and concrete states of the server, on which the theorems are
  applied: \<open>table x y z\<close> is one worker with three connections whose users sit at board 1 of
  hall 1 with the statuses \<open>x\<close>, \<open>y\<close>, \<open>z\<close>.
\<close>

definition demo_move :: "bool \<Rightarrow> MoveChess" where
  "demo_move win = \<lparr>mc_src_chess_type = 1, mc_src_user_locate = LOCATION_LEFT, mc_from_pointX = 0,
     mc_from_pointY = 0, mc_des_pointX = 0, mc_des_pointY = 1, mc_is_winner = win,
     mc_eat_target_chess_type = None, mc_target_user_locate = Some LOCATION_RIGHT\<rparr>"

definition demo_env :: env where
  "demo_env = \<lparr>parse_Echo = (\<lambda>_. None), parse_LogOnorOut = (\<lambda>_. Some \<lparr>lo_account = ''a'', lo_password = ''p''\<rparr>),
     parse_Register = (\<lambda>_. None), parse_ChessBoardInfoReq = (\<lambda>_. None), parse_HallInfoReq = (\<lambda>_. None),
     parse_RequestPlay = (\<lambda>_. Some \<lparr>rp_game_hall_id = 1, rp_chess_board_id = 1, rp_locate = LOCATION_LEFT\<rparr>),
     parse_MoveChess = (\<lambda>bs. Some (demo_move (bs \<noteq> []))),
     parse_UserMessage = (\<lambda>_. Some \<lparr>um_src_user_locate = LOCATION_LEFT, um_msgContent = ''hi''\<rparr>),
     parse_Reconciled = (\<lambda>_. Some \<lparr>rc_apply_or_reply = 0, rc_src_user_locate = LOCATION_LEFT,
        rc_tar_user_locate = LOCATION_RIGHT, rc_status = Some ''All''\<rparr>),
     parse_GiveUp = (\<lambda>_. None),
     parse_Undo = (\<lambda>_. Some \<lparr>ud_rep_or_respon = 1, ud_src_user_locate = LOCATION_RIGHT,
        ud_tar_user_locate = LOCATION_LEFT, ud_status = Some True\<rparr>),
     parse_GameReadyReq = (\<lambda>_. Some \<lparr>gr_src_user_locate = LOCATION_LEFT, gr_total_time = Some 60, gr_single_step_time = Some 5\<rparr>),
     parse_FindPassword = (\<lambda>_. None), parse_UpdateUserInfo = (\<lambda>_. None),
     parse_AdPictureReq = (\<lambda>_. Some \<lparr>aq_image_id = 0, aq_req_type = 0, aq_last_one = Some True\<rparr>),
     ser_Echo = (\<lambda>_. []), ser_ReplyStatus = (\<lambda>_. []), ser_ChessBoardInfo = (\<lambda>_. []), ser_HallInfo = (\<lambda>_. []),
     ser_GameHallSumary = (\<lambda>_. []), ser_RequestPlayReply = (\<lambda>_. []), ser_MoveAction = (\<lambda>_. []), ser_GiveUp = (\<lambda>_. []),
     ser_GameStatusReply = (\<lambda>_. []), ser_AdPictureItemReply = (\<lambda>_. []), ser_AdPictureContentReply = (\<lambda>_. []),
     db_real_query = (\<lambda>_. 0), db_ping = (\<lambda>_. 0),
     db_result = (\<lambda>_. Some [[Some ''a'', Some ''p'', None, Some ''100'', None, None, None]]),
     db_escape = (\<lambda>s. s), file_open = (\<lambda>_. None), bufferevent_ok = (\<lambda>_. True), end_reads_null = True\<rparr>"

definition player :: "int \<Rightarrow> u32 \<Rightarrow> UserGameStatus \<Rightarrow> UserSession" where
  "player fd l st = UserSession_new\<lparr>clifd := fd, thread := Some 0, locate := l, currChessBoard := Some (1, 1),
     stateMachine := Some STATE_GAME_PLAY, nextState := Some STATE_GAME_PLAY, status := st, bufev := True,
     timer_on := True, user_info := UsersInfo_Reset\<lparr>score := 100\<rparr>\<rparr>"

definition demo_board :: ChessBoard where
  "demo_board = (ChessBoard_new 1 1)\<lparr>leftUser := Some 0, rightUser := Some 1, bottomUser := Some 2, currUserNum := 3\<rparr>"

definition table_with :: "ChessBoard \<Rightarrow> UserGameStatus \<Rightarrow> UserGameStatus \<Rightarrow> UserGameStatus \<Rightarrow> world" where
  "table_with cb x y z = MainThread_new\<lparr>
     sess := [0 \<mapsto> player 10 LOCATION_LEFT x, 1 \<mapsto> player 11 LOCATION_RIGHT y, 2 \<mapsto> player 12 LOCATION_BOTTOM z],
     sess_next := 3, boards := [(1, 1) \<mapsto> cb],
     halls := (halls MainThread_new)(1 \<mapsto> (GameHall_new 1 chessBoardMax)\<lparr>chessBoardInfo := [(1, (1, 1))]\<rparr>),
     threadList := [new_thread\<lparr>fdSessionMap := [(10, 0), (11, 1), (12, 2)]\<rparr>]\<rparr>"

abbreviation table :: "UserGameStatus \<Rightarrow> UserGameStatus \<Rightarrow> UserGameStatus \<Rightarrow> world" where
  "table \<equiv> table_with demo_board"

text \<open>The same board after the left user has captured the right one.\<close>

definition captured_board :: ChessBoard where
  "captured_board = demo_board\<lparr>recent_winner_locate := LOCATION_LEFT, recent_loser_locate := LOCATION_RIGHT\<rparr>"

definition demo_cb :: "ChessBoard \<Rightarrow> bool" where
  "demo_cb cb \<longleftrightarrow> cb = demo_board \<or> cb = captured_board"

lemma demo_cb: "demo_cb demo_board" "demo_cb captured_board"
  unfolding demo_cb_def by (rule disjI1 disjI2, rule refl)+

lemma player_score: "score (user_info (player fd l st)) = 100"
  by (simp add: player_def UsersInfo_Reset_def)

lemma table_simps [simp]:
  "sess (table_with cb x y z) = [0 \<mapsto> player 10 LOCATION_LEFT x, 1 \<mapsto> player 11 LOCATION_RIGHT y, 2 \<mapsto> player 12 LOCATION_BOTTOM z]"
  "boards (table_with cb x y z) = [(1, 1) \<mapsto> cb]"
  "threadList (table_with cb x y z) = [new_thread\<lparr>fdSessionMap := [(10, 0), (11, 1), (12, 2)]\<rparr>]"
  by (simp_all add: table_with_def)

lemma player_simps [simp]:
  "clifd (player fd l st) = fd" "thread (player fd l st) = Some 0" "locate (player fd l st) = l"
  "currChessBoard (player fd l st) = Some (1, 1)" "stateMachine (player fd l st) = Some STATE_GAME_PLAY"
  "status (player fd l st) = st" "bufev (player fd l st) = True"
  by (simp_all add: player_def)

lemma users_table [simp]:
  "users (table_with cb x y z) 0 = Some (strip (player 10 LOCATION_LEFT x))"
  "users (table_with cb x y z) (Suc 0) = Some (strip (player 11 LOCATION_RIGHT y))"
  "users (table_with cb x y z) 2 = Some (strip (player 12 LOCATION_BOTTOM z))"
  by (simp_all add: users_def)

lemma demo_cb_seats [simp]:
  assumes "demo_cb cb"
  shows "leftUser cb = Some 0" "rightUser cb = Some 1" "bottomUser cb = Some 2" "board_ok cb"
    "currentHall cb = 1" "chessBoardID cb = 1" "seated cb = [0, 1, 2]"
  using assms by (auto simp: demo_cb_def demo_board_def captured_board_def board_ok_def seated_eq ChessBoard_new_def)

lemma table_halls: "halls_ok (table_with cb x y z)"
  by (auto simp: halls_ok_def table_with_def MainThread_new_def GameHall_new_def sm_ok_def hall_numbers_eq chessBoardMax_def
      split: if_splits)

lemma table_sits: "demo_cb cb \<Longrightarrow> sits_at (table_with cb x y z) b l s \<longleftrightarrow>
    b = (1, 1) \<and> (l = LOCATION_LEFT \<and> s = 0 \<or> l = LOCATION_RIGHT \<and> s = 1 \<or> l = LOCATION_BOTTOM \<and> s = 2)"
  by (cases b) (auto simp: sits_at_def GetUserByLocation_def split: if_splits)

lemma table_seats: "demo_cb cb \<Longrightarrow> seat_inv {} (table_with cb x y z)"
  by (auto simp: seat_inv_def table_halls table_sits has_place_def boards_ok_def split: if_splits)

lemma table_going: "demo_cb cb \<Longrightarrow> going demo_env {0, 1, 2} {(1, 1)} {0, 1, 2} (table_with cb x y z)"
  by (auto simp: going_def wired_def started_def table_halls table_sits boards_ok_def usable_def the_thread_def
      all_sessions_def new_thread_def db_plain_def demo_env_def CR_SERVER_GONE_ERROR_def split: if_splits)

text \<open>The left user captures the right one, and an undo is accepted.\<close>

lemma demo_move_simps [simp]:
  "parse_MoveChess demo_env [] = Some (demo_move False)" "parse_MoveChess demo_env [1] = Some (demo_move True)"
  "mc_is_winner (demo_move x) = x" "mc_src_user_locate (demo_move x) = LOCATION_LEFT"
  "mc_target_user_locate (demo_move x) = Some LOCATION_RIGHT"
  by (simp_all add: demo_env_def demo_move_def)

lemma demo_undo:
  "\<exists>ud. parse_Undo demo_env bs = Some ud \<and> ud_rep_or_respon ud = 1 \<and> ud_status ud = Some True"
  by (simp add: demo_env_def)

lemma demo_capture:
  "\<exists>r w. MoveChessHandle demo_env (1, 1) [1] (table STATUS_PLAYING STATUS_PLAYING STATUS_PLAYING) = Some (r, w) \<and>
     wired demo_env {0, 1, 2} {(1, 1)} w \<and> boards w (1, 1) = Some captured_board"
proof -
  let ?w = "table STATUS_PLAYING STATUS_PLAYING STATUS_PLAYING"
  note g = going_wired [OF table_going [OF demo_cb(1), of STATUS_PLAYING STATUS_PLAYING STATUS_PLAYING]]
  obtain r w1 where r: "MoveChessHandle demo_env (1, 1) [1] ?w = Some (r, w1)"
    using move_returns [where b = "(1, 1)" and cb = demo_board, OF g _ demo_move_simps(2)] demo_cb(1)
    by (auto simp: ret_def)
  have "post (wired demo_env {0, 1, 2} {(1, 1)}) (\<lambda>(r, w). wired demo_env {0, 1, 2} {(1, 1)} w)
      (MoveChessHandle demo_env (1, 1) [1] ?w)"
    by (rule call_MoveChessHandle [OF stable_wired g]) simp
  from postD [OF this r] have w1: "wired demo_env {0, 1, 2} {(1, 1)} w1" by simp
  have "boards w1 (1, 1) = Some captured_board"
    using capture_users [where cb = demo_board and a = 0 and t = 1, OF demo_move_simps(2) _ _ _ _ _ r] demo_cb(1)
    unfolding captured_board_def by auto
  then show ?thesis using r w1 by blast
qed

end
