(* ===== verification/Serving.thy ===== *)
theory Serving
  imports Reach
begin

text \<open>
  What the invariant of the reachable states says of one connection: every session is either
  blank in the pool or registered under its own descriptor; a refused message closes the
  connection, frees the seat and gives the session back; a message concerns the session it came
  to; and an accepted descriptor gets a session of its own.
\<close>

section \<open>Sessions and descriptors\<close>

lemma world_threads:
  assumes "world_ok w"
  obtains th where "threadList w = [th]" "live_in {} (fst (shape w)) th (sessionList w) (sess_next w)"
  using world_okD(1) [OF assms] by (rule threads_one)

lemma connected_one: "threadList w = [th] \<Longrightarrow> connected w t fd s \<longleftrightarrow> t = 0 \<and> sm_find fd (fdSessionMap th) = Some s"
  by (auto simp: connected_def)

lemma connected_sess:
  assumes "world_ok w" "connected w t fd s"
  obtains u :: UserSession where "sess w s = Some u" "clifd u = fd" "thread u = Some 0" "s \<notin> set (sessionList w)"
proof -
  obtain th where T: "threadList w = [th]" and l: "live_in {} (fst (shape w)) th (sessionList w) (sess_next w)"
    using assms(1) by (rule world_threads)
  have f: "sm_find fd (fdSessionMap th) = Some s" using assms(2) T by (simp add: connected_one)
  then obtain u where u: "sess w s = Some u" "clifd u = fd" "thread u = Some 0" using live_in_conn [OF l] by fastforce
  moreover have "s \<notin> set (sessionList w)" using live_in_pool [OF l, of s] u by (auto simp: idle_def)
  ultimately show thesis by (rule that)
qed

lemma session_cases:
  assumes "world_ok w" "sess w s = Some u"
  shows "if s \<in> set (sessionList w) then idle u \<and> (\<forall>t fd. \<not> connected w t fd s)
    else thread u = Some 0 \<and> (\<forall>t fd. connected w t fd s \<longleftrightarrow> t = 0 \<and> fd = clifd u)"
proof -
  obtain th where T: "threadList w = [th]" and l: "live_in {} (fst (shape w)) th (sessionList w) (sess_next w)"
    using assms(1) by (rule world_threads)
  have own: "clifd u = fd \<and> thread u = Some 0 \<and> s \<notin> set (sessionList w)" if "connected w t fd s" for t fd
    using assms(1) that by (rule connected_sess) (use assms(2) in simp)
  show ?thesis
  proof (cases "s \<in> set (sessionList w)")
    case True
    then show ?thesis using live_in_pool [OF l True] assms(2) own by auto
  next
    case False
    then have "sm_find (clifd u) (fdSessionMap th) = Some s"
      using live_in_all [OF l, of s "ident u"] assms(2) by simp
    then have c: "connected w 0 (clifd u) s" using T by (simp add: connected_one)
    have "connected w t fd s \<longleftrightarrow> t = 0 \<and> fd = clifd u" for t fd
      using c own [of t fd] T connected_one [of w th t fd s] by blast
    then show ?thesis using False own [OF c] by simp
  qed
qed

lemma pool_bounds:
  assumes "world_ok w"
  shows "distinct (sessionList w)" "length (sessionList w) < 2 * connectionMaxStep" "s \<in> set (sessionList w) \<Longrightarrow> sess w s \<noteq> None"
proof -
  obtain th where l: "live_in {} (fst (shape w)) th (sessionList w) (sess_next w)"
    using assms by (rule world_threads)
  show "distinct (sessionList w)" using live_in_fds(2) [OF l] .
  show "length (sessionList w) < 2 * connectionMaxStep" using assms by (rule world_okD)
  show "s \<in> set (sessionList w) \<Longrightarrow> sess w s \<noteq> None" using live_in_pool [OF l, of s] by auto
qed

lemma idle_unseated:
  assumes "world_ok w" "sess w s = None \<or> (\<exists>u. sess w s = Some u \<and> idle u)"
  shows "\<not> sits_at w b l s"
proof -
  have "sits_at w b l s = has_place w s b l" using assms(1) unfolding world_ok_def srv_inv_def seat_inv_def by blast
  then show ?thesis using assms(2) by (auto simp: has_place_def idle_def)
qed

section \<open>A connection is closed\<close>

lemma close_effect:
  assumes i: "srv_inv {} Y {} w" and n: "length (sessionList w) < 2 * connectionMaxStep"
    and Y: "\<And>s. sm_find fd (fdSessionMap (threadList w ! t)) = Some s \<Longrightarrow> Y \<subseteq> {s}"
    and r: "ClosingClientCon E t fd w = Some (ok, w')" and c: "connected w t fd s"
  shows "world_ok w' \<and> (\<forall>k x. connected w' 0 k x \<longleftrightarrow> k \<noteq> fd \<and> connected w 0 k x)"
proof -
  obtain th where T: "threadList w = [th]" and l: "live_in {} (fst (shape w)) th (sessionList w) (sess_next w)"
    using i by (rule threads_one)
  have t: "t = 0" and f: "sm_find fd (fdSessionMap th) = Some s" using c T by (simp_all add: connected_one)
  have ok: "sm_ok (fdSessionMap th)" using live_in_fds(1) [OF l] by (simp add: fds_ok_def)
  let ?th = "th\<lparr>fdSessionMap := sm_erase fd (fdSessionMap th)\<rparr>"
  let ?w = "w\<lparr>threadList := [?th]\<rparr>"
  have rec: "RecycleSession E s ?w = Some w'"
    using r T t f by (auto simp: ClosingClientCon_def the_thread_def upd_thread_def elim!: bind_SomeE)
  obtain u where u: "sess w s = Some u" "thread u = Some 0" "clifd u = fd" using live_in_conn [OF l f] by auto
  have fd: "0 \<le> fd" using live_in_nonneg [OF l f] .
  have sh: "shape ?w = (fst (shape w), [?th], sessionList w, sess_next w)" by (simp add: shape_def)
  have "srv_inv {} Y {s} ?w"
    using i live_aside [OF l f] unfolding srv_inv_def sh by (simp add: live_def placed_def del: shape_sel)
  then have "world_ok w' \<and> threadList w' = [?th]"
    using RecycleSession_inv [OF _ _ _ _ _ rec, of Y u] Y f T t u n fd by simp
  then show ?thesis using T by (auto simp: connected_one sm_find_erase [OF ok])
qed

lemma disconnected_idle:
  assumes "world_ok w" "\<forall>t fd. \<not> connected w t fd s"
  shows "sess w s = None \<or> (\<exists>u. sess w s = Some u \<and> idle u \<and> s \<in> set (sessionList w))"
proof (cases "sess w s")
  case (Some u)
  then show ?thesis using session_cases [OF assms(1) Some] assms(2) by (auto split: if_splits)
qed simp

text \<open>The state after a connection was closed.\<close>

definition gone :: "int \<Rightarrow> sid \<Rightarrow> world \<Rightarrow> world \<Rightarrow> bool" where
  "gone fd s w w' \<longleftrightarrow> (\<forall>k x. connected w' 0 k x \<longleftrightarrow> k \<noteq> fd \<and> connected w 0 k x) \<and>
     (sess w' s = None \<or> (\<exists>u. sess w' s = Some u \<and> idle u \<and> s \<in> set (sessionList w'))) \<and>
     (\<forall>b l. \<not> sits_at w' b l s)"

lemma gone_closed:
  assumes "world_ok w'" "\<forall>k x. connected w' 0 k x \<longleftrightarrow> k \<noteq> fd \<and> connected w 0 k x"
    and "world_ok w" "connected w t fd s"
  shows "gone fd s w w'"
proof -
  obtain u where u: "sess w s = Some u" "clifd u = fd" using assms(3,4) by (rule connected_sess)
  obtain th th' where T: "threadList w = [th]" "threadList w' = [th']"
    using assms(1,3) by (metis world_threads)
  have only: "connected w 0 k s \<Longrightarrow> k = fd" for k
    using assms(3) u by (metis connected_sess option.inject)
  then have none: "\<forall>t k. \<not> connected w' t k s" using assms(2) T by (auto simp: connected_one)
  show ?thesis
    using assms(2) disconnected_idle [OF assms(1) none] idle_unseated [OF assms(1), of s] by (auto simp: gone_def)
qed

lemma close_gone:
  assumes "world_ok w" "connected w t fd s" "ClosingClientCon E t fd w = Some (ok, w')"
  shows "gone fd s w w'"
  using close_effect [of "{}", OF _ _ _ assms(3,2)] assms world_okD [OF assms(1)] gone_closed by blast

section \<open>A message\<close>

text \<open>What the session's own handler leaves, whatever it answers.\<close>

lemma handled_session:
  assumes i: "world_ok w" and c: "connected w t fd s" and r: "UserSession_MessageHandle E s ty msg w = Some (ok, w')"
  shows "srv_inv {} (if ok then {} else {s}) {} w'" "length (sessionList w') < 2 * connectionMaxStep"
    "connected w' t fd s" "\<And>k x. connected w' 0 k x = connected w 0 k x"
    "\<exists>u u'. sess w s = Some u \<and> sess w' s = Some u' \<and> (ok \<longrightarrow> allowed (phase u) (phase u') \<and> stateMachine u' \<noteq> None) \<and>
       others_kept s (phase u) (shape w) (shape w')"
proof -
  obtain u where u: "sess w s = Some u" "clifd u = fd" "thread u = Some 0" using i c by (rule connected_sess)
  note m = session_message [OF world_okD(1) [OF i] u(1) _ r]
  have f: "threadList w' = threadList w" "sessionList w' = sessionList w"
    using m(2) u by (simp_all add: shape_def)
  show "srv_inv {} (if ok then {} else {s}) {} w'" using m(1) u by simp
  show "length (sessionList w') < 2 * connectionMaxStep" using f world_okD(2) [OF i] by simp
  show "connected w' t fd s" "\<And>k x. connected w' 0 k x = connected w 0 k x" using c f by (simp_all add: connected_def)
  show "\<exists>u u'. sess w s = Some u \<and> sess w' s = Some u' \<and> (ok \<longrightarrow> allowed (phase u) (phase u') \<and> stateMachine u' \<noteq> None) \<and>
       others_kept s (phase u) (shape w) (shape w')"
    using m(3,4) u by blast
qed

lemma thread_message:
  assumes c: "connected w t fd s" and r: "WorkThread_MessageHandle E t fd ty msg w = Some (ok, w')"
  obtains w1 where "UserSession_MessageHandle E s ty msg w = Some (ok, w1)"
    "if ok then ResetTimer s w1 = Some w' else \<exists>x. ClosingClientCon E t fd w1 = Some (x, w')"
proof -
  have f: "t < length (threadList w)" "sm_find fd (fdSessionMap (threadList w ! t)) = Some s"
    using c by (simp_all add: connected_def)
  obtain b w1 where 1: "UserSession_MessageHandle E s ty msg w = Some (b, w1)"
    and 2: "(if \<not> b then do { (_, w) \<leftarrow> ClosingClientCon E t fd w1; Some (False, w) }
             else do { w \<leftarrow> ResetTimer s w1; Some (True, w) }) = Some (ok, w')"
    using r f by (auto simp: WorkThread_MessageHandle_def the_thread_def elim!: bind_SomeE)
  have "b = ok" using 2 by (cases b) (auto elim!: bind_SomeE)
  with 1 2 show thesis by (intro that [of w1]) (auto elim!: bind_SomeE split: if_splits)
qed

lemma refused_gone:
  assumes i: "world_ok w" and c: "connected w t fd s"
    and r: "WorkThread_MessageHandle E t fd ty msg w = Some (False, w')"
  shows "gone fd s w w'"
proof -
  obtain w1 x where 1: "UserSession_MessageHandle E s ty msg w = Some (False, w1)"
    and 2: "ClosingClientCon E t fd w1 = Some (x, w')"
    using c r by (rule thread_message) auto
  note h = handled_session [OF i c 1]
  have "\<And>y. sm_find fd (fdSessionMap (threadList w1 ! t)) = Some y \<Longrightarrow> {s} \<subseteq> {y}"
    using h(3) by (simp add: connected_def)
  then have "world_ok w' \<and> (\<forall>k x. connected w' 0 k x \<longleftrightarrow> k \<noteq> fd \<and> connected w1 0 k x)"
    using close_effect [OF _ h(2) _ 2 h(3), of "{s}"] h(1) by simp
  then show ?thesis using h(4) by (intro gone_closed [OF _ _ i c]) auto
qed

text \<open>An accepted message: the state moves along the allowed transitions, nobody is disconnected, and
  the other sessions keep their place, but for one that was made to leave.\<close>

lemma accepted_kept:
  assumes i: "world_ok w" and c: "connected w t fd s"
    and r: "WorkThread_MessageHandle E t fd ty msg w = Some (True, w')"
  shows "(\<forall>k x. connected w' 0 k x = connected w 0 k x) \<and>
    (\<exists>u u'. sess w s = Some u \<and> sess w' s = Some u' \<and> allowed (phase u) (phase u') \<and> timer_on u' \<and>
      stateMachine u' \<noteq> None \<and> others_kept s (phase u) (shape w) (shape w'))"
proof -
  obtain w1 where 1: "UserSession_MessageHandle E s ty msg w = Some (True, w1)"
    and 2: "ResetTimer s w1 = Some w'"
    using c r by (rule thread_message) auto
  note h = handled_session [OF i c 1]
  obtain u u1 where u: "sess w s = Some u" "sess w1 s = Some u1" "allowed (phase u) (phase u1)" "stateMachine u1 \<noteq> None"
    and o1: "others_kept s (phase u) (shape w) (shape w1)" using h(5) by auto
  have w': "w' = w1\<lparr>sess := (sess w1)(s \<mapsto> u1\<lparr>timer_on := True\<rparr>)\<rparr>"
    using 2 u by (simp add: ResetTimer_def upd_sess_def)
  have "others_kept s (phase u) (shape w) (shape w')"
    using o1 unfolding others_kept_def by (simp add: w')
  moreover have "phase (u1\<lparr>timer_on := True\<rparr>) = phase u1" by (simp add: phase_def)
  moreover have "connected w' 0 k x = connected w 0 k x" for k x
    using h(4) [of k x] by (simp add: w' connected_def)
  ultimately show ?thesis using u by (simp add: w')
qed

text \<open>The same, field by field.\<close>

definition undisturbed :: "bool \<Rightarrow> UserSession \<Rightarrow> UserSession \<Rightarrow> bool" where
  "undisturbed may u u' \<longleftrightarrow> clifd u' = clifd u \<and> thread u' = thread u \<and> stateMachine u' = stateMachine u \<and>
     locate u' = locate u \<and>
     (currChessBoard u' = currChessBoard u \<and> nextState u' = nextState u \<or>
      may \<and> currChessBoard u' = None \<and> nextState u' = Some STATE_GAME_READY)"

lemma others_undisturbed:
  assumes "others_kept s st (shape w) (shape w')" "s' \<noteq> s" "sess w s' = Some v"
  shows "\<exists>v'. sess w' s' = Some v' \<and> undisturbed (st = STATE_GAME_PLAY) v v'"
proof -
  from assms consider (same) "map_option ident (sess w' s') = Some (ident v)"
    | (gone) "st = STATE_GAME_PLAY" "map_option ident (sess w' s') = Some (evicted (ident v))"
    unfolding others_kept_def by auto
  then show ?thesis
  proof cases
    case same
    then obtain v' where "sess w' s' = Some v'" "ident v' = ident v" by auto
    then show ?thesis using ident_eqD [of v' v] by (simp add: undisturbed_def)
  next
    case gone
    then obtain v' where v': "sess w' s' = Some v'" "ident v' = evicted (ident v)" by auto
    have "clifd v' = clifd v" "thread v' = thread v" "stateMachine v' = stateMachine v" "locate v' = locate v"
      "currChessBoard v' = None" "nextState v' = Some STATE_GAME_READY"
      using arg_cong [OF v'(2), of clifd] arg_cong [OF v'(2), of thread] arg_cong [OF v'(2), of stateMachine]
        arg_cong [OF v'(2), of locate] arg_cong [OF v'(2), of currChessBoard] arg_cong [OF v'(2), of nextState]
      by (simp_all add: evicted_def)
    then show ?thesis using v'(1) gone(1) by (simp add: undisturbed_def)
  qed
qed

section \<open>A new connection\<close>

lemma notify_connects:
  assumes i: "world_ok w" and T: "threadList w = [th]"
    and p: "notify_pipe th = \<lparr>command = COMMAND_NOTIFY_ADD_EVENT, pipe_fd = fd\<rparr> # rest"
  shows "\<exists>w' s u. NotifyReceivedProcess E 0 w = Some w' \<and> sess w' s = Some u \<and> clifd u = fd \<and>
    thread u = Some 0 \<and> stateMachine u = None \<and> inbuf u = [] \<and> timer_on u \<and>
    (\<forall>k x. connected w' 0 k x \<longleftrightarrow> k = fd \<and> x = s \<or> connected w 0 k x)"
proof -
  have l: "live_in {} (fst (shape w)) th (sessionList w) (sess_next w)"
    using world_okD(1) [OF i] T by (auto simp: srv_inv_def live_def)
  have f: "fds_ok th" using l by (rule live_in_fds)
  let ?th = "th\<lparr>notify_pipe := rest\<rparr>"
  let ?w = "w\<lparr>threadList := [?th]\<rparr>"
  have fth: "fds_ok ?th" using f p by (auto simp: fds_ok_def)
  have i1: "srv_inv {} {} {} ?w"
    by (rule srv_inv_pipe [OF world_okD(1) [OF i] T fth, of _ "lastSelectIndex w"]) simp_all
  obtain s w2 where g: "GetOneSessionFromPool ?w = Some (s, w2)"
    using GetOneSessionFromPool_total [OF i1] by blast
  have n: "length (sessionList ?w) < 2 * connectionMaxStep" using world_okD(2) [OF i] by simp
  obtain u where u: "threadList w2 = [?th]" "sess w2 s = Some u" "idle u"
    using GetOneSessionFromPool_inv [OF i1 n g] by auto
  let ?u = "u\<lparr>clifd := fd, thread := Some 0, timer_on := True, bufev := bufferevent_ok E fd, inbuf := []\<rparr>"
  let ?w' = "w2\<lparr>sess := (sess w2)(s \<mapsto> ?u), threadList := [?th\<lparr>fdSessionMap := sm_insert fd s (fdSessionMap th)\<rparr>]\<rparr>"
  have r: "NotifyReceivedProcess E 0 w = Some ?w'"
    using T p g u(1,2) by (simp add: NotifyReceivedProcess_def the_thread_def upd_thread_def add_session_def upd_sess_def)
  have ok: "sm_ok (fdSessionMap th)" using f by (simp add: fds_ok_def)
  have "fd \<notin> fst ` set (fdSessionMap th)" using f p by (auto simp: fds_ok_def)
  then have none: "sm_find fd (fdSessionMap th) = None"
    by (metis image_eqI fst_conv sm_find_Some_set option.exhaust)
  have "connected ?w' 0 k x \<longleftrightarrow> k = fd \<and> x = s \<or> connected w 0 k x" for k x
    using none T by (auto simp: connected_def sm_find_insert [OF ok])
  moreover have "sess ?w' s = Some ?u" by simp
  moreover have "stateMachine ?u = None" using u(3) by (simp add: idle_def)
  ultimately show ?thesis using r by fastforce
qed

text \<open>Round robin: after \<open>k\<close> choices the next thread is the \<open>k\<close>-th from the first.\<close>

primrec choices :: "nat \<Rightarrow> world \<Rightarrow> nat list option" where
  "choices 0 w = Some []"
| "choices (Suc k) w = do { (t, w) \<leftarrow> GetOneThread w; ts \<leftarrow> choices k w; Some (t # ts) }"

lemma choices_eq:
  assumes "n = length (threadList w)" "0 < n" "n \<le> 256" "unat (lastSelectIndex w) < n"
  shows "choices k w = Some (map (\<lambda>i. (unat (lastSelectIndex w) + i) mod n) [0..<k])"
  using assms(1,4)
proof (induction k arbitrary: w)
  case 0
  then show ?case by simp
next
  case (Suc k)
  let ?i = "unat (lastSelectIndex w)"
  let ?w = "w\<lparr>lastSelectIndex := of_nat ((?i + 1) mod n)\<rparr>"
  have g: "GetOneThread w = Some (?i, ?w)" using Suc.prems assms(2) by (simp add: GetOneThread_def Let_def)
  have "(?i + 1) mod n < 256" using assms(2,3) by (metis less_le_trans mod_less_divisor)
  then have i': "unat (lastSelectIndex ?w) = (?i + 1) mod n" by (simp add: unat_of_nat del: of_nat_Suc of_nat_add)
  then have "unat (lastSelectIndex ?w) < n" using assms(2) by simp
  from Suc.IH [OF _ this] Suc.prems
  have c: "choices k ?w = Some (map (\<lambda>i. ((?i + 1) mod n + i) mod n) [0..<k])" using i' by simp
  have "map (\<lambda>i. (?i + i) mod n) [0..<Suc k] = ?i # map (\<lambda>i. (?i + Suc i) mod n) [0..<k]"
    using Suc.prems by (simp add: upt_conv_Cons map_Suc_upt [symmetric] del: upt_Suc)
  then show ?case using g c by (simp add: mod_simps)
qed

end
