(* ===== verification/Join_Progress.thy ===== *)
theory Join_Progress
  imports Progress
begin

text \<open>
  When the request for a seat comes to an end: exactly for the board numbers the hall has. A
  number that is out of range makes \<open>GetChessBoardByID\<close> return a null pointer, which
  \<open>StateGameReady::GameRequestHandle\<close> dereferences.
\<close>

section \<open>Boards are always found\<close>

lemma hall_not_full:
  assumes "halls_ok w" "halls w h = Some hall"
  shows "\<not> GetChessValidBoardNum hall > chessBoardMaxNum hall"
proof -
  let ?m = "chessBoardInfo hall"
  have ok: "sm_ok ?m" and mx: "chessBoardMaxNum hall = chessBoardMax"
    using assms unfolding halls_ok_def by blast+
  have "fst ` set ?m \<subseteq> {i. i \<noteq> 0 \<and> i \<le> chessBoardMax}"
  proof
    fix i assume "i \<in> fst ` set ?m"
    then obtain b where "sm_find i ?m = Some b" using sm_find_set [OF ok] by force
    then show "i \<in> {i. i \<noteq> 0 \<and> i \<le> chessBoardMax}" using assms unfolding halls_ok_def by blast
  qed
  moreover have "{i. i \<noteq> 0 \<and> i \<le> chessBoardMax} \<subseteq> of_nat ` {1..60}"
  proof
    fix i :: u32 assume "i \<in> {i. i \<noteq> 0 \<and> i \<le> chessBoardMax}"
    then have "unat i \<in> {1..60}"
      by (auto simp: chessBoardMax_def word_le_nat_alt Suc_le_eq word_unat_eq_iff)
    moreover have "of_nat (unat i) = i" by simp
    ultimately show "i \<in> of_nat ` {1..60}" by (metis image_eqI)
  qed
  ultimately have "card (fst ` set ?m) \<le> card ((of_nat :: nat \<Rightarrow> u32) ` {1..60})"
    by (intro card_mono) auto
  also have "\<dots> \<le> 60" by (rule order_trans [OF card_image_le]) simp_all
  finally have c: "card (fst ` set ?m) \<le> 60" .
  have "distinct (map fst ?m)" using ok unfolding sm_ok_def by (simp add: strict_sorted_iff)
  from distinct_card [OF this] c have "length ?m \<le> 60" by simp
  then show ?thesis
    by (simp add: GetChessValidBoardNum_def mx chessBoardMax_def word_less_nat_alt unat_of_nat)
qed

lemma board_found:
  assumes "wired E S B w" "h \<in> set hall_numbers" "i \<noteq> 0" "i \<le> chessBoardMax"
  shows "\<exists>w'. GetChessBoardByID E h i w = Some (Some (h, i), w')"
proof -
  have h: "halls_ok w" and e: "end_reads_null E" using assms(1) by (simp_all add: wired_def)
  have "halls w h \<noteq> None" using h assms(2) unfolding halls_ok_def by blast
  then obtain hall where hall: "halls w h = Some hall" by blast
  have ok: "sm_ok (chessBoardInfo hall)" and mx: "chessBoardMaxNum hall = chessBoardMax"
    and b: "\<And>b. sm_find i (chessBoardInfo hall) = Some b \<Longrightarrow> b = (h, i)"
    using h hall unfolding halls_ok_def by blast+
  show ?thesis
    using hall e hall_not_full [OF h hall] assms(3,4) mx b
    by (auto simp: GetChessBoardByID_def CreateChessBoard_def sm_find_insert [OF ok] split: option.splits)
qed

lemma board_refused:
  assumes "wired E S B w" "h \<in> set hall_numbers" "i = 0 \<or> i > chessBoardMax"
  shows "GetChessBoardByID E h i w = Some (None, w)"
proof -
  have h: "halls_ok w" using assms(1) by (simp add: wired_def)
  have "halls w h \<noteq> None" using h assms(2) unfolding halls_ok_def by blast
  then obtain hall where hall: "halls w h = Some hall" by blast
  then have "chessBoardMaxNum hall = chessBoardMax" using h unfolding halls_ok_def by blast
  then show ?thesis using hall assms(3) by (auto simp: GetChessBoardByID_def)
qed

section \<open>Writes that keep the state going\<close>

lemma going_write:
  assumes g: "going E S B M w" and s: "s \<in> S"
    and f: "\<And>u. clifd (f u) = clifd u" "\<And>u. thread (f u) = thread u" "\<And>u. bufev (f u) = bufev u"
      "\<And>u. stateMachine (f u) = stateMachine u"
  shows "\<exists>w' u. upd_sess s f w = Some w' \<and> going E S B M w' \<and> boards w' = boards w \<and> sess w s = Some u \<and>
    sess w' s = Some (f u)"
proof -
  obtain u where u: "sess w s = Some u" using wired_sess [OF going_wired [OF g] s] by blast
  let ?w = "w\<lparr>sess := (sess w)(s \<mapsto> f u)\<rparr>"
  have us: "usable ?w = usable w" by (simp add: usable_def the_thread_def fun_eq_iff split: option.splits)
  have uf: "usable w (f u) = usable w u" by (simp add: usable_def f)
  have st: "sits_at ?w = sits_at w" by (simp add: sits_at_def fun_eq_iff)
  have ok: "halls_ok ?w = halls_ok w" "boards_ok ?w = boards_ok w" "all_sessions ?w = all_sessions w"
    by (simp_all add: halls_ok_def boards_ok_def all_sessions_def)
  have wd: "wired E S B w" using g by (rule going_wired)
  have "\<exists>v. sess ?w s' = Some v \<and> usable ?w v" if "s' \<in> S" for s'
    using wired_sess [OF wd that] wired_sess [OF wd s] u by (cases "s' = s") (auto simp: us uf)
  then have "wired E S B ?w" using wd unfolding wired_def st ok by simp
  moreover have "started M ?w"
    unfolding started_def st
  proof (intro allI impI)
    fix s' assume "s' \<in> M \<or> (\<exists>b l. sits_at w b l s')"
    then obtain v where "sess w s' = Some v" "stateMachine v \<noteq> None" using g unfolding going_def started_def by blast
    then show "\<exists>v. sess ?w s' = Some v \<and> stateMachine v \<noteq> None" using u f(4) [of u] by (cases "s' = s") auto
  qed
  ultimately show ?thesis using u by (simp add: upd_sess_def going_def)
qed

text \<open>Taking a seat adds a user to the board, and nobody else's seat changes.\<close>

lemma going_sit:
  assumes g: "going E S B M w" and b: "b \<in> B" and s: "s \<in> S" "S \<subseteq> M"
  shows "\<exists>w'. upd_board b (\<lambda>cb. snd (AddUser (Some s) l cb)) w = Some w' \<and> going E S B M w'"
proof -
  obtain cb where cb: "boards w b = Some cb" using wired_board [OF going_wired [OF g] b] by blast
  let ?cb = "snd (AddUser (Some s) l cb)"
  let ?w = "w\<lparr>boards := (boards w)(b \<mapsto> ?cb)\<rparr>"
  have wd: "wired E S B w" using g by (rule going_wired)
  have ok: "board_ok cb" and bo: "boards_ok w" using wired_env [OF wd] cb unfolding boards_ok_def by blast+
  have sub: "sits_at ?w b' l' s' \<Longrightarrow> sits_at w b' l' s' \<or> s' = s" for b' l' s'
    using cb by (auto simp: sits_at_def AddUser_seat split: if_splits)
  have "boards_ok ?w" using bo cb AddUser_ok [OF ok] by (auto simp: boards_ok_def)
  moreover have "all_sessions ?w = all_sessions w" by (simp add: all_sessions_def)
  moreover have "usable ?w = usable w" by (simp add: usable_def the_thread_def fun_eq_iff split: option.splits)
  moreover have "s' \<in> S" if "sits_at ?w b' l' s'" for b' l' s'
    using sub [OF that] wd s(1) unfolding wired_def by blast
  ultimately have "wired E S B ?w"
    using wd cb unfolding wired_def by (intro conjI) (auto simp: halls_board_write)
  moreover have "started M ?w"
    unfolding started_def
  proof (intro allI impI)
    fix s' assume "s' \<in> M \<or> (\<exists>b l. sits_at ?w b l s')"
    then have "s' \<in> M \<or> (\<exists>b l. sits_at w b l s')" using sub s by blast
    then have "\<exists>u. sess w s' = Some u \<and> stateMachine u \<noteq> None" using g unfolding going_def started_def by blast
    then show "\<exists>u. sess ?w s' = Some u \<and> stateMachine u \<noteq> None" by simp
  qed
  ultimately show ?thesis using cb by (auto simp: upd_board_def going_def)
qed

lemma going_found:
  assumes g: "going E S B M w" and h: "h \<in> set hall_numbers" and i: "i \<noteq> 0" "i \<le> chessBoardMax"
  shows "\<exists>w'. GetChessBoardByID E h i w = Some (Some (h, i), w') \<and> going E S {(h, i)} M w'"
proof -
  obtain w' where r: "GetChessBoardByID E h i w = Some (Some (h, i), w')"
    using board_found [OF going_wired [OF g] h i] by blast
  have ho: "halls_ok w" using wired_env [OF going_wired [OF g]] by simp
  have t: "talk w w'" and b: "boards w' (h, i) \<noteq> None" using GetChessBoardByID_spec [OF r ho] by auto
  have "going E S B M w'" using stable_keeps [OF stable_going g talk_keeps [OF t]] .
  then have "going E S {(h, i)} M w'" using b unfolding going_def wired_def by blast
  then show ?thesis using r by blast
qed

lemma take_seat_going:
  assumes g: "going E S B M w" and b: "b \<in> B" and s: "s \<in> S"
  shows "\<exists>rep w' u. take_seat s b rp w = Some (rep, w') \<and> going E S B M w' \<and> sess w' s = Some u \<and> currChessBoard u = Some b"
proof -
  let ?K = "going E S B M"
  obtain w1 where 1: "set_status STATUS_READY s w = Some w1"
    using runs_set_status [OF going_wired [OF g] s] by fastforce
  have g1: "?K w1" by (rule postD [OF _ 1, of ?K]) (use g in \<open>auto intro!: calls\<close>)
  obtain w2 where 2: "upd_sess s (\<lambda>u. u\<lparr>currChessBoard := Some b\<rparr>) w1 = Some w2" and g2: "?K w2"
    and u2: "\<exists>u. sess w2 s = Some u \<and> currChessBoard u = Some b"
    using going_write [OF g1 s, of "\<lambda>u. u\<lparr>currChessBoard := Some b\<rparr>"] by fastforce
  let ?f = "\<lambda>cb. if GetUserNum cb = 1 then cb\<lparr>first_come_user_locate := rp_locate rp\<rparr> else cb"
  obtain w3 where 3: "upd_board b ?f w2 = Some w3" using runs_upd_board [OF going_wired [OF g2] b] by fastforce
  have g3: "?K w3" by (rule postD [OF _ 3, of ?K]) (use g2 in \<open>auto intro!: call_upd_board simp: seating_of_def\<close>)
  have u3: "\<exists>u. sess w3 s = Some u \<and> currChessBoard u = Some b" using u2 3 by (auto simp: upd_board_def split: option.splits)
  obtain cb info where 4: "boards w3 b = Some cb" "WrapChessBoardInfo b w3 = Some info"
    using wired_board [OF going_wired [OF g3] b] runs_tables(6) [OF going_wired [OF g3] b] by (fastforce simp: ret_def)
  obtain w4 u where 5: "upd_sess s (SetNextState STATE_GAME_PLAY) w3 = Some w4" "?K w4"
    "sess w3 s = Some u" "sess w4 s = Some (SetNextState STATE_GAME_PLAY u)"
    using going_write [OF g3 s, of "SetNextState STATE_GAME_PLAY"] by (auto simp: SetNextState_def)
  then show ?thesis using 1 2 3 4 u3 by (auto simp: take_seat_def SetNextState_def)
qed

section \<open>The request\<close>

lemma request_returns:
  assumes g: "going E S B M w" and s: "s \<in> S" "S \<subseteq> M"
    and p: "parse_RequestPlay E msg = Some rp" "rp_game_hall_id rp \<in> set hall_numbers"
  shows "ret (GameRequestHandle E s msg w) \<longleftrightarrow> rp_chess_board_id rp \<noteq> 0 \<and> rp_chess_board_id rp \<le> chessBoardMax"
proof -
  let ?h = "rp_game_hall_id rp" and ?i = "rp_chess_board_id rp" and ?l = "rp_locate rp"
  let ?b = "(?h, ?i)"
  have ho: "halls_ok w" using wired_env [OF going_wired [OF g]] by simp
  have gh: "GetGameHall ?h w = Some (Some ?h)" using GetGameHall_eq [OF ho] p(2) by simp
  show ?thesis
  proof (cases "?i \<noteq> 0 \<and> ?i \<le> chessBoardMax")
    case False
    then have "GetChessBoardByID E ?h ?i w = Some (None, w)"
      using board_refused [OF going_wired [OF g] p(2), of ?i] by (auto simp: not_le)
    then show ?thesis using False p(1) gh by (auto simp: GameRequestHandle_def ret_def Option.bind_eq_None_conv)
  next
    case True
    let ?K = "going E S {?b} M"
    obtain w1 where 1: "GetChessBoardByID E ?h ?i w = Some (Some ?b, w1)" and g1: "?K w1"
      using going_found [OF g p(2)] True by blast
    obtain w2 where 2: "upd_sess s (\<lambda>u. u\<lparr>locate := ?l\<rparr>) w1 = Some w2" and g2: "?K w2"
      using going_write [OF g1 s(1), of "\<lambda>u. u\<lparr>locate := ?l\<rparr>"] by auto
    obtain cb where cb: "boards w2 ?b = Some cb" using wired_board [OF going_wired [OF g2]] by blast
    obtain began where began: "GameBegan ?b w2 = Some began" using wired_counts(3) [OF going_wired [OF g2] cb] by blast
    obtain w3 where 3: "upd_board ?b (\<lambda>cb. snd (AddUser (Some s) ?l cb)) w2 = Some w3" and g3: "?K w3"
      using going_sit [OF g2 _ s] by blast
    obtain rep w4 u where 4: "take_seat s ?b rp w3 = Some (rep, w4)" and g4: "?K w4"
      and u: "sess w4 s = Some u" "currChessBoard u = Some ?b" using take_seat_going [OF g3 _ s(1)] by blast
    obtain w5 where 5: "reply s MSG_REQUEST_PLAY_REPLY (ser_RequestPlayReply E rep) w4 = Some w5"
      using runs_reply [OF going_wired [OF g4] s(1)] by fastforce
    have g5: "?K w5" by (rule postD [OF _ 5, of ?K]) (use g4 in \<open>auto intro!: calls\<close>)
    obtain u5 where u5: "sess w5 s = Some u5" "currChessBoard u5 = Some ?b"
      using reply_eq [OF 5] u by (auto simp: GetBuffer_def)
    obtain w6 where 6: "BroadCastMsg ?b MSG_REQUEST_PLAY_REPLY (ser_RequestPlayReply E (rep\<lparr>rr_status := 2\<rparr>))
        (locate u5) w5 = Some w6"
      using runs_BroadCastMsg [OF going_wired [OF g5]] by fastforce
    have g6: "?K w6" by (rule postD [OF _ 6, of ?K]) (use g5 in \<open>auto intro!: calls\<close>)
    have 7: "ret (BroadCastHallInfo E ?b s w6)" using runs_hall [OF g6 s(2) _ s(1)] by simp
    obtain w8 where 8: "reply s MSG_REQUEST_PLAY_REPLY (ser_RequestPlayReply E \<lparr>rr_status = 0,
        rr_first_come_user_locate = first_come_user_locate cb, rr_chessboard = None\<rparr>) w2 = Some w8"
      using runs_reply [OF going_wired [OF g2] s(1)] by fastforce
    show ?thesis
      using True p(1) gh 1 2 cb began 3 4 5 u5 6 7 8 by (auto simp: GameRequestHandle_def ret_def)
  qed
qed

end
