(* ===== verification/Demo_Run.thy ===== *)
theory Demo_Run
  imports Demo Serving Join_Progress
begin

text \<open>
  A run of the server from its start: a client connects, logs in, skips the advertisements and
  asks for the left seat of board 1 in hall 1. \<open>stage u log net\<close> is a state of this run: one
  connection with session 0, whose data are \<open>u\<close>.
\<close>

definition stage :: "UserSession \<Rightarrow> string list \<Rightarrow> (int \<times> bytes) list \<Rightarrow> world" where
  "stage u log net = server_start\<lparr>
     sess := (\<lambda>s. if s = 0 then Some u else if s < 10 then Some UserSession_new else None),
     sess_next := 10, sessionList := [1..<10],
     threadList := [new_thread\<lparr>fdSessionMap := [(10, 0)]\<rparr>], netlog := net, dblog := log\<rparr>"

definition online :: UserSession where
  "online = UserSession_new\<lparr>clifd := 10, thread := Some 0, timer_on := True, bufev := True\<rparr>"

lemma stage_simps [simp]:
  "threadList (stage u log net) = [new_thread\<lparr>fdSessionMap := [(10, 0)]\<rparr>]"
  "sess (stage u log net) 0 = Some u" "netlog (stage u log net) = net" "dblog (stage u log net) = log"
  "(stage u log net)\<lparr>netlog := net'\<rparr> = stage u log net'" "(stage u log net)\<lparr>dblog := log'\<rparr> = stage u log' net"
  by (simp_all add: stage_def)

lemma stage_sess [simp]: "(stage u log net)\<lparr>sess := (sess (stage u log net))(0 \<mapsto> v)\<rparr> = stage v log net"
  by (simp add: stage_def fun_eq_iff)

lemma stage_upd [simp]: "upd_sess 0 f (stage u log net) = Some (stage (f u) log net)"
  by (simp add: upd_sess_def)

definition piped :: world where
  "piped = server_start\<lparr>threadList := [new_thread\<lparr>notify_pipe := [\<lparr>command = COMMAND_NOTIFY_ADD_EVENT, pipe_fd = 10\<rparr>]\<rparr>]\<rparr>"

lemma run_accept: "AcceptHandler 10 server_start = Some piped"
  by (simp add: AcceptHandler_def GetOneThread_def NotifyThread_def upd_thread_def server_start_def piped_def
      CreateWorkTheads_def MainThread_new_def new_thread_def)

lemma run_notify: "NotifyReceivedProcess demo_env 0 piped = Some (stage online [] [])"
  by (simp add: NotifyReceivedProcess_def piped_def the_thread_def upd_thread_def GetOneSessionFromPool_def
      server_start_def CreateWorkTheads_def MainThread_new_def new_thread_def connectionMaxStep_def
      numeral_eq_Suc alloc_session_def add_session_def upd_sess_def stage_def online_def demo_env_def sm_insert.simps
      UserSession_new_def fun_eq_iff)

section \<open>A whole frame\<close>

definition waiting :: "StateType option \<Rightarrow> UserSession \<Rightarrow> bool" where
  "waiting st u \<longleftrightarrow> clifd u = 10 \<and> thread u = Some 0 \<and> bufev u \<and> inbuf u = [] \<and> currChessBoard u = None \<and>
     stateMachine u = st \<and> nextState u = st \<and> ad_img_fp u = None"

lemma waiting_fields:
  "waiting st u \<Longrightarrow> clifd u = 10" "waiting st u \<Longrightarrow> thread u = Some 0" "waiting st u \<Longrightarrow> bufev u"
  "waiting st u \<Longrightarrow> inbuf u = []" "waiting st u \<Longrightarrow> stateMachine u = st" "waiting st u \<Longrightarrow> nextState u = st"
  "waiting st u \<Longrightarrow> currChessBoard u = None" "waiting st u \<Longrightarrow> ad_img_fp u = None"
  by (simp_all add: waiting_def)

lemma waiting_frame [simp]:
  "waiting st (u\<lparr>timer_on := a\<rparr>) = waiting st u" "waiting st (u\<lparr>buf_info := b\<rparr>) = waiting st u"
  "waiting st (u\<lparr>user_info := c\<rparr>) = waiting st u" "waiting st (u\<lparr>buffer := d, buf_size := n\<rparr>) = waiting st u"
  "waiting st (GetBuffer k u) = waiting st u"
  by (simp_all add: waiting_def)

definition ask :: "MessageType \<Rightarrow> world \<Rightarrow> world option" where
  "ask ty w = receive demo_env 0 (wire_frame (mt_code ty) []) w"

lemma stage_ask:
  assumes u: "waiting st u" "\<not> got_head (buf_info u)"
    and h: "\<And>v. waiting st v \<Longrightarrow> user_info v = user_info u \<Longrightarrow> \<exists>v' log' net'. waiting st' v' \<and>
      UserSession_MessageHandle demo_env 0 (mt_code ty) [] (stage v log net) = Some (True, stage v' log' net')"
  shows "\<exists>v log' net'. ask ty (stage u log net) = Some (stage v log' net') \<and> waiting st' v \<and> \<not> got_head (buf_info v)"
proof -
  have a: "acceptable (mt_code ty) []"
    by (cases ty) (simp_all add: acceptable_def max_total_size_eq DATA_HEAD_LENGTH_def)
  let ?f = "wire_frame (mt_code ty) []"
  let ?u = "GetBuffer (length ?f) (with_input [] (head_of ?f) u)"
  have w: "waiting st ?u" using u by (simp add: with_input_def waiting_def)
  obtain v log' net' where v: "waiting st' v"
    "UserSession_MessageHandle demo_env 0 (mt_code ty) [] (stage ?u log net) = Some (True, stage v log' net')"
    using h [OF w] by (auto simp: with_input_def)
  have "ask ty (stage u log net) = handle_frame demo_env 0 0 (mt_code ty) [] u (stage u log net)"
    unfolding ask_def using u by (intro receive_last [OF a refl, where a = "[]" and b = ?f]) (simp_all add: waiting_fields pending_def)
  also have "\<dots> = Some (stage (v\<lparr>timer_on := True, buf_info := ReadBufInfo_Reset\<rparr>) log' net')"
    using v waiting_fields(1) [OF u(1)]
    by (simp add: handle_frame_def Let_def WorkThread_MessageHandle_def the_thread_def ResetTimer_def)
  finally have "ask ty (stage u log net) = Some (stage (v\<lparr>timer_on := True, buf_info := ReadBufInfo_Reset\<rparr>) log' net')" .
  moreover have "waiting st' (v\<lparr>timer_on := True, buf_info := ReadBufInfo_Reset\<rparr>)" using v(1) by simp
  moreover have "\<not> got_head (buf_info (v\<lparr>timer_on := True, buf_info := ReadBufInfo_Reset\<rparr>))" by (simp add: ReadBufInfo_Reset_def)
  ultimately show ?thesis by blast
qed

section \<open>The dialogue\<close>

lemma demo_db:
  "\<exists>log'. GetUsersInfoFromDB demo_env ''a'' i log = Some (True, i\<lparr>account := ''a'', password := ''p'', email := [],
      score := atoi ''100'', user_name := [], phone := []\<rparr>, log')"
  "\<exists>v log'. GetImageVersionInfoFromDB demo_env iv log = Some (True, v, log')"
  by (simp_all add: GetUsersInfoFromDB_def mysql_db_query_def query_rows_def demo_env_def users_row_def cell_req_def
      cell_opt_def cell_def c_str_def GetImageVersionInfoFromDB_def mysql_db_query_image_version_def version_row_def Let_def)

lemma demo_photo: "\<exists>b p log'. GetHeadImageFromDB demo_env True a d log = Some (b, p, log')"
proof -
  have "\<exists>r p log'. mysql_get_binary_data demo_env True sql d log = Some (r, p, log')" for sql
    by (subst mysql_get_binary_data.simps) (simp add: demo_env_def Let_def)
  then obtain r p log' where "mysql_get_binary_data demo_env True (snprintf 254
      (''SELECT head_photo FROM users_info WHERE account='' @ quoted a)) d log = Some (r, p, log')" by blast
  then have "GetHeadImageFromDB demo_env True a d log = Some (r = 0, p, log')"
    unfolding GetHeadImageFromDB_def by (simp only: bind.bind_lunit prod.case)
  then show ?thesis by blast
qed

lemma reply_stage:
  assumes "waiting st u"
  shows "\<exists>v net'. reply 0 ty d (stage u log net) = Some (stage v log net') \<and> waiting st v \<and> nextState v = nextState u"
  using assms by (auto simp: reply_def MessageReply_def the_thread_def OnWrite_def waiting_fields)

lemma parse_demo [simp]: "parse_LogOnorOut demo_env d = Some \<lparr>lo_account = ''a'', lo_password = ''p''\<rparr>"
  by (simp add: demo_env_def)

lemma run_HandleLogin:
  assumes "waiting st u" "account (user_info u) = []"
  shows "\<exists>v log' net'. HandleLogin demo_env 0 [] (stage u log net) = Some (True, stage v log' net') \<and> waiting st v"
proof -
  let ?i = "(user_info u)\<lparr>account := ''a'', password := ''p'', email := [], score := atoi ''100'', user_name := [], phone := []\<rparr>"
  obtain l1 where 1: "GetUsersInfoFromDB demo_env ''a'' (user_info u) log = Some (True, ?i, l1)" using demo_db(1) by blast
  obtain b2 p2 l2 where 2: "GetHeadImageFromDB demo_env True ''a'' (head_photo ?i) l1 = Some (b2, p2, l2)" using demo_photo by blast
  obtain v3 l3 where 3: "GetImageVersionInfoFromDB demo_env ImageVersions_init l2 = Some (True, v3, l3)" using demo_db(2) by blast
  let ?u = "u\<lparr>user_info := ?i\<lparr>head_photo := p2\<rparr>\<rparr>"
  obtain rep where "login_ok demo_env 0 True ?i (stage (u\<lparr>user_info := ?i\<rparr>) l1 net) = Some (rep, stage ?u l3 net)"
    using 2 3 by (simp add: login_ok_def lift_db3_def)
  moreover have "GetIndividualUser (new_thread\<lparr>fdSessionMap := [(10, 0)]\<rparr>) ''a'' (stage u log net) = Some True"
    using assms(2) by (simp add: GetIndividualUser_def)
  moreover obtain v net' where "reply 0 MSG_LOGIN_REPLY (ser_ReplyStatus demo_env rep) (stage ?u l3 net) = Some (stage v l3 net')"
    "waiting st v"
    using reply_stage [of st ?u] assms(1) by (metis waiting_frame(3))
  ultimately have "HandleLogin demo_env 0 [] (stage u log net) = Some (True, stage v l3 net')"
    using assms(1) 1 by (simp add: HandleLogin_def waiting_fields the_thread_def new_thread_def lift_db3_def)
  then show ?thesis using \<open>waiting st v\<close> by blast
qed

lemma run_login:
  assumes "waiting None u" "account (user_info u) = []"
  shows "\<exists>v log' net'. waiting (Some STATE_DOWN_AD) v \<and>
    UserSession_MessageHandle demo_env 0 (mt_code MSG_LOGIN) [] (stage u log net) = Some (True, stage v log' net')"
proof -
  have "waiting (Some STATE_AUTH) (start_machine u)" "account (user_info (start_machine u)) = []"
    using assms by (simp_all add: start_machine_def waiting_def)
  then obtain v log' net' where h: "HandleLogin demo_env 0 [] (stage (start_machine u) log net) = Some (True, stage v log' net')"
    and v: "waiting (Some STATE_AUTH) v" using run_HandleLogin by blast
  have "stateMachine (start_machine u) = Some STATE_AUTH" using assms by (simp add: start_machine_def waiting_def)
  then have "UserSession_MessageHandle demo_env 0 (mt_code MSG_LOGIN) [] (stage u log net) =
      Some (True, stage (do_transition (SetNextState STATE_DOWN_AD v)) log' net')"
    using h by (simp add: UserSession_MessageHandle_def State_MsgHandle_def StateAuth_MsgHandle_def)
  moreover have "waiting (Some STATE_DOWN_AD) (do_transition (SetNextState STATE_DOWN_AD v))"
    using v by (simp add: waiting_def do_transition_def SetNextState_def)
  ultimately show ?thesis by blast
qed

lemma run_ad:
  assumes "waiting (Some STATE_DOWN_AD) u"
  shows "\<exists>v log' net'. waiting (Some STATE_GAME_READY) v \<and>
    UserSession_MessageHandle demo_env 0 (mt_code MSG_AD_IMAGE_REQ) [] (stage u log net) = Some (True, stage v log' net')"
proof -
  have "UserSession_MessageHandle demo_env 0 (mt_code MSG_AD_IMAGE_REQ) [] (stage u log net) =
      Some (True, stage (do_transition (SetNextState STATE_GAME_READY u)) log net)"
    using assms by (simp add: UserSession_MessageHandle_def State_MsgHandle_def start_machine_def waiting_def
        StateAdPictureDownload_MsgHandle_def AdPictureItemHandle_def ad_request_def demo_env_def)
  moreover have "waiting (Some STATE_GAME_READY) (do_transition (SetNextState STATE_GAME_READY u))"
    using assms by (simp add: waiting_def do_transition_def SetNextState_def)
  ultimately show ?thesis by blast
qed

lemma stage_going:
  assumes "waiting (Some STATE_GAME_READY) u"
  shows "going demo_env {0} {} {0} (stage u log net)" "seat_inv {} (stage u log net)"
proof -
  have h: "halls_ok (stage u log net)"
    by (auto simp: halls_ok_def stage_def server_start_def CreateWorkTheads_def MainThread_new_def GameHall_new_def sm_ok_def
        hall_numbers_eq chessBoardMax_def split: if_splits)
  have b: "boards (stage u log net) = (\<lambda>_. None)"
    by (simp add: stage_def server_start_def CreateWorkTheads_def MainThread_new_def)
  show "going demo_env {0} {} {0} (stage u log net)"
    using assms h by (auto simp: going_def wired_def started_def b boards_ok_def sits_at_def usable_def the_thread_def
        all_sessions_def new_thread_def db_plain_def demo_env_def CR_SERVER_GONE_ERROR_def waiting_def)
  have "sess (stage u log net) s = Some v \<Longrightarrow> currChessBoard v = None" for s v
    using assms by (auto simp: stage_def waiting_def UserSession_new_def split: if_splits)
  then show "seat_inv {} (stage u log net)"
    using h by (auto simp: seat_inv_def b boards_ok_def sits_at_def has_place_def)
qed

lemma stage_empty: "boards (stage u log net) = (\<lambda>_. None)"
  by (simp add: stage_def server_start_def CreateWorkTheads_def MainThread_new_def)

lemma demo_request:
  "parse_RequestPlay demo_env bs = Some \<lparr>rp_game_hall_id = 1, rp_chess_board_id = 1, rp_locate = LOCATION_LEFT\<rparr>"
  by (simp add: demo_env_def)

lemma GameRequestHandle_accepts: "GameRequestHandle E s msg w = Some (x, w') \<Longrightarrow> x"
  by (auto simp: GameRequestHandle_def split: option.splits if_splits elim!: bind_SomeE)

lemma run_play:
  assumes "waiting (Some STATE_GAME_READY) u" "\<not> got_head (buf_info u)"
  shows "\<exists>w. ask MSG_REQUEST_PLAY (stage u log net) = Some w \<and> sits_at w (1, 1) LOCATION_LEFT 0"
proof -
  let ?f = "wire_frame (mt_code MSG_REQUEST_PLAY) []"
  let ?u = "GetBuffer (length ?f) (with_input [] (head_of ?f) u)"
  let ?w = "stage ?u log net"
  have u: "waiting (Some STATE_GAME_READY) ?u" using assms(1) by (simp add: with_input_def waiting_def)
  have rp: "parse_RequestPlay demo_env [] = Some \<lparr>rp_game_hall_id = 1, rp_chess_board_id = 1, rp_locate = LOCATION_LEFT\<rparr>"
    by (simp add: demo_env_def)
  have "ret (GameRequestHandle demo_env 0 [] ?w)"
    using request_returns [OF stage_going(1) [OF u] _ _ rp] by (simp add: hall_numbers_eq chessBoardMax_def)
  then obtain x w1 where r: "GameRequestHandle demo_env 0 [] ?w = Some (x, w1)" by (auto simp: ret_def)
  have x: "x = True" using GameRequestHandle_accepts [OF r] by simp
  have "joinable ?w (1, 1) LOCATION_LEFT"
    by (simp add: joinable_def stage_def server_start_def CreateWorkTheads_def MainThread_new_def)
  then have sit: "sits_at w1 (1, 1) LOCATION_LEFT 0" and us: "\<exists>v. sess w1 0 = Some v"
    using request_play [OF stage_going(2) [OF u] _ _ rp _ r] u
    by (auto simp: hall_numbers_eq users_def waiting_fields(7))
  obtain v0 where "shape w1 = put 0 v0 (shape ?w)"
    using request_tracked [OF stage_going(2) [OF u] _ _ r] u by (auto simp: waiting_fields(7) tracked_def)
  from arg_cong [OF this, of "\<lambda>x. fst (snd x)"] have th: "threadList w1 = threadList ?w" by simp
  obtain v where v: "sess w1 0 = Some v" using us by blast
  have "waiting (Some STATE_GAME_READY) (start_machine ?u)" "start_machine ?u = ?u"
    using u by (simp_all add: start_machine_def waiting_def)
  then have m: "UserSession_MessageHandle demo_env 0 (mt_code MSG_REQUEST_PLAY) [] ?w =
      Some (True, w1\<lparr>sess := (sess w1)(0 \<mapsto> do_transition v)\<rparr>)"
    using u r x v by (simp add: UserSession_MessageHandle_def State_MsgHandle_def StateGameReady_MsgHandle_def
        waiting_fields upd_sess_def)
  have a: "acceptable (mt_code MSG_REQUEST_PLAY) []"
    by (simp add: acceptable_def max_total_size_eq DATA_HEAD_LENGTH_def)
  have "ask MSG_REQUEST_PLAY (stage u log net) = handle_frame demo_env 0 0 (mt_code MSG_REQUEST_PLAY) [] u (stage u log net)"
    unfolding ask_def using assms by (intro receive_last [OF a refl, where a = "[]" and b = ?f]) (simp_all add: waiting_fields pending_def)
  also have "\<dots> = Some (w1\<lparr>sess := (sess w1)(0 \<mapsto> (do_transition v)\<lparr>timer_on := True, buf_info := ReadBufInfo_Reset\<rparr>)\<rparr>)"
    using m waiting_fields(1) [OF assms(1)] th
    by (simp add: handle_frame_def Let_def WorkThread_MessageHandle_def the_thread_def ResetTimer_def upd_sess_def)
  finally show ?thesis using sit by (simp add: sits_at_def)
qed

section \<open>The reachable states\<close>

lemma reach_ask:
  assumes "srv_reach demo_env (stage u log net)" "waiting st u" "ask ty (stage u log net) = Some w"
  shows "srv_reach demo_env w"
proof (rule srv_reach.step [OF assms(1)])
  show "srv_step demo_env (stage u log net) w"
    by (rule srv_step.read [where t = 0 and fd = 10 and s = 0 and u = u])
      (use assms(2,3) in \<open>simp_all add: connected_def waiting_def ask_def\<close>)
qed

lemma reach_online: "srv_reach demo_env (stage online [] [])"
proof (rule srv_reach.step [OF srv_reach.step [OF srv_reach.start]])
  show "srv_step demo_env server_start piped"
    by (rule srv_step.accept [OF _ run_accept])
      (simp add: open_fds_def server_start_def CreateWorkTheads_def MainThread_new_def new_thread_def)
  show "srv_step demo_env piped (stage online [] [])"
    by (rule srv_step.notify [OF _ run_notify]) (simp add: piped_def)
qed

lemma waiting_online: "waiting None online" "\<not> got_head (buf_info online)" "account (user_info online) = []"
  by (simp_all add: online_def waiting_def UserSession_new_def ReadBufInfo_Reset_def UsersInfo_Reset_def)

lemma reach_ad:
  "\<exists>u log net. srv_reach demo_env (stage u log net) \<and> waiting (Some STATE_DOWN_AD) u \<and> \<not> got_head (buf_info u)"
proof -
  obtain u l n where 1: "ask MSG_LOGIN (stage online [] []) = Some (stage u l n)"
    "waiting (Some STATE_DOWN_AD) u" "\<not> got_head (buf_info u)"
    using stage_ask [of None online "Some STATE_DOWN_AD" MSG_LOGIN "[]" "[]"] waiting_online run_login by metis
  have "srv_reach demo_env (stage u l n)" using reach_online waiting_online(1) 1(1) by (rule reach_ask)
  then show ?thesis using 1 by blast
qed

lemma reach_ready:
  "\<exists>u log net. srv_reach demo_env (stage u log net) \<and> waiting (Some STATE_GAME_READY) u \<and> \<not> got_head (buf_info u)"
proof -
  obtain u1 l1 n1 where 1: "srv_reach demo_env (stage u1 l1 n1)" "waiting (Some STATE_DOWN_AD) u1" "\<not> got_head (buf_info u1)"
    using reach_ad by blast
  obtain u2 l2 n2 where 2: "ask MSG_AD_IMAGE_REQ (stage u1 l1 n1) = Some (stage u2 l2 n2)"
    "waiting (Some STATE_GAME_READY) u2" "\<not> got_head (buf_info u2)"
    using stage_ask [OF 1(2,3), of "Some STATE_GAME_READY" MSG_AD_IMAGE_REQ l1 n1] run_ad by blast
  have "srv_reach demo_env (stage u2 l2 n2)" using 1(1,2) 2(1) by (rule reach_ask)
  then show ?thesis using 2 by blast
qed

lemma reach_seated: "\<exists>w. srv_reach demo_env w \<and> sits_at w (1, 1) LOCATION_LEFT 0"
  using reach_ready run_play reach_ask by meson

text \<open>One message that is accepted, and one that is not.\<close>

lemma stage_connected: "connected (stage u log net) t fd s \<longleftrightarrow> t = 0 \<and> fd = 10 \<and> s = 0"
  by (auto simp: connected_def sm_find.simps split: if_splits)

lemma reach_accepted:
  "\<exists>u log net w'. srv_reach demo_env (stage u log net) \<and> phase u = STATE_DOWN_AD \<and>
     WorkThread_MessageHandle demo_env 0 10 (mt_code MSG_AD_IMAGE_REQ) [] (stage u log net) = Some (True, w')"
proof -
  obtain u log net where u: "srv_reach demo_env (stage u log net)" "waiting (Some STATE_DOWN_AD) u"
    using reach_ad by blast
  obtain v log' net' where
    "UserSession_MessageHandle demo_env 0 (mt_code MSG_AD_IMAGE_REQ) [] (stage u log net) = Some (True, stage v log' net')"
    using run_ad [OF u(2)] by blast
  then have "WorkThread_MessageHandle demo_env 0 10 (mt_code MSG_AD_IMAGE_REQ) [] (stage u log net) =
      Some (True, stage (v\<lparr>timer_on := True\<rparr>) log' net')"
    by (simp add: WorkThread_MessageHandle_def the_thread_def ResetTimer_def)
  moreover have "phase u = STATE_DOWN_AD" using u(2) by (simp add: phase_def waiting_fields)
  ultimately show ?thesis using u(1) by blast
qed

lemma reach_refused: "\<exists>w'. WorkThread_MessageHandle demo_env 0 10 100 [] (stage online [] []) = Some (False, w')"
  by (simp add: WorkThread_MessageHandle_def the_thread_def UserSession_MessageHandle_def start_machine_def
      State_MsgHandle_def StateAuth_MsgHandle_def online_def UserSession_new_def ClosingClientCon_def upd_thread_def
      RecycleSession_def DestructResource_def leave_current_board_def Let_def connectionMaxStep_def upd_sess_def stage_def)

end
