(* ===== verification/Timer.thy ===== *)
theory Timer
  imports Srv_Prelude
begin

text \<open>
  The timer library of libtimer/libtimer.c: a queue of timers ordered by their deadlines and a
  list of expired ones, both doubly linked through \<open>malloc\<close>ed nodes, as the code has them. The
  heap is explicit (\<open>nodes\<close>); a null or dangling pointer that is followed, a mutex locked twice
  and a free mutex unlocked give \<open>None\<close>. Handlers and their arguments are of any types \<open>'h\<close>
  and \<open>'a\<close>. The sockets between \<open>timer_add\<close> and the server thread (unixsktapi.c) are a
  parameter: whether the request and the answer get through.
\<close>

section \<open>Times\<close>

text \<open>\<open>struct timeval\<close>; \<open>long\<close> values that overflow are undefined in C and not reached.\<close>

datatype timeval = Timeval (tv_sec: int) (tv_usec: int)

definition TV_LESS_THAN :: "timeval \<Rightarrow> timeval \<Rightarrow> bool" where
  "TV_LESS_THAN t1 t2 \<longleftrightarrow> tv_sec t1 < tv_sec t2 \<or> tv_sec t1 = tv_sec t2 \<and> tv_usec t1 < tv_usec t2"

definition MAX_USEC :: int where "MAX_USEC = 999999"
definition MICRO_PER_SEC :: int where "MICRO_PER_SEC = 1000000"
definition ALMOST_NOW :: int where "ALMOST_NOW = 1000"

definition TV_MINUS :: "timeval \<Rightarrow> timeval \<Rightarrow> timeval" where
  "TV_MINUS t1 t2 =
     (if tv_usec t1 \<ge> tv_usec t2 then Timeval (tv_sec t1 - tv_sec t2) (tv_usec t1 - tv_usec t2)
      else Timeval (tv_sec t1 - tv_sec t2 - 1) (tv_usec t1 + (MAX_USEC - tv_usec t2)))"

text \<open>Times are ordered by seconds, then microseconds.\<close>

instantiation timeval :: linorder
begin

definition less_timeval :: "timeval \<Rightarrow> timeval \<Rightarrow> bool" where
  "t1 < t2 \<longleftrightarrow> TV_LESS_THAN t1 t2"

definition less_eq_timeval :: "timeval \<Rightarrow> timeval \<Rightarrow> bool" where
  "(t1 :: timeval) \<le> t2 \<longleftrightarrow> \<not> TV_LESS_THAN t2 t1"

instance
  by standard (auto simp: less_timeval_def less_eq_timeval_def TV_LESS_THAN_def timeval.expand)

end

text \<open>\<open>my_clock_gettime\<close>: \<open>clk\<close> lists what the next calls of \<open>clock_gettime\<close> return (\<open>None\<close>: an
  error), \<open>up\<close> is the uptime (\<open>None\<close>: \<open>sysinfo\<close> fails). After four failures in a row the static flag
  is set and the uptime is used for good. The result is in seconds and nanoseconds.\<close>

definition get_uptime :: "int option \<Rightarrow> int" where
  "get_uptime up = (case up of None \<Rightarrow> 0 | Some s \<Rightarrow> s)"

fun clock_tries :: "nat \<Rightarrow> (int \<times> int) option list \<Rightarrow> (int \<times> int) option" where
  "clock_tries 0 clk = None"
| "clock_tries (Suc n) [] = None"
| "clock_tries (Suc n) (Some ts # clk) = Some ts"
| "clock_tries (Suc n) (None # clk) = clock_tries n clk"

definition my_clock_gettime :: "(int \<times> int) option list \<Rightarrow> int option \<Rightarrow> bool \<Rightarrow> (int \<times> int) \<times> bool" where
  "my_clock_gettime clk up failed =
     (case (if failed then None else clock_tries 4 clk) of
        Some ts \<Rightarrow> (ts, False)
      | None \<Rightarrow> ((get_uptime up, 0), True))"

definition my_gettimeofday :: "(int \<times> int) option list \<Rightarrow> int option \<Rightarrow> bool \<Rightarrow> timeval \<times> bool" where
  "my_gettimeofday clk up failed =
     (let (ts, failed) = my_clock_gettime clk up failed in (Timeval (fst ts) (snd ts div 1000), failed))"

section \<open>Nodes and state\<close>

datatype e_action_type = e_ACTION_TYPY_ADD | e_ACTION_TYPY_DEL | e_ACTION_TYPY_DEL_ALL
  | e_ACTION_TYPY_DESTRORY | e_ACTION_TYPY_MAX

record ('h, 'a) tl_timer =
  action :: e_action_type
  timeout :: timeval
  handler :: "'h option"
  handler_arg :: "'a option"
  id_of :: u32
  next_of :: "nat option"
  prev_of :: "nat option"

record ('h, 'a) timerlib =
  nodes :: "nat \<Rightarrow> ('h, 'a) tl_timer option"
  fresh :: nat
  q_first :: "nat option"
  q_last :: "nat option"
  q_locked :: bool
  cur_id :: u32
  p_first :: "nat option"
  p_last :: "nat option"
  p_locked :: bool
  timeout_thread_is_on :: bool
  freed_args :: "('h \<times> 'a option) list"
  destroyed :: bool

text \<open>\<open>memset(&req_info, 0, sizeof(tl_timer_t))\<close>; a node fresh from \<open>malloc\<close> is this one too (the
  fields the code does not set are not read).\<close>

definition zero_timer :: "('h, 'a) tl_timer" where
  "zero_timer = \<lparr>action = e_ACTION_TYPY_ADD, timeout = Timeval 0 0, handler = None, handler_arg = None,
     id_of = 0, next_of = None, prev_of = None\<rparr>"

definition timer_init :: "('h, 'a) timerlib" where
  "timer_init = \<lparr>nodes = (\<lambda>_. None), fresh = 0, q_first = None, q_last = None, q_locked = False, cur_id = 0,
     p_first = None, p_last = None, p_locked = False, timeout_thread_is_on = False, freed_args = [], destroyed = False\<rparr>"

definition upd_node ::
  "nat \<Rightarrow> (('h, 'a) tl_timer \<Rightarrow> ('h, 'a) tl_timer) \<Rightarrow> ('h, 'a) timerlib \<Rightarrow> ('h, 'a) timerlib option" where
  "upd_node a f st = (case nodes st a of None \<Rightarrow> None | Some t \<Rightarrow> Some (st\<lparr>nodes := (nodes st)(a \<mapsto> f t)\<rparr>))"

definition malloc_node :: "('h, 'a) tl_timer \<Rightarrow> ('h, 'a) timerlib \<Rightarrow> nat \<times> ('h, 'a) timerlib" where
  "malloc_node t st = (fresh st, st\<lparr>nodes := (nodes st)(fresh st \<mapsto> t), fresh := fresh st + 1\<rparr>)"

definition timer_free :: "nat \<Rightarrow> ('h, 'a) timerlib \<Rightarrow> ('h, 'a) timerlib" where
  "timer_free a st = st\<lparr>nodes := (nodes st)(a := None)\<rparr>"

definition lock_q :: "('h, 'a) timerlib \<Rightarrow> ('h, 'a) timerlib option" where
  "lock_q st = (if q_locked st then None else Some (st\<lparr>q_locked := True\<rparr>))"

definition unlock_q :: "('h, 'a) timerlib \<Rightarrow> ('h, 'a) timerlib option" where
  "unlock_q st = (if q_locked st then Some (st\<lparr>q_locked := False\<rparr>) else None)"

definition lock_p :: "('h, 'a) timerlib \<Rightarrow> ('h, 'a) timerlib option" where
  "lock_p st = (if p_locked st then None else Some (st\<lparr>p_locked := True\<rparr>))"

definition unlock_p :: "('h, 'a) timerlib \<Rightarrow> ('h, 'a) timerlib option" where
  "unlock_p st = (if p_locked st then Some (st\<lparr>p_locked := False\<rparr>) else None)"

section \<open>The queue\<close>

definition timer_dequeue :: "nat \<Rightarrow> ('h, 'a) timerlib \<Rightarrow> ('h, 'a) timerlib option" where
  "timer_dequeue t st = do {
     n \<leftarrow> nodes st t;
     st \<leftarrow> (case prev_of n of
              None \<Rightarrow> Some (st\<lparr>q_first := next_of n\<rparr>)
            | Some p \<Rightarrow> upd_node p (\<lambda>x. x\<lparr>next_of := next_of n\<rparr>) st);
     n \<leftarrow> nodes st t;
     st \<leftarrow> (case next_of n of
              None \<Rightarrow> Some (st\<lparr>q_last := prev_of n\<rparr>)
            | Some x \<Rightarrow> upd_node x (\<lambda>y. y\<lparr>prev_of := prev_of n\<rparr>) st);
     Some (timer_free t st) }"

text \<open>The loop over the queue for the first timer that expires later.\<close>

partial_function (option) find_later ::
  "('h, 'a) timerlib \<Rightarrow> timeval \<Rightarrow> nat option \<Rightarrow> nat option option" where
  "find_later st time tmp =
     (case tmp of None \<Rightarrow> Some None
      | Some a \<Rightarrow> do {
          t \<leftarrow> nodes st a;
          if TV_LESS_THAN time (timeout t) then Some (Some a) else find_later st time (next_of t) })"

text \<open>Linking the new node \<open>app\<close> into the queue.\<close>

definition link_node :: "nat \<Rightarrow> ('h, 'a) timerlib \<Rightarrow> ('h, 'a) timerlib option" where
  "link_node app st =
     (case q_first st of
        None \<Rightarrow> upd_node app (\<lambda>x. x\<lparr>prev_of := None, next_of := None\<rparr>) (st\<lparr>q_first := Some app, q_last := Some app\<rparr>)
      | Some first \<Rightarrow> do {
          n \<leftarrow> nodes st app;
          tmp \<leftarrow> find_later st (timeout n) (Some first);
          case tmp of
            None \<Rightarrow> do {
              st \<leftarrow> upd_node app (\<lambda>x. x\<lparr>prev_of := q_last st, next_of := None\<rparr>) st;
              last \<leftarrow> q_last st;
              st \<leftarrow> upd_node last (\<lambda>x. x\<lparr>next_of := Some app\<rparr>) st;
              Some (st\<lparr>q_last := Some app\<rparr>) }
          | Some t \<Rightarrow> do {
              tn \<leftarrow> nodes st t;
              case prev_of tn of
                None \<Rightarrow> do {
                  st \<leftarrow> upd_node app (\<lambda>x. x\<lparr>prev_of := None, next_of := Some t\<rparr>) st;
                  st \<leftarrow> upd_node t (\<lambda>x. x\<lparr>prev_of := Some app\<rparr>) st;
                  Some (st\<lparr>q_first := Some app\<rparr>) }
              | Some p \<Rightarrow> do {
                  st \<leftarrow> upd_node app (\<lambda>x. x\<lparr>prev_of := Some p, next_of := Some t\<rparr>) st;
                  st \<leftarrow> upd_node p (\<lambda>x. x\<lparr>next_of := Some app\<rparr>) st;
                  upd_node t (\<lambda>x. x\<lparr>prev_of := Some app\<rparr>) st } } })"

text \<open>From a relative to an absolute time.\<close>

definition abs_time :: "timeval \<Rightarrow> timeval \<Rightarrow> timeval" where
  "abs_time now d = Timeval (tv_sec now + (tv_sec d + (tv_usec now + tv_usec d) div MICRO_PER_SEC))
     ((tv_usec now + tv_usec d) mod MICRO_PER_SEC)"

definition in_past :: "timeval \<Rightarrow> bool" where
  "in_past d \<longleftrightarrow> tv_sec d < 0 \<or> tv_usec d < 0 \<or> tv_sec d = 0 \<and> tv_usec d = 0"

definition next_id :: "('h, 'a) timerlib \<Rightarrow> u32 \<times> ('h, 'a) timerlib" where
  "next_id st = (if cur_id st = -1 then (cur_id st + 1, st\<lparr>cur_id := cur_id st + 2\<rparr>)
     else (cur_id st, st\<lparr>cur_id := cur_id st + 1\<rparr>))"

text \<open>\<open>mem\<close> says whether \<open>malloc\<close> succeeds. The two error branches jump to the unlocking of a mutex
  that is not locked.\<close>

definition add_timernode_to_list :: "bool \<Rightarrow> timeval \<Rightarrow> ('h, 'a) tl_timer \<Rightarrow> ('h, 'a) timerlib \<Rightarrow>
    (int \<times> ('h, 'a) tl_timer \<times> ('h, 'a) timerlib) option" where
  "add_timernode_to_list mem now msg st =
     (if in_past (timeout msg) \<or> \<not> mem then do {
        st \<leftarrow> unlock_q st;
        Some (-1, msg\<lparr>id_of := -1\<rparr>, st) }
      else do {
        let (app, st) = malloc_node (zero_timer\<lparr>timeout := abs_time now (timeout msg), handler := handler msg,
           handler_arg := handler_arg msg\<rparr>) st;
        st \<leftarrow> lock_q st;
        let (i, st) = next_id st;
        st \<leftarrow> upd_node app (\<lambda>x. x\<lparr>id_of := i\<rparr>) st;
        st \<leftarrow> link_node app st;
        st \<leftarrow> unlock_q st;
        Some (0, msg\<lparr>id_of := i\<rparr>, st) })"

partial_function (option) find_id :: "('h, 'a) timerlib \<Rightarrow> u32 \<Rightarrow> nat option \<Rightarrow> nat option option" where
  "find_id st i t =
     (case t of None \<Rightarrow> Some None
      | Some a \<Rightarrow> do {
          n \<leftarrow> nodes st a;
          if id_of n = i then Some (Some a) else find_id st i (next_of n) })"

text \<open>The function that frees the argument is called with the argument of the timer; the calls are
  recorded in \<open>freed_args\<close>.\<close>

definition del_timernode_from_list :: "('h, 'a) tl_timer \<Rightarrow> ('h, 'a) timerlib \<Rightarrow> (int \<times> ('h, 'a) timerlib) option" where
  "del_timernode_from_list msg st =
     (if id_of msg = -1 then Some (-1, st)
      else do {
        st \<leftarrow> lock_q st;
        t \<leftarrow> find_id st (id_of msg) (q_first st);
        case t of
          None \<Rightarrow> do { st \<leftarrow> unlock_q st; Some (-1, st) }
        | Some a \<Rightarrow> do {
            n \<leftarrow> nodes st a;
            st \<leftarrow> (case handler msg of
                     None \<Rightarrow> Some st
                   | Some h \<Rightarrow> upd_node a (\<lambda>x. x\<lparr>handler_arg := None\<rparr>)
                        (st\<lparr>freed_args := freed_args st @ [(h, handler_arg n)]\<rparr>));
            st \<leftarrow> timer_dequeue a st;
            st \<leftarrow> unlock_q st;
            Some (0, st) } })"

partial_function (option) dequeue_all :: "('h, 'a) timerlib \<Rightarrow> ('h, 'a) timerlib option" where
  "dequeue_all st =
     (case q_last st of None \<Rightarrow> Some st
      | Some t \<Rightarrow> Option.bind (timer_dequeue t st) dequeue_all)"

definition del_all_timer :: "bool \<Rightarrow> ('h, 'a) timerlib \<Rightarrow> (int \<times> ('h, 'a) timerlib) option" where
  "del_all_timer need_destrory st = do {
     st \<leftarrow> lock_q st;
     st \<leftarrow> dequeue_all st;
     st \<leftarrow> unlock_q st;
     Some (0, if need_destrory then st\<lparr>destroyed := True\<rparr> else st) }"

definition handle_msg :: "bool \<Rightarrow> timeval \<Rightarrow> ('h, 'a) tl_timer \<Rightarrow> ('h, 'a) timerlib \<Rightarrow>
    (int \<times> ('h, 'a) tl_timer \<times> ('h, 'a) timerlib) option" where
  "handle_msg mem now msg st =
     (case action msg of
        e_ACTION_TYPY_ADD \<Rightarrow> add_timernode_to_list mem now msg st
      | e_ACTION_TYPY_DEL \<Rightarrow> do { (r, st) \<leftarrow> del_timernode_from_list msg st; Some (r, msg, st) }
      | e_ACTION_TYPY_DESTRORY \<Rightarrow> do { (r, st) \<leftarrow> del_all_timer True st; Some (r, msg, st) }
      | e_ACTION_TYPY_DEL_ALL \<Rightarrow> do { (r, st) \<leftarrow> del_all_timer False st; Some (r, msg, st) }
      | e_ACTION_TYPY_MAX \<Rightarrow> Some (0, msg, st))"

section \<open>Expired timers\<close>

definition add_timeout_list :: "bool \<Rightarrow> 'h option \<Rightarrow> 'a option \<Rightarrow> ('h, 'a) timerlib \<Rightarrow> (int \<times> ('h, 'a) timerlib) option" where
  "add_timeout_list mem hdl hdl_arg st =
     (if hdl = None then Some (-1, st)
      else do {
        st \<leftarrow> lock_p st;
        if \<not> mem then do { st \<leftarrow> unlock_p st; Some (-1, st) }
        else case p_first st of
          None \<Rightarrow> do {
            let (a, st) = malloc_node (zero_timer\<lparr>handler := hdl, handler_arg := hdl_arg, next_of := None, prev_of := None\<rparr>) st;
            st \<leftarrow> unlock_p (st\<lparr>p_first := Some a, p_last := Some a\<rparr>);
            Some (0, st) }
        | Some f \<Rightarrow> do {
            let (a, st) = malloc_node (zero_timer\<lparr>handler := hdl, handler_arg := hdl_arg, next_of := Some f, prev_of := None\<rparr>) st;
            st \<leftarrow> upd_node f (\<lambda>x. x\<lparr>prev_of := Some a\<rparr>) st;
            st \<leftarrow> unlock_p (st\<lparr>p_first := Some a\<rparr>);
            Some (0, st) } })"

partial_function (option) count_nodes :: "('h, 'a) timerlib \<Rightarrow> int \<Rightarrow> nat option \<Rightarrow> int option" where
  "count_nodes st count ptr =
     (case ptr of None \<Rightarrow> Some count
      | Some a \<Rightarrow> do { n \<leftarrow> nodes st a; count_nodes st (count + 1) (next_of n) })"

definition get_pending_list_count :: "('h, 'a) timerlib \<Rightarrow> (int \<times> ('h, 'a) timerlib) option" where
  "get_pending_list_count st = do {
     st \<leftarrow> lock_p st;
     count \<leftarrow> count_nodes st 0 (p_first st);
     st \<leftarrow> unlock_p st;
     Some (count, st) }"

definition get_pending_list :: "('h, 'a) timerlib \<Rightarrow> (nat option \<times> ('h, 'a) timerlib) option" where
  "get_pending_list st = do {
     st \<leftarrow> lock_p st;
     st' \<leftarrow> (case p_last st of
              None \<Rightarrow> Some st
            | Some l \<Rightarrow> do {
                n \<leftarrow> nodes st l;
                case prev_of n of
                  None \<Rightarrow> Some (st\<lparr>p_last := None, p_first := None\<rparr>)
                | Some p \<Rightarrow> upd_node p (\<lambda>x. x\<lparr>next_of := None\<rparr>) (st\<lparr>p_last := Some p\<rparr>) });
     st' \<leftarrow> unlock_p st';
     Some (p_last st, st') }"

text \<open>\<open>timer_execute\<close> moves the first timer of the queue to the expired ones and sees to the thread
  that runs them; the last component says what it did about that thread.\<close>

datatype wake = No_wake | Thread_created | Thread_failed | Signalled

definition wake_thread :: "bool \<Rightarrow> ('h, 'a) timerlib \<Rightarrow> (wake \<times> ('h, 'a) timerlib) option" where
  "wake_thread created st = do {
     st \<leftarrow> lock_p st;
     if \<not> timeout_thread_is_on st then do {
       st \<leftarrow> unlock_p (st\<lparr>timeout_thread_is_on := True\<rparr>);
       if created then Some (Thread_created, st)
       else do {
         st \<leftarrow> lock_p st;
         st \<leftarrow> unlock_p (st\<lparr>timeout_thread_is_on := False\<rparr>);
         Some (Thread_failed, st) } }
     else do { st \<leftarrow> unlock_p st; Some (Signalled, st) } }"

definition timer_execute :: "bool \<Rightarrow> bool \<Rightarrow> ('h, 'a) timerlib \<Rightarrow> (wake \<times> ('h, 'a) timerlib) option" where
  "timer_execute mem created st =
     (case q_first st of
        None \<Rightarrow> Some (No_wake, st)
      | Some f \<Rightarrow> do {
          n \<leftarrow> nodes st f;
          st \<leftarrow> lock_q st;
          st \<leftarrow> timer_dequeue f st;
          st \<leftarrow> unlock_q st;
          if handler n = None then Some (No_wake, st)
          else do {
            (ret, st) \<leftarrow> add_timeout_list mem (handler n) (handler_arg n) st;
            if ret \<noteq> 0 then Some (No_wake, st) else wake_thread created st } })"

text \<open>The result is \<open>None\<close> (inner) where the code returns -1.\<close>

definition get_rest_time :: "timeval \<Rightarrow> ('h, 'a) timerlib \<Rightarrow> timeval option option" where
  "get_rest_time abs_now st =
     (case q_first st of None \<Rightarrow> Some None
      | Some f \<Rightarrow> do {
          n \<leftarrow> nodes st f;
          Some (Some (if TV_LESS_THAN abs_now (timeout n) then TV_MINUS (timeout n) abs_now else Timeval 0 ALMOST_NOW)) })"

definition get_waite_interval :: "timeval \<Rightarrow> ('h, 'a) timerlib \<Rightarrow> (int \<times> ('h, 'a) timerlib) option" where
  "get_waite_interval time st = do {
     st \<leftarrow> lock_q st;
     interval \<leftarrow> (case q_last st of
         None \<Rightarrow> Some 0
       | Some l \<Rightarrow> do {
           n \<leftarrow> nodes st l;
           let timeintval = (if TV_LESS_THAN time (timeout n) then TV_MINUS (timeout n) time else Timeval 0 0);
           let interval = sint (word_of_int (tv_sec timeintval) :: u32);
           let interval = (if interval > 60 * 10 then 600 else interval);
           Some (if interval < 0 then 0 else interval) });
     st \<leftarrow> unlock_q st;
     Some (interval, st) }"

section \<open>The server thread and its clients\<close>

text \<open>One turn of \<open>timer_server_task\<close>: \<open>accept\<close> timed out, failed, or brought a request.\<close>

datatype ('h, 'a) arrival = Accept_timeout | Accept_failed | Receive_failed | Request "('h, 'a) tl_timer"

definition handle_proc_req ::
  "bool \<Rightarrow> timeval \<Rightarrow> ('h, 'a) tl_timer option \<Rightarrow> ('h, 'a) timerlib \<Rightarrow> (('h, 'a) tl_timer option \<times> ('h, 'a) timerlib) option" where
  "handle_proc_req mem now received st =
     (case received of None \<Rightarrow> Some (None, st)
      | Some msg \<Rightarrow> do { (_, msg, st) \<leftarrow> handle_msg mem now msg st; Some (Some msg, st) })"

definition timer_server_turn :: "bool \<Rightarrow> bool \<Rightarrow> timeval \<Rightarrow> ('h, 'a) arrival \<Rightarrow> ('h, 'a) timerlib \<Rightarrow>
    (timeval option \<times> ('h, 'a) timerlib) option" where
  "timer_server_turn mem created now arr st = do {
     st \<leftarrow> (case arr of
              Accept_timeout \<Rightarrow> map_option snd (timer_execute mem created st)
            | Accept_failed \<Rightarrow> Some st
            | Receive_failed \<Rightarrow> map_option snd (handle_proc_req mem now None st)
            | Request msg \<Rightarrow> map_option snd (handle_proc_req mem now (Some msg) st));
     rest \<leftarrow> get_rest_time now st;
     Some (rest, st) }"

text \<open>What the sockets do with a request.\<close>

datatype link = Not_sent | Answer_lost | Answered

definition send_recv_msg :: "link \<Rightarrow> bool \<Rightarrow> timeval \<Rightarrow> ('h, 'a) tl_timer \<Rightarrow> bool \<Rightarrow> ('h, 'a) timerlib \<Rightarrow>
    (int \<times> ('h, 'a) tl_timer \<times> ('h, 'a) timerlib) option" where
  "send_recv_msg lk mem now req_info need_recv st =
     (if lk = Not_sent then Some (-1, req_info, st)
      else do {
        (answer, st) \<leftarrow> handle_proc_req mem now (Some req_info) st;
        if need_recv then
          (case answer of
             Some msg \<Rightarrow> if lk = Answered then Some (0, msg, st) else Some (-1, zero_timer, st)
           | None \<Rightarrow> Some (-1, zero_timer, st))
        else Some (0, req_info, st) })"

definition timer_add :: "link \<Rightarrow> bool \<Rightarrow> timeval \<Rightarrow> int \<Rightarrow> int \<Rightarrow> 'h option \<Rightarrow> 'a option \<Rightarrow> ('h, 'a) timerlib \<Rightarrow>
    (int \<times> ('h, 'a) timerlib) option" where
  "timer_add lk mem now sec usec hndlr hndlr_arg st =
     (if hndlr = None then Some (-1, st)
      else if sec < 0 \<or> usec < 0 \<or> sec = 0 \<and> usec = 0 then Some (-1, st)
      else do {
        (ret, req_info, st) \<leftarrow> send_recv_msg lk mem now (zero_timer\<lparr>action := e_ACTION_TYPY_ADD, handler := hndlr,
            handler_arg := hndlr_arg, timeout := Timeval sec usec\<rparr>) True st;
        if ret \<noteq> 0 then Some (-1, st) else Some (sint (id_of req_info), st) })"

definition timer_rem :: "link \<Rightarrow> bool \<Rightarrow> timeval \<Rightarrow> u32 \<Rightarrow> 'h option \<Rightarrow> ('h, 'a) timerlib \<Rightarrow> ('h, 'a) timerlib option" where
  "timer_rem lk mem now i free_arg st =
     (if sint i < 0 then Some st
      else do {
        (ret, _, st) \<leftarrow> send_recv_msg lk mem now (zero_timer\<lparr>action := e_ACTION_TYPY_DEL, id_of := i, handler := free_arg\<rparr>) True st;
        Some st })"

definition timer_destroy :: "link \<Rightarrow> bool \<Rightarrow> timeval \<Rightarrow> ('h, 'a) timerlib \<Rightarrow> ('h, 'a) timerlib option" where
  "timer_destroy lk mem now st = do {
     (ret, _, st) \<leftarrow> send_recv_msg lk mem now (zero_timer\<lparr>action := e_ACTION_TYPY_DESTRORY\<rparr>) False st;
     Some st }"

definition timer_clear :: "link \<Rightarrow> bool \<Rightarrow> timeval \<Rightarrow> ('h, 'a) timerlib \<Rightarrow> ('h, 'a) timerlib option" where
  "timer_clear lk mem now st = do {
     (ret, _, st) \<leftarrow> send_recv_msg lk mem now (zero_timer\<lparr>action := e_ACTION_TYPY_DEL_ALL\<rparr>) True st;
     Some st }"

text \<open>The body of the loop of \<open>time_out_task\<close> that runs a handler: the call itself is the result.\<close>

definition run_pending :: "('h, 'a) timerlib \<Rightarrow> (('h \<times> 'a option) option \<times> ('h, 'a) timerlib) option" where
  "run_pending st = do {
     (first_arg, st) \<leftarrow> get_pending_list st;
     case first_arg of
       None \<Rightarrow> Some (None, st)
     | Some a \<Rightarrow> do {
         n \<leftarrow> nodes st a;
         case handler n of
           None \<Rightarrow> Some (None, st)
         | Some h \<Rightarrow> Some (Some (h, handler_arg n), timer_free a st) } }"

text \<open>The wait of an idle \<open>time_out_task\<close> that was not woken in time: the thread ends.\<close>

definition wait_timed_out :: "('h, 'a) timerlib \<Rightarrow> ('h, 'a) timerlib option" where
  "wait_timed_out st = do {
     st \<leftarrow> lock_p st;
     unlock_p (st\<lparr>timeout_thread_is_on := False\<rparr>) }"

end
