(* ===== verification/Timer_Queue.thy ===== *)
theory Timer_Queue
  imports Timer
begin

text \<open>
  The linked lists of the timer library hold sequences: \<open>dll h f l as\<close> says that the nodes \<open>as\<close>
  are linked in this order, from \<open>f\<close> to \<open>l\<close>, in the heap \<open>h\<close>. The operations on the queue are
  refined to operations on the list of the nodes' contents, and the contract of a queue ordered
  by deadlines is proved for them.
\<close>

section \<open>Doubly linked lists\<close>

definition first_or :: "'x option \<Rightarrow> 'x list \<Rightarrow> 'x option" where
  "first_or e xs = (case xs of [] \<Rightarrow> e | x # _ \<Rightarrow> Some x)"

definition last_or :: "'x option \<Rightarrow> 'x list \<Rightarrow> 'x option" where
  "last_or p xs = (if xs = [] then p else Some (last xs))"

lemma first_or_simps [simp]: "first_or e [] = e" "first_or e (x # xs) = Some x"
  by (simp_all add: first_or_def)

lemma last_or_simps [simp]:
  "last_or p [] = p" "last_or p (x # xs) = last_or (Some x) xs" "last_or p (xs @ [x]) = Some x"
  by (simp_all add: last_or_def)

lemma first_or_append: "first_or e (xs @ ys) = first_or (first_or e ys) xs"
  by (cases xs) simp_all

lemma last_or_append: "last_or p (xs @ ys) = last_or (last_or p xs) ys"
  by (simp add: last_or_def)

type_synonym ('h, 'a) heap = "nat \<Rightarrow> ('h, 'a) tl_timer option"

fun chain :: "('h, 'a) heap \<Rightarrow> nat option \<Rightarrow> nat list \<Rightarrow> nat option \<Rightarrow> bool" where
  "chain h p [] e = True"
| "chain h p (a # as) e =
     ((\<exists>n. h a = Some n \<and> prev_of n = p \<and> next_of n = first_or e as) \<and> chain h (Some a) as e)"

lemma chain_append:
  "chain h p (as @ bs) e \<longleftrightarrow> chain h p as (first_or e bs) \<and> chain h (last_or p as) bs e"
  by (induction as arbitrary: p) (auto simp: first_or_append)

lemma chain_cong: "(\<And>a. a \<in> set as \<Longrightarrow> h' a = h a) \<Longrightarrow> chain h' p as e = chain h p as e"
  by (induction as arbitrary: p) auto

lemma chain_lookup: "chain h p as e \<Longrightarrow> a \<in> set as \<Longrightarrow> \<exists>n. h a = Some n"
  by (induction as arbitrary: p) auto

text \<open>Redirecting the last node's successor and the first node's predecessor.\<close>

definition set_next :: "nat option \<Rightarrow> nat option \<Rightarrow> ('h, 'a) heap \<Rightarrow> ('h, 'a) heap" where
  "set_next p x h = (case p of None \<Rightarrow> h | Some a \<Rightarrow> h(a := map_option (\<lambda>n. n\<lparr>next_of := x\<rparr>) (h a)))"

definition set_prev :: "nat option \<Rightarrow> nat option \<Rightarrow> ('h, 'a) heap \<Rightarrow> ('h, 'a) heap" where
  "set_prev p x h = (case p of None \<Rightarrow> h | Some a \<Rightarrow> h(a := map_option (\<lambda>n. n\<lparr>prev_of := x\<rparr>) (h a)))"

lemma set_links_None [simp]: "set_next None x h = h" "set_prev None x h = h"
  by (simp_all add: set_next_def set_prev_def)

lemma last_or_mem: "last_or None as = Some a \<Longrightarrow> a \<in> set as"
  by (auto simp: last_or_def split: if_splits)

lemma first_or_mem: "first_or None as = Some a \<Longrightarrow> a \<in> set as"
  by (cases as) auto

lemma set_next_outside [simp]: "a \<notin> set as \<Longrightarrow> set_next (last_or None as) x h a = h a"
  by (auto simp: set_next_def dest: last_or_mem split: option.split)

lemma set_prev_outside [simp]: "a \<notin> set as \<Longrightarrow> set_prev (first_or None as) x h a = h a"
  by (auto simp: set_prev_def dest: first_or_mem split: option.split)

lemma chain_set_next:
  assumes "chain h p as e" "distinct as"
  shows "chain (set_next (last_or None as) e' h) p as e'"
proof (cases as rule: rev_cases)
  case (snoc as' a)
  have "chain (set_next (Some a) e' h) p as' (Some a) = chain h p as' (Some a)"
    by (rule chain_cong) (use assms(2) snoc in \<open>auto simp: set_next_def\<close>)
  then show ?thesis using assms(1) snoc by (auto simp: chain_append set_next_def)
qed simp

lemma chain_set_prev:
  assumes "chain h p as e" "distinct as"
  shows "chain (set_prev (first_or None as) p' h) p' as e"
proof (cases as)
  case (Cons a as')
  have "chain (set_prev (Some a) p' h) (Some a) as' e = chain h (Some a) as' e"
    by (rule chain_cong) (use assms(2) Cons in \<open>auto simp: set_prev_def\<close>)
  then show ?thesis using assms(1) Cons by (auto simp: set_prev_def)
qed simp

definition dll :: "('h, 'a) heap \<Rightarrow> nat option \<Rightarrow> nat option \<Rightarrow> nat list \<Rightarrow> bool" where
  "dll h f l as \<longleftrightarrow> chain h None as None \<and> distinct as \<and> f = first_or None as \<and> l = last_or None as"

lemma dll_cong: "(\<And>a. a \<in> set as \<Longrightarrow> h' a = h a) \<Longrightarrow> dll h' f l as = dll h f l as"
  unfolding dll_def by (subst chain_cong [of as h' h]) simp_all

text \<open>What a node holds, apart from its links.\<close>

type_synonym ('h, 'a) entry = "timeval \<times> u32 \<times> 'h option \<times> 'a option"

definition entry :: "('h, 'a) tl_timer \<Rightarrow> ('h, 'a) entry" where
  "entry n = (timeout n, id_of n, handler n, handler_arg n)"

abbreviation deadline :: "('h, 'a) entry \<Rightarrow> timeval" where "deadline \<equiv> fst"
abbreviation timer_id :: "('h, 'a) entry \<Rightarrow> u32" where "timer_id e \<equiv> fst (snd e)"
abbreviation call_of :: "('h, 'a) entry \<Rightarrow> 'h option \<times> 'a option" where "call_of e \<equiv> snd (snd e)"

lemma entry_links [simp]: "entry (n\<lparr>next_of := x\<rparr>) = entry n" "entry (n\<lparr>prev_of := y\<rparr>) = entry n"
  by (simp_all add: entry_def)

definition entries :: "('h, 'a) heap \<Rightarrow> nat list \<Rightarrow> ('h, 'a) entry list" where
  "entries h as = map (\<lambda>a. entry (the (h a))) as"

lemma entries_simps [simp]:
  "entries h [] = []" "entries h (a # as) = entry (the (h a)) # entries h as"
  "entries h (as @ bs) = entries h as @ entries h bs" "length (entries h as) = length as"
  by (simp_all add: entries_def)

lemma entries_cong:
  assumes "\<And>a. a \<in> set as \<Longrightarrow> map_option entry (h' a) = map_option entry (h a)" "\<And>a. a \<in> set as \<Longrightarrow> h a \<noteq> None"
  shows "entries h' as = entries h as"
  unfolding entries_def
proof (rule map_cong [OF refl])
  fix a assume "a \<in> set as"
  from assms(1) [OF this] assms(2) [OF this] show "entry (the (h' a)) = entry (the (h a))"
    by (cases "h a"; cases "h' a") simp_all
qed

lemma entry_set_links [simp]:
  "map_option entry (set_next p x h a) = map_option entry (h a)"
  "map_option entry (set_prev p x h a) = map_option entry (h a)"
  by (auto simp: set_next_def set_prev_def option.map_comp comp_def split: option.split)

lemma set_links_None_iff [simp]:
  "(set_next p x h a = None) = (h a = None)" "(set_prev p x h a = None) = (h a = None)"
  by (auto simp: set_next_def set_prev_def split: option.split)

section \<open>Taking a node out\<close>

lemma upd_links:
  "nodes st a \<noteq> None \<Longrightarrow> upd_node a (\<lambda>n. n\<lparr>next_of := x\<rparr>) st = Some (st\<lparr>nodes := set_next (Some a) x (nodes st)\<rparr>)"
  "nodes st a \<noteq> None \<Longrightarrow> upd_node a (\<lambda>n. n\<lparr>prev_of := x\<rparr>) st = Some (st\<lparr>nodes := set_prev (Some a) x (nodes st)\<rparr>)"
  by (auto simp: upd_node_def set_next_def set_prev_def)

definition unlinked :: "('h, 'a) heap \<Rightarrow> nat list \<Rightarrow> nat \<Rightarrow> nat list \<Rightarrow> ('h, 'a) heap" where
  "unlinked h as t bs = (set_prev (first_or None bs) (last_or None as)
     (set_next (last_or None as) (first_or None bs) h))(t := None)"

lemma timer_dequeue_eq:
  assumes d: "dll (nodes st) (q_first st) (q_last st) (as @ t # bs)"
  shows "timer_dequeue t st = Some (st\<lparr>nodes := unlinked (nodes st) as t bs,
    q_first := first_or None (as @ bs), q_last := last_or None (as @ bs)\<rparr>)"
proof -
  obtain n :: "('a, 'b) tl_timer" where n: "nodes st t = Some n" "prev_of n = last_or None as" "next_of n = first_or None bs"
    and c: "chain (nodes st) None (as @ t # bs) None" and dist: "distinct (as @ t # bs)"
    and fl: "q_first st = first_or None (as @ t # bs)" "q_last st = last_or None (as @ t # bs)"
    using d by (auto simp: dll_def chain_append)
  have as_in: "\<And>p. last_or None as = Some p \<Longrightarrow> nodes st p \<noteq> None \<and> p \<noteq> t"
    and bs_in: "\<And>p. first_or None bs = Some p \<Longrightarrow> nodes st p \<noteq> None \<and> p \<noteq> t"
    using chain_lookup [OF c] dist by (auto dest!: last_or_mem first_or_mem)
  have ends: "first_or None (as @ bs) = (if as = [] then next_of n else q_first st)"
    "last_or None (as @ bs) = (if bs = [] then prev_of n else q_last st)"
    using fl n by (cases as; simp add: first_or_append last_or_append; fail) (cases bs; use fl n in \<open>simp add: last_or_append\<close>)
  have nil: "last_or None as = None \<longleftrightarrow> as = []" "first_or None bs = None \<longleftrightarrow> bs = []"
    by (auto simp: last_or_def first_or_def split: list.split)
  let ?st1 = "if as = [] then st\<lparr>q_first := next_of n\<rparr> else st"
  let ?h1 = "set_next (last_or None as) (first_or None bs) (nodes st)"
  have s1: "(case prev_of n of None \<Rightarrow> Some (st\<lparr>q_first := next_of n\<rparr>)
      | Some p \<Rightarrow> upd_node p (\<lambda>x. x\<lparr>next_of := next_of n\<rparr>) st) = Some (?st1\<lparr>nodes := ?h1\<rparr>)"
    using as_in nil(1) n by (cases "last_or None as") (auto simp: upd_links)
  have t1: "nodes (?st1\<lparr>nodes := ?h1\<rparr>) t = Some n" using n dist by simp
  have s2: "(case next_of n of None \<Rightarrow> Some (?st1\<lparr>nodes := ?h1, q_last := prev_of n\<rparr>)
      | Some x \<Rightarrow> upd_node x (\<lambda>y. y\<lparr>prev_of := prev_of n\<rparr>) (?st1\<lparr>nodes := ?h1\<rparr>)) =
    Some ((if bs = [] then ?st1\<lparr>q_last := prev_of n\<rparr> else ?st1)\<lparr>nodes := set_prev (first_or None bs) (last_or None as) ?h1\<rparr>)"
    using bs_in nil(2) n by (cases "first_or None bs") (auto simp: upd_links)
  show ?thesis
    unfolding timer_dequeue_def using n(1) s1 t1 s2
    by (simp add: timer_free_def unlinked_def ends)
qed

lemma unlinked_dll:
  assumes d: "dll h f l (as @ t # bs)"
  shows "dll (unlinked h as t bs) (first_or None (as @ bs)) (last_or None (as @ bs)) (as @ bs)"
proof -
  have c: "chain h None as (Some t)" "chain h (Some t) bs None" and dist: "distinct (as @ t # bs)"
    using d by (simp_all add: dll_def chain_append)
  let ?h1 = "set_next (last_or None as) (first_or None bs) h"
  let ?h2 = "set_prev (first_or None bs) (last_or None as) ?h1"
  have "chain ?h2 None as (first_or None bs) = chain ?h1 None as (first_or None bs)"
    by (rule chain_cong, rule set_prev_outside) (use dist in auto)
  moreover have "chain ?h1 (Some t) bs None = chain h (Some t) bs None"
    by (rule chain_cong, rule set_next_outside) (use dist in auto)
  ultimately have "chain ?h2 None (as @ bs) None"
    using chain_set_next [OF c(1)] chain_set_prev [of ?h1 "Some t" bs None] c(2) dist by (simp add: chain_append)
  moreover have "chain (?h2(t := None)) None (as @ bs) None = chain ?h2 None (as @ bs) None"
    by (rule chain_cong) (use dist in auto)
  ultimately show ?thesis using dist by (simp add: dll_def unlinked_def)
qed

lemma unlinked_other:
  "a \<notin> set as \<Longrightarrow> a \<notin> set bs \<Longrightarrow> a \<noteq> t \<Longrightarrow> unlinked h as t bs a = h a"
  by (simp add: unlinked_def)

lemma unlinked_entry:
  "map_option entry (unlinked h as t bs a) = (if a = t then None else map_option entry (h a))"
  by (simp add: unlinked_def)

lemma unlinked_None_iff: "(unlinked h as t bs a = None) = (a = t \<or> h a = None)"
  by (simp add: unlinked_def)

section \<open>Walking and inserting\<close>

lemma find_later_chain:
  "chain (nodes st) p as None \<Longrightarrow> find_later st time (first_or None as) =
     Some (first_or None (dropWhile (\<lambda>a. \<not> time < timeout (the (nodes st a))) as))"
proof (induction as arbitrary: p)
  case Nil
  show ?case by (subst find_later.simps) simp
next
  case (Cons a as)
  then show ?case by (subst find_later.simps) (auto simp: less_timeval_def)
qed

lemma find_id_chain:
  "chain (nodes st) p as None \<Longrightarrow> find_id st i (first_or None as) =
     Some (first_or None (dropWhile (\<lambda>a. id_of (the (nodes st a)) \<noteq> i) as))"
proof (induction as arbitrary: p)
  case Nil
  show ?case by (subst find_id.simps) simp
next
  case (Cons a as)
  then show ?case by (subst find_id.simps) auto
qed

definition linked :: "('h, 'a) heap \<Rightarrow> nat list \<Rightarrow> nat \<Rightarrow> nat list \<Rightarrow> ('h, 'a) heap" where
  "linked h as app bs = set_prev (first_or None bs) (Some app) (set_next (last_or None as) (Some app)
     (set_next (Some app) (first_or None bs) (set_prev (Some app) (last_or None as) h)))"

lemma linked_entry: "map_option entry (linked h as app bs a) = map_option entry (h a)"
  by (simp add: linked_def)

lemma linked_other: "a \<notin> set as \<Longrightarrow> a \<notin> set bs \<Longrightarrow> a \<noteq> app \<Longrightarrow> linked h as app bs a = h a"
  by (simp add: linked_def) (simp add: set_next_def set_prev_def)

lemma linked_None_iff [simp]: "(linked h as app bs a = None) = (h a = None)"
  by (simp add: linked_def)

lemma linked_dll:
  assumes d: "dll h f l (as @ bs)" and app: "app \<notin> set (as @ bs)" "h app \<noteq> None"
  shows "dll (linked h as app bs) (first_or None (as @ app # bs)) (last_or None (as @ app # bs)) (as @ app # bs)"
proof -
  have c: "chain h None as (first_or None bs)" "chain h (last_or None as) bs None" and dist: "distinct (as @ bs)"
    using d by (simp_all add: dll_def chain_append)
  let ?h0 = "set_next (Some app) (first_or None bs) (set_prev (Some app) (last_or None as) h)"
  let ?h1 = "set_next (last_or None as) (Some app) ?h0"
  let ?h2 = "set_prev (first_or None bs) (Some app) ?h1"
  have "chain ?h0 None as (first_or None bs) = chain h None as (first_or None bs)"
    by (rule chain_cong) (use app in \<open>auto simp: set_next_def set_prev_def\<close>)
  then have "chain ?h1 None as (Some app)" using chain_set_next c dist by fastforce
  moreover have "chain ?h2 None as (Some app) = chain ?h1 None as (Some app)"
    by (rule chain_cong, rule set_prev_outside) (use dist in auto)
  moreover have "chain ?h0 (last_or None as) bs None = chain h (last_or None as) bs None"
    by (rule chain_cong) (use app in \<open>auto simp: set_next_def set_prev_def\<close>)
  moreover have "chain ?h1 (last_or None as) bs None = chain ?h0 (last_or None as) bs None"
    by (rule chain_cong, rule set_next_outside) (use dist in auto)
  ultimately have "chain ?h2 None as (Some app)" "chain ?h2 (Some app) bs None"
    using c dist chain_set_prev [of ?h1 "last_or None as" bs None "Some app"] by auto
  moreover have "\<exists>n. ?h2 app = Some n \<and> prev_of n = last_or None as \<and> next_of n = first_or None bs"
    using app by (auto simp: set_next_def set_prev_def dest: first_or_mem last_or_mem split: option.split)
  ultimately show ?thesis using dist app by (auto simp: dll_def linked_def chain_append)
qed

lemma upd_both_links:
  "nodes st a \<noteq> None \<Longrightarrow> upd_node a (\<lambda>n. n\<lparr>prev_of := x, next_of := y\<rparr>) st =
     Some (st\<lparr>nodes := set_next (Some a) y (set_prev (Some a) x (nodes st))\<rparr>)"
  by (auto simp: upd_node_def set_next_def set_prev_def)

lemma link_node_eq:
  assumes d: "dll (nodes st) (q_first st) (q_last st) qs" and app: "app \<notin> set qs" "nodes st app = Some n"
    and split: "as = takeWhile (\<lambda>a. \<not> timeout n < timeout (the (nodes st a))) qs"
      "bs = dropWhile (\<lambda>a. \<not> timeout n < timeout (the (nodes st a))) qs"
  shows "link_node app st = Some (st\<lparr>nodes := linked (nodes st) as app bs,
    q_first := first_or None (as @ app # bs), q_last := last_or None (as @ app # bs)\<rparr>)"
proof -
  have qs: "qs = as @ bs" using split by simp
  have c: "chain (nodes st) None qs None" and fl: "q_first st = first_or None qs" "q_last st = last_or None qs"
    using d by (simp_all add: dll_def)
  have live: "\<And>a. a \<in> set qs \<Longrightarrow> nodes st a \<noteq> None" using chain_lookup [OF c] by auto
  have loop: "find_later st (timeout n) (q_first st) = Some (first_or None bs)"
    using find_later_chain [OF c] split fl by simp
  show ?thesis
  proof (cases bs)
    case Nil
    show ?thesis
    proof (cases as rule: rev_cases)
      case Nil2: Nil
      then show ?thesis using Nil qs fl app by (simp add: link_node_def upd_both_links linked_def)
    next
      case (snoc as' z)
      have z: "nodes st z \<noteq> None" "z \<noteq> app" using live app qs snoc by auto
      have "q_first st \<noteq> None" using fl qs snoc by (cases as') auto
      then obtain g where g: "q_first st = Some g" by blast
      have "q_last st = Some z" using fl qs snoc Nil by simp
      moreover have "first_or None (as @ app # bs) = q_first st"
        using fl qs snoc Nil by (cases as') simp_all
      ultimately show ?thesis using g loop app z Nil snoc
        by (auto simp: link_node_def upd_both_links upd_links linked_def last_or_append intro!: timerlib.equality)
    qed
  next
    case (Cons b bs')
    have b: "nodes st b \<noteq> None" "b \<noteq> app" using live app qs Cons by auto
    have pb: "\<exists>m. nodes st b = Some m \<and> prev_of m = last_or None as"
      using c qs Cons by (auto simp: chain_append)
    have "q_first st \<noteq> None" using fl qs Cons by (cases as) auto
    then obtain g where g: "q_first st = Some g" by blast
    show ?thesis
    proof (cases as rule: rev_cases)
      case Nil2: Nil
      then show ?thesis using g loop app b pb Cons fl qs
        by (auto simp: link_node_def upd_both_links upd_links linked_def)
    next
      case (snoc as' z)
      have z: "nodes st z \<noteq> None" "z \<noteq> app" using live app qs snoc by auto
      have "last_or None (as @ app # bs) = q_last st" "first_or None (as @ app # bs) = q_first st"
        using fl qs snoc Cons by (simp_all add: last_or_append first_or_append)
      then show ?thesis using g loop app b z pb Cons snoc
        by (auto simp: link_node_def upd_both_links upd_links linked_def)
    qed
  qed
qed

end
