(* ===== verification/Timer_Spec.thy ===== *)
theory Timer_Spec
  imports Timer_Queue
begin

text \<open>
  The abstract timers: a list of entries in the order of their deadlines and a list of calls that
  are due, newest first. \<open>implements rs st a\<close> relates them to the linked lists in the heap; \<open>rs\<close> are
  the nodes that the thread of expired timers has taken out and not freed yet. Each operation of
  the library does on the heap what its abstract operation does on the lists.
\<close>

section \<open>Abstract timers\<close>

record ('h, 'a) timers =
  queue :: "('h, 'a) entry list"
  due :: "('h option \<times> 'a option) list"
  next_timer :: u32
  thread_on :: bool
  args_freed :: "('h \<times> 'a option) list"

definition enqueue :: "('h, 'a) entry \<Rightarrow> ('h, 'a) entry list \<Rightarrow> ('h, 'a) entry list" where
  "enqueue e q = takeWhile (\<lambda>x. \<not> deadline e < deadline x) q @ e # dropWhile (\<lambda>x. \<not> deadline e < deadline x) q"

definition remove_id :: "u32 \<Rightarrow> ('h, 'a) entry list \<Rightarrow> ('h, 'a) entry list" where
  "remove_id i q = takeWhile (\<lambda>x. timer_id x \<noteq> i) q @ tl (dropWhile (\<lambda>x. timer_id x \<noteq> i) q)"

lemma enqueue_simps [simp]:
  "enqueue e [] = [e]"
  "enqueue e (x # q) = (if deadline e < deadline x then e # x # q else x # enqueue e q)"
  by (simp_all add: enqueue_def)

lemma remove_id_simps [simp]:
  "remove_id i [] = []" "remove_id i (x # q) = (if timer_id x = i then q else x # remove_id i q)"
  by (simp_all add: remove_id_def)

lemma set_enqueue [simp]: "set (enqueue e q) = insert e (set q)"
  by (induction q) auto

lemma set_remove_id: "set (remove_id i q) \<subseteq> set q"
  by (induction q) auto

lemma enqueue_sorted: "sorted (map deadline q) \<Longrightarrow> sorted (map deadline (enqueue e q))"
proof (induction q)
  case (Cons x q)
  then show ?case by (auto simp del: split_paired_All)
qed simp

lemma remove_id_sorted: "sorted (map deadline q) \<Longrightarrow> sorted (map deadline (remove_id i q))"
proof (induction q)
  case (Cons x q)
  then show ?case using set_remove_id [of i q] by auto
qed simp

lemma remove_id_absent: "i \<notin> timer_id ` set q \<Longrightarrow> remove_id i q = q"
  by (induction q) auto

section \<open>The relation to the heap\<close>

definition lists_ok :: "('h, 'a) timerlib \<Rightarrow> nat list \<Rightarrow> nat list \<Rightarrow> nat set \<Rightarrow> bool" where
  "lists_ok st qs ps rs \<longleftrightarrow>
     dll (nodes st) (q_first st) (q_last st) qs \<and> dll (nodes st) (p_first st) (p_last st) ps \<and>
     set qs \<inter> set ps = {} \<and> rs \<inter> (set qs \<union> set ps) = {} \<and> dom (nodes st) = set qs \<union> set ps \<union> rs \<and>
     (\<forall>a \<in> dom (nodes st). a < fresh st) \<and>
     sorted (map deadline (entries (nodes st) qs)) \<and> (\<forall>c \<in> set (map call_of (entries (nodes st) ps)). fst c \<noteq> None)"

definition timers_ok :: "('h, 'a) timerlib \<Rightarrow> nat list \<Rightarrow> nat list \<Rightarrow> nat set \<Rightarrow> bool" where
  "timers_ok st qs ps rs \<longleftrightarrow> lists_ok st qs ps rs \<and> \<not> q_locked st \<and> \<not> p_locked st"

lemma lists_ok_locks [simp]:
  "lists_ok (st\<lparr>q_locked := b\<rparr>) qs ps rs = lists_ok st qs ps rs"
  "lists_ok (st\<lparr>p_locked := b\<rparr>) qs ps rs = lists_ok st qs ps rs"
  "lists_ok (st\<lparr>timeout_thread_is_on := b\<rparr>) qs ps rs = lists_ok st qs ps rs"
  "lists_ok (st\<lparr>freed_args := l\<rparr>) qs ps rs = lists_ok st qs ps rs"
  "lists_ok (st\<lparr>destroyed := b\<rparr>) qs ps rs = lists_ok st qs ps rs"
  by (simp_all add: lists_ok_def)

definition view :: "('h, 'a) timerlib \<Rightarrow> nat list \<Rightarrow> nat list \<Rightarrow> ('h, 'a) timers" where
  "view st qs ps = \<lparr>queue = entries (nodes st) qs, due = map call_of (entries (nodes st) ps), next_timer = cur_id st,
     thread_on = timeout_thread_is_on st, args_freed = freed_args st\<rparr>"

definition implements :: "nat set \<Rightarrow> ('h, 'a) timerlib \<Rightarrow> ('h, 'a) timers \<Rightarrow> bool" where
  "implements rs st a \<longleftrightarrow> (\<exists>qs ps. timers_ok st qs ps rs \<and> view st qs ps = a)"

lemma implementsE:
  assumes "implements rs st a"
  obtains qs ps where "timers_ok st qs ps rs" "view st qs ps = a"
  using assms by (auto simp: implements_def)

lemma implementsI: "timers_ok st qs ps rs \<Longrightarrow> view st qs ps = a \<Longrightarrow> implements rs st a"
  by (auto simp: implements_def)

lemma view_fields: "view st qs ps = a \<Longrightarrow> cur_id st = next_timer a \<and> timeout_thread_is_on st = thread_on a \<and>
    freed_args st = args_freed a \<and> queue a = entries (nodes st) qs \<and> due a = map call_of (entries (nodes st) ps)"
  by (auto simp: view_def)

lemma timer_init_implements:
  "implements {} timer_init \<lparr>queue = [], due = [], next_timer = 0, thread_on = False, args_freed = []\<rparr>"
proof -
  have "timers_ok timer_init [] [] {} \<and> view timer_init [] [] =
      \<lparr>queue = [], due = [], next_timer = 0, thread_on = False, args_freed = []\<rparr>"
    by (simp add: timers_ok_def lists_ok_def view_def timer_init_def dll_def)
  then show ?thesis unfolding implements_def by blast
qed

lemma entries_takeWhile:
  "entries h (takeWhile (\<lambda>a. P (entry (the (h a)))) qs) = takeWhile P (entries h qs)"
  "entries h (dropWhile (\<lambda>a. P (entry (the (h a)))) qs) = dropWhile P (entries h qs)"
  by (simp_all add: entries_def takeWhile_map dropWhile_map comp_def)

section \<open>Adding a timer\<close>

definition new_id :: "u32 \<Rightarrow> u32" where
  "new_id c = (if c = -1 then c + 1 else c)"

definition spec_add :: "timeval \<Rightarrow> timeval \<Rightarrow> 'h option \<Rightarrow> 'a option \<Rightarrow> ('h, 'a) timers \<Rightarrow> ('h, 'a) timers" where
  "spec_add now d h x a = a\<lparr>queue := enqueue (abs_time now d, new_id (next_timer a), h, x) (queue a),
     next_timer := new_id (next_timer a) + 1\<rparr>"

lemma next_id_eq: "next_id st = (new_id (cur_id st), st\<lparr>cur_id := new_id (cur_id st) + 1\<rparr>)"
  by (simp add: next_id_def new_id_def)

text \<open>The state in which the new node is linked: it is in the heap, with its identifier, and the queue is
  locked.\<close>

definition new_node :: "timeval \<Rightarrow> ('h, 'a) tl_timer \<Rightarrow> u32 \<Rightarrow> ('h, 'a) tl_timer" where
  "new_node now msg i = zero_timer\<lparr>timeout := abs_time now (timeout msg), handler := handler msg,
     handler_arg := handler_arg msg, id_of := i\<rparr>"

definition with_node :: "timeval \<Rightarrow> ('h, 'a) tl_timer \<Rightarrow> ('h, 'a) timerlib \<Rightarrow> ('h, 'a) timerlib" where
  "with_node now msg st = st\<lparr>nodes := (nodes st)(fresh st \<mapsto> new_node now msg (new_id (cur_id st))), fresh := fresh st + 1,
     q_locked := True, cur_id := new_id (cur_id st) + 1\<rparr>"

lemma new_node_simps [simp]:
  "timeout (new_node now msg i) = abs_time now (timeout msg)"
  "entry (new_node now msg i) = (abs_time now (timeout msg), i, handler msg, handler_arg msg)"
  by (simp_all add: new_node_def entry_def)

lemma with_node_simps [simp]:
  "nodes (with_node now msg st) (fresh st) = Some (new_node now msg (new_id (cur_id st)))"
  "b \<noteq> fresh st \<Longrightarrow> nodes (with_node now msg st) b = nodes st b"
  "q_first (with_node now msg st) = q_first st" "q_last (with_node now msg st) = q_last st"
  by (simp_all add: with_node_def)

lemma add_timernode_run:
  assumes d: "\<not> in_past (timeout msg)" "\<not> q_locked st" and l: "link_node (fresh st) (with_node now msg st) = Some st'"
    and q: "q_locked st'"
  shows "add_timernode_to_list True now msg st = Some (0, msg\<lparr>id_of := new_id (cur_id st)\<rparr>, st'\<lparr>q_locked := False\<rparr>)"
proof -
  have "st\<lparr>fresh := Suc (fresh st), q_locked := True, cur_id := new_id (cur_id st) + 1, nodes := (nodes st)(fresh st \<mapsto>
      zero_timer\<lparr>timeout := abs_time now (timeout msg), handler := handler msg, handler_arg := handler_arg msg,
        id_of := new_id (cur_id st)\<rparr>)\<rparr> = with_node now msg st"
    by (rule timerlib.equality) (simp_all add: with_node_def new_node_def)
  then show ?thesis
    using d l q unfolding add_timernode_to_list_def
    by (simp add: malloc_node_def lock_q_def next_id_eq upd_node_def) (simp add: unlock_q_def)
qed

text \<open>The new node between those that are not later and those that are.\<close>

lemma linked_entries:
  assumes qs: "qs = as @ bs" "app \<notin> set qs" "\<forall>b \<in> set qs. h b \<noteq> None" and n: "h app = Some n"
    and as: "as = takeWhile (\<lambda>b. \<not> timeout n < timeout (the (h b))) qs"
    and bs: "bs = dropWhile (\<lambda>b. \<not> timeout n < timeout (the (h b))) qs"
  shows "entries (linked h as app bs) (as @ app # bs) = enqueue (entry n) (entries h qs)"
proof -
  let ?P = "\<lambda>x. \<not> timeout n < deadline x"
  have ent: "entries (linked h as app bs) xs = entries h xs" if "set xs \<subseteq> set qs" for xs
    by (rule entries_cong) (use that qs in \<open>auto simp: linked_entry\<close>)
  have "entry (the (linked h as app bs app)) = entry n"
    using linked_entry [of h as app bs app] n by (cases "linked h as app bs app") simp_all
  moreover have "entries h as = takeWhile ?P (entries h qs)"
    unfolding as by (subst entries_takeWhile(1) [symmetric]) (simp add: entry_def)
  moreover have "entries h bs = dropWhile ?P (entries h qs)"
    unfolding bs by (subst entries_takeWhile(2) [symmetric]) (simp add: entry_def)
  moreover have "deadline (entry n) = timeout n" by (simp add: entry_def)
  moreover have "set as \<subseteq> set qs" "set bs \<subseteq> set qs" using qs(1) by auto
  ultimately show ?thesis by (simp only: entries_simps ent enqueue_def)
qed

lemma add_timernode_implements:
  assumes i: "implements rs st a" and d: "\<not> in_past (timeout msg)"
  shows "\<exists>st'. add_timernode_to_list True now msg st = Some (0, msg\<lparr>id_of := new_id (next_timer a)\<rparr>, st') \<and>
    implements rs st' (spec_add now (timeout msg) (handler msg) (handler_arg msg) a)"
proof -
  obtain qs ps where ok: "timers_ok st qs ps rs" and v: "view st qs ps = a" using i by (rule implementsE)
  let ?app = "fresh st" and ?st1 = "with_node now msg st" and ?n = "new_node now msg (new_id (cur_id st))"
  have new: "?app \<notin> set qs" "?app \<notin> set ps" "?app \<notin> rs" using ok by (auto simp: timers_ok_def lists_ok_def)
  have same: "nodes ?st1 b = nodes st b" if "b \<in> set qs \<union> set ps" for b using that new by (intro with_node_simps(2)) auto
  have live: "nodes st b \<noteq> None" if "b \<in> set qs \<union> set ps" for b using ok that by (auto simp: timers_ok_def lists_ok_def)
  have dq: "dll (nodes ?st1) (q_first ?st1) (q_last ?st1) qs"
    using dll_cong [of qs "nodes ?st1" "nodes st"] same ok by (simp add: timers_ok_def lists_ok_def)
  define as where "as = takeWhile (\<lambda>b. \<not> timeout ?n < timeout (the (nodes ?st1 b))) qs"
  define bs where "bs = dropWhile (\<lambda>b. \<not> timeout ?n < timeout (the (nodes ?st1 b))) qs"
  have qs: "qs = as @ bs" by (simp add: as_def bs_def)
  let ?h = "linked (nodes ?st1) as ?app bs" and ?qs = "as @ ?app # bs"
  let ?st = "?st1\<lparr>nodes := ?h, q_first := first_or None ?qs, q_last := last_or None ?qs, q_locked := False\<rparr>"
  have link: "link_node ?app ?st1 = Some (?st1\<lparr>nodes := ?h, q_first := first_or None ?qs, q_last := last_or None ?qs\<rparr>)"
    by (rule link_node_eq [OF dq new(1) with_node_simps(1) as_def bs_def])
  have run: "add_timernode_to_list True now msg st = Some (0, msg\<lparr>id_of := new_id (cur_id st)\<rparr>, ?st)"
    using add_timernode_run [OF d _ link] ok by (simp add: timers_ok_def with_node_def)
  have "entries (nodes ?st1) qs = entries (nodes st) qs" by (rule entries_cong) (use same live in auto)
  then have q': "entries ?h ?qs = enqueue (entry ?n) (entries (nodes st) qs)"
    using linked_entries [OF qs new(1) _ with_node_simps(1) as_def bs_def] same live by simp
  have p': "entries ?h ps = entries (nodes st) ps"
    by (rule entries_cong) (use same live new in \<open>auto simp: linked_entry\<close>)
  have dom: "dom ?h = insert ?app (dom (nodes st))"
    by (rule set_eqI) (simp only: insert_iff domIff linked_None_iff, simp add: with_node_def)
  have "dll ?h (first_or None ?qs) (last_or None ?qs) ?qs"
    by (rule linked_dll [of _ "q_first ?st1" "q_last ?st1"]) (use dq qs new in auto)
  moreover have "dll ?h (p_first st) (p_last st) ps"
  proof -
    have "?h b = nodes st b" if b: "b \<in> set ps" for b
    proof -
      have "b \<notin> set qs" "b \<noteq> ?app" using b ok new by (auto simp: timers_ok_def lists_ok_def)
      then show ?thesis using qs same b by (simp add: linked_other)
    qed
    then show ?thesis using dll_cong [of ps ?h "nodes st"] ok by (simp add: timers_ok_def lists_ok_def)
  qed
  moreover have "set ?qs = insert ?app (set qs)" using qs by auto
  ultimately have "timers_ok ?st ?qs ps rs"
    using ok new dom q' p' by (auto simp: timers_ok_def lists_ok_def with_node_def enqueue_sorted less_Suc_eq)
  moreover have "view ?st ?qs ps = spec_add now (timeout msg) (handler msg) (handler_arg msg) a"
    using v q' p' by (auto simp: view_def spec_add_def with_node_def)
  ultimately have "implements rs ?st (spec_add now (timeout msg) (handler msg) (handler_arg msg) a)" by (rule implementsI)
  then show ?thesis using run view_fields [OF v] by auto
qed

section \<open>Taking a timer out\<close>

definition without :: "nat list \<Rightarrow> nat \<Rightarrow> nat list \<Rightarrow> ('h, 'a) timerlib \<Rightarrow> ('h, 'a) timerlib" where
  "without as t bs st = st\<lparr>nodes := unlinked (nodes st) as t bs,
     q_first := first_or None (as @ bs), q_last := last_or None (as @ bs)\<rparr>"

lemma without_fields [simp]:
  "q_locked (without as t bs st) = q_locked st" "p_locked (without as t bs st) = p_locked st"
  "q_first (without as t bs st) = first_or None (as @ bs)" "q_last (without as t bs st) = last_or None (as @ bs)"
  "p_first (without as t bs st) = p_first st" "p_last (without as t bs st) = p_last st"
  "timeout_thread_is_on (without as t bs st) = timeout_thread_is_on st" "freed_args (without as t bs st) = freed_args st"
  "cur_id (without as t bs st) = cur_id st" "fresh (without as t bs st) = fresh st"
  "nodes (without as t bs st) = unlinked (nodes st) as t bs"
  by (simp_all add: without_def)

lemma dequeue_without: "lists_ok st (as @ t # bs) ps rs \<Longrightarrow> timer_dequeue t st = Some (without as t bs st)"
  unfolding without_def by (rule timer_dequeue_eq) (simp add: lists_ok_def)

lemma unlinked_entries:
  assumes "lists_ok st (as @ t # bs) ps rs" "t \<notin> set xs" "set xs \<subseteq> set as \<union> set bs \<union> set ps"
  shows "entries (unlinked (nodes st) as t bs) xs = entries (nodes st) xs"
proof (rule entries_cong)
  fix a assume "a \<in> set xs"
  then have "a \<noteq> t" "a \<in> dom (nodes st)" using assms by (auto simp: lists_ok_def)
  then show "map_option entry (unlinked (nodes st) as t bs a) = map_option entry (nodes st a)" "nodes st a \<noteq> None"
    by (auto simp: unlinked_entry)
qed

lemma without_ok:
  assumes ok: "lists_ok st (as @ t # bs) ps rs"
  shows "lists_ok (without as t bs st) (as @ bs) ps rs"
    and "view (without as t bs st) (as @ bs) ps = (view st (as @ t # bs) ps)\<lparr>queue := entries (nodes st) (as @ bs)\<rparr>"
proof -
  let ?h = "unlinked (nodes st) as t bs"
  have t: "t \<notin> set (as @ bs)" "t \<notin> set ps" using ok by (auto simp: lists_ok_def dll_def)
  have e: "entries ?h as = entries (nodes st) as" "entries ?h bs = entries (nodes st) bs" "entries ?h ps = entries (nodes st) ps"
    using t by (auto intro!: unlinked_entries [OF ok])
  have dom: "dom ?h = dom (nodes st) - {t}"
    by (rule set_eqI) (simp only: Diff_iff domIff unlinked_None_iff singleton_iff, blast)
  have "dll ?h (p_first st) (p_last st) ps = dll (nodes st) (p_first st) (p_last st) ps"
    by (rule dll_cong, rule unlinked_other) (use ok in \<open>auto simp: lists_ok_def\<close>)
  then show "lists_ok (without as t bs st) (as @ bs) ps rs"
    using ok unlinked_dll [of "nodes st" "q_first st" "q_last st" as t bs] dom e
    by (auto simp: lists_ok_def sorted_append dll_def)
  show "view (without as t bs st) (as @ bs) ps = (view st (as @ t # bs) ps)\<lparr>queue := entries (nodes st) (as @ bs)\<rparr>"
    using e by (simp add: view_def)
qed

text \<open>A change of the argument of the node that is taken out is lost with it.\<close>

lemma chain_links:
  assumes "\<And>a. a \<in> set as \<Longrightarrow> map_option (\<lambda>n. (prev_of n, next_of n)) (h' a) = map_option (\<lambda>n. (prev_of n, next_of n)) (h a)"
  shows "chain h' p as e = chain h p as e"
  using assms
proof (induction as arbitrary: p)
  case (Cons a as)
  have "map_option (\<lambda>n. (prev_of n, next_of n)) (h' a) = map_option (\<lambda>n. (prev_of n, next_of n)) (h a)"
    using Cons.prems by simp
  then have "(\<exists>n. h' a = Some n \<and> prev_of n = p \<and> next_of n = first_or e as) \<longleftrightarrow>
      (\<exists>n. h a = Some n \<and> prev_of n = p \<and> next_of n = first_or e as)"
    by (cases "h a"; cases "h' a") auto
  moreover have "chain h' (Some a) as e = chain h (Some a) as e" using Cons by simp
  ultimately show ?case by simp
qed simp

lemma unlinked_arg: "t \<notin> set as \<Longrightarrow> t \<notin> set bs \<Longrightarrow> unlinked (h(t := x)) as t bs = unlinked h as t bs"
  by (auto simp: unlinked_def set_next_def set_prev_def fun_eq_iff dest: last_or_mem first_or_mem split: option.split)

lemma dequeue_arg:
  assumes ok: "lists_ok st (as @ t # bs) ps rs" and n: "nodes st t = Some n"
  shows "timer_dequeue t (st\<lparr>nodes := (nodes st)(t \<mapsto> n\<lparr>handler_arg := x\<rparr>)\<rparr>) = Some (without as t bs st)"
proof -
  let ?h = "(nodes st)(t \<mapsto> n\<lparr>handler_arg := x\<rparr>)"
  have t: "t \<notin> set as" "t \<notin> set bs" and d: "dll (nodes st) (q_first st) (q_last st) (as @ t # bs)"
    using ok by (auto simp: lists_ok_def dll_def)
  have "chain ?h None (as @ t # bs) None = chain (nodes st) None (as @ t # bs) None"
    by (rule chain_links) (simp add: n)
  then have "dll ?h (q_first st) (q_last st) (as @ t # bs)" using d by (simp only: dll_def)
  then show ?thesis
    using timer_dequeue_eq [of "st\<lparr>nodes := ?h\<rparr>" as t bs] unlinked_arg [OF t, of "nodes st"] by (simp add: without_def)
qed

section \<open>Removing a timer\<close>

definition spec_remove :: "u32 \<Rightarrow> 'h option \<Rightarrow> ('h, 'a) timers \<Rightarrow> ('h, 'a) timers" where
  "spec_remove i f a = (case dropWhile (\<lambda>x. timer_id x \<noteq> i) (queue a) of
     [] \<Rightarrow> a
   | e # _ \<Rightarrow> a\<lparr>queue := remove_id i (queue a),
       args_freed := args_freed a @ (case f of None \<Rightarrow> [] | Some h \<Rightarrow> [(h, snd (call_of e))])\<rparr>)"

lemma view_more [simp]:
  "view (st\<lparr>q_locked := b\<rparr>) qs ps = view st qs ps" "view (st\<lparr>p_locked := b\<rparr>) qs ps = view st qs ps"
  "view (st\<lparr>destroyed := b\<rparr>) qs ps = view st qs ps"
  "view (st\<lparr>freed_args := l\<rparr>) qs ps = (view st qs ps)\<lparr>args_freed := l\<rparr>"
  "view (st\<lparr>timeout_thread_is_on := b\<rparr>) qs ps = (view st qs ps)\<lparr>thread_on := b\<rparr>"
  by (simp_all add: view_def)

lemma without_more [simp]:
  "without as t bs (st\<lparr>q_locked := b\<rparr>) = (without as t bs st)\<lparr>q_locked := b\<rparr>"
  "without as t bs (st\<lparr>freed_args := l\<rparr>) = (without as t bs st)\<lparr>freed_args := l\<rparr>"
  by (simp_all add: without_def)

lemma del_timernode_implements:
  assumes i: "implements rs st a" and id: "id_of msg \<noteq> -1"
  shows "\<exists>st'. del_timernode_from_list msg st = Some (if id_of msg \<in> timer_id ` set (queue a) then 0 else -1, st') \<and>
    implements rs st' (spec_remove (id_of msg) (handler msg) a)"
proof -
  obtain qs ps where ok: "timers_ok st qs ps rs" and v: "view st qs ps = a" using i by (rule implementsE)
  let ?i = "id_of msg" and ?P = "\<lambda>x. timer_id x \<noteq> id_of msg"
  define as where "as = takeWhile (\<lambda>b. ?P (entry (the (nodes st b)))) qs"
  define bs where "bs = dropWhile (\<lambda>b. ?P (entry (the (nodes st b)))) qs"
  have qs: "qs = as @ bs" by (simp add: as_def bs_def)
  have cut: "entries (nodes st) as = takeWhile ?P (queue a)" "entries (nodes st) bs = dropWhile ?P (queue a)"
    unfolding as_def bs_def using v entries_takeWhile [of "nodes st" ?P qs] by (auto simp: view_def)
  have unl: "\<not> q_locked st" and lok: "lists_ok st qs ps rs" using ok by (simp_all add: timers_ok_def)
  have c: "chain (nodes st) None qs None" and f: "q_first st = first_or None qs"
    using ok by (simp_all add: timers_ok_def lists_ok_def dll_def)
  have find: "find_id (st\<lparr>q_locked := True\<rparr>) ?i (q_first st) = Some (first_or None bs)"
    using find_id_chain [of "st\<lparr>q_locked := True\<rparr>" None qs ?i] c f by (simp add: bs_def entry_def)
  show ?thesis
  proof (cases bs)
    case Nil
    then have e: "dropWhile ?P (queue a) = []" using cut by simp
    have "spec_remove ?i (handler msg) a = a" by (simp only: spec_remove_def e list.case)
    moreover have "?i \<notin> timer_id ` set (queue a)" using e by (auto simp: dropWhile_eq_Nil_conv)
    moreover have "del_timernode_from_list msg st = Some (-1, st)"
      using id unl find Nil by (simp add: del_timernode_from_list_def lock_q_def unlock_q_def)
    ultimately show ?thesis using i by auto
  next
    case (Cons t bs')
    have lok': "lists_ok st (as @ t # bs') ps rs" using lok qs Cons by simp
    obtain n :: "('a, 'b) tl_timer" where n: "nodes st t = Some n"
      using chain_lookup [OF c, of t] qs Cons by auto
    have e: "dropWhile ?P (queue a) = entry n # entries (nodes st) bs'" using cut Cons n by simp
    then have mem: "?i \<in> timer_id ` set (queue a)"
      by (metis (mono_tags, lifting) dropWhile_eq_Nil_conv imageI list.distinct(1))
    let ?fr = "freed_args st @ (case handler msg of None \<Rightarrow> [] | Some h \<Rightarrow> [(h, handler_arg n)])"
    let ?st = "(without as t bs' st)\<lparr>freed_args := ?fr\<rparr>"
    have "del_timernode_from_list msg st = Some (0, ?st)"
    proof (cases "handler msg")
      case None
      then show ?thesis using id unl find Cons n dequeue_without [OF lok']
          dequeue_without [of "st\<lparr>q_locked := True\<rparr>" as t bs' ps rs] lok'
        by (simp add: del_timernode_from_list_def lock_q_def unlock_q_def)
    next
      case (Some h)
      let ?st1 = "st\<lparr>q_locked := True, freed_args := freed_args st @ [(h, handler_arg n)]\<rparr>"
      have "timer_dequeue t (?st1\<lparr>nodes := (nodes ?st1)(t \<mapsto> n\<lparr>handler_arg := None\<rparr>)\<rparr>) = Some (without as t bs' ?st1)"
        by (rule dequeue_arg [where ps = ps and rs = rs]) (use lok' n in simp_all)
      then show ?thesis using id unl find Cons n Some
        by (simp add: del_timernode_from_list_def lock_q_def unlock_q_def upd_node_def)
    qed
    moreover have "timers_ok ?st (as @ bs') ps rs" using without_ok [OF lok'] ok by (simp add: timers_ok_def)
    moreover have "view ?st (as @ bs') ps = spec_remove ?i (handler msg) a"
    proof -
      have "view st (as @ t # bs') ps = a" using v qs Cons by simp
      moreover have "snd (call_of (entry n)) = handler_arg n" by (simp add: entry_def)
      ultimately show ?thesis
        using without_ok(2) [OF lok'] view_fields [OF v] cut(1) e
        by (cases "handler msg") (simp_all add: spec_remove_def remove_id_def)
    qed
    ultimately show ?thesis using mem by (auto intro: implementsI)
  qed
qed

section \<open>Removing all timers\<close>

lemma dequeue_all_ok:
  "lists_ok st qs ps rs \<Longrightarrow> \<exists>st'. dequeue_all st = Some st' \<and> lists_ok st' [] ps rs \<and>
     view st' [] ps = (view st qs ps)\<lparr>queue := []\<rparr> \<and> q_locked st' = q_locked st \<and> p_locked st' = p_locked st"
proof (induction qs arbitrary: st rule: rev_induct)
  case Nil
  then have "q_last st = None" by (simp add: lists_ok_def dll_def)
  then have "dequeue_all st = Some st" by (subst dequeue_all.simps) simp
  then show ?case using Nil by (auto simp: view_def)
next
  case (snoc t qs)
  then have l: "q_last st = Some t" by (simp add: lists_ok_def dll_def)
  let ?st = "without qs t [] st"
  have run: "dequeue_all st = dequeue_all ?st"
    by (subst dequeue_all.simps) (simp add: l dequeue_without [OF snoc.prems])
  have ok: "lists_ok ?st qs ps rs" "(view ?st qs ps)\<lparr>queue := []\<rparr> = (view st (qs @ [t]) ps)\<lparr>queue := []\<rparr>"
    using without_ok [OF snoc.prems] by simp_all
  show ?case using snoc.IH [OF ok(1)] run ok(2) by simp
qed

lemma del_all_implements:
  assumes i: "implements rs st a"
  shows "\<exists>st'. del_all_timer d st = Some (0, st') \<and> implements rs st' (a\<lparr>queue := []\<rparr>)"
proof -
  obtain qs ps where ok: "timers_ok st qs ps rs" and v: "view st qs ps = a" using i by (rule implementsE)
  have "lists_ok (st\<lparr>q_locked := True\<rparr>) qs ps rs" "\<not> q_locked st" "\<not> p_locked st" using ok by (simp_all add: timers_ok_def)
  from dequeue_all_ok [OF this(1)] this(2,3) v obtain st1 where st1: "dequeue_all (st\<lparr>q_locked := True\<rparr>) = Some st1"
      "lists_ok st1 [] ps rs" "view st1 [] ps = a\<lparr>queue := []\<rparr>" "q_locked st1" "\<not> p_locked st1" by auto
  let ?st = "(if d then st1\<lparr>q_locked := False, destroyed := True\<rparr> else st1\<lparr>q_locked := False\<rparr>)"
  have "del_all_timer d st = Some (0, ?st)"
    using st1 \<open>\<not> q_locked st\<close> by (simp add: del_all_timer_def lock_q_def unlock_q_def)
  moreover have "implements rs ?st (a\<lparr>queue := []\<rparr>)"
    by (rule implementsI [of _ "[]" ps]) (use st1 in \<open>auto simp: timers_ok_def\<close>)
  ultimately show ?thesis by blast
qed

section \<open>Expiry\<close>

lemma push_ok:
  assumes ok: "timers_ok st qs ps rs" and h: "hdl \<noteq> None"
  shows "\<exists>st' ps'. add_timeout_list True hdl x st = Some (0, st') \<and> timers_ok st' qs ps' rs \<and>
    view st' qs ps' = (view st qs ps)\<lparr>due := (hdl, x) # due (view st qs ps)\<rparr>"
proof -
  let ?a = "fresh st"
  define n :: "('a, 'b) tl_timer" where "n = zero_timer\<lparr>handler := hdl, handler_arg := x\<rparr>"
  let ?hn = "(nodes st)(?a \<mapsto> n)"
  let ?h = "linked ?hn [] ?a ps"
  let ?st = "st\<lparr>nodes := ?h, fresh := ?a + 1, p_first := Some ?a, p_last := last_or (Some ?a) ps\<rparr>"
  have lok: "lists_ok st qs ps rs" and unl: "\<not> q_locked st" "\<not> p_locked st" using ok by (simp_all add: timers_ok_def)
  have d: "dll (nodes st) (p_first st) (p_last st) ps" "dll (nodes st) (q_first st) (q_last st) qs" using lok by (simp_all add: lists_ok_def)
  have new: "?a \<notin> set qs" "?a \<notin> set ps" "?a \<notin> rs" using lok by (auto simp: lists_ok_def)
  have dp: "dll ?hn (p_first st) (p_last st) ps"
  proof -
    have "dll ?hn (p_first st) (p_last st) ps = dll (nodes st) (p_first st) (p_last st) ps"
      by (rule dll_cong) (use new in auto)
    then show ?thesis using d(1) by simp
  qed
  have run: "add_timeout_list True hdl x st = Some (0, ?st)"
  proof (cases ps)
    case Nil
    then have "p_first st = None" using d by (simp add: dll_def)
    then show ?thesis using h unl Nil
      by (auto simp: add_timeout_list_def lock_p_def unlock_p_def malloc_node_def linked_def set_next_def set_prev_def n_def
          intro!: timerlib.equality)
  next
    case (Cons p ps')
    then have p: "p_first st = Some p" "p_last st = last_or (Some ?a) ps" "nodes st p \<noteq> None" "p \<noteq> ?a"
      using d(1) new by (auto simp: dll_def)
    then obtain m :: "('a, 'b) tl_timer" where "nodes st p = Some m" by auto
    then show ?thesis using h unl Cons p
      by (auto simp: add_timeout_list_def lock_p_def unlock_p_def malloc_node_def linked_def set_next_def set_prev_def n_def
          upd_node_def fun_upd_twist intro!: timerlib.equality)
  qed
  have same: "?h b = nodes st b" if "b \<in> set qs" for b
    using that new lok by (subst linked_other) (auto simp: lists_ok_def)
  have ent: "entries ?h xs = entries (nodes st) xs" if "set xs \<subseteq> set qs \<union> set ps" for xs
  proof (rule entries_cong)
    fix b assume "b \<in> set xs"
    then have b: "b \<in> set qs \<union> set ps" "b \<noteq> ?a" using that new by auto
    then show "map_option entry (?h b) = map_option entry (nodes st b)" by (simp add: linked_entry)
    show "nodes st b \<noteq> None" using b(1) lok by (auto simp: lists_ok_def)
  qed
  have e: "call_of (entry (the (?h ?a))) = (hdl, x)"
    using linked_entry [of ?hn "[]" ?a ps ?a] by (cases "?h ?a") (simp_all add: n_def entry_def)
  have dom: "dom ?h = insert ?a (dom (nodes st))"
    by (rule set_eqI) (simp only: insert_iff domIff linked_None_iff, simp)
  have "dll ?h (p_first ?st) (p_last ?st) (?a # ps)"
    using linked_dll [of ?hn "p_first st" "p_last st" "[]" ps ?a] dp new by simp
  moreover have "dll ?h (q_first st) (q_last st) qs"
    using d(2) same dll_cong [of qs ?h "nodes st" "q_first st" "q_last st"] by simp
  ultimately have "timers_ok ?st qs (?a # ps) rs"
    using lok unl new dom ent [of ps] ent [of qs] e h by (auto simp: timers_ok_def lists_ok_def less_Suc_eq)
  moreover have "view ?st qs (?a # ps) = (view st qs ps)\<lparr>due := (hdl, x) # due (view st qs ps)\<rparr>"
    using ent [of ps] ent [of qs] e by (simp add: view_def)
  ultimately show ?thesis using run by blast
qed

lemma push_refused:
  assumes "\<not> p_locked st" "hdl \<noteq> None"
  shows "add_timeout_list False hdl x st = Some (-1, st)"
proof -
  have "st\<lparr>p_locked := False\<rparr> = st" using assms by (intro timerlib.equality) simp_all
  moreover have "add_timeout_list False hdl x st = Some (-1, st\<lparr>p_locked := False\<rparr>)"
    using assms by (simp add: add_timeout_list_def lock_p_def unlock_p_def)
  ultimately show ?thesis by (simp only:)
qed

text \<open>\<open>mem\<close> and \<open>created\<close>: whether \<open>malloc\<close> and \<open>pthread_create\<close> succeed.\<close>

definition spec_expire :: "bool \<Rightarrow> bool \<Rightarrow> ('h, 'a) timers \<Rightarrow> ('h, 'a) timers" where
  "spec_expire mem created a = (case queue a of
     [] \<Rightarrow> a
   | e # q \<Rightarrow> if fst (call_of e) = None \<or> \<not> mem then a\<lparr>queue := q\<rparr>
       else a\<lparr>queue := q, due := call_of e # due a, thread_on := thread_on a \<or> created\<rparr>)"

definition expire_wake :: "bool \<Rightarrow> bool \<Rightarrow> ('h, 'a) timers \<Rightarrow> wake" where
  "expire_wake mem created a = (case queue a of
     [] \<Rightarrow> No_wake
   | e # q \<Rightarrow> if fst (call_of e) = None \<or> \<not> mem then No_wake
       else if thread_on a then Signalled else if created then Thread_created else Thread_failed)"

lemma timer_execute_implements:
  assumes i: "implements rs st a"
  shows "\<exists>st'. timer_execute mem created st = Some (expire_wake mem created a, st') \<and>
    implements rs st' (spec_expire mem created a)"
proof -
  obtain qs ps where ok: "timers_ok st qs ps rs" and v: "view st qs ps = a" using i by (rule implementsE)
  have unl: "\<not> q_locked st" "\<not> p_locked st" and lok: "lists_ok st qs ps rs" using ok by (simp_all add: timers_ok_def)
  show ?thesis
  proof (cases qs)
    case Nil
    then have "q_first st = None" "queue a = []" using lok v by (auto simp: lists_ok_def dll_def view_def)
    then show ?thesis using i by (simp add: timer_execute_def expire_wake_def spec_expire_def)
  next
    case (Cons t bs)
    have lok': "lists_ok st ([] @ t # bs) ps rs" using lok Cons by simp
    have f: "q_first st = Some t" and "chain (nodes st) None (t # bs) None"
      using lok Cons by (simp_all add: lists_ok_def dll_def)
    then obtain n :: "('a, 'b) tl_timer" where n: "nodes st t = Some n" by auto
    have q: "queue a = entry n # entries (nodes st) bs" using v Cons n by (auto simp: view_def)
    have co: "call_of (entry n) = (handler n, handler_arg n)" by (simp add: entry_def)
    let ?st = "without [] t bs st"
    have deq: "timer_dequeue t (st\<lparr>q_locked := True\<rparr>) = Some (?st\<lparr>q_locked := True\<rparr>)"
      using dequeue_without [of "st\<lparr>q_locked := True\<rparr>" "[]" t bs ps rs] lok' by simp
    have same: "?st\<lparr>q_locked := False\<rparr> = ?st" using unl by (intro timerlib.equality) simp_all
    have v': "view st (t # bs) ps = a" using v Cons by simp
    have ok1: "timers_ok ?st bs ps rs" and v1: "view ?st bs ps = a\<lparr>queue := entries (nodes st) bs\<rparr>"
      using without_ok [OF lok'] unl v' by (simp_all add: timers_ok_def)
    have start: "timer_execute mem created st =
        (if handler n = None then Some (No_wake, ?st)
         else do {
           (ret, st) \<leftarrow> add_timeout_list mem (handler n) (handler_arg n) ?st;
           if ret \<noteq> 0 then Some (No_wake, st) else wake_thread created st })"
      unfolding timer_execute_def using f n unl deq by (simp add: lock_q_def unlock_q_def) (simp only: same, simp)
    show ?thesis
    proof (cases "handler n = None \<or> \<not> mem")
      case True
      have "timer_execute mem created st = Some (No_wake, ?st)"
      proof (cases "handler n = None")
        case False
        then have "\<not> mem" using True by argo
        then show ?thesis using start False push_refused [of ?st "handler n" "handler_arg n"] unl by simp
      qed (simp add: start)
      moreover have "spec_expire mem created a = a\<lparr>queue := entries (nodes st) bs\<rparr>" "expire_wake mem created a = No_wake"
        using True q co by (auto simp: spec_expire_def expire_wake_def)
      ultimately show ?thesis using implementsI [OF ok1 v1] by simp
    next
      case False
      then have mem: "mem" "handler n \<noteq> None" by simp_all
      obtain st2 :: "('a, 'b) timerlib" and ps' where add: "add_timeout_list mem (handler n) (handler_arg n) ?st = Some (0, st2)"
        and ok2: "timers_ok st2 bs ps' rs" and v2: "view st2 bs ps' = a\<lparr>queue := entries (nodes st) bs, due := call_of (entry n) # due a\<rparr>"
        using push_ok [OF ok1 mem(2), of "handler_arg n"] mem(1) v1 co by auto
      have unl2: "\<not> q_locked st2" "\<not> p_locked st2" and lok2: "lists_ok st2 bs ps' rs" using ok2 by (simp_all add: timers_ok_def)
      have on: "timeout_thread_is_on st2 = thread_on a" using view_fields [OF v2] by simp
      let ?st2 = "st2\<lparr>timeout_thread_is_on := thread_on a \<or> created, p_locked := False\<rparr>"
      have "timer_execute mem created st = Some (expire_wake mem created a, ?st2)"
        unfolding start using mem add unl2 on q co
        by (auto simp: wake_thread_def lock_p_def unlock_p_def expire_wake_def intro!: timerlib.equality)
      moreover have "implements rs ?st2 (spec_expire mem created a)"
        by (rule implementsI [of _ bs ps']) (use lok2 unl2 v2 mem q co in \<open>auto simp: timers_ok_def spec_expire_def\<close>)
      ultimately show ?thesis by blast
    qed
  qed
qed

section \<open>The expired timers\<close>

lemma count_nodes_chain:
  "chain (nodes st) p ps None \<Longrightarrow> count_nodes st c (first_or None ps) = Some (c + int (length ps))"
proof (induction ps arbitrary: p c)
  case Nil
  show ?case by (subst count_nodes.simps) simp
next
  case (Cons a ps)
  then show ?case by (subst count_nodes.simps) auto
qed

lemma same_locks: "\<not> p_locked st \<Longrightarrow> st\<lparr>p_locked := False\<rparr> = st" "\<not> q_locked st \<Longrightarrow> st\<lparr>q_locked := False\<rparr> = st"
  by (auto intro!: timerlib.equality)

lemma pending_count:
  assumes i: "implements rs st a"
  shows "get_pending_list_count st = Some (int (length (due a)), st)"
proof -
  obtain qs ps where ok: "timers_ok st qs ps rs" and v: "view st qs ps = a" using i by (rule implementsE)
  have unl: "\<not> p_locked st" and d: "dll (nodes st) (p_first st) (p_last st) ps"
    using ok by (simp_all add: timers_ok_def lists_ok_def)
  have "chain (nodes (st\<lparr>p_locked := True\<rparr>)) None ps None" using d by (simp add: dll_def)
  from count_nodes_chain [OF this, of 0] have "count_nodes (st\<lparr>p_locked := True\<rparr>) 0 (p_first st) = Some (int (length ps))"
    using d by (simp add: dll_def)
  then have "get_pending_list_count st = Some (int (length ps), st\<lparr>p_locked := False\<rparr>)"
    using unl by (simp add: get_pending_list_count_def lock_p_def unlock_p_def)
  then show ?thesis using view_fields [OF v] by (simp only: same_locks(1) [OF unl]) simp
qed

lemma pending_none:
  assumes i: "implements rs st a" and "due a = []"
  shows "get_pending_list st = Some (None, st)"
proof -
  obtain qs ps where ok: "timers_ok st qs ps rs" and v: "view st qs ps = a" using i by (rule implementsE)
  have "ps = []" using view_fields [OF v] assms(2) by (cases ps) auto
  then have "p_last st = None" and unl: "\<not> p_locked st" using ok by (simp_all add: timers_ok_def lists_ok_def dll_def)
  then have "get_pending_list st = Some (None, st\<lparr>p_locked := False\<rparr>)"
    by (simp add: get_pending_list_def lock_p_def unlock_p_def)
  then show ?thesis by (simp only: same_locks(1) [OF unl])
qed

lemma pending_taken:
  assumes i: "implements rs st a" and du: "due a = ds @ [c]"
  shows "\<exists>l st' n. get_pending_list st = Some (Some l, st') \<and> implements (insert l rs) st' (a\<lparr>due := ds\<rparr>) \<and>
    l \<notin> rs \<and> nodes st' l = Some n \<and> (handler n, handler_arg n) = c \<and> handler n \<noteq> None"
proof -
  obtain qs ps where ok: "timers_ok st qs ps rs" and v: "view st qs ps = a" using i by (rule implementsE)
  have unl: "\<not> p_locked st" "\<not> q_locked st" and lok: "lists_ok st qs ps rs" using ok by (simp_all add: timers_ok_def)
  have "map call_of (entries (nodes st) ps) = ds @ [c]" using view_fields [OF v] du by simp
  then obtain ps' l where ps: "ps = ps' @ [l]" and ds: "map call_of (entries (nodes st) ps') = ds"
      and c: "call_of (entry (the (nodes st l))) = c" by (cases ps rule: rev_cases) auto
  have d: "dll (nodes st) (p_first st) (p_last st) (ps' @ [l])" and dist: "l \<notin> set ps'" "distinct ps'" "l \<notin> set qs" "l \<notin> rs"
    using lok ps by (auto simp: lists_ok_def dll_def)
  then obtain n :: "('a, 'b) tl_timer" where n: "nodes st l = Some n" "prev_of n = last_or None ps'"
    and ch: "chain (nodes st) None ps' (Some l)" by (auto simp: dll_def chain_append)
  let ?h = "set_next (last_or None ps') None (nodes st)"
  let ?st = "st\<lparr>nodes := ?h, p_first := first_or None ps', p_last := last_or None ps'\<rparr>"
  have l: "p_last st = Some l" using d by (simp add: dll_def)
  have run: "get_pending_list st = Some (Some l, ?st)"
  proof (cases ps' rule: rev_cases)
    case Nil
    then show ?thesis using l n unl
      by (auto simp: get_pending_list_def lock_p_def unlock_p_def intro!: timerlib.equality)
  next
    case (snoc ps'' p)
    have "nodes st p \<noteq> None" using chain_lookup [OF ch, of p] snoc by auto
    moreover have "p_first st = first_or None ps'" using d snoc by (cases ps'') (simp_all add: dll_def)
    ultimately show ?thesis using l n unl snoc
      by (auto simp: get_pending_list_def lock_p_def unlock_p_def upd_links intro!: timerlib.equality)
  qed
  have ent: "entries ?h xs = entries (nodes st) xs" if "set xs \<subseteq> set qs \<union> set ps" for xs
    by (rule entries_cong) (use that lok in \<open>auto simp: lists_ok_def\<close>)
  have "set qs \<subseteq> set qs \<union> set ps" "set ps' \<subseteq> set qs \<union> set ps" using ps by auto
  then have ent: "entries ?h qs = entries (nodes st) qs" "entries ?h ps' = entries (nodes st) ps'" by (simp_all only: ent)
  have dom: "dom ?h = dom (nodes st)" by (rule set_eqI) (simp only: domIff set_links_None_iff)
  have "dll ?h (first_or None ps') (last_or None ps') ps'"
    using chain_set_next [OF ch dist(2)] dist by (simp add: dll_def)
  moreover have "dll ?h (q_first st) (q_last st) qs = dll (nodes st) (q_first st) (q_last st) qs"
    by (rule dll_cong, rule set_next_outside) (use lok ps in \<open>auto simp: lists_ok_def\<close>)
  ultimately have "timers_ok ?st qs ps' (insert l rs)"
    using lok unl dom ps dist ent by (auto simp: timers_ok_def lists_ok_def)
  moreover have "view ?st qs ps' = a\<lparr>due := ds\<rparr>"
    using v ds ent ps by (auto simp: view_def)
  ultimately have "implements (insert l rs) ?st (a\<lparr>due := ds\<rparr>)" by (rule implementsI)
  moreover have "nodes ?st l = Some n" using n dist by simp
  moreover have "(handler n, handler_arg n) = c" using c n by (simp add: entry_def)
  moreover have "handler n \<noteq> None" using lok ps n by (auto simp: lists_ok_def entry_def)
  ultimately show ?thesis using run dist(4) by blast
qed

lemma free_taken:
  assumes i: "implements (insert l rs) st a" and l: "l \<notin> rs"
  shows "implements rs (timer_free l st) a"
proof -
  obtain qs ps where ok: "timers_ok st qs ps (insert l rs)" and v: "view st qs ps = a" using i by (rule implementsE)
  have out: "l \<notin> set qs" "l \<notin> set ps" using ok by (auto simp: timers_ok_def lists_ok_def)
  let ?h = "(nodes st)(l := None)"
  have same: "\<And>b. b \<in> set qs \<union> set ps \<Longrightarrow> ?h b = nodes st b" using out by auto
  have ent: "entries ?h qs = entries (nodes st) qs" "entries ?h ps = entries (nodes st) ps"
    using same by (auto simp: entries_def)
  have "dll ?h (q_first st) (q_last st) qs = dll (nodes st) (q_first st) (q_last st) qs"
    by (rule dll_cong) (use same in simp)
  moreover have "dll ?h (p_first st) (p_last st) ps = dll (nodes st) (p_first st) (p_last st) ps"
    by (rule dll_cong) (use same in simp)
  ultimately have "timers_ok (timer_free l st) qs ps rs"
    using ok ent l out by (auto simp: timers_ok_def lists_ok_def timer_free_def)
  moreover have "view (timer_free l st) qs ps = a" using v ent by (auto simp: view_def timer_free_def)
  ultimately show ?thesis by (rule implementsI)
qed

definition spec_run :: "('h, 'a) timers \<Rightarrow> ('h \<times> 'a option) option \<times> ('h, 'a) timers" where
  "spec_run a = (if due a = [] then (None, a)
     else (Some (the (fst (last (due a))), snd (last (due a))), a\<lparr>due := butlast (due a)\<rparr>))"

lemma run_pending_implements:
  assumes i: "implements rs st a"
  shows "\<exists>st'. run_pending st = Some (fst (spec_run a), st') \<and> implements rs st' (snd (spec_run a))"
proof (cases "due a" rule: rev_cases)
  case Nil
  then show ?thesis using pending_none [OF i Nil] i by (simp add: run_pending_def spec_run_def)
next
  case (snoc ds c)
  from pending_taken [OF i snoc] obtain l st' and n :: "('a, 'b) tl_timer"
    where t: "get_pending_list st = Some (Some l, st')" "implements (insert l rs) st' (a\<lparr>due := ds\<rparr>)"
      "l \<notin> rs" "nodes st' l = Some n" "(handler n, handler_arg n) = c" "handler n \<noteq> None" by blast
  then have "run_pending st = Some (Some (the (fst c), snd c), timer_free l st')"
    by (auto simp: run_pending_def)
  then show ?thesis using free_taken [OF t(2,3)] snoc by (simp add: spec_run_def)
qed

end
