(* ===== verification/Timer_Run.thy ===== *)
theory Timer_Run
  imports Timer_Spec "HOL-Library.Multiset"
begin

text \<open>
  Runs of the timer library: turns of the server thread interleaved with the thread that counts expired
  timers, runs their handlers and gives up when idle, which holds at most one node outside the lists at a time. A run
  does what the same run of the abstract timers does, follows no null or dangling pointer, keeps
  its mutexes paired and leaks no node. The queue and the expired timers together are a queue
  ordered by deadlines (locale \<open>deadline_queue\<close>).
\<close>

section \<open>A server turn\<close>

text \<open>The requests the clients of the library send: \<open>timer_add\<close> refuses the times that lie in the
  past before it sends, and \<open>malloc\<close> succeeds. \<open>timer_destroy\<close> ends the server thread.\<close>

definition served :: "bool \<Rightarrow> ('h, 'a) arrival \<Rightarrow> bool" where
  "served mem arr = (case arr of Request msg \<Rightarrow>
     (action msg = e_ACTION_TYPY_ADD \<longrightarrow> mem \<and> \<not> in_past (timeout msg)) \<and> action msg \<noteq> e_ACTION_TYPY_DESTRORY | _ \<Rightarrow> True)"

definition spec_turn :: "bool \<Rightarrow> bool \<Rightarrow> timeval \<Rightarrow> ('h, 'a) arrival \<Rightarrow> ('h, 'a) timers \<Rightarrow> ('h, 'a) timers" where
  "spec_turn mem created now arr a = (case arr of
     Accept_timeout \<Rightarrow> spec_expire mem created a
   | Request msg \<Rightarrow> (case action msg of
        e_ACTION_TYPY_ADD \<Rightarrow> spec_add now (timeout msg) (handler msg) (handler_arg msg) a
      | e_ACTION_TYPY_DEL \<Rightarrow> if id_of msg = -1 then a else spec_remove (id_of msg) (handler msg) a
      | e_ACTION_TYPY_DEL_ALL \<Rightarrow> a\<lparr>queue := []\<rparr>
      | _ \<Rightarrow> a)
   | _ \<Rightarrow> a)"

definition spec_rest :: "timeval \<Rightarrow> ('h, 'a) timers \<Rightarrow> timeval option" where
  "spec_rest now a = (case queue a of [] \<Rightarrow> None
   | e # _ \<Rightarrow> Some (if now < deadline e then TV_MINUS (deadline e) now else Timeval 0 ALMOST_NOW))"

lemma rest_implements:
  assumes i: "implements rs st a"
  shows "get_rest_time now st = Some (spec_rest now a)"
proof -
  obtain qs ps where ok: "timers_ok st qs ps rs" and v: "view st qs ps = a" using i by (rule implementsE)
  have d: "dll (nodes st) (q_first st) (q_last st) qs" using ok by (simp add: timers_ok_def lists_ok_def)
  show ?thesis
  proof (cases qs)
    case Nil
    then show ?thesis using d view_fields [OF v] by (simp add: get_rest_time_def spec_rest_def dll_def)
  next
    case (Cons t bs)
    then obtain n :: "('a, 'b) tl_timer" where "nodes st t = Some n" "q_first st = Some t" using d by (auto simp: dll_def)
    then show ?thesis using Cons view_fields [OF v]
      by (simp add: get_rest_time_def spec_rest_def entry_def less_timeval_def)
  qed
qed

lemma handle_msg_implements:
  assumes i: "implements rs st a" and s: "served mem (Request msg)"
  shows "\<exists>st' r msg'. handle_msg mem now msg st = Some (r, msg', st') \<and> implements rs st' (spec_turn mem c now (Request msg) a)"
proof (cases "action msg")
  case e_ACTION_TYPY_ADD
  then show ?thesis using s add_timernode_implements [OF i, of msg now] by (auto simp: served_def handle_msg_def spec_turn_def)
next
  case e_ACTION_TYPY_DEL
  show ?thesis
  proof (cases "id_of msg = -1")
    case True
    then show ?thesis using e_ACTION_TYPY_DEL i by (simp add: handle_msg_def spec_turn_def del_timernode_from_list_def)
  next
    case False
    from del_timernode_implements [OF i False] e_ACTION_TYPY_DEL False show ?thesis
      by (auto simp: handle_msg_def spec_turn_def)
  qed
next
  case e_ACTION_TYPY_DEL_ALL
  then show ?thesis using del_all_implements [OF i, of False] by (auto simp: handle_msg_def spec_turn_def)
next
  case e_ACTION_TYPY_DESTRORY
  then show ?thesis using s by (simp add: served_def)
next
  case e_ACTION_TYPY_MAX
  then show ?thesis using i by (simp add: handle_msg_def spec_turn_def)
qed

lemma turn_implements:
  assumes i: "implements rs st a" and s: "served mem arr"
  shows "\<exists>st'. timer_server_turn mem created now arr st = Some (spec_rest now (spec_turn mem created now arr a), st') \<and>
    implements rs st' (spec_turn mem created now arr a)"
proof -
  have "\<exists>st'. (case arr of
      Accept_timeout \<Rightarrow> map_option snd (timer_execute mem created st)
    | Accept_failed \<Rightarrow> Some st
    | Receive_failed \<Rightarrow> map_option snd (handle_proc_req mem now None st)
    | Request msg \<Rightarrow> map_option snd (handle_proc_req mem now (Some msg) st)) = Some st' \<and>
    implements rs st' (spec_turn mem created now arr a)"
  proof (cases arr)
    case Accept_timeout
    then show ?thesis using timer_execute_implements [OF i, of mem created] by (auto simp: spec_turn_def)
  next
    case (Request msg)
    then show ?thesis using handle_msg_implements [OF i, of mem msg now created] s by (auto simp: handle_proc_req_def)
  qed (use i in \<open>auto simp: spec_turn_def handle_proc_req_def\<close>)
  then show ?thesis using rest_implements by (fastforce simp: timer_server_turn_def)
qed

section \<open>Runs\<close>

lemma wait_ends:
  assumes "implements rs st a"
  shows "\<exists>st'. wait_timed_out st = Some st' \<and> implements rs st' (a\<lparr>thread_on := False\<rparr>)"
proof -
  obtain qs ps where ok: "timers_ok st qs ps rs" "view st qs ps = a" using assms by (rule implementsE)
  let ?st = "st\<lparr>timeout_thread_is_on := False, p_locked := False\<rparr>"
  have "wait_timed_out st = Some ?st"
    using ok(1) by (auto simp: wait_timed_out_def lock_p_def unlock_p_def timers_ok_def intro!: timerlib.equality)
  moreover have "implements rs ?st (a\<lparr>thread_on := False\<rparr>)"
    by (rule implementsI [of _ qs ps]) (use ok in \<open>auto simp: timers_ok_def view_def\<close>)
  ultimately show ?thesis by blast
qed

lemma waite_interval:
  assumes "implements rs st a"
  shows "\<exists>i. get_waite_interval now st = Some (i, st) \<and> 0 \<le> i \<and> i \<le> 600"
proof -
  obtain qs ps where ok: "timers_ok st qs ps rs" using assms by (rule implementsE)
  have unl: "\<not> q_locked st" and d: "dll (nodes st) (q_first st) (q_last st) qs"
    using ok by (simp_all add: timers_ok_def lists_ok_def)
  have "\<exists>n. nodes st l = Some n" if "q_last st = Some l" for l
    using d that chain_lookup last_or_mem unfolding dll_def by metis
  then have "\<exists>i. get_waite_interval now st = Some (i, st\<lparr>q_locked := False\<rparr>) \<and> 0 \<le> i \<and> i \<le> 600"
    using unl by (cases "q_last st") (auto simp: get_waite_interval_def lock_q_def unlock_q_def Let_def)
  then show ?thesis by (simp only: same_locks(2) [OF unl])
qed

text \<open>\<open>time_out_task\<close> in four parts: \<open>Count\<close> looks for expired timers and works out how long to wait when
  there is none; \<open>Give_up\<close> is a wait that ran out; \<open>Take\<close> and \<open>Ran\<close> are the two halves of running a
  handler: the node is taken out of the list and its handler called; then the node is freed. The calls
  are logged. The parts may come in any order, which includes the orders of the code.\<close>

datatype ('h, 'a) event = Turn bool bool timeval "('h, 'a) arrival" | Count timeval | Give_up | Take | Ran

type_synonym ('h, 'a) lib_run = "('h, 'a) timerlib \<times> nat option \<times> ('h \<times> 'a option) list"
type_synonym ('h, 'a) spec_state = "('h, 'a) timers \<times> bool \<times> ('h \<times> 'a option) list"

fun timer_event :: "('h, 'a) event \<Rightarrow> ('h, 'a) lib_run \<Rightarrow> ('h, 'a) lib_run option" where
  "timer_event (Turn mem created now arr) (st, r, calls) =
     do { (_, st) \<leftarrow> timer_server_turn mem created now arr st; Some (st, r, calls) }"
| "timer_event (Count time) (st, r, calls) = do {
     (n, st) \<leftarrow> get_pending_list_count st;
     if n = 0 then do { (_, st) \<leftarrow> get_waite_interval time st; Some (st, r, calls) } else Some (st, r, calls) }"
| "timer_event Give_up (st, r, calls) = do { st \<leftarrow> wait_timed_out st; Some (st, r, calls) }"
| "timer_event Take (st, None, calls) = do {
     (p, st) \<leftarrow> get_pending_list st;
     case p of None \<Rightarrow> Some (st, None, calls)
     | Some l \<Rightarrow> do {
         n \<leftarrow> nodes st l;
         case handler n of None \<Rightarrow> Some (st, None, calls)
         | Some h \<Rightarrow> Some (st, Some l, calls @ [(h, handler_arg n)]) } }"
| "timer_event Take (st, Some l, calls) = Some (st, Some l, calls)"
| "timer_event Ran (st, None, calls) = Some (st, None, calls)"
| "timer_event Ran (st, Some l, calls) = do { _ \<leftarrow> nodes st l; Some (timer_free l st, None, calls) }"

fun timer_events :: "('h, 'a) event list \<Rightarrow> ('h, 'a) lib_run \<Rightarrow> ('h, 'a) lib_run option" where
  "timer_events [] s = Some s"
| "timer_events (e # es) s = Option.bind (timer_event e s) (timer_events es)"

fun spec_event :: "('h, 'a) event \<Rightarrow> ('h, 'a) spec_state \<Rightarrow> ('h, 'a) spec_state" where
  "spec_event (Turn mem created now arr) (a, b, calls) = (spec_turn mem created now arr a, b, calls)"
| "spec_event (Count time) t = t"
| "spec_event Give_up (a, b, calls) = (a\<lparr>thread_on := False\<rparr>, b, calls)"
| "spec_event Take (a, b, calls) =
     (if b \<or> due a = [] then (a, b, calls)
      else (snd (spec_run a), True, calls @ [the (fst (spec_run a))]))"
| "spec_event Ran (a, b, calls) = (a, False, calls)"

fun proper :: "('h, 'a) event \<Rightarrow> bool" where
  "proper (Turn mem created now arr) = served mem arr"
| "proper e = True"

definition run_matches :: "('h, 'a) lib_run \<Rightarrow> ('h, 'a) spec_state \<Rightarrow> bool" where
  "run_matches s t = (case (s, t) of ((st, r, calls), (a, b, calls')) \<Rightarrow>
     implements (set_option r) st a \<and> b = (r \<noteq> None) \<and> calls = calls')"

lemma event_matches:
  assumes m: "run_matches s t" and p: "proper e"
  shows "\<exists>s'. timer_event e s = Some s' \<and> run_matches s' (spec_event e t)"
proof -
  obtain st r calls a where s: "s = (st, r, calls)" "t = (a, r \<noteq> None, calls)" and i: "implements (set_option r) st a"
    using m by (auto simp: run_matches_def split: prod.splits)
  show ?thesis
  proof (cases e)
    case (Turn mem created now arr)
    then show ?thesis using turn_implements [OF i, of mem arr created now] p by (auto simp: s run_matches_def)
  next
    case (Count time)
    obtain n where "get_waite_interval time st = Some (n, st)" using waite_interval [OF i] by blast
    then show ?thesis using Count pending_count [OF i] i by (simp add: s run_matches_def)
  next
    case Give_up
    then show ?thesis using wait_ends [OF i] by (auto simp: s run_matches_def)
  next
    case Take
    show ?thesis
    proof (cases r)
      case (Some l)
      then show ?thesis using Take i by (simp add: s run_matches_def)
    next
      case None
      then have i0: "implements {} st a" using i by simp
      show ?thesis
      proof (cases "due a" rule: rev_cases)
        case Nil
        then show ?thesis using Take None pending_none [OF i0 Nil] i0 by (simp add: s run_matches_def)
      next
        case (snoc ds c)
        from pending_taken [OF i0 snoc] obtain l st' and n :: "('a, 'b) tl_timer"
          where t: "get_pending_list st = Some (Some l, st')" "implements {l} st' (a\<lparr>due := ds\<rparr>)"
            "nodes st' l = Some n" "(handler n, handler_arg n) = c" "handler n \<noteq> None" by blast
        then show ?thesis using Take None snoc by (auto simp: s run_matches_def spec_run_def)
      qed
    qed
  next
    case Ran
    show ?thesis
    proof (cases r)
      case None
      then show ?thesis using Ran i by (simp add: s run_matches_def)
    next
      case (Some l)
      then have i1: "implements (insert l {}) st a" using i by simp
      then have "\<exists>n. nodes st l = Some n" by (auto simp: implements_def timers_ok_def lists_ok_def dom_def)
      then show ?thesis using Ran Some free_taken [OF i1] by (auto simp: s run_matches_def)
    qed
  qed
qed

lemma events_match:
  "run_matches s t \<Longrightarrow> list_all proper es \<Longrightarrow> \<exists>s'. timer_events es s = Some s' \<and> run_matches s' (fold spec_event es t)"
proof (induction es arbitrary: s t)
  case (Cons e es)
  have p: "proper e" "list_all proper es" using Cons.prems(2) by simp_all
  from event_matches [OF Cons.prems(1) p(1)] obtain s' where s': "timer_event e s = Some s'" "run_matches s' (spec_event e t)" by blast
  show ?case using Cons.IH [OF s'(2) p(2)] s'(1) by simp
qed simp

definition no_timers :: "('h, 'a) timers" where
  "no_timers = \<lparr>queue = [], due = [], next_timer = 0, thread_on = False, args_freed = []\<rparr>"

lemma start_matches: "run_matches (timer_init, None, []) (no_timers, False, [])"
  using timer_init_implements by (simp add: run_matches_def no_timers_def)

section \<open>Handlers run at most once\<close>

fun requested :: "('h, 'a) event \<Rightarrow> ('h option \<times> 'a option) list" where
  "requested (Turn mem created now (Request msg)) = (if action msg = e_ACTION_TYPY_ADD then [(handler msg, handler_arg msg)] else [])"
| "requested e = []"

definition outstanding :: "('h, 'a) spec_state \<Rightarrow> ('h option \<times> 'a option) multiset" where
  "outstanding t = (case t of (a, b, calls) \<Rightarrow>
     mset (map call_of (queue a)) + mset (due a) + mset (map (\<lambda>(h, x). (Some h, x)) calls))"

definition due_callable :: "('h, 'a) spec_state \<Rightarrow> bool" where
  "due_callable t = (case t of (a, b, calls) \<Rightarrow> \<forall>c \<in> set (due a). fst c \<noteq> None)"

lemma mset_enqueue: "mset (enqueue e q) = add_mset e (mset q)"
  by (induction q) auto

lemma mset_remove_id: "mset (remove_id i q) \<subseteq># mset q"
  by (induction q) (auto intro: subset_mset.order_trans)

lemma event_outstanding:
  assumes "due_callable t"
  shows "due_callable (spec_event e t) \<and> outstanding (spec_event e t) \<subseteq># outstanding t + mset (requested e)"
proof -
  obtain a b calls where t: "t = (a, b, calls)" by (cases t)
  have d: "\<forall>c \<in> set (due a). fst c \<noteq> None" using assms by (simp add: due_callable_def t)
  show ?thesis
  proof (cases e)
    case (Turn mem created now arr)
    show ?thesis
    proof (cases arr)
      case Accept_timeout
      then show ?thesis using Turn d
        by (cases "queue a") (auto simp: t due_callable_def outstanding_def spec_turn_def spec_expire_def)
    next
      case (Request msg)
      have "mset (map call_of (remove_id (id_of msg) (queue a))) \<subseteq># mset (map call_of (queue a))"
        using image_mset_subseteq_mono [OF mset_remove_id] by (simp add: image_mset.comp)
      then show ?thesis using Turn Request d
        by (cases "action msg")
          (auto simp: t due_callable_def outstanding_def spec_turn_def spec_add_def spec_remove_def mset_enqueue
            split: list.split)
    qed (use Turn d in \<open>simp_all add: t due_callable_def outstanding_def spec_turn_def\<close>)
  next
    case Take
    then show ?thesis using d
      by (cases "due a" rule: rev_cases) (auto simp: t due_callable_def outstanding_def spec_run_def)
  next
    case Ran
    then show ?thesis using d by (simp add: t due_callable_def outstanding_def)
  qed (use d in \<open>simp_all add: t due_callable_def outstanding_def\<close>)
qed

lemma events_outstanding:
  "due_callable t \<Longrightarrow> outstanding (fold spec_event es t) \<subseteq># outstanding t + mset (concat (map requested es))"
proof (induction es arbitrary: t)
  case (Cons e es)
  have "outstanding (fold spec_event es (spec_event e t)) \<subseteq># outstanding (spec_event e t) + mset (concat (map requested es))"
    using Cons event_outstanding by blast
  also have "\<dots> \<subseteq># (outstanding t + mset (requested e)) + mset (concat (map requested es))"
    using event_outstanding [OF Cons.prems] by simp
  finally show ?case by (simp add: ac_simps)
qed simp

section \<open>Queues ordered by deadlines\<close>

definition stable_insert :: "('e \<Rightarrow> 'k :: linorder) \<Rightarrow> 'e \<Rightarrow> 'e list \<Rightarrow> 'e list" where
  "stable_insert f e q = takeWhile (\<lambda>x. \<not> f e < f x) q @ e # dropWhile (\<lambda>x. \<not> f e < f x) q"

lemma stable_insert_simps [simp]:
  "stable_insert f e [] = [e]"
  "stable_insert f e (x # q) = (if f e < f x then e # x # q else x # stable_insert f e q)"
  by (simp_all add: stable_insert_def)

lemma stable_insert_map: "map g (stable_insert (\<lambda>x. f (g x)) e q) = stable_insert f (g e) (map g q)"
  by (induction q) auto

lemma enqueue_stable: "enqueue = stable_insert deadline"
  by (intro ext) (simp add: enqueue_def stable_insert_def)

lemma mset_stable_insert: "mset (stable_insert f e q) = add_mset e (mset q)"
  by (induction q) auto

lemma stable_insert_sorted: "sorted (map f q) \<Longrightarrow> sorted (map f (stable_insert f e q))"
proof (induction q)
  case (Cons x q)
  have "set (stable_insert f e q) = insert e (set q)" by (induction q) auto
  then show ?case using Cons by (auto simp del: split_paired_All)
qed simp

lemma stable_insert_filter:
  "sorted (map f q) \<Longrightarrow> filter (\<lambda>x. f x = k) (stable_insert f e q) = filter (\<lambda>x. f x = k) (q @ [e])"
proof (induction q)
  case (Cons x q)
  show ?case
  proof (cases "f e < f x")
    case True
    then have "f e = k \<Longrightarrow> filter (\<lambda>y. f y = k) (x # q) = []"
      using Cons.prems by (auto simp: filter_empty_conv)
    then show ?thesis using True by auto
  qed (use Cons in auto)
qed simp

lemma sort_key_snoc: "sort_key f (xs @ [e]) = stable_insert f e (sort_key f xs)"
proof (rule properties_for_sort_key)
  fix k assume "k \<in> set (stable_insert f e (sort_key f xs))"
  have s: "sorted (map f (sort_key f xs))" by simp
  show "filter (\<lambda>x. f k = f x) (stable_insert f e (sort_key f xs)) = filter (\<lambda>x. f k = f x) (xs @ [e])"
    using stable_insert_filter [OF s, of "f k" e] sort_key_stable [of f "f k" xs] by (simp add: eq_commute)
qed (simp_all add: mset_stable_insert stable_insert_sorted)

fun put_all :: "('e \<Rightarrow> 's \<Rightarrow> 's option) \<Rightarrow> 'e list \<Rightarrow> 's \<Rightarrow> 's option" where
  "put_all put [] s = Some s"
| "put_all put (e # es) s = Option.bind (put e s) (put_all put es)"

fun take_all :: "('s \<Rightarrow> ('o option \<times> 's) option) \<Rightarrow> nat \<Rightarrow> 's \<Rightarrow> ('o option list \<times> 's) option" where
  "take_all get 0 s = Some ([], s)"
| "take_all get (Suc n) s = do { (x, s) \<leftarrow> get s; (xs, s) \<leftarrow> take_all get n s; Some (x # xs, s) }"

text \<open>The contract: a queue that holds \<open>q\<close> takes a new element after those not later than it, and
  gives its elements back from the front. Filling an empty queue and emptying it sorts the elements by their
  keys, those of equal keys in the order they came in.\<close>

locale deadline_queue =
  fixes holds :: "'s \<Rightarrow> 'e list \<Rightarrow> bool"
    and put :: "'e \<Rightarrow> 's \<Rightarrow> 's option"
    and get :: "'s \<Rightarrow> ('o option \<times> 's) option"
    and key :: "'e \<Rightarrow> 'k :: linorder"
    and out :: "'e \<Rightarrow> 'o"
    and valid :: "'e \<Rightarrow> bool"
  assumes put_law: "holds s q \<Longrightarrow> valid e \<Longrightarrow> \<exists>s'. put e s = Some s' \<and> holds s' (stable_insert key e q)"
    and get_law: "holds s (e # q) \<Longrightarrow> \<exists>s'. get s = Some (Some (out e), s') \<and> holds s' q"
begin

lemma put_all_sorts:
  "holds s (sort_key key xs) \<Longrightarrow> \<forall>e \<in> set es. valid e \<Longrightarrow>
     \<exists>s'. put_all put es s = Some s' \<and> holds s' (sort_key key (xs @ es))"
proof (induction es arbitrary: s xs)
  case (Cons e es)
  from put_law [OF Cons.prems(1)] Cons.prems(2) obtain s1 where s1: "put e s = Some s1"
      "holds s1 (sort_key key (xs @ [e]))" by (auto simp: sort_key_snoc)
  from Cons.IH [OF s1(2)] Cons.prems(2) show ?case by (auto simp: s1(1))
qed auto

lemma take_all_front:
  "holds s q \<Longrightarrow> \<exists>s'. take_all get (length q) s = Some (map (\<lambda>e. Some (out e)) q, s') \<and> holds s' []"
proof (induction q arbitrary: s)
  case (Cons e q)
  from get_law [OF Cons.prems] obtain s1 where "get s = Some (Some (out e), s1)" "holds s1 q" by blast
  with Cons.IH [OF this(2)] show ?case by auto
qed auto

lemma served_in_order:
  assumes "holds s []" "\<forall>e \<in> set es. valid e"
  shows "\<exists>s1 s2. put_all put es s = Some s1 \<and>
    take_all get (length es) s1 = Some (map (\<lambda>e. Some (out e)) (sort_key key es), s2) \<and> holds s2 []"
  using put_all_sorts [of s "[]" es] take_all_front assms by force

end

text \<open>The library is such a queue: the timers are added with \<open>timer_add\<close>; taking one is a turn of the
  server after \<open>accept\<close> timed out, and the thread of expired timers running the handler.\<close>

type_synonym ('h, 'a) request = "timeval \<times> timeval \<times> 'h \<times> 'a option"

definition add_request :: "('h, 'a) request \<Rightarrow> ('h, 'a) timerlib \<Rightarrow> ('h, 'a) timerlib option" where
  "add_request e st = (case e of (now, d, h, x) \<Rightarrow>
     map_option snd (timer_add Answered True now (tv_sec d) (tv_usec d) (Some h) x st))"

definition run_next :: "('h, 'a) timerlib \<Rightarrow> (('h \<times> 'a option) option \<times> ('h, 'a) timerlib) option" where
  "run_next st = do { (_, st) \<leftarrow> timer_execute True True st; run_pending st }"

definition due_time :: "('h, 'a) request \<Rightarrow> timeval" where
  "due_time e = (case e of (now, d, h, x) \<Rightarrow> abs_time now d)"

definition the_call :: "('h, 'a) request \<Rightarrow> 'h \<times> 'a option" where
  "the_call e = snd (snd e)"

definition in_future :: "('h, 'a) request \<Rightarrow> bool" where
  "in_future e \<longleftrightarrow> \<not> in_past (fst (snd e))"

definition queued :: "('h, 'a) timerlib \<Rightarrow> ('h, 'a) request list \<Rightarrow> bool" where
  "queued st q \<longleftrightarrow> (\<exists>a. implements {} st a \<and> due a = [] \<and>
     map (\<lambda>e. (deadline e, call_of e)) (queue a) = map (\<lambda>e. (due_time e, Some (fst (the_call e)), snd (the_call e))) q)"

lemma timer_add_implements:
  assumes i: "implements rs st a" and d: "\<not> in_past (Timeval sec usec)"
  shows "\<exists>st'. timer_add Answered True now sec usec (Some h) x st = Some (sint (new_id (next_timer a)), st') \<and>
    implements rs st' (spec_add now (Timeval sec usec) (Some h) x a)"
proof -
  let ?m = "zero_timer\<lparr>action := e_ACTION_TYPY_ADD, handler := Some h, handler_arg := x, timeout := Timeval sec usec\<rparr>"
  have t: "timeout ?m = Timeval sec usec" by simp
  from add_timernode_implements [OF i, of ?m now] d show ?thesis
    by (auto simp: timer_add_def send_recv_msg_def handle_proc_req_def handle_msg_def in_past_def)
qed

lemma add_request_queued:
  assumes "queued st q" "in_future e"
  shows "\<exists>st'. add_request e st = Some st' \<and> queued st' (stable_insert due_time e q)"
proof -
  obtain now d h x where e: "e = (now, d, h, x)" by (cases e)
  obtain a where a: "implements {} st a" "due a = []"
    and q: "map (\<lambda>e. (deadline e, call_of e)) (queue a) = map (\<lambda>e. (due_time e, Some (fst (the_call e)), snd (the_call e))) q"
    using assms(1) by (auto simp: queued_def)
  have "\<not> in_past (Timeval (tv_sec d) (tv_usec d))" using assms(2) by (simp add: e in_future_def)
  from timer_add_implements [OF a(1) this] obtain st' where st': "add_request e st = Some st'"
    "implements {} st' (spec_add now d (Some h) x a)" by (fastforce simp: add_request_def e)
  let ?e = "(abs_time now d, new_id (next_timer a), Some h, x)"
  have ev: "(due_time e, Some (fst (the_call e)), snd (the_call e)) = (abs_time now d, Some h, x)"
    by (simp add: e due_time_def the_call_def)
  have "map (\<lambda>e. (deadline e, call_of e)) (stable_insert deadline ?e (queue a)) =
      stable_insert fst (abs_time now d, Some h, x) (map (\<lambda>e. (deadline e, call_of e)) (queue a))"
    using stable_insert_map [of "\<lambda>e. (deadline e, call_of e)" fst ?e "queue a"] by simp
  also have "\<dots> = map (\<lambda>e. (due_time e, Some (fst (the_call e)), snd (the_call e))) (stable_insert due_time e q)"
    unfolding q using stable_insert_map [of "\<lambda>e. (due_time e, Some (fst (the_call e)), snd (the_call e))" fst e q]
    by (simp only: ev fst_conv)
  finally show ?thesis using st' a(2) unfolding queued_def by (auto simp: spec_add_def enqueue_stable)
qed

lemma run_next_queued:
  assumes "queued st (e # q)"
  shows "\<exists>st'. run_next st = Some (Some (the_call e), st') \<and> queued st' q"
proof -
  obtain a x xs where a: "implements {} st a" "due a = []" "queue a = x # xs"
    and x: "call_of x = (Some (fst (the_call e)), snd (the_call e))"
    and q: "map (\<lambda>e. (deadline e, call_of e)) xs = map (\<lambda>e. (due_time e, Some (fst (the_call e)), snd (the_call e))) q"
    using assms by (auto simp: queued_def)
  let ?a1 = "spec_expire True True a"
  have a1: "due ?a1 = [call_of x]" "queue ?a1 = xs" using a x by (simp_all add: spec_expire_def)
  from timer_execute_implements [OF a(1), of True True] obtain st1
    where st1: "timer_execute True True st = Some (expire_wake True True a, st1)" "implements {} st1 ?a1" by blast
  from run_pending_implements [OF st1(2)] obtain st2
    where st2: "run_pending st1 = Some (fst (spec_run ?a1), st2)" "implements {} st2 (snd (spec_run ?a1))" by blast
  have "queued st2 q"
    unfolding queued_def by (rule exI [of _ "snd (spec_run ?a1)"]) (use st2(2) a1 q in \<open>simp add: spec_run_def\<close>)
  then show ?thesis using st1 st2 a1 x by (simp add: run_next_def spec_run_def)
qed

interpretation dq: deadline_queue queued add_request run_next due_time the_call in_future
  by unfold_locales (rule add_request_queued run_next_queued; assumption)+

lemma nothing_queued: "queued timer_init []"
  unfolding queued_def using timer_init_implements by fastforce

lemma timers_served:
  "\<forall>e \<in> set es. in_future e \<Longrightarrow> \<exists>s1 s2. put_all add_request es timer_init = Some s1 \<and>
    take_all run_next (length es) s1 = Some (map (\<lambda>e. Some (the_call e)) (sort_key due_time es), s2) \<and> queued s2 []"
  by (rule dq.served_in_order [OF nothing_queued])

section \<open>No leak\<close>

lemma implements_card:
  assumes "implements rs st a" "finite rs"
  shows "card (dom (nodes st)) = length (queue a) + length (due a) + card rs"
proof -
  obtain qs ps where ok: "timers_ok st qs ps rs" and v: "view st qs ps = a" using assms(1) by (rule implementsE)
  have d: "distinct qs" "distinct ps" "set qs \<inter> set ps = {}" "rs \<inter> (set qs \<union> set ps) = {}" "dom (nodes st) = set qs \<union> set ps \<union> rs"
    using ok by (simp_all add: timers_ok_def lists_ok_def dll_def)
  have "card (dom (nodes st)) = card (set qs \<union> set ps) + card rs"
    unfolding d(5) using d(4) assms(2) by (subst card_Un_disjoint) auto
  also have "card (set qs \<union> set ps) = length qs + length ps"
    using d by (subst card_Un_disjoint) (auto simp: distinct_card)
  finally show ?thesis using view_fields [OF v] by simp
qed

lemma events_refine:
  assumes "list_all proper es"
  shows "\<exists>st r calls a. timer_events es (timer_init, None, []) = Some (st, r, calls) \<and>
    fold spec_event es (no_timers, False, []) = (a, r \<noteq> None, calls) \<and> implements (set_option r) st a \<and>
    card (dom (nodes st)) = length (queue a) + length (due a) + (if r = None then 0 else 1)"
proof -
  from events_match [OF start_matches assms] obtain st r calls where
    run: "timer_events es (timer_init, None, []) = Some (st, r, calls)"
    and m: "run_matches (st, r, calls) (fold spec_event es (no_timers, False, []))" by (metis prod_cases3)
  obtain a where a: "fold spec_event es (no_timers, False, []) = (a, r \<noteq> None, calls)" "implements (set_option r) st a"
    using m by (auto simp: run_matches_def split: prod.splits)
  have "card (dom (nodes st)) = length (queue a) + length (due a) + (if r = None then 0 else 1)"
    using implements_card [OF a(2)] by (cases r) simp_all
  then show ?thesis using run a by blast
qed

lemma calls_requested:
  assumes "list_all proper es" "timer_events es (timer_init, None, []) = Some (st, r, calls)"
  shows "mset (map (\<lambda>(h, x). (Some h, x)) calls) \<subseteq># mset (concat (map requested es))"
proof -
  obtain a where a: "fold spec_event es (no_timers, False, []) = (a, r \<noteq> None, calls)"
    using events_refine [OF assms(1)] assms(2) by auto
  have "outstanding (fold spec_event es (no_timers, False, [])) \<subseteq># outstanding (no_timers, False, []) + mset (concat (map requested es))"
    by (rule events_outstanding) (simp add: due_callable_def no_timers_def)
  then have "mset (map call_of (queue a)) + mset (due a) + mset (map (\<lambda>(h, x). (Some h, x)) calls) \<subseteq># mset (concat (map requested es))"
    unfolding a by (simp add: outstanding_def no_timers_def)
  then show ?thesis using subset_mset.order_trans [OF mset_subset_eq_add_right] by blast
qed

section \<open>The rest of the time\<close>

definition micros :: "timeval \<Rightarrow> int" where
  "micros t = tv_sec t * MICRO_PER_SEC + tv_usec t"

definition normal_time :: "timeval \<Rightarrow> bool" where
  "normal_time t \<longleftrightarrow> 0 \<le> tv_usec t \<and> tv_usec t \<le> MAX_USEC"

lemma micros_less: "normal_time t1 \<Longrightarrow> normal_time t2 \<Longrightarrow> t1 < t2 \<longleftrightarrow> micros t1 < micros t2"
  by (auto simp: less_timeval_def TV_LESS_THAN_def micros_def normal_time_def MICRO_PER_SEC_def MAX_USEC_def)

lemma abs_time_normal: "normal_time (abs_time now d)"
proof -
  have "(tv_usec now + tv_usec d) mod 1000000 < 1000000" by simp
  then show ?thesis by (simp add: normal_time_def abs_time_def MICRO_PER_SEC_def MAX_USEC_def)
qed

lemma abs_time_micros: "micros (abs_time now d) = micros now + micros d"
proof -
  have "(tv_usec now + tv_usec d) div 1000000 * 1000000 + (tv_usec now + tv_usec d) mod 1000000 = tv_usec now + tv_usec d"
    by (rule div_mult_mod_eq)
  then show ?thesis by (simp add: abs_time_def micros_def MICRO_PER_SEC_def algebra_simps)
qed

lemma rest_bounds:
  assumes i: "implements rs st a" and q: "queue a = e # q" and n: "normal_time now" "normal_time (deadline e)"
  shows "\<exists>r. get_rest_time now st = Some (Some r) \<and> normal_time r \<and> 0 \<le> tv_sec r \<and>
    (if micros now < micros (deadline e)
     then micros r = micros (deadline e) - micros now - (if tv_usec (deadline e) < tv_usec now then 1 else 0)
     else micros r = 1000)"
proof (cases "now < deadline e")
  case True
  have "get_rest_time now st = Some (Some (TV_MINUS (deadline e) now))"
    using rest_implements [OF i, of now] True by (simp add: spec_rest_def q)
  then show ?thesis using True micros_less [OF n] n
    by (auto simp: TV_MINUS_def micros_def normal_time_def less_timeval_def TV_LESS_THAN_def MICRO_PER_SEC_def MAX_USEC_def
        algebra_simps)
next
  case False
  have "get_rest_time now st = Some (Some (Timeval 0 ALMOST_NOW))"
    using rest_implements [OF i, of now] False by (simp add: spec_rest_def q)
  then show ?thesis using False micros_less [OF n] n
    by (simp add: ALMOST_NOW_def normal_time_def micros_def MAX_USEC_def)
qed

section \<open>A lost wake-up\<close>

text \<open>\<open>time_out_task\<close> counts the expired timers, and only then takes the mutex and waits; the mutex is free
  in between.\<close>

lemma wake_up_missed:
  assumes i: "implements rs st a" and on: "thread_on a" and no: "due a = []" and q: "queue a = e # q" "fst (call_of e) \<noteq> None"
  shows "\<exists>st1 st2. get_pending_list_count st = Some (0, st) \<and> timer_execute True created st = Some (Signalled, st1) \<and>
    wait_timed_out st1 = Some st2 \<and> implements rs st2 (a\<lparr>queue := q, due := [call_of e], thread_on := False\<rparr>)"
proof -
  from timer_execute_implements [OF i, of True created] q on no obtain st1
    where st1: "timer_execute True created st = Some (Signalled, st1)"
      "implements rs st1 (a\<lparr>queue := q, due := [call_of e], thread_on := True\<rparr>)"
    by (auto simp: expire_wake_def spec_expire_def)
  from wait_ends [OF st1(2)] obtain st2 where "wait_timed_out st1 = Some st2"
    "implements rs st2 (a\<lparr>queue := q, due := [call_of e], thread_on := False\<rparr>)" by auto
  then show ?thesis using st1(1) pending_count [OF i] no by auto
qed

section \<open>An example\<close>

definition demo_events :: "(nat, nat) event list" where
  "demo_events =
     [Turn True True (Timeval 5 0) (Request (zero_timer\<lparr>timeout := Timeval 2 0, handler := Some 20, handler_arg := Some 1\<rparr>)),
      Turn True True (Timeval 5 500000) (Request (zero_timer\<lparr>timeout := Timeval 0 700000, handler := Some 30\<rparr>)),
      Turn True True (Timeval 6 200000) Accept_timeout, Take, Ran, Count (Timeval 6 300000)]"

lemma demo_events_proper: "list_all proper demo_events"
  by (simp add: demo_events_def served_def in_past_def zero_timer_def)

lemma demo_events_spec: "\<exists>a. fold spec_event demo_events (no_timers, False, []) = (a, False, [(30, None)]) \<and>
    queue a = [(Timeval 7 0, 0, Some 20, Some 1)] \<and> due a = []"
  by (simp add: demo_events_def spec_turn_def spec_add_def spec_expire_def spec_run_def no_timers_def zero_timer_def
      new_id_def abs_time_def MICRO_PER_SEC_def less_timeval_def TV_LESS_THAN_def)

end
