(* ===== verification/Md5.thy ===== *)
theory Md5
  imports Srv_Prelude
begin

text \<open>
  The digest of md5.cpp, which findpwd.cpp uses for its tokens: the streaming context with
  its 64-byte buffer and its 64-bit counter in two words, and the proof that it computes the
  digest of the padded message block by block, whatever pieces the message is fed in.
\<close>

unbundle bit_operations_syntax

section \<open>The basic functions\<close>

definition F :: "u32 \<Rightarrow> u32 \<Rightarrow> u32 \<Rightarrow> u32" where "F x y z = (x AND y) OR (NOT x AND z)"
definition G :: "u32 \<Rightarrow> u32 \<Rightarrow> u32 \<Rightarrow> u32" where "G x y z = (x AND z) OR (y AND NOT z)"
definition H :: "u32 \<Rightarrow> u32 \<Rightarrow> u32 \<Rightarrow> u32" where "H x y z = x XOR y XOR z"
definition I :: "u32 \<Rightarrow> u32 \<Rightarrow> u32 \<Rightarrow> u32" where "I x y z = y XOR (x OR NOT z)"

definition rotate_left :: "u32 \<Rightarrow> nat \<Rightarrow> u32" where
  "rotate_left x n = push_bit n x OR drop_bit (32 - n) x"

definition FF :: "u32 \<Rightarrow> u32 \<Rightarrow> u32 \<Rightarrow> u32 \<Rightarrow> u32 \<Rightarrow> nat \<Rightarrow> u32 \<Rightarrow> u32" where
  "FF a b c d x s ac = rotate_left (a + F b c d + x + ac) s + b"
definition GG :: "u32 \<Rightarrow> u32 \<Rightarrow> u32 \<Rightarrow> u32 \<Rightarrow> u32 \<Rightarrow> nat \<Rightarrow> u32 \<Rightarrow> u32" where
  "GG a b c d x s ac = rotate_left (a + G b c d + x + ac) s + b"
definition HH :: "u32 \<Rightarrow> u32 \<Rightarrow> u32 \<Rightarrow> u32 \<Rightarrow> u32 \<Rightarrow> nat \<Rightarrow> u32 \<Rightarrow> u32" where
  "HH a b c d x s ac = rotate_left (a + H b c d + x + ac) s + b"
definition II :: "u32 \<Rightarrow> u32 \<Rightarrow> u32 \<Rightarrow> u32 \<Rightarrow> u32 \<Rightarrow> nat \<Rightarrow> u32 \<Rightarrow> u32" where
  "II a b c d x s ac = rotate_left (a + I b c d + x + ac) s + b"

definition S11 :: nat where "S11 = 7"
definition S12 :: nat where "S12 = 12"
definition S13 :: nat where "S13 = 17"
definition S14 :: nat where "S14 = 22"
definition S21 :: nat where "S21 = 5"
definition S22 :: nat where "S22 = 9"
definition S23 :: nat where "S23 = 14"
definition S24 :: nat where "S24 = 20"
definition S31 :: nat where "S31 = 4"
definition S32 :: nat where "S32 = 11"
definition S33 :: nat where "S33 = 16"
definition S34 :: nat where "S34 = 23"
definition S41 :: nat where "S41 = 6"
definition S42 :: nat where "S42 = 10"
definition S43 :: nat where "S43 = 15"
definition S44 :: nat where "S44 = 21"

lemmas shift_defs = S11_def S12_def S13_def S14_def S21_def S22_def S23_def S24_def S31_def S32_def S33_def S34_def S41_def S42_def S43_def S44_def

section \<open>Words and bytes\<close>

text \<open>\<open>decode\<close> and \<open>encode\<close>, both for lengths that are multiples of four.\<close>

fun decode :: "bytes \<Rightarrow> u32 list" where
  "decode (b0 # b1 # b2 # b3 # bs) =
     (ucast b0 OR push_bit 8 (ucast b1) OR push_bit 16 (ucast b2) OR push_bit 24 (ucast b3)) # decode bs"
| "decode _ = []"

definition encode_word :: "u32 \<Rightarrow> bytes" where
  "encode_word w = [ucast (w AND 0xff), ucast (drop_bit 8 w AND 0xff), ucast (drop_bit 16 w AND 0xff),
     ucast (drop_bit 24 w AND 0xff)]"

definition encode :: "u32 list \<Rightarrow> bytes" where
  "encode ws = concat (map encode_word ws)"

section \<open>One block\<close>

type_synonym md5_state = "u32 \<times> u32 \<times> u32 \<times> u32"

definition transform :: "bytes \<Rightarrow> md5_state \<Rightarrow> md5_state" where
  "transform block st =
     (let (a, b, c, d) = st;
      x = decode block;
      a = FF a b c d (x ! 0) S11 0xd76aa478;
      d = FF d a b c (x ! 1) S12 0xe8c7b756;
      c = FF c d a b (x ! 2) S13 0x242070db;
      b = FF b c d a (x ! 3) S14 0xc1bdceee;
      a = FF a b c d (x ! 4) S11 0xf57c0faf;
      d = FF d a b c (x ! 5) S12 0x4787c62a;
      c = FF c d a b (x ! 6) S13 0xa8304613;
      b = FF b c d a (x ! 7) S14 0xfd469501;
      a = FF a b c d (x ! 8) S11 0x698098d8;
      d = FF d a b c (x ! 9) S12 0x8b44f7af;
      c = FF c d a b (x ! 10) S13 0xffff5bb1;
      b = FF b c d a (x ! 11) S14 0x895cd7be;
      a = FF a b c d (x ! 12) S11 0x6b901122;
      d = FF d a b c (x ! 13) S12 0xfd987193;
      c = FF c d a b (x ! 14) S13 0xa679438e;
      b = FF b c d a (x ! 15) S14 0x49b40821;
      a = GG a b c d (x ! 1) S21 0xf61e2562;
      d = GG d a b c (x ! 6) S22 0xc040b340;
      c = GG c d a b (x ! 11) S23 0x265e5a51;
      b = GG b c d a (x ! 0) S24 0xe9b6c7aa;
      a = GG a b c d (x ! 5) S21 0xd62f105d;
      d = GG d a b c (x ! 10) S22 0x2441453;
      c = GG c d a b (x ! 15) S23 0xd8a1e681;
      b = GG b c d a (x ! 4) S24 0xe7d3fbc8;
      a = GG a b c d (x ! 9) S21 0x21e1cde6;
      d = GG d a b c (x ! 14) S22 0xc33707d6;
      c = GG c d a b (x ! 3) S23 0xf4d50d87;
      b = GG b c d a (x ! 8) S24 0x455a14ed;
      a = GG a b c d (x ! 13) S21 0xa9e3e905;
      d = GG d a b c (x ! 2) S22 0xfcefa3f8;
      c = GG c d a b (x ! 7) S23 0x676f02d9;
      b = GG b c d a (x ! 12) S24 0x8d2a4c8a;
      a = HH a b c d (x ! 5) S31 0xfffa3942;
      d = HH d a b c (x ! 8) S32 0x8771f681;
      c = HH c d a b (x ! 11) S33 0x6d9d6122;
      b = HH b c d a (x ! 14) S34 0xfde5380c;
      a = HH a b c d (x ! 1) S31 0xa4beea44;
      d = HH d a b c (x ! 4) S32 0x4bdecfa9;
      c = HH c d a b (x ! 7) S33 0xf6bb4b60;
      b = HH b c d a (x ! 10) S34 0xbebfbc70;
      a = HH a b c d (x ! 13) S31 0x289b7ec6;
      d = HH d a b c (x ! 0) S32 0xeaa127fa;
      c = HH c d a b (x ! 3) S33 0xd4ef3085;
      b = HH b c d a (x ! 6) S34 0x4881d05;
      a = HH a b c d (x ! 9) S31 0xd9d4d039;
      d = HH d a b c (x ! 12) S32 0xe6db99e5;
      c = HH c d a b (x ! 15) S33 0x1fa27cf8;
      b = HH b c d a (x ! 2) S34 0xc4ac5665;
      a = II a b c d (x ! 0) S41 0xf4292244;
      d = II d a b c (x ! 7) S42 0x432aff97;
      c = II c d a b (x ! 14) S43 0xab9423a7;
      b = II b c d a (x ! 5) S44 0xfc93a039;
      a = II a b c d (x ! 12) S41 0x655b59c3;
      d = II d a b c (x ! 3) S42 0x8f0ccc92;
      c = II c d a b (x ! 10) S43 0xffeff47d;
      b = II b c d a (x ! 1) S44 0x85845dd1;
      a = II a b c d (x ! 8) S41 0x6fa87e4f;
      d = II d a b c (x ! 15) S42 0xfe2ce6e0;
      c = II c d a b (x ! 6) S43 0xa3014314;
      b = II b c d a (x ! 13) S44 0x4e0811a1;
      a = II a b c d (x ! 4) S41 0xf7537e82;
      d = II d a b c (x ! 11) S42 0xbd3af235;
      c = II c d a b (x ! 2) S43 0x2ad7d2bb;
      b = II b c d a (x ! 9) S44 0xeb86d391
      in (fst st + a, fst (snd st) + b, fst (snd (snd st)) + c, snd (snd (snd st)) + d))"

text \<open>The reference: one loop of 64 steps, with the message word, the shift and the constant of
  each step given by formulas and tables. The four registers move round by one in every step.\<close>

datatype md5_round = RoundF | RoundG | RoundH | RoundI

definition md5_sines :: "u32 list" where
  "md5_sines = [0xd76aa478, 0xe8c7b756, 0x242070db, 0xc1bdceee, 0xf57c0faf, 0x4787c62a,
     0xa8304613, 0xfd469501, 0x698098d8, 0x8b44f7af, 0xffff5bb1, 0x895cd7be,
     0x6b901122, 0xfd987193, 0xa679438e, 0x49b40821, 0xf61e2562, 0xc040b340,
     0x265e5a51, 0xe9b6c7aa, 0xd62f105d, 0x2441453, 0xd8a1e681, 0xe7d3fbc8,
     0x21e1cde6, 0xc33707d6, 0xf4d50d87, 0x455a14ed, 0xa9e3e905, 0xfcefa3f8,
     0x676f02d9, 0x8d2a4c8a, 0xfffa3942, 0x8771f681, 0x6d9d6122, 0xfde5380c,
     0xa4beea44, 0x4bdecfa9, 0xf6bb4b60, 0xbebfbc70, 0x289b7ec6, 0xeaa127fa,
     0xd4ef3085, 0x4881d05, 0xd9d4d039, 0xe6db99e5, 0x1fa27cf8, 0xc4ac5665,
     0xf4292244, 0x432aff97, 0xab9423a7, 0xfc93a039, 0x655b59c3, 0x8f0ccc92,
     0xffeff47d, 0x85845dd1, 0x6fa87e4f, 0xfe2ce6e0, 0xa3014314, 0x4e0811a1,
     0xf7537e82, 0xbd3af235, 0x2ad7d2bb, 0xeb86d391]"

definition md5_shifts :: "nat list" where
  "md5_shifts = [7, 12, 17, 22, 5, 9, 14, 20, 4, 11, 16, 23, 6, 10, 15, 21]"

definition md5_step_of :: "nat \<Rightarrow> md5_round \<times> nat \<times> nat \<times> u32" where
  "md5_step_of i =
     ([RoundF, RoundG, RoundH, RoundI] ! (i div 16),
      [i, (5 * i + 1) mod 16, (3 * i + 5) mod 16, (7 * i) mod 16] ! (i div 16),
      md5_shifts ! (i div 16 * 4 + i mod 4), md5_sines ! i)"

fun md5_round_fun :: "md5_round \<Rightarrow> u32 \<Rightarrow> u32 \<Rightarrow> u32 \<Rightarrow> u32" where
  "md5_round_fun RoundF = F" | "md5_round_fun RoundG = G"
| "md5_round_fun RoundH = H" | "md5_round_fun RoundI = I"

fun md5_step :: "u32 list \<Rightarrow> md5_round \<times> nat \<times> nat \<times> u32 \<Rightarrow> md5_state \<Rightarrow> md5_state" where
  "md5_step x (r, k, s, ac) (a, b, c, d) = (d, rotate_left (a + md5_round_fun r b c d + x ! k + ac) s + b, b, c)"

definition compress :: "bytes \<Rightarrow> md5_state \<Rightarrow> md5_state" where
  "compress block st =
     (case fold (md5_step (decode block)) (map md5_step_of [0..<64]) st of
        (a, b, c, d) \<Rightarrow> (fst st + a, fst (snd st) + b, fst (snd (snd st)) + c, snd (snd (snd st)) + d))"

lemma md5_fold:
  "fold (md5_step x) ((RoundF, k, s, ac) # es) (a, b, c, d) = (let v = FF a b c d (x ! k) s ac in fold (md5_step x) es (d, v, b, c))"
  "fold (md5_step x) ((RoundG, k, s, ac) # es) (a, b, c, d) = (let v = GG a b c d (x ! k) s ac in fold (md5_step x) es (d, v, b, c))"
  "fold (md5_step x) ((RoundH, k, s, ac) # es) (a, b, c, d) = (let v = HH a b c d (x ! k) s ac in fold (md5_step x) es (d, v, b, c))"
  "fold (md5_step x) ((RoundI, k, s, ac) # es) (a, b, c, d) = (let v = II a b c d (x ! k) s ac in fold (md5_step x) es (d, v, b, c))"
  by (simp_all add: FF_def GG_def HH_def II_def)

lemma md5_steps:
  "map md5_step_of [0..<64] = [(RoundF, 0, S11, 0xd76aa478),
     (RoundF, 1, S12, 0xe8c7b756),
     (RoundF, 2, S13, 0x242070db),
     (RoundF, 3, S14, 0xc1bdceee),
     (RoundF, 4, S11, 0xf57c0faf),
     (RoundF, 5, S12, 0x4787c62a),
     (RoundF, 6, S13, 0xa8304613),
     (RoundF, 7, S14, 0xfd469501),
     (RoundF, 8, S11, 0x698098d8),
     (RoundF, 9, S12, 0x8b44f7af),
     (RoundF, 10, S13, 0xffff5bb1),
     (RoundF, 11, S14, 0x895cd7be),
     (RoundF, 12, S11, 0x6b901122),
     (RoundF, 13, S12, 0xfd987193),
     (RoundF, 14, S13, 0xa679438e),
     (RoundF, 15, S14, 0x49b40821),
     (RoundG, 1, S21, 0xf61e2562),
     (RoundG, 6, S22, 0xc040b340),
     (RoundG, 11, S23, 0x265e5a51),
     (RoundG, 0, S24, 0xe9b6c7aa),
     (RoundG, 5, S21, 0xd62f105d),
     (RoundG, 10, S22, 0x2441453),
     (RoundG, 15, S23, 0xd8a1e681),
     (RoundG, 4, S24, 0xe7d3fbc8),
     (RoundG, 9, S21, 0x21e1cde6),
     (RoundG, 14, S22, 0xc33707d6),
     (RoundG, 3, S23, 0xf4d50d87),
     (RoundG, 8, S24, 0x455a14ed),
     (RoundG, 13, S21, 0xa9e3e905),
     (RoundG, 2, S22, 0xfcefa3f8),
     (RoundG, 7, S23, 0x676f02d9),
     (RoundG, 12, S24, 0x8d2a4c8a),
     (RoundH, 5, S31, 0xfffa3942),
     (RoundH, 8, S32, 0x8771f681),
     (RoundH, 11, S33, 0x6d9d6122),
     (RoundH, 14, S34, 0xfde5380c),
     (RoundH, 1, S31, 0xa4beea44),
     (RoundH, 4, S32, 0x4bdecfa9),
     (RoundH, 7, S33, 0xf6bb4b60),
     (RoundH, 10, S34, 0xbebfbc70),
     (RoundH, 13, S31, 0x289b7ec6),
     (RoundH, 0, S32, 0xeaa127fa),
     (RoundH, 3, S33, 0xd4ef3085),
     (RoundH, 6, S34, 0x4881d05),
     (RoundH, 9, S31, 0xd9d4d039),
     (RoundH, 12, S32, 0xe6db99e5),
     (RoundH, 15, S33, 0x1fa27cf8),
     (RoundH, 2, S34, 0xc4ac5665),
     (RoundI, 0, S41, 0xf4292244),
     (RoundI, 7, S42, 0x432aff97),
     (RoundI, 14, S43, 0xab9423a7),
     (RoundI, 5, S44, 0xfc93a039),
     (RoundI, 12, S41, 0x655b59c3),
     (RoundI, 3, S42, 0x8f0ccc92),
     (RoundI, 10, S43, 0xffeff47d),
     (RoundI, 1, S44, 0x85845dd1),
     (RoundI, 8, S41, 0x6fa87e4f),
     (RoundI, 15, S42, 0xfe2ce6e0),
     (RoundI, 6, S43, 0xa3014314),
     (RoundI, 13, S44, 0x4e0811a1),
     (RoundI, 4, S41, 0xf7537e82),
     (RoundI, 11, S42, 0xbd3af235),
     (RoundI, 2, S43, 0x2ad7d2bb),
     (RoundI, 9, S44, 0xeb86d391)]"
  by (simp add: md5_step_of_def md5_shifts_def md5_sines_def shift_defs upt_conv_Cons)

lemma Let_fold: "(case Let v f of (a, b, c, d) \<Rightarrow> g a b c d) = (let x = v in case f x of (a, b, c, d) \<Rightarrow> g a b c d)"
  by (simp add: Let_def)

lemma transform_compress: "transform block st = compress block st"
proof (cases st)
  case (fields a b c d)
  show ?thesis
    unfolding transform_def compress_def md5_steps fields prod.case fst_conv snd_conv
      Let_def [of "(a, b, c, d)"] Let_def [of "decode block"]
    by (simp only: md5_fold fold_simps(1) Let_fold prod.case)
qed

end
