(* ===== verification/Md5_Stream.thy ===== *)
theory Md5_Stream
  imports Md5
begin

text \<open>
  The streaming context of class MD5: \<open>update\<close>, \<open>finalize\<close> and \<open>hexdigest\<close>. \<open>absorbed m ctx\<close> is
  the abstraction: the context stands for the message \<open>m\<close>.
\<close>

section \<open>The context\<close>

record MD5 =
  md5_finalized :: bool
  md5_buffer :: bytes
  md5_count :: "u32 \<times> u32"
  md5_state :: md5_state
  md5_digest :: bytes

definition blocksize :: u32 where "blocksize = 64"

definition md5_magic :: md5_state where
  "md5_magic = (0x67452301, 0xefcdab89, 0x98badcfe, 0x10325476)"

text \<open>\<open>init\<close> leaves the buffer and the digest as they are (uninitialised in a new object).\<close>

definition MD5_init :: "MD5 \<Rightarrow> MD5" where
  "MD5_init ctx = ctx\<lparr>md5_finalized := False, md5_count := (0, 0), md5_state := md5_magic\<rparr>"

text \<open>\<open>memcpy(&buffer[i], src, n)\<close>; outside the arrays it has no defined result.\<close>

definition memcpy_at :: "bytes \<Rightarrow> nat \<Rightarrow> bytes \<Rightarrow> nat \<Rightarrow> bytes option" where
  "memcpy_at buf i src n = (if i + n \<le> length buf \<and> n \<le> length src
     then Some (take i buf @ take n src @ drop (i + n) buf) else None)"

text \<open>The loop over the whole blocks of the input. The index is a 32-bit number, so near the
  end of the range \<open>i + blocksize\<close> can wrap around and the loop reads past the input.\<close>

partial_function (option) transform_chunks :: "bytes \<Rightarrow> u32 \<Rightarrow> u32 \<Rightarrow> md5_state \<Rightarrow> (u32 \<times> md5_state) option" where
  "transform_chunks input len i st =
     (if i + blocksize \<le> len then
        (if unat i + 64 \<le> length input
         then transform_chunks input len (i + blocksize) (transform (take 64 (drop (unat i) input)) st)
         else None)
      else Some (i, st))"

definition count_bits :: "u32 \<Rightarrow> u32 \<times> u32 \<Rightarrow> u32 \<times> u32" where
  "count_bits len c =
     (let lo = fst c + push_bit 3 len;
          hi = (if lo < push_bit 3 len then snd c + 1 else snd c)
      in (lo, hi + drop_bit 29 len))"

definition MD5_update :: "bytes \<Rightarrow> u32 \<Rightarrow> MD5 \<Rightarrow> MD5 option" where
  "MD5_update input len ctx =
     (let index = fst (md5_count ctx) div 8 mod blocksize;
          ctx = ctx\<lparr>md5_count := count_bits len (md5_count ctx)\<rparr>;
          firstpart = 64 - index
      in if len \<ge> firstpart then do {
           buf \<leftarrow> memcpy_at (md5_buffer ctx) (unat index) input (unat firstpart);
           (i, st) \<leftarrow> transform_chunks input len firstpart (transform buf (md5_state ctx));
           buf \<leftarrow> memcpy_at buf 0 (drop (unat i) input) (unat (len - i));
           Some (ctx\<lparr>md5_buffer := buf, md5_state := st\<rparr>) }
         else do {
           buf \<leftarrow> memcpy_at (md5_buffer ctx) (unat index) input (unat len);
           Some (ctx\<lparr>md5_buffer := buf\<rparr>) })"

definition padding :: bytes where
  "padding = 0x80 # replicate 63 0"

definition state_words :: "md5_state \<Rightarrow> u32 list" where
  "state_words st = [fst st, fst (snd st), fst (snd (snd st)), snd (snd (snd st))]"

definition MD5_finalize :: "MD5 \<Rightarrow> MD5 option" where
  "MD5_finalize ctx =
     (if \<not> md5_finalized ctx then do {
        let bits = encode [fst (md5_count ctx), snd (md5_count ctx)];
        let index = fst (md5_count ctx) div 8 mod 64;
        let padLen = (if index < 56 then 56 - index else 120 - index);
        ctx \<leftarrow> MD5_update padding padLen ctx;
        ctx \<leftarrow> MD5_update bits 8 ctx;
        Some (ctx\<lparr>md5_digest := encode (state_words (md5_state ctx)), md5_buffer := replicate 64 0,
                md5_count := (0, 0), md5_finalized := True\<rparr>) }
      else Some ctx)"

text \<open>\<open>sprintf("%02x")\<close>.\<close>

definition hex_digit :: "nat \<Rightarrow> char" where
  "hex_digit n = (if n < 10 then char_of (48 + n) else char_of (87 + n))"

definition hex_byte :: "u8 \<Rightarrow> string" where
  "hex_byte b = [hex_digit (unat b div 16), hex_digit (unat b mod 16)]"

definition MD5_hexdigest :: "MD5 \<Rightarrow> string" where
  "MD5_hexdigest ctx = (if \<not> md5_finalized ctx then [] else concat (map hex_byte (md5_digest ctx)))"

text \<open>\<open>md5(str)\<close>: \<open>junk\<close> is the uninitialised object on the stack; the length of the string is
  cut to 32 bits.\<close>

definition md5 :: "MD5 \<Rightarrow> bytes \<Rightarrow> string option" where
  "md5 junk text = do {
     ctx \<leftarrow> MD5_update text (of_nat (length text)) (MD5_init junk);
     ctx \<leftarrow> MD5_finalize ctx;
     Some (MD5_hexdigest ctx) }"

section \<open>The message the context stands for\<close>

function md5_blocks :: "bytes \<Rightarrow> md5_state \<Rightarrow> md5_state" where
  "md5_blocks bs st = (if length bs < 64 then st else md5_blocks (drop 64 bs) (transform (take 64 bs) st))"
  by pat_completeness auto

termination by (relation "measure (\<lambda>(bs, st). length bs)") auto

declare md5_blocks.simps [simp del]

definition md5_rest :: "bytes \<Rightarrow> bytes" where
  "md5_rest m = drop (64 * (length m div 64)) m"

definition absorbed :: "bytes \<Rightarrow> MD5 \<Rightarrow> bool" where
  "absorbed m ctx \<longleftrightarrow> \<not> md5_finalized ctx \<and> length (md5_buffer ctx) = 64 \<and>
     md5_state ctx = md5_blocks m md5_magic \<and>
     take (length m mod 64) (md5_buffer ctx) = md5_rest m \<and>
     md5_count ctx = (of_nat (8 * length m), of_nat (8 * length m div 2 ^ 32))"

lemma length_md5_rest: "length (md5_rest m) = length m mod 64"
  by (simp add: md5_rest_def minus_mult_div_eq_mod)

lemma md5_blocks_short: "length bs < 64 \<Longrightarrow> md5_blocks bs st = st"
  by (simp add: md5_blocks.simps)

lemma md5_blocks_block: "length b = 64 \<Longrightarrow> md5_blocks (b @ bs) st = md5_blocks bs (transform b st)"
  by (simp add: md5_blocks.simps [of "b @ bs"])

lemma md5_rest_block: "length b = 64 \<Longrightarrow> md5_rest (b @ bs) = md5_rest bs"
proof -
  assume b: "length b = 64"
  then have "64 * (length (b @ bs) div 64) = 64 + 64 * (length bs div 64)" by (simp add: div_add_self1)
  then show ?thesis using b by (simp add: md5_rest_def)
qed

lemma md5_rest_short: "length bs < 64 \<Longrightarrow> md5_rest bs = bs"
  by (simp add: md5_rest_def)

text \<open>Feeding more: only the unfinished block matters.\<close>

lemma md5_append:
  "md5_blocks (m @ x) st = md5_blocks (md5_rest m @ x) (md5_blocks m st) \<and> md5_rest (m @ x) = md5_rest (md5_rest m @ x)"
proof (induction m st rule: md5_blocks.induct)
  case (1 bs st)
  show ?case
  proof (cases "length bs < 64")
    case True
    then show ?thesis by (simp add: md5_blocks_short md5_rest_short)
  next
    case False
    then have l: "length (take 64 bs) = 64" and e: "bs = take 64 bs @ drop 64 bs" by simp_all
    have "md5_blocks (bs @ x) st = md5_blocks (drop 64 bs @ x) (transform (take 64 bs) st)"
      using md5_blocks_block [OF l, of "drop 64 bs @ x"] e by (metis append.assoc)
    moreover have "md5_rest (bs @ x) = md5_rest (drop 64 bs @ x)"
      using md5_rest_block [OF l, of "drop 64 bs @ x"] e by (metis append.assoc)
    moreover have "md5_rest bs = md5_rest (drop 64 bs)" using md5_rest_block [OF l] e by metis
    moreover have "md5_blocks bs st = md5_blocks (drop 64 bs) (transform (take 64 bs) st)"
      using md5_blocks_block [OF l] e by metis
    ultimately show ?thesis using 1 [OF False] by simp
  qed
qed

section \<open>The counter\<close>

lemma unat_push3: "unat (push_bit 3 len :: u32) = 8 * unat len mod 2 ^ 32"
  by (simp only: unsigned_push_bit_eq take_bit_eq_mod push_bit_eq_mult [of 3 "unat len"] len_of_numeral_defs)
    (simp add: mult.commute)

lemma unat_drop29: "unat (drop_bit 29 len :: u32) = unat len div 2 ^ 29"
  using unat_drop_bit_eq [of 29 len] by (simp only: drop_bit_eq_div [of 29 "unat len"])

lemma nat_carry:
  fixes a b M :: nat
  assumes "a < M" "b < M"
  shows "(a + b) mod M < b \<longleftrightarrow> M \<le> a + b" "(a + b) div M = (if M \<le> a + b then 1 else 0)"
proof -
  have "(a + b) mod M = (if M \<le> a + b then a + b - M else a + b)"
    using assms by (auto simp: mod_if [of "a + b"])
  then show "(a + b) mod M < b \<longleftrightarrow> M \<le> a + b" using assms by auto
  show "(a + b) div M = (if M \<le> a + b then 1 else 0)" using assms by (auto simp: div_if [of "a + b"])
qed

lemma count_bits_eq:
  "count_bits len (of_nat (8 * n), of_nat (8 * n div 2 ^ 32)) =
     (of_nat (8 * (n + unat len)), of_nat (8 * (n + unat len) div 2 ^ 32))"
proof -
  let ?M = "2 ^ 32 :: nat" and ?l = "unat len"
  let ?a = "8 * n mod ?M" and ?b = "8 * ?l mod ?M"
  have lo: "(of_nat (8 * n) :: u32) + push_bit 3 len = of_nat (8 * (n + ?l))"
    by (simp add: push_bit_eq_mult algebra_simps)
  have "unat (of_nat (8 * (n + ?l)) :: u32) = (?a + ?b) mod ?M"
    by (simp add: unat_of_nat distrib_left mod_add_eq del: of_nat_mult of_nat_add)
  then have c: "(of_nat (8 * (n + ?l)) :: u32) < push_bit 3 len \<longleftrightarrow> ?M \<le> ?a + ?b"
    using nat_carry(1) [of ?a ?M ?b] by (simp add: word_less_nat_alt unat_push3 del: of_nat_mult of_nat_add)
  have "8 * (n + ?l) div ?M = 8 * n div ?M + 8 * ?l div ?M + (?a + ?b) div ?M"
    unfolding distrib_left by (rule div_add1_eq)
  also have "8 * ?l div ?M = ?l div 2 ^ 29" by simp
  finally have d: "8 * (n + ?l) div ?M = 8 * n div ?M + ?l div 2 ^ 29 + (if ?M \<le> ?a + ?b then 1 else 0)"
    using nat_carry(2) [of ?a ?M ?b] by simp
  have hi: "(drop_bit 29 len :: u32) = of_nat (?l div 2 ^ 29)"
    unfolding unat_drop29 [symmetric] by simp
  show ?thesis
    unfolding count_bits_def Let_def fst_conv snd_conv lo c hi d by simp
qed

section \<open>update\<close>

lemma unat_add64: "unat i + 64 < 2 ^ 32 \<Longrightarrow> unat (i + blocksize) = unat i + 64"
  by (subst unat_add_lem [THEN iffD1]) (simp_all add: blocksize_def)

lemma transform_chunks_eq:
  assumes "unat len < 2 ^ 32 - 64" "unat len \<le> length input" "unat i \<le> unat len"
  shows "\<exists>i'. transform_chunks input len i st =
      Some (i', md5_blocks (drop (unat i) (take (unat len) input)) st) \<and> unat i' \<le> unat len \<and>
    drop (unat i') (take (unat len) input) = md5_rest (drop (unat i) (take (unat len) input))"
  using assms(3)
proof (induction "unat len - unat i" arbitrary: i st rule: less_induct)
  case less
  let ?x = "take (unat len) input"
  have s: "unat (i + blocksize) = unat i + 64" using assms(1) less.prems by (intro unat_add64) simp
  have lx: "length ?x = unat len" using assms(2) by simp
  show ?case
  proof (cases "unat i + 64 \<le> unat len")
    case False
    then have "\<not> i + blocksize \<le> len" using s by (simp add: word_le_nat_alt)
    then have "transform_chunks input len i st = Some (i, st)" by (subst transform_chunks.simps) simp
    then show ?thesis using False less.prems lx by (auto simp: md5_blocks_short md5_rest_short)
  next
    case True
    have e: "drop (unat i) ?x = take 64 (drop (unat i) input) @ drop (unat i + 64) ?x"
    proof -
      have "take 64 (drop (unat i) ?x) = take 64 (drop (unat i) input)"
        using True by (simp add: drop_take min_def)
      then show ?thesis using append_take_drop_id [of 64 "drop (unat i) ?x"] by (simp add: add.commute)
    qed
    have l: "length (take 64 (drop (unat i) input)) = 64" using True assms(2) by simp
    have c: "i + blocksize \<le> len" "unat i + 64 \<le> length input" using s True assms(2) by (simp_all add: word_le_nat_alt)
    then have "transform_chunks input len i st =
        transform_chunks input len (i + blocksize) (transform (take 64 (drop (unat i) input)) st)"
      by (subst transform_chunks.simps) simp
    moreover have "md5_blocks (drop (unat i) ?x) st =
        md5_blocks (drop (unat i + 64) ?x) (transform (take 64 (drop (unat i) input)) st)"
      by (subst e) (rule md5_blocks_block [OF l])
    moreover have "md5_rest (drop (unat i) ?x) = md5_rest (drop (unat i + 64) ?x)"
      by (subst e) (rule md5_rest_block [OF l])
    ultimately show ?thesis
      using less.hyps [of "i + blocksize" "transform (take 64 (drop (unat i) input)) st"] True s by simp
  qed
qed

lemma absorbed_index:
  assumes "absorbed m ctx"
  shows "unat (fst (md5_count ctx) div 8 mod blocksize) = length m mod 64"
proof -
  have "unat (fst (md5_count ctx) div 8 mod blocksize) = 8 * length m mod 2 ^ 32 div 8 mod 64"
    using assms by (simp add: absorbed_def blocksize_def unat_div unat_mod unat_of_nat del: of_nat_mult)
  also have "8 * length m mod 2 ^ 32 = 8 * (length m mod 2 ^ 29)"
    using mult_mod_right [of 8 "length m" "2 ^ 29"] by simp
  also have "8 * (length m mod 2 ^ 29) div 8 = length m mod 2 ^ 29" by simp
  also have "length m mod 2 ^ 29 mod 64 = length m mod 64" by (simp add: mod_mod_cancel)
  finally show ?thesis .
qed

lemma update_absorbed:
  assumes a: "absorbed m ctx" and l: "unat len < 2 ^ 32 - 64" "unat len \<le> length input"
  shows "\<exists>ctx'. MD5_update input len ctx = Some ctx' \<and> absorbed (m @ take (unat len) input) ctx'"
proof -
  let ?x = "take (unat len) input" and ?r = "length m mod 64" and ?t = "md5_rest m"
  let ?index = "fst (md5_count ctx) div 8 mod blocksize" and ?buf = "md5_buffer ctx" and ?st = "md5_state ctx"
  let ?fp = "64 - ?index"
  have ix: "unat ?index = ?r" using a by (rule absorbed_index)
  have r: "?r < 64" by simp
  have fp: "unat ?fp = 64 - ?r"
    using ix r by (simp add: unat_sub word_le_nat_alt)
  have lx: "length ?x = unat len" using l(2) by simp
  have lt: "length ?t = ?r" by (rule length_md5_rest)
  have buf: "length ?buf = 64" "take ?r ?buf = ?t" and st: "?st = md5_blocks m md5_magic" and nf: "\<not> md5_finalized ctx"
    using a by (simp_all add: absorbed_def)
  have cnt: "count_bits len (md5_count ctx) = (of_nat (8 * length (m @ ?x)), of_nat (8 * length (m @ ?x) div 2 ^ 32))"
    using count_bits_eq [of len "length m"] a lx by (simp add: absorbed_def)
  note ap = md5_append [of m ?x md5_magic, folded st]
  show ?thesis
  proof (cases "?fp \<le> len")
    case False
    then have sh: "?r + unat len < 64" using fp by (simp add: word_le_nat_alt)
    have m1: "memcpy_at ?buf ?r input (unat len) = Some (?t @ ?x @ drop (?r + unat len) ?buf)"
      using sh l(2) buf by (simp add: memcpy_at_def)
    have len: "length (m @ ?x) mod 64 = ?r + unat len" using sh lx by (simp add: mod_add_left_eq [of "length m" 64, symmetric])
    have "MD5_update input len ctx = Some (ctx\<lparr>md5_count := count_bits len (md5_count ctx),
        md5_buffer := ?t @ ?x @ drop (?r + unat len) ?buf\<rparr>)"
      using False m1 by (simp add: MD5_update_def Let_def ix)
    moreover have "md5_blocks (m @ ?x) md5_magic = ?st" "md5_rest (m @ ?x) = ?t @ ?x"
      using ap sh lx lt by (simp_all add: md5_blocks_short md5_rest_short)
    ultimately show ?thesis using nf cnt len lx lt buf sh by (simp add: absorbed_def)
  next
    case True
    then have le: "64 - ?r \<le> unat len" using fp by (simp add: word_le_nat_alt)
    define b where "b = ?t @ take (64 - ?r) input"
    have lb: "length b = 64" using le l(2) lt r by (simp add: b_def)
    have m1: "memcpy_at ?buf ?r input (64 - ?r) = Some b"
      using le l(2) buf r by (simp add: memcpy_at_def b_def)
    have tx: "?t @ ?x = b @ drop (64 - ?r) ?x"
      using le append_take_drop_id [of "64 - ?r" ?x] by (simp add: b_def min_def)
    obtain i where c: "transform_chunks input len ?fp (transform b ?st) =
        Some (i, md5_blocks (drop (64 - ?r) ?x) (transform b ?st))"
      and i: "unat i \<le> unat len" "drop (unat i) ?x = md5_rest (drop (64 - ?r) ?x)"
      using transform_chunks_eq [OF l, of ?fp "transform b ?st"] fp le by auto
    let ?rest = "md5_rest (drop (64 - ?r) ?x)"
    have e: "md5_blocks (m @ ?x) md5_magic = md5_blocks (drop (64 - ?r) ?x) (transform b ?st)"
      "md5_rest (m @ ?x) = ?rest"
      using ap md5_blocks_block [OF lb] md5_rest_block [OF lb] tx by metis+
    have lr: "length ?rest = length (m @ ?x) mod 64" using length_md5_rest [of "m @ ?x"] e(2) by simp
    then have lr64: "length ?rest < 64" by simp
    have n: "unat (len - i) = length ?rest"
      using i lx by (metis length_drop unat_sub word_le_nat_alt)
    have "take (length ?rest) (drop (unat i) input) = ?rest"
      using i lx unfolding i(2) [symmetric] by (simp add: drop_take)
    moreover have "length ?rest \<le> length (drop (unat i) input)"
      unfolding i(2) [symmetric] using l(2) by (simp add: diff_le_mono)
    ultimately have m2: "memcpy_at b 0 (drop (unat i) input) (unat (len - i)) = Some (?rest @ drop (length ?rest) b)"
      using lb lr64 n by (simp add: memcpy_at_def)
    have "MD5_update input len ctx = Some (ctx\<lparr>md5_count := count_bits len (md5_count ctx),
        md5_buffer := ?rest @ drop (length ?rest) b,
        md5_state := md5_blocks (drop (64 - ?r) ?x) (transform b ?st)\<rparr>)"
      using True m1 c m2 by (simp add: MD5_update_def Let_def ix fp)
    then show ?thesis using nf cnt e lr lb lr64 by (auto simp: absorbed_def)
  qed
qed

section \<open>finalize and the digest of a message\<close>

text \<open>The padding of the message: one bit, zeros up to 56 bytes of the last block, and the
  length in bits, low word first.\<close>

definition pad_length :: "bytes \<Rightarrow> nat" where
  "pad_length m = (if length m mod 64 < 56 then 56 - length m mod 64 else 120 - length m mod 64)"

definition md5_padded :: "bytes \<Rightarrow> bytes" where
  "md5_padded m = m @ 0x80 # replicate (pad_length m - 1) 0 @
     encode [of_nat (8 * length m), of_nat (8 * length m div 2 ^ 32)]"

definition md5_of :: "bytes \<Rightarrow> bytes" where
  "md5_of m = encode (state_words (md5_blocks (md5_padded m) md5_magic))"

lemma length_encode [simp]: "length (encode ws) = 4 * length ws"
  by (induction ws) (simp_all add: encode_def encode_word_def)

lemma pad_length_bounds: "1 \<le> pad_length m" "pad_length m \<le> 64"
  unfolding pad_length_def using mod_less_divisor [of 64 "length m"] by auto

lemma take_padding: "1 \<le> n \<Longrightarrow> n \<le> 64 \<Longrightarrow> take n padding = 0x80 # replicate (n - 1) 0"
  by (cases n) (auto simp: padding_def min_def)

text \<open>The padded message is a whole number of blocks.\<close>

lemma md5_padded_length: "length (md5_padded m) mod 64 = 0"
proof -
  have "length (md5_padded m) = length m + pad_length m + 8"
    using pad_length_bounds(1) [of m] by (simp add: md5_padded_def)
  moreover have "(length m + pad_length m + 8) mod 64 = (length m mod 64 + pad_length m + 8) mod 64"
    by (metis add.assoc mod_add_left_eq)
  moreover have "length m mod 64 + pad_length m + 8 = 64 \<or> length m mod 64 + pad_length m + 8 = 128"
    unfolding pad_length_def using mod_less_divisor [of 64 "length m"] by auto
  ultimately show ?thesis by auto
qed

lemma finalize_absorbed:
  assumes a: "absorbed m ctx"
  shows "\<exists>ctx'. MD5_finalize ctx = Some ctx' \<and> md5_finalized ctx' \<and> md5_digest ctx' = md5_of m"
proof -
  let ?i = "fst (md5_count ctx) div 8 mod 64"
  let ?bits = "encode [fst (md5_count ctx), snd (md5_count ctx)]"
  let ?p = "if ?i < 56 then 56 - ?i else 120 - ?i"
  have ix: "unat ?i = length m mod 64" using absorbed_index [OF a] by (simp add: blocksize_def)
  have nf: "\<not> md5_finalized ctx" using a by (simp add: absorbed_def)
  have "?i < 64" using ix by (simp add: word_less_nat_alt)
  then have p: "unat ?p = pad_length m"
    using ix by (auto simp: pad_length_def word_less_nat_alt unat_sub word_le_nat_alt)
  have "unat ?p < 2 ^ 32 - 64" "unat ?p \<le> length padding"
    unfolding p using pad_length_bounds [of m] by (simp_all add: padding_def)
  from update_absorbed [OF a this] obtain c1 where c1: "MD5_update padding ?p ctx = Some c1"
    and a1: "absorbed (m @ take (unat ?p) padding) c1" by blast
  have "unat (8 :: u32) < 2 ^ 32 - 64" "unat (8 :: u32) \<le> length ?bits" by simp_all
  from update_absorbed [OF a1 this] obtain c2 where c2: "MD5_update ?bits 8 c1 = Some c2"
    and a2: "absorbed ((m @ take (unat ?p) padding) @ take (unat (8 :: u32)) ?bits) c2" by blast
  have "(m @ take (unat ?p) padding) @ take (unat (8 :: u32)) ?bits = md5_padded m"
    using a take_padding [OF pad_length_bounds [of m]] unfolding p by (simp add: md5_padded_def absorbed_def)
  then have "md5_state c2 = md5_blocks (md5_padded m) md5_magic" using a2 by (simp add: absorbed_def)
  then show ?thesis using nf c1 c2 by (auto simp: MD5_finalize_def Let_def md5_of_def)
qed

lemma absorbed_init: "length (md5_buffer junk) = 64 \<Longrightarrow> absorbed [] (MD5_init junk)"
  by (simp add: absorbed_def MD5_init_def md5_blocks_short md5_rest_def)

text \<open>Any number of pieces.\<close>

definition feed :: "bytes list \<Rightarrow> MD5 \<Rightarrow> MD5 option" where
  "feed pieces ctx = for_each (\<lambda>p. MD5_update p (of_nat (length p))) pieces ctx"

lemma feed_absorbed:
  assumes "absorbed m ctx" "\<forall>p \<in> set ps. length p < 2 ^ 32 - 64"
  shows "\<exists>ctx'. feed ps ctx = Some ctx' \<and> absorbed (m @ concat ps) ctx'"
  using assms
proof (induction ps arbitrary: m ctx)
  case Nil
  then show ?case by (simp add: feed_def)
next
  case (Cons p ps)
  have n: "unat (of_nat (length p) :: u32) = length p"
    using Cons.prems(2) by (simp add: unat_of_nat)
  have "unat (of_nat (length p) :: u32) < 2 ^ 32 - 64" "unat (of_nat (length p) :: u32) \<le> length p"
    unfolding n using Cons.prems(2) by simp_all
  from update_absorbed [OF Cons.prems(1) this] obtain c where
    c: "MD5_update p (of_nat (length p)) ctx = Some c" "absorbed (m @ p) c" unfolding n by auto
  from Cons.IH [OF c(2)] Cons.prems(2) obtain ctx' where "feed ps c = Some ctx'" "absorbed (m @ p @ concat ps) ctx'" by auto
  then show ?case using c(1) by (simp add: feed_def)
qed

lemma md5_eq:
  assumes "length (md5_buffer junk) = 64" "length text < 2 ^ 32 - 64"
  shows "md5 junk text = Some (concat (map hex_byte (md5_of text)))"
proof -
  obtain c where c: "MD5_update text (of_nat (length text)) (MD5_init junk) = Some c" "absorbed text c"
    using feed_absorbed [OF absorbed_init [OF assms(1)], of "[text]"] assms(2) by (auto simp: feed_def elim!: bind_SomeE)
  obtain c' where "MD5_finalize c = Some c'" "md5_finalized c'" "md5_digest c' = md5_of text"
    using finalize_absorbed [OF c(2)] by blast
  then show ?thesis using c(1) by (simp add: md5_def MD5_hexdigest_def)
qed

end
