(* ===== verification/Find_Pwd.thy ===== *)
theory Find_Pwd
  imports Timer_Run Md5_Stream Sql
begin

text \<open>
  findpwd.cpp: recovering a password by mail. A request makes a user record and a timer that sends
  the mail; a mail that fails is tried again after a minute, five times at most; the last timer
  removes the token's file and deletes the record. The records are in an explicit heap; the
  argument of a timer is the address of one. Parameters: the clock, whether the file opens and
  what the mail command returns.
\<close>

section \<open>State\<close>

definition VERIFY_PATH :: string where "VERIFY_PATH = ''/usr/share/web/data/''"
definition SEND_MAIL_CMD :: string where "SEND_MAIL_CMD = ''python ./MailSend.py ''"
definition OUT_TIME :: int where "OUT_TIME = 5 * 60"

record FpwUserInfo =
  user_account :: string
  user_token :: string
  retry_count :: u8

datatype fpw_handler = SendMail_handler | TimeOut_handler

record fpw =
  instance_on :: bool
  timers_of :: "(fpw_handler, nat) timerlib"
  fpw_users :: "nat \<Rightarrow> FpwUserInfo option"
  next_user :: nat
  files :: "string \<Rightarrow> string option"
  commands :: "string list"

definition lift_timer :: "((fpw_handler, nat) timerlib \<Rightarrow> ('r \<times> (fpw_handler, nat) timerlib) option) \<Rightarrow> fpw \<Rightarrow> ('r \<times> fpw) option" where
  "lift_timer f st = map_option (\<lambda>(r, t). (r, st\<lparr>timers_of := t\<rparr>)) (f (timers_of st))"

section \<open>Operations\<close>

text \<open>\<open>junk\<close> is the uninitialised MD5 object.\<close>

definition AddToTimerList :: "MD5 \<Rightarrow> link \<Rightarrow> bool \<Rightarrow> timeval \<Rightarrow> u32 \<Rightarrow> string \<Rightarrow> fpw \<Rightarrow> (bool \<times> fpw) option" where
  "AddToTimerList junk lk mem now secs acc st = do {
     let buffer = nat_str (unat secs);
     token \<leftarrow> md5 junk (map of_char (acc @ buffer));
     let user = next_user st;
     let st = st\<lparr>fpw_users := (fpw_users st)(user \<mapsto> \<lparr>user_account = acc, user_token = token, retry_count = 0\<rparr>),
                next_user := user + 1\<rparr>;
     (r, st) \<leftarrow> lift_timer (timer_add lk mem now 0 10 (Some SendMail_handler) (Some user)) st;
     Some (True, if r < 0 then st\<lparr>fpw_users := (fpw_users st)(user := None)\<rparr> else st) }"

definition FindPwdViaAccount :: "MD5 \<Rightarrow> link \<Rightarrow> bool \<Rightarrow> timeval \<Rightarrow> u32 \<Rightarrow> string \<Rightarrow> fpw \<Rightarrow> (bool \<times> fpw) option" where
  "FindPwdViaAccount junk lk mem now secs acc st =
     (let st = (if \<not> instance_on st then st\<lparr>instance_on := True, timers_of := timer_init\<rparr> else st) in
      AddToTimerList junk lk mem now secs acc st)"

definition Destrory :: "link \<Rightarrow> bool \<Rightarrow> timeval \<Rightarrow> fpw \<Rightarrow> fpw option" where
  "Destrory lk mem now st =
     (if instance_on st then do {
        t \<leftarrow> timer_destroy lk mem now (timers_of st);
        Some (st\<lparr>timers_of := t, instance_on := False\<rparr>) }
      else Some st)"

text \<open>The token is copied into a buffer of 34 zeroed bytes, and as many bytes as the token has are
  written from it; reading past the buffer is undefined. The mail command's status decides.\<close>

definition token_buf :: "string \<Rightarrow> string" where
  "token_buf token = take 33 (c_str token) @ replicate (34 - length (take 33 (c_str token))) (CHR 0x00)"

definition WriteUserTokentoFile :: "bool \<Rightarrow> int \<Rightarrow> string \<Rightarrow> string \<Rightarrow> fpw \<Rightarrow> (bool \<times> fpw) option" where
  "WriteUserTokentoFile opens code acc token st = do {
     let path = VERIFY_PATH @ acc;
     let cmd = SEND_MAIL_CMD @ acc @ '' '' @ token;
     st \<leftarrow> (if opens then
              (if length token \<le> 34 then Some (st\<lparr>files := (files st)(c_str path \<mapsto> take (length token) (token_buf token))\<rparr>)
               else None)
            else Some st);
     let st = st\<lparr>commands := commands st @ [c_str cmd]\<rparr>;
     Some (code = 0, st) }"

definition SendMail :: "link \<Rightarrow> bool \<Rightarrow> timeval \<Rightarrow> bool \<Rightarrow> int \<Rightarrow> nat \<Rightarrow> fpw \<Rightarrow> fpw option" where
  "SendMail lk mem now opens code arg st = do {
     user \<leftarrow> fpw_users st arg;
     (ok, st) \<leftarrow> WriteUserTokentoFile opens code (user_account user) (user_token user) st;
     if \<not> ok then do {
       let user = user\<lparr>retry_count := retry_count user + 1\<rparr>;
       let st = st\<lparr>fpw_users := (fpw_users st)(arg \<mapsto> user)\<rparr>;
       if retry_count user \<le> 5 then
         map_option snd (lift_timer (timer_add lk mem now 60 0 (Some SendMail_handler) (Some arg)) st)
       else map_option snd (lift_timer (timer_add lk mem now 0 500 (Some TimeOut_handler) (Some arg)) st) }
     else map_option snd (lift_timer (timer_add lk mem now OUT_TIME 0 (Some TimeOut_handler) (Some arg)) st) }"

definition TimeOutHandle :: "nat \<Rightarrow> fpw \<Rightarrow> fpw option" where
  "TimeOutHandle arg st = do {
     user \<leftarrow> fpw_users st arg;
     let file = VERIFY_PATH @ user_account user;
     Some (st\<lparr>files := (files st)(c_str file := None), fpw_users := (fpw_users st)(arg := None)\<rparr>) }"

text \<open>The first timer expires and its handler is run.\<close>

definition handler_round :: "timeval \<Rightarrow> bool \<Rightarrow> int \<Rightarrow> fpw \<Rightarrow> fpw option" where
  "handler_round now opens code st = do {
     (call, st) \<leftarrow> lift_timer run_next st;
     case call of
       None \<Rightarrow> Some st
     | Some (h, None) \<Rightarrow> None
     | Some (SendMail_handler, Some arg) \<Rightarrow> SendMail Answered True now opens code arg st
     | Some (TimeOut_handler, Some arg) \<Rightarrow> TimeOutHandle arg st }"

section \<open>A request runs its course\<close>

text \<open>One timer is queued, which will call \<open>h\<close> for the user at \<open>u\<close>, who has had \<open>k\<close> failures.\<close>

definition waits :: "(fpw_handler, nat) timerlib \<Rightarrow> fpw_handler \<times> nat option \<Rightarrow> bool" where
  "waits t c \<longleftrightarrow> (\<exists>e. queued t [e] \<and> the_call e = c)"

definition waiting_call :: "fpw_handler \<Rightarrow> nat \<Rightarrow> string \<Rightarrow> string \<Rightarrow> nat \<Rightarrow> fpw \<Rightarrow> bool" where
  "waiting_call h u acc token k st \<longleftrightarrow> waits (timers_of st) (h, Some u) \<and>
     fpw_users st u = Some \<lparr>user_account = acc, user_token = token, retry_count = of_nat k\<rparr>"

lemma add_next:
  assumes "queued (timers_of st) []" "\<not> in_past (Timeval s us)"
  shows "\<exists>r t. lift_timer (timer_add Answered True now s us (Some h) (Some u)) st = Some (r, st\<lparr>timers_of := t\<rparr>) \<and>
    waits t (h, Some u)"
proof -
  have "in_future (now, Timeval s us, h, Some u)" using assms(2) by (simp add: in_future_def)
  from add_request_queued [OF assms(1) this] obtain t where
    "map_option snd (timer_add Answered True now s us (Some h) (Some u) (timers_of st)) = Some t"
    "queued t [(now, Timeval s us, h, Some u)]" by (auto simp: add_request_def)
  moreover have "the_call (now, Timeval s us, h, Some u) = (h, Some u)" by (simp add: the_call_def)
  ultimately show ?thesis unfolding lift_timer_def waits_def by fastforce
qed

lemma run_next_idle:
  assumes "queued st []"
  shows "run_next st = Some (None, st)"
proof -
  obtain a where a: "implements {} st a" "due a = []" "queue a = []" using assms by (auto simp: queued_def)
  then obtain qs ps where ok: "timers_ok st qs ps {}" and v: "view st qs ps = a" by (auto elim!: implementsE)
  have "qs = []" using view_fields [OF v] a(3) by (cases qs) auto
  then have "q_first st = None" using ok by (simp add: timers_ok_def lists_ok_def dll_def)
  then show ?thesis using pending_none [OF a(1,2)] by (simp add: run_next_def timer_execute_def run_pending_def)
qed

lemma round_idle: "queued (timers_of st) [] \<Longrightarrow> handler_round now opens code st = Some st"
  by (simp add: handler_round_def lift_timer_def run_next_idle)

lemma timer_calls:
  assumes "waiting_call h u acc token k st"
  shows "\<exists>t. lift_timer run_next st = Some (Some (h, Some u), st\<lparr>timers_of := t\<rparr>) \<and> queued t []"
  using assms run_next_queued by (fastforce simp: waiting_call_def waits_def lift_timer_def)

definition mail_cmd :: "string \<Rightarrow> string \<Rightarrow> string" where
  "mail_cmd acc token = c_str (SEND_MAIL_CMD @ acc @ '' '' @ token)"

definition token_path :: "string \<Rightarrow> string" where
  "token_path acc = c_str (VERIFY_PATH @ acc)"

lemma write_token:
  "length token \<le> 34 \<Longrightarrow> \<exists>f. WriteUserTokentoFile opens code acc token st =
     Some (code = 0, st\<lparr>files := f, commands := commands st @ [mail_cmd acc token]\<rparr>)"
  by (cases opens) (auto simp: WriteUserTokentoFile_def Let_def mail_cmd_def intro: exI [of _ "files st"])

lemma round_sends:
  assumes w: "waiting_call SendMail_handler u acc token k st" and t: "length token \<le> 34" and k: "k \<le> 5"
  shows "\<exists>st'. handler_round now opens code st = Some st' \<and>
    waiting_call (if code \<noteq> 0 \<and> k < 5 then SendMail_handler else TimeOut_handler) u acc token (if code \<noteq> 0 then k + 1 else k) st' \<and>
    commands st' = commands st @ [mail_cmd acc token] \<and> (\<forall>v. v \<noteq> u \<longrightarrow> fpw_users st' v = fpw_users st v)"
proof -
  obtain tm where tm: "lift_timer run_next st = Some (Some (SendMail_handler, Some u), st\<lparr>timers_of := tm\<rparr>)" "queued tm []"
    using timer_calls [OF w] by blast
  have us: "fpw_users st u = Some \<lparr>user_account = acc, user_token = token, retry_count = of_nat k\<rparr>"
    using w by (simp add: waiting_call_def)
  obtain f where f: "WriteUserTokentoFile opens code acc token (st\<lparr>timers_of := tm\<rparr>) =
      Some (code = 0, st\<lparr>timers_of := tm, files := f, commands := commands st @ [mail_cmd acc token]\<rparr>)"
    using write_token [OF t, of opens code acc "st\<lparr>timers_of := tm\<rparr>"] by auto
  let ?st = "st\<lparr>timers_of := tm, files := f, commands := commands st @ [mail_cmd acc token]\<rparr>"
  have le: "(of_nat k + 1 :: u8) \<le> 5 \<longleftrightarrow> k < 5"
  proof -
    have "unat (of_nat k + 1 :: u8) = k + 1" using k by (simp add: unat_word_ariths unat_of_nat)
    then show ?thesis by (auto simp: word_le_nat_alt)
  qed
  have step: "handler_round now opens code st = SendMail Answered True now opens code u (st\<lparr>timers_of := tm\<rparr>)"
    by (simp add: handler_round_def tm(1))
  show ?thesis
  proof (cases "code = 0")
    case True
    have "\<not> in_past (Timeval OUT_TIME 0)" by (simp add: in_past_def OUT_TIME_def)
    from add_next [of ?st, OF _ this] tm(2) obtain r tm' where
      "lift_timer (timer_add Answered True now OUT_TIME 0 (Some TimeOut_handler) (Some u)) ?st = Some (r, ?st\<lparr>timers_of := tm'\<rparr>)"
      "waits tm' (TimeOut_handler, Some u)" by fastforce
    then show ?thesis using step True us f by (auto simp: SendMail_def waiting_call_def)
  next
    case False
    let ?u = "\<lparr>user_account = acc, user_token = token, retry_count = of_nat k + 1\<rparr> :: FpwUserInfo"
    let ?st1 = "?st\<lparr>fpw_users := (fpw_users st)(u \<mapsto> ?u)\<rparr>"
    have "\<not> in_past (Timeval 60 0)" "\<not> in_past (Timeval 0 500)" by (simp_all add: in_past_def)
    from add_next [of ?st1, OF _ this(1)] add_next [of ?st1, OF _ this(2)] tm(2) obtain r tm' r2 tm2 where
      "lift_timer (timer_add Answered True now 60 0 (Some SendMail_handler) (Some u)) ?st1 = Some (r, ?st1\<lparr>timers_of := tm'\<rparr>)"
      "waits tm' (SendMail_handler, Some u)"
      "lift_timer (timer_add Answered True now 0 500 (Some TimeOut_handler) (Some u)) ?st1 = Some (r2, ?st1\<lparr>timers_of := tm2\<rparr>)"
      "waits tm2 (TimeOut_handler, Some u)" by fastforce
    then show ?thesis using step False us f le by (cases "k < 5") (auto simp: SendMail_def waiting_call_def add.commute)
  qed
qed

lemma round_forgets:
  assumes w: "waiting_call TimeOut_handler u acc token k st"
  shows "\<exists>st'. handler_round now opens code st = Some st' \<and> queued (timers_of st') [] \<and>
    fpw_users st' = (fpw_users st)(u := None) \<and> files st' (token_path acc) = None \<and> commands st' = commands st"
proof -
  obtain tm where tm: "lift_timer run_next st = Some (Some (TimeOut_handler, Some u), st\<lparr>timers_of := tm\<rparr>)" "queued tm []"
    using timer_calls [OF w] by blast
  have "fpw_users st u = Some \<lparr>user_account = acc, user_token = token, retry_count = of_nat k\<rparr>"
    using w by (simp add: waiting_call_def)
  then show ?thesis using tm by (simp add: handler_round_def TimeOutHandle_def token_path_def)
qed

text \<open>The rounds of a request: \<open>os\<close> lists the time, the file and the mail command's status of each.\<close>

fun handler_rounds :: "(timeval \<times> bool \<times> int) list \<Rightarrow> fpw \<Rightarrow> fpw option" where
  "handler_rounds [] st = Some st"
| "handler_rounds ((now, opens, code) # os) st = Option.bind (handler_round now opens code st) (handler_rounds os)"

definition tries :: "nat \<Rightarrow> (timeval \<times> bool \<times> int) list \<Rightarrow> nat" where
  "tries n os = min n (Suc (length (takeWhile (\<lambda>(_, _, code). code \<noteq> 0) os)))"

definition forgotten :: "nat \<Rightarrow> string \<Rightarrow> fpw \<Rightarrow> bool" where
  "forgotten u acc st \<longleftrightarrow> queued (timers_of st) [] \<and> fpw_users st u = None \<and> files st (token_path acc) = None"

lemma rounds_idle: "queued (timers_of st) [] \<Longrightarrow> handler_rounds os st = Some st"
proof (induction os)
  case (Cons x os)
  then show ?case by (cases x) (simp add: round_idle)
qed simp

lemma rounds_forget:
  assumes "waiting_call TimeOut_handler u acc token k st" "os \<noteq> []"
  shows "\<exists>st'. handler_rounds os st = Some st' \<and> forgotten u acc st' \<and> commands st' = commands st \<and>
    (\<forall>v. v \<noteq> u \<longrightarrow> fpw_users st' v = fpw_users st v)"
proof -
  obtain now opens code os' where os: "os = (now, opens, code) # os'" using assms(2) by (cases os) auto
  from round_forgets [OF assms(1), of now opens code] obtain st' where st': "handler_round now opens code st = Some st'"
    "queued (timers_of st') []" "fpw_users st' = (fpw_users st)(u := None)" "files st' (token_path acc) = None"
    "commands st' = commands st" by blast
  then have "handler_rounds os st = Some st'" by (simp add: os rounds_idle)
  then show ?thesis using st' by (simp add: forgotten_def)
qed

lemma rounds_run_out:
  assumes "waiting_call SendMail_handler u acc token k st" "length token \<le> 34" "k \<le> 5" "7 - k \<le> length os"
  shows "\<exists>st'. handler_rounds os st = Some st' \<and> forgotten u acc st' \<and>
    commands st' = commands st @ replicate (tries (6 - k) os) (mail_cmd acc token) \<and>
    (\<forall>v. v \<noteq> u \<longrightarrow> fpw_users st' v = fpw_users st v)"
  using assms
proof (induction os arbitrary: k st)
  case (Cons x os)
  obtain now opens code where x: "x = (now, opens, code)" by (cases x)
  from round_sends [OF Cons.prems(1-3), of now opens code] obtain st1 where st1:
    "handler_round now opens code st = Some st1"
    "waiting_call (if code \<noteq> 0 \<and> k < 5 then SendMail_handler else TimeOut_handler) u acc token (if code \<noteq> 0 then k + 1 else k) st1"
    "commands st1 = commands st @ [mail_cmd acc token]" "\<forall>v. v \<noteq> u \<longrightarrow> fpw_users st1 v = fpw_users st v" by blast
  show ?case
  proof (cases "code \<noteq> 0 \<and> k < 5")
    case True
    then have w: "waiting_call SendMail_handler u acc token (k + 1) st1" using st1(2) by simp
    have "k + 1 \<le> 5" "7 - (k + 1) \<le> length os" using True Cons.prems(4) by auto
    from Cons.IH [OF w Cons.prems(2) this] obtain st2 where st2: "handler_rounds os st1 = Some st2" "forgotten u acc st2"
      "commands st2 = commands st1 @ replicate (tries (6 - (k + 1)) os) (mail_cmd acc token)"
      "\<forall>v. v \<noteq> u \<longrightarrow> fpw_users st2 v = fpw_users st1 v" by blast
    have "tries (6 - k) (x # os) = Suc (tries (6 - (k + 1)) os)" using True by (auto simp: tries_def x)
    then show ?thesis using st1 st2 by (simp add: x)
  next
    case False
    have t: "tries (6 - k) (x # os) = 1" using False Cons.prems(3) by (auto simp: tries_def x)
    have w: "waiting_call TimeOut_handler u acc token (if code \<noteq> 0 then k + 1 else k) st1" using st1(2) False by simp
    have "os \<noteq> []" using Cons.prems(3,4) by auto
    from rounds_forget [OF w this] obtain st2 where "handler_rounds os st1 = Some st2" "forgotten u acc st2"
      "commands st2 = commands st1" "\<forall>v. v \<noteq> u \<longrightarrow> fpw_users st2 v = fpw_users st1 v" by blast
    then show ?thesis using st1 t by (simp add: x)
  qed
qed simp

section \<open>The request\<close>

lemma token_length: "length (concat (map hex_byte (md5_of m))) = 32"
proof -
  have "length (concat (map hex_byte bs)) = 2 * length bs" for bs
    by (induction bs) (simp_all add: hex_byte_def)
  moreover have "length (md5_of m) = 16"
    by (cases "md5_blocks (md5_padded m) md5_magic") (simp add: md5_of_def state_words_def)
  ultimately show ?thesis by simp
qed

lemma nat_str_length: "n < 10 ^ Suc k \<Longrightarrow> length (nat_str n) \<le> Suc k"
proof (induction k arbitrary: n)
  case 0
  then show ?case by (simp add: nat_str.simps)
next
  case (Suc k)
  have "n div 10 < 10 ^ Suc k" using Suc.prems by (simp add: less_mult_imp_div_less)
  from Suc.IH [OF this] show ?case by (subst nat_str.simps) simp
qed

lemma secs_length: "length (nat_str (unat (secs :: u32))) \<le> 10"
proof -
  have "unat secs < 2 ^ 32" by (rule order_less_le_trans [OF unsigned_less]) simp
  then show ?thesis using nat_str_length [of "unat secs" 9] by simp
qed

text \<open>No recovery is under way, and the next timer's id is not negative as an \<open>int\<close>.\<close>

definition fpw_ready :: "fpw \<Rightarrow> bool" where
  "fpw_ready st \<longleftrightarrow> (instance_on st \<longrightarrow> queued (timers_of st) [] \<and> 0 \<le> sint (cur_id (timers_of st)))"

definition fpw_token :: "string \<Rightarrow> u32 \<Rightarrow> string" where
  "fpw_token acc secs = concat (map hex_byte (md5_of (map of_char (acc @ nat_str (unat secs)))))"

lemma first_timer:
  assumes q: "queued t []" and c: "0 \<le> sint (cur_id t)" and d: "\<not> in_past (Timeval s us)"
  shows "\<exists>r t'. timer_add Answered True now s us (Some h) (Some u) t = Some (r, t') \<and> 0 \<le> r \<and> waits t' (h, Some u)"
proof -
  obtain a where a: "implements {} t a" using q by (auto simp: queued_def)
  then obtain qs ps where "view t qs ps = a" by (auto elim!: implementsE)
  then have "next_timer a = cur_id t" using view_fields [of t qs ps a] by simp
  moreover have "cur_id t \<noteq> -1" using c by auto
  ultimately have id: "sint (new_id (next_timer a)) = sint (cur_id t)" by (simp add: new_id_def)
  obtain t' where t': "timer_add Answered True now s us (Some h) (Some u) t = Some (sint (cur_id t), t')"
    using timer_add_implements [OF a d, of now h "Some u"] unfolding id by blast
  have "in_future (now, Timeval s us, h, Some u)" using d by (simp add: in_future_def)
  from add_request_queued [OF q this] t' have "queued t' [(now, Timeval s us, h, Some u)]" by (simp add: add_request_def)
  moreover have "the_call (now, Timeval s us, h, Some u) = (h, Some u)" by (simp add: the_call_def)
  ultimately have "waits t' (h, Some u)" unfolding waits_def by blast
  then show ?thesis using t' c by blast
qed

lemma request_waits:
  assumes r: "fpw_ready st" and j: "length (md5_buffer junk) = 64" and l: "length acc < 2 ^ 32 - 80"
  shows "\<exists>st'. FindPwdViaAccount junk Answered True now secs acc st = Some (True, st') \<and>
    waiting_call SendMail_handler (next_user st) acc (fpw_token acc secs) 0 st' \<and> commands st' = commands st \<and>
    (\<forall>v. v \<noteq> next_user st \<longrightarrow> fpw_users st' v = fpw_users st v)"
proof -
  define st0 where "st0 = (if \<not> instance_on st then st\<lparr>instance_on := True, timers_of := timer_init\<rparr> else st)"
  have q: "queued (timers_of st0) []" "0 \<le> sint (cur_id (timers_of st0))"
    using r nothing_queued by (auto simp: st0_def fpw_ready_def timer_init_def)
  have same: "next_user st0 = next_user st" "commands st0 = commands st" "fpw_users st0 = fpw_users st" by (simp_all add: st0_def)
  have "md5 junk (map of_char (acc @ nat_str (unat secs))) = Some (fpw_token acc secs)"
    unfolding fpw_token_def by (rule md5_eq [OF j]) (use l secs_length [of secs] in auto)
  then have tok: "md5 junk (map of_char acc @ map of_char (nat_str (unat secs))) = Some (fpw_token acc secs)" by simp
  have "\<not> in_past (Timeval 0 10)" by (simp add: in_past_def)
  from first_timer [OF q this] obtain r t' where
    "timer_add Answered True now 0 10 (Some SendMail_handler) (Some (next_user st)) (timers_of st0) = Some (r, t')" "0 \<le> r"
    "waits t' (SendMail_handler, Some (next_user st))" by blast
  then show ?thesis using tok same
    by (simp add: FindPwdViaAccount_def AddToTimerList_def lift_timer_def waiting_call_def Let_def flip: st0_def)
qed

lemma request_runs_out:
  assumes "fpw_ready st" "length (md5_buffer junk) = 64" "length acc < 2 ^ 32 - 80" "7 \<le> length os"
  shows "\<exists>st1 st2. FindPwdViaAccount junk Answered True now secs acc st = Some (True, st1) \<and>
    handler_rounds os st1 = Some st2 \<and> forgotten (next_user st) acc st2 \<and>
    commands st2 = commands st @ replicate (tries 6 os) (mail_cmd acc (fpw_token acc secs)) \<and>
    (\<forall>v. v \<noteq> next_user st \<longrightarrow> fpw_users st2 v = fpw_users st v)"
proof -
  from request_waits [OF assms(1-3)] obtain st1 where st1: "FindPwdViaAccount junk Answered True now secs acc st = Some (True, st1)"
    "waiting_call SendMail_handler (next_user st) acc (fpw_token acc secs) 0 st1" "commands st1 = commands st"
    "\<forall>v. v \<noteq> next_user st \<longrightarrow> fpw_users st1 v = fpw_users st v" by blast
  have "length (fpw_token acc secs) \<le> 34" by (simp add: fpw_token_def token_length)
  from rounds_run_out [OF st1(2) this, of os] assms(4) st1 show ?thesis by auto
qed

text \<open>When the answer of the timer's server is lost, the record is deleted although the timer refers to
  it: the next round follows a dangling pointer.\<close>

lemma timer_add_lost:
  "timer_add Answered True now s us h u t = Some (r, t') \<Longrightarrow> 0 \<le> r \<Longrightarrow> timer_add Answer_lost True now s us h u t = Some (-1, t')"
proof (cases "h = None \<or> s < 0 \<or> us < 0 \<or> s = 0 \<and> us = 0")
  case True
  assume "timer_add Answered True now s us h u t = Some (r, t')" "0 \<le> r"
  then show ?thesis using True by (auto simp: timer_add_def)
next
  case False
  assume a: "timer_add Answered True now s us h u t = Some (r, t')" "0 \<le> r"
  let ?P = "handle_proc_req True now (Some (zero_timer\<lparr>action := e_ACTION_TYPY_ADD, handler := h,
    handler_arg := u, timeout := Timeval s us\<rparr>)) t"
  have unf: "timer_add l True now s us h u t = do {
      (ret, req_info, st) \<leftarrow> do {
        (answer, st) \<leftarrow> ?P;
        case answer of
          Some msg \<Rightarrow> if l = Answered then Some (0, msg, st) else Some (-1, zero_timer, st)
        | None \<Rightarrow> Some (-1, zero_timer, st) };
      if ret \<noteq> (0 :: int) then Some (-1, st) else Some (sint (id_of req_info), st) }" if "l \<noteq> Not_sent" for l
    unfolding timer_add_def send_recv_msg_def using False that by auto
  obtain ans st1 where p: "?P = Some (ans, st1)" using a(1) unf [of Answered] by (cases ?P) auto
  have "st1 = t'" using a(1) unfolding unf [of Answered, simplified] p by (cases ans) auto
  then show ?thesis unfolding unf [of Answer_lost, simplified] p by (cases ans) simp_all
qed

lemma lost_answer_dangles:
  assumes r: "fpw_ready st" and j: "length (md5_buffer junk) = 64" and l: "length acc < 2 ^ 32 - 80"
  shows "\<exists>st'. FindPwdViaAccount junk Answer_lost True now secs acc st = Some (True, st') \<and>
    handler_round now' opens code st' = None"
proof -
  define st0 where "st0 = (if \<not> instance_on st then st\<lparr>instance_on := True, timers_of := timer_init\<rparr> else st)"
  have q: "queued (timers_of st0) []" "0 \<le> sint (cur_id (timers_of st0))"
    using r nothing_queued by (auto simp: st0_def fpw_ready_def timer_init_def)
  have "md5 junk (map of_char (acc @ nat_str (unat secs))) = Some (fpw_token acc secs)"
    unfolding fpw_token_def by (rule md5_eq [OF j]) (use l secs_length [of secs] in auto)
  then have tok: "md5 junk (map of_char acc @ map of_char (nat_str (unat secs))) = Some (fpw_token acc secs)" by simp
  let ?u = "next_user st0"
  have "\<not> in_past (Timeval 0 10)" by (simp add: in_past_def)
  from first_timer [OF q this] obtain r t' where
    t': "timer_add Answered True now 0 10 (Some SendMail_handler) (Some ?u) (timers_of st0) = Some (r, t')" "0 \<le> r"
    "waits t' (SendMail_handler, Some ?u)" by blast
  let ?st = "st0\<lparr>fpw_users := ((fpw_users st0)(?u := None)), next_user := Suc ?u, timers_of := t'\<rparr>"
  have run: "FindPwdViaAccount junk Answer_lost True now secs acc st = Some (True, ?st)"
    using tok timer_add_lost [OF t'(1,2)]
    by (simp add: FindPwdViaAccount_def AddToTimerList_def lift_timer_def Let_def flip: st0_def)
  obtain e where "queued t' [e]" "the_call e = (SendMail_handler, Some ?u)" using t'(3) by (auto simp: waits_def)
  with run_next_queued obtain t2 where "run_next t' = Some (Some (SendMail_handler, Some ?u), t2)" by metis
  then have "handler_round now' opens code ?st = None"
    by (simp add: handler_round_def lift_timer_def SendMail_def)
  then show ?thesis using run by blast
qed

end
