(* ===== verification/Closing.thy ===== *)
theory Closing
  imports Serving Progress
begin

text \<open>
  A connection can always be closed. \<open>wires w\<close>: every session in use has its bufferevent, which holds
  in all reachable states if \<open>bufferevent_new\<close> never fails. From such states \<open>DestructResource\<close>, the
  recycling of a session and the destruction of pooled ones return, and their effect on the
  sessions, the pool and the descriptors is stated exactly.
\<close>

section \<open>Destroying pooled sessions\<close>

definition dropped :: "sid list \<Rightarrow> sid list \<Rightarrow> shape \<Rightarrow> shape" where
  "dropped dead pool \<sigma> = (\<lambda>x. if x \<in> set dead then None else fst \<sigma> x, fst (snd \<sigma>), pool, snd (snd (snd \<sigma>)))"

definition blank_pool :: "world \<Rightarrow> bool" where
  "blank_pool w \<longleftrightarrow> distinct (sessionList w) \<and> (\<forall>x \<in> set (sessionList w). \<exists>u. sess w x = Some u \<and> idle u)"

lemma delete_idle:
  assumes "seat_inv {} w" "sess w s = Some u" "idle u"
  shows "\<exists>w'. delete_session E s w = Some w' \<and> seat_inv {} w' \<and> closed_fds w' = closed_fds w \<and>
    shape w' = ((fst (shape w))(s := None), snd (shape w))"
proof -
  obtain w' where w': "delete_session E s w = Some w'" "closed_fds w' = closed_fds w"
    using assms(2,3) by (auto simp: delete_session_def DestructResource_def leave_current_board_def idle_def upd_sess_def Let_def)
  then show ?thesis using delete_session_inv [OF assms w'(1)] by blast
qed

lemma destroy_back_shape:
  assumes "seat_inv {} w" "blank_pool w" "n \<le> length (sessionList w)"
  shows "\<exists>w'. destroy_back E n w = Some w' \<and> seat_inv {} w' \<and> closed_fds w' = closed_fds w \<and>
    shape w' = dropped (drop (length (sessionList w) - n) (sessionList w)) (take (length (sessionList w) - n) (sessionList w)) (shape w)"
  using assms
proof (induction n arbitrary: w)
  case 0
  then show ?case by (auto simp: dropped_def shape_def)
next
  case (Suc n)
  let ?p = "sessionList w" and ?s = "last (sessionList w)"
  have ne: "?p \<noteq> []" using Suc.prems(3) by auto
  obtain u where u: "sess w ?s = Some u" "idle u"
    using Suc.prems(2) last_in_set [OF ne] unfolding blank_pool_def by blast
  obtain w1 where w1: "delete_session E ?s w = Some w1" "seat_inv {} w1" "closed_fds w1 = closed_fds w"
    "shape w1 = ((fst (shape w))(?s := None), snd (shape w))"
    using delete_idle [OF Suc.prems(1) u] by blast
  let ?w = "w1\<lparr>sessionList := butlast (sessionList w1)\<rparr>"
  have p1: "sessionList w1 = ?p" "threadList w1 = threadList w" "sess_next w1 = sess_next w"
    using w1(4) by (simp_all add: shape_def)
  have s1: "map_option ident (sess w1 x) = (if x = ?s then None else map_option ident (sess w x))" for x
    using fun_cong [OF arg_cong [OF w1(4), of fst], of x] by simp
  have d: "distinct (butlast ?p @ [?s])" using Suc.prems(2) ne by (simp add: blank_pool_def)
  have "\<exists>v. sess w1 x = Some v \<and> idle v" if x: "x \<in> set (butlast ?p)" for x
  proof -
    obtain v where v: "sess w x = Some v" "idle v" using Suc.prems(2) in_set_butlastD [OF x] unfolding blank_pool_def by blast
    have "x \<noteq> ?s" using d x by auto
    then obtain v' where "sess w1 x = Some v'" "ident v' = ident v" using s1 [of x] v by auto
    then show ?thesis using v(2) idle_ident by metis
  qed
  then have "blank_pool ?w" using d p1 by (simp add: blank_pool_def)
  moreover have "n \<le> length (sessionList ?w)" using Suc.prems(3) p1 by simp
  moreover have "seat_inv {} ?w" using w1(2) by simp
  ultimately obtain w' where w': "destroy_back E n ?w = Some w'" "seat_inv {} w'" "closed_fds w' = closed_fds ?w"
    "shape w' = dropped (drop (length (sessionList ?w) - n) (sessionList ?w)) (take (length (sessionList ?w) - n) (sessionList ?w)) (shape ?w)"
    using Suc.IH by blast
  let ?k = "length ?p - Suc n"
  have k: "length (sessionList ?w) - n = ?k" using p1 by simp
  have "take ?k (butlast ?p) = take ?k ?p" using ne by (simp add: butlast_conv_take min_def)
  moreover have "set (drop ?k ?p) = insert ?s (set (drop ?k (butlast ?p)))"
  proof -
    have "drop ?k (butlast ?p @ [?s]) = drop ?k (butlast ?p) @ [?s]" using Suc.prems(3) by simp
    then show ?thesis using append_butlast_last_id [OF ne] by simp
  qed
  ultimately have "shape w' = dropped (drop ?k ?p) (take ?k ?p) (shape w)"
    using w'(4) p1 s1 unfolding k by (auto simp: dropped_def shape_def fun_eq_iff)
  then show ?case using w1 w' ne p1 by auto
qed

section \<open>Closing the descriptor\<close>

lemma closed_kept: "stable (\<lambda>w. halls_ok w \<and> closed_fds w = c)"
  by (auto simp: stable_def keeps_def)

lemma leave_seat_closed:
  "leave_seat b s x w = Some w' \<Longrightarrow> halls_ok w \<Longrightarrow> halls_ok w' \<and> closed_fds w' = closed_fds w"
  using halls_ok_cong [of w' w]
  by (auto simp: leave_seat_def set_status_def upd_sess_def upd_board_def split: if_splits option.splits elim!: bind_SomeE)

lemma LeaveRoomHandle_closed:
  assumes "LeaveRoomHandle E b s x w = Some w'" "halls_ok w"
  shows "halls_ok w' \<and> closed_fds w' = closed_fds w"
proof (rule postD [OF _ assms(1)])
  define K where "K = (\<lambda>v. halls_ok v \<and> closed_fds v = closed_fds w)"
  have st: "stable K" unfolding K_def by (rule closed_kept)
  have seat: "post K P (leave_seat b s y v)" if "K v" "\<And>v. K v \<Longrightarrow> P v" for v P y
    using that leave_seat_closed [of b s y v] by (intro post_any) (auto simp: K_def)
  have "K w" using assms(2) by (simp add: K_def)
  then have "post K K (LeaveRoomHandle E b s x w)"
    unfolding LeaveRoomHandle_def Let_def using st by (auto intro!: calls seat) (rule post_any, auto intro!: calls)+
  then show "post K (\<lambda>v. halls_ok v \<and> closed_fds v = closed_fds w) (LeaveRoomHandle E b s x w)"
    by (simp only: K_def)
qed

text \<open>\<open>DestructResource\<close> closes the session's own descriptor and no other.\<close>

lemma DestructResource_closed:
  assumes "DestructResource E s w = Some w'" "halls_ok w" "seat_inv {} w" "sess w s = Some u"
  shows "closed_fds w' = (if clifd u = -1 then closed_fds w else clifd u # closed_fds w)"
proof -
  obtain w1 u1 where 1: "leave_current_board E s w = Some w1" and u1: "sess w1 s = Some u1"
    and 2: "upd_sess s release_session (if clifd u1 \<noteq> -1 then w1\<lparr>closed_fds := clifd u1 # closed_fds w1\<rparr> else w1) = Some w'"
    using assms(1) by (auto simp: DestructResource_def Let_def elim!: bind_SomeE)
  have "tracked {} (put s ((ident u)\<lparr>currChessBoard := None\<rparr>) (shape w)) w1"
    by (rule postD [OF call_leave_current_board 1, of "shape w"]) (use assms(3,4) in \<open>auto simp: tracked_self\<close>)
  from tracked_sess [OF this u1] have iu: "ident u1 = (ident u)\<lparr>currChessBoard := None\<rparr>" by simp
  have "clifd u1 = clifd u" using arg_cong [OF iu, of clifd] by simp
  moreover have "closed_fds w1 = closed_fds w"
    using 1 LeaveRoomHandle_closed [OF _ assms(2)] assms(4)
    by (auto simp: leave_current_board_def upd_sess_def split: option.splits elim!: bind_SomeE)
  ultimately show ?thesis using 2 by (auto simp: upd_sess_def split: option.splits if_splits)
qed

section \<open>When the session's resources can be released\<close>

definition wires :: "world \<Rightarrow> bool" where
  "wires w \<longleftrightarrow> (\<forall>s v. fst (shape w) s = Some v \<longrightarrow> thread v \<noteq> None \<longrightarrow> bufev v)"

lemma wires_iff: "wires w \<longleftrightarrow> (\<forall>s u. sess w s = Some u \<longrightarrow> thread u \<noteq> None \<longrightarrow> bufev u)"
proof
  assume w: "wires w"
  show "\<forall>s u. sess w s = Some u \<longrightarrow> thread u \<noteq> None \<longrightarrow> bufev u"
  proof (intro allI impI)
    fix s u assume "sess w s = Some u" "thread u \<noteq> None"
    then show "bufev u" using w [unfolded wires_def, rule_format, of s "ident u"] by simp
  qed
qed (auto simp: wires_def)

text \<open>The outside world in order: the library reports errors as documented, events can be created.\<close>

definition env_ok :: "env \<Rightarrow> bool" where
  "env_ok E \<longleftrightarrow> end_reads_null E \<and> db_plain E \<and> (\<forall>fd. bufferevent_ok E fd)"

definition in_use :: "world \<Rightarrow> sid set" where
  "in_use w = {x. \<exists>v. sess w x = Some v \<and> thread v = Some 0}"

lemma closing_going:
  assumes i: "srv_inv {} Y Z w" and YZ: "Y \<subseteq> {s}" "Z \<subseteq> {s}" and u: "sess w s = Some u" "thread u = Some 0"
    and m: "stateMachine u \<noteq> None" and wi: "wires w" and E: "env_ok E"
  shows "going E (in_use w) {b. boards w b \<noteq> None} {s} w"
proof -
  obtain th where T: "threadList w = [th]" and l: "live_in Z (fst (shape w)) th (sessionList w) (sess_next w)"
    using i by (rule threads_one)
  have si: "seat_inv {} w" and pl: "placed Y (shape w)" using i by (simp_all add: srv_inv_def)
  have seated: "\<exists>v. sess w x = Some v \<and> thread v = Some 0 \<and> stateMachine v \<noteq> None" if x: "sits_at w b l x" for b l x
  proof -
    obtain v where v: "sess w x = Some v" "currChessBoard v = Some b"
      using x si unfolding seat_inv_def has_place_def by blast
    show ?thesis
    proof (cases "x = s")
      case True
      then show ?thesis using u m by simp
    next
      case False
      have "x \<notin> set (sessionList w)" using live_in_pool [OF l, of x] v by (auto simp: idle_def)
      then have "sm_find (clifd v) (fdSessionMap th) = Some x"
        using live_in_all [OF l, of x "ident v"] v(1) False YZ by auto
      from live_in_conn [OF l this] have "thread v = Some 0" using v(1) by auto
      moreover have "stateMachine v \<noteq> None" using pl v False YZ(1) unfolding placed_def by fastforce
      ultimately show ?thesis using v(1) by simp
    qed
  qed
  have "set (all_sessions w) \<subseteq> in_use w"
  proof
    fix x assume "x \<in> set (all_sessions w)"
    then have "x \<in> set (sm_vals (fdSessionMap th))" using T by (simp add: all_sessions_def)
    then obtain k where "(k, x) \<in> set (fdSessionMap th)" by (auto simp: sm_vals_def)
    moreover have "sm_ok (fdSessionMap th)" using live_in_fds(1) [OF l] by (simp add: fds_ok_def)
    ultimately have "sm_find k (fdSessionMap th) = Some x" by (intro sm_find_set)
    from live_in_conn [OF l this] obtain v where "fst (shape w) x = Some v" "thread v = Some 0" by blast
    then show "x \<in> in_use w" by (auto simp: in_use_def)
  qed
  moreover have "\<forall>x \<in> in_use w. \<exists>v. sess w x = Some v \<and> usable w v"
  proof
    fix x assume "x \<in> in_use w"
    then obtain v where v: "sess w x = Some v" "thread v = Some 0" by (auto simp: in_use_def)
    have "bufev (ident v)" using wi v unfolding wires_def by (metis ident_fields(2) option.distinct(1) option.simps(9) shape_sel(1))
    then show "\<exists>v. sess w x = Some v \<and> usable w v" using v T by (auto simp: usable_def the_thread_def)
  qed
  moreover have "\<forall>b l x. sits_at w b l x \<longrightarrow> x \<in> in_use w" using seated by (fastforce simp: in_use_def)
  moreover have "halls_ok w" "boards_ok w" using si by (simp_all add: seat_inv_def)
  ultimately have "wired E (in_use w) {b. boards w b \<noteq> None} w" using E unfolding wired_def env_ok_def by blast
  moreover have "started {s} w" unfolding started_def using seated u m by blast
  ultimately show ?thesis by (simp add: going_def)
qed

lemma DestructResource_returns:
  assumes i: "srv_inv {} Y Z w" and YZ: "Y \<subseteq> {s}" "Z \<subseteq> {s}" and u: "sess w s = Some u" "thread u = Some 0"
    and m: "currChessBoard u \<noteq> None \<Longrightarrow> stateMachine u \<noteq> None" and wi: "wires w" and E: "env_ok E"
  shows "\<exists>w'. DestructResource E s w = Some w'"
proof -
  have "\<exists>w1. leave_current_board E s w = Some w1 \<and> sess w1 s \<noteq> None"
  proof (cases "currChessBoard u")
    case None
    then show ?thesis using u by (auto simp: leave_current_board_def)
  next
    case (Some b)
    have g: "going E (in_use w) {b. boards w b \<noteq> None} {s} w"
      using closing_going [OF i YZ u _ wi E] m Some by simp
    have "boards w b \<noteq> None" using i u(1) Some seat_inv_place [of "{}" w s u b] by (auto simp: srv_inv_def)
    moreover have "s \<in> in_use w" using u by (simp add: in_use_def)
    ultimately obtain w1 where w1: "LeaveRoomHandle E b s True w = Some w1"
      using leave_returns [OF g, of b s True] by (auto simp: ret_def)
    have "tracked {s} (shape w) w1"
      by (rule postD [OF call_LeaveRoom_exit w1, of "shape w" "ident u"]) (use i u Some in \<open>auto simp: srv_inv_def tracked_self\<close>)
    then have "sess w1 s \<noteq> None" using u(1) by (auto simp: tracked_def shape_def fun_eq_iff dest!: spec [of _ s])
    then show ?thesis using u(1) Some w1 by (auto simp: leave_current_board_def upd_sess_def)
  qed
  then show ?thesis by (auto simp: DestructResource_def Let_def upd_sess_def)
qed

section \<open>Recycling\<close>

text \<open>\<open>RecycleSession\<close> returns once \<open>DestructResource\<close> does. It puts the blanked session in front of the
  pool and cuts the pool off after ten sessions when it has grown to twenty.\<close>

definition pool_cut :: "sid list \<Rightarrow> nat" where
  "pool_cut pool = (if length pool \<ge> 2 * connectionMaxStep then length pool - connectionMaxStep else length pool)"

lemma recycle_shape:
  assumes si: "seat_inv {} w" and bp: "blank_pool w" and s: "s \<notin> set (sessionList w)" and u: "sess w s = Some u"
    and c: "clifd u \<noteq> -1 \<or> thread u = None" and d: "DestructResource E s w = Some w1"
  shows "\<exists>w' v'. RecycleSession E s w = Some w' \<and> seat_inv {} w' \<and> idle v' \<and>
    closed_fds w' = (if clifd u = -1 then closed_fds w else clifd u # closed_fds w) \<and>
    shape w' = dropped (drop (pool_cut (s # sessionList w)) (s # sessionList w))
      (take (pool_cut (s # sessionList w)) (s # sessionList w)) (put s v' (shape w))"
proof -
  obtain v' where w1: "seat_inv {} w1" "shape w1 = put s v' (shape w)" "idle v'"
    using DestructResource_idle [OF si u c d] by blast
  have cl: "closed_fds w1 = (if clifd u = -1 then closed_fds w else clifd u # closed_fds w)"
    using DestructResource_closed [OF d seat_inv_halls [OF si] si u] .
  have f: "sessionList w1 = sessionList w" "threadList w1 = threadList w" "sess_next w1 = sess_next w"
    using w1(2) by (simp_all add: shape_def put_def)
  have g: "map_option ident (sess w1 x) = (if x = s then Some v' else map_option ident (sess w x))" for x
    using fun_cong [OF arg_cong [OF w1(2), of fst], of x] by (simp split: if_splits)
  let ?p = "s # sessionList w"
  let ?w = "w1\<lparr>sessionList := ?p\<rparr>"
  have blank: "\<exists>v. sess w1 x = Some v \<and> idle v" if x: "x \<in> set ?p" for x
  proof (cases "x = s")
    case True
    then obtain v where v: "sess w1 x = Some v" "ident v = v'" using g [of x] by auto
    then have "idle v" using w1(3) idle_ident [of v] by simp
    then show ?thesis using v(1) by blast
  next
    case False
    then obtain v0 where v0: "sess w x = Some v0" "idle v0" using bp x unfolding blank_pool_def by auto
    then obtain v where v: "sess w1 x = Some v" "ident v = ident v0" using g [of x] False by auto
    then have "idle v" using v0(2) idle_ident [of v] idle_ident [of v0] by simp
    then show ?thesis using v(1) by blast
  qed
  have bp1: "blank_pool ?w" using bp s blank by (simp add: blank_pool_def)
  have run: "RecycleSession E s w = (if length ?p \<ge> 2 * connectionMaxStep
      then DestrorySessionsFromPool E connectionMaxStep False ?w else Some ?w)"
    using d f by (simp add: RecycleSession_def Let_def)
  have sh: "shape ?w = (fst (put s v' (shape w)), threadList w, ?p, sess_next w)"
    using w1(2) f by (simp add: shape_def put_def)
  show ?thesis
  proof (cases "length ?p \<ge> 2 * connectionMaxStep")
    case False
    then have "pool_cut ?p = length ?p" by (simp add: pool_cut_def)
    moreover have "RecycleSession E s w = Some ?w" unfolding run using False by simp
    moreover have "shape ?w = dropped [] ?p (put s v' (shape w))" unfolding sh by (auto simp: dropped_def put_def fun_eq_iff)
    ultimately show ?thesis using w1(1,3) cl by (intro exI [of _ ?w] exI [of _ v']) simp
  next
    case True
    then have k: "pool_cut ?p = length ?p - connectionMaxStep" "connectionMaxStep \<le> length (sessionList ?w)"
      by (simp_all add: pool_cut_def)
    obtain w' where w': "destroy_back E connectionMaxStep ?w = Some w'" "seat_inv {} w'" "closed_fds w' = closed_fds ?w"
      "shape w' = dropped (drop (length ?p - connectionMaxStep) ?p) (take (length ?p - connectionMaxStep) ?p) (shape ?w)"
      using destroy_back_shape [OF _ bp1 k(2), of E] w1(1) by auto
    have "min (length (sessionList ?w)) connectionMaxStep = connectionMaxStep" using k(2) by simp
    then have "RecycleSession E s w = Some w'"
      unfolding run using True w'(1) by (simp add: DestrorySessionsFromPool_def connectionMaxStep_def)
    moreover have "shape w' = dropped (drop (pool_cut ?p) ?p) (take (pool_cut ?p) ?p) (put s v' (shape w))"
      unfolding w'(4) sh k(1) by (simp add: dropped_def put_def cong: if_cong)
    ultimately show ?thesis using w'(2,3) w1(3) cl by (intro exI [of _ w'] exI [of _ v']) simp
  qed
qed

lemma live_dropped:
  assumes l: "live_in {} g th pool nxt"
  shows "live_in {} (\<lambda>x. if x \<in> set (drop k pool) then None else g x) th (take k pool) nxt"
proof -
  have d: "distinct (take k pool)" "set (take k pool) \<inter> set (drop k pool) = {}"
    using live_in_fds(2) [OF l] by (simp_all add: set_take_disj_set_drop_if_distinct)
  have cut: "x \<in> set pool \<longleftrightarrow> x \<in> set (take k pool) \<or> x \<in> set (drop k pool)" for x
    by (metis Un_iff append_take_drop_id set_append)
  show ?thesis
  proof (rule live_inI)
    show "fds_ok th" using l by (rule live_in_fds)
    show "distinct (take k pool)" by (rule d)
  next
    fix fd s assume "sm_find fd (fdSessionMap th) = Some s"
    from live_in_conn [OF l this] obtain v where v: "g s = Some v" "clifd v = fd" "thread v = Some 0" by blast
    then have "s \<notin> set pool" using live_in_pool [OF l, of s] by (auto simp: idle_def)
    then show "s \<notin> {} \<and> (\<exists>v. (if s \<in> set (drop k pool) then None else g s) = Some v \<and> clifd v = fd \<and> thread v = Some 0)"
      using v cut by auto
  next
    fix s assume s: "s \<in> set (take k pool)"
    then have "s \<notin> set (drop k pool)" using d(2) by blast
    then show "s \<notin> {} \<and> (\<exists>v. (if s \<in> set (drop k pool) then None else g s) = Some v \<and> idle v)"
      using live_in_pool [OF l, of s] s cut by auto
  next
    fix s v assume "(if s \<in> set (drop k pool) then None else g s) = Some v"
    then have "s \<notin> set (drop k pool)" "g s = Some v" by (auto split: if_splits)
    then show "s < nxt \<and> (s \<in> {} \<or> s \<in> set (take k pool) \<or> sm_find (clifd v) (fdSessionMap th) = Some s)"
      using live_in_all [OF l, of s v] cut by blast
  qed
qed

section \<open>Every connection can be closed\<close>

text \<open>What is waiting in the threads' pipes, and whether their loops are to end.\<close>

definition pipes :: "world \<Rightarrow> (PipeMsg list \<times> bool) list" where
  "pipes w = map (\<lambda>th. (notify_pipe th, loop_exit th)) (threadList w)"

definition steady :: "world \<Rightarrow> world \<Rightarrow> bool" where
  "steady w w' \<longleftrightarrow> wires w' \<and> pipes w' = pipes w"

lemma steady_trans: "steady a b \<Longrightarrow> steady b c \<Longrightarrow> steady a c"
  by (simp add: steady_def)

lemma wires_dropped:
  assumes "wires w" "shape w' = dropped dead pool (put s v (shape w))" "idle v"
  shows "wires w'"
  using assms(1,3) unfolding wires_def assms(2) by (auto simp: dropped_def idle_def split: if_splits simp del: shape_sel)

lemma blank_live: "live_in Z (fst (shape w)) th (sessionList w) nxt \<Longrightarrow> blank_pool w"
  using live_in_pool live_in_fds(2) unfolding blank_pool_def by fastforce

lemma close_returns:
  assumes i: "srv_inv {} Y {} w" and Y: "Y \<subseteq> {s}" and c: "connected w t fd s" and u: "sess w s = Some u"
    and m: "currChessBoard u \<noteq> None \<Longrightarrow> stateMachine u \<noteq> None" and wi: "wires w" and E: "env_ok E"
  shows "\<exists>w'. ClosingClientCon E t fd w = Some (True, w') \<and> steady w w' \<and> closed_fds w' = fd # closed_fds w"
proof -
  obtain th where T: "threadList w = [th]" and l: "live_in {} (fst (shape w)) th (sessionList w) (sess_next w)"
    using i by (rule threads_one)
  have t: "t = 0" and f: "sm_find fd (fdSessionMap th) = Some s" using c T by (simp_all add: connected_one)
  let ?th = "th\<lparr>fdSessionMap := sm_erase fd (fdSessionMap th)\<rparr>"
  let ?w = "w\<lparr>threadList := [?th]\<rparr>"
  have su: "thread u = Some 0" "clifd u = fd" using live_in_conn [OF l f] u by auto
  have fd: "fd \<noteq> -1" using live_in_nonneg [OF l f] by simp
  have sh: "shape ?w = (fst (shape w), [?th], sessionList w, sess_next w)" by (simp add: shape_def)
  have i1: "srv_inv {} Y {s} ?w"
    using i live_aside [OF l f] unfolding srv_inv_def sh by (simp add: live_def placed_def del: shape_sel)
  have wi1: "wires ?w" using wi by (simp add: wires_def)
  obtain w1 where w1: "DestructResource E s ?w = Some w1"
    using DestructResource_returns [OF i1 Y order.refl _ su(1) m wi1 E] u by auto
  have si: "seat_inv {} ?w" using i1 by (simp add: srv_inv_def)
  have bp: "blank_pool ?w" using blank_live [OF l] by (simp add: blank_pool_def)
  have s: "s \<notin> set (sessionList ?w)" using live_in_pool [OF l, of s] u su by (auto simp: idle_def)
  have "sess ?w s = Some u" "clifd u \<noteq> -1 \<or> thread u = None" using u su fd by simp_all
  from recycle_shape [OF si bp s this w1] obtain w' v' where w': "RecycleSession E s ?w = Some w'" "idle v'"
    "closed_fds w' = fd # closed_fds w" "shape w' = dropped (drop (pool_cut (s # sessionList ?w)) (s # sessionList ?w))
      (take (pool_cut (s # sessionList ?w)) (s # sessionList ?w)) (put s v' (shape ?w))"
    using su(2) fd by auto
  have "threadList w' = threadList ?w" using arg_cong [OF w'(4), of "fst \<circ> snd"] by (simp add: dropped_def put_def)
  then have "steady w w'" using wires_dropped [OF wi1 w'(4,2)] T by (simp add: steady_def pipes_def)
  moreover have "ClosingClientCon E t fd w = Some (True, w')"
    using w'(1) T t f by (simp add: ClosingClientCon_def the_thread_def upd_thread_def)
  ultimately show ?thesis using w'(3) by blast
qed

lemma placed_machine: "placed {} (shape w) \<Longrightarrow> sess w s = Some u \<Longrightarrow> currChessBoard u \<noteq> None \<Longrightarrow> stateMachine u \<noteq> None"
  unfolding placed_def by fastforce

lemma close_any:
  assumes i: "world_ok w" and wi: "wires w" and E: "env_ok E" and t: "t < length (threadList w)"
  shows "\<exists>w'. ClosingClientCon E t fd w = Some (True, w') \<and> steady w w'"
proof (cases "\<exists>s. connected w t fd s")
  case True
  then obtain s where c: "connected w t fd s" by blast
  obtain u where u: "sess w s = Some u" using i c by (rule connected_sess)
  have "placed {} (shape w)" using world_okD(1) [OF i] by (simp add: srv_inv_def)
  from close_returns [OF world_okD(1) [OF i] _ c u placed_machine [OF this u] wi E] show ?thesis by blast
next
  case False
  then show ?thesis using t wi by (auto simp: connected_def ClosingClientCon_def the_thread_def steady_def split: option.split)
qed

section \<open>Every session in use keeps its bufferevent\<close>

lemma wires_shape: "shape w' = shape w \<Longrightarrow> wires w' = wires w"
  by (simp add: wires_def del: shape_sel)

lemma wires_upd:
  assumes "upd_sess s f w = Some w'" "\<And>u. ident (f u) = ident u"
  shows "wires w' = wires w"
proof -
  obtain u where "sess w s = Some u" "w' = w\<lparr>sess := (sess w)(s \<mapsto> f u)\<rparr>" using sess_upd [OF assms(1)] by blast
  then have "shape w' = shape w" using assms(2) [of u] by (auto simp: shape_def fun_eq_iff)
  then show ?thesis by (rule wires_shape)
qed

lemma steady_upd:
  assumes "upd_sess s f w = Some w'" "\<And>u. ident (f u) = ident u" "wires w"
  shows "steady w w'"
  using wires_upd [OF assms(1,2)] sess_upd [OF assms(1)] assms(3) by (auto simp: steady_def pipes_def)

lemma message_wires:
  assumes i: "world_ok w" and c: "connected w t fd s" and wi: "wires w"
    and r: "UserSession_MessageHandle E s ty msg w = Some (ok, w1)"
  shows "steady w w1" "\<exists>u. sess w1 s = Some u \<and> stateMachine u \<noteq> None"
proof -
  obtain u where u: "sess w s = Some u" "clifd u = fd" "thread u = Some 0" using i c by (rule connected_sess)
  note m = session_message [OF world_okD(1) [OF i] u(1) _ r]
  obtain u1 where u1: "sess w1 s = Some u1" "stateMachine u1 \<noteq> None" "bufev u1 = bufev u" using m(3) u(3) by auto
  then show "\<exists>u. sess w1 s = Some u \<and> stateMachine u \<noteq> None" by blast
  have "wires w1"
    unfolding wires_def
  proof (intro allI impI)
    fix x v assume v: "fst (shape w1) x = Some v" "thread v \<noteq> None"
    have old: "fst (shape w) x = Some v0 \<Longrightarrow> thread v0 \<noteq> None \<Longrightarrow> bufev v0" for v0 using wi unfolding wires_def by blast
    show "bufev v"
    proof (cases "x = s")
      case True
      then show ?thesis using v u1 old [of "ident u"] u by auto
    next
      case False
      then have "fst (shape w1) x = fst (shape w) x \<or>
          (\<exists>v0. fst (shape w) x = Some v0 \<and> fst (shape w1) x = Some (evicted v0))"
        using m(4) u(3) unfolding others_kept_def by fastforce
      then show ?thesis
      proof
        assume "fst (shape w1) x = fst (shape w) x"
        then show ?thesis using old [of v] v by (simp del: shape_sel)
      next
        assume "\<exists>v0. fst (shape w) x = Some v0 \<and> fst (shape w1) x = Some (evicted v0)"
        then obtain v0 where "fst (shape w) x = Some v0" "v = evicted v0" using v(1) by auto
        then show ?thesis using old [of v0] v(2) by (simp add: evicted_def del: shape_sel)
      qed
    qed
  qed
  moreover have "threadList w1 = threadList w" using m(2) u(3) by (simp add: shape_def)
  ultimately show "steady w w1" by (simp add: steady_def pipes_def)
qed

lemma handle_wires:
  assumes i: "world_ok w" and c: "connected w t fd s" and wi: "wires w" and E: "env_ok E"
    and r: "WorkThread_MessageHandle E t fd ty msg w = Some (ok, w')"
  shows "steady w w'"
proof -
  obtain w1 where 1: "UserSession_MessageHandle E s ty msg w = Some (ok, w1)"
    and 2: "if ok then ResetTimer s w1 = Some w' else \<exists>x. ClosingClientCon E t fd w1 = Some (x, w')"
    using c r by (rule thread_message)
  note h = handled_session [OF i c 1] and m = message_wires [OF i c wi 1]
  have wi1: "wires w1" using m(1) by (simp add: steady_def)
  have "steady w1 w'"
  proof (cases ok)
    case True
    then have "upd_sess s (\<lambda>u. u\<lparr>timer_on := True\<rparr>) w1 = Some w'" using 2 by (simp add: ResetTimer_def)
    then show ?thesis by (rule steady_upd) (simp_all add: wi1)
  next
    case False
    obtain u1 where u1: "sess w1 s = Some u1" "stateMachine u1 \<noteq> None" using m(2) by blast
    have "srv_inv {} {s} {} w1" using h(1) False by simp
    from close_returns [OF this _ h(3) u1(1) u1(2) wi1 E] 2 False show ?thesis by auto
  qed
  with m(1) show ?thesis by (rule steady_trans)
qed

lemma read_wires:
  assumes i: "world_ok w" and c: "connected w t fd s" and wi: "wires w" and E: "env_ok E" and r: "OnReadCb E s w = Some w'"
  shows "steady w w'"
proof -
  obtain u where u: "sess w s = Some u" "clifd u = fd" "thread u = Some 0" using i c by (rule connected_sess)
  have t: "t = 0" using c i by (metis connected_one world_threads)
  define K where "K v \<longleftrightarrow> connected v 0 fd s \<and> world_ok v \<and> steady w v" for v
  have keep: "K w1" if "upd_sess s f w0 = Some w1" "\<And>v. ident (f v) = ident v" "K w0" for f w0 w1
  proof -
    have k: "connected w0 0 fd s" "world_ok w0" "steady w w0" using that(3) by (simp_all add: K_def)
    then have "steady w0 w1" using steady_upd [OF that(1,2)] by (simp add: steady_def)
    moreover have "threadList w1 = threadList w0" using sess_upd [OF that(1)] by auto
    ultimately show ?thesis
      using k world_ok_upd_sess [OF k(2) that(1,2)] steady_trans [OF k(3)] by (simp add: K_def connected_def)
  qed
  have use: "connected v 0 fd s" "world_ok v" "wires v" "0 < length (threadList v)" "steady v v' \<Longrightarrow> steady w v'" if "K v" for v v'
    using that steady_trans [of w v v'] by (auto simp: K_def steady_def connected_def)
  have k: "K w" using c t i wi by (simp add: K_def steady_def)
  show ?thesis
  proof (cases "read_head (length (inbuf u)) u")
    case None
    then obtain w1 ok where 1: "upd_sess s (\<lambda>u. u\<lparr>buf_info := (buf_info u)\<lparr>total_size := get_le32 0 (inbuf u),
                msg_type := get_le32 4 (inbuf u)\<rparr>\<rparr>) w = Some w1" and 2: "ClosingClientCon E 0 fd w1 = Some (ok, w')"
      using r u by (auto simp: OnReadCb_def Let_def elim!: bind_SomeE)
    have k1: "K w1" by (rule keep [OF 1 _ k]) simp
    from close_any [OF use(2,3) [OF k1] E use(4) [OF k1], of fd] 2 show ?thesis using use(5) [OF k1] by auto
  next
    case (Some u')
    have iu: "ident u' = ident u" using Some by (auto simp: read_head_def Let_def split: if_splits)
    let ?n = "unat (total_size (buf_info u'))"
    obtain w1 where 1: "upd_sess s (\<lambda>_. u') w = Some w1"
      and 2: "(if length (inbuf u) = ?n \<and> got_head (buf_info u') then
           if ?n < DATA_HEAD_LENGTH then None
           else do {
             w \<leftarrow> upd_sess s (\<lambda>u. (GetBuffer ?n u)\<lparr>inbuf := drop ?n (inbuf u)\<rparr>) w1;
             (ok, w) \<leftarrow> WorkThread_MessageHandle E 0 (clifd u') (msg_type (buf_info u'))
                          (drop DATA_HEAD_LENGTH (take ?n (inbuf u'))) w;
             if ok then upd_sess s (\<lambda>u. u\<lparr>buf_info := ReadBufInfo_Reset\<rparr>) w else Some w }
         else Some w1) = Some w'"
      using r u Some by (auto simp: OnReadCb_def Let_def elim!: bind_SomeE)
    have k1: "K w1"
    proof (rule keep [OF _ _ k])
      show "upd_sess s (\<lambda>v. if v = u then u' else v) w = Some w1" using 1 u by (simp add: upd_sess_def)
      show "ident (if v = u then u' else v) = ident v" for v using iu by simp
    qed
    show ?thesis
    proof (cases "length (inbuf u) = ?n \<and> got_head (buf_info u')")
      case False
      then show ?thesis using 2 k1 by (auto simp: K_def)
    next
      case True
      then obtain w2 ok w3 where 3: "upd_sess s (\<lambda>u. (GetBuffer ?n u)\<lparr>inbuf := drop ?n (inbuf u)\<rparr>) w1 = Some w2"
        and 4: "WorkThread_MessageHandle E 0 (clifd u') (msg_type (buf_info u'))
                          (drop DATA_HEAD_LENGTH (take ?n (inbuf u'))) w2 = Some (ok, w3)"
        and 5: "(if ok then upd_sess s (\<lambda>u. u\<lparr>buf_info := ReadBufInfo_Reset\<rparr>) w3 else Some w3) = Some w'"
        using 2 by (auto elim!: bind_SomeE split: if_splits)
      have k2: "K w2" by (rule keep [OF 3 _ k1]) simp
      have "clifd u' = fd" using ident_eqD(1) [OF iu] u(2) by simp
      with 4 have s3: "steady w2 w3" using handle_wires [OF use(2,1,3) [OF k2] E] by simp
      have "steady w3 w'"
      proof (cases ok)
        case True
        then have "upd_sess s (\<lambda>u. u\<lparr>buf_info := ReadBufInfo_Reset\<rparr>) w3 = Some w'" using 5 by simp
        then show ?thesis by (rule steady_upd) (use s3 in \<open>simp_all add: steady_def\<close>)
      qed (use 5 s3 in \<open>simp add: steady_def\<close>)
      then show ?thesis using use(5) [OF k2] s3 steady_trans by blast
    qed
  qed
qed

text \<open>Callbacks that close: an error event and the time-out.\<close>

lemma OnEventCb_returns:
  assumes i: "world_ok w" and wi: "wires w" and E: "env_ok E" and c: "connected w t fd s"
  shows "\<exists>w'. OnEventCb E s ev w = Some w' \<and> steady w w'"
proof -
  obtain u where u: "sess w s = Some u" "clifd u = fd" "thread u = Some 0" using i c by (rule connected_sess)
  have "0 < length (threadList w)" using c by (auto simp: connected_def)
  then obtain w' where "ClosingClientCon E 0 fd w = Some (True, w')" "steady w w'" using close_any [OF i wi E] by blast
  then show ?thesis using u wi by (auto simp: OnEventCb_def steady_def)
qed

lemma TimerOutHandle_returns:
  assumes i: "world_ok w" and wi: "wires w" and E: "env_ok E" and c: "connected w t fd s"
  shows "\<exists>w'. TimerOutHandle E s w = Some w' \<and> steady w w'"
proof -
  obtain u where u: "sess w s = Some u" "clifd u = fd" "thread u = Some 0" using i c by (rule connected_sess)
  let ?f = "\<lambda>u. u\<lparr>timer_on := False\<rparr>"
  let ?w = "w\<lparr>sess := (sess w)(s \<mapsto> ?f u)\<rparr>"
  have up: "upd_sess s ?f w = Some ?w" using u by (simp add: upd_sess_def)
  have "world_ok ?w" using world_ok_upd_sess [OF i up] by simp
  moreover have st: "steady w ?w" using steady_upd [OF up] wi by simp
  moreover have "0 < length (threadList ?w)" using c by (auto simp: connected_def)
  ultimately obtain w' where "ClosingClientCon E 0 fd ?w = Some (True, w')" "steady ?w w'"
    using close_any [of ?w E 0 fd] E by (auto simp: steady_def)
  then show ?thesis using u up steady_trans [OF st] by (auto simp: TimerOutHandle_def)
qed

section \<open>In every reachable state\<close>

lemma alloc_wires: "wires w \<Longrightarrow> wires (CreatSessionsPool n w)"
proof (induction n arbitrary: w)
  case (Suc n)
  have "wires (alloc_session w)"
    using Suc.prems by (auto simp: wires_iff alloc_session_def UserSession_new_def split: if_splits)
  then show ?case using Suc.IH by simp
qed simp

lemma notify_wires:
  assumes "wires w" "env_ok E" "NotifyReceivedProcess E t w = Some w'"
  shows "wires w'"
proof -
  have th: "wires (v\<lparr>threadList := x\<rparr>) = wires v" for v x by (simp add: wires_iff)
  have up: "upd_thread t f v = Some v' \<Longrightarrow> wires v' = wires v" for f v v'
    by (auto simp: upd_thread_def th split: if_splits)
  have pool: "GetOneSessionFromPool v = Some (s, v') \<Longrightarrow> wires v \<Longrightarrow> wires v'" for v v' s
    using alloc_wires [of v connectionMaxStep]
    by (auto simp: GetOneSessionFromPool_def Let_def wires_iff split: if_splits list.splits)
  have add: "add_session E t fd s v = Some v' \<Longrightarrow> wires v \<Longrightarrow> wires v'" for fd s v v'
    using assms(2) by (auto simp: add_session_def env_ok_def wires_iff upd_sess_def dest!: up [unfolded wires_iff]
      split: option.splits if_splits elim!: bind_SomeE)
  show ?thesis
    using assms(1,3) by (auto simp: NotifyReceivedProcess_def up split: list.splits if_splits elim!: bind_SomeE dest!: add pool)
qed

text \<open>Only new connections wait in the pipe, and no loop is told to end before the server stops.\<close>

definition adds_only :: "world \<Rightarrow> bool" where
  "adds_only w \<longleftrightarrow> (\<forall>(p, x) \<in> set (pipes w). \<not> x \<and> (\<forall>m \<in> set p. command m = COMMAND_NOTIFY_ADD_EVENT))"

lemma adds_thread:
  "adds_only w \<longleftrightarrow> (\<forall>th \<in> set (threadList w). \<not> loop_exit th \<and> (\<forall>m \<in> set (notify_pipe th). command m = COMMAND_NOTIFY_ADD_EVENT))"
  by (auto simp: adds_only_def pipes_def)

lemma adds_upd:
  assumes "upd_thread t f v = Some v'" "adds_only v"
    and "\<And>th. loop_exit (f th) = loop_exit th" "\<And>th m. m \<in> set (notify_pipe (f th)) \<Longrightarrow> m \<in> set (notify_pipe th) \<or> command m = COMMAND_NOTIFY_ADD_EVENT"
  shows "adds_only v'"
proof -
  have v': "threadList v' = (threadList v)[t := f (threadList v ! t)]" and t: "t < length (threadList v)"
    using assms(1) by (auto simp: upd_thread_def split: if_splits)
  have old: "\<not> loop_exit th \<and> (\<forall>m \<in> set (notify_pipe th). command m = COMMAND_NOTIFY_ADD_EVENT)" if "th \<in> set (threadList v)" for th
    using assms(2) that unfolding adds_thread by blast
  have "\<not> loop_exit th \<and> (\<forall>m \<in> set (notify_pipe th). command m = COMMAND_NOTIFY_ADD_EVENT)" if "th \<in> set (threadList v')" for th
  proof -
    have "th \<in> set (threadList v) \<or> th = f (threadList v ! t)" using that set_update_subset_insert unfolding v' by fastforce
    then show ?thesis using old [of th] old [OF nth_mem [OF t]] assms(3,4) by blast
  qed
  then show ?thesis unfolding adds_thread by blast
qed

lemma notify_adds:
  assumes "adds_only w" "NotifyReceivedProcess E t w = Some w'"
  shows "adds_only w'"
proof -
  have pool: "pipes v' = pipes v" if "GetOneSessionFromPool v = Some (s, v')" for v v' s
  proof -
    have "threadList (CreatSessionsPool n x) = threadList x" for n x
      by (induction n arbitrary: x) (simp_all add: alloc_session_def)
    then show ?thesis using that by (auto simp: GetOneSessionFromPool_def Let_def pipes_def split: if_splits list.splits)
  qed
  have add: "adds_only v'" if a: "add_session E t fd s v = Some v'" "adds_only v" for fd s v v'
  proof -
    obtain v1 where 1: "upd_sess s (\<lambda>u. u\<lparr>clifd := fd, thread := Some t, timer_on := True, bufev := bufferevent_ok E fd, inbuf := []\<rparr>) v = Some v1"
      and 2: "upd_thread t (\<lambda>th. th\<lparr>fdSessionMap := sm_insert fd s (fdSessionMap th)\<rparr>) v1 = Some v'"
      using a(1) by (auto simp: add_session_def elim!: bind_SomeE)
    have "adds_only v1" using a(2) sess_upd [OF 1] by (auto simp: adds_only_def pipes_def)
    with 2 show ?thesis by (rule adds_upd) simp_all
  qed
  obtain th where th: "the_thread (Some t) w = Some th" using assms(2) by (auto simp: NotifyReceivedProcess_def elim!: bind_SomeE)
  show ?thesis
  proof (cases "notify_pipe th")
    case Nil
    then show ?thesis using assms th by (simp add: NotifyReceivedProcess_def)
  next
    case (Cons msg rest)
    have t: "t < length (threadList w)" "th = threadList w ! t" using th by (auto simp: the_thread_def split: if_splits)
    obtain w1 where 1: "upd_thread t (\<lambda>th. th\<lparr>notify_pipe := rest\<rparr>) w = Some w1" using t by (simp add: upd_thread_def)
    have a1: "adds_only w1"
    proof -
      have "upd_thread t (\<lambda>x. if x = th then x\<lparr>notify_pipe := rest\<rparr> else x) w = Some w1" using 1 t by (simp add: upd_thread_def)
      then show ?thesis by (rule adds_upd [OF _ assms(1)]) (auto simp: Cons split: if_splits)
    qed
    have "command msg = COMMAND_NOTIFY_ADD_EVENT"
      using assms(1) t(2) Cons nth_mem [OF t(1)] unfolding adds_thread by auto
    then obtain s w2 where 2: "GetOneSessionFromPool w1 = Some (s, w2)" and 3: "add_session E t (pipe_fd msg) s w2 = Some w'"
      using assms(2) th Cons 1 by (auto simp: NotifyReceivedProcess_def elim!: bind_SomeE)
    have "adds_only w2" using a1 pool [OF 2] by (simp add: adds_only_def)
    with 3 show ?thesis by (rule add)
  qed
qed

lemma reach_wires:
  assumes "srv_reach E w" "env_ok E"
  shows "wires w \<and> adds_only w"
  using assms(1)
proof (induction rule: srv_reach.induct)
  case start
  then show ?case
    by (simp add: wires_iff adds_only_def pipes_def server_start_def CreateWorkTheads_def MainThread_new_def new_thread_def)
next
  case (step w w')
  have ok: "world_ok w" by (rule srv_reach_ok [OF step.hyps(1)])
  have wi: "wires w" and ad: "adds_only w" using step.IH by simp_all
  have from_steady: "wires w' \<and> adds_only w'" if "steady w w'" using that ad by (simp add: steady_def adds_only_def)
  from step.hyps(2) show ?case
  proof cases
    case (accept fd)
    show ?thesis
    proof (cases "fd < 0")
      case True
      then show ?thesis using accept(2) wi ad by (simp add: AcceptHandler_def)
    next
      case False
      then obtain t where n: "NotifyThread t COMMAND_NOTIFY_ADD_EVENT fd (w\<lparr>lastSelectIndex := of_nat ((t + 1) mod length (threadList w))\<rparr>) = Some w'"
        using accept(2) by (auto simp: AcceptHandler_def GetOneThread_def Let_def split: if_splits elim!: bind_SomeE)
      then have "sess w' = sess w" by (auto simp: NotifyThread_def upd_thread_def split: if_splits)
      moreover have "adds_only w'"
        by (rule adds_upd [OF n [unfolded NotifyThread_def]]) (use ad in \<open>auto simp: adds_only_def pipes_def\<close>)
      ultimately show ?thesis using wi by (simp add: wires_iff)
    qed
  next
    case (notify t)
    then show ?thesis using notify_wires [OF wi assms(2)] notify_adds [OF ad] by blast
  next
    case (read t fd s u bs)
    obtain w1 where 1: "upd_sess s (\<lambda>u. u\<lparr>inbuf := inbuf u @ bs\<rparr>) w = Some w1" and 2: "OnReadCb E s w1 = Some w'"
      using read(4) by (auto simp: receive_def elim!: bind_SomeE)
    have "world_ok w1" using world_ok_upd_sess [OF ok 1] by simp
    moreover have st: "steady w w1" using steady_upd [OF 1] wi by simp
    moreover have "connected w1 t fd s" using read(1) sess_upd [OF 1] by (auto simp: connected_def)
    ultimately have "steady w1 w'" using read_wires [OF _ _ _ assms(2) 2] by (simp add: steady_def)
    with st show ?thesis by (intro from_steady) (rule steady_trans)
  next
    case (event t fd s u ev)
    then show ?thesis using OnEventCb_returns [OF ok wi assms(2) event(1), of ev] from_steady by auto
  next
    case (timeout t fd s u)
    then show ?thesis using TimerOutHandle_returns [OF ok wi assms(2) timeout(1)] from_steady by auto
  qed
qed

text \<open>What the two closing callbacks leave behind.\<close>

lemma close_connected:
  assumes i: "world_ok w" and wi: "wires w" and E: "env_ok E" and c: "connected w t fd s"
  shows "\<exists>w'. ClosingClientCon E 0 fd w = Some (True, w') \<and> closed_fds w' = fd # closed_fds w \<and> gone fd s w w'"
proof -
  obtain u where u: "sess w s = Some u" using i c by (rule connected_sess)
  have t: "t = 0" using c i by (metis connected_one world_threads)
  have "placed {} (shape w)" using world_okD(1) [OF i] by (simp add: srv_inv_def)
  from close_returns [OF world_okD(1) [OF i] _ c u placed_machine [OF this u] wi E]
  obtain w' where "ClosingClientCon E t fd w = Some (True, w')" "closed_fds w' = fd # closed_fds w" by blast
  then show ?thesis using close_gone [OF i c] t by blast
qed

lemma callbacks_close:
  assumes i: "world_ok w" and wi: "wires w" and E: "env_ok E" and c: "connected w t fd s"
  shows "(\<exists>w'. TimerOutHandle E s w = Some w' \<and> closed_fds w' = fd # closed_fds w \<and> gone fd s w w') \<and>
    (\<exists>w'. OnEventCb E s ev w = Some w' \<and> (event_closes ev \<longrightarrow> closed_fds w' = fd # closed_fds w \<and> gone fd s w w'))"
proof -
  obtain u where u: "sess w s = Some u" "clifd u = fd" "thread u = Some 0" using i c by (rule connected_sess)
  let ?f = "\<lambda>u. u\<lparr>timer_on := False\<rparr>"
  let ?w = "w\<lparr>sess := (sess w)(s \<mapsto> ?f u)\<rparr>"
  have up: "upd_sess s ?f w = Some ?w" using u by (simp add: upd_sess_def)
  have "world_ok ?w" "wires ?w" using world_ok_upd_sess [OF i up] wires_upd [OF up] wi by simp_all
  moreover have cw: "connected ?w t fd s" using c by (simp add: connected_def)
  ultimately obtain w1 where 1: "ClosingClientCon E 0 fd ?w = Some (True, w1)" "closed_fds w1 = fd # closed_fds ?w" "gone fd s ?w w1"
    using close_connected [OF _ _ E] by blast
  have "gone fd s w w1" using 1(3) by (simp add: gone_def connected_def)
  then have "\<exists>w'. TimerOutHandle E s w = Some w' \<and> closed_fds w' = fd # closed_fds w \<and> gone fd s w w'"
    using 1(1,2) u up by (auto simp: TimerOutHandle_def)
  moreover obtain w2 where "ClosingClientCon E 0 fd w = Some (True, w2)" "closed_fds w2 = fd # closed_fds w" "gone fd s w w2"
    using close_connected [OF i wi E c] by blast
  then have "\<exists>w'. OnEventCb E s ev w = Some w' \<and> (event_closes ev \<longrightarrow> closed_fds w' = fd # closed_fds w \<and> gone fd s w w')"
    using u by (cases "event_closes ev") (auto simp: OnEventCb_def)
  ultimately show ?thesis by blast
qed

end
