(* ===== verification/Shutdown.thy ===== *)
theory Shutdown
  imports Closing
begin

text \<open>
  Setting up and stopping the server: the listening socket (\<open>MainThread::IniServerEnv\<close>), the worker's
  event base and pipe (\<open>WorkThread::SetupThread\<close>), \<open>WorkThread::Run\<close>, and the way down
  (\<open>MainThread::DestructMainThreadObj\<close> and the destructors). The lemmas show that the server stops
  from every reachable state and leaves nothing behind.
\<close>

section \<open>Setting up\<close>

text \<open>Parameters: what \<open>socket\<close>, \<open>bind\<close> and \<open>listen\<close> return. \<open>listenFd\<close> is unsigned, so the test for a
  negative descriptor never holds; a failed \<open>bind\<close> or \<open>listen\<close> closes the descriptor and leaves its
  number in the object.\<close>

record listener =
  listenFd :: u32
  listening :: bool
  listener_closed :: "int list"
  env_errors :: nat

definition IniServerEnv :: "int \<Rightarrow> int \<Rightarrow> int \<Rightarrow> listener" where
  "IniServerEnv sock bind_rc listen_rc =
     (let fd = word_of_int sock; ls = \<lparr>listenFd = fd, listening = False, listener_closed = [], env_errors = (if uint fd < 0 then 1 else 0)\<rparr> in
      if bind_rc < 0 then ls\<lparr>listener_closed := [sint fd]\<rparr>
      else if listen_rc < 0 then ls\<lparr>listener_closed := [sint fd], env_errors := env_errors ls + 1\<rparr>
      else ls\<lparr>listening := True\<rparr>)"

text \<open>The destructor closes \<open>listenFd\<close> whether or not it has been closed before.\<close>

definition close_listener :: "listener \<Rightarrow> listener" where
  "close_listener ls = ls\<lparr>listening := False, listener_closed := sint (listenFd ls) # listener_closed ls\<rparr>"

definition SetupThread :: "bool \<Rightarrow> (int \<times> int) option \<Rightarrow> bool \<times> int \<times> int" where
  "SetupThread base_ok fds =
     (if \<not> base_ok then (False, -1, -1)
      else case fds of None \<Rightarrow> (False, -1, -1) | Some (r, s) \<Rightarrow> (True, r, s))"

text \<open>\<open>loop\<close> stands for the callbacks that the event loop runs until it is told to end. Without a base
  it crashes: nobody looks at the result of \<open>SetupThread\<close>.\<close>

definition WorkThread_Run ::
  "env \<Rightarrow> nat \<Rightarrow> bool \<Rightarrow> bool \<Rightarrow> (world \<Rightarrow> world option) \<Rightarrow> world \<Rightarrow> world option" where
  "WorkThread_Run E t base_ok sql_ok loop w =
     (if \<not> sql_ok then Some w
      else if \<not> base_ok then None
      else do { w \<leftarrow> loop w; DestrotiedSessions E t w })"

section \<open>Stopping\<close>

text \<open>The loop handles the messages in the thread's pipe one by one until it has met the command to
  end; other callbacks may run before, which is a matter of the state it starts from.\<close>

fun quit_loop :: "env \<Rightarrow> nat \<Rightarrow> nat \<Rightarrow> world \<Rightarrow> world option" where
  "quit_loop E t 0 w = None"
| "quit_loop E t (Suc n) w = do {
     th \<leftarrow> the_thread (Some t) w;
     if loop_exit th then Some w
     else do { w \<leftarrow> NotifyReceivedProcess E t w; quit_loop E t n w } }"

text \<open>Every board in the hall's map is deleted, then the hall.\<close>

definition GameHall_destruct :: "u32 \<Rightarrow> world \<Rightarrow> world option" where
  "GameHall_destruct h w = do {
     hall \<leftarrow> halls w h;
     Some (w\<lparr>boards := (\<lambda>b. if b \<in> snd ` set (chessBoardInfo hall) then None else boards w b),
       halls := (halls w)(h := None)\<rparr>) }"

definition MainThread_destruct :: "env \<Rightarrow> world \<Rightarrow> world option" where
  "MainThread_destruct E w = do {
     w \<leftarrow> for_each (\<lambda>(_, h) w. GameHall_destruct h w) (GameHallMap w) w;
     DestrorySessionsFromPool E 0 True (w\<lparr>GameHallMap := []\<rparr>) }"

text \<open>One worker thread, as main creates it; with several, the sessions of a later one would look at
  the deleted objects of the earlier ones. \<open>n\<close> bounds the turns of the thread's loop.\<close>

definition DestructMainThreadObj :: "env \<Rightarrow> nat \<Rightarrow> world \<Rightarrow> world option" where
  "DestructMainThreadObj E n w =
     (if length (threadList w) \<noteq> 1 then None
      else do {
        w \<leftarrow> NotifyThread 0 COMMAND_NOTIFY_QUIT_LOOP (-1) w;
        w \<leftarrow> WorkThread_Run E 0 True True (quit_loop E 0 n) w;
        MainThread_destruct E (w\<lparr>threadList := []\<rparr>) })"

section \<open>Recycling all sessions\<close>

lemma sm_erase_head: "sm_erase k ((k, v) # m) = m"
  by simp

lemma placed_dropped: "placed Y \<sigma> \<Longrightarrow> placed Y (dropped dead pool \<sigma>)"
  unfolding placed_def dropped_def by (auto split: if_splits)

lemma pool_cut_less: "length pool < 2 * connectionMaxStep \<Longrightarrow> length (take (pool_cut (s # pool)) (s # pool)) < 2 * connectionMaxStep"
  by (auto simp: pool_cut_def connectionMaxStep_def)

lemma recycle_connected:
  assumes i: "world_ok w" and wi: "wires w" and E: "env_ok E" and T: "threadList w = [th]"
    and m: "fdSessionMap th = (fd, s) # rest"
  shows "\<exists>w1 w2. RecycleSession E s w = Some w1 \<and>
    upd_thread 0 (\<lambda>th. th\<lparr>fdSessionMap := sm_erase fd (fdSessionMap th)\<rparr>) w1 = Some w2 \<and>
    world_ok w2 \<and> wires w2 \<and> threadList w2 = [th\<lparr>fdSessionMap := rest\<rparr>] \<and> closed_fds w2 = fd # closed_fds w"
proof -
  have l: "live_in {} (fst (shape w)) th (sessionList w) (sess_next w)"
    using world_okD(1) [OF i] T by (auto simp: srv_inv_def live_def)
  have f: "sm_find fd (fdSessionMap th) = Some s" by (simp add: m)
  obtain u where u: "sess w s = Some u" "thread u = Some 0" "clifd u = fd" using live_in_conn [OF l f] by auto
  have fd: "clifd u \<noteq> -1" using live_in_nonneg [OF l f] u(3) by simp
  have si: "seat_inv {} w" and pl: "placed {} (shape w)" using world_okD(1) [OF i] by (simp_all add: srv_inv_def)
  obtain d where d: "DestructResource E s w = Some d"
    using DestructResource_returns [OF world_okD(1) [OF i] _ _ u(1,2) placed_machine [OF pl u(1)] wi E] by blast
  have s: "s \<notin> set (sessionList w)" using live_in_pool [OF l, of s] u by (auto simp: idle_def)
  let ?p = "s # sessionList w" and ?k = "pool_cut (s # sessionList w)" and ?th = "th\<lparr>fdSessionMap := rest\<rparr>"
  obtain w1 v where w1: "RecycleSession E s w = Some w1" "seat_inv {} w1" "idle v" "closed_fds w1 = fd # closed_fds w"
    "shape w1 = dropped (drop ?k ?p) (take ?k ?p) (put s v (shape w))"
    using recycle_shape [OF si blank_live [OF l] s u(1) disjI1 [OF fd] d] u(3) fd by auto
  have f1: "threadList w1 = [th]" "sessionList w1 = take ?k ?p"
    using arg_cong [OF w1(5), of "fst \<circ> snd"] arg_cong [OF w1(5), of "fst \<circ> snd \<circ> snd"] T by (simp_all add: dropped_def put_def)
  let ?w = "w1\<lparr>threadList := [?th]\<rparr>"
  have up: "upd_thread 0 (\<lambda>th. th\<lparr>fdSessionMap := sm_erase fd (fdSessionMap th)\<rparr>) w1 = Some ?w"
    using f1 m by (simp add: upd_thread_def)
  have g: "fst (shape w) s = Some (ident u)" using u(1) by simp
  have e: "th\<lparr>fdSessionMap := sm_erase fd (fdSessionMap th)\<rparr> = ?th" by (simp add: m)
  have l1: "live_in {} (\<lambda>x. if x \<in> set (drop ?k ?p) then None else ((fst (shape w))(s \<mapsto> v)) x) ?th (take ?k ?p) (sess_next w)"
    using live_dropped [OF live_pool [OF live_aside [OF l f] g w1(3)], of ?k] unfolding e .
  have sh: "shape ?w = (\<lambda>x. if x \<in> set (drop ?k ?p) then None else ((fst (shape w))(s \<mapsto> v)) x, [?th], take ?k ?p, sess_next w)"
    using w1(5) by (simp add: shape_def dropped_def put_def cong: if_cong)
  have "placed {} (shape w1)" unfolding w1(5) by (rule placed_dropped, rule placed_put [OF pl _ w1(3)]) simp
  moreover have "fst (shape ?w) = fst (shape w1)" by (simp add: shape_def)
  ultimately have "placed {} (shape ?w)" using placed_fst by blast
  moreover have "live {} (shape ?w)" using l1 unfolding sh by (simp add: live_def)
  moreover have "length (sessionList ?w) < 2 * connectionMaxStep"
    using pool_cut_less [OF world_okD(2) [OF i], of s] f1 by simp
  ultimately have "world_ok ?w" using w1(2) by (simp add: world_ok_def srv_inv_def)
  moreover have "wires ?w" using wires_dropped [OF wi w1(5,3)] by (simp add: wires_iff)
  ultimately show ?thesis using w1(1,4) up by (intro exI [of _ w1] exI [of _ ?w]) simp
qed

lemma recycle_all:
  assumes "world_ok w" "wires w" "env_ok E" "threadList w = [th]"
  shows "\<exists>w'. for_each (\<lambda>(fd, s) w. do {
             w \<leftarrow> RecycleSession E s w;
             upd_thread 0 (\<lambda>th. th\<lparr>fdSessionMap := sm_erase fd (fdSessionMap th)\<rparr>) w }) (fdSessionMap th) w = Some w' \<and>
    world_ok w' \<and> wires w' \<and> threadList w' = [th\<lparr>fdSessionMap := []\<rparr>] \<and>
    closed_fds w' = rev (map fst (fdSessionMap th)) @ closed_fds w"
  using assms
proof (induction "fdSessionMap th" arbitrary: w th)
  case Nil
  then show ?case by (cases th) auto
next
  case (Cons p rest)
  obtain fd s where p: "p = (fd, s)" by (cases p)
  have m: "fdSessionMap th = (fd, s) # rest" using Cons.hyps(2) p by simp
  let ?th = "th\<lparr>fdSessionMap := rest\<rparr>"
  obtain w1 w2 where w1: "RecycleSession E s w = Some w1"
      "upd_thread 0 (\<lambda>th. th\<lparr>fdSessionMap := sm_erase fd (fdSessionMap th)\<rparr>) w1 = Some w2"
    and w2: "world_ok w2" "wires w2" "threadList w2 = [?th]" "closed_fds w2 = fd # closed_fds w"
    using recycle_connected [OF Cons.prems m] by blast
  obtain w' where w': "for_each (\<lambda>(fd, s) w. do {
             w \<leftarrow> RecycleSession E s w;
             upd_thread 0 (\<lambda>th. th\<lparr>fdSessionMap := sm_erase fd (fdSessionMap th)\<rparr>) w }) rest w2 = Some w'"
    "world_ok w'" "wires w'" "threadList w' = [?th\<lparr>fdSessionMap := []\<rparr>]" "closed_fds w' = rev (map fst rest) @ closed_fds w2"
    using Cons.hyps(1) [of ?th w2] w2 Cons.prems(3) by auto
  then show ?case using w1 w2 m by auto
qed

lemma destroy_sessions:
  assumes "world_ok w" "wires w" "env_ok E" "threadList w = [th]"
  shows "\<exists>w'. DestrotiedSessions E 0 w = Some w' \<and> world_ok w' \<and> threadList w' = [th\<lparr>fdSessionMap := []\<rparr>] \<and>
    closed_fds w' = rev (map fst (fdSessionMap th)) @ closed_fds w"
proof -
  obtain w' where w': "for_each (\<lambda>(fd, s) w. do {
             w \<leftarrow> RecycleSession E s w;
             upd_thread 0 (\<lambda>th. th\<lparr>fdSessionMap := sm_erase fd (fdSessionMap th)\<rparr>) w }) (fdSessionMap th) w = Some w'"
    "world_ok w'" "threadList w' = [th\<lparr>fdSessionMap := []\<rparr>]" "closed_fds w' = rev (map fst (fdSessionMap th)) @ closed_fds w"
    using recycle_all [OF assms] by blast
  have "w'\<lparr>threadList := [th\<lparr>fdSessionMap := []\<rparr>]\<rparr> = w'" using w'(3) by simp
  then have "upd_thread 0 (\<lambda>th. th\<lparr>fdSessionMap := []\<rparr>) w' = Some w'" using w'(3) by (simp add: upd_thread_def)
  then have "DestrotiedSessions E 0 w = Some w'"
    unfolding DestrotiedSessions_def using w'(1) assms(4) by (simp add: the_thread_def)
  then show ?thesis using w' by blast
qed

section \<open>Destroying the main thread's object\<close>

lemma delete_exact:
  assumes "sess w s = Some u" "idle u"
  shows "delete_session E s w = Some (w\<lparr>sess := (sess w)(s := None)\<rparr>)"
  using assms by (simp add: delete_session_def DestructResource_def leave_current_board_def idle_def upd_sess_def Let_def)

lemma delete_all:
  "distinct l \<Longrightarrow> (\<forall>x \<in> set l. \<exists>u. sess w x = Some u \<and> idle u) \<Longrightarrow>
     for_each (delete_session E) l w = Some (w\<lparr>sess := (\<lambda>x. if x \<in> set l then None else sess w x)\<rparr>)"
proof (induction l arbitrary: w)
  case (Cons s l)
  then obtain u where u: "sess w s = Some u" "idle u" by auto
  let ?w = "w\<lparr>sess := (sess w)(s := None)\<rparr>"
  have "for_each (delete_session E) l ?w = Some (?w\<lparr>sess := (\<lambda>x. if x \<in> set l then None else sess ?w x)\<rparr>)"
    using Cons.prems by (intro Cons.IH) auto
  then show ?case using delete_exact [OF u, of E] by (auto simp: fun_eq_iff intro!: arg_cong [of _ _ "\<lambda>f. w\<lparr>sess := f\<rparr>"])
qed simp

definition held :: "(u32 \<times> u32) list \<Rightarrow> world \<Rightarrow> bid \<Rightarrow> bool" where
  "held gs w b \<longleftrightarrow> (\<exists>h \<in> snd ` set gs. \<exists>hall. halls w h = Some hall \<and> b \<in> snd ` set (chessBoardInfo hall))"

lemma halls_deleted:
  "\<forall>h \<in> snd ` set gs. halls w h \<noteq> None \<Longrightarrow> distinct (map snd gs) \<Longrightarrow>
    for_each (\<lambda>(_, h) w. GameHall_destruct h w) gs w = Some (w\<lparr>boards := (\<lambda>b. if held gs w b then None else boards w b),
      halls := (\<lambda>h. if h \<in> snd ` set gs then None else halls w h)\<rparr>)"
proof (induction gs arbitrary: w)
  case Nil
  then show ?case by (simp add: held_def)
next
  case (Cons g gs)
  obtain k h where g: "g = (k, h)" by (cases g)
  obtain hall where h: "halls w h = Some hall" using Cons.prems(1) g by auto
  let ?w = "w\<lparr>boards := (\<lambda>b. if b \<in> snd ` set (chessBoardInfo hall) then None else boards w b), halls := (halls w)(h := None)\<rparr>"
  have n: "h \<notin> snd ` set gs" using Cons.prems(2) g by auto
  have "\<forall>h \<in> snd ` set gs. halls ?w h \<noteq> None" using Cons.prems(1) n by auto
  note ih = Cons.IH [OF this]
  have same: "halls ?w h' = halls w h'" if "h' \<in> snd ` set gs" for h' using that n by auto
  have "held gs ?w b \<longleftrightarrow> held gs w b" for b unfolding held_def using same by (metis (no_types, lifting))
  moreover have "held (g # gs) w b \<longleftrightarrow> b \<in> snd ` set (chessBoardInfo hall) \<or> held gs w b" for b
    unfolding held_def g using h by auto
  ultimately have 1: "(\<lambda>b. if held gs ?w b then None else boards ?w b) = (\<lambda>b. if held (g # gs) w b then None else boards w b)"
    by (intro ext) simp
  have 2: "(\<lambda>h. if h \<in> snd ` set gs then None else halls ?w h) = (\<lambda>h. if h \<in> snd ` set (g # gs) then None else halls w h)"
    by (intro ext) (simp add: g)
  have "for_each (\<lambda>(_, h) w. GameHall_destruct h w) (g # gs) w = for_each (\<lambda>(_, h) w. GameHall_destruct h w) gs ?w"
    using h by (simp add: g GameHall_destruct_def)
  also have "\<dots> = Some (?w\<lparr>boards := (\<lambda>b. if held gs ?w b then None else boards ?w b),
      halls := (\<lambda>h. if h \<in> snd ` set gs then None else halls ?w h)\<rparr>)"
    by (rule ih) (use Cons.prems(2) in simp)
  finally show ?case unfolding 1 2 by simp
qed

lemma main_destroyed:
  assumes i: "world_ok w" and T: "threadList w = [th]" and e: "fdSessionMap th = []"
  shows "\<exists>w'. MainThread_destruct E (w\<lparr>threadList := []\<rparr>) = Some w' \<and> sess w' = (\<lambda>_. None) \<and> boards w' = (\<lambda>_. None) \<and>
    halls w' = (\<lambda>_. None) \<and> sessionList w' = [] \<and> threadList w' = [] \<and> closed_fds w' = closed_fds w"
proof -
  have l: "live_in {} (fst (shape w)) th (sessionList w) (sess_next w)"
    using world_okD(1) [OF i] T by (auto simp: srv_inv_def live_def)
  have ho: "halls_ok w" using world_okD(1) [OF i] seat_inv_halls unfolding srv_inv_def by blast
  let ?gs = "map (\<lambda>h. (h, h)) hall_numbers" and ?w = "w\<lparr>threadList := []\<rparr>"
  have gs: "GameHallMap ?w = ?gs" using ho by (simp add: halls_ok_def)
  have some: "\<forall>h \<in> snd ` set ?gs. halls ?w h \<noteq> None" using ho unfolding halls_ok_def by auto
  have d: "distinct (map snd ?gs)" by (simp add: comp_def hall_numbers_eq)
  define w1 where "w1 = ?w\<lparr>boards := (\<lambda>b. if held ?gs ?w b then None else boards ?w b),
      halls := (\<lambda>h. if h \<in> snd ` set ?gs then None else halls ?w h)\<rparr>"
  have 1: "for_each (\<lambda>(_, h) w. GameHall_destruct h w) ?gs ?w = Some w1"
    unfolding w1_def by (rule halls_deleted [OF some d])
  have no_boards: "boards w1 = (\<lambda>_. None)"
  proof
    fix b :: bid
    obtain h k where b: "b = (h, k)" by (cases b)
    show "boards w1 b = None"
    proof (cases "boards w b")
      case (Some cb)
      then obtain hall where hall: "halls w h = Some hall" "sm_find k (chessBoardInfo hall) = Some (h, k)"
        using ho b unfolding halls_ok_def by blast
      then have "b \<in> snd ` set (chessBoardInfo hall)" using sm_find_Some_set b by force
      moreover have "h \<in> set hall_numbers" using ho hall(1) unfolding halls_ok_def by blast
      then have "h \<in> snd ` set ?gs" by force
      moreover have "halls ?w h = Some hall" using hall(1) by simp
      ultimately have "held ?gs ?w b" unfolding held_def by blast
      then show ?thesis unfolding w1_def by simp
    qed (simp add: w1_def)
  qed
  have no_halls: "halls w1 = (\<lambda>_. None)"
  proof
    fix h show "halls w1 h = None"
      using ho unfolding w1_def halls_ok_def by (auto simp: image_iff)
  qed
  have pool: "\<forall>x \<in> set (sessionList w1). \<exists>u. sess w1 x = Some u \<and> idle u" "distinct (sessionList w1)"
    using blank_live [OF l] by (simp_all add: blank_pool_def w1_def)
  have 2: "for_each (delete_session E) (sessionList w1) (w1\<lparr>GameHallMap := []\<rparr>) =
      Some (w1\<lparr>GameHallMap := [], sess := (\<lambda>x. if x \<in> set (sessionList w1) then None else sess w1 x)\<rparr>)"
    using delete_all [OF pool(2), of "w1\<lparr>GameHallMap := []\<rparr>" E] pool(1) by (simp cong: if_cong)
  have "(if x \<in> set (sessionList w1) then None else sess w1 x) = None" for x
  proof (cases "sess w x")
    case (Some u)
    then have "x \<in> set (sessionList w)" using live_in_all [OF l, of x "ident u"] e by simp
    then show ?thesis by (simp add: w1_def)
  qed (simp add: w1_def)
  then show ?thesis
    using 1 2 gs no_boards no_halls
    by (auto simp: MainThread_destruct_def DestrorySessionsFromPool_def w1_def)
qed

section \<open>The messages that are still in the pipe\<close>

definition with_msgs :: "PipeMsg list \<Rightarrow> world \<Rightarrow> world" where
  "with_msgs q w = w\<lparr>threadList := map (\<lambda>th. th\<lparr>notify_pipe := notify_pipe th @ q\<rparr>) (threadList w)\<rparr>"

lemma pool_threads:
  "threadList (CreatSessionsPool n w) = threadList w" "closed_fds (CreatSessionsPool n w) = closed_fds w"
  by (induction n arbitrary: w) (simp_all add: alloc_session_def)

lemma pool_update: "CreatSessionsPool n (w\<lparr>threadList := x\<rparr>) = (CreatSessionsPool n w)\<lparr>threadList := x\<rparr>"
proof (induction n arbitrary: w)
  case (Suc n)
  have "alloc_session (w\<lparr>threadList := x\<rparr>) = (alloc_session w)\<lparr>threadList := x\<rparr>" by (simp add: alloc_session_def)
  then show ?case using Suc.IH by simp
qed simp

text \<open>One message: its effect on the thread, and that later messages only stay behind it.\<close>

lemma notify_step:
  assumes i: "world_ok w" and T: "threadList w = [th]"
    and p: "notify_pipe th = \<lparr>command = COMMAND_NOTIFY_ADD_EVENT, pipe_fd = fd\<rparr> # rest"
  shows "\<exists>w' s. NotifyReceivedProcess E 0 w = Some w' \<and> NotifyReceivedProcess E 0 (with_msgs q w) = Some (with_msgs q w') \<and>
    threadList w' = [th\<lparr>notify_pipe := rest, fdSessionMap := sm_insert fd s (fdSessionMap th)\<rparr>] \<and> closed_fds w' = closed_fds w"
proof -
  let ?th = "th\<lparr>notify_pipe := rest\<rparr>"
  let ?w = "w\<lparr>threadList := [?th]\<rparr>"
  have l: "live_in {} (fst (shape w)) th (sessionList w) (sess_next w)"
    using world_okD(1) [OF i] T by (auto simp: srv_inv_def live_def)
  have fth: "fds_ok ?th" using live_in_fds(1) [OF l] p by (auto simp: fds_ok_def)
  have i1: "srv_inv {} {} {} ?w"
    by (rule srv_inv_pipe [OF world_okD(1) [OF i] T fth, of _ "lastSelectIndex w"]) simp_all
  obtain s w2 where g: "GetOneSessionFromPool ?w = Some (s, w2)"
    using GetOneSessionFromPool_total [OF i1] by blast
  have n: "length (sessionList ?w) < 2 * connectionMaxStep" using world_okD(2) [OF i] by simp
  obtain u where u: "threadList w2 = [?th]" "sess w2 s = Some u"
    using GetOneSessionFromPool_inv [OF i1 n g] by auto
  have c2: "closed_fds w2 = closed_fds w"
    using g by (auto simp: GetOneSessionFromPool_def Let_def pool_threads pool_update split: if_splits list.splits)
  let ?wq = "w\<lparr>threadList := [?th\<lparr>notify_pipe := rest @ q\<rparr>]\<rparr>"
  have gq: "GetOneSessionFromPool ?wq = Some (s, w2\<lparr>threadList := [?th\<lparr>notify_pipe := rest @ q\<rparr>]\<rparr>)"
    using g by (auto simp: GetOneSessionFromPool_def Let_def pool_threads pool_update split: if_splits list.splits)
  let ?u = "u\<lparr>clifd := fd, thread := Some 0, timer_on := True, bufev := bufferevent_ok E fd, inbuf := []\<rparr>"
  let ?w' = "w2\<lparr>sess := (sess w2)(s \<mapsto> ?u), threadList := [?th\<lparr>fdSessionMap := sm_insert fd s (fdSessionMap th)\<rparr>]\<rparr>"
  have "NotifyReceivedProcess E 0 w = Some ?w'"
    using T p g u by (simp add: NotifyReceivedProcess_def the_thread_def upd_thread_def add_session_def upd_sess_def)
  moreover have "NotifyReceivedProcess E 0 (with_msgs q w) = Some (with_msgs q ?w')"
    using T p gq u by (simp add: NotifyReceivedProcess_def the_thread_def upd_thread_def add_session_def upd_sess_def with_msgs_def)
  ultimately show ?thesis using c2 by (intro exI [of _ ?w'] exI [of _ s]) simp
qed

lemma drained:
  assumes "world_ok w" "wires w" "adds_only w" "env_ok E" "threadList w = [th]"
  shows "\<exists>w' th'. world_ok w' \<and> wires w' \<and> threadList w' = [th'] \<and> notify_pipe th' = [] \<and> \<not> loop_exit th' \<and>
    open_fds w' = open_fds w \<and> closed_fds w' = closed_fds w \<and>
    quit_loop E 0 (length (notify_pipe th) + k) (with_msgs q w) = quit_loop E 0 k (with_msgs q w')"
  using assms
proof (induction "notify_pipe th" arbitrary: w th)
  case Nil
  have "\<not> loop_exit th" using Nil.prems(3,5) by (simp add: adds_thread)
  then show ?case using Nil by (intro exI [of _ w] exI [of _ th]) simp
next
  case (Cons msg rest)
  have th: "\<not> loop_exit th" "command msg = COMMAND_NOTIFY_ADD_EVENT"
    using Cons.prems(3,5) Cons.hyps(2) [symmetric] by (simp_all add: adds_thread)
  have "msg = \<lparr>command = COMMAND_NOTIFY_ADD_EVENT, pipe_fd = pipe_fd msg\<rparr>" using th(2) by (cases msg) simp
  then obtain fd where p: "notify_pipe th = \<lparr>command = COMMAND_NOTIFY_ADD_EVENT, pipe_fd = fd\<rparr> # rest"
    using Cons.hyps(2) by metis
  obtain w1 s where 1: "NotifyReceivedProcess E 0 w = Some w1" "NotifyReceivedProcess E 0 (with_msgs q w) = Some (with_msgs q w1)"
    and T1: "threadList w1 = [th\<lparr>notify_pipe := rest, fdSessionMap := sm_insert fd s (fdSessionMap th)\<rparr>]" and c1: "closed_fds w1 = closed_fds w"
    using notify_step [OF Cons.prems(1,5) p, of E q] by blast
  let ?th = "th\<lparr>notify_pipe := rest, fdSessionMap := sm_insert fd s (fdSessionMap th)\<rparr>"
  have ok: "world_ok w1" "wires w1" "adds_only w1"
    using NotifyReceivedProcess_ok [OF Cons.prems(1) 1(1)] notify_wires [OF Cons.prems(2,4) 1(1)] notify_adds [OF Cons.prems(3) 1(1)] by simp_all
  have o1: "open_fds w1 = open_fds w"
    using T1 Cons.prems(5) p by (auto simp: open_fds_def keys_sm_insert)
  have "rest = notify_pipe ?th" by simp
  from Cons.hyps(1) [OF this ok Cons.prems(4) T1] obtain w' th' where w': "world_ok w'" "wires w'" "threadList w' = [th']"
    "notify_pipe th' = []" "\<not> loop_exit th'" "open_fds w' = open_fds w1" "closed_fds w' = closed_fds w1"
    "quit_loop E 0 (length rest + k) (with_msgs q w1) = quit_loop E 0 k (with_msgs q w')" by auto
  have "the_thread (Some 0) (with_msgs q w) = Some (th\<lparr>notify_pipe := notify_pipe th @ q\<rparr>)"
    using Cons.prems(5) by (simp add: the_thread_def with_msgs_def)
  then have "quit_loop E 0 (length (notify_pipe th) + k) (with_msgs q w) = quit_loop E 0 (length rest + k) (with_msgs q w1)"
    using 1(2) th(1) p by simp
  then show ?case using w' o1 c1 by (intro exI [of _ w'] exI [of _ th']) simp
qed

section \<open>The server stops\<close>

lemma stopped:
  assumes r: "srv_reach E w" and E: "env_ok E" and T: "threadList w = [th]" and n: "length (notify_pipe th) + 2 \<le> n"
  shows "\<exists>w' ds. DestructMainThreadObj E n w = Some w' \<and> sess w' = (\<lambda>_. None) \<and> boards w' = (\<lambda>_. None) \<and> halls w' = (\<lambda>_. None) \<and>
    closed_fds w' = ds @ closed_fds w \<and> distinct ds \<and> set ds = open_fds w"
proof -
  let ?q = "[\<lparr>command = COMMAND_NOTIFY_QUIT_LOOP, pipe_fd = -1\<rparr>]"
  have ok: "world_ok w" "wires w" "adds_only w" using srv_reach_ok [OF r] reach_wires [OF r E] by simp_all
  have q: "NotifyThread 0 COMMAND_NOTIFY_QUIT_LOOP (-1) w = Some (with_msgs ?q w)"
    using T by (simp add: NotifyThread_def upd_thread_def with_msgs_def)
  define k where "k = n - length (notify_pipe th) - 2"
  have nk: "n = length (notify_pipe th) + Suc (Suc k)" using n by (simp add: k_def)
  obtain w1 th1 where w1: "world_ok w1" "wires w1" "threadList w1 = [th1]" "notify_pipe th1 = []" "\<not> loop_exit th1"
    "open_fds w1 = open_fds w" "closed_fds w1 = closed_fds w"
    "quit_loop E 0 n (with_msgs ?q w) = quit_loop E 0 (Suc (Suc k)) (with_msgs ?q w1)"
    unfolding nk using drained [OF ok E T, of "Suc (Suc k)" ?q] by auto
  let ?th = "th1\<lparr>loop_exit := True\<rparr>"
  let ?w = "w1\<lparr>threadList := [?th]\<rparr>"
  have e: "th1\<lparr>notify_pipe := [], loop_exit := True\<rparr> = ?th" using w1(4) by (cases th1) simp
  have "quit_loop E 0 (Suc (Suc k)) (with_msgs ?q w1) = Some ?w"
    using w1(3,4,5) e
    by (simp add: with_msgs_def the_thread_def upd_thread_def NotifyReceivedProcess_def COMMAND_NOTIFY_QUIT_LOOP_def COMMAND_NOTIFY_ADD_EVENT_def)
  then have loop: "quit_loop E 0 n (with_msgs ?q w) = Some ?w" using w1(8) by simp
  have fth: "fds_ok ?th"
    using w1(1,3) by (auto simp: world_ok_def srv_inv_def live_def live_in_def fds_ok_def)
  have w2: "world_ok ?w"
    using srv_inv_pipe [OF world_okD(1) [OF w1(1)] w1(3) fth, of ?w "lastSelectIndex w1"] world_okD(2) [OF w1(1)]
    by (simp add: world_ok_def)
  have wi2: "wires ?w" using w1(2) by (simp add: wires_iff)
  obtain w3 where w3: "DestrotiedSessions E 0 ?w = Some w3" "world_ok w3" "threadList w3 = [?th\<lparr>fdSessionMap := []\<rparr>]"
    "closed_fds w3 = rev (map fst (fdSessionMap th1)) @ closed_fds w1"
    using destroy_sessions [OF w2 wi2 E, of ?th] by auto
  obtain w' where w': "MainThread_destruct E (w3\<lparr>threadList := []\<rparr>) = Some w'" "sess w' = (\<lambda>_. None)" "boards w' = (\<lambda>_. None)"
    "halls w' = (\<lambda>_. None)" "closed_fds w' = closed_fds w3"
    using main_destroyed [OF w3(2,3)] by auto
  have run: "WorkThread_Run E 0 True True (quit_loop E 0 n) (with_msgs ?q w) = Some w3"
    using loop w3(1) by (simp add: WorkThread_Run_def)
  have d: "DestructMainThreadObj E n w = Some w'"
    unfolding DestructMainThreadObj_def using T q run w'(1) by simp
  have "sm_ok (fdSessionMap th1)" using fth by (simp add: fds_ok_def)
  then have dis: "distinct (map fst (fdSessionMap th1))" by (simp add: sm_ok_def strict_sorted_iff)
  have "set (rev (map fst (fdSessionMap th1))) = open_fds w"
    using w1(3,4,6) by (simp add: open_fds_def)
  then show ?thesis
    using d w' w3(4) w1(7) dis by (intro exI [of _ w'] exI [of _ "rev (map fst (fdSessionMap th1))"]) simp
qed

end
