(* ===== verification/Log_Module.thy ===== *)
theory Log_Module
  imports Sql
begin

text \<open>
  debug.h and debug.cpp: the log file with its levels per module and its rotation. Parameters: what
  \<open>ftell\<close>, \<open>truncate\<close> and \<open>fopen\<close> answer, and the formatting of a message. A null or closed \<open>FILE\<close>
  that is used, and \<open>printf\<close> of a text with conversions and no arguments, give \<open>None\<close>.
\<close>

section \<open>State\<close>

datatype e_module = MODULE_NET | MODULE_DB | MODULE_COMMON | MODULE_MAX
datatype e_level = DEBUG | INFO | ERROR

definition DEFAULT_LEVEL :: e_level where "DEFAULT_LEVEL = DEBUG"

fun level_code :: "e_level \<Rightarrow> nat" where
  "level_code DEBUG = 0" | "level_code INFO = 1" | "level_code ERROR = 2"

fun name_of_module :: "e_module \<Rightarrow> string" where
  "name_of_module MODULE_NET = ''MODULE_NET''" | "name_of_module MODULE_DB = ''MODULE_DB''"
| "name_of_module MODULE_COMMON = ''MODULE_COMMON''" | "name_of_module MODULE_MAX = ''MODULE_MAX''"

fun name_of_level :: "e_level \<Rightarrow> string" where
  "name_of_level DEBUG = ''DEBUG''" | "name_of_level INFO = ''INFO''" | "name_of_level ERROR = ''ERROR''"

datatype file_ptr = Null_file | Open_file | Closed_file

record logger =
  module_level :: "e_module \<Rightarrow> e_level"
  log_ptr :: file_ptr
  gMaxLogFileSize :: int
  gFileName :: "string option"
  log_text :: string
  log_cmds :: "string list"
  printed :: string
  stderr_lines :: nat

definition log_start :: logger where
  "log_start = \<lparr>module_level = (\<lambda>_. DEBUG), log_ptr = Null_file, gMaxLogFileSize = 0, gFileName = None, log_text = [],
     log_cmds = [], printed = [], stderr_lines = 0\<rparr>"

section \<open>Levels\<close>

definition get_debug_level :: "e_module \<Rightarrow> logger \<Rightarrow> e_level" where
  "get_debug_level md st = module_level st md"

definition set_debug_level :: "e_module \<Rightarrow> e_level \<Rightarrow> logger \<Rightarrow> logger" where
  "set_debug_level md level st =
     (if md = MODULE_MAX then st\<lparr>stderr_lines := stderr_lines st + 1\<rparr>
      else st\<lparr>module_level := (module_level st)(md := level)\<rparr>)"

definition close_debug :: "e_module \<Rightarrow> logger \<Rightarrow> logger" where
  "close_debug md st =
     (if md = MODULE_MAX then st\<lparr>stderr_lines := stderr_lines st + 1\<rparr>
      else st\<lparr>module_level := (module_level st)(md := DEFAULT_LEVEL)\<rparr>)"

text \<open>\<open>opens\<close>: whether \<open>fopen\<close> succeeds.\<close>

definition log_init :: "bool \<Rightarrow> string option \<Rightarrow> int \<Rightarrow> e_level \<Rightarrow> logger \<Rightarrow> logger" where
  "log_init opens file sz level st =
     (if file = None \<or> sz < 0 then st\<lparr>stderr_lines := stderr_lines st + 1\<rparr>
      else
        let st = st\<lparr>gMaxLogFileSize := sz, gFileName := file\<rparr> in
        if log_ptr st \<noteq> Null_file then st
        else if \<not> opens then st\<lparr>stderr_lines := stderr_lines st + 1\<rparr>
        else fold (\<lambda>md. set_debug_level md level) [MODULE_NET, MODULE_DB, MODULE_COMMON] (st\<lparr>log_ptr := Open_file\<rparr>))"

definition log_close :: "logger \<Rightarrow> logger option" where
  "log_close st =
     (if log_ptr st = Closed_file then None
      else Some (fold close_debug [MODULE_NET, MODULE_DB, MODULE_COMMON] (st\<lparr>log_ptr := Null_file\<rparr>)))"

section \<open>Writing\<close>

text \<open>The answers of the system in one call: \<open>ftell\<close>, \<open>truncate\<close>'s success, whether the file opens again.
  \<open>check_reset_file\<close> closes the file through its own copy of the pointer; the global one dangles.\<close>

record log_sys =
  sys_ftell :: int
  sys_truncates :: bool
  sys_reopens :: bool

definition file_name :: "logger \<Rightarrow> string" where
  "file_name st = (case gFileName st of None \<Rightarrow> ''(null)'' | Some f \<Rightarrow> c_str f)"

text \<open>The first part handles an error of \<open>ftell\<close>, the second one a file that has grown too large.\<close>

definition rotate_log :: "log_sys \<Rightarrow> logger \<Rightarrow> int \<times> logger" where
  "rotate_log sys st =
     (let st = st\<lparr>log_cmds := log_cmds st @ [snprintf 63 (''cp -f '' @ file_name st @ '' '' @ file_name st @ ''.old'')]\<rparr> in
      if sys_truncates sys then (0, st\<lparr>log_text := []\<rparr>)
      else (if sys_reopens sys then 0 else -1, st\<lparr>log_ptr := Closed_file\<rparr>))"

definition check_reset_file :: "log_sys \<Rightarrow> logger \<Rightarrow> (int \<times> logger) option" where
  "check_reset_file sys st =
     (if log_ptr st \<noteq> Open_file then None
      else if sys_ftell sys = -1 then
        (if \<not> sys_reopens sys then Some (-1, st\<lparr>log_ptr := Closed_file\<rparr>)
         else Some (if -1 \<ge> gMaxLogFileSize st then rotate_log sys (st\<lparr>log_ptr := Closed_file\<rparr>)
                    else (0, st\<lparr>log_ptr := Closed_file\<rparr>)))
      else Some (if sys_ftell sys \<ge> gMaxLogFileSize st then rotate_log sys st else (0, st)))"

fun has_conversion :: "string \<Rightarrow> bool" where
  "has_conversion [] = False"
| "has_conversion [c] = (c = CHR ''%'')"
| "has_conversion (c # d # s) = (if c = CHR ''%'' then (if d = CHR ''%'' then has_conversion s else True) else has_conversion (d # s))"

text \<open>\<open>%%\<close> prints one percent sign.\<close>

fun print_percent :: "string \<Rightarrow> string" where
  "print_percent (c # d # s) = (if c = CHR ''%'' \<and> d = CHR ''%'' then c # print_percent s else c # print_percent (d # s))"
| "print_percent s = s"

text \<open>\<open>%13s\<close> and its like.\<close>

definition pad_left :: "nat \<Rightarrow> string \<Rightarrow> string" where
  "pad_left n s = replicate (n - length s) (CHR '' '') @ s"

text \<open>\<open>now\<close> and \<open>place\<close> are the formatted time and the thread, file and line; \<open>fmt\<close> is the effect of
  formatting with the arguments of the call.\<close>

definition log_line :: "string \<Rightarrow> string \<Rightarrow> e_module \<Rightarrow> e_level \<Rightarrow> (string \<Rightarrow> string) \<Rightarrow> string \<Rightarrow> string" where
  "log_line now place md level fmt format =
     (let log_str = snprintf 1023 (now @ '' ['' @ pad_left 13 (name_of_module md) @ '':'' @ pad_left 5 (name_of_level level) @ '']'' @
            [CHR 0x09] @ place @ [CHR 0x09] @ format @ [CHR 0x0A])
      in c_str (snprintf 1023 (fmt log_str)))"

definition debug_log ::
  "log_sys \<Rightarrow> string \<Rightarrow> string \<Rightarrow> e_module \<Rightarrow> e_level \<Rightarrow> (string \<Rightarrow> string) \<Rightarrow> string \<Rightarrow> logger \<Rightarrow> logger option" where
  "debug_log sys now place md level fmt format st = do {
     let buf = log_line now place md level fmt format;
     (ret, st) \<leftarrow> check_reset_file sys st;
     if ret \<noteq> 0 then Some (st\<lparr>stderr_lines := stderr_lines st + 1\<rparr>)
     else (case log_ptr st of
         Null_file \<Rightarrow> Some st
       | Closed_file \<Rightarrow> None
       | Open_file \<Rightarrow>
           let st = st\<lparr>log_text := log_text st @ buf\<rparr> in
           if get_debug_level md st = DEBUG then
             (if has_conversion buf then None else Some (st\<lparr>printed := printed st @ print_percent buf\<rparr>))
           else Some st) }"

text \<open>The macros \<open>LOG_DEBUG\<close>, \<open>LOG_INFO\<close> and \<open>LOG_ERROR\<close>: they differ in the levels they pass.\<close>

definition LOG :: "e_level \<Rightarrow> log_sys \<Rightarrow> string \<Rightarrow> string \<Rightarrow> e_module \<Rightarrow> (string \<Rightarrow> string) \<Rightarrow> string \<Rightarrow> logger \<Rightarrow> logger option" where
  "LOG l sys now place md fmt format st =
     (if md = MODULE_MAX then Some (st\<lparr>stderr_lines := stderr_lines st + 1\<rparr>)
      else if level_code (get_debug_level md st) \<le> level_code l then debug_log sys now place md l fmt format st
      else Some st)"

section \<open>What the log guarantees\<close>

lemma log_line_length: "length (log_line now place md level fmt format) \<le> 1022"
proof -
  have "length (c_str s) \<le> length s" for s by (simp add: c_str_def length_takeWhile_le)
  from order_trans [OF this length_snprintf [of 1023]] show ?thesis by (simp add: log_line_def Let_def)
qed

text \<open>A call on a file whose position is its length and which can be truncated.\<close>

type_synonym log_call = "e_level \<times> string \<times> string \<times> e_module \<times> (string \<Rightarrow> string) \<times> string"

definition log_once :: "log_call \<Rightarrow> logger \<Rightarrow> logger option" where
  "log_once c st = (case c of (l, now, place, md, fmt, format) \<Rightarrow>
     LOG l \<lparr>sys_ftell = int (length (log_text st)), sys_truncates = True, sys_reopens = True\<rparr> now place md fmt format st)"

definition no_conversion :: "log_call \<Rightarrow> bool" where
  "no_conversion c = (case c of (l, now, place, md, fmt, format) \<Rightarrow> \<not> has_conversion (log_line now place md l fmt format))"

definition log_ok :: "logger \<Rightarrow> bool" where
  "log_ok st \<longleftrightarrow> log_ptr st = Open_file \<and> 0 \<le> gMaxLogFileSize st \<and> int (length (log_text st)) \<le> gMaxLogFileSize st + 1022"

lemma log_once_ok:
  assumes "log_ok st" "no_conversion c"
  shows "\<exists>st'. log_once c st = Some st' \<and> log_ok st' \<and> gMaxLogFileSize st' = gMaxLogFileSize st \<and>
    module_level st' = module_level st"
proof -
  obtain l now place md fmt format where c: "c = (l, now, place, md, fmt, format)" by (cases c)
  have conv: "\<not> has_conversion (log_line now place md l fmt format)" using assms(2) by (simp add: no_conversion_def c)
  have len: "int (length (log_line now place md l fmt format)) \<le> 1022" using log_line_length by simp
  have st: "log_ptr st = Open_file" "0 \<le> gMaxLogFileSize st" "int (length (log_text st)) \<le> gMaxLogFileSize st + 1022"
    using assms(1) by (simp_all add: log_ok_def)
  show ?thesis
  proof (cases "md = MODULE_MAX \<or> \<not> level_code (get_debug_level md st) \<le> level_code l")
    case True
    then show ?thesis using assms(1) by (auto simp: log_once_def c LOG_def log_ok_def)
  next
    case False
    then have run: "log_once c st = debug_log \<lparr>sys_ftell = int (length (log_text st)), sys_truncates = True, sys_reopens = True\<rparr>
        now place md l fmt format st"
      by (simp add: log_once_def c LOG_def)
    show ?thesis
      unfolding run using conv len st
      by (auto simp: debug_log_def check_reset_file_def rotate_log_def Let_def log_ok_def get_debug_level_def)
  qed
qed

lemma log_calls_ok:
  assumes "log_ok st" "\<forall>c \<in> set cs. no_conversion c"
  shows "\<exists>st'. for_each log_once cs st = Some st' \<and> log_ok st' \<and> gMaxLogFileSize st' = gMaxLogFileSize st"
  using assms
proof (induction cs arbitrary: st)
  case (Cons c cs)
  obtain st1 where st1: "log_once c st = Some st1" "log_ok st1" "gMaxLogFileSize st1 = gMaxLogFileSize st"
    using log_once_ok [OF Cons.prems(1), of c] Cons.prems(2) by auto
  then show ?case using Cons.IH [OF st1(2)] Cons.prems(2) by auto
qed simp

lemma log_init_ok:
  "0 \<le> sz \<Longrightarrow> log_ok (log_init True (Some file) sz level log_start) \<and>
    (\<forall>m. m \<noteq> MODULE_MAX \<longrightarrow> get_debug_level m (log_init True (Some file) sz level log_start) = level)"
  by (auto simp: log_init_def log_start_def log_ok_def set_debug_level_def get_debug_level_def) (metis e_module.exhaust)

text \<open>Closing the log sets every level back to \<open>DEBUG\<close>, so that a later call uses the null pointer.\<close>

lemma log_after_close:
  assumes "log_close st = Some st'" "md \<noteq> MODULE_MAX"
  shows "LOG l sys now place md fmt format st' = None"
proof -
  have "log_ptr st' = Null_file" "get_debug_level md st' = DEBUG"
    using assms by (auto simp: log_close_def close_debug_def get_debug_level_def DEFAULT_LEVEL_def split: if_splits)
      (metis e_module.exhaust)
  then show ?thesis using assms(2) by (simp add: LOG_def debug_log_def check_reset_file_def)
qed

text \<open>A message at level \<open>DEBUG\<close> whose text has a conversion is handed to \<open>printf\<close> as its format.\<close>

lemma log_conversion:
  assumes "log_ok st" "module_level st md = DEBUG" "md \<noteq> MODULE_MAX" "has_conversion (log_line now place md l fmt format)"
  shows "log_once (l, now, place, md, fmt, format) st = None"
  using assms
  by (simp add: log_once_def LOG_def debug_log_def check_reset_file_def rotate_log_def Let_def log_ok_def get_debug_level_def)

end
