(* ===== verification/Program.thy ===== *)
theory Program
  imports Shutdown Log_Module
begin

text \<open>
  server.cpp: the program from its start to its end. \<open>main\<close> opens the log and the listening socket,
  runs its event base until a signal tells it to leave, and takes the server down. The input is what
  happens to the process, as a list of events; an event that cannot happen (data of a descriptor that
  is not connected, a new descriptor with a number in use) does nothing. Every state on the way is a
  reachable one of Worker, so all that is shown of these holds for it.
\<close>

section \<open>Signals and events\<close>

datatype main_event = Connection int | Notified nat | Arrived nat int bytes | Broken nat int bev_events | Timed_out nat int | Caught int

text \<open>\<open>sig_ignore\<close> and \<open>AddEventForBase\<close> return what the calls they make say; no caller looks at it, and
  the registrations are taken to succeed.\<close>

definition sig_ignore :: "int \<Rightarrow> int \<Rightarrow> int" where
  "sig_ignore emptied set_rc = (if emptied = -1 \<or> set_rc = -1 then -1 else 0)"

definition AddEventForBase :: "int \<Rightarrow> int" where
  "AddEventForBase add_rc = (if add_rc = -1 then -1 else 0)"

definition session_at :: "world \<Rightarrow> nat \<Rightarrow> int \<Rightarrow> sid option" where
  "session_at w t fd = (if t < length (threadList w) then sm_find fd (fdSessionMap (threadList w ! t)) else None)"

text \<open>A callback of a connection runs if what it waits for is registered.\<close>

definition on_session ::
  "(UserSession \<Rightarrow> bool) \<Rightarrow> (sid \<Rightarrow> world \<Rightarrow> world option) \<Rightarrow> nat \<Rightarrow> int \<Rightarrow> world \<Rightarrow> world option" where
  "on_session waits f t fd w =
     (case session_at w t fd of None \<Rightarrow> Some w
      | Some s \<Rightarrow> (case sess w s of None \<Rightarrow> Some w | Some u \<Rightarrow> if waits u then f s w else Some w))"

text \<open>\<open>on\<close>: the listening socket is open. A signal changes nothing in the server.\<close>

fun srv_event :: "env \<Rightarrow> bool \<Rightarrow> main_event \<Rightarrow> world \<Rightarrow> world option" where
  "srv_event E on (Connection fd) w = (if on \<and> fd \<notin> open_fds w then AcceptHandler fd w else Some w)"
| "srv_event E on (Notified t) w = (if t < length (threadList w) then NotifyReceivedProcess E t w else Some w)"
| "srv_event E on (Arrived t fd bs) w = on_session bufev (\<lambda>s. receive E s bs) t fd w"
| "srv_event E on (Broken t fd ev) w = on_session bufev (\<lambda>s. OnEventCb E s ev) t fd w"
| "srv_event E on (Timed_out t fd) w = on_session timer_on (TimerOutHandle E) t fd w"
| "srv_event E on (Caught sig) w = Some w"

text \<open>\<open>signal_handle\<close> ends the loop for the two signals it is registered for. The result says whether
  the loop has ended.\<close>

definition signal_handle :: "int \<Rightarrow> bool" where
  "signal_handle sig \<longleftrightarrow> sig = 2 \<or> sig = 15"

fun main_loop :: "env \<Rightarrow> bool \<Rightarrow> main_event list \<Rightarrow> world \<Rightarrow> (bool \<times> world) option" where
  "main_loop E on [] w = Some (False, w)"
| "main_loop E on (e # es) w = do {
     w \<leftarrow> srv_event E on e w;
     case e of Caught sig \<Rightarrow> if signal_handle sig then Some (True, w) else main_loop E on es w
     | _ \<Rightarrow> main_loop E on es w }"

text \<open>\<open>socket_rcs\<close> is what \<open>socket\<close>, \<open>bind\<close> and \<open>listen\<close> return, \<open>n\<close> bounds the worker's turns while it
  stops. The result is \<open>None\<close> for a crash, \<open>Some None\<close> while the program runs.\<close>

definition server_main :: "env \<Rightarrow> bool \<Rightarrow> int \<times> int \<times> int \<Rightarrow> main_event list \<Rightarrow> nat \<Rightarrow> (int \<times> world \<times> listener \<times> logger) option option" where
  "server_main E log_opens socket_rcs evs n =
     (let lg = log_init log_opens (Some ''/tmp/chessServer.log'') 102400 DEBUG log_start;
          ls = (case socket_rcs of (sock, b, l) \<Rightarrow> IniServerEnv sock b l) in
      do {
        (ended, w) \<leftarrow> main_loop E (listening ls) evs server_start;
        if \<not> ended then Some None
        else do {
          w \<leftarrow> DestructMainThreadObj E n w;
          lg \<leftarrow> log_close lg;
          Some (Some (0, w, close_listener ls, lg)) } })"

section \<open>The program's states are the reachable ones\<close>

lemma on_session_step:
  assumes "on_session waits f t fd w = Some w'" "srv_reach E w"
    and "\<And>s u. connected w t fd s \<Longrightarrow> sess w s = Some u \<Longrightarrow> waits u \<Longrightarrow> f s w = Some w' \<Longrightarrow> srv_step E w w'"
  shows "srv_reach E w'"
  using assms srv_reach.step [OF assms(2)]
  by (auto simp: on_session_def session_at_def connected_def split: option.splits if_splits)

lemma srv_event_reach:
  assumes "srv_event E on e w = Some w'" "srv_reach E w"
  shows "srv_reach E w'"
proof (cases e)
  case (Connection fd)
  then show ?thesis using assms srv_reach.step [OF assms(2) srv_step.accept] by (auto split: if_splits)
next
  case (Notified t)
  then show ?thesis using assms srv_reach.step [OF assms(2) srv_step.notify] by (auto split: if_splits)
next
  case (Arrived t fd bs)
  then show ?thesis using assms by (auto elim!: on_session_step intro: srv_step.read)
next
  case (Broken t fd ev)
  then show ?thesis using assms by (auto elim!: on_session_step intro: srv_step.event)
next
  case (Timed_out t fd)
  then show ?thesis using assms by (auto elim!: on_session_step intro: srv_step.timeout)
qed (use assms in simp)

lemma main_loop_reach:
  "main_loop E on es w = Some (ended, w') \<Longrightarrow> srv_reach E w \<Longrightarrow> srv_reach E w'"
proof (induction es arbitrary: w)
  case (Cons e es)
  from Cons.prems(1) obtain w1 where e: "srv_event E on e w = Some w1"
    and r: "main_loop E on es w1 = Some (ended, w') \<or> w' = w1"
    by (auto elim!: bind_SomeE split: main_event.splits if_splits)
  then show ?case using Cons.IH srv_event_reach [OF e Cons.prems(2)] by blast
qed simp

text \<open>Every reachable state is met by the program on some input.\<close>

lemma srv_step_event:
  assumes "srv_step E w w'"
  shows "\<exists>e. srv_event E True e w = Some w' \<and> (\<forall>sig. e \<noteq> Caught sig)"
  using assms
proof cases
  case (accept fd)
  then show ?thesis by (intro exI [of _ "Connection fd"]) simp
next
  case (notify t)
  then show ?thesis by (intro exI [of _ "Notified t"]) simp
next
  case (read t fd s u bs)
  then show ?thesis by (intro exI [of _ "Arrived t fd bs"]) (simp add: on_session_def session_at_def connected_def)
next
  case (event t fd s u ev)
  then show ?thesis by (intro exI [of _ "Broken t fd ev"]) (simp add: on_session_def session_at_def connected_def)
next
  case (timeout t fd s u)
  then show ?thesis by (intro exI [of _ "Timed_out t fd"]) (simp add: on_session_def session_at_def connected_def)
qed

lemma main_loop_append:
  "main_loop E on (es @ fs) w =
     do { (ended, w) \<leftarrow> main_loop E on es w; if ended then Some (True, w) else main_loop E on fs w }"
proof (induction es arbitrary: w)
  case (Cons e es)
  show ?case
  proof (cases "srv_event E on e w")
    case (Some w1)
    then show ?thesis using Cons.IH [of w1] by (cases e) simp_all
  qed simp
qed simp

lemma reach_main_loop: "srv_reach E w \<Longrightarrow> \<exists>evs. main_loop E True evs server_start = Some (False, w)"
proof (induction rule: srv_reach.induct)
  case start
  show ?case by (rule exI [of _ "[]"]) simp
next
  case (step w w')
  then obtain evs where "main_loop E True evs server_start = Some (False, w)" by blast
  moreover obtain e where "srv_event E True e w = Some w'" "\<forall>sig. e \<noteq> Caught sig" using srv_step_event [OF step(2)] by blast
  ultimately have "main_loop E True (evs @ [e]) server_start = Some (False, w')"
    by (cases e) (simp_all add: main_loop_append)
  then show ?case by blast
qed

theorem reach_iff_met: "srv_reach E w \<longleftrightarrow> (\<exists>evs. main_loop E True evs server_start = Some (False, w))"
  using reach_main_loop main_loop_reach [OF _ srv_reach.start] by blast

section \<open>The end\<close>

lemma main_returns:
  assumes E: "env_ok E" and m: "main_loop E (listening (IniServerEnv sock b l)) evs server_start = Some (True, w)"
    and n: "length (concat (map notify_pipe (threadList w))) + 2 \<le> n"
  shows "\<exists>w' ds ls lg. server_main E log_opens (sock, b, l) evs n = Some (Some (0, w', ls, lg)) \<and>
    sess w' = (\<lambda>_. None) \<and> boards w' = (\<lambda>_. None) \<and> halls w' = (\<lambda>_. None) \<and> \<not> listening ls \<and> log_ptr lg = Null_file \<and>
    closed_fds w' = ds @ closed_fds w \<and> distinct ds \<and> set ds = open_fds w"
proof -
  have r: "srv_reach E w" by (rule main_loop_reach [OF m srv_reach.start])
  obtain th where th: "threadList w = [th]" using srv_reach_ok [OF r] by (metis world_threads)
  have "length (notify_pipe th) + 2 \<le> n" using n th by simp
  from stopped [OF r E th this] obtain w' ds where w': "DestructMainThreadObj E n w = Some w'"
    "sess w' = (\<lambda>_. None)" "boards w' = (\<lambda>_. None)" "halls w' = (\<lambda>_. None)"
    "closed_fds w' = ds @ closed_fds w" "distinct ds" "set ds = open_fds w" by blast
  have "\<exists>lg. log_close (log_init log_opens (Some ''/tmp/chessServer.log'') 102400 DEBUG log_start) = Some lg \<and> log_ptr lg = Null_file"
    by (cases log_opens) (simp_all add: log_init_def log_close_def log_start_def set_debug_level_def close_debug_def)
  then show ?thesis using w' m by (auto simp: server_main_def Let_def close_listener_def)
qed

end
