(* ===== verification/Unix_Socket.thy ===== *)
theory Unix_Socket
  imports Framing
begin

text \<open>
  libtimer/unixsktapi.c: whole messages over a non-blocking Unix domain socket. What the kernel
  answers in each turn of a loop (\<open>select\<close>, then \<open>send\<close>, \<open>recv\<close> or \<open>accept\<close>) is given as a list of
  rounds; a loop that has used up its rounds is still running (\<open>None\<close>).
\<close>

section \<open>Opening a socket\<close>

text \<open>The steps fail one by one; a failed one after \<open>bind\<close> was tried closes the descriptor and
  removes the path. Results: the return value, the descriptor handed out, the descriptors closed and
  how often the path was unlinked.\<close>

record open_result =
  open_ret :: int
  open_fd :: int
  open_closed :: "int list"
  open_unlinks :: nat

definition unix_domain_socket_init :: "int \<Rightarrow> int \<Rightarrow> int \<Rightarrow> int \<Rightarrow> open_result" where
  "unix_domain_socket_init fd bind_rc chmod_rc listen_rc =
     (if fd < 0 then \<lparr>open_ret = -1, open_fd = 0, open_closed = [], open_unlinks = 0\<rparr>
      else if bind_rc < 0 then \<lparr>open_ret = -1, open_fd = 0, open_closed = [fd], open_unlinks = 2\<rparr>
      else if chmod_rc < 0 then \<lparr>open_ret = -1, open_fd = 0, open_closed = [fd], open_unlinks = 2\<rparr>
      else if listen_rc < 0 then \<lparr>open_ret = -1, open_fd = 0, open_closed = [fd], open_unlinks = 2\<rparr>
      else \<lparr>open_ret = 0, open_fd = fd, open_closed = [], open_unlinks = 1\<rparr>)"

text \<open>\<open>old\<close> is what the caller's variable held; a connection in progress is a success.\<close>

definition unix_domain_socket_connect :: "string option \<Rightarrow> int \<Rightarrow> int \<Rightarrow> int \<Rightarrow> bool \<Rightarrow> open_result" where
  "unix_domain_socket_connect socket_path old fd rc in_progress =
     (if socket_path = None then \<lparr>open_ret = -1, open_fd = old, open_closed = [], open_unlinks = 0\<rparr>
      else if fd < 0 then \<lparr>open_ret = -1, open_fd = old, open_closed = [], open_unlinks = 0\<rparr>
      else if rc < 0 \<and> \<not> in_progress then \<lparr>open_ret = -1, open_fd = old, open_closed = [fd], open_unlinks = 0\<rparr>
      else \<lparr>open_ret = 0, open_fd = fd, open_closed = [], open_unlinks = 0\<rparr>)"

definition unix_domain_socket_clean :: "int \<Rightarrow> int list \<times> nat" where
  "unix_domain_socket_clean socket = (if socket > 0 then ([socket], 1) else ([], 0))"

datatype accept_round = A_timeout | A_select_failed | A_not_set | A_accept_failed | A_accepted int

text \<open>\<open>timed\<close>: a time-out is given. The result is the return value and the descriptor.\<close>

fun unix_domain_accept_req :: "bool \<Rightarrow> accept_round list \<Rightarrow> (int \<times> int option) option" where
  "unix_domain_accept_req timed [] = None"
| "unix_domain_accept_req timed (r # rs) =
     (case r of
        A_timeout \<Rightarrow> if timed then Some (0, None) else Some (-1, None)
      | A_select_failed \<Rightarrow> Some (-1, None)
      | A_not_set \<Rightarrow> unix_domain_accept_req timed rs
      | A_accept_failed \<Rightarrow> unix_domain_accept_req timed rs
      | A_accepted fd \<Rightarrow> Some (1, Some fd))"

section \<open>Sending\<close>

text \<open>\<open>S_sent n\<close>: \<open>send\<close> took \<open>n\<close> bytes, at most those that are left. \<open>continue\<close> goes to the loop's
  condition.\<close>

datatype send_round = S_timeout | S_interrupted | S_select_failed | S_not_set | S_blocked | S_send_failed | S_sent nat

datatype 'a turn = Done int 'a | Continue 'a

definition send_turn :: "bool \<Rightarrow> bytes \<Rightarrow> send_round \<Rightarrow> nat \<Rightarrow> nat turn" where
  "send_turn timed msg r send_len =
     (case r of
        S_timeout \<Rightarrow> if timed then Done (-1) send_len else Continue send_len
      | S_interrupted \<Rightarrow> Continue send_len
      | S_select_failed \<Rightarrow> Done (-1) send_len
      | S_not_set \<Rightarrow> Continue send_len
      | S_blocked \<Rightarrow> Continue send_len
      | S_send_failed \<Rightarrow> Done (-1) send_len
      | S_sent n \<Rightarrow> Continue (send_len + min n (length msg - send_len)))"

text \<open>The result is the return value and the bytes that were sent.\<close>

fun send_rounds :: "bool \<Rightarrow> bytes \<Rightarrow> send_round list \<Rightarrow> nat \<Rightarrow> (int \<times> bytes) option" where
  "send_rounds timed msg [] send_len = None"
| "send_rounds timed msg (r # rs) send_len =
     (case send_turn timed msg r send_len of
        Done ret send_len \<Rightarrow> Some (ret, take send_len msg)
      | Continue send_len \<Rightarrow>
          if send_len < length msg then send_rounds timed msg rs send_len else Some (0, take send_len msg))"

definition unix_domain_send_msg :: "bool \<Rightarrow> bytes \<Rightarrow> send_round list \<Rightarrow> (int \<times> bytes) option" where
  "unix_domain_send_msg timed msg rs = send_rounds timed msg rs 0"

section \<open>Receiving\<close>

text \<open>\<open>R_ready bs\<close>: the bytes \<open>bs\<close> have arrived. What is in the socket (\<open>in_socket\<close>) is read up to the
  length that is expected; the length is known once the header, the size of the data, has been
  read. A message that does not fit the caller's buffer goes on in a block of its own.\<close>

datatype recv_round = R_timeout | R_interrupted | R_select_failed | R_not_set | R_recv_failed | R_shutdown | R_ready bytes

record receiver =
  in_socket :: bytes
  recvd :: bytes
  msg_len :: u32
  got_msg_hdr :: bool
  own_buf :: bool

definition msg_head :: nat where "msg_head = 4"

definition recv_head :: "bool \<Rightarrow> u32 \<Rightarrow> receiver \<Rightarrow> receiver turn" where
  "recv_head mem cap st =
     (if \<not> got_msg_hdr st \<and> length (recvd st) \<ge> msg_head then
        let st = st\<lparr>got_msg_hdr := True, msg_len := of_nat msg_head + get_le32 0 (recvd st)\<rparr> in
        if cap < msg_len st then
          (if mem then Continue (st\<lparr>own_buf := True\<rparr>) else Done (-1) st)
        else Continue st
      else Continue st)"

definition recv_turn :: "bool \<Rightarrow> bool \<Rightarrow> u32 \<Rightarrow> recv_round \<Rightarrow> receiver \<Rightarrow> receiver turn" where
  "recv_turn timed mem cap r st =
     (case r of
        R_timeout \<Rightarrow> if timed then Done (-1) st else Continue st
      | R_interrupted \<Rightarrow> Continue st
      | R_select_failed \<Rightarrow> Done (-1) st
      | R_not_set \<Rightarrow> Continue st
      | R_recv_failed \<Rightarrow> Done (-1) st
      | R_shutdown \<Rightarrow> Done (-1) st
      | R_ready bs \<Rightarrow>
          let buf = in_socket st @ bs; room = unat (msg_len st) - length (recvd st) in
          if room = 0 then Done (-1) (st\<lparr>in_socket := buf\<rparr>)
          else if buf = [] then Continue st
          else recv_head mem cap (st\<lparr>in_socket := drop room buf, recvd := recvd st @ take room buf\<rparr>))"

fun recv_rounds :: "bool \<Rightarrow> bool \<Rightarrow> u32 \<Rightarrow> recv_round list \<Rightarrow> receiver \<Rightarrow> (int \<times> receiver) option" where
  "recv_rounds timed mem cap [] st = None"
| "recv_rounds timed mem cap (r # rs) st =
     (case recv_turn timed mem cap r st of
        Done ret st \<Rightarrow> Some (ret, st)
      | Continue st \<Rightarrow>
          if length (recvd st) < unat (msg_len st) then recv_rounds timed mem cap rs st else Some (0, st))"

definition unix_domain_recv_msg :: "bool \<Rightarrow> bool \<Rightarrow> u32 \<Rightarrow> recv_round list \<Rightarrow> (int \<times> receiver) option" where
  "unix_domain_recv_msg timed mem cap rs =
     recv_rounds timed mem cap rs \<lparr>in_socket = [], recvd = [], msg_len = cap, got_msg_hdr = False, own_buf = False\<rparr>"

section \<open>What is sent\<close>

text \<open>Success means that every byte has been sent; on every return a prefix has been.\<close>

lemma send_rounds_result:
  "send_rounds timed msg rs k = Some (ret, out) \<Longrightarrow> k \<le> length msg \<Longrightarrow>
     \<exists>n \<le> length msg. out = take n msg \<and> (ret = 0 \<and> out = msg \<or> ret = -1)"
proof (induction rs arbitrary: k)
  case (Cons r rs)
  show ?case
  proof (cases "send_turn timed msg r k")
    case (Done e n)
    then have "n = k \<and> e = -1" by (auto simp: send_turn_def split: send_round.splits if_splits)
    then show ?thesis using Cons.prems Done by auto
  next
    case (Continue n)
    then have n: "n \<le> length msg" using Cons.prems(2) by (auto simp: send_turn_def split: send_round.splits if_splits)
    show ?thesis
    proof (cases "n < length msg")
      case True
      then show ?thesis using Cons.IH [of n] Cons.prems(1) Continue by simp
    next
      case False
      then show ?thesis using Cons.prems(1) Continue n by auto
    qed
  qed
qed simp

section \<open>What is received\<close>

fun arrived :: "recv_round list \<Rightarrow> bytes" where
  "arrived [] = []"
| "arrived (R_ready bs # rs) = bs @ arrived rs"
| "arrived (_ # rs) = arrived rs"

fun harmless :: "recv_round \<Rightarrow> bool" where
  "harmless (R_ready bs) = True"
| "harmless R_interrupted = True"
| "harmless R_not_set = True"
| "harmless _ = False"

definition whole_msg :: "bytes \<Rightarrow> bytes" where
  "whole_msg d = le32 (of_nat (length d)) @ d"

text \<open>A receiver in the middle of the message \<open>m\<close>, with nothing left in the socket.\<close>

definition midway :: "u32 \<Rightarrow> bytes \<Rightarrow> bytes \<Rightarrow> receiver \<Rightarrow> bool" where
  "midway cap m rest st \<longleftrightarrow> in_socket st = [] \<and> m = recvd st @ rest \<and> rest \<noteq> [] \<and> \<not> own_buf st \<and>
     (got_msg_hdr st \<longleftrightarrow> msg_head \<le> length (recvd st)) \<and> msg_len st = (if got_msg_hdr st then of_nat (length m) else cap)"

lemma whole_head:
  assumes "whole_msg d = a @ b" "msg_head \<le> length a"
  shows "get_le32 0 a = of_nat (length d)"
proof -
  have "a = le32 (of_nat (length d)) @ drop 4 a"
  proof -
    have "take 4 a = take 4 (whole_msg d)" using assms by (simp add: msg_head_def)
    then have "take 4 a = le32 (of_nat (length d))" by (simp add: whole_msg_def)
    then show ?thesis using append_take_drop_id [of 4 a] by metis
  qed
  then show ?thesis using get_le32_le32 by metis
qed

lemma midway_ready:
  assumes m: "midway cap m rest st" and d: "m = whole_msg d" and l: "length m \<le> unat cap" and b: "rest = bs @ rest'"
  shows "\<exists>st'. recv_turn timed mem cap (R_ready bs) st = Continue st' \<and> recvd st' = recvd st @ bs \<and> \<not> own_buf st' \<and>
    (rest' \<noteq> [] \<longrightarrow> midway cap m rest' st') \<and> (rest' = [] \<longrightarrow> unat (msg_len st') = length m)"
proof -
  have st: "in_socket st = []" "m = recvd st @ rest" "\<not> own_buf st"
    "got_msg_hdr st \<longleftrightarrow> msg_head \<le> length (recvd st)" "msg_len st = (if got_msg_hdr st then of_nat (length m) else cap)" "rest \<noteq> []"
    using m by (simp_all add: midway_def)
  have fit: "length m < 2 ^ 32" using l unsigned_less [of cap, where ?'a = nat] by simp
  then have lm: "unat (of_nat (length m) :: u32) = length m" by (simp add: unat_of_nat)
  have ml: "length m \<le> unat (msg_len st)" using l lm st(5) by simp
  let ?room = "unat (msg_len st) - length (recvd st)"
  have len: "length m = length (recvd st) + length bs + length rest'" using st(2) b by simp
  have room: "?room \<noteq> 0" "length bs \<le> ?room"
    using len ml st(6) b by (auto simp: length_greater_0_conv [symmetric] simp del: length_greater_0_conv)
  show ?thesis
  proof (cases "bs = []")
    case True
    then show ?thesis using st room b m by (simp add: recv_turn_def)
  next
    case False
    have turn: "recv_turn timed mem cap (R_ready bs) st = recv_head mem cap (st\<lparr>in_socket := [], recvd := recvd st @ bs\<rparr>)"
      using st(1) room False by (simp add: recv_turn_def)
    show ?thesis
    proof (cases "\<not> got_msg_hdr st \<and> msg_head \<le> length (recvd st @ bs)")
      case True
      have "get_le32 0 (recvd st @ bs) = of_nat (length d)"
        by (rule whole_head) (use True st(2) b d in auto)
      moreover have "(of_nat msg_head + of_nat (length d) :: u32) = of_nat (length m)"
        by (simp add: d whole_msg_def msg_head_def)
      moreover have "\<not> cap < (of_nat (length m) :: u32)" using l lm by (simp add: word_less_nat_alt)
      ultimately show ?thesis using turn True st b lm
        by (auto simp: recv_head_def midway_def)
    next
      case False
      have "4 \<le> length (recvd st) + length bs + length rest'" using len d by (simp add: whole_msg_def)
      then show ?thesis using False turn st b lm len
        by (auto simp: recv_head_def midway_def msg_head_def)
    qed
  qed
qed

lemma midway_more: "midway cap m rest st \<Longrightarrow> length m \<le> unat cap \<Longrightarrow> length (recvd st) < unat (msg_len st)"
proof -
  assume a: "midway cap m rest st" "length m \<le> unat cap"
  have "length m < 2 ^ 32" using a(2) unsigned_less [of cap, where ?'a = nat] by simp
  then have "unat (of_nat (length m) :: u32) = length m" by (simp add: unat_of_nat)
  moreover have "length (recvd st) < length m" using a(1) by (simp add: midway_def)
  moreover have "msg_len st = (if got_msg_hdr st then of_nat (length m) else cap)" using a(1) by (simp add: midway_def)
  ultimately show ?thesis using a(2) by simp
qed

lemma receive_whole:
  assumes "midway cap m rest st" "m = whole_msg d" "length m \<le> unat cap" "list_all harmless rs" "arrived rs = rest"
  shows "\<exists>st'. recv_rounds timed mem cap rs st = Some (0, st') \<and> recvd st' = m \<and> \<not> own_buf st'"
  using assms
proof (induction rs arbitrary: st rest)
  case Nil
  then show ?case by (simp add: midway_def)
next
  case (Cons r rs)
  show ?case
  proof (cases "\<exists>bs. r = R_ready bs")
    case True
    then obtain bs where r: "r = R_ready bs" by blast
    have rest: "rest = bs @ arrived rs" using Cons.prems(5) r by simp
    from midway_ready [OF Cons.prems(1-3) rest, of timed mem] obtain st1 where st1:
      "recv_turn timed mem cap r st = Continue st1" "recvd st1 = recvd st @ bs" "\<not> own_buf st1"
      "arrived rs \<noteq> [] \<Longrightarrow> midway cap m (arrived rs) st1" "arrived rs = [] \<Longrightarrow> unat (msg_len st1) = length m"
      unfolding r by blast
    show ?thesis
    proof (cases "arrived rs = []")
      case True
      have "recvd st1 = m" using st1(2) rest True Cons.prems(1) by (simp add: midway_def)
      then show ?thesis using st1 True by simp
    next
      case False
      have hs: "list_all harmless rs" using Cons.prems(4) by simp
      have "length (recvd st1) < unat (msg_len st1)" using midway_more [OF st1(4) Cons.prems(3)] False by simp
      then show ?thesis using Cons.IH [OF st1(4) [OF False] Cons.prems(2,3) hs refl] st1(1) by simp
    qed
  next
    case False
    then have "recv_turn timed mem cap r st = Continue st" "arrived rs = rest"
      using Cons.prems(4,5) by (cases r; simp add: recv_turn_def)+
    moreover have "list_all harmless rs" using Cons.prems(4) by simp
    ultimately show ?thesis using Cons.IH [OF Cons.prems(1-3)] midway_more [OF Cons.prems(1,3)] by simp
  qed
qed

lemma transfer_whole:
  assumes s: "unix_domain_send_msg timed (whole_msg d) ss = Some (0, out)"
    and h: "list_all harmless rs" "arrived rs = out" and c: "length d + 4 \<le> unat cap"
  shows "\<exists>st. unix_domain_recv_msg timed' mem cap rs = Some (0, st) \<and> recvd st = whole_msg d \<and> \<not> own_buf st"
proof -
  have out: "out = whole_msg d" using send_rounds_result [OF s [unfolded unix_domain_send_msg_def]] by auto
  have "midway cap (whole_msg d) out \<lparr>in_socket = [], recvd = [], msg_len = cap, got_msg_hdr = False, own_buf = False\<rparr>"
    unfolding out by (simp add: midway_def whole_msg_def msg_head_def) (metis length_le32 list.size(3) zero_neq_numeral)
  from receive_whole [OF this refl _ h, of timed' mem] c show ?thesis
    unfolding unix_domain_recv_msg_def by (simp add: whole_msg_def)
qed

section \<open>Bounds\<close>

text \<open>Whatever the peer sends, the bytes received stay within the buffer they are in.\<close>

definition in_buffer :: "u32 \<Rightarrow> receiver \<Rightarrow> bool" where
  "in_buffer cap st \<longleftrightarrow> (if own_buf st then length (recvd st) \<le> unat (msg_len st)
     else length (recvd st) \<le> unat cap \<and> msg_len st \<le> cap)"

definition within :: "u32 \<Rightarrow> receiver \<Rightarrow> bool" where
  "within cap st \<longleftrightarrow> length (recvd st) \<le> unat (if own_buf st then msg_len st else cap)"

lemma recv_head_within:
  assumes "in_buffer cap st" "own_buf st \<longrightarrow> got_msg_hdr st"
  shows "case recv_head mem cap st of Done e st' \<Rightarrow> within cap st' | Continue st' \<Rightarrow>
    in_buffer cap st' \<and> (own_buf st' \<longrightarrow> got_msg_hdr st')"
  using assms by (auto simp: recv_head_def in_buffer_def within_def Let_def word_less_nat_alt word_le_nat_alt)

lemma recv_turn_within:
  assumes "in_buffer cap st" "own_buf st \<longrightarrow> got_msg_hdr st"
  shows "case recv_turn timed mem cap r st of Done e st' \<Rightarrow> within cap st' | Continue st' \<Rightarrow>
    in_buffer cap st' \<and> (own_buf st' \<longrightarrow> got_msg_hdr st')"
proof (cases r)
  case (R_ready bs)
  let ?st = "st\<lparr>in_socket := drop (unat (msg_len st) - length (recvd st)) (in_socket st @ bs),
    recvd := recvd st @ take (unat (msg_len st) - length (recvd st)) (in_socket st @ bs)\<rparr>"
  have "length (recvd ?st) \<le> max (length (recvd st)) (unat (msg_len st))" by simp
  then have "in_buffer cap ?st" "own_buf ?st \<longrightarrow> got_msg_hdr ?st"
    using assms by (auto simp: in_buffer_def word_le_nat_alt simp del: length_append length_take)
  from recv_head_within [OF this, of mem] show ?thesis
    using R_ready assms by (auto simp: recv_turn_def Let_def in_buffer_def within_def)
qed (use assms in \<open>auto simp: recv_turn_def in_buffer_def within_def\<close>)

lemma recv_rounds_within:
  "in_buffer cap st \<Longrightarrow> own_buf st \<longrightarrow> got_msg_hdr st \<Longrightarrow> recv_rounds timed mem cap rs st = Some (ret, st') \<Longrightarrow> within cap st'"
proof (induction rs arbitrary: st)
  case (Cons r rs)
  note turn = recv_turn_within [OF Cons.prems(1,2), of timed mem r]
  show ?case
  proof (cases "recv_turn timed mem cap r st")
    case (Done e st1)
    then show ?thesis using turn Cons.prems(3) by simp
  next
    case (Continue st1)
    then have ok: "in_buffer cap st1" "own_buf st1 \<longrightarrow> got_msg_hdr st1" using turn by simp_all
    then have "within cap st1" by (simp add: in_buffer_def within_def)
    then show ?thesis using Continue Cons.prems(3) Cons.IH [OF ok] by (simp split: if_splits)
  qed
qed simp

lemma recv_msg_within: "unix_domain_recv_msg timed mem cap rs = Some (ret, st) \<Longrightarrow> within cap st"
  unfolding unix_domain_recv_msg_def by (rule recv_rounds_within) (simp_all add: in_buffer_def)

end
