(* ===== verification/Ad_Init.thy ===== *)
theory Ad_Init
  imports Md5_Stream Sql
begin

text \<open>
  The tables of the database (mysqldb.cpp, \<open>IniSQLConnection\<close> of thread.cpp and adinit.cpp) and the
  program adinit.cpp that fills the table of advertisement pictures from the image directories. The
  directories' entries and the files are parameters (\<open>opendir\<close>, \<open>file_open\<close>). What the program writes
  is what the server reads back (\<open>ad_row\<close>).
\<close>

section \<open>Tables\<close>

definition tab2 :: string where "tab2 = [CHR 0x09, CHR 0x09]"

text \<open>Each function sends one command with \<open>mysql_query\<close>.\<close>

definition create_table :: "env \<Rightarrow> string \<Rightarrow> string list \<Rightarrow> int \<times> string list" where
  "create_table E sql log = (let log = snprintf 1023 sql # log in (if db_real_query E log \<noteq> 0 then -1 else 0, log))"

definition creat_users_info_table :: "env \<Rightarrow> string list \<Rightarrow> int \<times> string list" where
  "creat_users_info_table E = create_table E (''CREATE TABLE if NOT exists users_info ('' @
     tab2 @ ''account varchar(50) NOT NULL,'' @ tab2 @ ''password varchar(50) NOT NULL,'' @
     tab2 @ ''email varchar(50) NOT NULL,'' @ tab2 @ ''score int,'' @ tab2 @ ''head_photo mediumblob,'' @
     tab2 @ ''user_name varchar(50),'' @ tab2 @ ''phone varchar(20),'' @ tab2 @ ''PRIMARY KEY (account)'' @
     tab2 @ '')ENGINE=InnoDB;'')"

definition creat_ad_pictures_table :: "env \<Rightarrow> string list \<Rightarrow> int \<times> string list" where
  "creat_ad_pictures_table E = create_table E (''CREATE TABLE if NOT exists ad_pictures ('' @
     tab2 @ ''id int NOT NULL,'' @ tab2 @ ''existed tinyint(1) NOT NULL,'' @ tab2 @ ''image_name varchar(100),'' @
     tab2 @ ''image_type varchar(50),'' @ tab2 @ ''image_hashcode varchar(33),'' @ tab2 @ ''image_size int,'' @
     tab2 @ ''link_url varchar(125),'' @ tab2 @ ''locate_path varchar(125),'' @ tab2 @ ''PRIMARY KEY (id)'' @
     tab2 @ '')ENGINE=InnoDB;'')"

definition creat_image_version_table :: "env \<Rightarrow> string list \<Rightarrow> int \<times> string list" where
  "creat_image_version_table E = create_table E (''CREATE TABLE if NOT exists image_version ('' @
     tab2 @ ''id int NOT NULL auto_increment,'' @ tab2 @ ''version varchar(100) NOT NULL,'' @
     tab2 @ ''mandatory_update int NOT NULL,'' @ tab2 @ ''image_info varchar(250),'' @
     tab2 @ ''locate_path varchar(250),'' @ tab2 @ ''PRIMARY KEY (id)'' @
     tab2 @ '')ENGINE=InnoDB;'')"

text \<open>\<open>init_ok\<close>, \<open>options_ok\<close>, \<open>connect_ok\<close>: whether \<open>mysql_init\<close>, \<open>mysql_options\<close> and
  \<open>mysql_real_connect\<close> succeed. The result: the return value and whether the handle is non-null.\<close>

definition mysql_db_connect :: "bool \<Rightarrow> bool \<Rightarrow> int" where
  "mysql_db_connect options_ok connect_ok = (if \<not> options_ok then -1 else if \<not> connect_ok then -1 else 0)"

definition mysql_db_init :: "bool \<Rightarrow> int \<times> bool" where
  "mysql_db_init init_ok = (if \<not> init_ok then (-1, False) else (0, True))"

definition WorkThread_IniSQLConnection ::
  "env \<Rightarrow> bool \<Rightarrow> bool \<Rightarrow> bool \<Rightarrow> string list \<Rightarrow> bool \<times> bool \<times> string list" where
  "WorkThread_IniSQLConnection E init_ok options_ok connect_ok log =
     (let con = snd (mysql_db_init init_ok) in
      if \<not> con then (False, con, log)
      else if mysql_db_connect options_ok connect_ok \<noteq> 0 then (False, con, log)
      else
        let log = snd (creat_users_info_table E log);
            log = snd (creat_ad_pictures_table E log);
            log = snd (creat_image_version_table E log)
        in (True, con, log))"

definition AdInit_IniSQLConnection ::
  "env \<Rightarrow> bool \<Rightarrow> bool \<Rightarrow> bool \<Rightarrow> string list \<Rightarrow> (bool \<times> bool \<times> string list) option" where
  "AdInit_IniSQLConnection E init_ok options_ok connect_ok log =
     (let con = snd (mysql_db_init init_ok) in
      if \<not> con then Some (False, con, log)
      else if mysql_db_connect options_ok connect_ok \<noteq> 0 then Some (False, con, log)
      else do {
        (_, log) \<leftarrow> mysql_db_excute E con ''DROP TABLE ad_pictures'' log;
        Some (True, con, snd (creat_ad_pictures_table E log)) })"

section \<open>Pictures\<close>

definition IMAGE_PREFIX :: string where "IMAGE_PREFIX = ''/home/gbx386/libevent_test/Images/''"

datatype ImageID = IMAGE_ID_AD_HALL_TOP_LEFT | IMAGE_ID_AD_HALL_TOP_RIGHT | IMAGE_ID_AD_HALL_BOTTOM_LEFT
  | IMAGE_ID_AD_HALL_BOTTOM_RIGHT | IMAGE_ID_AD_BOARD_TOP_LEFT | IMAGE_ID_AD_BOARD_TOP_RIGHT
  | IMAGE_ID_AD_BOARD_BOTTOM_LEFT | IMAGE_ID_AD_BOARD_BOTTOM_RIGHT | IMAGE_ID_AD_BOARD_MIDDLE
  | IMAGE_ID_LOGIN_BACKGROUND | IMAGE_ID_MAX

fun image_code :: "ImageID \<Rightarrow> u32" where
  "image_code IMAGE_ID_AD_HALL_TOP_LEFT = 0"
| "image_code IMAGE_ID_AD_HALL_TOP_RIGHT = 1"
| "image_code IMAGE_ID_AD_HALL_BOTTOM_LEFT = 2"
| "image_code IMAGE_ID_AD_HALL_BOTTOM_RIGHT = 3"
| "image_code IMAGE_ID_AD_BOARD_TOP_LEFT = 4"
| "image_code IMAGE_ID_AD_BOARD_TOP_RIGHT = 5"
| "image_code IMAGE_ID_AD_BOARD_BOTTOM_LEFT = 6"
| "image_code IMAGE_ID_AD_BOARD_BOTTOM_RIGHT = 7"
| "image_code IMAGE_ID_AD_BOARD_MIDDLE = 8"
| "image_code IMAGE_ID_LOGIN_BACKGROUND = 9"
| "image_code IMAGE_ID_MAX = 10"

definition AdImageMap :: "(ImageID \<times> string) list" where
  "AdImageMap =
     [(IMAGE_ID_AD_HALL_BOTTOM_LEFT, IMAGE_PREFIX @ ''Advertisement/GamehallBottomLeftAd/''),
      (IMAGE_ID_AD_HALL_BOTTOM_RIGHT, IMAGE_PREFIX @ ''Advertisement/GamehallBottomRightAd/''),
      (IMAGE_ID_AD_HALL_TOP_LEFT, IMAGE_PREFIX @ ''Advertisement/GamehallTopLeftAd/''),
      (IMAGE_ID_AD_HALL_TOP_RIGHT, IMAGE_PREFIX @ ''Advertisement/GamehallTopRightAd/''),
      (IMAGE_ID_AD_BOARD_BOTTOM_LEFT, IMAGE_PREFIX @ ''Advertisement/ChessBoardBottomLeftAd/''),
      (IMAGE_ID_AD_BOARD_BOTTOM_RIGHT, IMAGE_PREFIX @ ''Advertisement/ChessBoardBottomRightAd/''),
      (IMAGE_ID_AD_BOARD_MIDDLE, IMAGE_PREFIX @ ''Advertisement/ChessBoardMiddleAd/''),
      (IMAGE_ID_AD_BOARD_TOP_LEFT, IMAGE_PREFIX @ ''Advertisement/ChessBoardTopLeftAd/''),
      (IMAGE_ID_AD_BOARD_TOP_RIGHT, IMAGE_PREFIX @ ''Advertisement/ChessBoardTopRightAd/''),
      (IMAGE_ID_LOGIN_BACKGROUND, IMAGE_PREFIX @ ''LogginBackground/'')]"

text \<open>The \<open>fread\<close> loop, a kilobyte at a time.\<close>

function fread_update :: "bytes \<Rightarrow> MD5 \<Rightarrow> MD5 option" where
  "fread_update bs ctx =
     (if bs = [] then Some ctx
      else do {
        let rdSize = length (take 1024 bs);
        ctx \<leftarrow> MD5_update (take 1024 bs) (of_nat rdSize) ctx;
        fread_update (drop 1024 bs) ctx })"
  by pat_completeness auto

termination by (relation "measure (\<lambda>(bs, ctx). length bs)") auto

declare fread_update.simps [simp del]

definition GetImageMd5HashCode :: "env \<Rightarrow> MD5 \<Rightarrow> string \<Rightarrow> string option" where
  "GetImageMd5HashCode E junk path =
     (case file_open E (c_str path) of None \<Rightarrow> Some []
      | Some content \<Rightarrow> do {
          ctx \<leftarrow> fread_update content (MD5_init junk);
          ctx \<leftarrow> MD5_finalize ctx;
          Some (MD5_hexdigest ctx) })"

text \<open>\<open>fgets\<close> reads at most 1023 characters, up to a newline; an empty file gives no line.\<close>

definition newline :: char where "newline = CHR 0x0A"

definition fgets :: "nat \<Rightarrow> bytes \<Rightarrow> string option" where
  "fgets n content =
     (let s = take (n - 1) (map (\<lambda>b. char_of (unat b)) content); l = takeWhile (\<lambda>c. c \<noteq> newline) s in
      if s = [] then None else Some (take (length l + 1) s))"

definition GetImageLinkUrl :: "env \<Rightarrow> string \<Rightarrow> string" where
  "GetImageLinkUrl E path =
     (case file_open E (c_str path) of None \<Rightarrow> []
      | Some content \<Rightarrow> (case fgets 1024 content of None \<Rightarrow> [] | Some buf \<Rightarrow> c_str buf))"

definition UpdateImageInfoToDB :: "env \<Rightarrow> bool \<Rightarrow> AdPicturesInfo \<Rightarrow> string list \<Rightarrow> string list option" where
  "UpdateImageInfoToDB E con ad_info log = do {
     let sql_cmd = snprintf 1023 (
       ''INSERT INTO ad_pictures (id,existed,image_name,image_type,image_hashcode,image_size,link_url,locate_path) '' @
       ''VALUES ('' @ dec_str (image_id ad_info) @ '','' @ (if existed ad_info then ''1'' else ''0'') @ '','' @
       quoted (image_name ad_info) @ '','' @ quoted (image_type ad_info) @ '','' @ quoted (image_hashcode ad_info) @ '','' @
       dec_str (image_size ad_info) @ '','' @ quoted (link_url ad_info) @ '','' @ quoted (locate_path ad_info) @ '')'');
     (ret, log) \<leftarrow> mysql_db_excute E con sql_cmd log;
     Some log }"

text \<open>\<open>image_name.substr(image_name.find_last_of("."))\<close>: without a dot \<open>substr\<close> throws, and nobody catches.\<close>

definition image_extension :: "string \<Rightarrow> string option" where
  "image_extension name =
     (if CHR ''.'' \<in> set name then Some (CHR ''.'' # rev (takeWhile (\<lambda>c. c \<noteq> CHR ''.'') (rev name))) else None)"

record dir_entry =
  d_name :: string
  d_is_dir :: bool
  d_size :: int

definition picture_info :: "env \<Rightarrow> MD5 \<Rightarrow> ImageID \<Rightarrow> string \<Rightarrow> dir_entry \<Rightarrow> AdPicturesInfo option" where
  "picture_info E junk i dir e = do {
     let path = dir @ d_name e;
     hash \<leftarrow> GetImageMd5HashCode E junk path;
     ext \<leftarrow> image_extension (d_name e);
     Some (AdPicturesInfo_Reset\<lparr>image_name := d_name e, locate_path := path, image_id := image_code i,
       image_size := word_of_int (d_size e), link_url := GetImageLinkUrl E (dir @ ''link_url.txt''), existed := True,
       image_hashcode := hash, image_type := CHR ''*'' # ext\<rparr>) }"

text \<open>The loop over the entries of a directory stops at the first picture.\<close>

fun scan_directory :: "env \<Rightarrow> bool \<Rightarrow> MD5 \<Rightarrow> ImageID \<Rightarrow> string \<Rightarrow> dir_entry list \<Rightarrow> string list \<Rightarrow> string list option" where
  "scan_directory E con junk i dir [] log = Some log"
| "scan_directory E con junk i dir (e # es) log =
     (if \<not> d_is_dir e then
        (if d_name e \<noteq> ''link_url.txt'' then do {
           ad_info \<leftarrow> picture_info E junk i dir e;
           UpdateImageInfoToDB E con ad_info log }
         else scan_directory E con junk i dir es log)
      else scan_directory E con junk i dir es log)"

definition AdInit_main :: "env \<Rightarrow> bool \<Rightarrow> bool \<Rightarrow> bool \<Rightarrow> MD5 \<Rightarrow> (string \<Rightarrow> dir_entry list option) \<Rightarrow> string list \<Rightarrow> string list option" where
  "AdInit_main E init_ok options_ok connect_ok junk opendir log = do {
     (_, con, log) \<leftarrow> AdInit_IniSQLConnection E init_ok options_ok connect_ok log;
     for_each (\<lambda>(i, dir) log. case opendir dir of None \<Rightarrow> Some log
                 | Some es \<Rightarrow> scan_directory E con junk i dir es log) AdImageMap log }"

section \<open>The hash of a picture\<close>

lemma fread_absorbed: "absorbed m ctx \<Longrightarrow> \<exists>ctx'. fread_update bs ctx = Some ctx' \<and> absorbed (m @ bs) ctx'"
proof (induction bs ctx arbitrary: m rule: fread_update.induct)
  case (1 bs ctx)
  show ?case
  proof (cases "bs = []")
    case True
    then show ?thesis using 1(2) by (simp add: fread_update.simps)
  next
    case False
    let ?k = "length (take 1024 bs)"
    have k: "unat (of_nat ?k :: u32) = ?k" by (simp add: unat_of_nat)
    have "unat (of_nat ?k :: u32) < 2 ^ 32 - 64" "unat (of_nat ?k :: u32) \<le> length (take 1024 bs)"
      unfolding k by simp_all
    from update_absorbed [OF 1(2) this] obtain c where c: "MD5_update (take 1024 bs) (of_nat ?k) ctx = Some c"
      "absorbed (m @ take ?k (take 1024 bs)) c" unfolding k by blast
    have "m @ take ?k (take 1024 bs) = m @ take 1024 bs" by (simp only: take_all [OF order.refl])
    with c(2) have "absorbed (m @ take 1024 bs) c" by simp
    from 1(1) [OF False refl c(1) this] obtain ctx' where "fread_update (drop 1024 bs) c = Some ctx'"
      "absorbed ((m @ take 1024 bs) @ drop 1024 bs) ctx'" by blast
    then show ?thesis using c(1) False by (subst fread_update.simps) (simp add: Let_def)
  qed
qed

lemma image_hash:
  assumes "length (md5_buffer junk) = 64"
  shows "GetImageMd5HashCode E junk path = Some (case file_open E (c_str path) of None \<Rightarrow> []
    | Some content \<Rightarrow> concat (map hex_byte (md5_of content)))"
proof (cases "file_open E (c_str path)")
  case (Some content)
  obtain c where c: "fread_update content (MD5_init junk) = Some c" "absorbed content c"
    using fread_absorbed [OF absorbed_init [OF assms], of content] by auto
  obtain c' where "MD5_finalize c = Some c'" "md5_finalized c'" "md5_digest c' = md5_of content"
    using finalize_absorbed [OF c(2)] by blast
  then show ?thesis using Some c(1) by (simp add: GetImageMd5HashCode_def MD5_hexdigest_def)
qed (simp add: GetImageMd5HashCode_def)

section \<open>What is stored is read back\<close>

lemma of_char_digit: "k < 10 \<Longrightarrow> (of_char (char_of (48 + k) :: char) :: nat) = 48 + k"
  by simp

lemma is_digit_digit: "k < 10 \<Longrightarrow> is_digit (char_of (48 + k :: nat))"
  by (simp add: is_digit_def)

lemma nat_str_digits: "c \<in> set (nat_str n) \<Longrightarrow> is_digit c"
proof (induction n rule: nat_str.induct)
  case (1 n)
  show ?case
  proof (cases "n < 10")
    case True
    then show ?thesis using 1(2) is_digit_digit [of n] by (simp add: nat_str.simps [of n])
  next
    case False
    then show ?thesis using 1 is_digit_digit [of "n mod 10"] by (auto simp: nat_str.simps [of n])
  qed
qed

lemma digits_val_nat_str: "digits_val (nat_str n) = int n"
proof -
  have whole: "takeWhile is_digit (nat_str k) = nat_str k" for k
    using nat_str_digits by (simp add: takeWhile_eq_all_conv)
  have "foldl (\<lambda>n c. 10 * n + (of_char c - 48)) 0 (nat_str n) = (int n :: int)"
  proof (induction n rule: nat_str.induct)
    case (1 n)
    have v: "(of_char (char_of (48 + k) :: char) :: int) = 48 + int k" if "k < 10" for k :: nat
    proof -
      have "(of_char (char_of (48 + k) :: char) :: int) = int (of_char (char_of (48 + k) :: char))"
        by (simp only: of_nat_of_char)
      then show ?thesis using of_char_digit [OF that] by simp
    qed
    show ?case
    proof (cases "n < 10")
      case True
      then show ?thesis using v [of n] by (simp add: nat_str.simps [of n])
    next
      case False
      then show ?thesis using 1 v [of "n mod 10"] by (simp add: nat_str.simps [of n] del: of_char_of) presburger
    qed
  qed
  then show ?thesis by (simp add: digits_val_def whole)
qed

lemma nat_str_Cons: "\<exists>c cs. nat_str n = c # cs \<and> is_digit c"
proof -
  have "nat_str n \<noteq> []" by (subst nat_str.simps) simp
  then obtain c cs where "nat_str n = c # cs" by (cases "nat_str n") auto
  then show ?thesis using nat_str_digits [of c n] by auto
qed

lemma digit_plain: "is_digit c \<Longrightarrow> \<not> is_space c \<and> c \<noteq> CHR ''-'' \<and> c \<noteq> CHR ''+'' \<and> c \<noteq> CHR 0x00"
  by (auto simp: is_digit_def is_space_def)

text \<open>The number formatted with \<open>%d\<close> is the one \<open>atoi\<close> reads, whatever its sign bit.\<close>

lemma atoi_dec_str: "atoi (dec_str w) = w"
proof -
  obtain c cs where p: "nat_str (nat (sint w)) = c # cs" "is_digit c" using nat_str_Cons by blast
  have neg: "atoi (CHR ''-'' # nat_str k) = word_of_int (- int k)" for k
    by (simp add: atoi_def is_space_def digits_val_nat_str)
  have pos: "atoi (nat_str k) = word_of_int (int k)" for k
    using nat_str_Cons [of k] digits_val_nat_str [of k] by (auto simp: atoi_def dest: digit_plain)
  show ?thesis
  proof (cases "sint w < 0")
    case True
    then show ?thesis by (simp add: dec_str_def neg)
  next
    case False
    then show ?thesis by (simp add: dec_str_def pos)
  qed
qed

lemma c_str_idem [simp]: "c_str (c_str s) = c_str s"
  by (simp add: c_str_def)

lemma c_str_digits: "\<forall>c \<in> set s. c \<noteq> CHR 0x00 \<Longrightarrow> c_str s = s"
  by (simp add: c_str_def takeWhile_eq_all_conv)

lemma c_str_dec_str [simp]: "c_str (dec_str w) = dec_str w"
proof (rule c_str_digits, rule ballI)
  fix c assume "c \<in> set (dec_str w)"
  then have "c = CHR ''-'' \<or> is_digit c" using nat_str_digits by (auto simp: dec_str_def split: if_splits)
  then show "c \<noteq> CHR 0x00" using digit_plain by auto
qed

text \<open>The row a database that stores the values of the command gives back.\<close>

definition stored_row :: "AdPicturesInfo \<Rightarrow> row" where
  "stored_row info = map Some [dec_str (image_id info), if existed info then ''1'' else ''0'', c_str (image_name info),
     c_str (image_type info), c_str (image_hashcode info), dec_str (image_size info), c_str (link_url info), c_str (locate_path info)]"

definition plain_info :: "AdPicturesInfo \<Rightarrow> bool" where
  "plain_info info \<longleftrightarrow> (\<forall>s \<in> {image_name info, image_type info, image_hashcode info, link_url info, locate_path info}. c_str s = s)"

lemma atoi_flag: "atoi ''1'' = 1" "atoi ''0'' = 0"
  by (simp_all add: atoi_def is_space_def digits_val_def is_digit_def)

lemma c_str_flag: "c_str ''1'' = ''1''" "c_str ''0'' = ''0''"
  by (simp_all add: c_str_def)

lemma ad_row_stored:
  assumes "plain_info info"
  shows "ad_row (stored_row info) info0 = Some info"
proof -
  have p: "c_str (image_name info) = image_name info" "c_str (image_type info) = image_type info"
    "c_str (image_hashcode info) = image_hashcode info" "c_str (link_url info) = link_url info"
    "c_str (locate_path info) = locate_path info"
    using assms by (simp_all add: plain_info_def)
  show ?thesis
    unfolding ad_row_def stored_row_def cell_req_def cell_opt_def
    by (cases "existed info") (simp_all add: cell_def getd_def p atoi_dec_str atoi_flag c_str_flag)
qed

text \<open>The command writes the cells of that row, the numbers bare and the texts quoted.\<close>

fun insert_values :: "bool list \<Rightarrow> row \<Rightarrow> string" where
  "insert_values [q] [c] = (if q then quoted (getd [] c) else getd [] c)"
| "insert_values (q # qs) (c # cs) = (if q then quoted (getd [] c) else getd [] c) @ '','' @ insert_values qs cs"
| "insert_values _ _ = []"

definition insert_of :: "row \<Rightarrow> string" where
  "insert_of r = ''INSERT INTO ad_pictures (id,existed,image_name,image_type,image_hashcode,image_size,link_url,locate_path) '' @
     ''VALUES ('' @ insert_values [False, False, True, True, True, False, True, True] r @ '')''"

lemma insert_sent:
  "UpdateImageInfoToDB E con info log =
     map_option snd (mysql_db_excute E con (snprintf 1023 (insert_of (stored_row info))) log)"
  by (cases "mysql_db_excute E con (snprintf 1023 (insert_of (stored_row info))) log")
    (auto simp: UpdateImageInfoToDB_def insert_of_def stored_row_def getd_def quoted_def)

text \<open>Everything the program puts into the record is a C string.\<close>

lemma c_str_append: "c_str s = s \<Longrightarrow> c_str t = t \<Longrightarrow> c_str (s @ t) = s @ t"
  by (simp add: c_str_def takeWhile_eq_all_conv)

lemma c_str_concat: "\<forall>s \<in> set ss. c_str s = s \<Longrightarrow> c_str (concat ss) = concat ss"
  by (simp add: c_str_def takeWhile_eq_all_conv)

lemma c_str_subset: "c_str s = s \<Longrightarrow> set t \<subseteq> set s \<Longrightarrow> c_str t = t"
  by (simp add: c_str_def takeWhile_eq_all_conv) blast

lemma hex_plain: "c_str (hex_byte b) = hex_byte b"
proof -
  have d: "hex_digit n \<noteq> CHR 0x00" if "n < 16" for n
  proof
    assume "hex_digit n = CHR 0x00"
    then have "(of_char (hex_digit n) :: nat) = of_char (CHR 0x00)" by (rule arg_cong)
    then show False using that by (simp add: hex_digit_def split: if_splits)
  qed
  have "unat b < 256" using unsigned_less [of b, where ?'a = nat] by simp
  then show ?thesis using d by (simp add: c_str_def hex_byte_def)
qed

lemma link_plain: "c_str (GetImageLinkUrl E path) = GetImageLinkUrl E path"
  by (simp add: GetImageLinkUrl_def split: option.splits) (simp add: c_str_def)

lemma extension_plain:
  assumes "c_str name = name" "image_extension name = Some ext"
  shows "c_str ext = ext"
proof (rule c_str_subset [OF assms(1)])
  have "set (takeWhile P cs) \<subseteq> set cs" for P and cs :: string by (auto dest: set_takeWhileD)
  from this [of "\<lambda>c. c \<noteq> CHR ''.''" "rev name"] show "set ext \<subseteq> set name"
    using assms(2) by (auto simp: image_extension_def split: if_splits)
qed

lemma picture_plain:
  assumes p: "picture_info E junk i dir e = Some info" and j: "length (md5_buffer junk) = 64"
    and c: "c_str dir = dir" "c_str (d_name e) = d_name e"
  shows "plain_info info \<and> image_hashcode info = (case file_open E (dir @ d_name e) of None \<Rightarrow> []
      | Some content \<Rightarrow> concat (map hex_byte (md5_of content)))"
proof -
  have path: "c_str (dir @ d_name e) = dir @ d_name e" by (rule c_str_append [OF c])
  obtain hash ext where h: "GetImageMd5HashCode E junk (dir @ d_name e) = Some hash" "image_extension (d_name e) = Some ext"
    and info: "info = AdPicturesInfo_Reset\<lparr>image_name := d_name e, locate_path := dir @ d_name e, image_id := image_code i,
       image_size := word_of_int (d_size e), link_url := GetImageLinkUrl E (dir @ ''link_url.txt''), existed := True,
       image_hashcode := hash, image_type := CHR ''*'' # ext\<rparr>"
    using p by (auto simp: picture_info_def Let_def elim!: bind_SomeE)
  have hash: "hash = (case file_open E (dir @ d_name e) of None \<Rightarrow> [] | Some content \<Rightarrow> concat (map hex_byte (md5_of content)))"
    using h(1) image_hash [OF j, of E "dir @ d_name e"] path by simp
  have "c_str hash = hash"
    unfolding hash by (auto simp: hex_plain c_str_digits split: option.split intro!: c_str_concat)
  moreover have "c_str (CHR ''*'' # ext) = CHR ''*'' # ext"
    using c_str_append [of "''*''" ext] extension_plain [OF c(2) h(2)] by (simp add: c_str_def)
  ultimately show ?thesis using c path link_plain by (simp add: info plain_info_def hash)
qed

end
