(* ===== verification/Thread_Start.thy ===== *)
theory Thread_Start
  imports Main
begin

text \<open>
  The class \<open>Thread\<close> of thread.cpp: \<open>start\<close> creates the thread and waits on a condition variable
  until \<open>thread_proxy_func\<close> says that it runs. The two sides are a step relation over the mutex and
  the condition variable, with spurious wake-ups; \<open>join\<close>, \<open>detach\<close> and the observers are functions of
  the object.
\<close>

section \<open>The object\<close>

definition THREAD_STATUS_NEW :: int where "THREAD_STATUS_NEW = 0"
definition THREAD_STATUS_RUNNING :: int where "THREAD_STATUS_RUNNING = 1"

text \<open>\<open>-1\<close> as an \<open>unsigned char\<close>.\<close>

definition THREAD_STATUS_EXIT :: int where "THREAD_STATUS_EXIT = 255"

record thread_obj =
  tid :: nat
  threadStatus :: int
  beInitialed :: bool
  joinable_flag :: bool

definition Thread_new :: thread_obj where
  "Thread_new = \<lparr>tid = 0, threadStatus = THREAD_STATUS_NEW, beInitialed = False, joinable_flag = True\<rparr>"

definition getThreadID :: "thread_obj \<Rightarrow> nat" where "getThreadID th = tid th"
definition getState :: "thread_obj \<Rightarrow> int" where "getState th = threadStatus th"

text \<open>Whether \<open>pthread_join\<close> is called.\<close>

definition Thread_join :: "thread_obj \<Rightarrow> bool" where
  "Thread_join th \<longleftrightarrow> tid th > 0 \<and> joinable_flag th"

text \<open>The timed variant polls; \<open>seen\<close> lists the status at each poll. The result is the number of naps,
  \<open>None\<close> that the list is used up.\<close>

fun poll_status :: "int list \<Rightarrow> nat \<Rightarrow> nat \<Rightarrow> nat option" where
  "poll_status [] k millisTime = None"
| "poll_status (s # seen) k millisTime =
     (if s \<noteq> THREAD_STATUS_EXIT \<and> k \<le> millisTime then poll_status seen (k + 1) millisTime else Some k)"

definition Thread_join_millis :: "int list \<Rightarrow> nat \<Rightarrow> thread_obj \<Rightarrow> (bool \<times> nat) option" where
  "Thread_join_millis seen millisTime th =
     (if tid th = 0 then Some (False, 0)
      else if millisTime = 0 then Some (Thread_join th, 0)
      else map_option (\<lambda>k. (False, k)) (poll_status seen 0 millisTime))"

definition Thread_detach :: "bool \<Rightarrow> thread_obj \<Rightarrow> bool \<times> thread_obj" where
  "Thread_detach ok th = (if ok then (True, th\<lparr>joinable_flag := False\<rparr>) else (False, th))"

lemma poll_bound: "poll_status seen k m = Some n \<Longrightarrow> k \<le> m + 1 \<Longrightarrow> n \<le> m + 1"
  by (induction seen k m rule: poll_status.induct) (auto split: if_splits)

section \<open>Starting\<close>

datatype creator_pc = Creating | Locking | Checking | Waiting | Unlocking | Returned bool
datatype proxy_pc = Absent | P_begin | P_locking | P_setting | P_signalling | P_unlocking | P_running | P_exited
datatype holder = Nobody | Creator | Proxy

record starting =
  c_pc :: creator_pc
  p_pc :: proxy_pc
  init_lock :: holder
  c_woken :: bool
  was_created :: bool
  self_id :: nat
  th_obj :: thread_obj

definition start_init :: starting where
  "start_init = \<lparr>c_pc = Creating, p_pc = Absent, init_lock = Nobody, c_woken = False, was_created = False, self_id = 0, th_obj = Thread_new\<rparr>"

text \<open>\<open>new\<close> is the id of the new thread, which \<open>pthread_self\<close> gives it (\<open>self_id\<close>). The proxy's writes of
  \<open>threadStatus\<close> and \<open>tid\<close> are one step, as nothing reads them in between here. A failing \<open>pthread_create\<close> is only looked at after the wait.\<close>

inductive start_step :: "starting \<Rightarrow> starting \<Rightarrow> bool" where
  create_ok: "c_pc s = Creating \<Longrightarrow> new > 0 \<Longrightarrow>
    start_step s (s\<lparr>c_pc := Locking, p_pc := P_begin, was_created := True, self_id := new, th_obj := (th_obj s)\<lparr>tid := new\<rparr>\<rparr>)"
| create_fails: "c_pc s = Creating \<Longrightarrow> start_step s (s\<lparr>c_pc := Locking, was_created := False\<rparr>)"
| c_lock: "c_pc s = Locking \<Longrightarrow> init_lock s = Nobody \<Longrightarrow> start_step s (s\<lparr>c_pc := Checking, init_lock := Creator\<rparr>)"
| c_done: "c_pc s = Checking \<Longrightarrow> beInitialed (th_obj s) \<Longrightarrow> start_step s (s\<lparr>c_pc := Unlocking\<rparr>)"
| c_wait: "c_pc s = Checking \<Longrightarrow> \<not> beInitialed (th_obj s) \<Longrightarrow>
    start_step s (s\<lparr>c_pc := Waiting, init_lock := Nobody, c_woken := False\<rparr>)"
| c_wake: "c_pc s = Waiting \<Longrightarrow> c_woken s \<Longrightarrow> init_lock s = Nobody \<Longrightarrow>
    start_step s (s\<lparr>c_pc := Checking, init_lock := Creator\<rparr>)"
| c_spurious: "c_pc s = Waiting \<Longrightarrow> init_lock s = Nobody \<Longrightarrow> start_step s (s\<lparr>c_pc := Checking, init_lock := Creator\<rparr>)"
| c_unlock: "c_pc s = Unlocking \<Longrightarrow> start_step s (s\<lparr>c_pc := Returned (was_created s), init_lock := Nobody\<rparr>)"
| p_begin: "p_pc s = P_begin \<Longrightarrow>
    start_step s (s\<lparr>p_pc := P_locking, th_obj := (th_obj s)\<lparr>threadStatus := THREAD_STATUS_RUNNING, tid := self_id s\<rparr>\<rparr>)"
| p_lock: "p_pc s = P_locking \<Longrightarrow> init_lock s = Nobody \<Longrightarrow> start_step s (s\<lparr>p_pc := P_setting, init_lock := Proxy\<rparr>)"
| p_set: "p_pc s = P_setting \<Longrightarrow> start_step s (s\<lparr>p_pc := P_signalling, th_obj := (th_obj s)\<lparr>beInitialed := True\<rparr>\<rparr>)"
| p_signal: "p_pc s = P_signalling \<Longrightarrow> start_step s (s\<lparr>p_pc := P_unlocking, c_woken := (c_woken s \<or> c_pc s = Waiting)\<rparr>)"
| p_unlock: "p_pc s = P_unlocking \<Longrightarrow> start_step s (s\<lparr>p_pc := P_running, init_lock := Nobody\<rparr>)"
| p_exit: "p_pc s = P_running \<Longrightarrow>
    start_step s (s\<lparr>p_pc := P_exited, th_obj := (th_obj s)\<lparr>threadStatus := THREAD_STATUS_EXIT, tid := 0\<rparr>\<rparr>)"

inductive start_reach :: "starting \<Rightarrow> bool" where
  init: "start_reach start_init"
| step: "start_reach s \<Longrightarrow> start_step s s' \<Longrightarrow> start_reach s'"

definition after_set :: "proxy_pc \<Rightarrow> bool" where
  "after_set p \<longleftrightarrow> p \<in> {P_signalling, P_unlocking, P_running, P_exited}"

definition start_ok :: "starting \<Rightarrow> bool" where
  "start_ok s \<longleftrightarrow>
     (init_lock s = Creator \<longleftrightarrow> c_pc s = Checking \<or> c_pc s = Unlocking) \<and>
     (init_lock s = Proxy \<longleftrightarrow> p_pc s = P_setting \<or> p_pc s = P_signalling \<or> p_pc s = P_unlocking) \<and>
     (beInitialed (th_obj s) \<longleftrightarrow> after_set (p_pc s)) \<and>
     (c_pc s = Unlocking \<or> (\<exists>r. c_pc s = Returned r) \<longrightarrow> beInitialed (th_obj s)) \<and>
     (c_pc s = Waiting \<and> (p_pc s = P_unlocking \<or> p_pc s = P_running \<or> p_pc s = P_exited) \<longrightarrow> c_woken s) \<and>
     (was_created s \<longleftrightarrow> p_pc s \<noteq> Absent) \<and> (\<forall>r. c_pc s = Returned r \<longrightarrow> r = was_created s) \<and>
     (c_pc s = Creating \<longrightarrow> p_pc s = Absent) \<and> (c_woken s \<longrightarrow> beInitialed (th_obj s))"

lemma start_okD:
  assumes "start_ok s"
  shows "beInitialed (th_obj s) = after_set (p_pc s)" "c_woken s \<Longrightarrow> beInitialed (th_obj s)"
    "was_created s \<longleftrightarrow> p_pc s \<noteq> Absent" "c_pc s = Returned r \<Longrightarrow> beInitialed (th_obj s) \<and> r = was_created s"
  using assms unfolding start_ok_def by blast+

lemma start_ok_init: "start_ok start_init"
  by (simp add: start_ok_def start_init_def after_set_def Thread_new_def)

lemma start_ok_step: "start_step s s' \<Longrightarrow> start_ok s \<Longrightarrow> start_ok s'"
  by (induction rule: start_step.induct) (auto simp: start_ok_def after_set_def)

lemma start_reach_ok: "start_reach s \<Longrightarrow> start_ok s"
  by (induction rule: start_reach.induct) (auto intro: start_ok_init start_ok_step)

text \<open>A step that brings the start nearer to its end, counted with this measure.\<close>

definition c_left :: "starting \<Rightarrow> nat" where
  "c_left s = (case c_pc s of Creating \<Rightarrow> 20 | Locking \<Rightarrow> 9 | Checking \<Rightarrow> if beInitialed (th_obj s) then 3 else 8
     | Waiting \<Rightarrow> 7 | Unlocking \<Rightarrow> 2 | Returned _ \<Rightarrow> 0)"

definition p_left :: "proxy_pc \<Rightarrow> nat" where
  "p_left p = (case p of Absent \<Rightarrow> 0 | P_begin \<Rightarrow> 6 | P_locking \<Rightarrow> 5 | P_setting \<Rightarrow> 4 | P_signalling \<Rightarrow> 3 | P_unlocking \<Rightarrow> 2
     | P_running \<Rightarrow> 1 | P_exited \<Rightarrow> 0)"

definition steps_left :: "starting \<Rightarrow> nat" where
  "steps_left s = c_left s + p_left (p_pc s)"

text \<open>The proxy's next step, while the creator waits or is about to lock.\<close>

lemma proxy_progress:
  assumes ok: "start_ok s" and c: "c_pc s = Locking \<or> c_pc s = Waiting" and cre: "was_created s"
    and p: "p_pc s \<noteq> P_running" "p_pc s \<noteq> P_exited" "p_pc s = P_locking \<Longrightarrow> init_lock s = Nobody"
  shows "\<exists>s'. start_step s s' \<and> steps_left s' < steps_left s \<and> was_created s'"
proof (cases "p_pc s")
  case Absent
  then show ?thesis using ok cre by (simp add: start_ok_def)
next
  case P_begin
  show ?thesis by (rule exI, intro conjI, rule p_begin [OF P_begin])
      (use c cre P_begin in \<open>auto simp: steps_left_def c_left_def p_left_def\<close>)
next
  case P_locking
  show ?thesis by (rule exI, intro conjI, rule p_lock [OF P_locking p(3) [OF P_locking]])
      (use c cre P_locking in \<open>auto simp: steps_left_def c_left_def p_left_def\<close>)
next
  case P_setting
  show ?thesis by (rule exI, intro conjI, rule p_set [OF P_setting])
      (use c cre P_setting in \<open>auto simp: steps_left_def c_left_def p_left_def\<close>)
next
  case P_signalling
  show ?thesis by (rule exI, intro conjI, rule p_signal [OF P_signalling])
      (use c cre P_signalling in \<open>auto simp: steps_left_def c_left_def p_left_def\<close>)
next
  case P_unlocking
  show ?thesis by (rule exI, intro conjI, rule p_unlock [OF P_unlocking])
      (use c cre P_unlocking in \<open>auto simp: steps_left_def c_left_def p_left_def\<close>)
qed (use p in simp_all)

lemma start_progress:
  assumes ok: "start_ok s" and more: "\<forall>r. c_pc s \<noteq> Returned r" and cr: "was_created s \<or> c_pc s = Creating"
  shows "\<exists>s'. start_step s s' \<and> steps_left s' < steps_left s \<and> was_created s'"
proof (cases "c_pc s")
  case Creating
  then have absent: "p_pc s = Absent" using ok by (simp add: start_ok_def)
  show ?thesis by (rule exI, intro conjI, rule create_ok [OF Creating, of 1])
      (use Creating absent in \<open>simp_all add: steps_left_def c_left_def p_left_def\<close>)
next
  case Locking
  show ?thesis
  proof (cases "init_lock s = Nobody")
    case True
    then show ?thesis using Locking c_lock [of s] cr by (force simp: steps_left_def c_left_def)
  next
    case False
    then have "init_lock s = Proxy" using ok Locking by (cases "init_lock s") (auto simp: start_ok_def)
    then have "p_pc s = P_setting \<or> p_pc s = P_signalling \<or> p_pc s = P_unlocking" using ok by (simp add: start_ok_def)
    then show ?thesis using Locking cr by (intro proxy_progress [OF ok]) auto
  qed
next
  case Checking
  then show ?thesis using c_done [of s] c_wait [of s] cr
    by (cases "beInitialed (th_obj s)") (force simp: steps_left_def c_left_def)+
next
  case Waiting
  show ?thesis
  proof (cases "c_woken s \<and> init_lock s = Nobody")
    case True
    then have "beInitialed (th_obj s)" using start_okD(2) [OF ok] by blast
    then show ?thesis using Waiting True c_wake [of s] cr by (force simp: steps_left_def c_left_def)
  next
    case False
    have not_creator: "init_lock s \<noteq> Creator" using ok Waiting by (simp add: start_ok_def)
    have "p_pc s = P_setting \<or> p_pc s = P_signalling \<or> p_pc s = P_unlocking" if "init_lock s \<noteq> Nobody"
      using that ok not_creator by (cases "init_lock s") (auto simp: start_ok_def)
    moreover have "c_woken s \<and> init_lock s = Nobody" if "p_pc s = P_running \<or> p_pc s = P_exited"
      using that ok Waiting not_creator by (cases "init_lock s") (auto simp: start_ok_def)
    ultimately show ?thesis using False Waiting cr by (intro proxy_progress [OF ok]) auto
  qed
next
  case Unlocking
  then show ?thesis using c_unlock [of s] cr by (force simp: steps_left_def c_left_def)
next
  case (Returned r)
  then show ?thesis using more by simp
qed

lemma start_returns:
  "start_ok s \<Longrightarrow> was_created s \<or> c_pc s = Creating \<Longrightarrow> \<exists>s'. start_step\<^sup>*\<^sup>* s s' \<and> c_pc s' = Returned True"
proof (induction "steps_left s" arbitrary: s rule: less_induct)
  case less
  show ?case
  proof (cases "\<exists>r. c_pc s = Returned r")
    case True
    then obtain r where r: "c_pc s = Returned r" by blast
    then have "r = was_created s" "was_created s" using less.prems by (auto simp: start_ok_def)
    then show ?thesis using r by auto
  next
    case False
    then obtain s1 where s1: "start_step s s1" "steps_left s1 < steps_left s" "was_created s1"
      using start_progress [OF less.prems(1) _ less.prems(2)] by blast
    have "start_ok s1" by (rule start_ok_step [OF s1(1) less.prems(1)])
    then obtain s2 where "start_step\<^sup>*\<^sup>* s1 s2" "c_pc s2 = Returned True" using less.hyps [OF s1(2)] s1(3) by blast
    then show ?thesis using s1(1) by (meson converse_rtranclp_into_rtranclp)
  qed
qed

lemma started:
  assumes "start_reach s"
  shows "(\<forall>r. c_pc s = Returned r \<longrightarrow> r \<and> beInitialed (th_obj s)) \<and>
    ((\<exists>s'. start_step\<^sup>*\<^sup>* s s' \<and> (\<exists>r. c_pc s' = Returned r)) \<longleftrightarrow> was_created s \<or> c_pc s = Creating)"
proof -
  have ok: "start_ok s" by (rule start_reach_ok [OF assms])
  have stuck: "\<not> was_created s' \<and> c_pc s' \<noteq> Creating" if "start_step\<^sup>*\<^sup>* s s'" "\<not> was_created s" "c_pc s \<noteq> Creating" for s'
    using that
  proof (induction rule: rtranclp_induct)
    case (step y z)
    then have "\<not> was_created y" "c_pc y \<noteq> Creating" by auto
    with step(2) show ?case by (induction rule: start_step.induct) auto
  qed simp
  have ret: "\<forall>r. c_pc s' = Returned r \<longrightarrow> r \<and> beInitialed (th_obj s') \<and> was_created s'" if "start_ok s'" for s'
  proof (intro allI impI)
    fix r assume r: "c_pc s' = Returned r"
    have set: "beInitialed (th_obj s')" "r = was_created s'" using start_okD(4) [OF that r] by simp_all
    then have "after_set (p_pc s')" using start_okD(1) [OF that] by simp
    then have "p_pc s' \<noteq> Absent" by (auto simp: after_set_def)
    then have "was_created s'" using start_okD(3) [OF that] by simp
    with set show "r \<and> beInitialed (th_obj s') \<and> was_created s'" by simp
  qed
  have kept: "start_ok s'" if "start_step\<^sup>*\<^sup>* s s'" for s'
    using that by (induction rule: rtranclp_induct) (auto intro: ok start_ok_step)
  have "was_created s \<or> c_pc s = Creating" if "start_step\<^sup>*\<^sup>* s s'" "c_pc s' = Returned r" for s' r
  proof (rule ccontr)
    assume "\<not> ?thesis"
    then have "\<not> was_created s'" using stuck [OF that(1)] by simp
    then show False using ret [OF kept [OF that(1)]] that(2) by blast
  qed
  then show ?thesis using ret [OF ok] start_returns [OF ok] by blast
qed

end
