(* ===== verification/Timer_Start.thy ===== *)
theory Timer_Start
  imports Timer Unix_Socket
begin

text \<open>
  The start of the timer library: \<open>timer_init\<close> opens the log, creates the server thread and waits on
  a condition variable until \<open>timer_server_task\<close> has opened its socket and says that it serves. A
  step relation over the mutex and the condition variable, with spurious wake-ups; the server's loop
  after the start is \<open>timer_server_turn\<close> of Timer. A server that cannot open its socket says nothing.
\<close>

section \<open>The two sides\<close>

datatype init_pc = I_open | I_create | I_lock | I_check | I_wait | I_unlock | I_returned int
datatype server_pc = V_none | V_open | V_lock | V_set | V_signal | V_unlock | V_serve | V_gone
datatype owner = Free | Init | Server

record timer_start =
  i_pc :: init_pc
  v_pc :: server_pc
  t_mutex :: owner
  i_woken :: bool
  t_ready :: bool
  std_err_open :: bool
  v_socket :: int
  v_closed :: "int list"

definition before_init :: timer_start where
  "before_init = \<lparr>i_pc = I_open, v_pc = V_none, t_mutex = Free, i_woken = False, t_ready = False,
     std_err_open = False, v_socket = 0, v_closed = []\<rparr>"

definition open_server :: "open_result \<Rightarrow> timer_start \<Rightarrow> timer_start" where
  "open_server r s =
     (if open_ret r \<noteq> 0
      then s\<lparr>v_pc := V_gone, v_socket := open_fd r, v_closed := open_closed r @ fst (unix_domain_socket_clean (open_fd r))\<rparr>
      else s\<lparr>v_pc := V_lock, v_socket := open_fd r, v_closed := open_closed r\<rparr>)"

text \<open>\<open>std_err\<close> is the log; nothing but \<open>timer_init\<close> and the server use \<open>timeout_mutex\<close> before the
  start is over, as there is no timer yet.\<close>

inductive init_step :: "timer_start \<Rightarrow> timer_start \<Rightarrow> bool" where
  log_opened: "i_pc s = I_open \<Longrightarrow> init_step s (s\<lparr>i_pc := I_create, std_err_open := True\<rparr>)"
| log_missing: "i_pc s = I_open \<Longrightarrow> init_step s (s\<lparr>i_pc := I_returned (-1)\<rparr>)"
| server_created: "i_pc s = I_create \<Longrightarrow> init_step s (s\<lparr>i_pc := I_lock, v_pc := V_open\<rparr>)"
| server_missing: "i_pc s = I_create \<Longrightarrow> init_step s (s\<lparr>i_pc := I_returned (-1)\<rparr>)"
| i_lock: "i_pc s = I_lock \<Longrightarrow> t_mutex s = Free \<Longrightarrow> init_step s (s\<lparr>i_pc := I_check, t_mutex := Init\<rparr>)"
| i_done: "i_pc s = I_check \<Longrightarrow> t_ready s \<Longrightarrow> init_step s (s\<lparr>i_pc := I_unlock\<rparr>)"
| i_wait: "i_pc s = I_check \<Longrightarrow> \<not> t_ready s \<Longrightarrow> init_step s (s\<lparr>i_pc := I_wait, t_mutex := Free, i_woken := False\<rparr>)"
| i_wake: "i_pc s = I_wait \<Longrightarrow> i_woken s \<Longrightarrow> t_mutex s = Free \<Longrightarrow> init_step s (s\<lparr>i_pc := I_check, t_mutex := Init\<rparr>)"
| i_spurious: "i_pc s = I_wait \<Longrightarrow> t_mutex s = Free \<Longrightarrow> init_step s (s\<lparr>i_pc := I_check, t_mutex := Init\<rparr>)"
| i_unlock: "i_pc s = I_unlock \<Longrightarrow> init_step s (s\<lparr>i_pc := I_returned 0, t_mutex := Free\<rparr>)"
| v_open: "v_pc s = V_open \<Longrightarrow> init_step s (open_server (unix_domain_socket_init fd bind_rc chmod_rc listen_rc) s)"
| v_lock: "v_pc s = V_lock \<Longrightarrow> t_mutex s = Free \<Longrightarrow> init_step s (s\<lparr>v_pc := V_set, t_mutex := Server\<rparr>)"
| v_set: "v_pc s = V_set \<Longrightarrow> init_step s (s\<lparr>v_pc := V_signal, t_ready := True\<rparr>)"
| v_signal: "v_pc s = V_signal \<Longrightarrow> init_step s (s\<lparr>v_pc := V_unlock, i_woken := (i_woken s \<or> i_pc s = I_wait)\<rparr>)"
| v_unlock: "v_pc s = V_unlock \<Longrightarrow> init_step s (s\<lparr>v_pc := V_serve, t_mutex := Free\<rparr>)"

inductive init_reach :: "timer_start \<Rightarrow> bool" where
  init: "init_reach before_init"
| step: "init_reach s \<Longrightarrow> init_step s s' \<Longrightarrow> init_reach s'"

section \<open>The invariant\<close>

definition init_ok :: "timer_start \<Rightarrow> bool" where
  "init_ok s \<longleftrightarrow>
     (t_mutex s = Init \<longleftrightarrow> i_pc s = I_check \<or> i_pc s = I_unlock) \<and>
     (t_mutex s = Server \<longleftrightarrow> v_pc s = V_set \<or> v_pc s = V_signal \<or> v_pc s = V_unlock) \<and>
     (t_ready s \<longleftrightarrow> v_pc s = V_signal \<or> v_pc s = V_unlock \<or> v_pc s = V_serve) \<and>
     (i_pc s = I_unlock \<or> i_pc s = I_returned 0 \<longrightarrow> v_pc s = V_serve) \<and>
     (i_pc s = I_wait \<and> (v_pc s = V_unlock \<or> v_pc s = V_serve) \<longrightarrow> i_woken s) \<and>
     (i_woken s \<longrightarrow> t_ready s) \<and>
     (v_pc s = V_none \<longleftrightarrow> i_pc s = I_open \<or> i_pc s = I_create \<or> i_pc s = I_returned (-1)) \<and>
     (\<forall>r. i_pc s = I_returned r \<longrightarrow> r = 0 \<or> r = -1) \<and>
     (i_pc s \<noteq> I_open \<and> i_pc s \<noteq> I_returned (-1) \<longrightarrow> std_err_open s) \<and>
     (v_pc s = V_lock \<or> v_pc s = V_serve \<or> t_mutex s = Server \<longrightarrow> v_closed s = []) \<and>
     (v_pc s = V_gone \<longrightarrow> v_socket s = 0)"

lemma init_ok_start: "init_ok before_init"
  by (simp add: init_ok_def before_init_def)

lemma opened_ok: "init_ok s \<Longrightarrow> v_pc s = V_open \<Longrightarrow> init_ok (open_server (unix_domain_socket_init fd b c l) s)"
  by (auto simp: init_ok_def open_server_def unix_domain_socket_init_def)

lemma init_ok_step: "init_step s s' \<Longrightarrow> init_ok s \<Longrightarrow> init_ok s'"
proof (induction rule: init_step.induct)
  case (v_open s fd b c l)
  then show ?case by (simp add: opened_ok)
qed (auto simp: init_ok_def)

lemma init_reach_ok: "init_reach s \<Longrightarrow> init_ok s"
  by (induction rule: init_reach.induct) (auto intro: init_ok_start init_ok_step)

section \<open>Returning\<close>

text \<open>A step that brings the start nearer to its end, counted with this measure.\<close>

definition init_left :: "timer_start \<Rightarrow> nat" where
  "init_left s =
     (case i_pc s of I_open \<Rightarrow> 21 | I_create \<Rightarrow> 20 | I_lock \<Rightarrow> 9 | I_check \<Rightarrow> if t_ready s then 3 else 8
      | I_wait \<Rightarrow> 7 | I_unlock \<Rightarrow> 2 | I_returned _ \<Rightarrow> 0) +
     (case v_pc s of V_none \<Rightarrow> 0 | V_open \<Rightarrow> 6 | V_lock \<Rightarrow> 5 | V_set \<Rightarrow> 4 | V_signal \<Rightarrow> 3 | V_unlock \<Rightarrow> 2
      | V_serve \<Rightarrow> 1 | V_gone \<Rightarrow> 0)"

definition nearer :: "timer_start \<Rightarrow> timer_start \<Rightarrow> bool" where
  "nearer s s' \<longleftrightarrow> init_step s s' \<and> init_left s' < init_left s \<and> v_pc s' \<noteq> V_gone"

lemma nearerI: "init_step s s' \<Longrightarrow> init_left s' < init_left s \<Longrightarrow> v_pc s' \<noteq> V_gone \<Longrightarrow> \<exists>s'. nearer s s'"
  unfolding nearer_def by blast

lemma server_nearer:
  assumes "v_pc s \<in> {V_open, V_lock, V_set, V_signal, V_unlock}" "v_pc s = V_lock \<Longrightarrow> t_mutex s = Free" "i_pc s \<noteq> I_check"
  shows "\<exists>s'. nearer s s'"
proof -
  consider "v_pc s = V_open" | "v_pc s = V_lock" "t_mutex s = Free" | "v_pc s = V_set" | "v_pc s = V_signal" | "v_pc s = V_unlock"
    using assms by blast
  then show ?thesis
  proof cases
    case 1
    have "init_step s (s\<lparr>v_pc := V_lock, v_socket := 3, v_closed := []\<rparr>)"
      using v_open [OF 1, of 3 0 0 0] by (simp add: open_server_def unix_domain_socket_init_def)
    then show ?thesis by (rule nearerI) (use 1 assms(3) in \<open>cases "i_pc s"; simp add: init_left_def\<close>)+
  next
    case 2
    show ?thesis by (rule nearerI [OF v_lock [OF 2]]) (use 2 assms(3) in \<open>cases "i_pc s"; simp add: init_left_def\<close>)+
  next
    case 3
    show ?thesis by (rule nearerI [OF v_set [OF 3]]) (use 3 assms(3) in \<open>cases "i_pc s"; simp add: init_left_def\<close>)+
  next
    case 4
    show ?thesis by (rule nearerI [OF v_signal [OF 4]]) (use 4 assms(3) in \<open>cases "i_pc s"; simp add: init_left_def\<close>)+
  next
    case 5
    show ?thesis by (rule nearerI [OF v_unlock [OF 5]]) (use 5 assms(3) in \<open>cases "i_pc s"; simp add: init_left_def\<close>)+
  qed
qed

lemma init_nearer:
  assumes ok: "init_ok s" and more: "\<forall>r. i_pc s \<noteq> I_returned r" and alive: "v_pc s \<noteq> V_gone"
  shows "\<exists>s'. nearer s s'"
proof -
  have busy: "v_pc s \<in> {V_set, V_signal, V_unlock}" if "t_mutex s \<noteq> Free" "i_pc s \<noteq> I_check" "i_pc s \<noteq> I_unlock"
    using ok that by (cases "t_mutex s") (auto simp: init_ok_def)
  show ?thesis
  proof (cases "i_pc s")
    case I_open
    show ?thesis by (rule nearerI [OF log_opened [OF I_open]]) (use I_open alive in \<open>simp_all add: init_left_def\<close>)
  next
    case I_create
    then have "v_pc s = V_none" using ok by (simp add: init_ok_def)
    then show ?thesis using I_create
      by (intro nearerI [OF server_created [OF I_create]]) (simp_all add: init_left_def)
  next
    case I_lock
    show ?thesis
    proof (cases "t_mutex s = Free")
      case True
      then show ?thesis using I_lock alive
        by (intro nearerI [OF i_lock [OF I_lock True]]) (simp_all add: init_left_def)
    next
      case False
      then show ?thesis using busy I_lock by (intro server_nearer) auto
    qed
  next
    case I_check
    then show ?thesis
      using i_done [OF I_check] i_wait [OF I_check] alive
      by (cases "t_ready s") (force simp: nearer_def init_left_def)+
  next
    case I_wait
    show ?thesis
    proof (cases "i_woken s \<and> t_mutex s = Free")
      case True
      then have "t_ready s" using ok unfolding init_ok_def by blast
      then show ?thesis using True I_wait alive
        by (intro nearerI [OF i_wake [OF I_wait]]) (simp_all add: init_left_def)
    next
      case False
      have "v_pc s \<noteq> V_none" using ok I_wait by (simp add: init_ok_def)
      moreover have "v_pc s \<noteq> V_serve" if "t_mutex s = Free"
        using ok I_wait False that unfolding init_ok_def by blast
      moreover have "v_pc s = V_lock \<Longrightarrow> t_mutex s = Free" using busy I_wait by auto
      moreover have "v_pc s \<noteq> V_serve" if "t_mutex s \<noteq> Free" using busy that I_wait by auto
      ultimately show ?thesis using alive I_wait by (intro server_nearer) (cases "v_pc s"; auto)+
    qed
  next
    case I_unlock
    show ?thesis by (rule nearerI [OF i_unlock [OF I_unlock]]) (use I_unlock alive in \<open>simp_all add: init_left_def\<close>)
  qed (use more in simp)
qed

lemma init_returns:
  "init_ok s \<Longrightarrow> v_pc s \<noteq> V_gone \<Longrightarrow> \<exists>s' r. init_step\<^sup>*\<^sup>* s s' \<and> i_pc s' = I_returned r"
proof (induction "init_left s" arbitrary: s rule: less_induct)
  case less
  show ?case
  proof (cases "\<exists>r. i_pc s = I_returned r")
    case False
    then obtain s1 where s1: "nearer s s1" using init_nearer [OF less.prems(1)] less.prems(2) by blast
    then have "init_ok s1" using init_ok_step [OF _ less.prems(1)] unfolding nearer_def by blast
    then obtain s2 r where "init_step\<^sup>*\<^sup>* s1 s2" "i_pc s2 = I_returned r" using less.hyps [of s1] s1 by (auto simp: nearer_def)
    then show ?thesis using s1 by (meson nearer_def converse_rtranclp_into_rtranclp)
  qed blast
qed

text \<open>Without a server there is nobody to end the wait.\<close>

lemma gone_step: "init_step s s' \<Longrightarrow> i_pc s \<noteq> I_create \<Longrightarrow> v_pc s = V_gone \<Longrightarrow> v_pc s' = V_gone"
  by (induction rule: init_step.induct) simp_all

lemma gone_stays: "init_step\<^sup>*\<^sup>* s s' \<Longrightarrow> init_ok s \<Longrightarrow> v_pc s = V_gone \<Longrightarrow> init_ok s' \<and> v_pc s' = V_gone"
proof (induction rule: rtranclp_induct)
  case (step y z)
  then have y: "init_ok y" "v_pc y = V_gone" by blast+
  then have "i_pc y \<noteq> I_create" unfolding init_ok_def by auto
  then show ?case using init_ok_step [OF step(2) y(1)] gone_step [OF step(2) _ y(2)] by blast
qed simp

lemma timer_init_returned:
  assumes "init_reach s"
  shows "(\<forall>r. i_pc s = I_returned r \<longrightarrow> r = 0 \<and> v_pc s = V_serve \<and> v_closed s = [] \<and> std_err_open s \<or> r = -1 \<and> v_pc s = V_none) \<and>
    ((\<exists>s' r. init_step\<^sup>*\<^sup>* s s' \<and> i_pc s' = I_returned r) \<longleftrightarrow> v_pc s \<noteq> V_gone)"
proof -
  have ok: "init_ok s" by (rule init_reach_ok [OF assms])
  have kept: "init_ok s'" if "init_step\<^sup>*\<^sup>* s s'" for s'
    using that by (induction rule: rtranclp_induct) (auto intro: ok init_ok_step)
  have "v_pc s' \<noteq> V_gone" if "init_ok s'" "i_pc s' = I_returned r" for s' r
    using that by (auto simp: init_ok_def)
  then have "v_pc s \<noteq> V_gone" if "init_step\<^sup>*\<^sup>* s s'" "i_pc s' = I_returned r" for s' r
    using gone_stays [OF that(1) ok] kept [OF that(1)] that(2) by blast
  moreover have "r = 0 \<and> v_pc s = V_serve \<and> v_closed s = [] \<and> std_err_open s \<or> r = -1 \<and> v_pc s = V_none"
    if "i_pc s = I_returned r" for r
    using ok that unfolding init_ok_def by auto
  ultimately show ?thesis using init_returns [OF ok] by blast
qed

end
