(* ===== verification/Pb_Runtime.thy ===== *)
theory Pb_Runtime
  imports Srv_Prelude
begin

text \<open>
  What the code in message.pb.cpp works with: message objects, and the protobuf runtime it calls. The
  runtime is not part of the repository; each function of it that the generated code uses is a
  field of the parameter \<open>wire_lib\<close>, and \<open>wire_ok\<close> states its documented behaviour: what one of the
  write functions has put_at into the output, the matching read function gives back.
\<close>

unbundle bit_operations_syntax

section \<open>Message objects\<close>

text \<open>An object has the words of \<open>_has_bits_\<close> (one, as no message has more than 32 fields), a value
  for each field in the order of the field numbers, and the unknown fields as the bytes that stood for
  them. A string member is its text: the shared empty string is a matter of allocation. \<open>V_ptr\<close> is
  the pointer to a sub-message, \<open>V_rep\<close> a \<open>RepeatedPtrField\<close>. \<open>_cached_size_\<close> holds what \<open>ByteSize\<close>
  returned last; the serializers are only called after it, with the object unchanged, so that they are
  given that value.\<close>

datatype pb_val = V_num u32 | V_bool bool | V_str bytes | V_ptr "pb_obj option" | V_rep "pb_obj list"
  and pb_obj = Obj (has_bits: u32) (vals: "pb_val list") (unknown_fields: bytes)

definition has :: "nat \<Rightarrow> pb_obj \<Rightarrow> bool" where
  "has i ob \<longleftrightarrow> bit (has_bits ob) (i - 1)"

definition val :: "nat \<Rightarrow> pb_obj \<Rightarrow> pb_val" where
  "val i ob = vals ob ! (i - 1)"

definition put_at :: "nat \<Rightarrow> pb_val \<Rightarrow> pb_obj \<Rightarrow> pb_obj" where
  "put_at i v ob = Obj (has_bits ob) ((vals ob)[i - 1 := v]) (unknown_fields ob)"

definition set_has :: "nat \<Rightarrow> pb_obj \<Rightarrow> pb_obj" where
  "set_has i ob = Obj (set_bit (i - 1) (has_bits ob)) (vals ob) (unknown_fields ob)"

definition put_unknown :: "bytes \<Rightarrow> pb_obj \<Rightarrow> pb_obj" where
  "put_unknown u ob = Obj (has_bits ob) (vals ob) u"

fun num_of :: "pb_val \<Rightarrow> u32" where
  "num_of (V_num x) = x"
| "num_of _ = 0"

fun bool_of :: "pb_val \<Rightarrow> bool" where
  "bool_of (V_bool b) = b"
| "bool_of _ = False"

fun str_of :: "pb_val \<Rightarrow> bytes" where
  "str_of (V_str s) = s"
| "str_of _ = []"

text \<open>The getter of a sub-message gives the default instance for a null pointer.\<close>

fun obj_of :: "pb_obj \<Rightarrow> pb_val \<Rightarrow> pb_obj" where
  "obj_of new (V_ptr (Some ob)) = ob"
| "obj_of new _ = new"

fun objs_of :: "pb_val \<Rightarrow> pb_obj list" where
  "objs_of (V_rep obs) = obs"
| "objs_of _ = []"

text \<open>The result of \<open>MergePartialFromCodedStream\<close>: failure, or the object and whether the stream has
  come to the end of the message (\<open>ConsumedEntireMessage\<close>).\<close>

datatype merged = Failed | Merged pb_obj bool

section \<open>The runtime\<close>

text \<open>A stream is the list of the bytes that are left of it. A function that reads gives \<open>None\<close> where
  the code's returns false. \<open>read_message\<close> and \<open>parse_string\<close> call the virtual functions of the message,
  which they are given; their outer option is that of these functions. The functions \<open>array_\<close> append to
  what is written.\<close>

record wire_lib =
  read_tag :: "bytes \<Rightarrow> u32 \<times> bytes"
  legit_end :: "bytes \<Rightarrow> bool"
  tag_field :: "u32 \<Rightarrow> nat"
  tag_wire :: "u32 \<Rightarrow> nat"
  expect_tag :: "u32 \<Rightarrow> bytes \<Rightarrow> bytes option"
  expect_end :: "bytes \<Rightarrow> bool"
  read_uint32 :: "bytes \<Rightarrow> (u32 \<times> bytes) option"
  read_int32 :: "bytes \<Rightarrow> (u32 \<times> bytes) option"
  read_bool :: "bytes \<Rightarrow> (bool \<times> bytes) option"
  read_string :: "bytes \<Rightarrow> (bytes \<times> bytes) option"
  read_bytes :: "bytes \<Rightarrow> (bytes \<times> bytes) option"
  read_message :: "(bytes \<Rightarrow> pb_obj \<Rightarrow> merged option) \<Rightarrow> bytes \<Rightarrow> pb_obj \<Rightarrow> (pb_obj \<times> bytes) option option"
  skip_field :: "u32 \<Rightarrow> bytes \<Rightarrow> bytes \<Rightarrow> (bytes \<times> bytes) option"
  write_tag :: "u32 \<Rightarrow> bytes"
  enc_uint32 :: "u32 \<Rightarrow> bytes"
  enc_int32 :: "u32 \<Rightarrow> bytes"
  enc_bool :: "bool \<Rightarrow> bytes"
  enc_delimited :: "bytes \<Rightarrow> bytes"
  write_uint32 :: "nat \<Rightarrow> u32 \<Rightarrow> bytes"
  write_int32 :: "nat \<Rightarrow> u32 \<Rightarrow> bytes"
  write_bool :: "nat \<Rightarrow> bool \<Rightarrow> bytes"
  write_string :: "nat \<Rightarrow> bytes \<Rightarrow> bytes"
  write_bytes :: "nat \<Rightarrow> bytes \<Rightarrow> bytes"
  write_message :: "nat \<Rightarrow> nat \<Rightarrow> bytes \<Rightarrow> bytes"
  array_uint32 :: "nat \<Rightarrow> u32 \<Rightarrow> bytes \<Rightarrow> bytes"
  array_int32 :: "nat \<Rightarrow> u32 \<Rightarrow> bytes \<Rightarrow> bytes"
  array_bool :: "nat \<Rightarrow> bool \<Rightarrow> bytes \<Rightarrow> bytes"
  array_string :: "nat \<Rightarrow> bytes \<Rightarrow> bytes \<Rightarrow> bytes"
  array_bytes :: "nat \<Rightarrow> bytes \<Rightarrow> bytes \<Rightarrow> bytes"
  array_message :: "nat \<Rightarrow> nat \<Rightarrow> (bytes \<Rightarrow> bytes) \<Rightarrow> bytes \<Rightarrow> bytes"
  uint32_size :: "u32 \<Rightarrow> nat"
  int32_size :: "u32 \<Rightarrow> nat"
  string_size :: "bytes \<Rightarrow> nat"
  bytes_size :: "bytes \<Rightarrow> nat"
  message_size :: "nat \<Rightarrow> nat"
  write_unknown :: "bytes \<Rightarrow> bytes"
  array_unknown :: "bytes \<Rightarrow> bytes \<Rightarrow> bytes"
  unknown_size :: "bytes \<Rightarrow> nat"
  merge_unknown :: "bytes \<Rightarrow> bytes \<Rightarrow> bytes"
  parse_string :: "(bytes \<Rightarrow> pb_obj \<Rightarrow> merged option) \<Rightarrow> (pb_obj \<Rightarrow> bool) \<Rightarrow> bytes \<Rightarrow> pb_obj \<Rightarrow> pb_obj option option"
  serialize_string :: "nat \<Rightarrow> (bytes \<Rightarrow> bytes) \<Rightarrow> bytes"
  size_limit :: nat

section \<open>Documented behaviour\<close>

definition WIRETYPE_VARINT :: nat where "WIRETYPE_VARINT = 0"
definition WIRETYPE_LENGTH_DELIMITED :: nat where "WIRETYPE_LENGTH_DELIMITED = 2"
definition WIRETYPE_END_GROUP :: nat where "WIRETYPE_END_GROUP = 4"

text \<open>The tag of a field is its number and the wire type of its value; the messages here have at most
  fifteen fields, so a tag takes one byte.\<close>

definition tag_of :: "nat \<Rightarrow> nat \<Rightarrow> u32" where
  "tag_of i w = of_nat (8 * i + w)"

definition plain_tag :: "nat \<Rightarrow> nat \<Rightarrow> bool" where
  "plain_tag i w \<longleftrightarrow> 1 \<le> i \<and> i \<le> 15 \<and> (w = WIRETYPE_VARINT \<or> w = WIRETYPE_LENGTH_DELIMITED)"

definition tags_ok :: "wire_lib \<Rightarrow> bool" where
  "tags_ok W \<longleftrightarrow> (\<forall>i w. plain_tag i w \<longrightarrow>
     tag_of i w \<noteq> 0 \<and> tag_field W (tag_of i w) = i \<and> tag_wire W (tag_of i w) = w \<and> length (write_tag W (tag_of i w)) = 1 \<and>
     (\<forall>r. read_tag W (write_tag W (tag_of i w) @ r) = (tag_of i w, r)))"

text \<open>\<open>ExpectTag\<close> and \<open>ExpectAtEnd\<close> are hints: they may be false without a reason, but not true without one.\<close>

definition ends_ok :: "wire_lib \<Rightarrow> bool" where
  "ends_ok W \<longleftrightarrow> fst (read_tag W []) = 0 \<and> legit_end W [] \<and> (\<forall>bs. expect_end W bs \<longrightarrow> bs = []) \<and>
     (\<forall>t bs r. expect_tag W t bs = Some r \<longrightarrow> bs = write_tag W t @ r)"

definition reads_ok :: "wire_lib \<Rightarrow> bool" where
  "reads_ok W \<longleftrightarrow>
     (\<forall>v r. read_uint32 W (enc_uint32 W v @ r) = Some (v, r) \<and> enc_uint32 W v \<noteq> []) \<and>
     (\<forall>v r. read_int32 W (enc_int32 W v @ r) = Some (v, r) \<and> enc_int32 W v \<noteq> []) \<and>
     (\<forall>b r. read_bool W (enc_bool W b @ r) = Some (b, r) \<and> length (enc_bool W b) = 1) \<and>
     (\<forall>s r. length s \<le> size_limit W \<longrightarrow> read_string W (enc_delimited W s @ r) = Some (s, r) \<and>
        read_bytes W (enc_delimited W s @ r) = Some (s, r)) \<and>
     (\<forall>s. length s < length (enc_delimited W s)) \<and>
     (\<forall>m p r ob ob'. length p \<le> size_limit W \<longrightarrow> m p ob = Some (Merged ob' True) \<longrightarrow>
        read_message W m (enc_delimited W p @ r) ob = Some (Some (ob', r)))"

text \<open>The last line: the caller passes the size of the message's serialization.\<close>

definition writes_ok :: "wire_lib \<Rightarrow> bool" where
  "writes_ok W \<longleftrightarrow>
     (\<forall>i v. write_uint32 W i v = write_tag W (tag_of i WIRETYPE_VARINT) @ enc_uint32 W v) \<and>
     (\<forall>i v. write_int32 W i v = write_tag W (tag_of i WIRETYPE_VARINT) @ enc_int32 W v) \<and>
     (\<forall>i b. write_bool W i b = write_tag W (tag_of i WIRETYPE_VARINT) @ enc_bool W b) \<and>
     (\<forall>i s. write_string W i s = write_tag W (tag_of i WIRETYPE_LENGTH_DELIMITED) @ enc_delimited W s) \<and>
     (\<forall>i s. write_bytes W i s = write_tag W (tag_of i WIRETYPE_LENGTH_DELIMITED) @ enc_delimited W s) \<and>
     (\<forall>i p. write_message W i (length p) p = write_tag W (tag_of i WIRETYPE_LENGTH_DELIMITED) @ enc_delimited W p)"

definition arrays_ok :: "wire_lib \<Rightarrow> bool" where
  "arrays_ok W \<longleftrightarrow>
     (\<forall>i v t. array_uint32 W i v t = t @ write_uint32 W i v) \<and> (\<forall>i v t. array_int32 W i v t = t @ write_int32 W i v) \<and>
     (\<forall>i b t. array_bool W i b t = t @ write_bool W i b) \<and> (\<forall>i s t. array_string W i s t = t @ write_string W i s) \<and>
     (\<forall>i s t. array_bytes W i s t = t @ write_bytes W i s) \<and>
     (\<forall>i n f p t. (\<forall>t. f t = t @ p) \<longrightarrow> array_message W i n f t = t @ write_message W i n p)"

definition sizes_ok :: "wire_lib \<Rightarrow> bool" where
  "sizes_ok W \<longleftrightarrow>
     (\<forall>v. uint32_size W v = length (enc_uint32 W v)) \<and> (\<forall>v. int32_size W v = length (enc_int32 W v)) \<and>
     (\<forall>s. string_size W s = length (enc_delimited W s)) \<and> (\<forall>s. bytes_size W s = length (enc_delimited W s)) \<and>
     (\<forall>p. message_size W (length p) = length (enc_delimited W p))"

definition whole_ok :: "wire_lib \<Rightarrow> bool" where
  "whole_ok W \<longleftrightarrow>
     (\<forall>m init bs ob. parse_string W m init bs ob =
        (case m bs ob of None \<Rightarrow> None | Some Failed \<Rightarrow> Some None
         | Some (Merged ob' consumed) \<Rightarrow> Some (if consumed \<and> init ob' then Some ob' else None))) \<and>
     (\<forall>f p. (\<forall>t. f t = t @ p) \<longrightarrow> serialize_string W (length p) f = p) \<and>
     (\<forall>u. merge_unknown W u [] = u) \<and> (\<forall>u. unknown_size W u = length (write_unknown W u)) \<and>
     (\<forall>u t. array_unknown W u t = t @ write_unknown W u)"

definition wire_ok :: "wire_lib \<Rightarrow> bool" where
  "wire_ok W \<longleftrightarrow> tags_ok W \<and> ends_ok W \<and> reads_ok W \<and> writes_ok W \<and> arrays_ok W \<and> sizes_ok W \<and> whole_ok W"

text \<open>On any input: a reader leaves no more than it was given, and a tag takes at least one byte.\<close>

definition shrinks :: "wire_lib \<Rightarrow> bool" where
  "shrinks W \<longleftrightarrow>
     (\<forall>bs. fst (read_tag W bs) \<noteq> 0 \<longrightarrow> length (snd (read_tag W bs)) < length bs) \<and>
     (\<forall>t bs r. expect_tag W t bs = Some r \<longrightarrow> length r < length bs) \<and>
     (\<forall>bs v r. read_uint32 W bs = Some (v, r) \<longrightarrow> length r \<le> length bs) \<and>
     (\<forall>bs v r. read_int32 W bs = Some (v, r) \<longrightarrow> length r \<le> length bs) \<and>
     (\<forall>bs v r. read_bool W bs = Some (v, r) \<longrightarrow> length r \<le> length bs) \<and>
     (\<forall>bs v r. read_string W bs = Some (v, r) \<longrightarrow> length r \<le> length bs) \<and>
     (\<forall>bs v r. read_bytes W bs = Some (v, r) \<longrightarrow> length r \<le> length bs) \<and>
     (\<forall>t bs u v r. skip_field W t bs u = Some (r, v) \<longrightarrow> length r \<le> length bs) \<and>
     (\<forall>m bs ob. (\<forall>p ob. length p \<le> length bs \<longrightarrow> m p ob \<noteq> None) \<longrightarrow>
        read_message W m bs ob \<noteq> None \<and> (\<forall>ob' r. read_message W m bs ob = Some (Some (ob', r)) \<longrightarrow> length r \<le> length bs))"

end
