(* ===== verification/Pb_Code.thy ===== *)
theory Pb_Code
  imports Pb_Runtime
begin

text \<open>
  The statements the generated member functions of message.pb.cpp are made of, one definition for each
  form a statement takes there. Pb_Messages composes them, message by message.
\<close>

section \<open>Parsing\<close>

text \<open>A case of the switch in \<open>MergePartialFromCodedStream\<close>: the field number, the wire type it is
  compared with, the statement that reads the value, the pairs of \<open>ExpectTag\<close> and \<open>goto\<close> that follow, and
  whether \<open>ExpectAtEnd\<close> is asked. The reader has the fuel for a sub-message as its first argument.\<close>

type_synonym field_reader = "nat \<Rightarrow> bytes \<Rightarrow> pb_obj \<Rightarrow> (pb_obj \<times> bytes) option option"
type_synonym merger = "nat \<Rightarrow> bytes \<Rightarrow> pb_obj \<Rightarrow> merged option"

datatype pb_case = Case (field_no: nat) (wire_type: nat) (reader: field_reader) (nexts: "(u32 \<times> nat) list") (at_end: bool)

definition store :: "nat \<Rightarrow> ('v \<Rightarrow> pb_val) \<Rightarrow> ('v \<times> bytes) option \<Rightarrow> pb_obj \<Rightarrow> (pb_obj \<times> bytes) option option" where
  "store i mk res ob = Some (map_option (\<lambda>(v, bs). (set_has i (put_at i (mk v) ob), bs)) res)"

definition uint32_field :: "wire_lib \<Rightarrow> nat \<Rightarrow> field_reader" where
  "uint32_field W i n bs ob = store i V_num (read_uint32 W bs) ob"

definition int32_field :: "wire_lib \<Rightarrow> nat \<Rightarrow> field_reader" where
  "int32_field W i n bs ob = store i V_num (read_int32 W bs) ob"

definition bool_field :: "wire_lib \<Rightarrow> nat \<Rightarrow> field_reader" where
  "bool_field W i n bs ob = store i V_bool (read_bool W bs) ob"

text \<open>\<open>VerifyUTF8String\<close> only logs.\<close>

definition string_field :: "wire_lib \<Rightarrow> nat \<Rightarrow> field_reader" where
  "string_field W i n bs ob = store i V_str (read_string W bs) ob"

definition bytes_field :: "wire_lib \<Rightarrow> nat \<Rightarrow> field_reader" where
  "bytes_field W i n bs ob = store i V_str (read_bytes W bs) ob"

text \<open>\<open>mutable_x()\<close> allocates the sub-message when there is none; \<open>add_x()\<close> appends a new one.\<close>

definition message_field :: "wire_lib \<Rightarrow> nat \<Rightarrow> pb_obj \<Rightarrow> merger \<Rightarrow> field_reader" where
  "message_field W i new merge n bs ob =
     map_option (map_option (\<lambda>(sub, bs). (set_has i (put_at i (V_ptr (Some sub)) ob), bs)))
       (read_message W (merge n) bs (obj_of new (val i ob)))"

definition add_message_field :: "wire_lib \<Rightarrow> nat \<Rightarrow> pb_obj \<Rightarrow> merger \<Rightarrow> field_reader" where
  "add_message_field W i new merge n bs ob =
     map_option (map_option (\<lambda>(sub, bs). (put_at i (V_rep (objs_of (val i ob) @ [sub])) ob, bs)))
       (read_message W (merge n) bs new)"

fun expected :: "wire_lib \<Rightarrow> (u32 \<times> nat) list \<Rightarrow> bytes \<Rightarrow> (nat \<times> bytes) option" where
  "expected W [] bs = None"
| "expected W ((t, l) # ts) bs = (case expect_tag W t bs of Some r \<Rightarrow> Some (l, r) | None \<Rightarrow> expected W ts bs)"

text \<open>The loop over the tags. \<open>label\<close> is the field number of the label that a \<open>goto\<close> goes to, \<open>n\<close> is fuel
  for the turns of the loop and of those of the sub-messages.\<close>

fun parse_loop :: "wire_lib \<Rightarrow> pb_case list \<Rightarrow> nat \<Rightarrow> nat option \<Rightarrow> bytes \<Rightarrow> pb_obj \<Rightarrow> merged option" where
  "parse_loop W cs 0 label bs ob = None"
| "parse_loop W cs (Suc n) label bs ob =
     (let read = (\<lambda>c bs.
        case reader c n bs ob of
          None \<Rightarrow> None
        | Some None \<Rightarrow> Some Failed
        | Some (Some (ob, bs)) \<Rightarrow>
            (case expected W (nexts c) bs of
               Some (l, bs) \<Rightarrow> parse_loop W cs n (Some l) bs ob
             | None \<Rightarrow> if at_end c \<and> expect_end W bs then Some (Merged ob True) else parse_loop W cs n None bs ob));
          uninterpreted = (\<lambda>tag bs.
            if tag_wire W tag = WIRETYPE_END_GROUP then Some (Merged ob False)
            else case skip_field W tag bs (unknown_fields ob) of
                None \<Rightarrow> Some Failed
              | Some (bs, u) \<Rightarrow> parse_loop W cs n None bs (put_unknown u ob))
      in case label of
           Some l \<Rightarrow> (case find (\<lambda>c. field_no c = l) cs of None \<Rightarrow> None | Some c \<Rightarrow> read c bs)
         | None \<Rightarrow>
             (case read_tag W bs of (tag, rest) \<Rightarrow>
                if tag = 0 then Some (Merged ob (legit_end W bs))
                else case find (\<lambda>c. field_no c = tag_field W tag) cs of
                    Some c \<Rightarrow> if tag_wire W tag = wire_type c then read c rest else uninterpreted tag rest
                  | None \<Rightarrow> uninterpreted tag rest))"

definition merge_partial :: "wire_lib \<Rightarrow> pb_case list \<Rightarrow> merger" where
  "merge_partial W cs n bs ob = parse_loop W cs n None bs ob"

section \<open>Serializing\<close>

definition uint32_out :: "wire_lib \<Rightarrow> nat \<Rightarrow> pb_obj \<Rightarrow> bytes" where
  "uint32_out W i ob = (if has i ob then write_uint32 W i (num_of (val i ob)) else [])"

definition int32_out :: "wire_lib \<Rightarrow> nat \<Rightarrow> pb_obj \<Rightarrow> bytes" where
  "int32_out W i ob = (if has i ob then write_int32 W i (num_of (val i ob)) else [])"

definition bool_out :: "wire_lib \<Rightarrow> nat \<Rightarrow> pb_obj \<Rightarrow> bytes" where
  "bool_out W i ob = (if has i ob then write_bool W i (bool_of (val i ob)) else [])"

definition string_out :: "wire_lib \<Rightarrow> nat \<Rightarrow> pb_obj \<Rightarrow> bytes" where
  "string_out W i ob = (if has i ob then write_string W i (str_of (val i ob)) else [])"

definition bytes_out :: "wire_lib \<Rightarrow> nat \<Rightarrow> pb_obj \<Rightarrow> bytes" where
  "bytes_out W i ob = (if has i ob then write_bytes W i (str_of (val i ob)) else [])"

definition message_out :: "wire_lib \<Rightarrow> nat \<Rightarrow> pb_obj \<Rightarrow> (pb_obj \<Rightarrow> nat) \<Rightarrow> (pb_obj \<Rightarrow> bytes) \<Rightarrow> pb_obj \<Rightarrow> bytes" where
  "message_out W i new sz ser ob =
     (if has i ob then let sub = obj_of new (val i ob) in write_message W i (sz sub) (ser sub) else [])"

definition messages_out :: "wire_lib \<Rightarrow> nat \<Rightarrow> (pb_obj \<Rightarrow> nat) \<Rightarrow> (pb_obj \<Rightarrow> bytes) \<Rightarrow> pb_obj \<Rightarrow> bytes" where
  "messages_out W i sz ser ob = concat (map (\<lambda>sub. write_message W i (sz sub) (ser sub)) (objs_of (val i ob)))"

definition unknown_out :: "wire_lib \<Rightarrow> pb_obj \<Rightarrow> bytes" where
  "unknown_out W ob = (if unknown_fields ob \<noteq> [] then write_unknown W (unknown_fields ob) else [])"

text \<open>The same into an array: \<open>t\<close> is what is written so far.\<close>

definition uint32_arr :: "wire_lib \<Rightarrow> nat \<Rightarrow> pb_obj \<Rightarrow> bytes \<Rightarrow> bytes" where
  "uint32_arr W i ob t = (if has i ob then array_uint32 W i (num_of (val i ob)) t else t)"

definition int32_arr :: "wire_lib \<Rightarrow> nat \<Rightarrow> pb_obj \<Rightarrow> bytes \<Rightarrow> bytes" where
  "int32_arr W i ob t = (if has i ob then array_int32 W i (num_of (val i ob)) t else t)"

definition bool_arr :: "wire_lib \<Rightarrow> nat \<Rightarrow> pb_obj \<Rightarrow> bytes \<Rightarrow> bytes" where
  "bool_arr W i ob t = (if has i ob then array_bool W i (bool_of (val i ob)) t else t)"

definition string_arr :: "wire_lib \<Rightarrow> nat \<Rightarrow> pb_obj \<Rightarrow> bytes \<Rightarrow> bytes" where
  "string_arr W i ob t = (if has i ob then array_string W i (str_of (val i ob)) t else t)"

definition bytes_arr :: "wire_lib \<Rightarrow> nat \<Rightarrow> pb_obj \<Rightarrow> bytes \<Rightarrow> bytes" where
  "bytes_arr W i ob t = (if has i ob then array_bytes W i (str_of (val i ob)) t else t)"

definition message_arr ::
  "wire_lib \<Rightarrow> nat \<Rightarrow> pb_obj \<Rightarrow> (pb_obj \<Rightarrow> nat) \<Rightarrow> (pb_obj \<Rightarrow> bytes \<Rightarrow> bytes) \<Rightarrow> pb_obj \<Rightarrow> bytes \<Rightarrow> bytes" where
  "message_arr W i new sz arr ob t =
     (if has i ob then let sub = obj_of new (val i ob) in array_message W i (sz sub) (arr sub) t else t)"

definition messages_arr ::
  "wire_lib \<Rightarrow> nat \<Rightarrow> (pb_obj \<Rightarrow> nat) \<Rightarrow> (pb_obj \<Rightarrow> bytes \<Rightarrow> bytes) \<Rightarrow> pb_obj \<Rightarrow> bytes \<Rightarrow> bytes" where
  "messages_arr W i sz arr ob t = fold (\<lambda>sub. array_message W i (sz sub) (arr sub)) (objs_of (val i ob)) t"

definition unknown_arr :: "wire_lib \<Rightarrow> pb_obj \<Rightarrow> bytes \<Rightarrow> bytes" where
  "unknown_arr W ob t = (if unknown_fields ob \<noteq> [] then array_unknown W (unknown_fields ob) t else t)"

text \<open>The sizes, with the number of bytes of the tag; \<open>grouped\<close> is the test of eight has-bits at a time.\<close>

definition grouped :: "u32 \<Rightarrow> pb_obj \<Rightarrow> nat \<Rightarrow> nat" where
  "grouped m ob n = (if has_bits ob AND m \<noteq> 0 then n else 0)"

definition uint32_len :: "wire_lib \<Rightarrow> nat \<Rightarrow> nat \<Rightarrow> pb_obj \<Rightarrow> nat" where
  "uint32_len W tg i ob = (if has i ob then tg + uint32_size W (num_of (val i ob)) else 0)"

definition int32_len :: "wire_lib \<Rightarrow> nat \<Rightarrow> nat \<Rightarrow> pb_obj \<Rightarrow> nat" where
  "int32_len W tg i ob = (if has i ob then tg + int32_size W (num_of (val i ob)) else 0)"

definition bool_len :: "nat \<Rightarrow> nat \<Rightarrow> nat \<Rightarrow> pb_obj \<Rightarrow> nat" where
  "bool_len tg b i ob = (if has i ob then tg + b else 0)"

definition string_len :: "wire_lib \<Rightarrow> nat \<Rightarrow> nat \<Rightarrow> pb_obj \<Rightarrow> nat" where
  "string_len W tg i ob = (if has i ob then tg + string_size W (str_of (val i ob)) else 0)"

definition bytes_len :: "wire_lib \<Rightarrow> nat \<Rightarrow> nat \<Rightarrow> pb_obj \<Rightarrow> nat" where
  "bytes_len W tg i ob = (if has i ob then tg + bytes_size W (str_of (val i ob)) else 0)"

definition message_len :: "wire_lib \<Rightarrow> nat \<Rightarrow> nat \<Rightarrow> pb_obj \<Rightarrow> (pb_obj \<Rightarrow> nat) \<Rightarrow> pb_obj \<Rightarrow> nat" where
  "message_len W tg i new sz ob = (if has i ob then tg + message_size W (sz (obj_of new (val i ob))) else 0)"

definition messages_len :: "wire_lib \<Rightarrow> nat \<Rightarrow> nat \<Rightarrow> (pb_obj \<Rightarrow> nat) \<Rightarrow> pb_obj \<Rightarrow> nat" where
  "messages_len W tg i sz ob =
     tg * length (objs_of (val i ob)) + (\<Sum>sub \<leftarrow> objs_of (val i ob). message_size W (sz sub))"

definition unknown_len :: "wire_lib \<Rightarrow> pb_obj \<Rightarrow> nat" where
  "unknown_len W ob = (if unknown_fields ob \<noteq> [] then unknown_size W (unknown_fields ob) else 0)"

section \<open>Clearing, merging, checking, swapping\<close>

text \<open>\<open>when_any\<close> is the test of eight has-bits before a group of statements.\<close>

definition when_any :: "u32 \<Rightarrow> pb_obj \<Rightarrow> (pb_obj \<Rightarrow> pb_obj) \<Rightarrow> pb_obj \<Rightarrow> pb_obj" where
  "when_any m tested f ob = (if has_bits tested AND m \<noteq> 0 then f ob else ob)"

definition zero_num :: "nat \<Rightarrow> pb_obj \<Rightarrow> pb_obj" where "zero_num i ob = put_at i (V_num 0) ob"
definition zero_bool :: "nat \<Rightarrow> pb_obj \<Rightarrow> pb_obj" where "zero_bool i ob = put_at i (V_bool False) ob"
definition zero_str :: "nat \<Rightarrow> pb_obj \<Rightarrow> pb_obj" where "zero_str i ob = (if has i ob then put_at i (V_str []) ob else ob)"
definition zero_rep :: "nat \<Rightarrow> pb_obj \<Rightarrow> pb_obj" where "zero_rep i ob = put_at i (V_rep []) ob"

definition zero_message :: "nat \<Rightarrow> (pb_obj \<Rightarrow> pb_obj) \<Rightarrow> pb_obj \<Rightarrow> pb_obj" where
  "zero_message i clear ob =
     (if has i ob then (case val i ob of V_ptr (Some sub) \<Rightarrow> put_at i (V_ptr (Some (clear sub))) ob | _ \<Rightarrow> ob) else ob)"

definition clear_bits :: "pb_obj \<Rightarrow> pb_obj" where
  "clear_bits ob = Obj 0 (vals ob) []"

definition set_from :: "nat \<Rightarrow> pb_obj \<Rightarrow> pb_obj \<Rightarrow> pb_obj" where
  "set_from i from ob = (if has i from then set_has i (put_at i (val i from) ob) else ob)"

definition message_from ::
  "nat \<Rightarrow> pb_obj \<Rightarrow> (pb_obj \<Rightarrow> pb_obj \<Rightarrow> pb_obj) \<Rightarrow> pb_obj \<Rightarrow> pb_obj \<Rightarrow> pb_obj" where
  "message_from i new merge from ob =
     (if has i from then set_has i (put_at i (V_ptr (Some (merge (obj_of new (val i from)) (obj_of new (val i ob))))) ob) else ob)"

definition messages_from ::
  "nat \<Rightarrow> pb_obj \<Rightarrow> (pb_obj \<Rightarrow> pb_obj \<Rightarrow> pb_obj) \<Rightarrow> pb_obj \<Rightarrow> pb_obj \<Rightarrow> pb_obj" where
  "messages_from i new merge from ob =
     put_at i (V_rep (objs_of (val i ob) @ map (\<lambda>sub. merge sub new) (objs_of (val i from)))) ob"

definition unknown_from :: "wire_lib \<Rightarrow> pb_obj \<Rightarrow> pb_obj \<Rightarrow> pb_obj" where
  "unknown_from W from ob = put_unknown (merge_unknown W (unknown_fields ob) (unknown_fields from)) ob"

definition required_set :: "u32 \<Rightarrow> pb_obj \<Rightarrow> bool" where
  "required_set m ob \<longleftrightarrow> has_bits ob AND m = m"

definition message_init :: "nat \<Rightarrow> pb_obj \<Rightarrow> (pb_obj \<Rightarrow> bool) \<Rightarrow> pb_obj \<Rightarrow> bool" where
  "message_init i new init ob \<longleftrightarrow> (has i ob \<longrightarrow> init (obj_of new (val i ob)))"

definition messages_init :: "nat \<Rightarrow> (pb_obj \<Rightarrow> bool) \<Rightarrow> pb_obj \<Rightarrow> bool" where
  "messages_init i init ob \<longleftrightarrow> list_all init (objs_of (val i ob))"

definition swap_val :: "nat \<Rightarrow> pb_obj \<times> pb_obj \<Rightarrow> pb_obj \<times> pb_obj" where
  "swap_val i p = (put_at i (val i (snd p)) (fst p), put_at i (val i (fst p)) (snd p))"

definition swap_bits :: "pb_obj \<times> pb_obj \<Rightarrow> pb_obj \<times> pb_obj" where
  "swap_bits p = (Obj (has_bits (snd p)) (vals (fst p)) (unknown_fields (fst p)),
     Obj (has_bits (fst p)) (vals (snd p)) (unknown_fields (snd p)))"

definition swap_unknown :: "pb_obj \<times> pb_obj \<Rightarrow> pb_obj \<times> pb_obj" where
  "swap_unknown p = (put_unknown (unknown_fields (snd p)) (fst p), put_unknown (unknown_fields (fst p)) (snd p))"

end
