(* ===== verification/Pb_Messages.thy ===== *)
theory Pb_Messages
  imports Pb_Code
begin

text \<open>
  The generated classes of message.pb.cpp, first part: log-in, users, boards and halls.
  For each message the default object (\<open>SharedCtor\<close>), \<open>Clear\<close>, \<open>MergePartialFromCodedStream\<close>,
  \<open>ByteSize\<close>, the two serializers, \<open>MergeFrom\<close>, \<open>CopyFrom\<close> between different objects, \<open>IsInitialized\<close>
  and \<open>Swap\<close> of different objects. A message comes after those it contains; its fields are numbered
  from 1 without gaps.
\<close>

subsection \<open>Echo\<close>

definition Echo_new :: pb_obj where
  "Echo_new = Obj 0 [V_str []] []"

definition Echo_Clear :: "pb_obj \<Rightarrow> pb_obj" where
  "Echo_Clear ob =
    (let ob = when_any 255 ob (\<lambda>ob.
         let ob = zero_str 1 ob in ob) ob
     in clear_bits ob)"

definition Echo_MergePartial :: "wire_lib \<Rightarrow> merger" where
  "Echo_MergePartial W = merge_partial W
    [Case 1 WIRETYPE_LENGTH_DELIMITED (string_field W 1) [] True]"

definition Echo_ByteSize :: "wire_lib \<Rightarrow> pb_obj \<Rightarrow> nat" where
  "Echo_ByteSize W ob =
     grouped 255 ob (string_len W 1 1 ob) +
     unknown_len W ob"

definition Echo_Serialize :: "wire_lib \<Rightarrow> pb_obj \<Rightarrow> bytes" where
  "Echo_Serialize W ob =
     string_out W 1 ob @
     unknown_out W ob"

definition Echo_ToArray :: "wire_lib \<Rightarrow> pb_obj \<Rightarrow> bytes \<Rightarrow> bytes" where
  "Echo_ToArray W ob t =
    (let t = string_arr W 1 ob t
     in unknown_arr W ob t)"

definition Echo_MergeFrom :: "wire_lib \<Rightarrow> pb_obj \<Rightarrow> pb_obj \<Rightarrow> pb_obj" where
  "Echo_MergeFrom W source ob =
    (let ob = when_any 255 source (\<lambda>ob.
         let ob = set_from 1 source ob in ob) ob
     in unknown_from W source ob)"

definition Echo_CopyFrom :: "wire_lib \<Rightarrow> pb_obj \<Rightarrow> pb_obj \<Rightarrow> pb_obj" where
  "Echo_CopyFrom W source ob = Echo_MergeFrom W source (Echo_Clear ob)"

definition Echo_IsInitialized :: "pb_obj \<Rightarrow> bool" where
  "Echo_IsInitialized ob \<longleftrightarrow> True"

definition Echo_Swap :: "pb_obj \<times> pb_obj \<Rightarrow> pb_obj \<times> pb_obj" where
  "Echo_Swap p =
    (let p = swap_val 1 p; p = swap_bits p in swap_unknown p)"

subsection \<open>LogOnorOut\<close>

definition LogOnorOut_new :: pb_obj where
  "LogOnorOut_new = Obj 0 [V_str [], V_str []] []"

definition LogOnorOut_Clear :: "pb_obj \<Rightarrow> pb_obj" where
  "LogOnorOut_Clear ob =
    (let ob = when_any 255 ob (\<lambda>ob.
         let ob = zero_str 1 ob; ob = zero_str 2 ob in ob) ob
     in clear_bits ob)"

definition LogOnorOut_MergePartial :: "wire_lib \<Rightarrow> merger" where
  "LogOnorOut_MergePartial W = merge_partial W
    [Case 1 WIRETYPE_LENGTH_DELIMITED (string_field W 1) [(18, 2)] False,
     Case 2 WIRETYPE_LENGTH_DELIMITED (string_field W 2) [] True]"

definition LogOnorOut_ByteSize :: "wire_lib \<Rightarrow> pb_obj \<Rightarrow> nat" where
  "LogOnorOut_ByteSize W ob =
     grouped 255 ob (string_len W 1 1 ob +
       string_len W 1 2 ob) +
     unknown_len W ob"

definition LogOnorOut_Serialize :: "wire_lib \<Rightarrow> pb_obj \<Rightarrow> bytes" where
  "LogOnorOut_Serialize W ob =
     string_out W 1 ob @
     string_out W 2 ob @
     unknown_out W ob"

definition LogOnorOut_ToArray :: "wire_lib \<Rightarrow> pb_obj \<Rightarrow> bytes \<Rightarrow> bytes" where
  "LogOnorOut_ToArray W ob t =
    (let t = string_arr W 1 ob t;
       t = string_arr W 2 ob t
     in unknown_arr W ob t)"

definition LogOnorOut_MergeFrom :: "wire_lib \<Rightarrow> pb_obj \<Rightarrow> pb_obj \<Rightarrow> pb_obj" where
  "LogOnorOut_MergeFrom W source ob =
    (let ob = when_any 255 source (\<lambda>ob.
         let ob = set_from 1 source ob;
           ob = set_from 2 source ob in ob) ob
     in unknown_from W source ob)"

definition LogOnorOut_CopyFrom :: "wire_lib \<Rightarrow> pb_obj \<Rightarrow> pb_obj \<Rightarrow> pb_obj" where
  "LogOnorOut_CopyFrom W source ob = LogOnorOut_MergeFrom W source (LogOnorOut_Clear ob)"

definition LogOnorOut_IsInitialized :: "pb_obj \<Rightarrow> bool" where
  "LogOnorOut_IsInitialized ob \<longleftrightarrow> required_set 3 ob"

definition LogOnorOut_Swap :: "pb_obj \<times> pb_obj \<Rightarrow> pb_obj \<times> pb_obj" where
  "LogOnorOut_Swap p =
    (let p = swap_val 1 p; p = swap_val 2 p; p = swap_bits p in swap_unknown p)"

subsection \<open>ImageVersion\<close>

definition ImageVersion_new :: pb_obj where
  "ImageVersion_new = Obj 0 [V_str [], V_bool False] []"

definition ImageVersion_Clear :: "pb_obj \<Rightarrow> pb_obj" where
  "ImageVersion_Clear ob =
    (let ob = when_any 255 ob (\<lambda>ob.
         let ob = zero_str 1 ob; ob = zero_bool 2 ob in ob) ob
     in clear_bits ob)"

definition ImageVersion_MergePartial :: "wire_lib \<Rightarrow> merger" where
  "ImageVersion_MergePartial W = merge_partial W
    [Case 1 WIRETYPE_LENGTH_DELIMITED (string_field W 1) [(16, 2)] False,
     Case 2 WIRETYPE_VARINT (bool_field W 2) [] True]"

definition ImageVersion_ByteSize :: "wire_lib \<Rightarrow> pb_obj \<Rightarrow> nat" where
  "ImageVersion_ByteSize W ob =
     grouped 255 ob (string_len W 1 1 ob +
       bool_len 1 1 2 ob) +
     unknown_len W ob"

definition ImageVersion_Serialize :: "wire_lib \<Rightarrow> pb_obj \<Rightarrow> bytes" where
  "ImageVersion_Serialize W ob =
     string_out W 1 ob @
     bool_out W 2 ob @
     unknown_out W ob"

definition ImageVersion_ToArray :: "wire_lib \<Rightarrow> pb_obj \<Rightarrow> bytes \<Rightarrow> bytes" where
  "ImageVersion_ToArray W ob t =
    (let t = string_arr W 1 ob t;
       t = bool_arr W 2 ob t
     in unknown_arr W ob t)"

definition ImageVersion_MergeFrom :: "wire_lib \<Rightarrow> pb_obj \<Rightarrow> pb_obj \<Rightarrow> pb_obj" where
  "ImageVersion_MergeFrom W source ob =
    (let ob = when_any 255 source (\<lambda>ob.
         let ob = set_from 1 source ob;
           ob = set_from 2 source ob in ob) ob
     in unknown_from W source ob)"

definition ImageVersion_CopyFrom :: "wire_lib \<Rightarrow> pb_obj \<Rightarrow> pb_obj \<Rightarrow> pb_obj" where
  "ImageVersion_CopyFrom W source ob = ImageVersion_MergeFrom W source (ImageVersion_Clear ob)"

definition ImageVersion_IsInitialized :: "pb_obj \<Rightarrow> bool" where
  "ImageVersion_IsInitialized ob \<longleftrightarrow> required_set 3 ob"

definition ImageVersion_Swap :: "pb_obj \<times> pb_obj \<Rightarrow> pb_obj \<times> pb_obj" where
  "ImageVersion_Swap p =
    (let p = swap_val 1 p; p = swap_val 2 p; p = swap_bits p in swap_unknown p)"

subsection \<open>ChessBoardUser\<close>

definition ChessBoardUser_new :: pb_obj where
  "ChessBoardUser_new = Obj 0 [V_bool False, V_str [], V_str [], V_num 0, V_str [], V_str [], V_str [], V_num 0] []"

definition ChessBoardUser_Clear :: "pb_obj \<Rightarrow> pb_obj" where
  "ChessBoardUser_Clear ob =
    (let ob = when_any 255 ob (\<lambda>ob.
         let ob = zero_bool 1 ob; ob = zero_str 2 ob; ob = zero_str 3 ob; ob = zero_num 4 ob; ob = zero_str 5 ob; ob = zero_str 6 ob; ob = zero_str 7 ob; ob = zero_num 8 ob in ob) ob
     in clear_bits ob)"

definition ChessBoardUser_MergePartial :: "wire_lib \<Rightarrow> merger" where
  "ChessBoardUser_MergePartial W = merge_partial W
    [Case 1 WIRETYPE_VARINT (bool_field W 1) [(18, 2)] False,
     Case 2 WIRETYPE_LENGTH_DELIMITED (string_field W 2) [(26, 3)] False,
     Case 3 WIRETYPE_LENGTH_DELIMITED (string_field W 3) [(32, 4)] False,
     Case 4 WIRETYPE_VARINT (int32_field W 4) [(42, 5)] False,
     Case 5 WIRETYPE_LENGTH_DELIMITED (string_field W 5) [(50, 6)] False,
     Case 6 WIRETYPE_LENGTH_DELIMITED (string_field W 6) [(58, 7)] False,
     Case 7 WIRETYPE_LENGTH_DELIMITED (bytes_field W 7) [(64, 8)] False,
     Case 8 WIRETYPE_VARINT (uint32_field W 8) [] True]"

definition ChessBoardUser_ByteSize :: "wire_lib \<Rightarrow> pb_obj \<Rightarrow> nat" where
  "ChessBoardUser_ByteSize W ob =
     grouped 255 ob (bool_len 1 1 1 ob +
       string_len W 1 2 ob +
       string_len W 1 3 ob +
       int32_len W 1 4 ob +
       string_len W 1 5 ob +
       string_len W 1 6 ob +
       bytes_len W 1 7 ob +
       uint32_len W 1 8 ob) +
     unknown_len W ob"

definition ChessBoardUser_Serialize :: "wire_lib \<Rightarrow> pb_obj \<Rightarrow> bytes" where
  "ChessBoardUser_Serialize W ob =
     bool_out W 1 ob @
     string_out W 2 ob @
     string_out W 3 ob @
     int32_out W 4 ob @
     string_out W 5 ob @
     string_out W 6 ob @
     bytes_out W 7 ob @
     uint32_out W 8 ob @
     unknown_out W ob"

definition ChessBoardUser_ToArray :: "wire_lib \<Rightarrow> pb_obj \<Rightarrow> bytes \<Rightarrow> bytes" where
  "ChessBoardUser_ToArray W ob t =
    (let t = bool_arr W 1 ob t;
       t = string_arr W 2 ob t;
       t = string_arr W 3 ob t;
       t = int32_arr W 4 ob t;
       t = string_arr W 5 ob t;
       t = string_arr W 6 ob t;
       t = bytes_arr W 7 ob t;
       t = uint32_arr W 8 ob t
     in unknown_arr W ob t)"

definition ChessBoardUser_MergeFrom :: "wire_lib \<Rightarrow> pb_obj \<Rightarrow> pb_obj \<Rightarrow> pb_obj" where
  "ChessBoardUser_MergeFrom W source ob =
    (let ob = when_any 255 source (\<lambda>ob.
         let ob = set_from 1 source ob;
           ob = set_from 2 source ob;
           ob = set_from 3 source ob;
           ob = set_from 4 source ob;
           ob = set_from 5 source ob;
           ob = set_from 6 source ob;
           ob = set_from 7 source ob;
           ob = set_from 8 source ob in ob) ob
     in unknown_from W source ob)"

definition ChessBoardUser_CopyFrom :: "wire_lib \<Rightarrow> pb_obj \<Rightarrow> pb_obj \<Rightarrow> pb_obj" where
  "ChessBoardUser_CopyFrom W source ob = ChessBoardUser_MergeFrom W source (ChessBoardUser_Clear ob)"

definition ChessBoardUser_IsInitialized :: "pb_obj \<Rightarrow> bool" where
  "ChessBoardUser_IsInitialized ob \<longleftrightarrow> required_set 1 ob"

definition ChessBoardUser_Swap :: "pb_obj \<times> pb_obj \<Rightarrow> pb_obj \<times> pb_obj" where
  "ChessBoardUser_Swap p =
    (let p = swap_val 1 p; p = swap_val 2 p; p = swap_val 3 p; p = swap_val 4 p; p = swap_val 5 p; p = swap_val 6 p; p = swap_val 7 p; p = swap_val 8 p; p = swap_bits p in swap_unknown p)"

subsection \<open>ReplyStatus\<close>

definition ReplyStatus_new :: pb_obj where
  "ReplyStatus_new = Obj 0 [V_num 0, V_ptr None, V_ptr None] []"

definition ReplyStatus_Clear :: "pb_obj \<Rightarrow> pb_obj" where
  "ReplyStatus_Clear ob =
    (let ob = when_any 255 ob (\<lambda>ob.
         let ob = zero_num 1 ob; ob = zero_message 2 ChessBoardUser_Clear ob; ob = zero_message 3 ImageVersion_Clear ob in ob) ob
     in clear_bits ob)"

definition ReplyStatus_MergePartial :: "wire_lib \<Rightarrow> merger" where
  "ReplyStatus_MergePartial W = merge_partial W
    [Case 1 WIRETYPE_VARINT (uint32_field W 1) [(18, 2)] False,
     Case 2 WIRETYPE_LENGTH_DELIMITED (message_field W 2 ChessBoardUser_new (ChessBoardUser_MergePartial W)) [(26, 3)] False,
     Case 3 WIRETYPE_LENGTH_DELIMITED (message_field W 3 ImageVersion_new (ImageVersion_MergePartial W)) [] True]"

definition ReplyStatus_ByteSize :: "wire_lib \<Rightarrow> pb_obj \<Rightarrow> nat" where
  "ReplyStatus_ByteSize W ob =
     grouped 255 ob (uint32_len W 1 1 ob +
       message_len W 1 2 ChessBoardUser_new (ChessBoardUser_ByteSize W) ob +
       message_len W 1 3 ImageVersion_new (ImageVersion_ByteSize W) ob) +
     unknown_len W ob"

definition ReplyStatus_Serialize :: "wire_lib \<Rightarrow> pb_obj \<Rightarrow> bytes" where
  "ReplyStatus_Serialize W ob =
     uint32_out W 1 ob @
     message_out W 2 ChessBoardUser_new (ChessBoardUser_ByteSize W) (ChessBoardUser_Serialize W) ob @
     message_out W 3 ImageVersion_new (ImageVersion_ByteSize W) (ImageVersion_Serialize W) ob @
     unknown_out W ob"

definition ReplyStatus_ToArray :: "wire_lib \<Rightarrow> pb_obj \<Rightarrow> bytes \<Rightarrow> bytes" where
  "ReplyStatus_ToArray W ob t =
    (let t = uint32_arr W 1 ob t;
       t = message_arr W 2 ChessBoardUser_new (ChessBoardUser_ByteSize W) (ChessBoardUser_ToArray W) ob t;
       t = message_arr W 3 ImageVersion_new (ImageVersion_ByteSize W) (ImageVersion_ToArray W) ob t
     in unknown_arr W ob t)"

definition ReplyStatus_MergeFrom :: "wire_lib \<Rightarrow> pb_obj \<Rightarrow> pb_obj \<Rightarrow> pb_obj" where
  "ReplyStatus_MergeFrom W source ob =
    (let ob = when_any 255 source (\<lambda>ob.
         let ob = set_from 1 source ob;
           ob = message_from 2 ChessBoardUser_new (ChessBoardUser_MergeFrom W) source ob;
           ob = message_from 3 ImageVersion_new (ImageVersion_MergeFrom W) source ob in ob) ob
     in unknown_from W source ob)"

definition ReplyStatus_CopyFrom :: "wire_lib \<Rightarrow> pb_obj \<Rightarrow> pb_obj \<Rightarrow> pb_obj" where
  "ReplyStatus_CopyFrom W source ob = ReplyStatus_MergeFrom W source (ReplyStatus_Clear ob)"

definition ReplyStatus_IsInitialized :: "pb_obj \<Rightarrow> bool" where
  "ReplyStatus_IsInitialized ob \<longleftrightarrow> required_set 1 ob \<and>
     message_init 2 ChessBoardUser_new ChessBoardUser_IsInitialized ob \<and>
     message_init 3 ImageVersion_new ImageVersion_IsInitialized ob"

definition ReplyStatus_Swap :: "pb_obj \<times> pb_obj \<Rightarrow> pb_obj \<times> pb_obj" where
  "ReplyStatus_Swap p =
    (let p = swap_val 1 p; p = swap_val 2 p; p = swap_val 3 p; p = swap_bits p in swap_unknown p)"

subsection \<open>Register\<close>

definition Register_new :: pb_obj where
  "Register_new = Obj 0 [V_str [], V_str [], V_str []] []"

definition Register_Clear :: "pb_obj \<Rightarrow> pb_obj" where
  "Register_Clear ob =
    (let ob = when_any 255 ob (\<lambda>ob.
         let ob = zero_str 1 ob; ob = zero_str 2 ob; ob = zero_str 3 ob in ob) ob
     in clear_bits ob)"

definition Register_MergePartial :: "wire_lib \<Rightarrow> merger" where
  "Register_MergePartial W = merge_partial W
    [Case 1 WIRETYPE_LENGTH_DELIMITED (string_field W 1) [(18, 2)] False,
     Case 2 WIRETYPE_LENGTH_DELIMITED (string_field W 2) [(26, 3)] False,
     Case 3 WIRETYPE_LENGTH_DELIMITED (string_field W 3) [] True]"

definition Register_ByteSize :: "wire_lib \<Rightarrow> pb_obj \<Rightarrow> nat" where
  "Register_ByteSize W ob =
     grouped 255 ob (string_len W 1 1 ob +
       string_len W 1 2 ob +
       string_len W 1 3 ob) +
     unknown_len W ob"

definition Register_Serialize :: "wire_lib \<Rightarrow> pb_obj \<Rightarrow> bytes" where
  "Register_Serialize W ob =
     string_out W 1 ob @
     string_out W 2 ob @
     string_out W 3 ob @
     unknown_out W ob"

definition Register_ToArray :: "wire_lib \<Rightarrow> pb_obj \<Rightarrow> bytes \<Rightarrow> bytes" where
  "Register_ToArray W ob t =
    (let t = string_arr W 1 ob t;
       t = string_arr W 2 ob t;
       t = string_arr W 3 ob t
     in unknown_arr W ob t)"

definition Register_MergeFrom :: "wire_lib \<Rightarrow> pb_obj \<Rightarrow> pb_obj \<Rightarrow> pb_obj" where
  "Register_MergeFrom W source ob =
    (let ob = when_any 255 source (\<lambda>ob.
         let ob = set_from 1 source ob;
           ob = set_from 2 source ob;
           ob = set_from 3 source ob in ob) ob
     in unknown_from W source ob)"

definition Register_CopyFrom :: "wire_lib \<Rightarrow> pb_obj \<Rightarrow> pb_obj \<Rightarrow> pb_obj" where
  "Register_CopyFrom W source ob = Register_MergeFrom W source (Register_Clear ob)"

definition Register_IsInitialized :: "pb_obj \<Rightarrow> bool" where
  "Register_IsInitialized ob \<longleftrightarrow> required_set 3 ob"

definition Register_Swap :: "pb_obj \<times> pb_obj \<Rightarrow> pb_obj \<times> pb_obj" where
  "Register_Swap p =
    (let p = swap_val 1 p; p = swap_val 2 p; p = swap_val 3 p; p = swap_bits p in swap_unknown p)"

subsection \<open>ChessBoardInfoReq\<close>

definition ChessBoardInfoReq_new :: pb_obj where
  "ChessBoardInfoReq_new = Obj 0 [V_num 0, V_num 0] []"

definition ChessBoardInfoReq_Clear :: "pb_obj \<Rightarrow> pb_obj" where
  "ChessBoardInfoReq_Clear ob =
    (let ob = when_any 255 ob (\<lambda>ob.
         let ob = zero_num 1 ob; ob = zero_num 2 ob in ob) ob
     in clear_bits ob)"

definition ChessBoardInfoReq_MergePartial :: "wire_lib \<Rightarrow> merger" where
  "ChessBoardInfoReq_MergePartial W = merge_partial W
    [Case 1 WIRETYPE_VARINT (int32_field W 1) [(16, 2)] False,
     Case 2 WIRETYPE_VARINT (int32_field W 2) [] True]"

definition ChessBoardInfoReq_ByteSize :: "wire_lib \<Rightarrow> pb_obj \<Rightarrow> nat" where
  "ChessBoardInfoReq_ByteSize W ob =
     grouped 255 ob (int32_len W 1 1 ob +
       int32_len W 1 2 ob) +
     unknown_len W ob"

definition ChessBoardInfoReq_Serialize :: "wire_lib \<Rightarrow> pb_obj \<Rightarrow> bytes" where
  "ChessBoardInfoReq_Serialize W ob =
     int32_out W 1 ob @
     int32_out W 2 ob @
     unknown_out W ob"

definition ChessBoardInfoReq_ToArray :: "wire_lib \<Rightarrow> pb_obj \<Rightarrow> bytes \<Rightarrow> bytes" where
  "ChessBoardInfoReq_ToArray W ob t =
    (let t = int32_arr W 1 ob t;
       t = int32_arr W 2 ob t
     in unknown_arr W ob t)"

definition ChessBoardInfoReq_MergeFrom :: "wire_lib \<Rightarrow> pb_obj \<Rightarrow> pb_obj \<Rightarrow> pb_obj" where
  "ChessBoardInfoReq_MergeFrom W source ob =
    (let ob = when_any 255 source (\<lambda>ob.
         let ob = set_from 1 source ob;
           ob = set_from 2 source ob in ob) ob
     in unknown_from W source ob)"

definition ChessBoardInfoReq_CopyFrom :: "wire_lib \<Rightarrow> pb_obj \<Rightarrow> pb_obj \<Rightarrow> pb_obj" where
  "ChessBoardInfoReq_CopyFrom W source ob = ChessBoardInfoReq_MergeFrom W source (ChessBoardInfoReq_Clear ob)"

definition ChessBoardInfoReq_IsInitialized :: "pb_obj \<Rightarrow> bool" where
  "ChessBoardInfoReq_IsInitialized ob \<longleftrightarrow> required_set 1 ob"

definition ChessBoardInfoReq_Swap :: "pb_obj \<times> pb_obj \<Rightarrow> pb_obj \<times> pb_obj" where
  "ChessBoardInfoReq_Swap p =
    (let p = swap_val 1 p; p = swap_val 2 p; p = swap_bits p in swap_unknown p)"

subsection \<open>ChessBoardInfo\<close>

definition ChessBoardInfo_new :: pb_obj where
  "ChessBoardInfo_new = Obj 0 [V_num 0, V_num 0, V_ptr None, V_ptr None, V_ptr None] []"

definition ChessBoardInfo_Clear :: "pb_obj \<Rightarrow> pb_obj" where
  "ChessBoardInfo_Clear ob =
    (let ob = when_any 255 ob (\<lambda>ob.
         let ob = zero_num 1 ob; ob = zero_num 2 ob; ob = zero_message 3 ChessBoardUser_Clear ob; ob = zero_message 4 ChessBoardUser_Clear ob; ob = zero_message 5 ChessBoardUser_Clear ob in ob) ob
     in clear_bits ob)"

definition ChessBoardInfo_MergePartial :: "wire_lib \<Rightarrow> merger" where
  "ChessBoardInfo_MergePartial W = merge_partial W
    [Case 1 WIRETYPE_VARINT (uint32_field W 1) [(16, 2)] False,
     Case 2 WIRETYPE_VARINT (uint32_field W 2) [(26, 3)] False,
     Case 3 WIRETYPE_LENGTH_DELIMITED (message_field W 3 ChessBoardUser_new (ChessBoardUser_MergePartial W)) [(34, 4)] False,
     Case 4 WIRETYPE_LENGTH_DELIMITED (message_field W 4 ChessBoardUser_new (ChessBoardUser_MergePartial W)) [(42, 5)] False,
     Case 5 WIRETYPE_LENGTH_DELIMITED (message_field W 5 ChessBoardUser_new (ChessBoardUser_MergePartial W)) [] True]"

definition ChessBoardInfo_ByteSize :: "wire_lib \<Rightarrow> pb_obj \<Rightarrow> nat" where
  "ChessBoardInfo_ByteSize W ob =
     grouped 255 ob (uint32_len W 1 1 ob +
       uint32_len W 1 2 ob +
       message_len W 1 3 ChessBoardUser_new (ChessBoardUser_ByteSize W) ob +
       message_len W 1 4 ChessBoardUser_new (ChessBoardUser_ByteSize W) ob +
       message_len W 1 5 ChessBoardUser_new (ChessBoardUser_ByteSize W) ob) +
     unknown_len W ob"

definition ChessBoardInfo_Serialize :: "wire_lib \<Rightarrow> pb_obj \<Rightarrow> bytes" where
  "ChessBoardInfo_Serialize W ob =
     uint32_out W 1 ob @
     uint32_out W 2 ob @
     message_out W 3 ChessBoardUser_new (ChessBoardUser_ByteSize W) (ChessBoardUser_Serialize W) ob @
     message_out W 4 ChessBoardUser_new (ChessBoardUser_ByteSize W) (ChessBoardUser_Serialize W) ob @
     message_out W 5 ChessBoardUser_new (ChessBoardUser_ByteSize W) (ChessBoardUser_Serialize W) ob @
     unknown_out W ob"

definition ChessBoardInfo_ToArray :: "wire_lib \<Rightarrow> pb_obj \<Rightarrow> bytes \<Rightarrow> bytes" where
  "ChessBoardInfo_ToArray W ob t =
    (let t = uint32_arr W 1 ob t;
       t = uint32_arr W 2 ob t;
       t = message_arr W 3 ChessBoardUser_new (ChessBoardUser_ByteSize W) (ChessBoardUser_ToArray W) ob t;
       t = message_arr W 4 ChessBoardUser_new (ChessBoardUser_ByteSize W) (ChessBoardUser_ToArray W) ob t;
       t = message_arr W 5 ChessBoardUser_new (ChessBoardUser_ByteSize W) (ChessBoardUser_ToArray W) ob t
     in unknown_arr W ob t)"

definition ChessBoardInfo_MergeFrom :: "wire_lib \<Rightarrow> pb_obj \<Rightarrow> pb_obj \<Rightarrow> pb_obj" where
  "ChessBoardInfo_MergeFrom W source ob =
    (let ob = when_any 255 source (\<lambda>ob.
         let ob = set_from 1 source ob;
           ob = set_from 2 source ob;
           ob = message_from 3 ChessBoardUser_new (ChessBoardUser_MergeFrom W) source ob;
           ob = message_from 4 ChessBoardUser_new (ChessBoardUser_MergeFrom W) source ob;
           ob = message_from 5 ChessBoardUser_new (ChessBoardUser_MergeFrom W) source ob in ob) ob
     in unknown_from W source ob)"

definition ChessBoardInfo_CopyFrom :: "wire_lib \<Rightarrow> pb_obj \<Rightarrow> pb_obj \<Rightarrow> pb_obj" where
  "ChessBoardInfo_CopyFrom W source ob = ChessBoardInfo_MergeFrom W source (ChessBoardInfo_Clear ob)"

definition ChessBoardInfo_IsInitialized :: "pb_obj \<Rightarrow> bool" where
  "ChessBoardInfo_IsInitialized ob \<longleftrightarrow> required_set 31 ob \<and>
     message_init 3 ChessBoardUser_new ChessBoardUser_IsInitialized ob \<and>
     message_init 4 ChessBoardUser_new ChessBoardUser_IsInitialized ob \<and>
     message_init 5 ChessBoardUser_new ChessBoardUser_IsInitialized ob"

definition ChessBoardInfo_Swap :: "pb_obj \<times> pb_obj \<Rightarrow> pb_obj \<times> pb_obj" where
  "ChessBoardInfo_Swap p =
    (let p = swap_val 1 p; p = swap_val 2 p; p = swap_val 3 p; p = swap_val 4 p; p = swap_val 5 p; p = swap_bits p in swap_unknown p)"

subsection \<open>HallInfoReq\<close>

definition HallInfoReq_new :: pb_obj where
  "HallInfoReq_new = Obj 0 [V_num 0, V_num 0] []"

definition HallInfoReq_Clear :: "pb_obj \<Rightarrow> pb_obj" where
  "HallInfoReq_Clear ob =
    (let ob = when_any 255 ob (\<lambda>ob.
         let ob = zero_num 1 ob; ob = zero_num 2 ob in ob) ob
     in clear_bits ob)"

definition HallInfoReq_MergePartial :: "wire_lib \<Rightarrow> merger" where
  "HallInfoReq_MergePartial W = merge_partial W
    [Case 1 WIRETYPE_VARINT (int32_field W 1) [(16, 2)] False,
     Case 2 WIRETYPE_VARINT (int32_field W 2) [] True]"

definition HallInfoReq_ByteSize :: "wire_lib \<Rightarrow> pb_obj \<Rightarrow> nat" where
  "HallInfoReq_ByteSize W ob =
     grouped 255 ob (int32_len W 1 1 ob +
       int32_len W 1 2 ob) +
     unknown_len W ob"

definition HallInfoReq_Serialize :: "wire_lib \<Rightarrow> pb_obj \<Rightarrow> bytes" where
  "HallInfoReq_Serialize W ob =
     int32_out W 1 ob @
     int32_out W 2 ob @
     unknown_out W ob"

definition HallInfoReq_ToArray :: "wire_lib \<Rightarrow> pb_obj \<Rightarrow> bytes \<Rightarrow> bytes" where
  "HallInfoReq_ToArray W ob t =
    (let t = int32_arr W 1 ob t;
       t = int32_arr W 2 ob t
     in unknown_arr W ob t)"

definition HallInfoReq_MergeFrom :: "wire_lib \<Rightarrow> pb_obj \<Rightarrow> pb_obj \<Rightarrow> pb_obj" where
  "HallInfoReq_MergeFrom W source ob =
    (let ob = when_any 255 source (\<lambda>ob.
         let ob = set_from 1 source ob;
           ob = set_from 2 source ob in ob) ob
     in unknown_from W source ob)"

definition HallInfoReq_CopyFrom :: "wire_lib \<Rightarrow> pb_obj \<Rightarrow> pb_obj \<Rightarrow> pb_obj" where
  "HallInfoReq_CopyFrom W source ob = HallInfoReq_MergeFrom W source (HallInfoReq_Clear ob)"

definition HallInfoReq_IsInitialized :: "pb_obj \<Rightarrow> bool" where
  "HallInfoReq_IsInitialized ob \<longleftrightarrow> required_set 1 ob"

definition HallInfoReq_Swap :: "pb_obj \<times> pb_obj \<Rightarrow> pb_obj \<times> pb_obj" where
  "HallInfoReq_Swap p =
    (let p = swap_val 1 p; p = swap_val 2 p; p = swap_bits p in swap_unknown p)"

subsection \<open>HallInfo\<close>

definition HallInfo_new :: pb_obj where
  "HallInfo_new = Obj 0 [V_num 0, V_num 0, V_num 0, V_num 0, V_rep []] []"

definition HallInfo_Clear :: "pb_obj \<Rightarrow> pb_obj" where
  "HallInfo_Clear ob =
    (let ob = when_any 255 ob (\<lambda>ob.
         let ob = zero_num 1 ob; ob = zero_num 2 ob; ob = zero_num 3 ob; ob = zero_num 4 ob in ob) ob;
       ob = zero_rep 5 ob
     in clear_bits ob)"

definition HallInfo_MergePartial :: "wire_lib \<Rightarrow> merger" where
  "HallInfo_MergePartial W = merge_partial W
    [Case 1 WIRETYPE_VARINT (int32_field W 1) [(16, 2)] False,
     Case 2 WIRETYPE_VARINT (uint32_field W 2) [(24, 3)] False,
     Case 3 WIRETYPE_VARINT (uint32_field W 3) [(32, 4)] False,
     Case 4 WIRETYPE_VARINT (uint32_field W 4) [(42, 5)] False,
     Case 5 WIRETYPE_LENGTH_DELIMITED (add_message_field W 5 ChessBoardInfo_new (ChessBoardInfo_MergePartial W)) [(42, 5)] True]"

definition HallInfo_ByteSize :: "wire_lib \<Rightarrow> pb_obj \<Rightarrow> nat" where
  "HallInfo_ByteSize W ob =
     grouped 255 ob (int32_len W 1 1 ob +
       uint32_len W 1 2 ob +
       uint32_len W 1 3 ob +
       uint32_len W 1 4 ob) +
     messages_len W 1 5 (ChessBoardInfo_ByteSize W) ob +
     unknown_len W ob"

definition HallInfo_Serialize :: "wire_lib \<Rightarrow> pb_obj \<Rightarrow> bytes" where
  "HallInfo_Serialize W ob =
     int32_out W 1 ob @
     uint32_out W 2 ob @
     uint32_out W 3 ob @
     uint32_out W 4 ob @
     messages_out W 5 (ChessBoardInfo_ByteSize W) (ChessBoardInfo_Serialize W) ob @
     unknown_out W ob"

definition HallInfo_ToArray :: "wire_lib \<Rightarrow> pb_obj \<Rightarrow> bytes \<Rightarrow> bytes" where
  "HallInfo_ToArray W ob t =
    (let t = int32_arr W 1 ob t;
       t = uint32_arr W 2 ob t;
       t = uint32_arr W 3 ob t;
       t = uint32_arr W 4 ob t;
       t = messages_arr W 5 (ChessBoardInfo_ByteSize W) (ChessBoardInfo_ToArray W) ob t
     in unknown_arr W ob t)"

definition HallInfo_MergeFrom :: "wire_lib \<Rightarrow> pb_obj \<Rightarrow> pb_obj \<Rightarrow> pb_obj" where
  "HallInfo_MergeFrom W source ob =
    (let ob = messages_from 5 ChessBoardInfo_new (ChessBoardInfo_MergeFrom W) source ob;
       ob = when_any 255 source (\<lambda>ob.
         let ob = set_from 1 source ob;
           ob = set_from 2 source ob;
           ob = set_from 3 source ob;
           ob = set_from 4 source ob in ob) ob
     in unknown_from W source ob)"

definition HallInfo_CopyFrom :: "wire_lib \<Rightarrow> pb_obj \<Rightarrow> pb_obj \<Rightarrow> pb_obj" where
  "HallInfo_CopyFrom W source ob = HallInfo_MergeFrom W source (HallInfo_Clear ob)"

definition HallInfo_IsInitialized :: "pb_obj \<Rightarrow> bool" where
  "HallInfo_IsInitialized ob \<longleftrightarrow> required_set 7 ob \<and>
     messages_init 5 ChessBoardInfo_IsInitialized ob"

definition HallInfo_Swap :: "pb_obj \<times> pb_obj \<Rightarrow> pb_obj \<times> pb_obj" where
  "HallInfo_Swap p =
    (let p = swap_val 1 p; p = swap_val 2 p; p = swap_val 3 p; p = swap_val 4 p; p = swap_val 5 p; p = swap_bits p in swap_unknown p)"

subsection \<open>GameHallSumaryReq\<close>

definition GameHallSumaryReq_new :: pb_obj where
  "GameHallSumaryReq_new = Obj 0 [V_num 0] []"

definition GameHallSumaryReq_Clear :: "pb_obj \<Rightarrow> pb_obj" where
  "GameHallSumaryReq_Clear ob =
    (let ob = when_any 255 ob (\<lambda>ob.
         let ob = zero_num 1 ob in ob) ob
     in clear_bits ob)"

definition GameHallSumaryReq_MergePartial :: "wire_lib \<Rightarrow> merger" where
  "GameHallSumaryReq_MergePartial W = merge_partial W
    [Case 1 WIRETYPE_VARINT (int32_field W 1) [] True]"

definition GameHallSumaryReq_ByteSize :: "wire_lib \<Rightarrow> pb_obj \<Rightarrow> nat" where
  "GameHallSumaryReq_ByteSize W ob =
     grouped 255 ob (int32_len W 1 1 ob) +
     unknown_len W ob"

definition GameHallSumaryReq_Serialize :: "wire_lib \<Rightarrow> pb_obj \<Rightarrow> bytes" where
  "GameHallSumaryReq_Serialize W ob =
     int32_out W 1 ob @
     unknown_out W ob"

definition GameHallSumaryReq_ToArray :: "wire_lib \<Rightarrow> pb_obj \<Rightarrow> bytes \<Rightarrow> bytes" where
  "GameHallSumaryReq_ToArray W ob t =
    (let t = int32_arr W 1 ob t
     in unknown_arr W ob t)"

definition GameHallSumaryReq_MergeFrom :: "wire_lib \<Rightarrow> pb_obj \<Rightarrow> pb_obj \<Rightarrow> pb_obj" where
  "GameHallSumaryReq_MergeFrom W source ob =
    (let ob = when_any 255 source (\<lambda>ob.
         let ob = set_from 1 source ob in ob) ob
     in unknown_from W source ob)"

definition GameHallSumaryReq_CopyFrom :: "wire_lib \<Rightarrow> pb_obj \<Rightarrow> pb_obj \<Rightarrow> pb_obj" where
  "GameHallSumaryReq_CopyFrom W source ob = GameHallSumaryReq_MergeFrom W source (GameHallSumaryReq_Clear ob)"

definition GameHallSumaryReq_IsInitialized :: "pb_obj \<Rightarrow> bool" where
  "GameHallSumaryReq_IsInitialized ob \<longleftrightarrow> True"

definition GameHallSumaryReq_Swap :: "pb_obj \<times> pb_obj \<Rightarrow> pb_obj \<times> pb_obj" where
  "GameHallSumaryReq_Swap p =
    (let p = swap_val 1 p; p = swap_bits p in swap_unknown p)"

subsection \<open>GameHallSumary\<close>

definition GameHallSumary_new :: pb_obj where
  "GameHallSumary_new = Obj 0 [V_str [], V_str [], V_num 0, V_num 0, V_str [], V_str [], V_str [], V_rep []] []"

definition GameHallSumary_Clear :: "pb_obj \<Rightarrow> pb_obj" where
  "GameHallSumary_Clear ob =
    (let ob = when_any 255 ob (\<lambda>ob.
         let ob = zero_str 1 ob; ob = zero_str 2 ob; ob = zero_num 3 ob; ob = zero_num 4 ob; ob = zero_str 5 ob; ob = zero_str 6 ob; ob = zero_str 7 ob in ob) ob;
       ob = zero_rep 8 ob
     in clear_bits ob)"

definition GameHallSumary_MergePartial :: "wire_lib \<Rightarrow> merger" where
  "GameHallSumary_MergePartial W = merge_partial W
    [Case 1 WIRETYPE_LENGTH_DELIMITED (string_field W 1) [(18, 2)] False,
     Case 2 WIRETYPE_LENGTH_DELIMITED (string_field W 2) [(24, 3)] False,
     Case 3 WIRETYPE_VARINT (int32_field W 3) [(32, 4)] False,
     Case 4 WIRETYPE_VARINT (uint32_field W 4) [(42, 5)] False,
     Case 5 WIRETYPE_LENGTH_DELIMITED (string_field W 5) [(50, 6)] False,
     Case 6 WIRETYPE_LENGTH_DELIMITED (string_field W 6) [(58, 7)] False,
     Case 7 WIRETYPE_LENGTH_DELIMITED (string_field W 7) [(66, 8)] False,
     Case 8 WIRETYPE_LENGTH_DELIMITED (add_message_field W 8 HallInfo_new (HallInfo_MergePartial W)) [(66, 8)] True]"

definition GameHallSumary_ByteSize :: "wire_lib \<Rightarrow> pb_obj \<Rightarrow> nat" where
  "GameHallSumary_ByteSize W ob =
     grouped 255 ob (string_len W 1 1 ob +
       string_len W 1 2 ob +
       int32_len W 1 3 ob +
       uint32_len W 1 4 ob +
       string_len W 1 5 ob +
       string_len W 1 6 ob +
       string_len W 1 7 ob) +
     messages_len W 1 8 (HallInfo_ByteSize W) ob +
     unknown_len W ob"

definition GameHallSumary_Serialize :: "wire_lib \<Rightarrow> pb_obj \<Rightarrow> bytes" where
  "GameHallSumary_Serialize W ob =
     string_out W 1 ob @
     string_out W 2 ob @
     int32_out W 3 ob @
     uint32_out W 4 ob @
     string_out W 5 ob @
     string_out W 6 ob @
     string_out W 7 ob @
     messages_out W 8 (HallInfo_ByteSize W) (HallInfo_Serialize W) ob @
     unknown_out W ob"

definition GameHallSumary_ToArray :: "wire_lib \<Rightarrow> pb_obj \<Rightarrow> bytes \<Rightarrow> bytes" where
  "GameHallSumary_ToArray W ob t =
    (let t = string_arr W 1 ob t;
       t = string_arr W 2 ob t;
       t = int32_arr W 3 ob t;
       t = uint32_arr W 4 ob t;
       t = string_arr W 5 ob t;
       t = string_arr W 6 ob t;
       t = string_arr W 7 ob t;
       t = messages_arr W 8 (HallInfo_ByteSize W) (HallInfo_ToArray W) ob t
     in unknown_arr W ob t)"

definition GameHallSumary_MergeFrom :: "wire_lib \<Rightarrow> pb_obj \<Rightarrow> pb_obj \<Rightarrow> pb_obj" where
  "GameHallSumary_MergeFrom W source ob =
    (let ob = messages_from 8 HallInfo_new (HallInfo_MergeFrom W) source ob;
       ob = when_any 255 source (\<lambda>ob.
         let ob = set_from 1 source ob;
           ob = set_from 2 source ob;
           ob = set_from 3 source ob;
           ob = set_from 4 source ob;
           ob = set_from 5 source ob;
           ob = set_from 6 source ob;
           ob = set_from 7 source ob in ob) ob
     in unknown_from W source ob)"

definition GameHallSumary_CopyFrom :: "wire_lib \<Rightarrow> pb_obj \<Rightarrow> pb_obj \<Rightarrow> pb_obj" where
  "GameHallSumary_CopyFrom W source ob = GameHallSumary_MergeFrom W source (GameHallSumary_Clear ob)"

definition GameHallSumary_IsInitialized :: "pb_obj \<Rightarrow> bool" where
  "GameHallSumary_IsInitialized ob \<longleftrightarrow> required_set 63 ob \<and>
     messages_init 8 HallInfo_IsInitialized ob"

definition GameHallSumary_Swap :: "pb_obj \<times> pb_obj \<Rightarrow> pb_obj \<times> pb_obj" where
  "GameHallSumary_Swap p =
    (let p = swap_val 1 p; p = swap_val 2 p; p = swap_val 3 p; p = swap_val 4 p; p = swap_val 5 p; p = swap_val 6 p; p = swap_val 7 p; p = swap_val 8 p; p = swap_bits p in swap_unknown p)"

end
