(* ===== verification/Pb_Messages2.thy ===== *)
theory Pb_Messages2
  imports Pb_Messages
begin

text \<open>
  The generated classes of message.pb.cpp, second part: the game, accounts and advertisements.
  For each message the default object (\<open>SharedCtor\<close>), \<open>Clear\<close>, \<open>MergePartialFromCodedStream\<close>,
  \<open>ByteSize\<close>, the two serializers, \<open>MergeFrom\<close>, \<open>CopyFrom\<close> between different objects, \<open>IsInitialized\<close>
  and \<open>Swap\<close> of different objects. A message comes after those it contains; its fields are numbered
  from 1 without gaps.
\<close>

subsection \<open>RequestPlay\<close>

definition RequestPlay_new :: pb_obj where
  "RequestPlay_new = Obj 0 [V_num 0, V_num 0, V_num 0] []"

definition RequestPlay_Clear :: "pb_obj \<Rightarrow> pb_obj" where
  "RequestPlay_Clear ob =
    (let ob = when_any 255 ob (\<lambda>ob.
         let ob = zero_num 1 ob; ob = zero_num 2 ob; ob = zero_num 3 ob in ob) ob
     in clear_bits ob)"

definition RequestPlay_MergePartial :: "wire_lib \<Rightarrow> merger" where
  "RequestPlay_MergePartial W = merge_partial W
    [Case 1 WIRETYPE_VARINT (int32_field W 1) [(16, 2)] False,
     Case 2 WIRETYPE_VARINT (int32_field W 2) [(24, 3)] False,
     Case 3 WIRETYPE_VARINT (int32_field W 3) [] True]"

definition RequestPlay_ByteSize :: "wire_lib \<Rightarrow> pb_obj \<Rightarrow> nat" where
  "RequestPlay_ByteSize W ob =
     grouped 255 ob (int32_len W 1 1 ob +
       int32_len W 1 2 ob +
       int32_len W 1 3 ob) +
     unknown_len W ob"

definition RequestPlay_Serialize :: "wire_lib \<Rightarrow> pb_obj \<Rightarrow> bytes" where
  "RequestPlay_Serialize W ob =
     int32_out W 1 ob @
     int32_out W 2 ob @
     int32_out W 3 ob @
     unknown_out W ob"

definition RequestPlay_ToArray :: "wire_lib \<Rightarrow> pb_obj \<Rightarrow> bytes \<Rightarrow> bytes" where
  "RequestPlay_ToArray W ob t =
    (let t = int32_arr W 1 ob t;
       t = int32_arr W 2 ob t;
       t = int32_arr W 3 ob t
     in unknown_arr W ob t)"

definition RequestPlay_MergeFrom :: "wire_lib \<Rightarrow> pb_obj \<Rightarrow> pb_obj \<Rightarrow> pb_obj" where
  "RequestPlay_MergeFrom W source ob =
    (let ob = when_any 255 source (\<lambda>ob.
         let ob = set_from 1 source ob;
           ob = set_from 2 source ob;
           ob = set_from 3 source ob in ob) ob
     in unknown_from W source ob)"

definition RequestPlay_CopyFrom :: "wire_lib \<Rightarrow> pb_obj \<Rightarrow> pb_obj \<Rightarrow> pb_obj" where
  "RequestPlay_CopyFrom W source ob = RequestPlay_MergeFrom W source (RequestPlay_Clear ob)"

definition RequestPlay_IsInitialized :: "pb_obj \<Rightarrow> bool" where
  "RequestPlay_IsInitialized ob \<longleftrightarrow> required_set 7 ob"

definition RequestPlay_Swap :: "pb_obj \<times> pb_obj \<Rightarrow> pb_obj \<times> pb_obj" where
  "RequestPlay_Swap p =
    (let p = swap_val 1 p; p = swap_val 2 p; p = swap_val 3 p; p = swap_bits p in swap_unknown p)"

subsection \<open>RequestPlayReply\<close>

definition RequestPlayReply_new :: pb_obj where
  "RequestPlayReply_new = Obj 0 [V_num 0, V_num 0, V_ptr None] []"

definition RequestPlayReply_Clear :: "pb_obj \<Rightarrow> pb_obj" where
  "RequestPlayReply_Clear ob =
    (let ob = when_any 255 ob (\<lambda>ob.
         let ob = zero_num 1 ob; ob = zero_num 2 ob; ob = zero_message 3 ChessBoardInfo_Clear ob in ob) ob
     in clear_bits ob)"

definition RequestPlayReply_MergePartial :: "wire_lib \<Rightarrow> merger" where
  "RequestPlayReply_MergePartial W = merge_partial W
    [Case 1 WIRETYPE_VARINT (int32_field W 1) [(16, 2)] False,
     Case 2 WIRETYPE_VARINT (uint32_field W 2) [(26, 3)] False,
     Case 3 WIRETYPE_LENGTH_DELIMITED (message_field W 3 ChessBoardInfo_new (ChessBoardInfo_MergePartial W)) [] True]"

definition RequestPlayReply_ByteSize :: "wire_lib \<Rightarrow> pb_obj \<Rightarrow> nat" where
  "RequestPlayReply_ByteSize W ob =
     grouped 255 ob (int32_len W 1 1 ob +
       uint32_len W 1 2 ob +
       message_len W 1 3 ChessBoardInfo_new (ChessBoardInfo_ByteSize W) ob) +
     unknown_len W ob"

definition RequestPlayReply_Serialize :: "wire_lib \<Rightarrow> pb_obj \<Rightarrow> bytes" where
  "RequestPlayReply_Serialize W ob =
     int32_out W 1 ob @
     uint32_out W 2 ob @
     message_out W 3 ChessBoardInfo_new (ChessBoardInfo_ByteSize W) (ChessBoardInfo_Serialize W) ob @
     unknown_out W ob"

definition RequestPlayReply_ToArray :: "wire_lib \<Rightarrow> pb_obj \<Rightarrow> bytes \<Rightarrow> bytes" where
  "RequestPlayReply_ToArray W ob t =
    (let t = int32_arr W 1 ob t;
       t = uint32_arr W 2 ob t;
       t = message_arr W 3 ChessBoardInfo_new (ChessBoardInfo_ByteSize W) (ChessBoardInfo_ToArray W) ob t
     in unknown_arr W ob t)"

definition RequestPlayReply_MergeFrom :: "wire_lib \<Rightarrow> pb_obj \<Rightarrow> pb_obj \<Rightarrow> pb_obj" where
  "RequestPlayReply_MergeFrom W source ob =
    (let ob = when_any 255 source (\<lambda>ob.
         let ob = set_from 1 source ob;
           ob = set_from 2 source ob;
           ob = message_from 3 ChessBoardInfo_new (ChessBoardInfo_MergeFrom W) source ob in ob) ob
     in unknown_from W source ob)"

definition RequestPlayReply_CopyFrom :: "wire_lib \<Rightarrow> pb_obj \<Rightarrow> pb_obj \<Rightarrow> pb_obj" where
  "RequestPlayReply_CopyFrom W source ob = RequestPlayReply_MergeFrom W source (RequestPlayReply_Clear ob)"

definition RequestPlayReply_IsInitialized :: "pb_obj \<Rightarrow> bool" where
  "RequestPlayReply_IsInitialized ob \<longleftrightarrow> required_set 3 ob \<and>
     message_init 3 ChessBoardInfo_new ChessBoardInfo_IsInitialized ob"

definition RequestPlayReply_Swap :: "pb_obj \<times> pb_obj \<Rightarrow> pb_obj \<times> pb_obj" where
  "RequestPlayReply_Swap p =
    (let p = swap_val 1 p; p = swap_val 2 p; p = swap_val 3 p; p = swap_bits p in swap_unknown p)"

subsection \<open>MoveChess\<close>

definition MoveChess_new :: pb_obj where
  "MoveChess_new = Obj 0 [V_num 0, V_num 0, V_num 0, V_num 0, V_num 0, V_num 0, V_bool False, V_num 0, V_num 0] []"

definition MoveChess_Clear :: "pb_obj \<Rightarrow> pb_obj" where
  "MoveChess_Clear ob =
    (let ob = when_any 255 ob (\<lambda>ob.
         let ob = zero_num 1 ob; ob = zero_num 2 ob; ob = zero_num 3 ob; ob = zero_num 4 ob; ob = zero_num 5 ob; ob = zero_num 6 ob; ob = zero_bool 7 ob; ob = zero_num 8 ob in ob) ob;
       ob = when_any 65280 ob (\<lambda>ob.
         let ob = zero_num 9 ob in ob) ob
     in clear_bits ob)"

definition MoveChess_MergePartial :: "wire_lib \<Rightarrow> merger" where
  "MoveChess_MergePartial W = merge_partial W
    [Case 1 WIRETYPE_VARINT (int32_field W 1) [(16, 2)] False,
     Case 2 WIRETYPE_VARINT (int32_field W 2) [(24, 3)] False,
     Case 3 WIRETYPE_VARINT (int32_field W 3) [(32, 4)] False,
     Case 4 WIRETYPE_VARINT (int32_field W 4) [(40, 5)] False,
     Case 5 WIRETYPE_VARINT (int32_field W 5) [(48, 6)] False,
     Case 6 WIRETYPE_VARINT (int32_field W 6) [(56, 7)] False,
     Case 7 WIRETYPE_VARINT (bool_field W 7) [(64, 8)] False,
     Case 8 WIRETYPE_VARINT (int32_field W 8) [(72, 9)] False,
     Case 9 WIRETYPE_VARINT (uint32_field W 9) [] True]"

definition MoveChess_ByteSize :: "wire_lib \<Rightarrow> pb_obj \<Rightarrow> nat" where
  "MoveChess_ByteSize W ob =
     grouped 255 ob (int32_len W 1 1 ob +
       int32_len W 1 2 ob +
       int32_len W 1 3 ob +
       int32_len W 1 4 ob +
       int32_len W 1 5 ob +
       int32_len W 1 6 ob +
       bool_len 1 1 7 ob +
       int32_len W 1 8 ob) +
     grouped 65280 ob (uint32_len W 1 9 ob) +
     unknown_len W ob"

definition MoveChess_Serialize :: "wire_lib \<Rightarrow> pb_obj \<Rightarrow> bytes" where
  "MoveChess_Serialize W ob =
     int32_out W 1 ob @
     int32_out W 2 ob @
     int32_out W 3 ob @
     int32_out W 4 ob @
     int32_out W 5 ob @
     int32_out W 6 ob @
     bool_out W 7 ob @
     int32_out W 8 ob @
     uint32_out W 9 ob @
     unknown_out W ob"

definition MoveChess_ToArray :: "wire_lib \<Rightarrow> pb_obj \<Rightarrow> bytes \<Rightarrow> bytes" where
  "MoveChess_ToArray W ob t =
    (let t = int32_arr W 1 ob t;
       t = int32_arr W 2 ob t;
       t = int32_arr W 3 ob t;
       t = int32_arr W 4 ob t;
       t = int32_arr W 5 ob t;
       t = int32_arr W 6 ob t;
       t = bool_arr W 7 ob t;
       t = int32_arr W 8 ob t;
       t = uint32_arr W 9 ob t
     in unknown_arr W ob t)"

definition MoveChess_MergeFrom :: "wire_lib \<Rightarrow> pb_obj \<Rightarrow> pb_obj \<Rightarrow> pb_obj" where
  "MoveChess_MergeFrom W source ob =
    (let ob = when_any 255 source (\<lambda>ob.
         let ob = set_from 1 source ob;
           ob = set_from 2 source ob;
           ob = set_from 3 source ob;
           ob = set_from 4 source ob;
           ob = set_from 5 source ob;
           ob = set_from 6 source ob;
           ob = set_from 7 source ob;
           ob = set_from 8 source ob in ob) ob;
       ob = when_any 65280 source (\<lambda>ob.
         let ob = set_from 9 source ob in ob) ob
     in unknown_from W source ob)"

definition MoveChess_CopyFrom :: "wire_lib \<Rightarrow> pb_obj \<Rightarrow> pb_obj \<Rightarrow> pb_obj" where
  "MoveChess_CopyFrom W source ob = MoveChess_MergeFrom W source (MoveChess_Clear ob)"

definition MoveChess_IsInitialized :: "pb_obj \<Rightarrow> bool" where
  "MoveChess_IsInitialized ob \<longleftrightarrow> required_set 127 ob"

definition MoveChess_Swap :: "pb_obj \<times> pb_obj \<Rightarrow> pb_obj \<times> pb_obj" where
  "MoveChess_Swap p =
    (let p = swap_val 1 p; p = swap_val 2 p; p = swap_val 3 p; p = swap_val 4 p; p = swap_val 5 p; p = swap_val 6 p; p = swap_val 7 p; p = swap_val 8 p; p = swap_val 9 p; p = swap_bits p in swap_unknown p)"

subsection \<open>MoveAction\<close>

definition MoveAction_new :: pb_obj where
  "MoveAction_new = Obj 0 [V_num 0, V_ptr None, V_num 0] []"

definition MoveAction_Clear :: "pb_obj \<Rightarrow> pb_obj" where
  "MoveAction_Clear ob =
    (let ob = when_any 255 ob (\<lambda>ob.
         let ob = zero_num 1 ob; ob = zero_message 2 MoveChess_Clear ob; ob = zero_num 3 ob in ob) ob
     in clear_bits ob)"

definition MoveAction_MergePartial :: "wire_lib \<Rightarrow> merger" where
  "MoveAction_MergePartial W = merge_partial W
    [Case 1 WIRETYPE_VARINT (uint32_field W 1) [(18, 2)] False,
     Case 2 WIRETYPE_LENGTH_DELIMITED (message_field W 2 MoveChess_new (MoveChess_MergePartial W)) [(24, 3)] False,
     Case 3 WIRETYPE_VARINT (uint32_field W 3) [] True]"

definition MoveAction_ByteSize :: "wire_lib \<Rightarrow> pb_obj \<Rightarrow> nat" where
  "MoveAction_ByteSize W ob =
     grouped 255 ob (uint32_len W 1 1 ob +
       message_len W 1 2 MoveChess_new (MoveChess_ByteSize W) ob +
       uint32_len W 1 3 ob) +
     unknown_len W ob"

definition MoveAction_Serialize :: "wire_lib \<Rightarrow> pb_obj \<Rightarrow> bytes" where
  "MoveAction_Serialize W ob =
     uint32_out W 1 ob @
     message_out W 2 MoveChess_new (MoveChess_ByteSize W) (MoveChess_Serialize W) ob @
     uint32_out W 3 ob @
     unknown_out W ob"

definition MoveAction_ToArray :: "wire_lib \<Rightarrow> pb_obj \<Rightarrow> bytes \<Rightarrow> bytes" where
  "MoveAction_ToArray W ob t =
    (let t = uint32_arr W 1 ob t;
       t = message_arr W 2 MoveChess_new (MoveChess_ByteSize W) (MoveChess_ToArray W) ob t;
       t = uint32_arr W 3 ob t
     in unknown_arr W ob t)"

definition MoveAction_MergeFrom :: "wire_lib \<Rightarrow> pb_obj \<Rightarrow> pb_obj \<Rightarrow> pb_obj" where
  "MoveAction_MergeFrom W source ob =
    (let ob = when_any 255 source (\<lambda>ob.
         let ob = set_from 1 source ob;
           ob = message_from 2 MoveChess_new (MoveChess_MergeFrom W) source ob;
           ob = set_from 3 source ob in ob) ob
     in unknown_from W source ob)"

definition MoveAction_CopyFrom :: "wire_lib \<Rightarrow> pb_obj \<Rightarrow> pb_obj \<Rightarrow> pb_obj" where
  "MoveAction_CopyFrom W source ob = MoveAction_MergeFrom W source (MoveAction_Clear ob)"

definition MoveAction_IsInitialized :: "pb_obj \<Rightarrow> bool" where
  "MoveAction_IsInitialized ob \<longleftrightarrow> required_set 7 ob \<and>
     message_init 2 MoveChess_new MoveChess_IsInitialized ob"

definition MoveAction_Swap :: "pb_obj \<times> pb_obj \<Rightarrow> pb_obj \<times> pb_obj" where
  "MoveAction_Swap p =
    (let p = swap_val 1 p; p = swap_val 2 p; p = swap_val 3 p; p = swap_bits p in swap_unknown p)"

subsection \<open>UserMessage\<close>

definition UserMessage_new :: pb_obj where
  "UserMessage_new = Obj 0 [V_num 0, V_str []] []"

definition UserMessage_Clear :: "pb_obj \<Rightarrow> pb_obj" where
  "UserMessage_Clear ob =
    (let ob = when_any 255 ob (\<lambda>ob.
         let ob = zero_num 1 ob; ob = zero_str 2 ob in ob) ob
     in clear_bits ob)"

definition UserMessage_MergePartial :: "wire_lib \<Rightarrow> merger" where
  "UserMessage_MergePartial W = merge_partial W
    [Case 1 WIRETYPE_VARINT (uint32_field W 1) [(18, 2)] False,
     Case 2 WIRETYPE_LENGTH_DELIMITED (string_field W 2) [] True]"

definition UserMessage_ByteSize :: "wire_lib \<Rightarrow> pb_obj \<Rightarrow> nat" where
  "UserMessage_ByteSize W ob =
     grouped 255 ob (uint32_len W 1 1 ob +
       string_len W 1 2 ob) +
     unknown_len W ob"

definition UserMessage_Serialize :: "wire_lib \<Rightarrow> pb_obj \<Rightarrow> bytes" where
  "UserMessage_Serialize W ob =
     uint32_out W 1 ob @
     string_out W 2 ob @
     unknown_out W ob"

definition UserMessage_ToArray :: "wire_lib \<Rightarrow> pb_obj \<Rightarrow> bytes \<Rightarrow> bytes" where
  "UserMessage_ToArray W ob t =
    (let t = uint32_arr W 1 ob t;
       t = string_arr W 2 ob t
     in unknown_arr W ob t)"

definition UserMessage_MergeFrom :: "wire_lib \<Rightarrow> pb_obj \<Rightarrow> pb_obj \<Rightarrow> pb_obj" where
  "UserMessage_MergeFrom W source ob =
    (let ob = when_any 255 source (\<lambda>ob.
         let ob = set_from 1 source ob;
           ob = set_from 2 source ob in ob) ob
     in unknown_from W source ob)"

definition UserMessage_CopyFrom :: "wire_lib \<Rightarrow> pb_obj \<Rightarrow> pb_obj \<Rightarrow> pb_obj" where
  "UserMessage_CopyFrom W source ob = UserMessage_MergeFrom W source (UserMessage_Clear ob)"

definition UserMessage_IsInitialized :: "pb_obj \<Rightarrow> bool" where
  "UserMessage_IsInitialized ob \<longleftrightarrow> required_set 3 ob"

definition UserMessage_Swap :: "pb_obj \<times> pb_obj \<Rightarrow> pb_obj \<times> pb_obj" where
  "UserMessage_Swap p =
    (let p = swap_val 1 p; p = swap_val 2 p; p = swap_bits p in swap_unknown p)"

subsection \<open>SystemMessage\<close>

definition SystemMessage_new :: pb_obj where
  "SystemMessage_new = Obj 0 [V_str []] []"

definition SystemMessage_Clear :: "pb_obj \<Rightarrow> pb_obj" where
  "SystemMessage_Clear ob =
    (let ob = when_any 255 ob (\<lambda>ob.
         let ob = zero_str 1 ob in ob) ob
     in clear_bits ob)"

definition SystemMessage_MergePartial :: "wire_lib \<Rightarrow> merger" where
  "SystemMessage_MergePartial W = merge_partial W
    [Case 1 WIRETYPE_LENGTH_DELIMITED (string_field W 1) [] True]"

definition SystemMessage_ByteSize :: "wire_lib \<Rightarrow> pb_obj \<Rightarrow> nat" where
  "SystemMessage_ByteSize W ob =
     grouped 255 ob (string_len W 1 1 ob) +
     unknown_len W ob"

definition SystemMessage_Serialize :: "wire_lib \<Rightarrow> pb_obj \<Rightarrow> bytes" where
  "SystemMessage_Serialize W ob =
     string_out W 1 ob @
     unknown_out W ob"

definition SystemMessage_ToArray :: "wire_lib \<Rightarrow> pb_obj \<Rightarrow> bytes \<Rightarrow> bytes" where
  "SystemMessage_ToArray W ob t =
    (let t = string_arr W 1 ob t
     in unknown_arr W ob t)"

definition SystemMessage_MergeFrom :: "wire_lib \<Rightarrow> pb_obj \<Rightarrow> pb_obj \<Rightarrow> pb_obj" where
  "SystemMessage_MergeFrom W source ob =
    (let ob = when_any 255 source (\<lambda>ob.
         let ob = set_from 1 source ob in ob) ob
     in unknown_from W source ob)"

definition SystemMessage_CopyFrom :: "wire_lib \<Rightarrow> pb_obj \<Rightarrow> pb_obj \<Rightarrow> pb_obj" where
  "SystemMessage_CopyFrom W source ob = SystemMessage_MergeFrom W source (SystemMessage_Clear ob)"

definition SystemMessage_IsInitialized :: "pb_obj \<Rightarrow> bool" where
  "SystemMessage_IsInitialized ob \<longleftrightarrow> required_set 1 ob"

definition SystemMessage_Swap :: "pb_obj \<times> pb_obj \<Rightarrow> pb_obj \<times> pb_obj" where
  "SystemMessage_Swap p =
    (let p = swap_val 1 p; p = swap_bits p in swap_unknown p)"

subsection \<open>Reconciled\<close>

definition Reconciled_new :: pb_obj where
  "Reconciled_new = Obj 0 [V_num 0, V_num 0, V_num 0, V_str []] []"

definition Reconciled_Clear :: "pb_obj \<Rightarrow> pb_obj" where
  "Reconciled_Clear ob =
    (let ob = when_any 255 ob (\<lambda>ob.
         let ob = zero_num 1 ob; ob = zero_num 2 ob; ob = zero_num 3 ob; ob = zero_str 4 ob in ob) ob
     in clear_bits ob)"

definition Reconciled_MergePartial :: "wire_lib \<Rightarrow> merger" where
  "Reconciled_MergePartial W = merge_partial W
    [Case 1 WIRETYPE_VARINT (uint32_field W 1) [(16, 2)] False,
     Case 2 WIRETYPE_VARINT (uint32_field W 2) [(24, 3)] False,
     Case 3 WIRETYPE_VARINT (uint32_field W 3) [(34, 4)] False,
     Case 4 WIRETYPE_LENGTH_DELIMITED (string_field W 4) [] True]"

definition Reconciled_ByteSize :: "wire_lib \<Rightarrow> pb_obj \<Rightarrow> nat" where
  "Reconciled_ByteSize W ob =
     grouped 255 ob (uint32_len W 1 1 ob +
       uint32_len W 1 2 ob +
       uint32_len W 1 3 ob +
       string_len W 1 4 ob) +
     unknown_len W ob"

definition Reconciled_Serialize :: "wire_lib \<Rightarrow> pb_obj \<Rightarrow> bytes" where
  "Reconciled_Serialize W ob =
     uint32_out W 1 ob @
     uint32_out W 2 ob @
     uint32_out W 3 ob @
     string_out W 4 ob @
     unknown_out W ob"

definition Reconciled_ToArray :: "wire_lib \<Rightarrow> pb_obj \<Rightarrow> bytes \<Rightarrow> bytes" where
  "Reconciled_ToArray W ob t =
    (let t = uint32_arr W 1 ob t;
       t = uint32_arr W 2 ob t;
       t = uint32_arr W 3 ob t;
       t = string_arr W 4 ob t
     in unknown_arr W ob t)"

definition Reconciled_MergeFrom :: "wire_lib \<Rightarrow> pb_obj \<Rightarrow> pb_obj \<Rightarrow> pb_obj" where
  "Reconciled_MergeFrom W source ob =
    (let ob = when_any 255 source (\<lambda>ob.
         let ob = set_from 1 source ob;
           ob = set_from 2 source ob;
           ob = set_from 3 source ob;
           ob = set_from 4 source ob in ob) ob
     in unknown_from W source ob)"

definition Reconciled_CopyFrom :: "wire_lib \<Rightarrow> pb_obj \<Rightarrow> pb_obj \<Rightarrow> pb_obj" where
  "Reconciled_CopyFrom W source ob = Reconciled_MergeFrom W source (Reconciled_Clear ob)"

definition Reconciled_IsInitialized :: "pb_obj \<Rightarrow> bool" where
  "Reconciled_IsInitialized ob \<longleftrightarrow> required_set 7 ob"

definition Reconciled_Swap :: "pb_obj \<times> pb_obj \<Rightarrow> pb_obj \<times> pb_obj" where
  "Reconciled_Swap p =
    (let p = swap_val 1 p; p = swap_val 2 p; p = swap_val 3 p; p = swap_val 4 p; p = swap_bits p in swap_unknown p)"

subsection \<open>GiveUp\<close>

definition GiveUp_new :: pb_obj where
  "GiveUp_new = Obj 0 [V_num 0, V_str []] []"

definition GiveUp_Clear :: "pb_obj \<Rightarrow> pb_obj" where
  "GiveUp_Clear ob =
    (let ob = when_any 255 ob (\<lambda>ob.
         let ob = zero_num 1 ob; ob = zero_str 2 ob in ob) ob
     in clear_bits ob)"

definition GiveUp_MergePartial :: "wire_lib \<Rightarrow> merger" where
  "GiveUp_MergePartial W = merge_partial W
    [Case 1 WIRETYPE_VARINT (uint32_field W 1) [(18, 2)] False,
     Case 2 WIRETYPE_LENGTH_DELIMITED (string_field W 2) [] True]"

definition GiveUp_ByteSize :: "wire_lib \<Rightarrow> pb_obj \<Rightarrow> nat" where
  "GiveUp_ByteSize W ob =
     grouped 255 ob (uint32_len W 1 1 ob +
       string_len W 1 2 ob) +
     unknown_len W ob"

definition GiveUp_Serialize :: "wire_lib \<Rightarrow> pb_obj \<Rightarrow> bytes" where
  "GiveUp_Serialize W ob =
     uint32_out W 1 ob @
     string_out W 2 ob @
     unknown_out W ob"

definition GiveUp_ToArray :: "wire_lib \<Rightarrow> pb_obj \<Rightarrow> bytes \<Rightarrow> bytes" where
  "GiveUp_ToArray W ob t =
    (let t = uint32_arr W 1 ob t;
       t = string_arr W 2 ob t
     in unknown_arr W ob t)"

definition GiveUp_MergeFrom :: "wire_lib \<Rightarrow> pb_obj \<Rightarrow> pb_obj \<Rightarrow> pb_obj" where
  "GiveUp_MergeFrom W source ob =
    (let ob = when_any 255 source (\<lambda>ob.
         let ob = set_from 1 source ob;
           ob = set_from 2 source ob in ob) ob
     in unknown_from W source ob)"

definition GiveUp_CopyFrom :: "wire_lib \<Rightarrow> pb_obj \<Rightarrow> pb_obj \<Rightarrow> pb_obj" where
  "GiveUp_CopyFrom W source ob = GiveUp_MergeFrom W source (GiveUp_Clear ob)"

definition GiveUp_IsInitialized :: "pb_obj \<Rightarrow> bool" where
  "GiveUp_IsInitialized ob \<longleftrightarrow> required_set 1 ob"

definition GiveUp_Swap :: "pb_obj \<times> pb_obj \<Rightarrow> pb_obj \<times> pb_obj" where
  "GiveUp_Swap p =
    (let p = swap_val 1 p; p = swap_val 2 p; p = swap_bits p in swap_unknown p)"

subsection \<open>Undo\<close>

definition Undo_new :: pb_obj where
  "Undo_new = Obj 0 [V_num 0, V_num 0, V_num 0, V_bool False] []"

definition Undo_Clear :: "pb_obj \<Rightarrow> pb_obj" where
  "Undo_Clear ob =
    (let ob = when_any 255 ob (\<lambda>ob.
         let ob = zero_num 1 ob; ob = zero_num 2 ob; ob = zero_num 3 ob; ob = zero_bool 4 ob in ob) ob
     in clear_bits ob)"

definition Undo_MergePartial :: "wire_lib \<Rightarrow> merger" where
  "Undo_MergePartial W = merge_partial W
    [Case 1 WIRETYPE_VARINT (uint32_field W 1) [(16, 2)] False,
     Case 2 WIRETYPE_VARINT (uint32_field W 2) [(24, 3)] False,
     Case 3 WIRETYPE_VARINT (uint32_field W 3) [(32, 4)] False,
     Case 4 WIRETYPE_VARINT (bool_field W 4) [] True]"

definition Undo_ByteSize :: "wire_lib \<Rightarrow> pb_obj \<Rightarrow> nat" where
  "Undo_ByteSize W ob =
     grouped 255 ob (uint32_len W 1 1 ob +
       uint32_len W 1 2 ob +
       uint32_len W 1 3 ob +
       bool_len 1 1 4 ob) +
     unknown_len W ob"

definition Undo_Serialize :: "wire_lib \<Rightarrow> pb_obj \<Rightarrow> bytes" where
  "Undo_Serialize W ob =
     uint32_out W 1 ob @
     uint32_out W 2 ob @
     uint32_out W 3 ob @
     bool_out W 4 ob @
     unknown_out W ob"

definition Undo_ToArray :: "wire_lib \<Rightarrow> pb_obj \<Rightarrow> bytes \<Rightarrow> bytes" where
  "Undo_ToArray W ob t =
    (let t = uint32_arr W 1 ob t;
       t = uint32_arr W 2 ob t;
       t = uint32_arr W 3 ob t;
       t = bool_arr W 4 ob t
     in unknown_arr W ob t)"

definition Undo_MergeFrom :: "wire_lib \<Rightarrow> pb_obj \<Rightarrow> pb_obj \<Rightarrow> pb_obj" where
  "Undo_MergeFrom W source ob =
    (let ob = when_any 255 source (\<lambda>ob.
         let ob = set_from 1 source ob;
           ob = set_from 2 source ob;
           ob = set_from 3 source ob;
           ob = set_from 4 source ob in ob) ob
     in unknown_from W source ob)"

definition Undo_CopyFrom :: "wire_lib \<Rightarrow> pb_obj \<Rightarrow> pb_obj \<Rightarrow> pb_obj" where
  "Undo_CopyFrom W source ob = Undo_MergeFrom W source (Undo_Clear ob)"

definition Undo_IsInitialized :: "pb_obj \<Rightarrow> bool" where
  "Undo_IsInitialized ob \<longleftrightarrow> required_set 7 ob"

definition Undo_Swap :: "pb_obj \<times> pb_obj \<Rightarrow> pb_obj \<times> pb_obj" where
  "Undo_Swap p =
    (let p = swap_val 1 p; p = swap_val 2 p; p = swap_val 3 p; p = swap_val 4 p; p = swap_bits p in swap_unknown p)"

subsection \<open>GameReadyReq\<close>

definition GameReadyReq_new :: pb_obj where
  "GameReadyReq_new = Obj 0 [V_num 0, V_num 0, V_num 0, V_num 0] []"

definition GameReadyReq_Clear :: "pb_obj \<Rightarrow> pb_obj" where
  "GameReadyReq_Clear ob =
    (let ob = when_any 255 ob (\<lambda>ob.
         let ob = zero_num 1 ob; ob = zero_num 2 ob; ob = zero_num 3 ob; ob = zero_num 4 ob in ob) ob
     in clear_bits ob)"

definition GameReadyReq_MergePartial :: "wire_lib \<Rightarrow> merger" where
  "GameReadyReq_MergePartial W = merge_partial W
    [Case 1 WIRETYPE_VARINT (uint32_field W 1) [(16, 2)] False,
     Case 2 WIRETYPE_VARINT (uint32_field W 2) [(24, 3)] False,
     Case 3 WIRETYPE_VARINT (uint32_field W 3) [(32, 4)] False,
     Case 4 WIRETYPE_VARINT (uint32_field W 4) [] True]"

definition GameReadyReq_ByteSize :: "wire_lib \<Rightarrow> pb_obj \<Rightarrow> nat" where
  "GameReadyReq_ByteSize W ob =
     grouped 255 ob (uint32_len W 1 1 ob +
       uint32_len W 1 2 ob +
       uint32_len W 1 3 ob +
       uint32_len W 1 4 ob) +
     unknown_len W ob"

definition GameReadyReq_Serialize :: "wire_lib \<Rightarrow> pb_obj \<Rightarrow> bytes" where
  "GameReadyReq_Serialize W ob =
     uint32_out W 1 ob @
     uint32_out W 2 ob @
     uint32_out W 3 ob @
     uint32_out W 4 ob @
     unknown_out W ob"

definition GameReadyReq_ToArray :: "wire_lib \<Rightarrow> pb_obj \<Rightarrow> bytes \<Rightarrow> bytes" where
  "GameReadyReq_ToArray W ob t =
    (let t = uint32_arr W 1 ob t;
       t = uint32_arr W 2 ob t;
       t = uint32_arr W 3 ob t;
       t = uint32_arr W 4 ob t
     in unknown_arr W ob t)"

definition GameReadyReq_MergeFrom :: "wire_lib \<Rightarrow> pb_obj \<Rightarrow> pb_obj \<Rightarrow> pb_obj" where
  "GameReadyReq_MergeFrom W source ob =
    (let ob = when_any 255 source (\<lambda>ob.
         let ob = set_from 1 source ob;
           ob = set_from 2 source ob;
           ob = set_from 3 source ob;
           ob = set_from 4 source ob in ob) ob
     in unknown_from W source ob)"

definition GameReadyReq_CopyFrom :: "wire_lib \<Rightarrow> pb_obj \<Rightarrow> pb_obj \<Rightarrow> pb_obj" where
  "GameReadyReq_CopyFrom W source ob = GameReadyReq_MergeFrom W source (GameReadyReq_Clear ob)"

definition GameReadyReq_IsInitialized :: "pb_obj \<Rightarrow> bool" where
  "GameReadyReq_IsInitialized ob \<longleftrightarrow> required_set 1 ob"

definition GameReadyReq_Swap :: "pb_obj \<times> pb_obj \<Rightarrow> pb_obj \<times> pb_obj" where
  "GameReadyReq_Swap p =
    (let p = swap_val 1 p; p = swap_val 2 p; p = swap_val 3 p; p = swap_val 4 p; p = swap_bits p in swap_unknown p)"

subsection \<open>GameStatusReply\<close>

definition GameStatusReply_new :: pb_obj where
  "GameStatusReply_new = Obj 0 [V_bool False, V_bool False, V_bool False, V_num 0, V_num 0, V_num 0] []"

definition GameStatusReply_Clear :: "pb_obj \<Rightarrow> pb_obj" where
  "GameStatusReply_Clear ob =
    (let ob = when_any 255 ob (\<lambda>ob.
         let ob = zero_bool 1 ob; ob = zero_bool 2 ob; ob = zero_bool 3 ob; ob = zero_num 4 ob; ob = zero_num 5 ob; ob = zero_num 6 ob in ob) ob
     in clear_bits ob)"

definition GameStatusReply_MergePartial :: "wire_lib \<Rightarrow> merger" where
  "GameStatusReply_MergePartial W = merge_partial W
    [Case 1 WIRETYPE_VARINT (bool_field W 1) [(16, 2)] False,
     Case 2 WIRETYPE_VARINT (bool_field W 2) [(24, 3)] False,
     Case 3 WIRETYPE_VARINT (bool_field W 3) [(32, 4)] False,
     Case 4 WIRETYPE_VARINT (uint32_field W 4) [(40, 5)] False,
     Case 5 WIRETYPE_VARINT (uint32_field W 5) [(48, 6)] False,
     Case 6 WIRETYPE_VARINT (uint32_field W 6) [] True]"

definition GameStatusReply_ByteSize :: "wire_lib \<Rightarrow> pb_obj \<Rightarrow> nat" where
  "GameStatusReply_ByteSize W ob =
     grouped 255 ob (bool_len 1 1 1 ob +
       bool_len 1 1 2 ob +
       bool_len 1 1 3 ob +
       uint32_len W 1 4 ob +
       uint32_len W 1 5 ob +
       uint32_len W 1 6 ob) +
     unknown_len W ob"

definition GameStatusReply_Serialize :: "wire_lib \<Rightarrow> pb_obj \<Rightarrow> bytes" where
  "GameStatusReply_Serialize W ob =
     bool_out W 1 ob @
     bool_out W 2 ob @
     bool_out W 3 ob @
     uint32_out W 4 ob @
     uint32_out W 5 ob @
     uint32_out W 6 ob @
     unknown_out W ob"

definition GameStatusReply_ToArray :: "wire_lib \<Rightarrow> pb_obj \<Rightarrow> bytes \<Rightarrow> bytes" where
  "GameStatusReply_ToArray W ob t =
    (let t = bool_arr W 1 ob t;
       t = bool_arr W 2 ob t;
       t = bool_arr W 3 ob t;
       t = uint32_arr W 4 ob t;
       t = uint32_arr W 5 ob t;
       t = uint32_arr W 6 ob t
     in unknown_arr W ob t)"

definition GameStatusReply_MergeFrom :: "wire_lib \<Rightarrow> pb_obj \<Rightarrow> pb_obj \<Rightarrow> pb_obj" where
  "GameStatusReply_MergeFrom W source ob =
    (let ob = when_any 255 source (\<lambda>ob.
         let ob = set_from 1 source ob;
           ob = set_from 2 source ob;
           ob = set_from 3 source ob;
           ob = set_from 4 source ob;
           ob = set_from 5 source ob;
           ob = set_from 6 source ob in ob) ob
     in unknown_from W source ob)"

definition GameStatusReply_CopyFrom :: "wire_lib \<Rightarrow> pb_obj \<Rightarrow> pb_obj \<Rightarrow> pb_obj" where
  "GameStatusReply_CopyFrom W source ob = GameStatusReply_MergeFrom W source (GameStatusReply_Clear ob)"

definition GameStatusReply_IsInitialized :: "pb_obj \<Rightarrow> bool" where
  "GameStatusReply_IsInitialized ob \<longleftrightarrow> required_set 63 ob"

definition GameStatusReply_Swap :: "pb_obj \<times> pb_obj \<Rightarrow> pb_obj \<times> pb_obj" where
  "GameStatusReply_Swap p =
    (let p = swap_val 1 p; p = swap_val 2 p; p = swap_val 3 p; p = swap_val 4 p; p = swap_val 5 p; p = swap_val 6 p; p = swap_bits p in swap_unknown p)"

subsection \<open>FindPassword\<close>

definition FindPassword_new :: pb_obj where
  "FindPassword_new = Obj 0 [V_str [], V_str []] []"

definition FindPassword_Clear :: "pb_obj \<Rightarrow> pb_obj" where
  "FindPassword_Clear ob =
    (let ob = when_any 255 ob (\<lambda>ob.
         let ob = zero_str 1 ob; ob = zero_str 2 ob in ob) ob
     in clear_bits ob)"

definition FindPassword_MergePartial :: "wire_lib \<Rightarrow> merger" where
  "FindPassword_MergePartial W = merge_partial W
    [Case 1 WIRETYPE_LENGTH_DELIMITED (string_field W 1) [(18, 2)] False,
     Case 2 WIRETYPE_LENGTH_DELIMITED (string_field W 2) [] True]"

definition FindPassword_ByteSize :: "wire_lib \<Rightarrow> pb_obj \<Rightarrow> nat" where
  "FindPassword_ByteSize W ob =
     grouped 255 ob (string_len W 1 1 ob +
       string_len W 1 2 ob) +
     unknown_len W ob"

definition FindPassword_Serialize :: "wire_lib \<Rightarrow> pb_obj \<Rightarrow> bytes" where
  "FindPassword_Serialize W ob =
     string_out W 1 ob @
     string_out W 2 ob @
     unknown_out W ob"

definition FindPassword_ToArray :: "wire_lib \<Rightarrow> pb_obj \<Rightarrow> bytes \<Rightarrow> bytes" where
  "FindPassword_ToArray W ob t =
    (let t = string_arr W 1 ob t;
       t = string_arr W 2 ob t
     in unknown_arr W ob t)"

definition FindPassword_MergeFrom :: "wire_lib \<Rightarrow> pb_obj \<Rightarrow> pb_obj \<Rightarrow> pb_obj" where
  "FindPassword_MergeFrom W source ob =
    (let ob = when_any 255 source (\<lambda>ob.
         let ob = set_from 1 source ob;
           ob = set_from 2 source ob in ob) ob
     in unknown_from W source ob)"

definition FindPassword_CopyFrom :: "wire_lib \<Rightarrow> pb_obj \<Rightarrow> pb_obj \<Rightarrow> pb_obj" where
  "FindPassword_CopyFrom W source ob = FindPassword_MergeFrom W source (FindPassword_Clear ob)"

definition FindPassword_IsInitialized :: "pb_obj \<Rightarrow> bool" where
  "FindPassword_IsInitialized ob \<longleftrightarrow> required_set 1 ob"

definition FindPassword_Swap :: "pb_obj \<times> pb_obj \<Rightarrow> pb_obj \<times> pb_obj" where
  "FindPassword_Swap p =
    (let p = swap_val 1 p; p = swap_val 2 p; p = swap_bits p in swap_unknown p)"

subsection \<open>UpdateUserInfo\<close>

definition UpdateUserInfo_new :: pb_obj where
  "UpdateUserInfo_new = Obj 0 [V_str [], V_str [], V_str [], V_str [], V_str [], V_str []] []"

definition UpdateUserInfo_Clear :: "pb_obj \<Rightarrow> pb_obj" where
  "UpdateUserInfo_Clear ob =
    (let ob = when_any 255 ob (\<lambda>ob.
         let ob = zero_str 1 ob; ob = zero_str 2 ob; ob = zero_str 3 ob; ob = zero_str 4 ob; ob = zero_str 5 ob; ob = zero_str 6 ob in ob) ob
     in clear_bits ob)"

definition UpdateUserInfo_MergePartial :: "wire_lib \<Rightarrow> merger" where
  "UpdateUserInfo_MergePartial W = merge_partial W
    [Case 1 WIRETYPE_LENGTH_DELIMITED (string_field W 1) [(18, 2)] False,
     Case 2 WIRETYPE_LENGTH_DELIMITED (string_field W 2) [(26, 3)] False,
     Case 3 WIRETYPE_LENGTH_DELIMITED (string_field W 3) [(34, 4)] False,
     Case 4 WIRETYPE_LENGTH_DELIMITED (string_field W 4) [(42, 5)] False,
     Case 5 WIRETYPE_LENGTH_DELIMITED (string_field W 5) [(50, 6)] False,
     Case 6 WIRETYPE_LENGTH_DELIMITED (bytes_field W 6) [] True]"

definition UpdateUserInfo_ByteSize :: "wire_lib \<Rightarrow> pb_obj \<Rightarrow> nat" where
  "UpdateUserInfo_ByteSize W ob =
     grouped 255 ob (string_len W 1 1 ob +
       string_len W 1 2 ob +
       string_len W 1 3 ob +
       string_len W 1 4 ob +
       string_len W 1 5 ob +
       bytes_len W 1 6 ob) +
     unknown_len W ob"

definition UpdateUserInfo_Serialize :: "wire_lib \<Rightarrow> pb_obj \<Rightarrow> bytes" where
  "UpdateUserInfo_Serialize W ob =
     string_out W 1 ob @
     string_out W 2 ob @
     string_out W 3 ob @
     string_out W 4 ob @
     string_out W 5 ob @
     bytes_out W 6 ob @
     unknown_out W ob"

definition UpdateUserInfo_ToArray :: "wire_lib \<Rightarrow> pb_obj \<Rightarrow> bytes \<Rightarrow> bytes" where
  "UpdateUserInfo_ToArray W ob t =
    (let t = string_arr W 1 ob t;
       t = string_arr W 2 ob t;
       t = string_arr W 3 ob t;
       t = string_arr W 4 ob t;
       t = string_arr W 5 ob t;
       t = bytes_arr W 6 ob t
     in unknown_arr W ob t)"

definition UpdateUserInfo_MergeFrom :: "wire_lib \<Rightarrow> pb_obj \<Rightarrow> pb_obj \<Rightarrow> pb_obj" where
  "UpdateUserInfo_MergeFrom W source ob =
    (let ob = when_any 255 source (\<lambda>ob.
         let ob = set_from 1 source ob;
           ob = set_from 2 source ob;
           ob = set_from 3 source ob;
           ob = set_from 4 source ob;
           ob = set_from 5 source ob;
           ob = set_from 6 source ob in ob) ob
     in unknown_from W source ob)"

definition UpdateUserInfo_CopyFrom :: "wire_lib \<Rightarrow> pb_obj \<Rightarrow> pb_obj \<Rightarrow> pb_obj" where
  "UpdateUserInfo_CopyFrom W source ob = UpdateUserInfo_MergeFrom W source (UpdateUserInfo_Clear ob)"

definition UpdateUserInfo_IsInitialized :: "pb_obj \<Rightarrow> bool" where
  "UpdateUserInfo_IsInitialized ob \<longleftrightarrow> required_set 7 ob"

definition UpdateUserInfo_Swap :: "pb_obj \<times> pb_obj \<Rightarrow> pb_obj \<times> pb_obj" where
  "UpdateUserInfo_Swap p =
    (let p = swap_val 1 p; p = swap_val 2 p; p = swap_val 3 p; p = swap_val 4 p; p = swap_val 5 p; p = swap_val 6 p; p = swap_bits p in swap_unknown p)"

subsection \<open>AdPictureItemReply\<close>

definition AdPictureItemReply_new :: pb_obj where
  "AdPictureItemReply_new = Obj 0 [V_num 0, V_bool False, V_str [], V_str [], V_str [], V_str [], V_num 0] []"

definition AdPictureItemReply_Clear :: "pb_obj \<Rightarrow> pb_obj" where
  "AdPictureItemReply_Clear ob =
    (let ob = when_any 255 ob (\<lambda>ob.
         let ob = zero_num 1 ob; ob = zero_bool 2 ob; ob = zero_str 3 ob; ob = zero_str 4 ob; ob = zero_str 5 ob; ob = zero_str 6 ob; ob = zero_num 7 ob in ob) ob
     in clear_bits ob)"

definition AdPictureItemReply_MergePartial :: "wire_lib \<Rightarrow> merger" where
  "AdPictureItemReply_MergePartial W = merge_partial W
    [Case 1 WIRETYPE_VARINT (uint32_field W 1) [(16, 2)] False,
     Case 2 WIRETYPE_VARINT (bool_field W 2) [(26, 3)] False,
     Case 3 WIRETYPE_LENGTH_DELIMITED (string_field W 3) [(34, 4)] False,
     Case 4 WIRETYPE_LENGTH_DELIMITED (string_field W 4) [(42, 5)] False,
     Case 5 WIRETYPE_LENGTH_DELIMITED (string_field W 5) [(50, 6)] False,
     Case 6 WIRETYPE_LENGTH_DELIMITED (string_field W 6) [(56, 7)] False,
     Case 7 WIRETYPE_VARINT (uint32_field W 7) [] True]"

definition AdPictureItemReply_ByteSize :: "wire_lib \<Rightarrow> pb_obj \<Rightarrow> nat" where
  "AdPictureItemReply_ByteSize W ob =
     grouped 255 ob (uint32_len W 1 1 ob +
       bool_len 1 1 2 ob +
       string_len W 1 3 ob +
       string_len W 1 4 ob +
       string_len W 1 5 ob +
       string_len W 1 6 ob +
       uint32_len W 1 7 ob) +
     unknown_len W ob"

definition AdPictureItemReply_Serialize :: "wire_lib \<Rightarrow> pb_obj \<Rightarrow> bytes" where
  "AdPictureItemReply_Serialize W ob =
     uint32_out W 1 ob @
     bool_out W 2 ob @
     string_out W 3 ob @
     string_out W 4 ob @
     string_out W 5 ob @
     string_out W 6 ob @
     uint32_out W 7 ob @
     unknown_out W ob"

definition AdPictureItemReply_ToArray :: "wire_lib \<Rightarrow> pb_obj \<Rightarrow> bytes \<Rightarrow> bytes" where
  "AdPictureItemReply_ToArray W ob t =
    (let t = uint32_arr W 1 ob t;
       t = bool_arr W 2 ob t;
       t = string_arr W 3 ob t;
       t = string_arr W 4 ob t;
       t = string_arr W 5 ob t;
       t = string_arr W 6 ob t;
       t = uint32_arr W 7 ob t
     in unknown_arr W ob t)"

definition AdPictureItemReply_MergeFrom :: "wire_lib \<Rightarrow> pb_obj \<Rightarrow> pb_obj \<Rightarrow> pb_obj" where
  "AdPictureItemReply_MergeFrom W source ob =
    (let ob = when_any 255 source (\<lambda>ob.
         let ob = set_from 1 source ob;
           ob = set_from 2 source ob;
           ob = set_from 3 source ob;
           ob = set_from 4 source ob;
           ob = set_from 5 source ob;
           ob = set_from 6 source ob;
           ob = set_from 7 source ob in ob) ob
     in unknown_from W source ob)"

definition AdPictureItemReply_CopyFrom :: "wire_lib \<Rightarrow> pb_obj \<Rightarrow> pb_obj \<Rightarrow> pb_obj" where
  "AdPictureItemReply_CopyFrom W source ob = AdPictureItemReply_MergeFrom W source (AdPictureItemReply_Clear ob)"

definition AdPictureItemReply_IsInitialized :: "pb_obj \<Rightarrow> bool" where
  "AdPictureItemReply_IsInitialized ob \<longleftrightarrow> required_set 3 ob"

definition AdPictureItemReply_Swap :: "pb_obj \<times> pb_obj \<Rightarrow> pb_obj \<times> pb_obj" where
  "AdPictureItemReply_Swap p =
    (let p = swap_val 1 p; p = swap_val 2 p; p = swap_val 3 p; p = swap_val 4 p; p = swap_val 5 p; p = swap_val 6 p; p = swap_val 7 p; p = swap_bits p in swap_unknown p)"

subsection \<open>AdPictureReq\<close>

definition AdPictureReq_new :: pb_obj where
  "AdPictureReq_new = Obj 0 [V_num 0, V_num 0, V_bool False] []"

definition AdPictureReq_Clear :: "pb_obj \<Rightarrow> pb_obj" where
  "AdPictureReq_Clear ob =
    (let ob = when_any 255 ob (\<lambda>ob.
         let ob = zero_num 1 ob; ob = zero_num 2 ob; ob = zero_bool 3 ob in ob) ob
     in clear_bits ob)"

definition AdPictureReq_MergePartial :: "wire_lib \<Rightarrow> merger" where
  "AdPictureReq_MergePartial W = merge_partial W
    [Case 1 WIRETYPE_VARINT (uint32_field W 1) [(16, 2)] False,
     Case 2 WIRETYPE_VARINT (uint32_field W 2) [(24, 3)] False,
     Case 3 WIRETYPE_VARINT (bool_field W 3) [] True]"

definition AdPictureReq_ByteSize :: "wire_lib \<Rightarrow> pb_obj \<Rightarrow> nat" where
  "AdPictureReq_ByteSize W ob =
     grouped 255 ob (uint32_len W 1 1 ob +
       uint32_len W 1 2 ob +
       bool_len 1 1 3 ob) +
     unknown_len W ob"

definition AdPictureReq_Serialize :: "wire_lib \<Rightarrow> pb_obj \<Rightarrow> bytes" where
  "AdPictureReq_Serialize W ob =
     uint32_out W 1 ob @
     uint32_out W 2 ob @
     bool_out W 3 ob @
     unknown_out W ob"

definition AdPictureReq_ToArray :: "wire_lib \<Rightarrow> pb_obj \<Rightarrow> bytes \<Rightarrow> bytes" where
  "AdPictureReq_ToArray W ob t =
    (let t = uint32_arr W 1 ob t;
       t = uint32_arr W 2 ob t;
       t = bool_arr W 3 ob t
     in unknown_arr W ob t)"

definition AdPictureReq_MergeFrom :: "wire_lib \<Rightarrow> pb_obj \<Rightarrow> pb_obj \<Rightarrow> pb_obj" where
  "AdPictureReq_MergeFrom W source ob =
    (let ob = when_any 255 source (\<lambda>ob.
         let ob = set_from 1 source ob;
           ob = set_from 2 source ob;
           ob = set_from 3 source ob in ob) ob
     in unknown_from W source ob)"

definition AdPictureReq_CopyFrom :: "wire_lib \<Rightarrow> pb_obj \<Rightarrow> pb_obj \<Rightarrow> pb_obj" where
  "AdPictureReq_CopyFrom W source ob = AdPictureReq_MergeFrom W source (AdPictureReq_Clear ob)"

definition AdPictureReq_IsInitialized :: "pb_obj \<Rightarrow> bool" where
  "AdPictureReq_IsInitialized ob \<longleftrightarrow> required_set 3 ob"

definition AdPictureReq_Swap :: "pb_obj \<times> pb_obj \<Rightarrow> pb_obj \<times> pb_obj" where
  "AdPictureReq_Swap p =
    (let p = swap_val 1 p; p = swap_val 2 p; p = swap_val 3 p; p = swap_bits p in swap_unknown p)"

subsection \<open>AdPictureContentReply\<close>

definition AdPictureContentReply_new :: pb_obj where
  "AdPictureContentReply_new = Obj 0 [V_bool False, V_str []] []"

definition AdPictureContentReply_Clear :: "pb_obj \<Rightarrow> pb_obj" where
  "AdPictureContentReply_Clear ob =
    (let ob = when_any 255 ob (\<lambda>ob.
         let ob = zero_bool 1 ob; ob = zero_str 2 ob in ob) ob
     in clear_bits ob)"

definition AdPictureContentReply_MergePartial :: "wire_lib \<Rightarrow> merger" where
  "AdPictureContentReply_MergePartial W = merge_partial W
    [Case 1 WIRETYPE_VARINT (bool_field W 1) [(18, 2)] False,
     Case 2 WIRETYPE_LENGTH_DELIMITED (bytes_field W 2) [] True]"

definition AdPictureContentReply_ByteSize :: "wire_lib \<Rightarrow> pb_obj \<Rightarrow> nat" where
  "AdPictureContentReply_ByteSize W ob =
     grouped 255 ob (bool_len 1 1 1 ob +
       bytes_len W 1 2 ob) +
     unknown_len W ob"

definition AdPictureContentReply_Serialize :: "wire_lib \<Rightarrow> pb_obj \<Rightarrow> bytes" where
  "AdPictureContentReply_Serialize W ob =
     bool_out W 1 ob @
     bytes_out W 2 ob @
     unknown_out W ob"

definition AdPictureContentReply_ToArray :: "wire_lib \<Rightarrow> pb_obj \<Rightarrow> bytes \<Rightarrow> bytes" where
  "AdPictureContentReply_ToArray W ob t =
    (let t = bool_arr W 1 ob t;
       t = bytes_arr W 2 ob t
     in unknown_arr W ob t)"

definition AdPictureContentReply_MergeFrom :: "wire_lib \<Rightarrow> pb_obj \<Rightarrow> pb_obj \<Rightarrow> pb_obj" where
  "AdPictureContentReply_MergeFrom W source ob =
    (let ob = when_any 255 source (\<lambda>ob.
         let ob = set_from 1 source ob;
           ob = set_from 2 source ob in ob) ob
     in unknown_from W source ob)"

definition AdPictureContentReply_CopyFrom :: "wire_lib \<Rightarrow> pb_obj \<Rightarrow> pb_obj \<Rightarrow> pb_obj" where
  "AdPictureContentReply_CopyFrom W source ob = AdPictureContentReply_MergeFrom W source (AdPictureContentReply_Clear ob)"

definition AdPictureContentReply_IsInitialized :: "pb_obj \<Rightarrow> bool" where
  "AdPictureContentReply_IsInitialized ob \<longleftrightarrow> required_set 1 ob"

definition AdPictureContentReply_Swap :: "pb_obj \<times> pb_obj \<Rightarrow> pb_obj \<times> pb_obj" where
  "AdPictureContentReply_Swap p =
    (let p = swap_val 1 p; p = swap_val 2 p; p = swap_bits p in swap_unknown p)"

end
