(* ===== verification/Pb_Reference.thy ===== *)
theory Pb_Reference
  imports Pb_Messages2
begin

text \<open>
  What message.proto declares, and what a message class has to do for a declaration: a reference
  for each member function, by recursion over the declaration. Pb_Agree shows that every generated
  class is its reference; what holds of all declarations then holds of every class.
\<close>

section \<open>Declarations\<close>

datatype label = Required | Optional | Repeated

datatype ftype = T_uint32 | T_int32 | T_bool | T_string | T_bytes | T_msg descr
  and descr = Msg "(label \<times> ftype) list"

primrec fields_of :: "descr \<Rightarrow> (label \<times> ftype) list" where
  "fields_of (Msg fs) = fs"

text \<open>Only messages are repeated, and fifteen fields are the most whose tags take one byte.\<close>

fun is_msg :: "ftype \<Rightarrow> bool" where
  "is_msg (T_msg d) = True"
| "is_msg _ = False"

fun declared :: "descr \<Rightarrow> bool" and declared_type :: "ftype \<Rightarrow> bool" and declared_fields :: "(label \<times> ftype) list \<Rightarrow> bool" where
  "declared (Msg fs) = (length fs \<le> 15 \<and> declared_fields fs)"
| "declared_type (T_msg d) = declared d"
| "declared_type ty = True"
| "declared_fields [] = True"
| "declared_fields ((lb, ty) # fs) = ((lb = Repeated \<longrightarrow> is_msg ty) \<and> declared_type ty \<and> declared_fields fs)"

fun wire_of :: "ftype \<Rightarrow> nat" where
  "wire_of T_string = WIRETYPE_LENGTH_DELIMITED"
| "wire_of T_bytes = WIRETYPE_LENGTH_DELIMITED"
| "wire_of (T_msg d) = WIRETYPE_LENGTH_DELIMITED"
| "wire_of _ = WIRETYPE_VARINT"

section \<open>The reference functions\<close>

fun default_of :: "ftype \<Rightarrow> pb_val" where
  "default_of T_uint32 = V_num 0"
| "default_of T_int32 = V_num 0"
| "default_of T_bool = V_bool False"
| "default_of T_string = V_str []"
| "default_of T_bytes = V_str []"
| "default_of (T_msg d) = V_ptr None"

definition new_of :: "descr \<Rightarrow> pb_obj" where
  "new_of d = Obj 0 (map (\<lambda>(lb, ty). if lb = Repeated then V_rep [] else default_of ty) (fields_of d)) []"

definition next_tags :: "nat \<Rightarrow> label \<Rightarrow> ftype \<Rightarrow> (label \<times> ftype) list \<Rightarrow> (u32 \<times> nat) list" where
  "next_tags i lb ty fs =
     (if lb = Repeated then [(tag_of i (wire_of ty), i)] else []) @
     (case fs of [] \<Rightarrow> [] | (_, ty') # _ \<Rightarrow> [(tag_of (Suc i) (wire_of ty'), Suc i)])"

fun cases_of :: "wire_lib \<Rightarrow> descr \<Rightarrow> pb_case list"
  and cases_from :: "wire_lib \<Rightarrow> nat \<Rightarrow> (label \<times> ftype) list \<Rightarrow> pb_case list"
  and reader_of :: "wire_lib \<Rightarrow> nat \<Rightarrow> label \<Rightarrow> ftype \<Rightarrow> field_reader" where
  "cases_of W (Msg fs) = cases_from W 1 fs"
| "cases_from W i [] = []"
| "cases_from W i ((lb, ty) # fs) =
     Case i (wire_of ty) (reader_of W i lb ty) (next_tags i lb ty fs) (fs = []) # cases_from W (Suc i) fs"
| "reader_of W i lb T_uint32 = uint32_field W i"
| "reader_of W i lb T_int32 = int32_field W i"
| "reader_of W i lb T_bool = bool_field W i"
| "reader_of W i lb T_string = string_field W i"
| "reader_of W i lb T_bytes = bytes_field W i"
| "reader_of W i lb (T_msg d) =
     (if lb = Repeated then add_message_field else message_field) W i (new_of d) (merge_partial W (cases_of W d))"

fun size_of :: "wire_lib \<Rightarrow> descr \<Rightarrow> (pb_obj \<Rightarrow> nat)"
  and sizes_from :: "wire_lib \<Rightarrow> nat \<Rightarrow> (label \<times> ftype) list \<Rightarrow> (pb_obj \<Rightarrow> nat)"
  and len_of :: "wire_lib \<Rightarrow> nat \<Rightarrow> label \<Rightarrow> ftype \<Rightarrow> (pb_obj \<Rightarrow> nat)" where
  "size_of W (Msg fs) = (\<lambda>ob. sizes_from W 1 fs ob + unknown_len W ob)"
| "sizes_from W i [] = (\<lambda>ob. 0)"
| "sizes_from W i ((lb, ty) # fs) = (\<lambda>ob. len_of W i lb ty ob + sizes_from W (Suc i) fs ob)"
| "len_of W i lb T_uint32 = uint32_len W 1 i"
| "len_of W i lb T_int32 = int32_len W 1 i"
| "len_of W i lb T_bool = bool_len 1 1 i"
| "len_of W i lb T_string = string_len W 1 i"
| "len_of W i lb T_bytes = bytes_len W 1 i"
| "len_of W i lb (T_msg d) =
     (if lb = Repeated then messages_len W 1 i (size_of W d) else message_len W 1 i (new_of d) (size_of W d))"

fun ser_of :: "wire_lib \<Rightarrow> descr \<Rightarrow> (pb_obj \<Rightarrow> bytes)"
  and sers_from :: "wire_lib \<Rightarrow> nat \<Rightarrow> (label \<times> ftype) list \<Rightarrow> (pb_obj \<Rightarrow> bytes)"
  and out_of :: "wire_lib \<Rightarrow> nat \<Rightarrow> label \<Rightarrow> ftype \<Rightarrow> (pb_obj \<Rightarrow> bytes)" where
  "ser_of W (Msg fs) = (\<lambda>ob. sers_from W 1 fs ob @ unknown_out W ob)"
| "sers_from W i [] = (\<lambda>ob. [])"
| "sers_from W i ((lb, ty) # fs) = (\<lambda>ob. out_of W i lb ty ob @ sers_from W (Suc i) fs ob)"
| "out_of W i lb T_uint32 = uint32_out W i"
| "out_of W i lb T_int32 = int32_out W i"
| "out_of W i lb T_bool = bool_out W i"
| "out_of W i lb T_string = string_out W i"
| "out_of W i lb T_bytes = bytes_out W i"
| "out_of W i lb (T_msg d) =
     (if lb = Repeated then messages_out W i (size_of W d) (ser_of W d)
      else message_out W i (new_of d) (size_of W d) (ser_of W d))"

fun arr_of :: "wire_lib \<Rightarrow> descr \<Rightarrow> (pb_obj \<Rightarrow> bytes \<Rightarrow> bytes)"
  and arrs_from :: "wire_lib \<Rightarrow> nat \<Rightarrow> (label \<times> ftype) list \<Rightarrow> (pb_obj \<Rightarrow> bytes \<Rightarrow> bytes)"
  and put_of :: "wire_lib \<Rightarrow> nat \<Rightarrow> label \<Rightarrow> ftype \<Rightarrow> (pb_obj \<Rightarrow> bytes \<Rightarrow> bytes)" where
  "arr_of W (Msg fs) = (\<lambda>ob t. unknown_arr W ob (arrs_from W 1 fs ob t))"
| "arrs_from W i [] = (\<lambda>ob t. t)"
| "arrs_from W i ((lb, ty) # fs) = (\<lambda>ob t. arrs_from W (Suc i) fs ob (put_of W i lb ty ob t))"
| "put_of W i lb T_uint32 = uint32_arr W i"
| "put_of W i lb T_int32 = int32_arr W i"
| "put_of W i lb T_bool = bool_arr W i"
| "put_of W i lb T_string = string_arr W i"
| "put_of W i lb T_bytes = bytes_arr W i"
| "put_of W i lb (T_msg d) =
     (if lb = Repeated then messages_arr W i (size_of W d) (arr_of W d)
      else message_arr W i (new_of d) (size_of W d) (arr_of W d))"

text \<open>\<open>MergeFrom\<close> merges the repeated fields first.\<close>

fun merge_of :: "wire_lib \<Rightarrow> descr \<Rightarrow> (pb_obj \<Rightarrow> pb_obj \<Rightarrow> pb_obj)"
  and reps_from :: "wire_lib \<Rightarrow> nat \<Rightarrow> (label \<times> ftype) list \<Rightarrow> (pb_obj \<Rightarrow> pb_obj \<Rightarrow> pb_obj)"
  and singles_from :: "wire_lib \<Rightarrow> nat \<Rightarrow> (label \<times> ftype) list \<Rightarrow> (pb_obj \<Rightarrow> pb_obj \<Rightarrow> pb_obj)"
  and rep_of :: "wire_lib \<Rightarrow> nat \<Rightarrow> label \<Rightarrow> ftype \<Rightarrow> (pb_obj \<Rightarrow> pb_obj \<Rightarrow> pb_obj)"
  and single_of :: "wire_lib \<Rightarrow> nat \<Rightarrow> label \<Rightarrow> ftype \<Rightarrow> (pb_obj \<Rightarrow> pb_obj \<Rightarrow> pb_obj)" where
  "merge_of W (Msg fs) = (\<lambda>source ob. unknown_from W source (singles_from W 1 fs source (reps_from W 1 fs source ob)))"
| "reps_from W i [] = (\<lambda>source ob. ob)"
| "reps_from W i ((lb, ty) # fs) = (\<lambda>source ob. reps_from W (Suc i) fs source (rep_of W i lb ty source ob))"
| "singles_from W i [] = (\<lambda>source ob. ob)"
| "singles_from W i ((lb, ty) # fs) = (\<lambda>source ob. singles_from W (Suc i) fs source (single_of W i lb ty source ob))"
| "rep_of W i lb (T_msg d) =
     (\<lambda>source ob. if lb = Repeated then messages_from i (new_of d) (merge_of W d) source ob else ob)"
| "rep_of W i lb ty = (\<lambda>source ob. ob)"
| "single_of W i lb (T_msg d) =
     (\<lambda>source ob. if lb = Repeated then ob else message_from i (new_of d) (merge_of W d) source ob)"
| "single_of W i lb ty = (\<lambda>source ob. set_from i source ob)"

fun init_of :: "descr \<Rightarrow> (pb_obj \<Rightarrow> bool)"
  and inits_from :: "nat \<Rightarrow> (label \<times> ftype) list \<Rightarrow> (pb_obj \<Rightarrow> bool)"
  and sub_init_of :: "nat \<Rightarrow> label \<Rightarrow> ftype \<Rightarrow> (pb_obj \<Rightarrow> bool)" where
  "init_of (Msg fs) = (\<lambda>ob. inits_from 1 fs ob)"
| "inits_from i [] = (\<lambda>ob. True)"
| "inits_from i ((lb, ty) # fs) =
     (\<lambda>ob. (lb = Required \<longrightarrow> has i ob) \<and> sub_init_of i lb ty ob \<and> inits_from (Suc i) fs ob)"
| "sub_init_of i lb (T_msg d) =
     (if lb = Repeated then messages_init i (init_of d) else message_init i (new_of d) (init_of d))"
| "sub_init_of i lb ty = (\<lambda>ob. True)"

end
