(* ===== verification/Pb_Agree.thy ===== *)
theory Pb_Agree
  imports Pb_Reference
begin

text \<open>
  The declarations of message.proto, and the proof that each generated class does what the reference
  says for its declaration. The classes are collected in \<open>message_classes\<close> of Pb_Classes.
\<close>

section \<open>Declarations\<close>

definition Echo_proto :: descr where
  "Echo_proto = Msg [(Optional, T_string)]"

definition LogOnorOut_proto :: descr where
  "LogOnorOut_proto = Msg [(Required, T_string),
     (Required, T_string)]"

definition ImageVersion_proto :: descr where
  "ImageVersion_proto = Msg [(Required, T_string),
     (Required, T_bool)]"

definition ChessBoardUser_proto :: descr where
  "ChessBoardUser_proto = Msg [(Required, T_bool),
     (Optional, T_string),
     (Optional, T_string),
     (Optional, T_int32),
     (Optional, T_string),
     (Optional, T_string),
     (Optional, T_bytes),
     (Optional, T_uint32)]"

definition ReplyStatus_proto :: descr where
  "ReplyStatus_proto = Msg [(Required, T_uint32),
     (Optional, T_msg ChessBoardUser_proto),
     (Optional, T_msg ImageVersion_proto)]"

definition Register_proto :: descr where
  "Register_proto = Msg [(Required, T_string),
     (Required, T_string),
     (Optional, T_string)]"

definition ChessBoardInfoReq_proto :: descr where
  "ChessBoardInfoReq_proto = Msg [(Required, T_int32),
     (Optional, T_int32)]"

definition ChessBoardInfo_proto :: descr where
  "ChessBoardInfo_proto = Msg [(Required, T_uint32),
     (Required, T_uint32),
     (Required, T_msg ChessBoardUser_proto),
     (Required, T_msg ChessBoardUser_proto),
     (Required, T_msg ChessBoardUser_proto)]"

definition HallInfoReq_proto :: descr where
  "HallInfoReq_proto = Msg [(Required, T_int32),
     (Optional, T_int32)]"

definition HallInfo_proto :: descr where
  "HallInfo_proto = Msg [(Required, T_int32),
     (Required, T_uint32),
     (Required, T_uint32),
     (Optional, T_uint32),
     (Repeated, T_msg ChessBoardInfo_proto)]"

definition GameHallSumaryReq_proto :: descr where
  "GameHallSumaryReq_proto = Msg [(Optional, T_int32)]"

definition GameHallSumary_proto :: descr where
  "GameHallSumary_proto = Msg [(Required, T_string),
     (Required, T_string),
     (Required, T_int32),
     (Required, T_uint32),
     (Required, T_string),
     (Required, T_string),
     (Optional, T_string),
     (Repeated, T_msg HallInfo_proto)]"

definition RequestPlay_proto :: descr where
  "RequestPlay_proto = Msg [(Required, T_int32),
     (Required, T_int32),
     (Required, T_int32)]"

definition RequestPlayReply_proto :: descr where
  "RequestPlayReply_proto = Msg [(Required, T_int32),
     (Required, T_uint32),
     (Optional, T_msg ChessBoardInfo_proto)]"

definition MoveChess_proto :: descr where
  "MoveChess_proto = Msg [(Required, T_int32),
     (Required, T_int32),
     (Required, T_int32),
     (Required, T_int32),
     (Required, T_int32),
     (Required, T_int32),
     (Required, T_bool),
     (Optional, T_int32),
     (Optional, T_uint32)]"

definition MoveAction_proto :: descr where
  "MoveAction_proto = Msg [(Required, T_uint32),
     (Required, T_msg MoveChess_proto),
     (Required, T_uint32)]"

definition UserMessage_proto :: descr where
  "UserMessage_proto = Msg [(Required, T_uint32),
     (Required, T_string)]"

definition SystemMessage_proto :: descr where
  "SystemMessage_proto = Msg [(Required, T_string)]"

definition Reconciled_proto :: descr where
  "Reconciled_proto = Msg [(Required, T_uint32),
     (Required, T_uint32),
     (Required, T_uint32),
     (Optional, T_string)]"

definition GiveUp_proto :: descr where
  "GiveUp_proto = Msg [(Required, T_uint32),
     (Optional, T_string)]"

definition Undo_proto :: descr where
  "Undo_proto = Msg [(Required, T_uint32),
     (Required, T_uint32),
     (Required, T_uint32),
     (Optional, T_bool)]"

definition GameReadyReq_proto :: descr where
  "GameReadyReq_proto = Msg [(Required, T_uint32),
     (Optional, T_uint32),
     (Optional, T_uint32),
     (Optional, T_uint32)]"

definition GameStatusReply_proto :: descr where
  "GameStatusReply_proto = Msg [(Required, T_bool),
     (Required, T_bool),
     (Required, T_bool),
     (Required, T_uint32),
     (Required, T_uint32),
     (Required, T_uint32)]"

definition FindPassword_proto :: descr where
  "FindPassword_proto = Msg [(Required, T_string),
     (Optional, T_string)]"

definition UpdateUserInfo_proto :: descr where
  "UpdateUserInfo_proto = Msg [(Required, T_string),
     (Required, T_string),
     (Required, T_string),
     (Optional, T_string),
     (Optional, T_string),
     (Optional, T_bytes)]"

definition AdPictureItemReply_proto :: descr where
  "AdPictureItemReply_proto = Msg [(Required, T_uint32),
     (Required, T_bool),
     (Optional, T_string),
     (Optional, T_string),
     (Optional, T_string),
     (Optional, T_string),
     (Optional, T_uint32)]"

definition AdPictureReq_proto :: descr where
  "AdPictureReq_proto = Msg [(Required, T_uint32),
     (Required, T_uint32),
     (Optional, T_bool)]"

definition AdPictureContentReply_proto :: descr where
  "AdPictureContentReply_proto = Msg [(Required, T_bool),
     (Optional, T_bytes)]"

section \<open>Masks\<close>

lemma mask_values: "mask 8 = (255 :: u32)" "push_bit 8 (mask 8) = (65280 :: u32)"
  by (simp_all add: mask_eq_exp_minus_1)

lemma group_unset:
  assumes "has_bits ob AND m = 0" "bit m (i - 1)"
  shows "\<not> has i ob"
proof -
  have "\<not> bit (has_bits ob AND m) (i - 1)" using assms(1) by simp
  then show ?thesis using assms(2) by (simp add: bit_and_iff has_def)
qed

lemma group_bits: "1 \<le> i \<Longrightarrow> i \<le> 8 \<Longrightarrow> bit (255 :: u32) (i - 1)" "9 \<le> i \<Longrightarrow> i \<le> 16 \<Longrightarrow> bit (65280 :: u32) (i - 1)"
  unfolding mask_values [symmetric] by (auto simp: bit_mask_iff bit_push_bit_iff)

lemma unset_low: "has_bits ob AND 255 = 0 \<Longrightarrow> 1 \<le> i \<Longrightarrow> i \<le> 8 \<Longrightarrow> has i ob = False"
  and unset_high: "has_bits ob AND 65280 = 0 \<Longrightarrow> 9 \<le> i \<Longrightarrow> i \<le> 16 \<Longrightarrow> has i ob = False"
  using group_unset group_bits by blast+

lemma unset_len [simp]:
  "\<not> has i ob \<Longrightarrow> uint32_len W tg i ob = 0" "\<not> has i ob \<Longrightarrow> int32_len W tg i ob = 0"
  "\<not> has i ob \<Longrightarrow> bool_len tg b i ob = 0" "\<not> has i ob \<Longrightarrow> string_len W tg i ob = 0"
  "\<not> has i ob \<Longrightarrow> bytes_len W tg i ob = 0" "\<not> has i ob \<Longrightarrow> message_len W tg i new sz ob = 0"
  by (simp_all add: uint32_len_def int32_len_def bool_len_def string_len_def bytes_len_def message_len_def)

lemma unset_from [simp]: "\<not> has i src \<Longrightarrow> set_from i src ob = ob" "\<not> has i src \<Longrightarrow> message_from i new mg src ob = ob"
  by (simp_all add: set_from_def message_from_def)

lemma required_mask: "required_set (mask n) ob \<longleftrightarrow> (\<forall>i. 1 \<le> i \<and> i \<le> n \<and> i \<le> 32 \<longrightarrow> has i ob)"
proof -
  have "required_set (mask n) ob \<longleftrightarrow> (\<forall>k < n. k < 32 \<longrightarrow> bit (has_bits ob) k)"
    by (auto simp: required_set_def bit_eq_iff bit_and_iff bit_mask_iff)
  also have "\<dots> \<longleftrightarrow> (\<forall>i. 1 \<le> i \<and> i \<le> n \<and> i \<le> 32 \<longrightarrow> has i ob)"
  proof (intro iffI allI impI)
    fix i assume "\<forall>k < n. k < 32 \<longrightarrow> bit (has_bits ob) k" "1 \<le> i \<and> i \<le> n \<and> i \<le> 32"
    then show "has i ob" unfolding has_def by (cases i) simp_all
  next
    fix k assume a: "\<forall>i. 1 \<le> i \<and> i \<le> n \<and> i \<le> 32 \<longrightarrow> has i ob" and k: "k < n" "k < 32"
    have "has (Suc k) ob" using a k by auto
    then show "bit (has_bits ob) k" by (simp add: has_def)
  qed
  finally show ?thesis .
qed

lemma required_Suc: "n < 32 \<Longrightarrow> required_set (mask (Suc n)) ob \<longleftrightarrow> required_set (mask n) ob \<and> has (Suc n) ob"
  unfolding required_mask le_Suc_eq by (metis One_nat_def Suc_leI less_eq_Suc_le not_less_eq_eq le_SucI le0 Suc_le_mono)

lemma required_0: "required_set (mask 0) ob"
  using required_mask [of 0 ob] by (simp del: mask_0)

lemma required_masks:
  "required_set 1 ob \<longleftrightarrow> has 1 ob"
  "required_set 3 ob \<longleftrightarrow> has 1 ob \<and> has 2 ob"
  "required_set 7 ob \<longleftrightarrow> has 1 ob \<and> has 2 ob \<and> has 3 ob"
  "required_set 31 ob \<longleftrightarrow> has 1 ob \<and> has 2 ob \<and> has 3 ob \<and> has 4 ob \<and> has 5 ob"
  "required_set 63 ob \<longleftrightarrow> has 1 ob \<and> has 2 ob \<and> has 3 ob \<and> has 4 ob \<and> has 5 ob \<and> has 6 ob"
  "required_set 127 ob \<longleftrightarrow> has 1 ob \<and> has 2 ob \<and> has 3 ob \<and> has 4 ob \<and> has 5 ob \<and> has 6 ob \<and> has 7 ob"
  using required_0 [of ob] required_Suc [of 0 ob] required_Suc [of 1 ob] required_Suc [of 2 ob] required_Suc [of 3 ob]
    required_Suc [of 4 ob] required_Suc [of 5 ob] required_Suc [of 6 ob]
  by (simp_all add: mask_eq_exp_minus_1 numeral_eq_Suc)

section \<open>The classes are their references\<close>

named_theorems class_agrees

lemmas class_simps = fields_of.simps next_tags_def tag_of_def WIRETYPE_VARINT_def WIRETYPE_LENGTH_DELIMITED_def
  new_of_def Let_def grouped_def when_any_def clear_bits_def zero_rep_def put_at_def unset_low unset_high required_masks numeral_eq_Suc

lemma Echo_agrees [class_agrees]:
  "Echo_new = new_of Echo_proto"
  "Echo_MergePartial W = merge_partial W (cases_of W Echo_proto)"
  "Echo_ByteSize W = size_of W Echo_proto"
  "Echo_Serialize W = ser_of W Echo_proto"
  "Echo_ToArray W = arr_of W Echo_proto"
  "Echo_MergeFrom W = merge_of W Echo_proto"
  "Echo_IsInitialized = init_of Echo_proto"
  "Echo_Clear Echo_new = Echo_new"
  unfolding Echo_proto_def
  by (simp_all add: Echo_new_def Echo_MergePartial_def Echo_ByteSize_def Echo_Serialize_def Echo_ToArray_def Echo_MergeFrom_def Echo_IsInitialized_def Echo_Clear_def fun_eq_iff class_simps )

lemma LogOnorOut_agrees [class_agrees]:
  "LogOnorOut_new = new_of LogOnorOut_proto"
  "LogOnorOut_MergePartial W = merge_partial W (cases_of W LogOnorOut_proto)"
  "LogOnorOut_ByteSize W = size_of W LogOnorOut_proto"
  "LogOnorOut_Serialize W = ser_of W LogOnorOut_proto"
  "LogOnorOut_ToArray W = arr_of W LogOnorOut_proto"
  "LogOnorOut_MergeFrom W = merge_of W LogOnorOut_proto"
  "LogOnorOut_IsInitialized = init_of LogOnorOut_proto"
  "LogOnorOut_Clear LogOnorOut_new = LogOnorOut_new"
  unfolding LogOnorOut_proto_def
  by (simp_all add: LogOnorOut_new_def LogOnorOut_MergePartial_def LogOnorOut_ByteSize_def LogOnorOut_Serialize_def LogOnorOut_ToArray_def LogOnorOut_MergeFrom_def LogOnorOut_IsInitialized_def LogOnorOut_Clear_def fun_eq_iff class_simps )

lemma ImageVersion_agrees [class_agrees]:
  "ImageVersion_new = new_of ImageVersion_proto"
  "ImageVersion_MergePartial W = merge_partial W (cases_of W ImageVersion_proto)"
  "ImageVersion_ByteSize W = size_of W ImageVersion_proto"
  "ImageVersion_Serialize W = ser_of W ImageVersion_proto"
  "ImageVersion_ToArray W = arr_of W ImageVersion_proto"
  "ImageVersion_MergeFrom W = merge_of W ImageVersion_proto"
  "ImageVersion_IsInitialized = init_of ImageVersion_proto"
  "ImageVersion_Clear ImageVersion_new = ImageVersion_new"
  unfolding ImageVersion_proto_def
  by (simp_all add: ImageVersion_new_def ImageVersion_MergePartial_def ImageVersion_ByteSize_def ImageVersion_Serialize_def ImageVersion_ToArray_def ImageVersion_MergeFrom_def ImageVersion_IsInitialized_def ImageVersion_Clear_def fun_eq_iff class_simps )

lemma ChessBoardUser_agrees [class_agrees]:
  "ChessBoardUser_new = new_of ChessBoardUser_proto"
  "ChessBoardUser_MergePartial W = merge_partial W (cases_of W ChessBoardUser_proto)"
  "ChessBoardUser_ByteSize W = size_of W ChessBoardUser_proto"
  "ChessBoardUser_Serialize W = ser_of W ChessBoardUser_proto"
  "ChessBoardUser_ToArray W = arr_of W ChessBoardUser_proto"
  "ChessBoardUser_MergeFrom W = merge_of W ChessBoardUser_proto"
  "ChessBoardUser_IsInitialized = init_of ChessBoardUser_proto"
  "ChessBoardUser_Clear ChessBoardUser_new = ChessBoardUser_new"
  unfolding ChessBoardUser_proto_def
  by (simp_all add: ChessBoardUser_new_def ChessBoardUser_MergePartial_def ChessBoardUser_ByteSize_def ChessBoardUser_Serialize_def ChessBoardUser_ToArray_def ChessBoardUser_MergeFrom_def ChessBoardUser_IsInitialized_def ChessBoardUser_Clear_def fun_eq_iff class_simps )

lemma ReplyStatus_agrees [class_agrees]:
  "ReplyStatus_new = new_of ReplyStatus_proto"
  "ReplyStatus_MergePartial W = merge_partial W (cases_of W ReplyStatus_proto)"
  "ReplyStatus_ByteSize W = size_of W ReplyStatus_proto"
  "ReplyStatus_Serialize W = ser_of W ReplyStatus_proto"
  "ReplyStatus_ToArray W = arr_of W ReplyStatus_proto"
  "ReplyStatus_MergeFrom W = merge_of W ReplyStatus_proto"
  "ReplyStatus_IsInitialized = init_of ReplyStatus_proto"
  "ReplyStatus_Clear ReplyStatus_new = ReplyStatus_new"
  unfolding ReplyStatus_proto_def
  by (simp_all add: ReplyStatus_new_def ReplyStatus_MergePartial_def ReplyStatus_ByteSize_def ReplyStatus_Serialize_def ReplyStatus_ToArray_def ReplyStatus_MergeFrom_def ReplyStatus_IsInitialized_def ReplyStatus_Clear_def fun_eq_iff class_simps ChessBoardUser_agrees ImageVersion_agrees conj_ac)

lemma Register_agrees [class_agrees]:
  "Register_new = new_of Register_proto"
  "Register_MergePartial W = merge_partial W (cases_of W Register_proto)"
  "Register_ByteSize W = size_of W Register_proto"
  "Register_Serialize W = ser_of W Register_proto"
  "Register_ToArray W = arr_of W Register_proto"
  "Register_MergeFrom W = merge_of W Register_proto"
  "Register_IsInitialized = init_of Register_proto"
  "Register_Clear Register_new = Register_new"
  unfolding Register_proto_def
  by (simp_all add: Register_new_def Register_MergePartial_def Register_ByteSize_def Register_Serialize_def Register_ToArray_def Register_MergeFrom_def Register_IsInitialized_def Register_Clear_def fun_eq_iff class_simps )

lemma ChessBoardInfoReq_agrees [class_agrees]:
  "ChessBoardInfoReq_new = new_of ChessBoardInfoReq_proto"
  "ChessBoardInfoReq_MergePartial W = merge_partial W (cases_of W ChessBoardInfoReq_proto)"
  "ChessBoardInfoReq_ByteSize W = size_of W ChessBoardInfoReq_proto"
  "ChessBoardInfoReq_Serialize W = ser_of W ChessBoardInfoReq_proto"
  "ChessBoardInfoReq_ToArray W = arr_of W ChessBoardInfoReq_proto"
  "ChessBoardInfoReq_MergeFrom W = merge_of W ChessBoardInfoReq_proto"
  "ChessBoardInfoReq_IsInitialized = init_of ChessBoardInfoReq_proto"
  "ChessBoardInfoReq_Clear ChessBoardInfoReq_new = ChessBoardInfoReq_new"
  unfolding ChessBoardInfoReq_proto_def
  by (simp_all add: ChessBoardInfoReq_new_def ChessBoardInfoReq_MergePartial_def ChessBoardInfoReq_ByteSize_def ChessBoardInfoReq_Serialize_def ChessBoardInfoReq_ToArray_def ChessBoardInfoReq_MergeFrom_def ChessBoardInfoReq_IsInitialized_def ChessBoardInfoReq_Clear_def fun_eq_iff class_simps )

lemma ChessBoardInfo_agrees [class_agrees]:
  "ChessBoardInfo_new = new_of ChessBoardInfo_proto"
  "ChessBoardInfo_MergePartial W = merge_partial W (cases_of W ChessBoardInfo_proto)"
  "ChessBoardInfo_ByteSize W = size_of W ChessBoardInfo_proto"
  "ChessBoardInfo_Serialize W = ser_of W ChessBoardInfo_proto"
  "ChessBoardInfo_ToArray W = arr_of W ChessBoardInfo_proto"
  "ChessBoardInfo_MergeFrom W = merge_of W ChessBoardInfo_proto"
  "ChessBoardInfo_IsInitialized = init_of ChessBoardInfo_proto"
  "ChessBoardInfo_Clear ChessBoardInfo_new = ChessBoardInfo_new"
  unfolding ChessBoardInfo_proto_def
  by (simp_all add: ChessBoardInfo_new_def ChessBoardInfo_MergePartial_def ChessBoardInfo_ByteSize_def ChessBoardInfo_Serialize_def ChessBoardInfo_ToArray_def ChessBoardInfo_MergeFrom_def ChessBoardInfo_IsInitialized_def ChessBoardInfo_Clear_def fun_eq_iff class_simps ChessBoardUser_agrees conj_ac)

lemma HallInfoReq_agrees [class_agrees]:
  "HallInfoReq_new = new_of HallInfoReq_proto"
  "HallInfoReq_MergePartial W = merge_partial W (cases_of W HallInfoReq_proto)"
  "HallInfoReq_ByteSize W = size_of W HallInfoReq_proto"
  "HallInfoReq_Serialize W = ser_of W HallInfoReq_proto"
  "HallInfoReq_ToArray W = arr_of W HallInfoReq_proto"
  "HallInfoReq_MergeFrom W = merge_of W HallInfoReq_proto"
  "HallInfoReq_IsInitialized = init_of HallInfoReq_proto"
  "HallInfoReq_Clear HallInfoReq_new = HallInfoReq_new"
  unfolding HallInfoReq_proto_def
  by (simp_all add: HallInfoReq_new_def HallInfoReq_MergePartial_def HallInfoReq_ByteSize_def HallInfoReq_Serialize_def HallInfoReq_ToArray_def HallInfoReq_MergeFrom_def HallInfoReq_IsInitialized_def HallInfoReq_Clear_def fun_eq_iff class_simps )

lemma HallInfo_agrees [class_agrees]:
  "HallInfo_new = new_of HallInfo_proto"
  "HallInfo_MergePartial W = merge_partial W (cases_of W HallInfo_proto)"
  "HallInfo_ByteSize W = size_of W HallInfo_proto"
  "HallInfo_Serialize W = ser_of W HallInfo_proto"
  "HallInfo_ToArray W = arr_of W HallInfo_proto"
  "HallInfo_MergeFrom W = merge_of W HallInfo_proto"
  "HallInfo_IsInitialized = init_of HallInfo_proto"
  "HallInfo_Clear HallInfo_new = HallInfo_new"
  unfolding HallInfo_proto_def
  by (simp_all add: HallInfo_new_def HallInfo_MergePartial_def HallInfo_ByteSize_def HallInfo_Serialize_def HallInfo_ToArray_def HallInfo_MergeFrom_def HallInfo_IsInitialized_def HallInfo_Clear_def fun_eq_iff class_simps ChessBoardInfo_agrees conj_ac)

lemma GameHallSumaryReq_agrees [class_agrees]:
  "GameHallSumaryReq_new = new_of GameHallSumaryReq_proto"
  "GameHallSumaryReq_MergePartial W = merge_partial W (cases_of W GameHallSumaryReq_proto)"
  "GameHallSumaryReq_ByteSize W = size_of W GameHallSumaryReq_proto"
  "GameHallSumaryReq_Serialize W = ser_of W GameHallSumaryReq_proto"
  "GameHallSumaryReq_ToArray W = arr_of W GameHallSumaryReq_proto"
  "GameHallSumaryReq_MergeFrom W = merge_of W GameHallSumaryReq_proto"
  "GameHallSumaryReq_IsInitialized = init_of GameHallSumaryReq_proto"
  "GameHallSumaryReq_Clear GameHallSumaryReq_new = GameHallSumaryReq_new"
  unfolding GameHallSumaryReq_proto_def
  by (simp_all add: GameHallSumaryReq_new_def GameHallSumaryReq_MergePartial_def GameHallSumaryReq_ByteSize_def GameHallSumaryReq_Serialize_def GameHallSumaryReq_ToArray_def GameHallSumaryReq_MergeFrom_def GameHallSumaryReq_IsInitialized_def GameHallSumaryReq_Clear_def fun_eq_iff class_simps )

lemma GameHallSumary_agrees [class_agrees]:
  "GameHallSumary_new = new_of GameHallSumary_proto"
  "GameHallSumary_MergePartial W = merge_partial W (cases_of W GameHallSumary_proto)"
  "GameHallSumary_ByteSize W = size_of W GameHallSumary_proto"
  "GameHallSumary_Serialize W = ser_of W GameHallSumary_proto"
  "GameHallSumary_ToArray W = arr_of W GameHallSumary_proto"
  "GameHallSumary_MergeFrom W = merge_of W GameHallSumary_proto"
  "GameHallSumary_IsInitialized = init_of GameHallSumary_proto"
  "GameHallSumary_Clear GameHallSumary_new = GameHallSumary_new"
  unfolding GameHallSumary_proto_def
  by (simp_all add: GameHallSumary_new_def GameHallSumary_MergePartial_def GameHallSumary_ByteSize_def GameHallSumary_Serialize_def GameHallSumary_ToArray_def GameHallSumary_MergeFrom_def GameHallSumary_IsInitialized_def GameHallSumary_Clear_def fun_eq_iff class_simps HallInfo_agrees conj_ac)

lemma RequestPlay_agrees [class_agrees]:
  "RequestPlay_new = new_of RequestPlay_proto"
  "RequestPlay_MergePartial W = merge_partial W (cases_of W RequestPlay_proto)"
  "RequestPlay_ByteSize W = size_of W RequestPlay_proto"
  "RequestPlay_Serialize W = ser_of W RequestPlay_proto"
  "RequestPlay_ToArray W = arr_of W RequestPlay_proto"
  "RequestPlay_MergeFrom W = merge_of W RequestPlay_proto"
  "RequestPlay_IsInitialized = init_of RequestPlay_proto"
  "RequestPlay_Clear RequestPlay_new = RequestPlay_new"
  unfolding RequestPlay_proto_def
  by (simp_all add: RequestPlay_new_def RequestPlay_MergePartial_def RequestPlay_ByteSize_def RequestPlay_Serialize_def RequestPlay_ToArray_def RequestPlay_MergeFrom_def RequestPlay_IsInitialized_def RequestPlay_Clear_def fun_eq_iff class_simps )

lemma RequestPlayReply_agrees [class_agrees]:
  "RequestPlayReply_new = new_of RequestPlayReply_proto"
  "RequestPlayReply_MergePartial W = merge_partial W (cases_of W RequestPlayReply_proto)"
  "RequestPlayReply_ByteSize W = size_of W RequestPlayReply_proto"
  "RequestPlayReply_Serialize W = ser_of W RequestPlayReply_proto"
  "RequestPlayReply_ToArray W = arr_of W RequestPlayReply_proto"
  "RequestPlayReply_MergeFrom W = merge_of W RequestPlayReply_proto"
  "RequestPlayReply_IsInitialized = init_of RequestPlayReply_proto"
  "RequestPlayReply_Clear RequestPlayReply_new = RequestPlayReply_new"
  unfolding RequestPlayReply_proto_def
  by (simp_all add: RequestPlayReply_new_def RequestPlayReply_MergePartial_def RequestPlayReply_ByteSize_def RequestPlayReply_Serialize_def RequestPlayReply_ToArray_def RequestPlayReply_MergeFrom_def RequestPlayReply_IsInitialized_def RequestPlayReply_Clear_def fun_eq_iff class_simps ChessBoardInfo_agrees conj_ac)

lemma MoveChess_agrees [class_agrees]:
  "MoveChess_new = new_of MoveChess_proto"
  "MoveChess_MergePartial W = merge_partial W (cases_of W MoveChess_proto)"
  "MoveChess_ByteSize W = size_of W MoveChess_proto"
  "MoveChess_Serialize W = ser_of W MoveChess_proto"
  "MoveChess_ToArray W = arr_of W MoveChess_proto"
  "MoveChess_MergeFrom W = merge_of W MoveChess_proto"
  "MoveChess_IsInitialized = init_of MoveChess_proto"
  "MoveChess_Clear MoveChess_new = MoveChess_new"
  unfolding MoveChess_proto_def
  by (simp_all add: MoveChess_new_def MoveChess_MergePartial_def MoveChess_ByteSize_def MoveChess_Serialize_def MoveChess_ToArray_def MoveChess_MergeFrom_def MoveChess_IsInitialized_def MoveChess_Clear_def fun_eq_iff class_simps )

lemma MoveAction_agrees [class_agrees]:
  "MoveAction_new = new_of MoveAction_proto"
  "MoveAction_MergePartial W = merge_partial W (cases_of W MoveAction_proto)"
  "MoveAction_ByteSize W = size_of W MoveAction_proto"
  "MoveAction_Serialize W = ser_of W MoveAction_proto"
  "MoveAction_ToArray W = arr_of W MoveAction_proto"
  "MoveAction_MergeFrom W = merge_of W MoveAction_proto"
  "MoveAction_IsInitialized = init_of MoveAction_proto"
  "MoveAction_Clear MoveAction_new = MoveAction_new"
  unfolding MoveAction_proto_def
  by (simp_all add: MoveAction_new_def MoveAction_MergePartial_def MoveAction_ByteSize_def MoveAction_Serialize_def MoveAction_ToArray_def MoveAction_MergeFrom_def MoveAction_IsInitialized_def MoveAction_Clear_def fun_eq_iff class_simps MoveChess_agrees conj_ac)

lemma UserMessage_agrees [class_agrees]:
  "UserMessage_new = new_of UserMessage_proto"
  "UserMessage_MergePartial W = merge_partial W (cases_of W UserMessage_proto)"
  "UserMessage_ByteSize W = size_of W UserMessage_proto"
  "UserMessage_Serialize W = ser_of W UserMessage_proto"
  "UserMessage_ToArray W = arr_of W UserMessage_proto"
  "UserMessage_MergeFrom W = merge_of W UserMessage_proto"
  "UserMessage_IsInitialized = init_of UserMessage_proto"
  "UserMessage_Clear UserMessage_new = UserMessage_new"
  unfolding UserMessage_proto_def
  by (simp_all add: UserMessage_new_def UserMessage_MergePartial_def UserMessage_ByteSize_def UserMessage_Serialize_def UserMessage_ToArray_def UserMessage_MergeFrom_def UserMessage_IsInitialized_def UserMessage_Clear_def fun_eq_iff class_simps )

lemma SystemMessage_agrees [class_agrees]:
  "SystemMessage_new = new_of SystemMessage_proto"
  "SystemMessage_MergePartial W = merge_partial W (cases_of W SystemMessage_proto)"
  "SystemMessage_ByteSize W = size_of W SystemMessage_proto"
  "SystemMessage_Serialize W = ser_of W SystemMessage_proto"
  "SystemMessage_ToArray W = arr_of W SystemMessage_proto"
  "SystemMessage_MergeFrom W = merge_of W SystemMessage_proto"
  "SystemMessage_IsInitialized = init_of SystemMessage_proto"
  "SystemMessage_Clear SystemMessage_new = SystemMessage_new"
  unfolding SystemMessage_proto_def
  by (simp_all add: SystemMessage_new_def SystemMessage_MergePartial_def SystemMessage_ByteSize_def SystemMessage_Serialize_def SystemMessage_ToArray_def SystemMessage_MergeFrom_def SystemMessage_IsInitialized_def SystemMessage_Clear_def fun_eq_iff class_simps )

lemma Reconciled_agrees [class_agrees]:
  "Reconciled_new = new_of Reconciled_proto"
  "Reconciled_MergePartial W = merge_partial W (cases_of W Reconciled_proto)"
  "Reconciled_ByteSize W = size_of W Reconciled_proto"
  "Reconciled_Serialize W = ser_of W Reconciled_proto"
  "Reconciled_ToArray W = arr_of W Reconciled_proto"
  "Reconciled_MergeFrom W = merge_of W Reconciled_proto"
  "Reconciled_IsInitialized = init_of Reconciled_proto"
  "Reconciled_Clear Reconciled_new = Reconciled_new"
  unfolding Reconciled_proto_def
  by (simp_all add: Reconciled_new_def Reconciled_MergePartial_def Reconciled_ByteSize_def Reconciled_Serialize_def Reconciled_ToArray_def Reconciled_MergeFrom_def Reconciled_IsInitialized_def Reconciled_Clear_def fun_eq_iff class_simps )

lemma GiveUp_agrees [class_agrees]:
  "GiveUp_new = new_of GiveUp_proto"
  "GiveUp_MergePartial W = merge_partial W (cases_of W GiveUp_proto)"
  "GiveUp_ByteSize W = size_of W GiveUp_proto"
  "GiveUp_Serialize W = ser_of W GiveUp_proto"
  "GiveUp_ToArray W = arr_of W GiveUp_proto"
  "GiveUp_MergeFrom W = merge_of W GiveUp_proto"
  "GiveUp_IsInitialized = init_of GiveUp_proto"
  "GiveUp_Clear GiveUp_new = GiveUp_new"
  unfolding GiveUp_proto_def
  by (simp_all add: GiveUp_new_def GiveUp_MergePartial_def GiveUp_ByteSize_def GiveUp_Serialize_def GiveUp_ToArray_def GiveUp_MergeFrom_def GiveUp_IsInitialized_def GiveUp_Clear_def fun_eq_iff class_simps )

lemma Undo_agrees [class_agrees]:
  "Undo_new = new_of Undo_proto"
  "Undo_MergePartial W = merge_partial W (cases_of W Undo_proto)"
  "Undo_ByteSize W = size_of W Undo_proto"
  "Undo_Serialize W = ser_of W Undo_proto"
  "Undo_ToArray W = arr_of W Undo_proto"
  "Undo_MergeFrom W = merge_of W Undo_proto"
  "Undo_IsInitialized = init_of Undo_proto"
  "Undo_Clear Undo_new = Undo_new"
  unfolding Undo_proto_def
  by (simp_all add: Undo_new_def Undo_MergePartial_def Undo_ByteSize_def Undo_Serialize_def Undo_ToArray_def Undo_MergeFrom_def Undo_IsInitialized_def Undo_Clear_def fun_eq_iff class_simps )

lemma GameReadyReq_agrees [class_agrees]:
  "GameReadyReq_new = new_of GameReadyReq_proto"
  "GameReadyReq_MergePartial W = merge_partial W (cases_of W GameReadyReq_proto)"
  "GameReadyReq_ByteSize W = size_of W GameReadyReq_proto"
  "GameReadyReq_Serialize W = ser_of W GameReadyReq_proto"
  "GameReadyReq_ToArray W = arr_of W GameReadyReq_proto"
  "GameReadyReq_MergeFrom W = merge_of W GameReadyReq_proto"
  "GameReadyReq_IsInitialized = init_of GameReadyReq_proto"
  "GameReadyReq_Clear GameReadyReq_new = GameReadyReq_new"
  unfolding GameReadyReq_proto_def
  by (simp_all add: GameReadyReq_new_def GameReadyReq_MergePartial_def GameReadyReq_ByteSize_def GameReadyReq_Serialize_def GameReadyReq_ToArray_def GameReadyReq_MergeFrom_def GameReadyReq_IsInitialized_def GameReadyReq_Clear_def fun_eq_iff class_simps )

lemma GameStatusReply_agrees [class_agrees]:
  "GameStatusReply_new = new_of GameStatusReply_proto"
  "GameStatusReply_MergePartial W = merge_partial W (cases_of W GameStatusReply_proto)"
  "GameStatusReply_ByteSize W = size_of W GameStatusReply_proto"
  "GameStatusReply_Serialize W = ser_of W GameStatusReply_proto"
  "GameStatusReply_ToArray W = arr_of W GameStatusReply_proto"
  "GameStatusReply_MergeFrom W = merge_of W GameStatusReply_proto"
  "GameStatusReply_IsInitialized = init_of GameStatusReply_proto"
  "GameStatusReply_Clear GameStatusReply_new = GameStatusReply_new"
  unfolding GameStatusReply_proto_def
  by (simp_all add: GameStatusReply_new_def GameStatusReply_MergePartial_def GameStatusReply_ByteSize_def GameStatusReply_Serialize_def GameStatusReply_ToArray_def GameStatusReply_MergeFrom_def GameStatusReply_IsInitialized_def GameStatusReply_Clear_def fun_eq_iff class_simps )

lemma FindPassword_agrees [class_agrees]:
  "FindPassword_new = new_of FindPassword_proto"
  "FindPassword_MergePartial W = merge_partial W (cases_of W FindPassword_proto)"
  "FindPassword_ByteSize W = size_of W FindPassword_proto"
  "FindPassword_Serialize W = ser_of W FindPassword_proto"
  "FindPassword_ToArray W = arr_of W FindPassword_proto"
  "FindPassword_MergeFrom W = merge_of W FindPassword_proto"
  "FindPassword_IsInitialized = init_of FindPassword_proto"
  "FindPassword_Clear FindPassword_new = FindPassword_new"
  unfolding FindPassword_proto_def
  by (simp_all add: FindPassword_new_def FindPassword_MergePartial_def FindPassword_ByteSize_def FindPassword_Serialize_def FindPassword_ToArray_def FindPassword_MergeFrom_def FindPassword_IsInitialized_def FindPassword_Clear_def fun_eq_iff class_simps )

lemma UpdateUserInfo_agrees [class_agrees]:
  "UpdateUserInfo_new = new_of UpdateUserInfo_proto"
  "UpdateUserInfo_MergePartial W = merge_partial W (cases_of W UpdateUserInfo_proto)"
  "UpdateUserInfo_ByteSize W = size_of W UpdateUserInfo_proto"
  "UpdateUserInfo_Serialize W = ser_of W UpdateUserInfo_proto"
  "UpdateUserInfo_ToArray W = arr_of W UpdateUserInfo_proto"
  "UpdateUserInfo_MergeFrom W = merge_of W UpdateUserInfo_proto"
  "UpdateUserInfo_IsInitialized = init_of UpdateUserInfo_proto"
  "UpdateUserInfo_Clear UpdateUserInfo_new = UpdateUserInfo_new"
  unfolding UpdateUserInfo_proto_def
  by (simp_all add: UpdateUserInfo_new_def UpdateUserInfo_MergePartial_def UpdateUserInfo_ByteSize_def UpdateUserInfo_Serialize_def UpdateUserInfo_ToArray_def UpdateUserInfo_MergeFrom_def UpdateUserInfo_IsInitialized_def UpdateUserInfo_Clear_def fun_eq_iff class_simps )

lemma AdPictureItemReply_agrees [class_agrees]:
  "AdPictureItemReply_new = new_of AdPictureItemReply_proto"
  "AdPictureItemReply_MergePartial W = merge_partial W (cases_of W AdPictureItemReply_proto)"
  "AdPictureItemReply_ByteSize W = size_of W AdPictureItemReply_proto"
  "AdPictureItemReply_Serialize W = ser_of W AdPictureItemReply_proto"
  "AdPictureItemReply_ToArray W = arr_of W AdPictureItemReply_proto"
  "AdPictureItemReply_MergeFrom W = merge_of W AdPictureItemReply_proto"
  "AdPictureItemReply_IsInitialized = init_of AdPictureItemReply_proto"
  "AdPictureItemReply_Clear AdPictureItemReply_new = AdPictureItemReply_new"
  unfolding AdPictureItemReply_proto_def
  by (simp_all add: AdPictureItemReply_new_def AdPictureItemReply_MergePartial_def AdPictureItemReply_ByteSize_def AdPictureItemReply_Serialize_def AdPictureItemReply_ToArray_def AdPictureItemReply_MergeFrom_def AdPictureItemReply_IsInitialized_def AdPictureItemReply_Clear_def fun_eq_iff class_simps )

lemma AdPictureReq_agrees [class_agrees]:
  "AdPictureReq_new = new_of AdPictureReq_proto"
  "AdPictureReq_MergePartial W = merge_partial W (cases_of W AdPictureReq_proto)"
  "AdPictureReq_ByteSize W = size_of W AdPictureReq_proto"
  "AdPictureReq_Serialize W = ser_of W AdPictureReq_proto"
  "AdPictureReq_ToArray W = arr_of W AdPictureReq_proto"
  "AdPictureReq_MergeFrom W = merge_of W AdPictureReq_proto"
  "AdPictureReq_IsInitialized = init_of AdPictureReq_proto"
  "AdPictureReq_Clear AdPictureReq_new = AdPictureReq_new"
  unfolding AdPictureReq_proto_def
  by (simp_all add: AdPictureReq_new_def AdPictureReq_MergePartial_def AdPictureReq_ByteSize_def AdPictureReq_Serialize_def AdPictureReq_ToArray_def AdPictureReq_MergeFrom_def AdPictureReq_IsInitialized_def AdPictureReq_Clear_def fun_eq_iff class_simps )

lemma AdPictureContentReply_agrees [class_agrees]:
  "AdPictureContentReply_new = new_of AdPictureContentReply_proto"
  "AdPictureContentReply_MergePartial W = merge_partial W (cases_of W AdPictureContentReply_proto)"
  "AdPictureContentReply_ByteSize W = size_of W AdPictureContentReply_proto"
  "AdPictureContentReply_Serialize W = ser_of W AdPictureContentReply_proto"
  "AdPictureContentReply_ToArray W = arr_of W AdPictureContentReply_proto"
  "AdPictureContentReply_MergeFrom W = merge_of W AdPictureContentReply_proto"
  "AdPictureContentReply_IsInitialized = init_of AdPictureContentReply_proto"
  "AdPictureContentReply_Clear AdPictureContentReply_new = AdPictureContentReply_new"
  unfolding AdPictureContentReply_proto_def
  by (simp_all add: AdPictureContentReply_new_def AdPictureContentReply_MergePartial_def AdPictureContentReply_ByteSize_def AdPictureContentReply_Serialize_def AdPictureContentReply_ToArray_def AdPictureContentReply_MergeFrom_def AdPictureContentReply_IsInitialized_def AdPictureContentReply_Clear_def fun_eq_iff class_simps )

end
