(* ===== verification/Pb_Merge.thy ===== *)
theory Pb_Merge
  imports Pb_Reference
begin

text \<open>
  Properties of the reference functions, for every declaration: \<open>ByteSize\<close> is the number of
  bytes the serializers write, both serializers write the same, and parsing what a message serializes
  to merges it into the object that is parsed into.
\<close>

section \<open>Facts about the runtime\<close>

lemma tag_facts:
  assumes "tags_ok W" "plain_tag i w"
  shows "tag_of i w \<noteq> 0" "tag_field W (tag_of i w) = i" "tag_wire W (tag_of i w) = w" "length (write_tag W (tag_of i w)) = 1"
    "read_tag W (write_tag W (tag_of i w) @ r) = (tag_of i w, r)"
  using assms unfolding tags_ok_def by blast+

lemma wire_okD:
  assumes "wire_ok W"
  shows "tags_ok W" "ends_ok W" "reads_ok W" "writes_ok W" "arrays_ok W" "sizes_ok W" "whole_ok W"
  using assms by (simp_all add: wire_ok_def)

lemma unknown_facts:
  assumes "wire_ok W"
  shows "unknown_size W u = length (write_unknown W u)" "array_unknown W u t = t @ write_unknown W u" "merge_unknown W u [] = u"
  using wire_okD(7) [OF assms] unfolding whole_ok_def by blast+

lemma plain_tagI: "1 \<le> i \<Longrightarrow> i \<le> 15 \<Longrightarrow> plain_tag i (wire_of ty)"
  by (cases ty) (simp_all add: plain_tag_def)

section \<open>The sizes\<close>

lemma message_written:
  assumes "wire_ok W"
  shows "write_message W i (length p) p = write_tag W (tag_of i WIRETYPE_LENGTH_DELIMITED) @ enc_delimited W p"
    "message_size W (length p) = length (enc_delimited W p)"
  using wire_okD(4,6) [OF assms] by (simp_all add: writes_ok_def sizes_ok_def)

lemma len_plain:
  assumes W: "wire_ok W" and i: "1 \<le> i" "i \<le> 15"
  shows "uint32_len W 1 i ob = length (uint32_out W i ob)" "int32_len W 1 i ob = length (int32_out W i ob)"
    "bool_len 1 1 i ob = length (bool_out W i ob)" "string_len W 1 i ob = length (string_out W i ob)"
    "bytes_len W 1 i ob = length (bytes_out W i ob)"
proof -
  have t: "length (write_tag W (tag_of i WIRETYPE_VARINT)) = 1" "length (write_tag W (tag_of i WIRETYPE_LENGTH_DELIMITED)) = 1"
    using tag_facts(4) [OF wire_okD(1) [OF W]] i by (simp_all add: plain_tag_def)
  show "uint32_len W 1 i ob = length (uint32_out W i ob)" "int32_len W 1 i ob = length (int32_out W i ob)"
    "string_len W 1 i ob = length (string_out W i ob)" "bytes_len W 1 i ob = length (bytes_out W i ob)"
    using t wire_okD(4,6) [OF W]
    by (simp_all add: uint32_len_def uint32_out_def int32_len_def int32_out_def string_len_def string_out_def
      bytes_len_def bytes_out_def writes_ok_def sizes_ok_def)
  show "bool_len 1 1 i ob = length (bool_out W i ob)"
    using t wire_okD(3,4) [OF W] by (simp add: bool_len_def bool_out_def writes_ok_def reads_ok_def)
qed

lemma len_message:
  assumes W: "wire_ok W" and i: "1 \<le> i" "i \<le> 15" and sz: "\<And>ob. sz ob = length (ser ob)"
  shows "message_len W 1 i new sz ob = length (message_out W i new sz ser ob)"
    "messages_len W 1 i sz ob = length (messages_out W i sz ser ob)"
proof -
  have t: "length (write_tag W (tag_of i WIRETYPE_LENGTH_DELIMITED)) = 1"
    using tag_facts(4) [OF wire_okD(1) [OF W]] i by (simp add: plain_tag_def)
  show "message_len W 1 i new sz ob = length (message_out W i new sz ser ob)"
    using t by (simp add: message_len_def message_out_def Let_def sz message_written [OF W])
  have "length obs + (\<Sum>sub \<leftarrow> obs. message_size W (length (ser sub))) =
      length (concat (map (\<lambda>sub. write_message W i (length (ser sub)) (ser sub)) obs))" for obs
    by (induction obs) (simp_all add: t message_written [OF W])
  then show "messages_len W 1 i sz ob = length (messages_out W i sz ser ob)"
    by (simp add: messages_len_def messages_out_def sz)
qed

lemma size_is_length:
  shows "wire_ok W \<Longrightarrow> declared d \<Longrightarrow> size_of W d ob = length (ser_of W d ob)"
    and "wire_ok W \<Longrightarrow> declared_fields fs \<Longrightarrow> 1 \<le> i \<Longrightarrow> i + length fs \<le> 16 \<Longrightarrow>
      sizes_from W i fs ob = length (sers_from W i fs ob)"
    and "wire_ok W \<Longrightarrow> declared_type ty \<Longrightarrow> 1 \<le> i \<Longrightarrow> i \<le> 15 \<Longrightarrow>
      len_of W i lb ty ob = length (out_of W i lb ty ob)"
proof (induction W d and W i fs and W i lb ty arbitrary: ob and ob and ob rule: size_of_sizes_from_len_of.induct)
  case (1 W fs)
  then show ?case by (simp add: unknown_len_def unknown_out_def unknown_facts)
next
  case (9 W i lb d)
  have sz: "size_of W d ob = length (ser_of W d ob)" for ob
    using 9(1,2) 9(3,4) by (cases "lb = Repeated") simp_all
  show ?case using len_message [OF 9(3) 9(5,6) sz] by simp
qed (simp_all add: len_plain [unfolded One_nat_def])

section \<open>The two serializers\<close>

lemma arr_plain:
  assumes "wire_ok W"
  shows "uint32_arr W i ob t = t @ uint32_out W i ob" "int32_arr W i ob t = t @ int32_out W i ob"
    "bool_arr W i ob t = t @ bool_out W i ob" "string_arr W i ob t = t @ string_out W i ob"
    "bytes_arr W i ob t = t @ bytes_out W i ob" "unknown_arr W ob t = t @ unknown_out W ob"
  using wire_okD(5) [OF assms] unknown_facts(2) [OF assms]
  by (simp_all add: arrays_ok_def uint32_arr_def uint32_out_def int32_arr_def int32_out_def bool_arr_def bool_out_def
    string_arr_def string_out_def bytes_arr_def bytes_out_def unknown_arr_def unknown_out_def)

lemma arr_message:
  assumes W: "wire_ok W" and arr: "\<And>ob t. arr ob t = t @ ser ob"
  shows "message_arr W i new sz arr ob t = t @ message_out W i new sz ser ob"
    "messages_arr W i sz arr ob t = t @ messages_out W i sz ser ob"
proof -
  have m: "array_message W i n (arr sub) t = t @ write_message W i n (ser sub)" for n sub t
  proof -
    have "\<forall>t. arr sub t = t @ ser sub" using arr by blast
    then show ?thesis using wire_okD(5) [OF W] unfolding arrays_ok_def by blast
  qed
  show "message_arr W i new sz arr ob t = t @ message_out W i new sz ser ob"
    by (simp add: message_arr_def message_out_def Let_def m)
  have "fold (\<lambda>sub. array_message W i (sz sub) (arr sub)) obs t =
      t @ concat (map (\<lambda>sub. write_message W i (sz sub) (ser sub)) obs)" for obs
    by (induction obs arbitrary: t) (simp_all add: m)
  then show "messages_arr W i sz arr ob t = t @ messages_out W i sz ser ob"
    by (simp add: messages_arr_def messages_out_def)
qed

lemma array_is_stream:
  shows "wire_ok W \<Longrightarrow> arr_of W d ob t = t @ ser_of W d ob"
    and "wire_ok W \<Longrightarrow> arrs_from W i fs ob t = t @ sers_from W i fs ob"
    and "wire_ok W \<Longrightarrow> put_of W i lb ty ob t = t @ out_of W i lb ty ob"
proof (induction W d and W i fs and W i lb ty arbitrary: ob t and ob t and ob t rule: arr_of_arrs_from_put_of.induct)
  case (9 W i lb d)
  have "arr_of W d ob t = t @ ser_of W d ob" for ob t
    using 9 by (cases "lb = Repeated") simp_all
  then show ?case using arr_message [OF 9(3), of "arr_of W d" "ser_of W d"] by simp
qed (simp_all add: arr_plain)

section \<open>The parsing loop\<close>

text \<open>A serialized message is a sequence of items, one for each field that is set and each element
  of a repeated field. \<open>effect\<close> is what reading the item does to the object.\<close>

datatype item = Item (item_no: nat) (payload: bytes) (effect: "pb_obj \<Rightarrow> pb_obj")

definition case_at :: "pb_case list \<Rightarrow> nat \<Rightarrow> pb_case option" where
  "case_at cs l = find (\<lambda>c. field_no c = l) cs"

definition item_bytes :: "wire_lib \<Rightarrow> pb_case list \<Rightarrow> item \<Rightarrow> bytes" where
  "item_bytes W cs it = (case case_at cs (item_no it) of None \<Rightarrow> [] | Some c \<Rightarrow> write_tag W (tag_of (item_no it) (wire_type c)) @ payload it)"

definition item_ok :: "pb_case list \<Rightarrow> item \<Rightarrow> bool" where
  "item_ok cs it \<longleftrightarrow> payload it \<noteq> [] \<and> (\<exists>c. case_at cs (item_no it) = Some c \<and>
     (\<forall>n r ob. length (payload it) \<le> n \<longrightarrow> reader c n (payload it @ r) ob = Some (Some (effect it ob, r))))"

definition cases_ok :: "pb_case list \<Rightarrow> bool" where
  "cases_ok cs \<longleftrightarrow> (\<forall>c \<in> set cs. plain_tag (field_no c) (wire_type c) \<and>
     (\<forall>(t, l) \<in> set (nexts c). \<exists>c'. case_at cs l = Some c' \<and> t = tag_of l (wire_type c')))"

lemma case_atD: "case_at cs l = Some c \<Longrightarrow> c \<in> set cs \<and> field_no c = l"
  unfolding case_at_def by (metis (mono_tags, lifting) find_Some_iff nth_mem)

lemma item_bytes_eq: "case_at cs (item_no it) = Some c \<Longrightarrow>
    item_bytes W cs it = write_tag W (tag_of (item_no it) (wire_type c)) @ payload it"
  by (simp add: item_bytes_def)

lemma expected_sound:
  assumes "ends_ok W" "expected W ts bs = Some (l, r)"
  shows "\<exists>t. (t, l) \<in> set ts \<and> bs = write_tag W t @ r"
  using assms(2)
proof (induction ts)
  case (Cons tl ts)
  obtain t l' where tl: "tl = (t, l')" by (cases tl)
  show ?case
  proof (cases "expect_tag W t bs")
    case None
    then show ?thesis using Cons tl by auto
  next
    case (Some r')
    then have e: "expect_tag W t bs = Some r" "l' = l" using Cons.prems tl by auto
    then have "bs = write_tag W t @ r" using assms(1) unfolding ends_ok_def by blast
    then show ?thesis using e(2) tl by auto
  qed
qed simp

lemma parse_end: "ends_ok W \<Longrightarrow> parse_loop W cs (Suc n) None [] ob = Some (Merged ob True)"
  by (cases "read_tag W []") (simp add: ends_ok_def)

abbreviation items_bytes :: "wire_lib \<Rightarrow> pb_case list \<Rightarrow> item list \<Rightarrow> bytes" where
  "items_bytes W cs its \<equiv> concat (map (item_bytes W cs) its)"

lemma tag_unique:
  assumes "tags_ok W" "plain_tag i w" "plain_tag j v" "write_tag W (tag_of i w) @ r = write_tag W (tag_of j v) @ q"
  shows "i = j \<and> r = q"
proof -
  have "read_tag W (write_tag W (tag_of i w) @ r) = (tag_of j v, q)" using tag_facts(5) [OF assms(1,3)] assms(4) by simp
  then have e: "tag_of i w = tag_of j v" "r = q" using tag_facts(5) [OF assms(1,2)] by simp_all
  have "tag_field W (tag_of i w) = tag_field W (tag_of j v)" using e(1) by simp
  then have "i = j" using tag_facts(2) [OF assms(1,2)] tag_facts(2) [OF assms(1,3)] by simp
  with e(2) show ?thesis by simp
qed

lemma case_plain: "cases_ok cs \<Longrightarrow> case_at cs l = Some c \<Longrightarrow> plain_tag l (wire_type c)"
  using case_atD unfolding cases_ok_def by blast

text \<open>What follows a field is the next item, whether its tag is expected or read.\<close>

lemma after_field:
  assumes W: "tags_ok W" "ends_ok W" and cs: "cases_ok cs" "c \<in> set cs" and its: "\<forall>it \<in> set its. item_ok cs it"
    and none: "parse_loop W cs n None (items_bytes W cs its) ob = Some (Merged (fold effect its ob) True)"
    and some: "\<And>it its'. its = it # its' \<Longrightarrow>
      parse_loop W cs n (Some (item_no it)) (payload it @ items_bytes W cs its') ob = Some (Merged (fold effect its ob) True)"
  shows "(case expected W (nexts c) (items_bytes W cs its) of Some (l, bs) \<Rightarrow> parse_loop W cs n (Some l) bs ob
      | None \<Rightarrow> if at_end c \<and> expect_end W (items_bytes W cs its) then Some (Merged ob True)
          else parse_loop W cs n None (items_bytes W cs its) ob) = Some (Merged (fold effect its ob) True)"
proof (cases "expected W (nexts c) (items_bytes W cs its)")
  case None
  have "its = []" if "items_bytes W cs its = []"
  proof (cases its)
    case (Cons it its')
    then obtain c' where "case_at cs (item_no it) = Some c'" "payload it \<noteq> []" using its by (auto simp: item_ok_def)
    then show ?thesis using that Cons by (simp add: item_bytes_eq)
  qed simp
  then have "expect_end W (items_bytes W cs its) \<Longrightarrow> its = []" using W(2) unfolding ends_ok_def by blast
  then show ?thesis using None none by auto
next
  case (Some lr)
  obtain l r where lr: "lr = (l, r)" by (cases lr)
  obtain t where t: "(t, l) \<in> set (nexts c)" "items_bytes W cs its = write_tag W t @ r"
    using expected_sound [OF W(2), of "nexts c" "items_bytes W cs its" l r] Some lr by blast
  then obtain c' where c': "case_at cs l = Some c'" "t = tag_of l (wire_type c')"
    using cs unfolding cases_ok_def by blast
  have p': "plain_tag l (wire_type c')" by (rule case_plain [OF cs(1) c'(1)])
  have "length (write_tag W t) = 1" using tag_facts(4) [OF W(1) p'] c'(2) by simp
  then have "its \<noteq> []" using t(2) by auto
  then obtain it its' where Cons: "its = it # its'" by (cases its) auto
  then obtain c2 where c2: "case_at cs (item_no it) = Some c2" using its by (auto simp: item_ok_def)
  have p2: "plain_tag (item_no it) (wire_type c2)" by (rule case_plain [OF cs(1) c2])
  have "write_tag W (tag_of (item_no it) (wire_type c2)) @ (payload it @ items_bytes W cs its') =
      write_tag W (tag_of l (wire_type c')) @ r"
    using t(2) c'(2) Cons by (simp add: item_bytes_eq [OF c2])
  from tag_unique [OF W(1) p2 p' this] have "l = item_no it" "r = payload it @ items_bytes W cs its'" by simp_all
  then show ?thesis using some [OF Cons] Some lr by simp
qed

lemma parse_items:
  assumes W: "tags_ok W" "ends_ok W" and cs: "cases_ok cs"
  shows "\<forall>it \<in> set its. item_ok cs it \<Longrightarrow>
    (\<forall>n ob. length (items_bytes W cs its) < n \<longrightarrow>
      parse_loop W cs n None (items_bytes W cs its) ob = Some (Merged (fold effect its ob) True)) \<and>
    (\<forall>it its' n ob. its = it # its' \<longrightarrow> length (payload it @ items_bytes W cs its') < n \<longrightarrow>
      parse_loop W cs n (Some (item_no it)) (payload it @ items_bytes W cs its') ob = Some (Merged (fold effect its ob) True))"
proof (induction its)
  case Nil
  have "parse_loop W cs n None [] ob = Some (Merged ob True)" if "0 < n" for n ob
    using that parse_end [OF W(2)] by (cases n) (simp_all del: parse_loop.simps)
  then show ?case by simp
next
  case (Cons it its)
  obtain c where c: "case_at cs (item_no it) = Some c" and pl: "payload it \<noteq> []"
    and rd: "\<And>n r ob. length (payload it) \<le> n \<Longrightarrow> reader c n (payload it @ r) ob = Some (Some (effect it ob, r))"
    using Cons.prems by (auto simp: item_ok_def)
  have oks: "\<forall>it \<in> set its. item_ok cs it" using Cons.prems by simp
  note IH = Cons.IH [OF oks]
  have p: "plain_tag (item_no it) (wire_type c)" by (rule case_plain [OF cs c])
  have c_in: "c \<in> set cs" using case_atD [OF c] by simp
  have read: "(case reader c n (payload it @ items_bytes W cs its) ob of None \<Rightarrow> None | Some None \<Rightarrow> Some Failed
      | Some (Some (ob, bs)) \<Rightarrow>
         (case expected W (nexts c) bs of Some (l, bs) \<Rightarrow> parse_loop W cs n (Some l) bs ob
          | None \<Rightarrow> if at_end c \<and> expect_end W bs then Some (Merged ob True) else parse_loop W cs n None bs ob)) =
      Some (Merged (fold effect its (effect it ob)) True)"
    if n: "length (payload it @ items_bytes W cs its) \<le> n" for n ob
  proof -
    have less: "length (items_bytes W cs its) < n" using n pl by (cases "payload it") simp_all
    have "parse_loop W cs n (Some (item_no it')) (payload it' @ items_bytes W cs its') ob' = Some (Merged (fold effect its ob') True)"
      if "its = it' # its'" for it' its' ob'
    proof -
      obtain c' where "case_at cs (item_no it') = Some c'" using oks \<open>its = it' # its'\<close> by (auto simp: item_ok_def)
      then have "length (payload it' @ items_bytes W cs its') \<le> length (items_bytes W cs its)"
        using \<open>its = it' # its'\<close> by (simp add: item_bytes_eq)
      then show ?thesis using IH less \<open>its = it' # its'\<close> by auto
    qed
    then show ?thesis using after_field [OF W cs c_in oks, of n] IH less rd n by simp
  qed
  have label: "parse_loop W cs n (Some (item_no it)) (payload it @ items_bytes W cs its) ob = Some (Merged (fold effect (it # its) ob) True)"
    if n: "length (payload it @ items_bytes W cs its) < n" for n ob
  proof -
    obtain k where k: "n = Suc k" using n by (cases n) auto
    have "find (\<lambda>c. field_no c = item_no it) cs = Some c" using c by (simp add: case_at_def)
    then show ?thesis using read [of k ob] n k by simp
  qed
  have "parse_loop W cs n None (items_bytes W cs (it # its)) ob = Some (Merged (fold effect (it # its) ob) True)"
    if n: "length (items_bytes W cs (it # its)) < n" for n ob
  proof -
    obtain k where k: "n = Suc k" using n by (cases n) auto
    have f: "find (\<lambda>c. field_no c = item_no it) cs = Some c" using c by (simp add: case_at_def)
    have b: "items_bytes W cs (it # its) = write_tag W (tag_of (item_no it) (wire_type c)) @ (payload it @ items_bytes W cs its)"
      by (simp add: item_bytes_eq [OF c])
    have r: "read_tag W (items_bytes W cs (it # its)) = (tag_of (item_no it) (wire_type c), payload it @ items_bytes W cs its)"
      unfolding b by (rule tag_facts(5) [OF W(1) p])
    have "length (payload it @ items_bytes W cs its) \<le> k" using n k tag_facts(4) [OF W(1) p] unfolding b by simp
    from read [OF this, of ob] show ?thesis
      unfolding k parse_loop.simps Let_def option.case r prod.case using tag_facts(1,2,3) [OF W(1) p] f by simp
  qed
  with label show ?case by blast
qed

section \<open>Well-typed objects\<close>

text \<open>An object of a class has a value of the declared type for each field, in it and its
  sub-messages, and here no unknown fields.\<close>

fun typed :: "descr \<Rightarrow> (pb_obj \<Rightarrow> bool)"
  and typed_from :: "nat \<Rightarrow> (label \<times> ftype) list \<Rightarrow> (pb_obj \<Rightarrow> bool)"
  and typed_val :: "label \<Rightarrow> ftype \<Rightarrow> (pb_val \<Rightarrow> bool)" where
  "typed (Msg fs) = (\<lambda>ob. unknown_fields ob = [] \<and> length (vals ob) = length fs \<and> typed_from 1 fs ob)"
| "typed_from i [] = (\<lambda>ob. True)"
| "typed_from i ((lb, ty) # fs) = (\<lambda>ob. typed_val lb ty (val i ob) \<and> typed_from (Suc i) fs ob)"
| "typed_val lb T_uint32 = (\<lambda>v. v = V_num (num_of v))"
| "typed_val lb T_int32 = (\<lambda>v. v = V_num (num_of v))"
| "typed_val lb T_bool = (\<lambda>v. v = V_bool (bool_of v))"
| "typed_val lb T_string = (\<lambda>v. v = V_str (str_of v))"
| "typed_val lb T_bytes = (\<lambda>v. v = V_str (str_of v))"
| "typed_val lb (T_msg d) = (\<lambda>v. if lb = Repeated then v = V_rep (objs_of v) \<and> list_all (typed d) (objs_of v)
     else (case v of V_ptr None \<Rightarrow> True | V_ptr (Some sub) \<Rightarrow> typed d sub | _ \<Rightarrow> False))"

text \<open>What reading a serialized message does to an object, field by field.\<close>

definition added :: "nat \<Rightarrow> pb_obj \<Rightarrow> pb_obj \<Rightarrow> pb_obj" where
  "added i sub ob = put_at i (V_rep (objs_of (val i ob) @ [sub])) ob"

definition messages_eff :: "nat \<Rightarrow> pb_obj \<Rightarrow> (pb_obj \<Rightarrow> pb_obj \<Rightarrow> pb_obj) \<Rightarrow> pb_obj \<Rightarrow> pb_obj \<Rightarrow> pb_obj" where
  "messages_eff i new eff m ob = fold (\<lambda>sub. added i (eff sub new)) (objs_of (val i m)) ob"

fun eff_of :: "descr \<Rightarrow> (pb_obj \<Rightarrow> pb_obj \<Rightarrow> pb_obj)"
  and effs_from :: "nat \<Rightarrow> (label \<times> ftype) list \<Rightarrow> (pb_obj \<Rightarrow> pb_obj \<Rightarrow> pb_obj)"
  and eff_field :: "nat \<Rightarrow> label \<Rightarrow> ftype \<Rightarrow> (pb_obj \<Rightarrow> pb_obj \<Rightarrow> pb_obj)" where
  "eff_of (Msg fs) = (\<lambda>m ob. effs_from 1 fs m ob)"
| "effs_from i [] = (\<lambda>m ob. ob)"
| "effs_from i ((lb, ty) # fs) = (\<lambda>m ob. effs_from (Suc i) fs m (eff_field i lb ty m ob))"
| "eff_field i lb (T_msg d) = (\<lambda>m ob.
     if lb = Repeated then messages_eff i (new_of d) (eff_of d) m ob
     else message_from i (new_of d) (eff_of d) m ob)"
| "eff_field i lb T_uint32 = (\<lambda>m ob. set_from i m ob)"
| "eff_field i lb T_int32 = (\<lambda>m ob. set_from i m ob)"
| "eff_field i lb T_bool = (\<lambda>m ob. set_from i m ob)"
| "eff_field i lb T_string = (\<lambda>m ob. set_from i m ob)"
| "eff_field i lb T_bytes = (\<lambda>m ob. set_from i m ob)"

fun items_of :: "wire_lib \<Rightarrow> nat \<Rightarrow> label \<Rightarrow> ftype \<Rightarrow> pb_obj \<Rightarrow> item list" where
  "items_of W i lb T_uint32 m = (if has i m then [Item i (enc_uint32 W (num_of (val i m))) (set_from i m)] else [])"
| "items_of W i lb T_int32 m = (if has i m then [Item i (enc_int32 W (num_of (val i m))) (set_from i m)] else [])"
| "items_of W i lb T_bool m = (if has i m then [Item i (enc_bool W (bool_of (val i m))) (set_from i m)] else [])"
| "items_of W i lb T_string m = (if has i m then [Item i (enc_delimited W (str_of (val i m))) (set_from i m)] else [])"
| "items_of W i lb T_bytes m = (if has i m then [Item i (enc_delimited W (str_of (val i m))) (set_from i m)] else [])"
| "items_of W i lb (T_msg d) m =
     (if lb = Repeated
      then map (\<lambda>sub. Item i (enc_delimited W (ser_of W d sub)) (added i (eff_of d sub (new_of d)))) (objs_of (val i m))
      else if has i m
      then [Item i (enc_delimited W (ser_of W d (obj_of (new_of d) (val i m)))) (message_from i (new_of d) (eff_of d) m)]
      else [])"

fun items_from :: "wire_lib \<Rightarrow> nat \<Rightarrow> (label \<times> ftype) list \<Rightarrow> pb_obj \<Rightarrow> item list" where
  "items_from W i [] m = []"
| "items_from W i ((lb, ty) # fs) m = items_of W i lb ty m @ items_from W (Suc i) fs m"

lemma items_effect: "fold effect (items_of W i lb ty m) ob = eff_field i lb ty m ob"
  by (cases ty) (simp_all add: set_from_def message_from_def messages_eff_def fold_map comp_def)

lemma items_from_effect: "fold effect (items_from W i fs m) ob = effs_from i fs m ob"
  by (induction W i fs m arbitrary: ob rule: items_from.induct) (simp_all add: items_effect)

text \<open>The cases of a class.\<close>

lemma cases_from_at:
  "k < length fs \<Longrightarrow> case_at (cases_from W i fs) (i + k) =
     Some (Case (i + k) (wire_of (snd (fs ! k))) (reader_of W (i + k) (fst (fs ! k)) (snd (fs ! k)))
       (next_tags (i + k) (fst (fs ! k)) (snd (fs ! k)) (drop (Suc k) fs)) (drop (Suc k) fs = []))"
proof (induction fs arbitrary: i k)
  case (Cons f fs)
  obtain lb ty where f: "f = (lb, ty)" by (cases f)
  show ?case
  proof (cases k)
    case (Suc j)
    then show ?thesis using Cons.IH [of j "Suc i"] Cons.prems f by (simp add: case_at_def)
  qed (simp add: f case_at_def)
qed simp

lemma cases_from_no: "c \<in> set (cases_from W i fs) \<Longrightarrow> \<exists>k < length fs. field_no c = i + k \<and> case_at (cases_from W i fs) (i + k) = Some c"
proof (induction fs arbitrary: i)
  case (Cons f fs)
  obtain lb ty where f: "f = (lb, ty)" by (cases f)
  consider "c = Case i (wire_of ty) (reader_of W i lb ty) (next_tags i lb ty fs) (fs = [])" | "c \<in> set (cases_from W (Suc i) fs)"
    using Cons.prems f by auto
  then show ?case
  proof cases
    case 1
    then show ?thesis using f by (intro exI [of _ 0]) (simp add: case_at_def)
  next
    case 2
    from Cons.IH [OF this] obtain k where "k < length fs" "field_no c = Suc i + k" "case_at (cases_from W (Suc i) fs) (Suc i + k) = Some c"
      by blast
    then show ?thesis using f by (intro exI [of _ "Suc k"]) (simp add: case_at_def)
  qed
qed simp

lemma cases_ok_of:
  assumes "length fs \<le> 15"
  shows "cases_ok (cases_from W 1 fs)"
  unfolding cases_ok_def
proof (intro ballI)
  fix c assume "c \<in> set (cases_from W 1 fs)"
  from cases_from_no [OF this] obtain k where k: "k < length fs" "case_at (cases_from W 1 fs) (1 + k) = Some c" by blast
  from cases_from_at [OF k(1), of W 1] k(2) have c: "field_no c = Suc k" "wire_type c = wire_of (snd (fs ! k))"
    "nexts c = next_tags (Suc k) (fst (fs ! k)) (snd (fs ! k)) (drop (Suc k) fs)"
    by auto
  have "\<exists>c'. case_at (cases_from W 1 fs) l = Some c' \<and> t = tag_of l (wire_type c')" if tl: "(t, l) \<in> set (nexts c)" for t l
  proof (cases "t = tag_of (Suc k) (wire_of (snd (fs ! k))) \<and> l = Suc k")
    case True
    then show ?thesis using k(2) c by simp
  next
    case False
    have "Suc k < length fs" if "drop (Suc k) fs = f # fs'" for f fs'
      using that by (metis drop_all list.distinct(1) not_le)
    then have "Suc k < length fs \<and> t = tag_of (Suc (Suc k)) (wire_of (snd (fs ! Suc k))) \<and> l = Suc (Suc k)"
      using tl c(3) False by (cases "drop (Suc k) fs") (auto simp: next_tags_def nth_via_drop drop_eq_Nil split: if_splits prod.splits)
    then show ?thesis using cases_from_at [of "Suc k" fs W 1] by simp
  qed
  then show "plain_tag (field_no c) (wire_type c) \<and> (\<forall>(t, l) \<in> set (nexts c). \<exists>c'. case_at (cases_from W 1 fs) l = Some c' \<and> t = tag_of l (wire_type c'))"
    using c(1,2) k(1) assms plain_tagI by auto
qed

section \<open>Parsing what was serialized\<close>

lemma plain_written:
  assumes "wire_ok W"
  shows "write_uint32 W i v = write_tag W (tag_of i WIRETYPE_VARINT) @ enc_uint32 W v"
    "write_int32 W i v = write_tag W (tag_of i WIRETYPE_VARINT) @ enc_int32 W v"
    "write_bool W i b = write_tag W (tag_of i WIRETYPE_VARINT) @ enc_bool W b"
    "write_string W i s = write_tag W (tag_of i WIRETYPE_LENGTH_DELIMITED) @ enc_delimited W s"
    "write_bytes W i s = write_tag W (tag_of i WIRETYPE_LENGTH_DELIMITED) @ enc_delimited W s"
  using wire_okD(4) [OF assms] by (simp_all add: writes_ok_def)

lemma items_out:
  assumes W: "wire_ok W" and ty: "declared_type ty" and c: "case_at cs i = Some c" "wire_type c = wire_of ty"
  shows "items_bytes W cs (items_of W i lb ty m) = out_of W i lb ty m"
proof (cases ty)
  case (T_msg d)
  have "size_of W d ob = length (ser_of W d ob)" for ob using size_is_length(1) [OF W] ty T_msg by simp
  then have wr: "write_message W i (size_of W d ob) (ser_of W d ob) =
      write_tag W (tag_of i WIRETYPE_LENGTH_DELIMITED) @ enc_delimited W (ser_of W d ob)" for ob
    using message_written(1) [OF W] by simp
  have b: "item_bytes W cs (Item i p f) = write_tag W (tag_of i WIRETYPE_LENGTH_DELIMITED) @ p" for p f
    using item_bytes_eq [of cs "Item i p f" c W] c T_msg by simp
  show ?thesis using T_msg by (simp add: b wr messages_out_def message_out_def Let_def comp_def)
qed (use c in \<open>simp_all add: item_bytes_def uint32_out_def int32_out_def bool_out_def string_out_def bytes_out_def plain_written [OF W]\<close>)

lemma items_from_out:
  assumes W: "wire_ok W"
  shows "declared_fields fs \<Longrightarrow> (\<forall>k < length fs. \<exists>c. case_at cs (i + k) = Some c \<and> wire_type c = wire_of (snd (fs ! k))) \<Longrightarrow>
    items_bytes W cs (items_from W i fs m) = sers_from W i fs m"
proof (induction fs arbitrary: i)
  case (Cons f fs)
  obtain lb ty where f: "f = (lb, ty)" by (cases f)
  have d: "declared_type ty" "declared_fields fs" using Cons.prems(1) f by simp_all
  obtain c where "case_at cs i = Some c" "wire_type c = wire_of ty" using Cons.prems(2) f by auto
  from items_out [OF W d(1) this] have h: "items_bytes W cs (items_of W i lb ty m) = out_of W i lb ty m" .
  have "\<exists>c. case_at cs (Suc i + k) = Some c \<and> wire_type c = wire_of (snd (fs ! k))" if "k < length fs" for k
    using Cons.prems(2) [rule_format, of "Suc k"] that by simp
  then have "items_bytes W cs (items_from W (Suc i) fs m) = sers_from W (Suc i) fs m" using Cons.IH [OF d(2)] by blast
  then show ?case using h f by simp
qed simp

lemma item_okI:
  assumes "case_at cs i = Some c" "p \<noteq> []" "\<And>n r ob. length p \<le> n \<Longrightarrow> reader c n (p @ r) ob = Some (Some (f ob, r))"
  shows "item_ok cs (Item i p f)"
  using assms by (simp add: item_ok_def)

lemma reads:
  assumes "wire_ok W"
  shows "read_uint32 W (enc_uint32 W v @ r) = Some (v, r)" "read_int32 W (enc_int32 W v @ r) = Some (v, r)"
    "read_bool W (enc_bool W b @ r) = Some (b, r)" "enc_uint32 W v \<noteq> []" "enc_int32 W v \<noteq> []" "enc_bool W b \<noteq> []"
    "enc_delimited W s \<noteq> []" "length s < length (enc_delimited W s)"
    "length s \<le> size_limit W \<Longrightarrow> read_string W (enc_delimited W s @ r) = Some (s, r)"
    "length s \<le> size_limit W \<Longrightarrow> read_bytes W (enc_delimited W s @ r) = Some (s, r)"
    "length s \<le> size_limit W \<Longrightarrow> m s ob = Some (Merged ob' True) \<Longrightarrow>
      read_message W m (enc_delimited W s @ r) ob = Some (Some (ob', r))"
proof -
  note R = wire_okD(3) [OF assms, unfolded reads_ok_def]
  show "read_uint32 W (enc_uint32 W v @ r) = Some (v, r)" "read_int32 W (enc_int32 W v @ r) = Some (v, r)"
    "read_bool W (enc_bool W b @ r) = Some (b, r)" "enc_uint32 W v \<noteq> []" "enc_int32 W v \<noteq> []"
    "length s < length (enc_delimited W s)"
    "length s \<le> size_limit W \<Longrightarrow> read_string W (enc_delimited W s @ r) = Some (s, r)"
    "length s \<le> size_limit W \<Longrightarrow> read_bytes W (enc_delimited W s @ r) = Some (s, r)"
    "length s \<le> size_limit W \<Longrightarrow> m s ob = Some (Merged ob' True) \<Longrightarrow>
      read_message W m (enc_delimited W s @ r) ob = Some (Some (ob', r))"
    by (simp_all add: R)
  have "length (enc_bool W b) = 1" by (simp add: R)
  then show "enc_bool W b \<noteq> []" by (cases "enc_bool W b") simp_all
  have "length s < length (enc_delimited W s)" by (simp add: R)
  then show "enc_delimited W s \<noteq> []" by (cases "enc_delimited W s") simp_all
qed

lemma written_limit:
  assumes "wire_ok W" "declared d"
  shows "length (ser_of W d ob) < length (write_message W i (size_of W d ob) (ser_of W d ob))"
  using size_is_length(1) [OF assms, of ob] message_written(1) [OF assms(1), of i "ser_of W d ob"]
    reads(8) [OF assms(1), of "ser_of W d ob"] by simp

lemma val_Cons: "val (Suc i) (Obj h (v # vs) u) = (if i = 0 then v else val i (Obj h vs u))"
  by (cases i) (simp_all add: val_def)

lemma val_append: "val (Suc (length vs)) (Obj h (vs @ v # vs') u) = v"
  by (simp add: val_def)

lemma typed_default: "declared_type ty \<Longrightarrow> (lb = Repeated \<longrightarrow> is_msg ty) \<Longrightarrow>
    typed_val lb ty (if lb = Repeated then V_rep [] else default_of ty)"
  by (cases ty) auto

lemma new_typed_from: "declared_fields fs \<Longrightarrow>
    typed_from (Suc (length vs)) fs (Obj h (vs @ map (\<lambda>(lb, ty). if lb = Repeated then V_rep [] else default_of ty) fs) u)"
proof (induction fs arbitrary: vs)
  case (Cons f fs)
  obtain lb ty where f: "f = (lb, ty)" by (cases f)
  let ?v = "if lb = Repeated then V_rep [] else default_of ty"
  have "typed_val lb ty ?v" using typed_default [of ty lb] Cons.prems f by simp
  then show ?case using Cons.IH [of "vs @ [?v]"] Cons.prems by (simp add: f val_append)
qed simp

lemma new_typed: "declared d \<Longrightarrow> typed d (new_of d)"
  using new_typed_from [of _ "[]"] by (cases d) (simp add: new_of_def)

text \<open>A message whose items are read back is read back.\<close>

lemma message_parsed:
  assumes W: "wire_ok W" and d: "declared (Msg fs)" and m: "unknown_fields m = []" "length (ser_of W (Msg fs) m) < n"
    and items: "\<forall>it \<in> set (items_from W 1 fs m). item_ok (cases_from W 1 fs) it"
  shows "merge_partial W (cases_of W (Msg fs)) n (ser_of W (Msg fs) m) ob = Some (Merged (eff_of (Msg fs) m ob) True)"
proof -
  let ?cs = "cases_from W 1 fs"
  have un: "unknown_out W m = []" using m by (simp add: unknown_out_def)
  have at: "\<exists>c. case_at ?cs (1 + k) = Some c \<and> wire_type c = wire_of (snd (fs ! k))" if "k < length fs" for k
    using cases_from_at [OF that, of W 1] by auto
  have "items_bytes W ?cs (items_from W 1 fs m) = sers_from W 1 fs m"
    by (rule items_from_out [OF W]) (use d at in auto)
  then have "parse_loop W ?cs n None (sers_from W 1 fs m) ob = Some (Merged (fold effect (items_from W 1 fs m) ob) True)"
    using parse_items [OF wire_okD(1,2) [OF W] cases_ok_of items] d m(2) un by simp
  then show ?thesis using un items_from_effect by (simp add: merge_partial_def)
qed

text \<open>The items of a field of a message type, when messages of this type are read back.\<close>

definition reads_back :: "wire_lib \<Rightarrow> descr \<Rightarrow> bool" where
  "reads_back W d \<longleftrightarrow> (\<forall>sub n ob. typed d sub \<longrightarrow> length (ser_of W d sub) \<le> size_limit W \<longrightarrow> length (ser_of W d sub) < n \<longrightarrow>
     merge_partial W (cases_of W d) n (ser_of W d sub) ob = Some (Merged (eff_of d sub ob) True))"

lemma message_read:
  assumes "wire_ok W" "reads_back W d" "typed d sub" "length (ser_of W d sub) \<le> size_limit W"
    and "length (enc_delimited W (ser_of W d sub)) \<le> n"
  shows "read_message W (merge_partial W (cases_of W d) n) (enc_delimited W (ser_of W d sub) @ r) ob =
      Some (Some (eff_of d sub ob, r))"
proof -
  have "length (ser_of W d sub) < n" using assms(5) reads(8) [OF assms(1), of "ser_of W d sub"] by simp
  then show ?thesis using assms unfolding reads_back_def by (intro reads(11) [OF assms(1,4)]) blast
qed

lemma repeated_items:
  assumes W: "wire_ok W" and d: "declared d" "reads_back W d" and v: "typed_val Repeated (T_msg d) (val i m)"
    and l: "length (out_of W i Repeated (T_msg d) m) \<le> size_limit W"
    and c: "case_at cs i = Some c" "reader c = reader_of W i Repeated (T_msg d)"
  shows "\<forall>it \<in> set (items_of W i Repeated (T_msg d) m). item_ok cs it"
proof -
  obtain obs where obs: "val i m = V_rep obs" "list_all (typed d) obs" using v by (metis objs_of.simps(1) typed_val.simps(6))
  have "item_ok cs (Item i (enc_delimited W (ser_of W d sub)) (added i (eff_of d sub (new_of d))))" if s: "sub \<in> set obs" for sub
  proof (rule item_okI [OF c(1)])
    show "enc_delimited W (ser_of W d sub) \<noteq> []" using reads(7) [OF W] .
    have "length (ser_of W d sub) \<le> length (write_message W i (size_of W d sub) (ser_of W d sub))"
      using written_limit [OF W d(1), of sub i] by simp
    also have "\<dots> \<le> length (messages_out W i (size_of W d) (ser_of W d) m)"
      using s obs(1) by (auto simp: messages_out_def length_concat comp_def intro: member_le_sum_list)
    finally have ln: "length (ser_of W d sub) \<le> size_limit W" using l by simp
    have t: "typed d sub" using obs(2) s by (simp add: list_all_iff)
    show "reader c n (enc_delimited W (ser_of W d sub) @ r) ob = Some (Some (added i (eff_of d sub (new_of d)) ob, r))"
      if "length (enc_delimited W (ser_of W d sub)) \<le> n" for n r ob
      using message_read [OF W d(2) t ln that] c(2) by (simp add: add_message_field_def added_def)
  qed
  then show ?thesis using obs(1) by auto
qed

lemma single_items:
  assumes W: "wire_ok W" and d: "declared d" "reads_back W d" and lb: "lb \<noteq> Repeated" and v: "typed_val lb (T_msg d) (val i m)"
    and l: "length (out_of W i lb (T_msg d) m) \<le> size_limit W"
    and c: "case_at cs i = Some c" "reader c = reader_of W i lb (T_msg d)"
  shows "\<forall>it \<in> set (items_of W i lb (T_msg d) m). item_ok cs it"
proof -
  let ?sub = "obj_of (new_of d) (val i m)"
  have t: "typed d ?sub" using v lb new_typed [OF d(1)] by (cases "val i m") (auto split: option.splits)
  have "item_ok cs (Item i (enc_delimited W (ser_of W d ?sub)) (message_from i (new_of d) (eff_of d) m))" if h: "has i m"
  proof (rule item_okI [OF c(1)])
    show "enc_delimited W (ser_of W d ?sub) \<noteq> []" using reads(7) [OF W] .
    have ln: "length (ser_of W d ?sub) \<le> size_limit W"
      using l lb h written_limit [OF W d(1), of ?sub i] by (simp add: message_out_def Let_def)
    show "reader c n (enc_delimited W (ser_of W d ?sub) @ r) ob = Some (Some (message_from i (new_of d) (eff_of d) m ob, r))"
      if "length (enc_delimited W (ser_of W d ?sub)) \<le> n" for n r ob
      using message_read [OF W d(2) t ln that] c(2) lb h by (simp add: message_field_def message_from_def)
  qed
  then show ?thesis using lb by auto
qed

lemma plain_items:
  assumes W: "wire_ok W" and ty: "\<not> is_msg ty" and v: "typed_val lb ty (val i m)"
    and l: "length (out_of W i lb ty m) \<le> size_limit W"
    and c: "case_at cs i = Some c" "reader c = reader_of W i lb ty"
  shows "\<forall>it \<in> set (items_of W i lb ty m). item_ok cs it"
proof -
  have str: "length x \<le> size_limit W" if "val i m = V_str x" "has i m" "ty = T_string \<or> ty = T_bytes" for x
    using that l reads(8) [OF W, of x] by (auto simp: string_out_def bytes_out_def plain_written [OF W])
  show ?thesis
  proof (cases ty)
    case T_uint32
    then obtain x where "val i m = V_num x" using v by (metis typed_val.simps(1))
    then show ?thesis using T_uint32 c reads [OF W] by (auto intro!: item_okI simp: uint32_field_def store_def set_from_def)
  next
    case T_int32
    then obtain x where "val i m = V_num x" using v by (metis typed_val.simps(2))
    then show ?thesis using T_int32 c reads [OF W] by (auto intro!: item_okI simp: int32_field_def store_def set_from_def)
  next
    case T_bool
    then obtain x where "val i m = V_bool x" using v by (metis typed_val.simps(3))
    then show ?thesis using T_bool c reads [OF W] by (auto intro!: item_okI simp: bool_field_def store_def set_from_def)
  next
    case T_string
    then obtain x where "val i m = V_str x" using v by (metis typed_val.simps(4))
    then show ?thesis using T_string c reads [OF W] str by (auto intro!: item_okI simp: string_field_def store_def set_from_def)
  next
    case T_bytes
    then obtain x where "val i m = V_str x" using v by (metis typed_val.simps(5))
    then show ?thesis using T_bytes c reads [OF W] str by (auto intro!: item_okI simp: bytes_field_def store_def set_from_def)
  qed (use ty in simp)
qed

theorem parse_serialized:
  shows "wire_ok W \<Longrightarrow> declared d \<Longrightarrow> typed d m \<Longrightarrow> length (ser_of W d m) \<le> size_limit W \<Longrightarrow> length (ser_of W d m) < n \<Longrightarrow>
      merge_partial W (cases_of W d) n (ser_of W d m) ob = Some (Merged (eff_of d m ob) True)"
    and "wire_ok W \<Longrightarrow> declared_fields fs \<Longrightarrow> typed_from i fs m \<Longrightarrow> length (sers_from W i fs m) \<le> size_limit W \<Longrightarrow>
      (\<forall>k < length fs. \<exists>c. case_at cs (i + k) = Some c \<and> reader c = reader_of W (i + k) (fst (fs ! k)) (snd (fs ! k))) \<Longrightarrow>
      \<forall>it \<in> set (items_from W i fs m). item_ok cs it"
    and "wire_ok W \<Longrightarrow> declared_type ty \<Longrightarrow> typed_val lb ty (val i m) \<Longrightarrow> length (out_of W i lb ty m) \<le> size_limit W \<Longrightarrow>
      case_at cs i = Some c \<Longrightarrow> reader c = reader_of W i lb ty \<Longrightarrow> \<forall>it \<in> set (items_of W i lb ty m). item_ok cs it"
proof (induction d and i fs and i lb ty arbitrary: m n ob and m cs and m cs c rule: eff_of_effs_from_eff_field.induct)
  case (1 fs)
  have d: "length fs \<le> 15" "declared_fields fs" using 1 by simp_all
  have "\<forall>k < length fs. \<exists>c. case_at (cases_from W 1 fs) (1 + k) = Some c \<and> reader c = reader_of W (1 + k) (fst (fs ! k)) (snd (fs ! k))"
    using cases_from_at [of _ fs W 1] by auto
  moreover have "unknown_fields m = []" "typed_from 1 fs m" using 1(4) by simp_all
  moreover from this have "length (sers_from W 1 fs m) \<le> size_limit W" using 1(5) by simp
  ultimately show ?case using "1.IH" [OF 1(2) d(2)] by (intro message_parsed [OF 1(2,3) _ 1(6)])
next
  case (3 i lb ty fs)
  have "\<forall>k < length fs. \<exists>c. case_at cs (Suc i + k) = Some c \<and> reader c = reader_of W (Suc i + k) (fst (fs ! k)) (snd (fs ! k))"
    using 3(7) by (auto dest: spec [of _ "Suc _"])
  moreover obtain c where "case_at cs i = Some c" "reader c = reader_of W i lb ty" using 3(7) by auto
  ultimately show ?case using 3(1) [OF 3(3)] 3(2) [OF 3(3)] 3(4,5,6) by auto
next
  case (4 i lb d)
  have d: "declared d" using 4(4) by simp
  have r: "reads_back W d"
    unfolding reads_back_def using 4(1) [OF _ 4(3) d] 4(2) [OF _ 4(3) d] by (cases "lb = Repeated") blast+
  show ?case
  proof (cases "lb = Repeated")
    case True
    show ?thesis using repeated_items [OF 4(3) d r] 4(5-8) unfolding True by blast
  next
    case False
    show ?thesis by (rule single_items [OF 4(3) d r False 4(5-8)])
  qed
next
  case (5 i lb)
  then show ?case by (intro plain_items) simp_all
next
  case (6 i lb)
  then show ?case by (intro plain_items) simp_all
next
  case (7 i lb)
  then show ?case by (intro plain_items) simp_all
next
  case (8 i lb)
  then show ?case by (intro plain_items) simp_all
next
  case (9 i lb)
  then show ?case by (intro plain_items) simp_all
qed simp

end
