(* ===== verification/Pb_Whole.thy ===== *)
theory Pb_Whole
  imports Pb_Merge
begin

text \<open>
  What parsing a serialized message amounts to: into a new object it gives the message, and into any
  object of the class it is \<open>MergeFrom\<close>. The parser returns on any input.
\<close>

section \<open>Objects in order\<close>

text \<open>In an object whose fields were only written by the generated functions, the has-bits belong to
  single fields, and a single field that is not set has its default.\<close>

fun tidy :: "descr \<Rightarrow> (pb_obj \<Rightarrow> bool)"
  and tidy_from :: "nat \<Rightarrow> (label \<times> ftype) list \<Rightarrow> (pb_obj \<Rightarrow> bool)"
  and tidy_val :: "label \<Rightarrow> ftype \<Rightarrow> (bool \<Rightarrow> pb_val \<Rightarrow> bool)" where
  "tidy (Msg fs) = (\<lambda>ob. (\<forall>k < 32. bit (has_bits ob) k \<longrightarrow> k < length fs \<and> fst (fs ! k) \<noteq> Repeated) \<and> tidy_from 1 fs ob)"
| "tidy_from i [] = (\<lambda>ob. True)"
| "tidy_from i ((lb, ty) # fs) = (\<lambda>ob. tidy_val lb ty (has i ob) (val i ob) \<and> tidy_from (Suc i) fs ob)"
| "tidy_val lb (T_msg d) = (\<lambda>h v. if lb = Repeated then list_all (tidy d) (objs_of v)
     else case v of V_ptr (Some sub) \<Rightarrow> h \<and> tidy d sub | _ \<Rightarrow> \<not> h)"
| "tidy_val lb ty = (\<lambda>h v. h \<or> v = default_of ty)"

lemma put_val [simp]: "val i (put_at i v ob) = (if i - 1 < length (vals ob) then v else val i ob)"
  by (cases "i - 1 < length (vals ob)") (simp_all add: val_def put_at_def list_update_beyond)

lemma put_other [simp]: "i - 1 \<noteq> j - 1 \<Longrightarrow> val j (put_at i v ob) = val j ob"
  by (simp add: val_def put_at_def)

lemma obj_simps [simp]:
  "vals (set_has i ob) = vals ob" "val j (set_has i ob) = val j ob" "length (vals (put_at i v ob)) = length (vals ob)"
  "unknown_fields (set_has i ob) = unknown_fields ob" "unknown_fields (put_at i v ob) = unknown_fields ob"
  "has_bits (put_at i v ob) = has_bits ob" "put_at i v (set_has j ob) = set_has j (put_at i v ob)"
  by (simp_all add: set_has_def put_at_def val_def)

lemma put_at_twice [simp]: "put_at i v (put_at i w ob) = put_at i v ob"
  by (simp add: put_at_def)

lemma put_same: "put_at i (val i ob) ob = ob"
  by (cases ob) (simp add: put_at_def val_def)

lemma put_known: "val i ob = v \<Longrightarrow> put_at i v ob = ob"
  using put_same by blast

lemma put_swap: "i - 1 \<noteq> j - 1 \<Longrightarrow> put_at i v (put_at j w ob) = put_at j w (put_at i v ob)"
  by (simp add: put_at_def list_update_swap)

section \<open>Into a new object\<close>

lemma fold_added:
  assumes "i - 1 < length (vals ob)" "val i ob = V_rep old" "\<forall>sub \<in> set subs. f sub = sub"
  shows "fold (\<lambda>sub. added i (f sub)) subs ob = put_at i (V_rep (old @ subs)) ob"
  using assms
proof (induction subs arbitrary: ob old)
  case Nil
  then show ?case using put_same [of i ob] by simp
next
  case (Cons sub subs)
  have one: "added i sub ob = put_at i (V_rep (old @ [sub])) ob" using Cons.prems by (simp add: added_def)
  have "fold (\<lambda>sub. added i (f sub)) subs (put_at i (V_rep (old @ [sub])) ob) =
      put_at i (V_rep ((old @ [sub]) @ subs)) (put_at i (V_rep (old @ [sub])) ob)"
    by (rule Cons.IH) (use Cons.prems in simp_all)
  then show ?case using Cons.prems one by simp
qed

lemma bits_step:
  assumes "n < 32"
  shows "(if bit h n then set_bit n (take_bit n h) else take_bit n h) = take_bit (Suc n) (h :: u32)"
  by (rule bit_eqI) (auto simp: bit_set_bit_iff bit_take_bit_iff less_Suc_eq)

definition defaults :: "(label \<times> ftype) list \<Rightarrow> pb_val list" where
  "defaults fs = map (\<lambda>(lb, ty). if lb = Repeated then V_rep [] else default_of ty) fs"

lemma all_bits: "(\<forall>k < 32. bit (hm :: u32) k \<longrightarrow> k < n) \<Longrightarrow> take_bit n hm = hm"
  by (rule bit_eqI) (auto simp: bit_take_bit_iff)

text \<open>A field of a message type, when merging a message of this type into a new one gives the message.\<close>

lemma repeated_new:
  assumes eff: "\<And>sub. typed d sub \<Longrightarrow> tidy d sub \<Longrightarrow> eff_of d sub (new_of d) = sub" and h: "\<not> has i m"
    and v: "typed_val Repeated (T_msg d) (val i m)" "tidy_val Repeated (T_msg d) (has i m) (val i m)"
    and ob: "val i ob = V_rep []" "i - 1 < length (vals ob)"
  shows "eff_field i Repeated (T_msg d) m ob = put_at i (val i m) (if has i m then set_has i ob else ob)"
proof -
  obtain subs where subs: "val i m = V_rep subs" "list_all (typed d) subs" using v(1) by (metis objs_of.simps(1) typed_val.simps(6))
  have "eff_of d sub (new_of d) = sub" if "sub \<in> set subs" for sub using eff v(2) subs that by (simp add: list_all_iff)
  then have "fold (\<lambda>sub. added i (eff_of d sub (new_of d))) subs ob = put_at i (V_rep ([] @ subs)) ob"
    using ob by (intro fold_added) simp_all
  then show ?thesis using subs h by (simp add: messages_eff_def)
qed

lemma single_new:
  assumes eff: "\<And>sub. typed d sub \<Longrightarrow> tidy d sub \<Longrightarrow> eff_of d sub (new_of d) = sub" and lb: "lb \<noteq> Repeated"
    and v: "typed_val lb (T_msg d) (val i m)" "tidy_val lb (T_msg d) (has i m) (val i m)"
    and ob: "val i ob = V_ptr None" "i - 1 < length (vals ob)"
  shows "eff_field i lb (T_msg d) m ob = put_at i (val i m) (if has i m then set_has i ob else ob)"
proof (cases "has i m")
  case True
  then obtain sub where sub: "val i m = V_ptr (Some sub)" "typed d sub" "tidy d sub"
    using v lb by (auto split: pb_val.splits option.splits)
  have "eff_of d sub (new_of d) = sub" using eff [OF sub(2,3)] .
  then show ?thesis using True lb sub ob by (simp add: message_from_def)
next
  case False
  then have "val i m = V_ptr None" using v lb by (auto split: pb_val.splits option.splits)
  then show ?thesis using False lb ob put_same [of i ob] by (simp add: message_from_def)
qed

lemma eff_new:
  shows "declared d \<Longrightarrow> typed d m \<Longrightarrow> tidy d m \<Longrightarrow> eff_of d m (new_of d) = m"
    and "declared_fields fs \<Longrightarrow> typed_from i fs m \<Longrightarrow> tidy_from i fs m \<Longrightarrow> m = Obj hm (vs @ ws) [] \<Longrightarrow> i = Suc (length vs) \<Longrightarrow>
      length ws = length fs \<Longrightarrow> length vs + length fs < 32 \<Longrightarrow>
      (\<forall>k < length fs. fst (fs ! k) = Repeated \<longrightarrow> \<not> bit hm (length vs + k)) \<Longrightarrow>
      effs_from i fs m (Obj (take_bit (length vs) hm) (vs @ defaults fs) []) = Obj (take_bit (length vs + length fs) hm) (vs @ ws) []"
    and "declared_type ty \<Longrightarrow> (lb = Repeated \<longrightarrow> is_msg ty \<and> \<not> has i m) \<Longrightarrow> typed_val lb ty (val i m) \<Longrightarrow> tidy_val lb ty (has i m) (val i m) \<Longrightarrow>
      val i ob = (if lb = Repeated then V_rep [] else default_of ty) \<Longrightarrow> i - 1 < length (vals ob) \<Longrightarrow>
      eff_field i lb ty m ob = put_at i (val i m) (if has i m then set_has i ob else ob)"
proof (induction d and i fs and i lb ty arbitrary: m and m hm vs ws and m ob rule: eff_of_effs_from_eff_field.induct)
  case (1 fs)
  obtain hm ws where m: "m = Obj hm ws []" using 1 by (cases m) auto
  have reps: "\<forall>k < length fs. fst (fs ! k) = Repeated \<longrightarrow> \<not> bit hm k" using 1 m by auto
  have "effs_from 1 fs m (Obj (take_bit (length ([] :: pb_val list)) hm) ([] @ defaults fs) []) =
      Obj (take_bit (length ([] :: pb_val list) + length fs) hm) ([] @ ws) []"
    by (rule "1.IH") (use 1(2-4) m reps in simp_all)
  moreover have "take_bit (length fs) hm = hm" by (rule all_bits) (use 1 m in auto)
  ultimately show ?case using m by (simp add: new_of_def defaults_def)
next
  case (3 i lb ty fs)
  obtain w ws' where ws: "ws = w # ws'" using 3(8) by (cases ws) auto
  have w: "val i m = w" using 3(6,7) ws by (simp add: val_append)
  let ?n = "length vs"
  let ?ob = "Obj (take_bit ?n hm) (vs @ defaults ((lb, ty) # fs)) []"
  have d: "declared_type ty" "declared_fields fs" "lb = Repeated \<longrightarrow> is_msg ty" using 3(3) by simp_all
  have h: "has i m = bit hm ?n" using 3(6,7) by (simp add: has_def)
  have "eff_field i lb ty m ?ob = put_at i (val i m) (if has i m then set_has i ?ob else ?ob)"
  proof (rule 3(2) [OF d(1)])
    show "lb = Repeated \<longrightarrow> is_msg ty \<and> \<not> has i m" using d(3) 3(10) h by auto
    show "typed_val lb ty (val i m)" "tidy_val lb ty (has i m) (val i m)" using 3(4,5) by simp_all
    show "val i ?ob = (if lb = Repeated then V_rep [] else default_of ty)" "i - 1 < length (vals ?ob)"
      using 3(7) by (simp_all add: defaults_def val_append)
  qed
  moreover have "put_at i (val i m) (if has i m then set_has i ?ob else ?ob) =
      Obj (if bit hm ?n then set_bit ?n (take_bit ?n hm) else take_bit ?n hm) ((vs @ [w]) @ defaults fs) []"
    using w h 3(7) by (simp add: put_at_def set_has_def defaults_def)
  moreover have "effs_from (Suc i) fs m (Obj (take_bit (length (vs @ [w])) hm) ((vs @ [w]) @ defaults fs) []) =
      Obj (take_bit (length (vs @ [w]) + length fs) hm) ((vs @ [w]) @ ws') []"
    by (rule 3(1) [OF d(2)]) (use 3(4-10) ws in auto)
  moreover have "?n < 32" using 3(9) by simp
  ultimately show ?case using bits_step [of ?n hm] ws by simp
next
  case (4 i lb d)
  have d: "declared d" using 4(3) by simp
  show ?case
  proof (cases "lb = Repeated")
    case True
    have "eff_of d sub (new_of d) = sub" if "typed d sub" "tidy d sub" for sub
      using 4(1) [OF True d] that by blast
    then show ?thesis using repeated_new [of d i m ob] 4(4-8) unfolding True by simp
  next
    case False
    have "eff_of d sub (new_of d) = sub" if "typed d sub" "tidy d sub" for sub
      using 4(2) [OF False d that] .
    then show ?thesis using single_new [OF _ False 4(5,6)] 4(7,8) False by simp
  qed
qed (auto simp: set_from_def put_known defaults_def)

section \<open>Merging\<close>

text \<open>A function on objects that concerns the field \<open>i\<close> alone. \<open>MergeFrom\<close> takes the repeated fields
  first, the parser the fields in their order: the functions of different fields commute.\<close>

definition at_field :: "nat \<Rightarrow> (pb_obj \<Rightarrow> pb_obj) \<Rightarrow> bool" where
  "at_field i f \<longleftrightarrow> (\<exists>g s. \<forall>ob. f ob = (if s then set_has i (put_at i (g (val i ob)) ob) else put_at i (g (val i ob)) ob))"

lemma at_fieldI: "(\<And>ob. f ob = (if s then set_has i (put_at i (g (val i ob)) ob) else put_at i (g (val i ob)) ob)) \<Longrightarrow> at_field i f"
  unfolding at_field_def by blast

lemma set_has_swap: "i - 1 \<noteq> j - 1 \<Longrightarrow> set_has i (set_has j ob) = set_has j (set_has i ob)"
  by (cases ob) (auto simp: set_has_def bit_eq_iff bit_set_bit_iff)

lemma at_fields_commute:
  assumes "at_field i f" "at_field j g" "i - 1 \<noteq> j - 1"
  shows "f (g ob) = g (f ob)"
proof -
  obtain u s where f: "\<And>ob. f ob = (if s then set_has i (put_at i (u (val i ob)) ob) else put_at i (u (val i ob)) ob)"
    using assms(1) unfolding at_field_def by blast
  obtain v t where g: "\<And>ob. g ob = (if t then set_has j (put_at j (v (val j ob)) ob) else put_at j (v (val j ob)) ob)"
    using assms(2) unfolding at_field_def by blast
  show ?thesis using assms(3) put_swap [OF assms(3)] set_has_swap [OF assms(3)] by (simp add: f g)
qed

lemma at_field_same: "at_field i (\<lambda>ob. ob)"
  by (rule at_fieldI [of _ False _ "\<lambda>v. v"]) (simp add: put_same)

lemma at_field_set: "at_field i (set_from i m)"
proof (cases "has i m")
  case True
  then show ?thesis by (intro at_fieldI [of _ True _ "\<lambda>v. val i m"]) (simp add: set_from_def)
next
  case False
  then show ?thesis using at_field_same [of i] by (simp add: set_from_def [abs_def])
qed

lemma at_field_message: "at_field i (message_from i new merge m)"
proof (cases "has i m")
  case True
  then show ?thesis
    by (intro at_fieldI [of _ True _ "\<lambda>v. V_ptr (Some (merge (obj_of new (val i m)) (obj_of new v)))"]) (simp add: message_from_def)
next
  case False
  then show ?thesis using at_field_same [of i] by (simp add: message_from_def [abs_def])
qed

lemma at_field_messages: "at_field i (messages_from i new merge m)"
  by (rule at_fieldI [of _ False _ "\<lambda>v. V_rep (objs_of v @ map (\<lambda>sub. merge sub new) (objs_of (val i m)))"])
    (simp add: messages_from_def)

lemma at_field_rep: "at_field i (rep_of W i lb ty m)"
  by (cases ty; cases "lb = Repeated") (simp_all add: at_field_same at_field_messages)

lemma at_field_single: "at_field i (single_of W i lb ty m)"
  by (cases ty; cases "lb = Repeated") (simp_all add: at_field_same at_field_message at_field_set)

lemma at_field_val:
  assumes "at_field i f" "i - 1 \<noteq> j - 1"
  shows "val j (f ob) = val j ob"
  using assms unfolding at_field_def by auto

lemma at_field_length: "at_field i f \<Longrightarrow> length (vals (f ob)) = length (vals ob)"
  unfolding at_field_def by auto

lemma reps_commute: "at_field i f \<Longrightarrow> 1 \<le> i \<Longrightarrow> i < j \<Longrightarrow> reps_from W j fs m (f ob) = f (reps_from W j fs m ob)"
proof (induction fs arbitrary: j ob)
  case (Cons x fs)
  obtain lb ty where x: "x = (lb, ty)" by (cases x)
  have "rep_of W j lb ty m (f ob) = f (rep_of W j lb ty m ob)"
    by (rule at_fields_commute [OF at_field_rep Cons.prems(1)]) (use Cons.prems in simp)
  then show ?case using Cons x by simp
qed simp

lemma typed_from_cong: "(\<And>j. i \<le> j \<Longrightarrow> val j ob = val j ob') \<Longrightarrow> typed_from i fs ob = typed_from i fs ob'"
proof (induction fs arbitrary: i)
  case (Cons x fs)
  obtain lb ty where x: "x = (lb, ty)" by (cases x)
  show ?case using Cons x by simp
qed simp

lemma typed_after: "at_field i f \<Longrightarrow> 1 \<le> i \<Longrightarrow> typed_from (Suc i) fs ob \<Longrightarrow> typed_from (Suc i) fs (f ob)"
  using typed_from_cong [of "Suc i" "f ob" ob fs] at_field_val [of i f] by fastforce

lemma fold_added_append:
  assumes "i - 1 < length (vals ob)" "val i ob = V_rep old"
  shows "fold (\<lambda>sub. added i (f sub)) subs ob = put_at i (V_rep (old @ map f subs)) ob"
  using fold_added [OF assms, of "map f subs" "\<lambda>sub. sub"] by (simp add: fold_map comp_def)

lemma eff_is_merge:
  shows "wire_ok W \<Longrightarrow> declared d \<Longrightarrow> typed d m \<Longrightarrow> typed d ob \<Longrightarrow> eff_of d m ob = merge_of W d m ob"
    and "wire_ok W \<Longrightarrow> declared_fields fs \<Longrightarrow> typed_from i fs m \<Longrightarrow> typed_from i fs ob \<Longrightarrow> 1 \<le> i \<Longrightarrow>
      i - 1 + length fs \<le> length (vals ob) \<Longrightarrow> effs_from i fs m ob = singles_from W i fs m (reps_from W i fs m ob)"
    and "wire_ok W \<Longrightarrow> declared_type ty \<Longrightarrow> typed_val lb ty (val i m) \<Longrightarrow> typed_val lb ty (val i ob) \<Longrightarrow>
      i - 1 < length (vals ob) \<Longrightarrow> eff_field i lb ty m ob = single_of W i lb ty m (rep_of W i lb ty m ob)"
proof (induction d and i fs and i lb ty arbitrary: m ob and m ob and m ob rule: eff_of_effs_from_eff_field.induct)
  case (1 fs)
  have "effs_from 1 fs m ob = singles_from W 1 fs m (reps_from W 1 fs m ob)"
    by (rule 1(1)) (use 1(2-) in simp_all)
  then show ?case using 1(2-) unknown_facts(3) [OF 1(2)] by (simp add: unknown_from_def put_unknown_def)
next
  case (3 i lb ty fs)
  have d: "declared_type ty" "declared_fields fs" using 3(4) by simp_all
  have "eff_field i lb ty m ob = single_of W i lb ty m (rep_of W i lb ty m ob)"
    by (rule 3(2) [OF 3(3) d(1)]) (use 3(4-) in simp_all)
  moreover define ob' where "ob' = single_of W i lb ty m (rep_of W i lb ty m ob)"
  moreover have "typed_from (Suc i) fs ob'"
    using 3(6,7) typed_after [OF at_field_rep] typed_after [OF at_field_single] by (simp add: ob'_def)
  moreover have "length (vals ob') = length (vals ob)"
    using at_field_length [OF at_field_rep] at_field_length [OF at_field_single] by (simp add: ob'_def)
  moreover have "effs_from (Suc i) fs m ob' = singles_from W (Suc i) fs m (reps_from W (Suc i) fs m ob')"
    by (rule 3(1) [OF 3(3) d(2)]) (use 3(5-) calculation in simp_all)
  ultimately show ?case using reps_commute [OF at_field_single 3(7), of "Suc i"] by simp
next
  case (4 i lb d)
  have d: "declared d" using 4(4) by simp
  show ?case
  proof (cases "lb = Repeated")
    case True
    obtain subs where subs: "val i m = V_rep subs" "list_all (typed d) subs"
      using 4(5) True by (metis objs_of.simps(1) typed_val.simps(6))
    obtain old where old: "val i ob = V_rep old" using 4(6) True by (metis typed_val.simps(6))
    have "eff_of d sub (new_of d) = merge_of W d sub (new_of d)" if "sub \<in> set subs" for sub
      using 4(1) [OF True 4(3) d _ new_typed [OF d]] subs that by (simp add: list_all_iff)
    then have eq: "map (\<lambda>sub. eff_of d sub (new_of d)) subs = map (\<lambda>sub. merge_of W d sub (new_of d)) subs" by simp
    show ?thesis using True subs(1) old fold_added_append [OF 4(7) old, of "\<lambda>sub. eff_of d sub (new_of d)" subs, unfolded eq]
      by (simp add: messages_eff_def messages_from_def)
  next
    case False
    have "typed d (obj_of (new_of d) (val i m))" "typed d (obj_of (new_of d) (val i ob))"
      using 4(5,6) False new_typed [OF d] by (auto split: pb_val.splits option.splits)
    then show ?thesis using 4(2) [OF False 4(3) d] False by (simp add: message_from_def)
  qed
qed auto

section \<open>One message after another\<close>

lemma serialized_items:
  assumes W: "wire_ok W" and d: "declared (Msg fs)" and m: "typed (Msg fs) m" "length (ser_of W (Msg fs) m) \<le> size_limit W"
  shows "items_bytes W (cases_from W 1 fs) (items_from W 1 fs m) = ser_of W (Msg fs) m"
    "\<forall>it \<in> set (items_from W 1 fs m). item_ok (cases_from W 1 fs) it"
proof -
  let ?cs = "cases_from W 1 fs"
  have at: "\<exists>c. case_at ?cs (1 + k) = Some c \<and> wire_type c = wire_of (snd (fs ! k)) \<and>
      reader c = reader_of W (1 + k) (fst (fs ! k)) (snd (fs ! k))" if "k < length fs" for k
    using cases_from_at [OF that, of W 1] by auto
  have un: "unknown_out W m = []" and df: "declared_fields fs" and ty: "typed_from 1 fs m"
    using d m(1) by (simp_all add: unknown_out_def)
  have "items_bytes W ?cs (items_from W 1 fs m) = sers_from W 1 fs m"
    by (rule items_from_out [OF W df]) (use at in blast)
  then show "items_bytes W ?cs (items_from W 1 fs m) = ser_of W (Msg fs) m" using un by simp
  have "length (sers_from W 1 fs m) \<le> size_limit W" using m(2) un by simp
  then show "\<forall>it \<in> set (items_from W 1 fs m). item_ok ?cs it"
    by (rule parse_serialized(2) [OF W df ty]) (use at in blast)
qed

theorem parse_two:
  assumes W: "wire_ok W" and d: "declared d" and a: "typed d a" "length (ser_of W d a) \<le> size_limit W"
    and b: "typed d b" "length (ser_of W d b) \<le> size_limit W" and n: "length (ser_of W d a @ ser_of W d b) < n"
  shows "merge_partial W (cases_of W d) n (ser_of W d a @ ser_of W d b) ob = Some (Merged (eff_of d b (eff_of d a ob)) True)"
proof -
  obtain fs where fs: "d = Msg fs" by (cases d)
  let ?cs = "cases_from W 1 fs" and ?its = "items_from W 1 fs a @ items_from W 1 fs b"
  note A = serialized_items [OF W d [unfolded fs] a [unfolded fs]] and B = serialized_items [OF W d [unfolded fs] b [unfolded fs]]
  have "length fs \<le> 15" using d fs by simp
  from parse_items [OF wire_okD(1,2) [OF W] cases_ok_of [OF this], of ?its W]
  have "length (items_bytes W ?cs ?its) < n \<longrightarrow>
      parse_loop W ?cs n None (items_bytes W ?cs ?its) ob = Some (Merged (fold effect ?its ob) True)"
    using A(2) B(2) by auto
  then show ?thesis using n A(1) B(1) fs by (simp add: merge_partial_def items_from_effect)
qed

section \<open>Any input\<close>

text \<open>A reader that returns, with fuel for the bytes that are left, and leaves no more than it was given.\<close>

definition returns :: "field_reader \<Rightarrow> bool" where
  "returns rd \<longleftrightarrow> (\<forall>n bs ob. length bs < n \<longrightarrow> rd n bs ob \<noteq> None \<and>
     (\<forall>ob' r. rd n bs ob = Some (Some (ob', r)) \<longrightarrow> length r \<le> length bs))"

lemma shrinksD:
  assumes "shrinks W"
  shows "fst (read_tag W bs) \<noteq> 0 \<Longrightarrow> length (snd (read_tag W bs)) < length bs"
    "expect_tag W t bs = Some r \<Longrightarrow> length r < length bs"
    "read_uint32 W bs = Some (x, r) \<Longrightarrow> length r \<le> length bs"
    "read_int32 W bs = Some (x, r) \<Longrightarrow> length r \<le> length bs"
    "read_bool W bs = Some (b, r) \<Longrightarrow> length r \<le> length bs"
    "read_string W bs = Some (s, r) \<Longrightarrow> length r \<le> length bs"
    "read_bytes W bs = Some (s, r) \<Longrightarrow> length r \<le> length bs"
    "skip_field W t bs u = Some (r, v) \<Longrightarrow> length r \<le> length bs"
    "(\<And>p ob. length p \<le> length bs \<Longrightarrow> m p ob \<noteq> None) \<Longrightarrow> read_message W m bs ob \<noteq> None"
    "(\<And>p ob. length p \<le> length bs \<Longrightarrow> m p ob \<noteq> None) \<Longrightarrow> read_message W m bs ob = Some (Some (ob', r)) \<Longrightarrow> length r \<le> length bs"
proof -
  note S = assms [unfolded shrinks_def]
  show "fst (read_tag W bs) \<noteq> 0 \<Longrightarrow> length (snd (read_tag W bs)) < length bs" using S [THEN conjunct1] by blast
  show "expect_tag W t bs = Some r \<Longrightarrow> length r < length bs" using S [THEN conjunct2, THEN conjunct1] by blast
  show "read_uint32 W bs = Some (x, r) \<Longrightarrow> length r \<le> length bs" using S [THEN conjunct2, THEN conjunct2, THEN conjunct1] by blast
  show "read_int32 W bs = Some (x, r) \<Longrightarrow> length r \<le> length bs" using S [THEN conjunct2, THEN conjunct2, THEN conjunct2, THEN conjunct1] by blast
  show "read_bool W bs = Some (b, r) \<Longrightarrow> length r \<le> length bs" using S [THEN conjunct2, THEN conjunct2, THEN conjunct2, THEN conjunct2, THEN conjunct1] by blast
  show "read_string W bs = Some (s, r) \<Longrightarrow> length r \<le> length bs" using S [THEN conjunct2, THEN conjunct2, THEN conjunct2, THEN conjunct2, THEN conjunct2, THEN conjunct1] by blast
  show "read_bytes W bs = Some (s, r) \<Longrightarrow> length r \<le> length bs" using S [THEN conjunct2, THEN conjunct2, THEN conjunct2, THEN conjunct2, THEN conjunct2, THEN conjunct2, THEN conjunct1] by blast
  show "skip_field W t bs u = Some (r, v) \<Longrightarrow> length r \<le> length bs" using S [THEN conjunct2, THEN conjunct2, THEN conjunct2, THEN conjunct2, THEN conjunct2, THEN conjunct2, THEN conjunct2, THEN conjunct1] by blast
  have M: "(\<forall>p ob. length p \<le> length bs \<longrightarrow> m p ob \<noteq> None) \<longrightarrow> read_message W m bs ob \<noteq> None \<and>
      (\<forall>ob' r. read_message W m bs ob = Some (Some (ob', r)) \<longrightarrow> length r \<le> length bs)"
    using S [THEN conjunct2, THEN conjunct2, THEN conjunct2, THEN conjunct2, THEN conjunct2, THEN conjunct2, THEN conjunct2, THEN conjunct2]
    by (elim allE)
  show "read_message W m bs ob \<noteq> None" if "\<And>p ob. length p \<le> length bs \<Longrightarrow> m p ob \<noteq> None"
    using M that by blast
  show "length r \<le> length bs" if "\<And>p ob. length p \<le> length bs \<Longrightarrow> m p ob \<noteq> None" "read_message W m bs ob = Some (Some (ob', r))"
    using M that by blast
qed

lemma expected_shrinks:
  assumes "shrinks W" "expected W ts bs = Some (l, r)"
  shows "length r < length bs" "\<exists>t. (t, l) \<in> set ts"
proof -
  have "length r < length bs \<and> (\<exists>t. (t, l) \<in> set ts)" using assms(2)
  proof (induction ts)
    case (Cons tl ts)
    obtain t l' where tl: "tl = (t, l')" by (cases tl)
    show ?case using Cons tl shrinksD(2) [OF assms(1)] by (cases "expect_tag W t bs") auto
  qed simp
  then show "length r < length bs" "\<exists>t. (t, l) \<in> set ts" by simp_all
qed

text \<open>One turn of the loop, when the turns after it return.\<close>

definition goes_on :: "wire_lib \<Rightarrow> pb_case list \<Rightarrow> nat \<Rightarrow> bool" where
  "goes_on W cs n \<longleftrightarrow> (\<forall>bs ob. length bs < n \<longrightarrow> parse_loop W cs n None bs ob \<noteq> None) \<and>
     (\<forall>l bs ob. length bs + 1 < n \<longrightarrow> case_at cs l \<noteq> None \<longrightarrow> parse_loop W cs n (Some l) bs ob \<noteq> None)"

lemma next_turn_returns:
  assumes W: "shrinks W" and cs: "cases_ok cs" and g: "goes_on W cs n" and c: "c \<in> set cs" and r: "length r < n"
  shows "(case expected W (nexts c) r of Some (l, bs) \<Rightarrow> parse_loop W cs n (Some l) bs ob
      | None \<Rightarrow> if at_end c \<and> expect_end W r then Some (Merged ob True) else parse_loop W cs n None r ob) \<noteq> None"
proof (cases "expected W (nexts c) r")
  case None
  then show ?thesis using g r by (simp add: goes_on_def)
next
  case (Some lr)
  obtain l r' where lr: "lr = (l, r')" by (cases lr)
  have "length r' < length r" "\<exists>t. (t, l) \<in> set (nexts c)" using expected_shrinks [OF W] Some lr by blast+
  then have "length r' + 1 < n" "case_at cs l \<noteq> None" using r c cs unfolding cases_ok_def by fastforce+
  then show ?thesis using g Some lr by (simp add: goes_on_def)
qed

lemma read_turn_returns:
  assumes W: "shrinks W" and cs: "cases_ok cs" "returns (reader c)" and g: "goes_on W cs n" and c: "c \<in> set cs" and n: "length bs < n"
  shows "(case reader c n bs ob of None \<Rightarrow> None | Some None \<Rightarrow> Some Failed
      | Some (Some (ob, bs)) \<Rightarrow>
         (case expected W (nexts c) bs of Some (l, bs) \<Rightarrow> parse_loop W cs n (Some l) bs ob
          | None \<Rightarrow> if at_end c \<and> expect_end W bs then Some (Merged ob True) else parse_loop W cs n None bs ob)) \<noteq> None"
proof -
  have rd: "reader c n bs ob \<noteq> None" "\<And>ob' r. reader c n bs ob = Some (Some (ob', r)) \<Longrightarrow> length r \<le> length bs"
    using cs(2) n unfolding returns_def by blast+
  then consider "reader c n bs ob = Some None" | ob' r where "reader c n bs ob = Some (Some (ob', r))" by (metis not_None_eq surj_pair)
  then show ?thesis
  proof cases
    case 1
    then show ?thesis by simp
  next
    case (2 ob' r)
    then have "length r < n" using rd(2) n by fastforce
    from next_turn_returns [OF W cs(1) g c this] show ?thesis unfolding 2 option.case prod.case .
  qed
qed

lemma other_turn_returns:
  assumes W: "shrinks W" and g: "goes_on W cs n" and n: "length r < n"
  shows "(if tag_wire W tag = WIRETYPE_END_GROUP then Some (Merged ob False)
    else case skip_field W tag r (unknown_fields ob) of None \<Rightarrow> Some Failed
      | Some (bs, u) \<Rightarrow> parse_loop W cs n None bs (put_unknown u ob)) \<noteq> None"
proof (cases "skip_field W tag r (unknown_fields ob)")
  case (Some q)
  obtain r' u where q: "q = (r', u)" by (cases q)
  have "length r' \<le> length r" using shrinksD(8) [OF W] Some q by blast
  then show ?thesis using Some q g n by (simp add: goes_on_def)
qed simp

lemma loop_returns:
  assumes W: "shrinks W" and cs: "cases_ok cs" "\<forall>c \<in> set cs. returns (reader c)"
  shows "(label = None \<longrightarrow> length bs < n) \<Longrightarrow> (\<forall>l. label = Some l \<longrightarrow> length bs + 1 < n \<and> case_at cs l \<noteq> None) \<Longrightarrow>
    parse_loop W cs n label bs ob \<noteq> None"
proof (induction n arbitrary: label bs ob)
  case 0
  then show ?case by (cases label) auto
next
  case (Suc n)
  have g: "goes_on W cs n" unfolding goes_on_def using Suc.IH by simp
  show ?case
  proof (cases label)
    case (Some l)
    then obtain c where c: "case_at cs l = Some c" using Suc.prems by auto
    then have f: "find (\<lambda>c. field_no c = l) cs = Some c" "c \<in> set cs" using case_atD [OF c] by (simp_all add: case_at_def)
    have "length bs < n" using Suc.prems Some by simp
    from read_turn_returns [OF W cs(1) _ g f(2) this] cs(2) f(2) show ?thesis
      unfolding Some parse_loop.simps Let_def option.case f(1) by blast
  next
    case None
    obtain tag r where tr: "read_tag W bs = (tag, r)" by (cases "read_tag W bs")
    show ?thesis
    proof (cases "tag = 0")
      case True
      then show ?thesis unfolding None parse_loop.simps Let_def option.case tr prod.case by simp
    next
      case False
      then have "length r < length bs" using shrinksD(1) [OF W, of bs] tr by simp
      then have r: "length r < n" using Suc.prems None by simp
      note other = other_turn_returns [OF W g r, of tag]
      show ?thesis
      proof (cases "find (\<lambda>c. field_no c = tag_field W tag) cs")
        case no: None
        then show ?thesis unfolding None parse_loop.simps Let_def option.case tr prod.case no using False other by simp
      next
        case (Some c)
        then have c: "c \<in> set cs" using case_atD [of cs "tag_field W tag" c] by (simp add: case_at_def)
        then have "returns (reader c)" using cs(2) by blast
        from read_turn_returns [OF W cs(1) this g c r] other show ?thesis
          unfolding None parse_loop.simps Let_def option.case tr prod.case Some using False by simp
      qed
    qed
  qed
qed

lemma returns_store: "(\<And>n bs ob. rd n bs ob = store i mk (f bs) ob) \<Longrightarrow>
    (\<And>bs v r. f bs = Some (v, r) \<Longrightarrow> length r \<le> length bs) \<Longrightarrow> returns rd"
  unfolding returns_def store_def by fastforce

lemma returns_message:
  assumes W: "shrinks W" and m: "\<And>n bs ob. length bs < n \<Longrightarrow> merge n bs ob \<noteq> None"
    and rd: "\<And>n bs ob. rd n bs ob = map_option (map_option (\<lambda>(sub, bs). (g ob sub, bs))) (read_message W (merge n) bs (h ob))"
  shows "returns rd"
  unfolding returns_def
proof (intro allI impI conjI)
  fix n bs ob assume n: "length (bs :: bytes) < n"
  have M: "\<And>p ob. length p \<le> length bs \<Longrightarrow> merge n p ob \<noteq> None" using m n by simp
  show "rd n bs ob \<noteq> None" using shrinksD(9) [OF W M] rd by simp
  fix ob' r assume "rd n bs ob = Some (Some (ob', r))"
  then obtain sub where "read_message W (merge n) bs (h ob) = Some (Some (sub, r))" using rd by auto
  from shrinksD(10) [OF W M this] show "length r \<le> length bs" .
qed

theorem parse_returns:
  shows "shrinks W \<Longrightarrow> declared d \<Longrightarrow> length bs < n \<Longrightarrow> merge_partial W (cases_of W d) n bs ob \<noteq> None"
    and "shrinks W \<Longrightarrow> declared_fields fs \<Longrightarrow> \<forall>c \<in> set (cases_from W i fs). returns (reader c)"
    and "shrinks W \<Longrightarrow> declared_type ty \<Longrightarrow> returns (reader_of W i lb ty)"
proof (induction W d and W i fs and W i lb ty arbitrary: bs n ob and and rule: cases_of_cases_from_reader_of.induct)
  case (1 W fs)
  then have "length fs \<le> 15" "\<forall>c \<in> set (cases_from W 1 fs). returns (reader c)" by simp_all
  then show ?case using loop_returns [OF 1(2) cases_ok_of, of fs W None bs n ob] 1(4) by (simp add: merge_partial_def)
next
  case (4 W i lb)
  show ?case by (rule returns_store [of _ _ _ "read_uint32 W"]) (simp_all add: uint32_field_def shrinksD(3) [OF 4(1)])
next
  case (5 W i lb)
  show ?case by (rule returns_store [of _ _ _ "read_int32 W"]) (simp_all add: int32_field_def shrinksD(4) [OF 5(1)])
next
  case (6 W i lb)
  show ?case by (rule returns_store [of _ _ _ "read_bool W"]) (simp_all add: bool_field_def shrinksD(5) [OF 6(1)])
next
  case (7 W i lb)
  show ?case by (rule returns_store [of _ _ _ "read_string W"]) (simp_all add: string_field_def shrinksD(6) [OF 7(1)])
next
  case (8 W i lb)
  show ?case by (rule returns_store [of _ _ _ "read_bytes W"]) (simp_all add: bytes_field_def shrinksD(7) [OF 8(1)])
next
  case (9 W i lb d)
  have m: "\<And>n bs ob. length bs < n \<Longrightarrow> merge_partial W (cases_of W d) n bs ob \<noteq> None"
    using 9(1) [OF 9(2)] 9(3) by simp
  show ?case
  proof (cases "lb = Repeated")
    case True
    show ?thesis
      by (rule returns_message [OF 9(2) m, where g = "\<lambda>ob sub. put_at i (V_rep (objs_of (val i ob) @ [sub])) ob" and h = "\<lambda>ob. new_of d"])
        (simp_all add: True add_message_field_def)
  next
    case False
    show ?thesis
      by (rule returns_message [OF 9(2) m, where g = "\<lambda>ob sub. set_has i (put_at i (V_ptr (Some sub)) ob)" and h = "\<lambda>ob. obj_of (new_of d) (val i ob)"])
        (simp_all add: False message_field_def)
  qed
qed auto

end
