(* ===== verification/Pb_Classes.thy ===== *)
theory Pb_Classes
  imports Pb_Agree Pb_Whole
begin

text \<open>
  The message classes as a list, and what holds of every one of them: the generated code is the
  reference for its declaration in message.proto, so that the lemmas on declarations apply.
  \<open>ParseFromString\<close> and \<open>SerializeToString\<close> are the runtime's functions over the class's own.
\<close>

section \<open>The classes\<close>

record pb_class =
  c_proto :: descr
  c_new :: pb_obj
  c_clear :: "pb_obj \<Rightarrow> pb_obj"
  c_parse :: "wire_lib \<Rightarrow> merger"
  c_size :: "wire_lib \<Rightarrow> pb_obj \<Rightarrow> nat"
  c_ser :: "wire_lib \<Rightarrow> pb_obj \<Rightarrow> bytes"
  c_arr :: "wire_lib \<Rightarrow> pb_obj \<Rightarrow> bytes \<Rightarrow> bytes"
  c_merge :: "wire_lib \<Rightarrow> pb_obj \<Rightarrow> pb_obj \<Rightarrow> pb_obj"
  c_copy :: "wire_lib \<Rightarrow> pb_obj \<Rightarrow> pb_obj \<Rightarrow> pb_obj"
  c_init :: "pb_obj \<Rightarrow> bool"
  c_swap :: "pb_obj \<times> pb_obj \<Rightarrow> pb_obj \<times> pb_obj"

definition Echo_class :: pb_class where
  "Echo_class = \<lparr>c_proto = Echo_proto, c_new = Echo_new, c_clear = Echo_Clear, c_parse = Echo_MergePartial,
     c_size = Echo_ByteSize, c_ser = Echo_Serialize, c_arr = Echo_ToArray, c_merge = Echo_MergeFrom,
     c_copy = Echo_CopyFrom, c_init = Echo_IsInitialized, c_swap = Echo_Swap\<rparr>"

definition LogOnorOut_class :: pb_class where
  "LogOnorOut_class = \<lparr>c_proto = LogOnorOut_proto, c_new = LogOnorOut_new, c_clear = LogOnorOut_Clear, c_parse = LogOnorOut_MergePartial,
     c_size = LogOnorOut_ByteSize, c_ser = LogOnorOut_Serialize, c_arr = LogOnorOut_ToArray, c_merge = LogOnorOut_MergeFrom,
     c_copy = LogOnorOut_CopyFrom, c_init = LogOnorOut_IsInitialized, c_swap = LogOnorOut_Swap\<rparr>"

definition ImageVersion_class :: pb_class where
  "ImageVersion_class = \<lparr>c_proto = ImageVersion_proto, c_new = ImageVersion_new, c_clear = ImageVersion_Clear, c_parse = ImageVersion_MergePartial,
     c_size = ImageVersion_ByteSize, c_ser = ImageVersion_Serialize, c_arr = ImageVersion_ToArray, c_merge = ImageVersion_MergeFrom,
     c_copy = ImageVersion_CopyFrom, c_init = ImageVersion_IsInitialized, c_swap = ImageVersion_Swap\<rparr>"

definition ChessBoardUser_class :: pb_class where
  "ChessBoardUser_class = \<lparr>c_proto = ChessBoardUser_proto, c_new = ChessBoardUser_new, c_clear = ChessBoardUser_Clear, c_parse = ChessBoardUser_MergePartial,
     c_size = ChessBoardUser_ByteSize, c_ser = ChessBoardUser_Serialize, c_arr = ChessBoardUser_ToArray, c_merge = ChessBoardUser_MergeFrom,
     c_copy = ChessBoardUser_CopyFrom, c_init = ChessBoardUser_IsInitialized, c_swap = ChessBoardUser_Swap\<rparr>"

definition ReplyStatus_class :: pb_class where
  "ReplyStatus_class = \<lparr>c_proto = ReplyStatus_proto, c_new = ReplyStatus_new, c_clear = ReplyStatus_Clear, c_parse = ReplyStatus_MergePartial,
     c_size = ReplyStatus_ByteSize, c_ser = ReplyStatus_Serialize, c_arr = ReplyStatus_ToArray, c_merge = ReplyStatus_MergeFrom,
     c_copy = ReplyStatus_CopyFrom, c_init = ReplyStatus_IsInitialized, c_swap = ReplyStatus_Swap\<rparr>"

definition Register_class :: pb_class where
  "Register_class = \<lparr>c_proto = Register_proto, c_new = Register_new, c_clear = Register_Clear, c_parse = Register_MergePartial,
     c_size = Register_ByteSize, c_ser = Register_Serialize, c_arr = Register_ToArray, c_merge = Register_MergeFrom,
     c_copy = Register_CopyFrom, c_init = Register_IsInitialized, c_swap = Register_Swap\<rparr>"

definition ChessBoardInfoReq_class :: pb_class where
  "ChessBoardInfoReq_class = \<lparr>c_proto = ChessBoardInfoReq_proto, c_new = ChessBoardInfoReq_new, c_clear = ChessBoardInfoReq_Clear, c_parse = ChessBoardInfoReq_MergePartial,
     c_size = ChessBoardInfoReq_ByteSize, c_ser = ChessBoardInfoReq_Serialize, c_arr = ChessBoardInfoReq_ToArray, c_merge = ChessBoardInfoReq_MergeFrom,
     c_copy = ChessBoardInfoReq_CopyFrom, c_init = ChessBoardInfoReq_IsInitialized, c_swap = ChessBoardInfoReq_Swap\<rparr>"

definition ChessBoardInfo_class :: pb_class where
  "ChessBoardInfo_class = \<lparr>c_proto = ChessBoardInfo_proto, c_new = ChessBoardInfo_new, c_clear = ChessBoardInfo_Clear, c_parse = ChessBoardInfo_MergePartial,
     c_size = ChessBoardInfo_ByteSize, c_ser = ChessBoardInfo_Serialize, c_arr = ChessBoardInfo_ToArray, c_merge = ChessBoardInfo_MergeFrom,
     c_copy = ChessBoardInfo_CopyFrom, c_init = ChessBoardInfo_IsInitialized, c_swap = ChessBoardInfo_Swap\<rparr>"

definition HallInfoReq_class :: pb_class where
  "HallInfoReq_class = \<lparr>c_proto = HallInfoReq_proto, c_new = HallInfoReq_new, c_clear = HallInfoReq_Clear, c_parse = HallInfoReq_MergePartial,
     c_size = HallInfoReq_ByteSize, c_ser = HallInfoReq_Serialize, c_arr = HallInfoReq_ToArray, c_merge = HallInfoReq_MergeFrom,
     c_copy = HallInfoReq_CopyFrom, c_init = HallInfoReq_IsInitialized, c_swap = HallInfoReq_Swap\<rparr>"

definition HallInfo_class :: pb_class where
  "HallInfo_class = \<lparr>c_proto = HallInfo_proto, c_new = HallInfo_new, c_clear = HallInfo_Clear, c_parse = HallInfo_MergePartial,
     c_size = HallInfo_ByteSize, c_ser = HallInfo_Serialize, c_arr = HallInfo_ToArray, c_merge = HallInfo_MergeFrom,
     c_copy = HallInfo_CopyFrom, c_init = HallInfo_IsInitialized, c_swap = HallInfo_Swap\<rparr>"

definition GameHallSumaryReq_class :: pb_class where
  "GameHallSumaryReq_class = \<lparr>c_proto = GameHallSumaryReq_proto, c_new = GameHallSumaryReq_new, c_clear = GameHallSumaryReq_Clear, c_parse = GameHallSumaryReq_MergePartial,
     c_size = GameHallSumaryReq_ByteSize, c_ser = GameHallSumaryReq_Serialize, c_arr = GameHallSumaryReq_ToArray, c_merge = GameHallSumaryReq_MergeFrom,
     c_copy = GameHallSumaryReq_CopyFrom, c_init = GameHallSumaryReq_IsInitialized, c_swap = GameHallSumaryReq_Swap\<rparr>"

definition GameHallSumary_class :: pb_class where
  "GameHallSumary_class = \<lparr>c_proto = GameHallSumary_proto, c_new = GameHallSumary_new, c_clear = GameHallSumary_Clear, c_parse = GameHallSumary_MergePartial,
     c_size = GameHallSumary_ByteSize, c_ser = GameHallSumary_Serialize, c_arr = GameHallSumary_ToArray, c_merge = GameHallSumary_MergeFrom,
     c_copy = GameHallSumary_CopyFrom, c_init = GameHallSumary_IsInitialized, c_swap = GameHallSumary_Swap\<rparr>"

definition RequestPlay_class :: pb_class where
  "RequestPlay_class = \<lparr>c_proto = RequestPlay_proto, c_new = RequestPlay_new, c_clear = RequestPlay_Clear, c_parse = RequestPlay_MergePartial,
     c_size = RequestPlay_ByteSize, c_ser = RequestPlay_Serialize, c_arr = RequestPlay_ToArray, c_merge = RequestPlay_MergeFrom,
     c_copy = RequestPlay_CopyFrom, c_init = RequestPlay_IsInitialized, c_swap = RequestPlay_Swap\<rparr>"

definition RequestPlayReply_class :: pb_class where
  "RequestPlayReply_class = \<lparr>c_proto = RequestPlayReply_proto, c_new = RequestPlayReply_new, c_clear = RequestPlayReply_Clear, c_parse = RequestPlayReply_MergePartial,
     c_size = RequestPlayReply_ByteSize, c_ser = RequestPlayReply_Serialize, c_arr = RequestPlayReply_ToArray, c_merge = RequestPlayReply_MergeFrom,
     c_copy = RequestPlayReply_CopyFrom, c_init = RequestPlayReply_IsInitialized, c_swap = RequestPlayReply_Swap\<rparr>"

definition MoveChess_class :: pb_class where
  "MoveChess_class = \<lparr>c_proto = MoveChess_proto, c_new = MoveChess_new, c_clear = MoveChess_Clear, c_parse = MoveChess_MergePartial,
     c_size = MoveChess_ByteSize, c_ser = MoveChess_Serialize, c_arr = MoveChess_ToArray, c_merge = MoveChess_MergeFrom,
     c_copy = MoveChess_CopyFrom, c_init = MoveChess_IsInitialized, c_swap = MoveChess_Swap\<rparr>"

definition MoveAction_class :: pb_class where
  "MoveAction_class = \<lparr>c_proto = MoveAction_proto, c_new = MoveAction_new, c_clear = MoveAction_Clear, c_parse = MoveAction_MergePartial,
     c_size = MoveAction_ByteSize, c_ser = MoveAction_Serialize, c_arr = MoveAction_ToArray, c_merge = MoveAction_MergeFrom,
     c_copy = MoveAction_CopyFrom, c_init = MoveAction_IsInitialized, c_swap = MoveAction_Swap\<rparr>"

definition UserMessage_class :: pb_class where
  "UserMessage_class = \<lparr>c_proto = UserMessage_proto, c_new = UserMessage_new, c_clear = UserMessage_Clear, c_parse = UserMessage_MergePartial,
     c_size = UserMessage_ByteSize, c_ser = UserMessage_Serialize, c_arr = UserMessage_ToArray, c_merge = UserMessage_MergeFrom,
     c_copy = UserMessage_CopyFrom, c_init = UserMessage_IsInitialized, c_swap = UserMessage_Swap\<rparr>"

definition SystemMessage_class :: pb_class where
  "SystemMessage_class = \<lparr>c_proto = SystemMessage_proto, c_new = SystemMessage_new, c_clear = SystemMessage_Clear, c_parse = SystemMessage_MergePartial,
     c_size = SystemMessage_ByteSize, c_ser = SystemMessage_Serialize, c_arr = SystemMessage_ToArray, c_merge = SystemMessage_MergeFrom,
     c_copy = SystemMessage_CopyFrom, c_init = SystemMessage_IsInitialized, c_swap = SystemMessage_Swap\<rparr>"

definition Reconciled_class :: pb_class where
  "Reconciled_class = \<lparr>c_proto = Reconciled_proto, c_new = Reconciled_new, c_clear = Reconciled_Clear, c_parse = Reconciled_MergePartial,
     c_size = Reconciled_ByteSize, c_ser = Reconciled_Serialize, c_arr = Reconciled_ToArray, c_merge = Reconciled_MergeFrom,
     c_copy = Reconciled_CopyFrom, c_init = Reconciled_IsInitialized, c_swap = Reconciled_Swap\<rparr>"

definition GiveUp_class :: pb_class where
  "GiveUp_class = \<lparr>c_proto = GiveUp_proto, c_new = GiveUp_new, c_clear = GiveUp_Clear, c_parse = GiveUp_MergePartial,
     c_size = GiveUp_ByteSize, c_ser = GiveUp_Serialize, c_arr = GiveUp_ToArray, c_merge = GiveUp_MergeFrom,
     c_copy = GiveUp_CopyFrom, c_init = GiveUp_IsInitialized, c_swap = GiveUp_Swap\<rparr>"

definition Undo_class :: pb_class where
  "Undo_class = \<lparr>c_proto = Undo_proto, c_new = Undo_new, c_clear = Undo_Clear, c_parse = Undo_MergePartial,
     c_size = Undo_ByteSize, c_ser = Undo_Serialize, c_arr = Undo_ToArray, c_merge = Undo_MergeFrom,
     c_copy = Undo_CopyFrom, c_init = Undo_IsInitialized, c_swap = Undo_Swap\<rparr>"

definition GameReadyReq_class :: pb_class where
  "GameReadyReq_class = \<lparr>c_proto = GameReadyReq_proto, c_new = GameReadyReq_new, c_clear = GameReadyReq_Clear, c_parse = GameReadyReq_MergePartial,
     c_size = GameReadyReq_ByteSize, c_ser = GameReadyReq_Serialize, c_arr = GameReadyReq_ToArray, c_merge = GameReadyReq_MergeFrom,
     c_copy = GameReadyReq_CopyFrom, c_init = GameReadyReq_IsInitialized, c_swap = GameReadyReq_Swap\<rparr>"

definition GameStatusReply_class :: pb_class where
  "GameStatusReply_class = \<lparr>c_proto = GameStatusReply_proto, c_new = GameStatusReply_new, c_clear = GameStatusReply_Clear, c_parse = GameStatusReply_MergePartial,
     c_size = GameStatusReply_ByteSize, c_ser = GameStatusReply_Serialize, c_arr = GameStatusReply_ToArray, c_merge = GameStatusReply_MergeFrom,
     c_copy = GameStatusReply_CopyFrom, c_init = GameStatusReply_IsInitialized, c_swap = GameStatusReply_Swap\<rparr>"

definition FindPassword_class :: pb_class where
  "FindPassword_class = \<lparr>c_proto = FindPassword_proto, c_new = FindPassword_new, c_clear = FindPassword_Clear, c_parse = FindPassword_MergePartial,
     c_size = FindPassword_ByteSize, c_ser = FindPassword_Serialize, c_arr = FindPassword_ToArray, c_merge = FindPassword_MergeFrom,
     c_copy = FindPassword_CopyFrom, c_init = FindPassword_IsInitialized, c_swap = FindPassword_Swap\<rparr>"

definition UpdateUserInfo_class :: pb_class where
  "UpdateUserInfo_class = \<lparr>c_proto = UpdateUserInfo_proto, c_new = UpdateUserInfo_new, c_clear = UpdateUserInfo_Clear, c_parse = UpdateUserInfo_MergePartial,
     c_size = UpdateUserInfo_ByteSize, c_ser = UpdateUserInfo_Serialize, c_arr = UpdateUserInfo_ToArray, c_merge = UpdateUserInfo_MergeFrom,
     c_copy = UpdateUserInfo_CopyFrom, c_init = UpdateUserInfo_IsInitialized, c_swap = UpdateUserInfo_Swap\<rparr>"

definition AdPictureItemReply_class :: pb_class where
  "AdPictureItemReply_class = \<lparr>c_proto = AdPictureItemReply_proto, c_new = AdPictureItemReply_new, c_clear = AdPictureItemReply_Clear, c_parse = AdPictureItemReply_MergePartial,
     c_size = AdPictureItemReply_ByteSize, c_ser = AdPictureItemReply_Serialize, c_arr = AdPictureItemReply_ToArray, c_merge = AdPictureItemReply_MergeFrom,
     c_copy = AdPictureItemReply_CopyFrom, c_init = AdPictureItemReply_IsInitialized, c_swap = AdPictureItemReply_Swap\<rparr>"

definition AdPictureReq_class :: pb_class where
  "AdPictureReq_class = \<lparr>c_proto = AdPictureReq_proto, c_new = AdPictureReq_new, c_clear = AdPictureReq_Clear, c_parse = AdPictureReq_MergePartial,
     c_size = AdPictureReq_ByteSize, c_ser = AdPictureReq_Serialize, c_arr = AdPictureReq_ToArray, c_merge = AdPictureReq_MergeFrom,
     c_copy = AdPictureReq_CopyFrom, c_init = AdPictureReq_IsInitialized, c_swap = AdPictureReq_Swap\<rparr>"

definition AdPictureContentReply_class :: pb_class where
  "AdPictureContentReply_class = \<lparr>c_proto = AdPictureContentReply_proto, c_new = AdPictureContentReply_new, c_clear = AdPictureContentReply_Clear, c_parse = AdPictureContentReply_MergePartial,
     c_size = AdPictureContentReply_ByteSize, c_ser = AdPictureContentReply_Serialize, c_arr = AdPictureContentReply_ToArray, c_merge = AdPictureContentReply_MergeFrom,
     c_copy = AdPictureContentReply_CopyFrom, c_init = AdPictureContentReply_IsInitialized, c_swap = AdPictureContentReply_Swap\<rparr>"

definition message_classes :: "pb_class list" where
  "message_classes =
    [Echo_class, LogOnorOut_class, ImageVersion_class, ChessBoardUser_class, ReplyStatus_class,
     Register_class, ChessBoardInfoReq_class, ChessBoardInfo_class, HallInfoReq_class, HallInfo_class,
     GameHallSumaryReq_class, GameHallSumary_class, RequestPlay_class, RequestPlayReply_class, MoveChess_class,
     MoveAction_class, UserMessage_class, SystemMessage_class, Reconciled_class, GiveUp_class,
     Undo_class, GameReadyReq_class, GameStatusReply_class, FindPassword_class, UpdateUserInfo_class,
     AdPictureItemReply_class, AdPictureReq_class, AdPictureContentReply_class]"

section \<open>Strings\<close>

text \<open>\<open>MessageLite::ParseFromString\<close> clears the object and parses into it; \<open>SerializeToString\<close> asks for
  the size and writes into an array of it.\<close>

definition ParseFromString :: "wire_lib \<Rightarrow> pb_class \<Rightarrow> bytes \<Rightarrow> pb_obj \<Rightarrow> pb_obj option option" where
  "ParseFromString W C bs ob = parse_string W (c_parse C W (length bs + 1)) (c_init C) bs (c_clear C ob)"

definition SerializeToString :: "wire_lib \<Rightarrow> pb_class \<Rightarrow> pb_obj \<Rightarrow> bytes" where
  "SerializeToString W C ob = serialize_string W (c_size C W ob) (c_arr C W ob)"

section \<open>Every class is as declared\<close>

definition as_declared :: "pb_class \<Rightarrow> bool" where
  "as_declared C \<longleftrightarrow> c_new C = new_of (c_proto C) \<and> c_init C = init_of (c_proto C) \<and> c_clear C (c_new C) = c_new C \<and>
     (\<forall>W. c_parse C W = merge_partial W (cases_of W (c_proto C)) \<and> c_size C W = size_of W (c_proto C) \<and>
       c_ser C W = ser_of W (c_proto C) \<and> c_arr C W = arr_of W (c_proto C) \<and> c_merge C W = merge_of W (c_proto C) \<and>
       (\<forall>source ob. c_copy C W source ob = c_merge C W source (c_clear C ob)))"

definition swap_of :: "descr \<Rightarrow> pb_obj \<times> pb_obj \<Rightarrow> pb_obj \<times> pb_obj" where
  "swap_of d p = swap_unknown (swap_bits (fold swap_val [1..<Suc (length (fields_of d))] p))"

definition swaps :: "pb_class \<Rightarrow> bool" where
  "swaps C \<longleftrightarrow> c_swap C = swap_of (c_proto C)"

lemma Echo_swaps: "swaps Echo_class"
  by (simp add: swaps_def Echo_class_def Echo_Swap_def Echo_proto_def swap_of_def Let_def numeral_eq_Suc fun_eq_iff)

lemma LogOnorOut_swaps: "swaps LogOnorOut_class"
  by (simp add: swaps_def LogOnorOut_class_def LogOnorOut_Swap_def LogOnorOut_proto_def swap_of_def Let_def numeral_eq_Suc fun_eq_iff)

lemma ImageVersion_swaps: "swaps ImageVersion_class"
  by (simp add: swaps_def ImageVersion_class_def ImageVersion_Swap_def ImageVersion_proto_def swap_of_def Let_def numeral_eq_Suc fun_eq_iff)

lemma ChessBoardUser_swaps: "swaps ChessBoardUser_class"
  by (simp add: swaps_def ChessBoardUser_class_def ChessBoardUser_Swap_def ChessBoardUser_proto_def swap_of_def Let_def numeral_eq_Suc fun_eq_iff)

lemma ReplyStatus_swaps: "swaps ReplyStatus_class"
  by (simp add: swaps_def ReplyStatus_class_def ReplyStatus_Swap_def ReplyStatus_proto_def swap_of_def Let_def numeral_eq_Suc fun_eq_iff)

lemma Register_swaps: "swaps Register_class"
  by (simp add: swaps_def Register_class_def Register_Swap_def Register_proto_def swap_of_def Let_def numeral_eq_Suc fun_eq_iff)

lemma ChessBoardInfoReq_swaps: "swaps ChessBoardInfoReq_class"
  by (simp add: swaps_def ChessBoardInfoReq_class_def ChessBoardInfoReq_Swap_def ChessBoardInfoReq_proto_def swap_of_def Let_def numeral_eq_Suc fun_eq_iff)

lemma ChessBoardInfo_swaps: "swaps ChessBoardInfo_class"
  by (simp add: swaps_def ChessBoardInfo_class_def ChessBoardInfo_Swap_def ChessBoardInfo_proto_def swap_of_def Let_def numeral_eq_Suc fun_eq_iff)

lemma HallInfoReq_swaps: "swaps HallInfoReq_class"
  by (simp add: swaps_def HallInfoReq_class_def HallInfoReq_Swap_def HallInfoReq_proto_def swap_of_def Let_def numeral_eq_Suc fun_eq_iff)

lemma HallInfo_swaps: "swaps HallInfo_class"
  by (simp add: swaps_def HallInfo_class_def HallInfo_Swap_def HallInfo_proto_def swap_of_def Let_def numeral_eq_Suc fun_eq_iff)

lemma GameHallSumaryReq_swaps: "swaps GameHallSumaryReq_class"
  by (simp add: swaps_def GameHallSumaryReq_class_def GameHallSumaryReq_Swap_def GameHallSumaryReq_proto_def swap_of_def Let_def numeral_eq_Suc fun_eq_iff)

lemma GameHallSumary_swaps: "swaps GameHallSumary_class"
  by (simp add: swaps_def GameHallSumary_class_def GameHallSumary_Swap_def GameHallSumary_proto_def swap_of_def Let_def numeral_eq_Suc fun_eq_iff)

lemma RequestPlay_swaps: "swaps RequestPlay_class"
  by (simp add: swaps_def RequestPlay_class_def RequestPlay_Swap_def RequestPlay_proto_def swap_of_def Let_def numeral_eq_Suc fun_eq_iff)

lemma RequestPlayReply_swaps: "swaps RequestPlayReply_class"
  by (simp add: swaps_def RequestPlayReply_class_def RequestPlayReply_Swap_def RequestPlayReply_proto_def swap_of_def Let_def numeral_eq_Suc fun_eq_iff)

lemma MoveChess_swaps: "swaps MoveChess_class"
  by (simp add: swaps_def MoveChess_class_def MoveChess_Swap_def MoveChess_proto_def swap_of_def Let_def numeral_eq_Suc fun_eq_iff)

lemma MoveAction_swaps: "swaps MoveAction_class"
  by (simp add: swaps_def MoveAction_class_def MoveAction_Swap_def MoveAction_proto_def swap_of_def Let_def numeral_eq_Suc fun_eq_iff)

lemma UserMessage_swaps: "swaps UserMessage_class"
  by (simp add: swaps_def UserMessage_class_def UserMessage_Swap_def UserMessage_proto_def swap_of_def Let_def numeral_eq_Suc fun_eq_iff)

lemma SystemMessage_swaps: "swaps SystemMessage_class"
  by (simp add: swaps_def SystemMessage_class_def SystemMessage_Swap_def SystemMessage_proto_def swap_of_def Let_def numeral_eq_Suc fun_eq_iff)

lemma Reconciled_swaps: "swaps Reconciled_class"
  by (simp add: swaps_def Reconciled_class_def Reconciled_Swap_def Reconciled_proto_def swap_of_def Let_def numeral_eq_Suc fun_eq_iff)

lemma GiveUp_swaps: "swaps GiveUp_class"
  by (simp add: swaps_def GiveUp_class_def GiveUp_Swap_def GiveUp_proto_def swap_of_def Let_def numeral_eq_Suc fun_eq_iff)

lemma Undo_swaps: "swaps Undo_class"
  by (simp add: swaps_def Undo_class_def Undo_Swap_def Undo_proto_def swap_of_def Let_def numeral_eq_Suc fun_eq_iff)

lemma GameReadyReq_swaps: "swaps GameReadyReq_class"
  by (simp add: swaps_def GameReadyReq_class_def GameReadyReq_Swap_def GameReadyReq_proto_def swap_of_def Let_def numeral_eq_Suc fun_eq_iff)

lemma GameStatusReply_swaps: "swaps GameStatusReply_class"
  by (simp add: swaps_def GameStatusReply_class_def GameStatusReply_Swap_def GameStatusReply_proto_def swap_of_def Let_def numeral_eq_Suc fun_eq_iff)

lemma FindPassword_swaps: "swaps FindPassword_class"
  by (simp add: swaps_def FindPassword_class_def FindPassword_Swap_def FindPassword_proto_def swap_of_def Let_def numeral_eq_Suc fun_eq_iff)

lemma UpdateUserInfo_swaps: "swaps UpdateUserInfo_class"
  by (simp add: swaps_def UpdateUserInfo_class_def UpdateUserInfo_Swap_def UpdateUserInfo_proto_def swap_of_def Let_def numeral_eq_Suc fun_eq_iff)

lemma AdPictureItemReply_swaps: "swaps AdPictureItemReply_class"
  by (simp add: swaps_def AdPictureItemReply_class_def AdPictureItemReply_Swap_def AdPictureItemReply_proto_def swap_of_def Let_def numeral_eq_Suc fun_eq_iff)

lemma AdPictureReq_swaps: "swaps AdPictureReq_class"
  by (simp add: swaps_def AdPictureReq_class_def AdPictureReq_Swap_def AdPictureReq_proto_def swap_of_def Let_def numeral_eq_Suc fun_eq_iff)

lemma AdPictureContentReply_swaps: "swaps AdPictureContentReply_class"
  by (simp add: swaps_def AdPictureContentReply_class_def AdPictureContentReply_Swap_def AdPictureContentReply_proto_def swap_of_def Let_def numeral_eq_Suc fun_eq_iff)

lemma Echo_as_declared: "as_declared Echo_class"
  by (simp add: as_declared_def Echo_class_def Echo_agrees(1-7) Echo_agrees(8) [unfolded Echo_agrees(1)] Echo_CopyFrom_def fun_eq_iff)

lemma LogOnorOut_as_declared: "as_declared LogOnorOut_class"
  by (simp add: as_declared_def LogOnorOut_class_def LogOnorOut_agrees(1-7) LogOnorOut_agrees(8) [unfolded LogOnorOut_agrees(1)] LogOnorOut_CopyFrom_def fun_eq_iff)

lemma ImageVersion_as_declared: "as_declared ImageVersion_class"
  by (simp add: as_declared_def ImageVersion_class_def ImageVersion_agrees(1-7) ImageVersion_agrees(8) [unfolded ImageVersion_agrees(1)] ImageVersion_CopyFrom_def fun_eq_iff)

lemma ChessBoardUser_as_declared: "as_declared ChessBoardUser_class"
  by (simp add: as_declared_def ChessBoardUser_class_def ChessBoardUser_agrees(1-7) ChessBoardUser_agrees(8) [unfolded ChessBoardUser_agrees(1)] ChessBoardUser_CopyFrom_def fun_eq_iff)

lemma ReplyStatus_as_declared: "as_declared ReplyStatus_class"
  by (simp add: as_declared_def ReplyStatus_class_def ReplyStatus_agrees(1-7) ReplyStatus_agrees(8) [unfolded ReplyStatus_agrees(1)] ReplyStatus_CopyFrom_def fun_eq_iff)

lemma Register_as_declared: "as_declared Register_class"
  by (simp add: as_declared_def Register_class_def Register_agrees(1-7) Register_agrees(8) [unfolded Register_agrees(1)] Register_CopyFrom_def fun_eq_iff)

lemma ChessBoardInfoReq_as_declared: "as_declared ChessBoardInfoReq_class"
  by (simp add: as_declared_def ChessBoardInfoReq_class_def ChessBoardInfoReq_agrees(1-7) ChessBoardInfoReq_agrees(8) [unfolded ChessBoardInfoReq_agrees(1)] ChessBoardInfoReq_CopyFrom_def fun_eq_iff)

lemma ChessBoardInfo_as_declared: "as_declared ChessBoardInfo_class"
  by (simp add: as_declared_def ChessBoardInfo_class_def ChessBoardInfo_agrees(1-7) ChessBoardInfo_agrees(8) [unfolded ChessBoardInfo_agrees(1)] ChessBoardInfo_CopyFrom_def fun_eq_iff)

lemma HallInfoReq_as_declared: "as_declared HallInfoReq_class"
  by (simp add: as_declared_def HallInfoReq_class_def HallInfoReq_agrees(1-7) HallInfoReq_agrees(8) [unfolded HallInfoReq_agrees(1)] HallInfoReq_CopyFrom_def fun_eq_iff)

lemma HallInfo_as_declared: "as_declared HallInfo_class"
  by (simp add: as_declared_def HallInfo_class_def HallInfo_agrees(1-7) HallInfo_agrees(8) [unfolded HallInfo_agrees(1)] HallInfo_CopyFrom_def fun_eq_iff)

lemma GameHallSumaryReq_as_declared: "as_declared GameHallSumaryReq_class"
  by (simp add: as_declared_def GameHallSumaryReq_class_def GameHallSumaryReq_agrees(1-7) GameHallSumaryReq_agrees(8) [unfolded GameHallSumaryReq_agrees(1)] GameHallSumaryReq_CopyFrom_def fun_eq_iff)

lemma GameHallSumary_as_declared: "as_declared GameHallSumary_class"
  by (simp add: as_declared_def GameHallSumary_class_def GameHallSumary_agrees(1-7) GameHallSumary_agrees(8) [unfolded GameHallSumary_agrees(1)] GameHallSumary_CopyFrom_def fun_eq_iff)

lemma RequestPlay_as_declared: "as_declared RequestPlay_class"
  by (simp add: as_declared_def RequestPlay_class_def RequestPlay_agrees(1-7) RequestPlay_agrees(8) [unfolded RequestPlay_agrees(1)] RequestPlay_CopyFrom_def fun_eq_iff)

lemma RequestPlayReply_as_declared: "as_declared RequestPlayReply_class"
  by (simp add: as_declared_def RequestPlayReply_class_def RequestPlayReply_agrees(1-7) RequestPlayReply_agrees(8) [unfolded RequestPlayReply_agrees(1)] RequestPlayReply_CopyFrom_def fun_eq_iff)

lemma MoveChess_as_declared: "as_declared MoveChess_class"
  by (simp add: as_declared_def MoveChess_class_def MoveChess_agrees(1-7) MoveChess_agrees(8) [unfolded MoveChess_agrees(1)] MoveChess_CopyFrom_def fun_eq_iff)

lemma MoveAction_as_declared: "as_declared MoveAction_class"
  by (simp add: as_declared_def MoveAction_class_def MoveAction_agrees(1-7) MoveAction_agrees(8) [unfolded MoveAction_agrees(1)] MoveAction_CopyFrom_def fun_eq_iff)

lemma UserMessage_as_declared: "as_declared UserMessage_class"
  by (simp add: as_declared_def UserMessage_class_def UserMessage_agrees(1-7) UserMessage_agrees(8) [unfolded UserMessage_agrees(1)] UserMessage_CopyFrom_def fun_eq_iff)

lemma SystemMessage_as_declared: "as_declared SystemMessage_class"
  by (simp add: as_declared_def SystemMessage_class_def SystemMessage_agrees(1-7) SystemMessage_agrees(8) [unfolded SystemMessage_agrees(1)] SystemMessage_CopyFrom_def fun_eq_iff)

lemma Reconciled_as_declared: "as_declared Reconciled_class"
  by (simp add: as_declared_def Reconciled_class_def Reconciled_agrees(1-7) Reconciled_agrees(8) [unfolded Reconciled_agrees(1)] Reconciled_CopyFrom_def fun_eq_iff)

lemma GiveUp_as_declared: "as_declared GiveUp_class"
  by (simp add: as_declared_def GiveUp_class_def GiveUp_agrees(1-7) GiveUp_agrees(8) [unfolded GiveUp_agrees(1)] GiveUp_CopyFrom_def fun_eq_iff)

lemma Undo_as_declared: "as_declared Undo_class"
  by (simp add: as_declared_def Undo_class_def Undo_agrees(1-7) Undo_agrees(8) [unfolded Undo_agrees(1)] Undo_CopyFrom_def fun_eq_iff)

lemma GameReadyReq_as_declared: "as_declared GameReadyReq_class"
  by (simp add: as_declared_def GameReadyReq_class_def GameReadyReq_agrees(1-7) GameReadyReq_agrees(8) [unfolded GameReadyReq_agrees(1)] GameReadyReq_CopyFrom_def fun_eq_iff)

lemma GameStatusReply_as_declared: "as_declared GameStatusReply_class"
  by (simp add: as_declared_def GameStatusReply_class_def GameStatusReply_agrees(1-7) GameStatusReply_agrees(8) [unfolded GameStatusReply_agrees(1)] GameStatusReply_CopyFrom_def fun_eq_iff)

lemma FindPassword_as_declared: "as_declared FindPassword_class"
  by (simp add: as_declared_def FindPassword_class_def FindPassword_agrees(1-7) FindPassword_agrees(8) [unfolded FindPassword_agrees(1)] FindPassword_CopyFrom_def fun_eq_iff)

lemma UpdateUserInfo_as_declared: "as_declared UpdateUserInfo_class"
  by (simp add: as_declared_def UpdateUserInfo_class_def UpdateUserInfo_agrees(1-7) UpdateUserInfo_agrees(8) [unfolded UpdateUserInfo_agrees(1)] UpdateUserInfo_CopyFrom_def fun_eq_iff)

lemma AdPictureItemReply_as_declared: "as_declared AdPictureItemReply_class"
  by (simp add: as_declared_def AdPictureItemReply_class_def AdPictureItemReply_agrees(1-7) AdPictureItemReply_agrees(8) [unfolded AdPictureItemReply_agrees(1)] AdPictureItemReply_CopyFrom_def fun_eq_iff)

lemma AdPictureReq_as_declared: "as_declared AdPictureReq_class"
  by (simp add: as_declared_def AdPictureReq_class_def AdPictureReq_agrees(1-7) AdPictureReq_agrees(8) [unfolded AdPictureReq_agrees(1)] AdPictureReq_CopyFrom_def fun_eq_iff)

lemma AdPictureContentReply_as_declared: "as_declared AdPictureContentReply_class"
  by (simp add: as_declared_def AdPictureContentReply_class_def AdPictureContentReply_agrees(1-7) AdPictureContentReply_agrees(8) [unfolded AdPictureContentReply_agrees(1)] AdPictureContentReply_CopyFrom_def fun_eq_iff)

lemma Echo_declared: "declared Echo_proto"
  by (simp add: Echo_proto_def )

lemma LogOnorOut_declared: "declared LogOnorOut_proto"
  by (simp add: LogOnorOut_proto_def )

lemma ImageVersion_declared: "declared ImageVersion_proto"
  by (simp add: ImageVersion_proto_def )

lemma ChessBoardUser_declared: "declared ChessBoardUser_proto"
  by (simp add: ChessBoardUser_proto_def )

lemma ReplyStatus_declared: "declared ReplyStatus_proto"
  by (simp add: ReplyStatus_proto_def ChessBoardUser_declared ImageVersion_declared)

lemma Register_declared: "declared Register_proto"
  by (simp add: Register_proto_def )

lemma ChessBoardInfoReq_declared: "declared ChessBoardInfoReq_proto"
  by (simp add: ChessBoardInfoReq_proto_def )

lemma ChessBoardInfo_declared: "declared ChessBoardInfo_proto"
  by (simp add: ChessBoardInfo_proto_def ChessBoardUser_declared)

lemma HallInfoReq_declared: "declared HallInfoReq_proto"
  by (simp add: HallInfoReq_proto_def )

lemma HallInfo_declared: "declared HallInfo_proto"
  by (simp add: HallInfo_proto_def ChessBoardInfo_declared)

lemma GameHallSumaryReq_declared: "declared GameHallSumaryReq_proto"
  by (simp add: GameHallSumaryReq_proto_def )

lemma GameHallSumary_declared: "declared GameHallSumary_proto"
  by (simp add: GameHallSumary_proto_def HallInfo_declared)

lemma RequestPlay_declared: "declared RequestPlay_proto"
  by (simp add: RequestPlay_proto_def )

lemma RequestPlayReply_declared: "declared RequestPlayReply_proto"
  by (simp add: RequestPlayReply_proto_def ChessBoardInfo_declared)

lemma MoveChess_declared: "declared MoveChess_proto"
  by (simp add: MoveChess_proto_def )

lemma MoveAction_declared: "declared MoveAction_proto"
  by (simp add: MoveAction_proto_def MoveChess_declared)

lemma UserMessage_declared: "declared UserMessage_proto"
  by (simp add: UserMessage_proto_def )

lemma SystemMessage_declared: "declared SystemMessage_proto"
  by (simp add: SystemMessage_proto_def )

lemma Reconciled_declared: "declared Reconciled_proto"
  by (simp add: Reconciled_proto_def )

lemma GiveUp_declared: "declared GiveUp_proto"
  by (simp add: GiveUp_proto_def )

lemma Undo_declared: "declared Undo_proto"
  by (simp add: Undo_proto_def )

lemma GameReadyReq_declared: "declared GameReadyReq_proto"
  by (simp add: GameReadyReq_proto_def )

lemma GameStatusReply_declared: "declared GameStatusReply_proto"
  by (simp add: GameStatusReply_proto_def )

lemma FindPassword_declared: "declared FindPassword_proto"
  by (simp add: FindPassword_proto_def )

lemma UpdateUserInfo_declared: "declared UpdateUserInfo_proto"
  by (simp add: UpdateUserInfo_proto_def )

lemma AdPictureItemReply_declared: "declared AdPictureItemReply_proto"
  by (simp add: AdPictureItemReply_proto_def )

lemma AdPictureReq_declared: "declared AdPictureReq_proto"
  by (simp add: AdPictureReq_proto_def )

lemma AdPictureContentReply_declared: "declared AdPictureContentReply_proto"
  by (simp add: AdPictureContentReply_proto_def )

lemmas all_swap = Echo_swaps LogOnorOut_swaps ImageVersion_swaps ChessBoardUser_swaps ReplyStatus_swaps Register_swaps ChessBoardInfoReq_swaps ChessBoardInfo_swaps HallInfoReq_swaps HallInfo_swaps GameHallSumaryReq_swaps GameHallSumary_swaps RequestPlay_swaps RequestPlayReply_swaps MoveChess_swaps MoveAction_swaps UserMessage_swaps SystemMessage_swaps Reconciled_swaps GiveUp_swaps Undo_swaps GameReadyReq_swaps GameStatusReply_swaps FindPassword_swaps UpdateUserInfo_swaps AdPictureItemReply_swaps AdPictureReq_swaps AdPictureContentReply_swaps

lemmas all_as_declared = Echo_as_declared LogOnorOut_as_declared ImageVersion_as_declared ChessBoardUser_as_declared ReplyStatus_as_declared Register_as_declared ChessBoardInfoReq_as_declared ChessBoardInfo_as_declared HallInfoReq_as_declared HallInfo_as_declared GameHallSumaryReq_as_declared GameHallSumary_as_declared RequestPlay_as_declared RequestPlayReply_as_declared MoveChess_as_declared MoveAction_as_declared UserMessage_as_declared SystemMessage_as_declared Reconciled_as_declared GiveUp_as_declared Undo_as_declared GameReadyReq_as_declared GameStatusReply_as_declared FindPassword_as_declared UpdateUserInfo_as_declared AdPictureItemReply_as_declared AdPictureReq_as_declared AdPictureContentReply_as_declared

lemmas all_declared = Echo_declared LogOnorOut_declared ImageVersion_declared ChessBoardUser_declared ReplyStatus_declared Register_declared ChessBoardInfoReq_declared ChessBoardInfo_declared HallInfoReq_declared HallInfo_declared GameHallSumaryReq_declared GameHallSumary_declared RequestPlay_declared RequestPlayReply_declared MoveChess_declared MoveAction_declared UserMessage_declared SystemMessage_declared Reconciled_declared GiveUp_declared Undo_declared GameReadyReq_declared GameStatusReply_declared FindPassword_declared UpdateUserInfo_declared AdPictureItemReply_declared AdPictureReq_declared AdPictureContentReply_declared

lemmas class_defs = Echo_class_def LogOnorOut_class_def ImageVersion_class_def ChessBoardUser_class_def ReplyStatus_class_def Register_class_def ChessBoardInfoReq_class_def ChessBoardInfo_class_def HallInfoReq_class_def HallInfo_class_def GameHallSumaryReq_class_def GameHallSumary_class_def RequestPlay_class_def RequestPlayReply_class_def MoveChess_class_def MoveAction_class_def UserMessage_class_def SystemMessage_class_def Reconciled_class_def GiveUp_class_def Undo_class_def GameReadyReq_class_def GameStatusReply_class_def FindPassword_class_def UpdateUserInfo_class_def AdPictureItemReply_class_def AdPictureReq_class_def AdPictureContentReply_class_def

lemma class_as_declared: "C \<in> set message_classes \<Longrightarrow> as_declared C"
  unfolding message_classes_def using all_as_declared by auto

lemma class_declared: "C \<in> set message_classes \<Longrightarrow> declared (c_proto C)"
  unfolding message_classes_def using all_declared by (auto simp: class_defs)

lemma class_swaps: "C \<in> set message_classes \<Longrightarrow> swaps C"
  unfolding message_classes_def using all_swap by auto

lemma class_facts:
  assumes "C \<in> set message_classes"
  shows "c_new C = new_of (c_proto C)" "c_init C = init_of (c_proto C)" "c_clear C (c_new C) = c_new C"
    "c_parse C W = merge_partial W (cases_of W (c_proto C))" "c_size C W = size_of W (c_proto C)"
    "c_ser C W = ser_of W (c_proto C)" "c_arr C W = arr_of W (c_proto C)" "c_merge C W = merge_of W (c_proto C)"
    "c_copy C W source ob = c_merge C W source (c_clear C ob)"
  using class_as_declared [OF assms] unfolding as_declared_def by blast+

section \<open>Sizes and serializers\<close>

lemma class_sizes:
  assumes "wire_ok W" "C \<in> set message_classes"
  shows "c_size C W ob = length (c_ser C W ob)" "c_arr C W ob t = t @ c_ser C W ob"
  using size_is_length(1) [OF assms(1) class_declared [OF assms(2)]] array_is_stream(1) [OF assms(1)]
  by (simp_all add: class_facts [OF assms(2)])

lemma serialize_to_string:
  assumes "wire_ok W" "C \<in> set message_classes"
  shows "SerializeToString W C ob = c_ser C W ob"
proof -
  have "serialize_string W (length (c_ser C W ob)) (c_arr C W ob) = c_ser C W ob"
    using wire_okD(7) [OF assms(1)] class_sizes(2) [OF assms] unfolding whole_ok_def by blast
  then show ?thesis by (simp add: SerializeToString_def class_sizes(1) [OF assms])
qed

section \<open>Reading back\<close>

text \<open>The objects whose fields have the declared types and that only the class's own functions have changed.\<close>

definition proper_obj :: "pb_class \<Rightarrow> pb_obj \<Rightarrow> bool" where
  "proper_obj C ob \<longleftrightarrow> typed (c_proto C) ob \<and> tidy (c_proto C) ob"

lemma parse_string_result:
  assumes "wire_ok W"
  shows "parse_string W m init bs ob = (case m bs ob of None \<Rightarrow> None | Some Failed \<Rightarrow> Some None
    | Some (Merged ob' consumed) \<Rightarrow> Some (if consumed \<and> init ob' then Some ob' else None))"
  using wire_okD(7) [OF assms] unfolding whole_ok_def by blast

lemma parse_one:
  assumes W: "wire_ok W" and C: "C \<in> set message_classes" and m: "proper_obj C m"
    "length (SerializeToString W C m) \<le> size_limit W"
  shows "c_parse C W (length (SerializeToString W C m) + 1) (SerializeToString W C m) (c_new C) = Some (Merged m True)"
proof -
  have m': "typed (c_proto C) m" "tidy (c_proto C) m" using m by (simp_all add: proper_obj_def)
  show ?thesis
    using parse_serialized(1) [OF W class_declared [OF C] m'(1), of _ "c_new C"] m(2) eff_new(1) [OF class_declared [OF C] m']
    by (simp add: serialize_to_string [OF W C] class_facts [OF C])
qed

lemma parse_pair:
  assumes W: "wire_ok W" and C: "C \<in> set message_classes" and a: "proper_obj C a" "length (SerializeToString W C a) \<le> size_limit W"
    and b: "proper_obj C b" "length (SerializeToString W C b) \<le> size_limit W"
    and n: "length (SerializeToString W C a @ SerializeToString W C b) < n"
  shows "c_parse C W n (SerializeToString W C a @ SerializeToString W C b) (c_new C) = Some (Merged (c_merge C W b a) True)"
proof -
  note d = class_declared [OF C]
  have a': "typed (c_proto C) a" "tidy (c_proto C) a" and b': "typed (c_proto C) b" using a b by (simp_all add: proper_obj_def)
  have "eff_of (c_proto C) b (eff_of (c_proto C) a (new_of (c_proto C))) = merge_of W (c_proto C) b a"
    using eff_new(1) [OF d a'] eff_is_merge(1) [OF W d b' a'(1)] by simp
  then show ?thesis using parse_two [OF W d a'(1) _ b', of n "c_new C"] a(2) b(2) n
    by (simp add: serialize_to_string [OF W C] class_facts [OF C])
qed

lemma merge_into_new:
  assumes W: "wire_ok W" and C: "C \<in> set message_classes" and m: "proper_obj C m"
  shows "c_merge C W m (c_new C) = m"
proof -
  note d = class_declared [OF C]
  have m': "typed (c_proto C) m" "tidy (c_proto C) m" using m by (simp_all add: proper_obj_def)
  show ?thesis using eff_new(1) [OF d m'] eff_is_merge(1) [OF W d m'(1) new_typed [OF d]]
    by (simp add: class_facts [OF C])
qed

section \<open>Swapping\<close>

lemma swap_vals:
  "k \<le> length va \<Longrightarrow> length vb = length va \<Longrightarrow> fold swap_val [1..<Suc k] (Obj ha va ua, Obj hb vb ub) =
     (Obj ha (take k vb @ drop k va) ua, Obj hb (take k va @ drop k vb) ub)"
proof (induction k)
  case (Suc k)
  have k: "k < length va" "k < length vb" using Suc.prems by simp_all
  have u: "[1..<Suc (Suc k)] = [1..<Suc k] @ [Suc k]" by simp
  have s: "(take k xs @ drop k ys)[k := xs ! k] = take (Suc k) xs @ drop (Suc k) ys"
    if "k < length xs" "k < length ys" for xs ys :: "pb_val list"
    using that by (simp add: take_Suc_conv_app_nth list_update_append Cons_nth_drop_Suc [symmetric])
  have "fold swap_val [1..<Suc k] (Obj ha va ua, Obj hb vb ub) = (Obj ha (take k vb @ drop k va) ua, Obj hb (take k va @ drop k vb) ub)"
    using Suc by simp
  then show ?case unfolding u fold_append comp_def using k s [of vb va] s [of va vb]
    by (simp add: swap_val_def val_def put_at_def nth_append)
qed simp

lemma swap_exchanges:
  assumes "C \<in> set message_classes" "typed (c_proto C) a" "typed (c_proto C) b"
  shows "c_swap C (a, b) = (b, a)"
proof -
  obtain fs where fs: "c_proto C = Msg fs" by (cases "c_proto C")
  obtain ha va ua hb vb ub where ab: "a = Obj ha va ua" "b = Obj hb vb ub" by (cases a; cases b)
  have l: "length va = length fs" "length vb = length fs" using assms(2,3) fs ab by simp_all
  have "c_swap C = swap_of (c_proto C)" using class_swaps [OF assms(1)] by (simp add: swaps_def)
  then show ?thesis using swap_vals [of "length fs" va vb ha ua hb ub] l fs ab
    by (simp add: swap_of_def swap_bits_def swap_unknown_def put_unknown_def)
qed

end

