(* ===== verification/Pb_Server.thy ===== *)
theory Pb_Server
  imports Pb_Classes Messages
begin

text \<open>
  The generated code in its place in the server: the fields of \<open>pb_lib\<close>, which the server's components
  take as parameters, made from the classes. \<open>X_rec\<close> reads an object with the accessors of
  message.pb.h, \<open>X_obj\<close> is the object the server fills with the setters.
\<close>

section \<open>Accessors\<close>

definition text_of :: "bytes \<Rightarrow> string" where
  "text_of bs = map (\<lambda>b. char_of (unat b)) bs"

definition octets :: "string \<Rightarrow> bytes" where
  "octets s = map of_char s"

lemma text_of_octets [simp]: "text_of (octets s) = s"
proof -
  have "char_of (unat (of_char c :: u8)) = c" for c
  proof -
    have "unat (of_nat (of_char c) :: u8) = of_char c" by (simp add: unat_of_nat)
    then have "unat (of_char c :: u8) = of_char c" by (simp only: of_nat_of_char)
    then show ?thesis by simp
  qed
  then show ?thesis by (induction s) (simp_all add: text_of_def octets_def)
qed

lemma octets_text_of [simp]: "octets (text_of bs) = bs"
proof -
  have "of_char (char_of (unat b) :: char) = b" for b :: u8
  proof -
    have "unat b < 256" using unsigned_less [of b] by simp
    then have "of_char (char_of (unat b) :: char) = unat b" by simp
    then have "of_nat (of_char (char_of (unat b) :: char)) = b" by simp
    then show ?thesis by (simp only: of_nat_of_char)
  qed
  then show ?thesis by (induction bs) (simp_all add: text_of_def octets_def)
qed

text \<open>\<open>x()\<close> is the value whether or not it was set; the server asks \<open>has_x()\<close> where it matters.\<close>

definition num_at :: "nat \<Rightarrow> pb_obj \<Rightarrow> u32" where "num_at i ob = num_of (val i ob)"
definition bool_at :: "nat \<Rightarrow> pb_obj \<Rightarrow> bool" where "bool_at i ob = bool_of (val i ob)"
definition text_at :: "nat \<Rightarrow> pb_obj \<Rightarrow> string" where "text_at i ob = text_of (str_of (val i ob))"

definition if_set :: "(nat \<Rightarrow> pb_obj \<Rightarrow> 'a) \<Rightarrow> nat \<Rightarrow> pb_obj \<Rightarrow> 'a option" where
  "if_set get i ob = (if has i ob then Some (get i ob) else None)"

abbreviation V_text :: "string \<Rightarrow> pb_val" where
  "V_text s \<equiv> V_str (octets s)"

text \<open>\<open>set_x\<close>, and \<open>mutable_x\<close> for a sub-message that is filled in place, mark the field; \<open>add_x\<close> does not.
  \<open>filled\<close> gives each field of the list its value, in the order of the numbers.\<close>

fun marks :: "pb_val option \<Rightarrow> bool" where
  "marks None = False"
| "marks (Some (V_rep subs)) = False"
| "marks (Some v) = True"

definition assign :: "nat \<Rightarrow> pb_val \<Rightarrow> pb_obj \<Rightarrow> pb_obj" where
  "assign i v ob = (if marks (Some v) then set_has i (put_at i v ob) else put_at i v ob)"

fun filled_from :: "nat \<Rightarrow> pb_val option list \<Rightarrow> pb_obj \<Rightarrow> pb_obj" where
  "filled_from i [] ob = ob"
| "filled_from i (None # vs) ob = filled_from (Suc i) vs ob"
| "filled_from i (Some v # vs) ob = filled_from (Suc i) vs (assign i v ob)"

abbreviation filled :: "pb_val option list \<Rightarrow> pb_obj \<Rightarrow> pb_obj" where
  "filled \<equiv> filled_from 1"

section \<open>What the server reads\<close>

definition Echo_rec :: "pb_obj \<Rightarrow> Echo" where
  "Echo_rec ob = \<lparr>echo_time_stamp = if_set text_at 1 ob\<rparr>"

definition LogOnorOut_rec :: "pb_obj \<Rightarrow> LogOnorOut" where
  "LogOnorOut_rec ob = \<lparr>lo_account = text_at 1 ob,
     lo_password = text_at 2 ob\<rparr>"

definition Register_rec :: "pb_obj \<Rightarrow> Register" where
  "Register_rec ob = \<lparr>rg_email_account = text_at 1 ob,
     rg_password = text_at 2 ob,
     rg_username = if_set text_at 3 ob\<rparr>"

definition ChessBoardInfoReq_rec :: "pb_obj \<Rightarrow> ChessBoardInfoReq" where
  "ChessBoardInfoReq_rec ob = \<lparr>cr_chess_board_id = num_at 1 ob\<rparr>"

definition HallInfoReq_rec :: "pb_obj \<Rightarrow> HallInfoReq" where
  "HallInfoReq_rec ob = \<lparr>hr_game_hall_id = num_at 1 ob\<rparr>"

definition RequestPlay_rec :: "pb_obj \<Rightarrow> RequestPlay" where
  "RequestPlay_rec ob = \<lparr>rp_game_hall_id = num_at 1 ob,
     rp_chess_board_id = num_at 2 ob,
     rp_locate = num_at 3 ob\<rparr>"

definition MoveChess_rec :: "pb_obj \<Rightarrow> MoveChess" where
  "MoveChess_rec ob = \<lparr>mc_src_chess_type = num_at 1 ob,
     mc_src_user_locate = num_at 2 ob,
     mc_from_pointX = num_at 3 ob,
     mc_from_pointY = num_at 4 ob,
     mc_des_pointX = num_at 5 ob,
     mc_des_pointY = num_at 6 ob,
     mc_is_winner = bool_at 7 ob,
     mc_eat_target_chess_type = if_set num_at 8 ob,
     mc_target_user_locate = if_set num_at 9 ob\<rparr>"

definition UserMessage_rec :: "pb_obj \<Rightarrow> UserMessage" where
  "UserMessage_rec ob = \<lparr>um_src_user_locate = num_at 1 ob,
     um_msgContent = text_at 2 ob\<rparr>"

definition Reconciled_rec :: "pb_obj \<Rightarrow> Reconciled" where
  "Reconciled_rec ob = \<lparr>rc_apply_or_reply = num_at 1 ob,
     rc_src_user_locate = num_at 2 ob,
     rc_tar_user_locate = num_at 3 ob,
     rc_status = if_set text_at 4 ob\<rparr>"

definition GiveUp_rec :: "pb_obj \<Rightarrow> GiveUp" where
  "GiveUp_rec ob = \<lparr>gu_src_user_locate = num_at 1 ob,
     gu_opt = if_set text_at 2 ob\<rparr>"

definition Undo_rec :: "pb_obj \<Rightarrow> Undo" where
  "Undo_rec ob = \<lparr>ud_rep_or_respon = num_at 1 ob,
     ud_src_user_locate = num_at 2 ob,
     ud_tar_user_locate = num_at 3 ob,
     ud_status = if_set bool_at 4 ob\<rparr>"

definition GameReadyReq_rec :: "pb_obj \<Rightarrow> GameReadyReq" where
  "GameReadyReq_rec ob = \<lparr>gr_src_user_locate = num_at 1 ob,
     gr_total_time = if_set num_at 3 ob,
     gr_single_step_time = if_set num_at 4 ob\<rparr>"

definition FindPassword_rec :: "pb_obj \<Rightarrow> FindPassword" where
  "FindPassword_rec ob = \<lparr>fp_email = text_at 1 ob\<rparr>"

definition UpdateUserInfo_rec :: "pb_obj \<Rightarrow> UpdateUserInfo" where
  "UpdateUserInfo_rec ob = \<lparr>ui_user_name = text_at 1 ob,
     ui_password = text_at 3 ob,
     ui_ex_email = if_set text_at 4 ob,
     ui_phone = if_set text_at 5 ob,
     ui_head_image = if_set text_at 6 ob\<rparr>"

definition AdPictureReq_rec :: "pb_obj \<Rightarrow> AdPictureReq" where
  "AdPictureReq_rec ob = \<lparr>aq_image_id = num_at 1 ob,
     aq_req_type = num_at 2 ob,
     aq_last_one = if_set bool_at 3 ob\<rparr>"

section \<open>What the server writes\<close>

definition Echo_obj :: "Echo \<Rightarrow> pb_obj" where
  "Echo_obj r = filled
    [map_option V_text (echo_time_stamp r)] Echo_new"

definition ImageVersion_obj :: "ImageVersion \<Rightarrow> pb_obj" where
  "ImageVersion_obj r = filled
    [Some (V_text (iv_server_version r)),
     Some (V_bool (iv_mandatory_update r))] ImageVersion_new"

definition ChessBoardUser_obj :: "ChessBoardUser \<Rightarrow> pb_obj" where
  "ChessBoardUser_obj r = filled
    [Some (V_bool (cu_chess_board_empty r)),
     map_option V_text (cu_user_name r),
     map_option V_text (cu_account r),
     map_option V_num (cu_score r),
     map_option V_text (cu_ex_email r),
     map_option V_text (cu_phone r),
     map_option V_text (cu_head_image r),
     map_option V_num (cu_status r)] ChessBoardUser_new"

definition ReplyStatus_obj :: "ReplyStatus \<Rightarrow> pb_obj" where
  "ReplyStatus_obj r = filled
    [Some (V_num (rs_status r)),
     map_option (\<lambda>x. V_ptr (Some (ChessBoardUser_obj x))) (rs_user r),
     map_option (\<lambda>x. V_ptr (Some (ImageVersion_obj x))) (rs_version_info r)] ReplyStatus_new"

definition ChessBoardInfo_obj :: "ChessBoardInfo \<Rightarrow> pb_obj" where
  "ChessBoardInfo_obj r = filled
    [Some (V_num (ci_id r)),
     Some (V_num (ci_people_num r)),
     Some (V_ptr (Some (ChessBoardUser_obj (ci_left_user r)))),
     Some (V_ptr (Some (ChessBoardUser_obj (ci_right_user r)))),
     Some (V_ptr (Some (ChessBoardUser_obj (ci_bottom_user r))))] ChessBoardInfo_new"

definition HallInfo_obj :: "HallInfo \<Rightarrow> pb_obj" where
  "HallInfo_obj r = filled
    [Some (V_num (hi_game_hall_id r)),
     Some (V_num (hi_total_people r)),
     Some (V_num (hi_curr_people r)),
     Some (V_num (hi_total_chessboard r)),
     Some (V_rep (map ChessBoardInfo_obj (hi_chess_board r)))] HallInfo_new"

definition GameHallSumary_obj :: "GameHallSumary \<Rightarrow> pb_obj" where
  "GameHallSumary_obj r = filled
    [Some (V_text (gs_account r)),
     Some (V_text (gs_username r)),
     Some (V_num (gs_score r)),
     Some (V_num (gs_hall_num r)),
     Some (V_text (gs_head_picture r)),
     Some (V_text (gs_ad_picture1 r)),
     None,
     Some (V_rep (map HallInfo_obj (gs_hall_info r)))] GameHallSumary_new"

definition RequestPlayReply_obj :: "RequestPlayReply \<Rightarrow> pb_obj" where
  "RequestPlayReply_obj r = filled
    [Some (V_num (rr_status r)),
     Some (V_num (rr_first_come_user_locate r)),
     map_option (\<lambda>x. V_ptr (Some (ChessBoardInfo_obj x))) (rr_chessboard r)] RequestPlayReply_new"

definition MoveChess_obj :: "MoveChess \<Rightarrow> pb_obj" where
  "MoveChess_obj r = filled
    [Some (V_num (mc_src_chess_type r)),
     Some (V_num (mc_src_user_locate r)),
     Some (V_num (mc_from_pointX r)),
     Some (V_num (mc_from_pointY r)),
     Some (V_num (mc_des_pointX r)),
     Some (V_num (mc_des_pointY r)),
     Some (V_bool (mc_is_winner r)),
     map_option V_num (mc_eat_target_chess_type r),
     map_option V_num (mc_target_user_locate r)] MoveChess_new"

definition MoveAction_obj :: "MoveAction \<Rightarrow> pb_obj" where
  "MoveAction_obj r = filled
    [Some (V_num (ma_src_user_locate r)),
     Some (V_ptr (Some (MoveChess_obj (ma_movechess r)))),
     map_option V_num (ma_token_locate r)] MoveAction_new"

definition GiveUp_obj :: "GiveUp \<Rightarrow> pb_obj" where
  "GiveUp_obj r = filled
    [Some (V_num (gu_src_user_locate r)),
     map_option V_text (gu_opt r)] GiveUp_new"

definition GameStatusReply_obj :: "GameStatusReply \<Rightarrow> pb_obj" where
  "GameStatusReply_obj r = filled
    [Some (V_bool (gt_left_user_status r)),
     Some (V_bool (gt_right_user_status r)),
     Some (V_bool (gt_bottom_user_status r)),
     Some (V_num (gt_token_locate r)),
     Some (V_num (gt_total_time r)),
     Some (V_num (gt_single_step_time r))] GameStatusReply_new"

definition AdPictureItemReply_obj :: "AdPictureItemReply \<Rightarrow> pb_obj" where
  "AdPictureItemReply_obj r = filled
    [Some (V_num (ap_image_id r)),
     Some (V_bool (ap_existed r)),
     map_option V_text (ap_image_type r),
     map_option V_text (ap_image_name r),
     map_option V_text (ap_image_hashcode r),
     map_option V_text (ap_url r),
     map_option V_num (ap_image_size r)] AdPictureItemReply_new"

definition AdPictureContentReply_obj :: "AdPictureContentReply \<Rightarrow> pb_obj" where
  "AdPictureContentReply_obj r = filled
    [Some (V_bool (ac_ended r)),
     map_option V_str (ac_content r)] AdPictureContentReply_new"

section \<open>The server's parameter\<close>

text \<open>\<open>ParseFromString\<close> on a new object, then the accessors.\<close>

definition received :: "wire_lib \<Rightarrow> pb_class \<Rightarrow> (pb_obj \<Rightarrow> 'm) \<Rightarrow> bytes \<Rightarrow> 'm option" where
  "received W C rec bs = (case ParseFromString W C bs (c_new C) of Some (Some ob) \<Rightarrow> Some (rec ob) | _ \<Rightarrow> None)"

definition with_protobuf :: "wire_lib \<Rightarrow> 'a pb_lib_scheme \<Rightarrow> 'a pb_lib_scheme" where
  "with_protobuf W E = E\<lparr>
     parse_Echo := received W Echo_class Echo_rec,
     parse_LogOnorOut := received W LogOnorOut_class LogOnorOut_rec,
     parse_Register := received W Register_class Register_rec,
     parse_ChessBoardInfoReq := received W ChessBoardInfoReq_class ChessBoardInfoReq_rec,
     parse_HallInfoReq := received W HallInfoReq_class HallInfoReq_rec,
     parse_RequestPlay := received W RequestPlay_class RequestPlay_rec,
     parse_MoveChess := received W MoveChess_class MoveChess_rec,
     parse_UserMessage := received W UserMessage_class UserMessage_rec,
     parse_Reconciled := received W Reconciled_class Reconciled_rec,
     parse_GiveUp := received W GiveUp_class GiveUp_rec,
     parse_Undo := received W Undo_class Undo_rec,
     parse_GameReadyReq := received W GameReadyReq_class GameReadyReq_rec,
     parse_FindPassword := received W FindPassword_class FindPassword_rec,
     parse_UpdateUserInfo := received W UpdateUserInfo_class UpdateUserInfo_rec,
     parse_AdPictureReq := received W AdPictureReq_class AdPictureReq_rec,
     ser_Echo := (\<lambda>r. SerializeToString W Echo_class (Echo_obj r)),
     ser_ReplyStatus := (\<lambda>r. SerializeToString W ReplyStatus_class (ReplyStatus_obj r)),
     ser_ChessBoardInfo := (\<lambda>r. SerializeToString W ChessBoardInfo_class (ChessBoardInfo_obj r)),
     ser_HallInfo := (\<lambda>r. SerializeToString W HallInfo_class (HallInfo_obj r)),
     ser_GameHallSumary := (\<lambda>r. SerializeToString W GameHallSumary_class (GameHallSumary_obj r)),
     ser_RequestPlayReply := (\<lambda>r. SerializeToString W RequestPlayReply_class (RequestPlayReply_obj r)),
     ser_MoveAction := (\<lambda>r. SerializeToString W MoveAction_class (MoveAction_obj r)),
     ser_GiveUp := (\<lambda>r. SerializeToString W GiveUp_class (GiveUp_obj r)),
     ser_GameStatusReply := (\<lambda>r. SerializeToString W GameStatusReply_class (GameStatusReply_obj r)),
     ser_AdPictureItemReply := (\<lambda>r. SerializeToString W AdPictureItemReply_class (AdPictureItemReply_obj r)),
     ser_AdPictureContentReply := (\<lambda>r. SerializeToString W AdPictureContentReply_class (AdPictureContentReply_obj r))\<rparr>"

section \<open>Objects that are filled in\<close>

lemma typed_from_nth: "typed_from i fs ob \<longleftrightarrow> (\<forall>k < length fs. typed_val (fst (fs ! k)) (snd (fs ! k)) (val (i + k) ob))"
proof (induction fs arbitrary: i)
  case (Cons x fs)
  obtain lb ty where x: "x = (lb, ty)" by (cases x)
  show ?case unfolding x typed_from.simps Cons.IH by (auto simp: less_Suc_eq_0_disj)
qed simp

lemma tidy_from_nth:
  "tidy_from i fs ob \<longleftrightarrow> (\<forall>k < length fs. tidy_val (fst (fs ! k)) (snd (fs ! k)) (has (i + k) ob) (val (i + k) ob))"
proof (induction fs arbitrary: i)
  case (Cons x fs)
  obtain lb ty where x: "x = (lb, ty)" by (cases x)
  show ?case unfolding x tidy_from.simps Cons.IH by (auto simp: less_Suc_eq_0_disj)
qed simp

lemma inits_from_nth: "inits_from i fs ob \<longleftrightarrow> (\<forall>k < length fs. (fst (fs ! k) = Required \<longrightarrow> has (i + k) ob) \<and>
    sub_init_of (i + k) (fst (fs ! k)) (snd (fs ! k)) ob)"
proof (induction fs arbitrary: i)
  case (Cons x fs)
  obtain lb ty where x: "x = (lb, ty)" by (cases x)
  show ?case unfolding x inits_from.simps Cons.IH by (auto simp: less_Suc_eq_0_disj)
qed simp

lemma assign_simps [simp]: "vals (assign i v ob) = vals (put_at i v ob)" "val j (assign i v ob) = val j (put_at i v ob)"
    "unknown_fields (assign i v ob) = unknown_fields ob"
  by (simp_all add: assign_def)

lemma assign_bits: "k < 32 \<Longrightarrow> bit (has_bits (assign i v ob)) k = (bit (has_bits ob) k \<or> (k = i - 1 \<and> marks (Some v)))"
  by (auto simp: assign_def set_has_def bit_set_bit_iff)

lemma filled_frame [simp]: "length (vals (filled_from i vs ob)) = length (vals ob)"
    "unknown_fields (filled_from i vs ob) = unknown_fields ob"
  by (induction i vs ob rule: filled_from.induct) simp_all

lemma filled_val:
  assumes "1 \<le> j"
  shows "1 \<le> i \<Longrightarrow> i - 1 + length vs \<le> length (vals ob) \<Longrightarrow> val j (filled_from i vs ob) =
     (if i \<le> j \<and> j < i + length vs then (case vs ! (j - i) of Some v \<Rightarrow> v | None \<Rightarrow> val j ob) else val j ob)"
proof (induction i vs ob rule: filled_from.induct)
  case (2 i vs ob)
  then show ?case by (auto simp: nth_Cons' Suc_diff_le split: option.splits)
next
  case (3 i v vs ob)
  have "val j (put_at i v ob) = (if j = i then v else val j ob)" using 3(2,3) assms by (cases i; cases "j = i") auto
  then show ?case using 3 by (auto simp: nth_Cons' Suc_diff_le split: option.splits)
qed auto

lemma filled_bits:
  "1 \<le> i \<Longrightarrow> k < 32 \<Longrightarrow> bit (has_bits (filled_from i vs ob)) k =
     (bit (has_bits ob) k \<or> (i - 1 \<le> k \<and> k < i - 1 + length vs \<and> marks (vs ! (k - (i - 1)))))"
proof (induction i vs ob rule: filled_from.induct)
  case (2 i vs ob)
  then show ?case by (cases "k = i - 1") (auto simp: nth_Cons')
next
  case (3 i v vs ob)
  then show ?case by (cases "k = i - 1") (auto simp: assign_bits nth_Cons')
qed auto

fun init_val :: "label \<Rightarrow> ftype \<Rightarrow> pb_val \<Rightarrow> bool" where
  "init_val lb (T_msg d) v = (if lb = Repeated then list_all (init_of d) (objs_of v) else init_of d (obj_of (new_of d) v))"
| "init_val lb ty v = True"

fun entry_ok :: "label \<times> ftype \<Rightarrow> pb_val option \<Rightarrow> bool" where
  "entry_ok (lb, ty) None = (lb \<noteq> Required)"
| "entry_ok (lb, ty) (Some v) = (typed_val lb ty v \<and> tidy_val lb ty True v \<and> (marks (Some v) \<longleftrightarrow> lb \<noteq> Repeated) \<and> init_val lb ty v)"

definition made :: "pb_class \<Rightarrow> pb_obj \<Rightarrow> bool" where
  "made C ob \<longleftrightarrow> proper_obj C ob \<and> c_init C ob"

lemma declared_nth: "declared_fields fs \<Longrightarrow> k < length fs \<Longrightarrow>
    (fst (fs ! k) = Repeated \<longrightarrow> is_msg (snd (fs ! k))) \<and> declared_type (snd (fs ! k))"
proof (induction fs arbitrary: k)
  case (Cons x fs)
  obtain lb ty where "x = (lb, ty)" by (cases x)
  then show ?case using Cons by (cases k) auto
qed simp

lemma tidy_default: "(lb = Repeated \<longrightarrow> is_msg ty) \<Longrightarrow> tidy_val lb ty False (if lb = Repeated then V_rep [] else default_of ty)"
  by (cases ty) auto

lemma tidy_repeated: "is_msg ty \<Longrightarrow> tidy_val Repeated ty h v = tidy_val Repeated ty h' v"
  by (cases ty) auto

lemma filled_ok:
  assumes d: "declared (Msg fs)" and e: "list_all2 entry_ok fs vs"
  shows "typed (Msg fs) (filled vs (new_of (Msg fs)))" "tidy (Msg fs) (filled vs (new_of (Msg fs)))"
    "init_of (Msg fs) (filled vs (new_of (Msg fs)))"
proof -
  let ?new = "new_of (Msg fs)" and ?ob = "filled vs (new_of (Msg fs))"
  have l: "length vs = length fs" "length (vals ?new) = length fs" "length fs \<le> 15" "unknown_fields ?new = []" "has_bits ?new = 0"
    using e d by (simp_all add: list_all2_lengthD [symmetric] new_of_def)
  have df: "declared_fields fs" using d by simp
  have new: "val (Suc k) ?new = (if fst (fs ! k) = Repeated then V_rep [] else default_of (snd (fs ! k)))" if "k < length fs" for k
    using that by (simp add: new_of_def val_def case_prod_beta)
  have v: "val (Suc k) ?ob = (case vs ! k of Some v \<Rightarrow> v | None \<Rightarrow> val (Suc k) ?new)" if "k < length fs" for k
    using filled_val [of "Suc k" 1 vs ?new] l that by simp
  have h: "has (Suc k) ?ob = marks (vs ! k)" if "k < length fs" for k
    using filled_bits [of 1 k vs ?new] l that by (simp add: has_def)
  have ok: "entry_ok (fst (fs ! k), snd (fs ! k)) (vs ! k)" if "k < length fs" for k
    using list_all2_nthD [OF e that] by simp
  have rep: "fst (fs ! k) = Repeated \<longrightarrow> is_msg (snd (fs ! k))" "declared_type (snd (fs ! k))" if "k < length fs" for k
    using df that declared_nth by blast+
  show "typed (Msg fs) ?ob"
  proof -
    have "typed_val (fst (fs ! k)) (snd (fs ! k)) (val (Suc k) ?ob)" if k: "k < length fs" for k
      using ok [OF k] v [OF k] new [OF k] rep [OF k] typed_default [of "snd (fs ! k)" "fst (fs ! k)"]
      by (cases "fs ! k"; cases "vs ! k") simp_all
    then show ?thesis using l by (simp add: typed_from_nth)
  qed
  show "tidy (Msg fs) ?ob"
  proof -
    have "tidy_val (fst (fs ! k)) (snd (fs ! k)) (has (Suc k) ?ob) (val (Suc k) ?ob)" if k: "k < length fs" for k
      using ok [OF k] v [OF k] h [OF k] new [OF k] rep [OF k] tidy_default [of "fst (fs ! k)" "snd (fs ! k)"]
        tidy_repeated [of "snd (fs ! k)" True _ False]
      by (cases "fs ! k"; cases "vs ! k"; cases "fst (fs ! k) = Repeated") auto
    moreover have "k < length fs \<and> fst (fs ! k) \<noteq> Repeated" if "k < 32" "bit (has_bits ?ob) k" for k
    proof -
      have k: "k < length fs" "marks (vs ! k)" using filled_bits [of 1 k vs ?new] that l by simp_all
      then show ?thesis using ok [OF k(1)] by (cases "fs ! k"; cases "vs ! k") auto
    qed
    ultimately show ?thesis by (simp add: tidy_from_nth)
  qed
  show "init_of (Msg fs) ?ob"
  proof -
    have "(fst (fs ! k) = Required \<longrightarrow> has (Suc k) ?ob) \<and> sub_init_of (Suc k) (fst (fs ! k)) (snd (fs ! k)) ?ob"
      if k: "k < length fs" for k
    proof
      show "fst (fs ! k) = Required \<longrightarrow> has (Suc k) ?ob" using ok [OF k] h [OF k] by (cases "fs ! k"; cases "vs ! k") auto
      show "sub_init_of (Suc k) (fst (fs ! k)) (snd (fs ! k)) ?ob"
        using ok [OF k] h [OF k] v [OF k] new [OF k]
        by (cases "fs ! k"; cases "snd (fs ! k)"; cases "vs ! k") (auto simp: messages_init_def message_init_def)
    qed
    then show ?thesis by (simp add: inits_from_nth)
  qed
qed

lemma madeI:
  assumes "C \<in> set message_classes" "c_proto C = Msg fs" "ob = filled vs (c_new C)" "list_all2 entry_ok fs vs"
  shows "made C ob"
  using filled_ok [OF _ assms(4)] class_declared [OF assms(1)] assms(2,3)
  by (simp add: made_def proper_obj_def class_facts(1,2) [OF assms(1)])

lemma made_sub:
  assumes "made C ob" "C \<in> set message_classes"
  shows "typed (c_proto C) ob" "tidy (c_proto C) ob" "init_of (c_proto C) ob"
  using assms by (simp_all add: made_def proper_obj_def class_facts(2))

lemma entry_map: "entry_ok f (map_option mk x) = (case x of None \<Rightarrow> entry_ok f None | Some y \<Rightarrow> entry_ok f (Some (mk y)))"
  by (cases x) simp_all

lemma AdPictureContentReply_listed: "AdPictureContentReply_class \<in> set message_classes"
  by (simp add: message_classes_def)

lemma AdPictureItemReply_listed: "AdPictureItemReply_class \<in> set message_classes"
  by (simp add: message_classes_def)

lemma AdPictureReq_listed: "AdPictureReq_class \<in> set message_classes"
  by (simp add: message_classes_def)

lemma ChessBoardInfo_listed: "ChessBoardInfo_class \<in> set message_classes"
  by (simp add: message_classes_def)

lemma ChessBoardInfoReq_listed: "ChessBoardInfoReq_class \<in> set message_classes"
  by (simp add: message_classes_def)

lemma ChessBoardUser_listed: "ChessBoardUser_class \<in> set message_classes"
  by (simp add: message_classes_def)

lemma Echo_listed: "Echo_class \<in> set message_classes"
  by (simp add: message_classes_def)

lemma FindPassword_listed: "FindPassword_class \<in> set message_classes"
  by (simp add: message_classes_def)

lemma GameHallSumary_listed: "GameHallSumary_class \<in> set message_classes"
  by (simp add: message_classes_def)

lemma GameReadyReq_listed: "GameReadyReq_class \<in> set message_classes"
  by (simp add: message_classes_def)

lemma GameStatusReply_listed: "GameStatusReply_class \<in> set message_classes"
  by (simp add: message_classes_def)

lemma GiveUp_listed: "GiveUp_class \<in> set message_classes"
  by (simp add: message_classes_def)

lemma HallInfo_listed: "HallInfo_class \<in> set message_classes"
  by (simp add: message_classes_def)

lemma HallInfoReq_listed: "HallInfoReq_class \<in> set message_classes"
  by (simp add: message_classes_def)

lemma ImageVersion_listed: "ImageVersion_class \<in> set message_classes"
  by (simp add: message_classes_def)

lemma LogOnorOut_listed: "LogOnorOut_class \<in> set message_classes"
  by (simp add: message_classes_def)

lemma MoveAction_listed: "MoveAction_class \<in> set message_classes"
  by (simp add: message_classes_def)

lemma MoveChess_listed: "MoveChess_class \<in> set message_classes"
  by (simp add: message_classes_def)

lemma Reconciled_listed: "Reconciled_class \<in> set message_classes"
  by (simp add: message_classes_def)

lemma Register_listed: "Register_class \<in> set message_classes"
  by (simp add: message_classes_def)

lemma ReplyStatus_listed: "ReplyStatus_class \<in> set message_classes"
  by (simp add: message_classes_def)

lemma RequestPlay_listed: "RequestPlay_class \<in> set message_classes"
  by (simp add: message_classes_def)

lemma RequestPlayReply_listed: "RequestPlayReply_class \<in> set message_classes"
  by (simp add: message_classes_def)

lemma Undo_listed: "Undo_class \<in> set message_classes"
  by (simp add: message_classes_def)

lemma UpdateUserInfo_listed: "UpdateUserInfo_class \<in> set message_classes"
  by (simp add: message_classes_def)

lemma UserMessage_listed: "UserMessage_class \<in> set message_classes"
  by (simp add: message_classes_def)

lemmas listed = AdPictureContentReply_listed AdPictureItemReply_listed AdPictureReq_listed ChessBoardInfo_listed ChessBoardInfoReq_listed ChessBoardUser_listed Echo_listed FindPassword_listed GameHallSumary_listed GameReadyReq_listed GameStatusReply_listed GiveUp_listed HallInfo_listed HallInfoReq_listed ImageVersion_listed LogOnorOut_listed MoveAction_listed MoveChess_listed Reconciled_listed Register_listed ReplyStatus_listed RequestPlay_listed RequestPlayReply_listed Undo_listed UpdateUserInfo_listed UserMessage_listed

lemma Echo_obj_made: "made Echo_class (Echo_obj r)"
  unfolding Echo_obj_def
  by (rule madeI [OF Echo_listed], simp only: pb_class.simps Echo_class_def Echo_proto_def, simp only: pb_class.simps Echo_class_def, auto simp: entry_map list.pred_map comp_def list.pred_True  split: option.split)

lemma ImageVersion_obj_made: "made ImageVersion_class (ImageVersion_obj r)"
  unfolding ImageVersion_obj_def
  by (rule madeI [OF ImageVersion_listed], simp only: pb_class.simps ImageVersion_class_def ImageVersion_proto_def, simp only: pb_class.simps ImageVersion_class_def, auto simp: entry_map list.pred_map comp_def list.pred_True  split: option.split)

lemmas ImageVersion_sub = made_sub [OF ImageVersion_obj_made ImageVersion_listed, unfolded ImageVersion_class_def pb_class.simps]

lemma ChessBoardUser_obj_made: "made ChessBoardUser_class (ChessBoardUser_obj r)"
  unfolding ChessBoardUser_obj_def
  by (rule madeI [OF ChessBoardUser_listed], simp only: pb_class.simps ChessBoardUser_class_def ChessBoardUser_proto_def, simp only: pb_class.simps ChessBoardUser_class_def, auto simp: entry_map list.pred_map comp_def list.pred_True  split: option.split)

lemmas ChessBoardUser_sub = made_sub [OF ChessBoardUser_obj_made ChessBoardUser_listed, unfolded ChessBoardUser_class_def pb_class.simps]

lemma ReplyStatus_obj_made: "made ReplyStatus_class (ReplyStatus_obj r)"
  unfolding ReplyStatus_obj_def
  by (rule madeI [OF ReplyStatus_listed], simp only: pb_class.simps ReplyStatus_class_def ReplyStatus_proto_def, simp only: pb_class.simps ReplyStatus_class_def, auto simp: entry_map list.pred_map comp_def list.pred_True ChessBoardUser_sub ImageVersion_sub split: option.split)

lemma ChessBoardInfo_obj_made: "made ChessBoardInfo_class (ChessBoardInfo_obj r)"
  unfolding ChessBoardInfo_obj_def
  by (rule madeI [OF ChessBoardInfo_listed], simp only: pb_class.simps ChessBoardInfo_class_def ChessBoardInfo_proto_def, simp only: pb_class.simps ChessBoardInfo_class_def, auto simp: entry_map list.pred_map comp_def list.pred_True ChessBoardUser_sub split: option.split)

lemmas ChessBoardInfo_sub = made_sub [OF ChessBoardInfo_obj_made ChessBoardInfo_listed, unfolded ChessBoardInfo_class_def pb_class.simps]

lemma HallInfo_obj_made: "made HallInfo_class (HallInfo_obj r)"
  unfolding HallInfo_obj_def
  by (rule madeI [OF HallInfo_listed], simp only: pb_class.simps HallInfo_class_def HallInfo_proto_def, simp only: pb_class.simps HallInfo_class_def, auto simp: entry_map list.pred_map comp_def list.pred_True ChessBoardInfo_sub split: option.split)

lemmas HallInfo_sub = made_sub [OF HallInfo_obj_made HallInfo_listed, unfolded HallInfo_class_def pb_class.simps]

lemma GameHallSumary_obj_made: "made GameHallSumary_class (GameHallSumary_obj r)"
  unfolding GameHallSumary_obj_def
  by (rule madeI [OF GameHallSumary_listed], simp only: pb_class.simps GameHallSumary_class_def GameHallSumary_proto_def, simp only: pb_class.simps GameHallSumary_class_def, auto simp: entry_map list.pred_map comp_def list.pred_True HallInfo_sub split: option.split)

lemma RequestPlayReply_obj_made: "made RequestPlayReply_class (RequestPlayReply_obj r)"
  unfolding RequestPlayReply_obj_def
  by (rule madeI [OF RequestPlayReply_listed], simp only: pb_class.simps RequestPlayReply_class_def RequestPlayReply_proto_def, simp only: pb_class.simps RequestPlayReply_class_def, auto simp: entry_map list.pred_map comp_def list.pred_True ChessBoardInfo_sub split: option.split)

lemma MoveChess_obj_made: "made MoveChess_class (MoveChess_obj r)"
  unfolding MoveChess_obj_def
  by (rule madeI [OF MoveChess_listed], simp only: pb_class.simps MoveChess_class_def MoveChess_proto_def, simp only: pb_class.simps MoveChess_class_def, auto simp: entry_map list.pred_map comp_def list.pred_True  split: option.split)

lemmas MoveChess_sub = made_sub [OF MoveChess_obj_made MoveChess_listed, unfolded MoveChess_class_def pb_class.simps]

lemma MoveAction_obj_made: "ma_token_locate r \<noteq> None \<Longrightarrow> made MoveAction_class (MoveAction_obj r)"
  unfolding MoveAction_obj_def
  by (rule madeI [OF MoveAction_listed], simp only: pb_class.simps MoveAction_class_def MoveAction_proto_def, simp only: pb_class.simps MoveAction_class_def, auto simp: entry_map list.pred_map comp_def list.pred_True MoveChess_sub split: option.split)

lemma GiveUp_obj_made: "made GiveUp_class (GiveUp_obj r)"
  unfolding GiveUp_obj_def
  by (rule madeI [OF GiveUp_listed], simp only: pb_class.simps GiveUp_class_def GiveUp_proto_def, simp only: pb_class.simps GiveUp_class_def, auto simp: entry_map list.pred_map comp_def list.pred_True  split: option.split)

lemma GameStatusReply_obj_made: "made GameStatusReply_class (GameStatusReply_obj r)"
  unfolding GameStatusReply_obj_def
  by (rule madeI [OF GameStatusReply_listed], simp only: pb_class.simps GameStatusReply_class_def GameStatusReply_proto_def, simp only: pb_class.simps GameStatusReply_class_def, auto simp: entry_map list.pred_map comp_def list.pred_True  split: option.split)

lemma AdPictureItemReply_obj_made: "made AdPictureItemReply_class (AdPictureItemReply_obj r)"
  unfolding AdPictureItemReply_obj_def
  by (rule madeI [OF AdPictureItemReply_listed], simp only: pb_class.simps AdPictureItemReply_class_def AdPictureItemReply_proto_def, simp only: pb_class.simps AdPictureItemReply_class_def, auto simp: entry_map list.pred_map comp_def list.pred_True  split: option.split)

lemma AdPictureContentReply_obj_made: "made AdPictureContentReply_class (AdPictureContentReply_obj r)"
  unfolding AdPictureContentReply_obj_def
  by (rule madeI [OF AdPictureContentReply_listed], simp only: pb_class.simps AdPictureContentReply_class_def AdPictureContentReply_proto_def, simp only: pb_class.simps AdPictureContentReply_class_def, auto simp: entry_map list.pred_map comp_def list.pred_True  split: option.split)

section \<open>Both directions\<close>

text \<open>A message that a client can send: made by the class's functions, its required fields set, within the
  limit of the runtime.\<close>

definition sent :: "wire_lib \<Rightarrow> pb_class \<Rightarrow> pb_obj \<Rightarrow> bool" where
  "sent W C m \<longleftrightarrow> proper_obj C m \<and> c_init C m \<and> length (SerializeToString W C m) \<le> size_limit W"

lemma parse_back:
  assumes W: "wire_ok W" and C: "C \<in> set message_classes" and m: "proper_obj C m" "length (SerializeToString W C m) \<le> size_limit W"
  shows "ParseFromString W C (SerializeToString W C m) (c_new C) = Some (if c_init C m then Some m else None)"
  by (simp add: ParseFromString_def parse_string_result [OF W] class_facts(3) [OF C] parse_one [OF W C m, simplified])

lemma received_back:
  assumes "wire_ok W" "C \<in> set message_classes" "sent W C m"
  shows "received W C rec (SerializeToString W C m) = Some (rec m)"
  using parse_back [OF assms(1,2)] assms(3) by (simp add: received_def sent_def)

lemma requests_read:
  assumes "wire_ok W"
  shows "sent W Echo_class m \<Longrightarrow> parse_Echo (with_protobuf W E) (SerializeToString W Echo_class m) = Some (Echo_rec m)"
    "sent W LogOnorOut_class m \<Longrightarrow> parse_LogOnorOut (with_protobuf W E) (SerializeToString W LogOnorOut_class m) = Some (LogOnorOut_rec m)"
    "sent W Register_class m \<Longrightarrow> parse_Register (with_protobuf W E) (SerializeToString W Register_class m) = Some (Register_rec m)"
    "sent W ChessBoardInfoReq_class m \<Longrightarrow> parse_ChessBoardInfoReq (with_protobuf W E) (SerializeToString W ChessBoardInfoReq_class m) = Some (ChessBoardInfoReq_rec m)"
    "sent W HallInfoReq_class m \<Longrightarrow> parse_HallInfoReq (with_protobuf W E) (SerializeToString W HallInfoReq_class m) = Some (HallInfoReq_rec m)"
    "sent W RequestPlay_class m \<Longrightarrow> parse_RequestPlay (with_protobuf W E) (SerializeToString W RequestPlay_class m) = Some (RequestPlay_rec m)"
    "sent W MoveChess_class m \<Longrightarrow> parse_MoveChess (with_protobuf W E) (SerializeToString W MoveChess_class m) = Some (MoveChess_rec m)"
    "sent W UserMessage_class m \<Longrightarrow> parse_UserMessage (with_protobuf W E) (SerializeToString W UserMessage_class m) = Some (UserMessage_rec m)"
    "sent W Reconciled_class m \<Longrightarrow> parse_Reconciled (with_protobuf W E) (SerializeToString W Reconciled_class m) = Some (Reconciled_rec m)"
    "sent W GiveUp_class m \<Longrightarrow> parse_GiveUp (with_protobuf W E) (SerializeToString W GiveUp_class m) = Some (GiveUp_rec m)"
    "sent W Undo_class m \<Longrightarrow> parse_Undo (with_protobuf W E) (SerializeToString W Undo_class m) = Some (Undo_rec m)"
    "sent W GameReadyReq_class m \<Longrightarrow> parse_GameReadyReq (with_protobuf W E) (SerializeToString W GameReadyReq_class m) = Some (GameReadyReq_rec m)"
    "sent W FindPassword_class m \<Longrightarrow> parse_FindPassword (with_protobuf W E) (SerializeToString W FindPassword_class m) = Some (FindPassword_rec m)"
    "sent W UpdateUserInfo_class m \<Longrightarrow> parse_UpdateUserInfo (with_protobuf W E) (SerializeToString W UpdateUserInfo_class m) = Some (UpdateUserInfo_rec m)"
    "sent W AdPictureReq_class m \<Longrightarrow> parse_AdPictureReq (with_protobuf W E) (SerializeToString W AdPictureReq_class m) = Some (AdPictureReq_rec m)"
  by (simp_all add: with_protobuf_def received_back [OF assms] listed)

lemma replies_written:
  "ser_Echo (with_protobuf W E) = (\<lambda>r. SerializeToString W Echo_class (Echo_obj r))"
    "ser_ReplyStatus (with_protobuf W E) = (\<lambda>r. SerializeToString W ReplyStatus_class (ReplyStatus_obj r))"
    "ser_ChessBoardInfo (with_protobuf W E) = (\<lambda>r. SerializeToString W ChessBoardInfo_class (ChessBoardInfo_obj r))"
    "ser_HallInfo (with_protobuf W E) = (\<lambda>r. SerializeToString W HallInfo_class (HallInfo_obj r))"
    "ser_GameHallSumary (with_protobuf W E) = (\<lambda>r. SerializeToString W GameHallSumary_class (GameHallSumary_obj r))"
    "ser_RequestPlayReply (with_protobuf W E) = (\<lambda>r. SerializeToString W RequestPlayReply_class (RequestPlayReply_obj r))"
    "ser_MoveAction (with_protobuf W E) = (\<lambda>r. SerializeToString W MoveAction_class (MoveAction_obj r))"
    "ser_GiveUp (with_protobuf W E) = (\<lambda>r. SerializeToString W GiveUp_class (GiveUp_obj r))"
    "ser_GameStatusReply (with_protobuf W E) = (\<lambda>r. SerializeToString W GameStatusReply_class (GameStatusReply_obj r))"
    "ser_AdPictureItemReply (with_protobuf W E) = (\<lambda>r. SerializeToString W AdPictureItemReply_class (AdPictureItemReply_obj r))"
    "ser_AdPictureContentReply (with_protobuf W E) = (\<lambda>r. SerializeToString W AdPictureContentReply_class (AdPictureContentReply_obj r))"
  by (simp_all add: with_protobuf_def)

end
