(* ===== verification/Pb_Varint.thy ===== *)
theory Pb_Varint
  imports Pb_Merge
begin

text \<open>
  A runtime that writes and reads the documented protobuf encoding: base-128 varints, negative
  \<open>int32\<close> values sign-extended to 64 bits, length-delimited strings and messages. It satisfies \<open>wire_ok\<close>
  and \<open>shrinks\<close>, so these can hold, and properties can be applied to it.
\<close>

section \<open>Varints\<close>

fun varint :: "nat \<Rightarrow> bytes" where
  "varint n = (if n < 128 then [of_nat n] else of_nat (n mod 128 + 128) # varint (n div 128))"

declare varint.simps [simp del]

fun read_varint :: "nat \<Rightarrow> bytes \<Rightarrow> (nat \<times> bytes) option" where
  "read_varint 0 bs = None"
| "read_varint (Suc k) [] = None"
| "read_varint (Suc k) (b # bs) =
     (if unat b < 128 then Some (unat b, bs)
      else case read_varint k bs of None \<Rightarrow> None | Some (v, r) \<Rightarrow> Some (unat b - 128 + 128 * v, r))"

lemma byte_of [simp]: "n < 256 \<Longrightarrow> unat (of_nat n :: u8) = n"
  by (simp add: unat_of_nat)

lemma read_varint_back: "n < 128 ^ Suc k \<Longrightarrow> read_varint (Suc k) (varint n @ r) = Some (n, r)"
proof (induction k arbitrary: n)
  case 0
  then show ?case by (simp add: varint.simps [of n])
next
  case (Suc k)
  show ?case
  proof (cases "n < 128")
    case True
    then show ?thesis by (simp add: varint.simps [of n])
  next
    case False
    have "n mod 128 < 128" by simp
    then have b: "n mod 128 + 128 < 256" by simp
    have "n div 128 < 128 ^ Suc k" using Suc.prems by (simp add: less_mult_imp_div_less)
    from Suc.IH [OF this] show ?thesis using False byte_of [OF b] by (simp add: varint.simps [of n])
  qed
qed

lemma read_10_back: "n < 128 ^ 10 \<Longrightarrow> read_varint 10 (varint n @ r) = Some (n, r)"
proof -
  have "(10 :: nat) = Suc 9" by simp
  then show "n < 128 ^ 10 \<Longrightarrow> read_varint 10 (varint n @ r) = Some (n, r)" using read_varint_back [of n 9 r] by (simp only:)
qed

lemma read_10: "read_varint 10 [] = None" "unat b < 128 \<Longrightarrow> read_varint 10 (b # bs) = Some (unat b, bs)"
proof -
  have "(10 :: nat) = Suc 9" by simp
  then show "read_varint 10 [] = None" "unat b < 128 \<Longrightarrow> read_varint 10 (b # bs) = Some (unat b, bs)"
    by (simp_all only: read_varint.simps if_True)
qed

lemma varint_nonempty [simp]: "varint n \<noteq> []"
  by (simp add: varint.simps [of n])

lemma read_varint_less: "read_varint k bs = Some (v, r) \<Longrightarrow> length r < length bs"
proof (induction k bs arbitrary: v r rule: read_varint.induct)
  case (3 k b bs)
  then show ?case by (fastforce split: if_splits option.splits)
qed simp_all

section \<open>The runtime\<close>

definition num64 :: "u32 \<Rightarrow> nat" where
  "num64 v = (if 2 ^ 31 \<le> unat v then 2 ^ 64 - 2 ^ 32 + unat v else unat v)"

definition delimited :: "bytes \<Rightarrow> bytes" where
  "delimited s = varint (length s) @ s"

definition read_num :: "bytes \<Rightarrow> (u32 \<times> bytes) option" where
  "read_num bs = map_option (\<lambda>(v, r). (of_nat v, r)) (read_varint 10 bs)"

definition read_delimited :: "bytes \<Rightarrow> (bytes \<times> bytes) option" where
  "read_delimited bs = (case read_varint 10 bs of None \<Rightarrow> None
     | Some (n, r) \<Rightarrow> if n \<le> length r then Some (take n r, drop n r) else None)"

definition read_whole :: "(bytes \<Rightarrow> pb_obj \<Rightarrow> merged option) \<Rightarrow> bytes \<Rightarrow> pb_obj \<Rightarrow> (pb_obj \<times> bytes) option option" where
  "read_whole m bs ob = (case read_delimited bs of None \<Rightarrow> Some None
     | Some (p, r) \<Rightarrow> (case m p ob of None \<Rightarrow> None
        | Some (Merged ob' True) \<Rightarrow> Some (Some (ob', r)) | Some _ \<Rightarrow> Some None))"

definition first_tag :: "bytes \<Rightarrow> u32 \<times> bytes" where
  "first_tag bs = (case read_num bs of None \<Rightarrow> (0, bs) | Some (t, r) \<Rightarrow> (t, r))"

definition tag_bytes :: "u32 \<Rightarrow> bytes" where
  "tag_bytes t = varint (unat t)"

definition look_for :: "bytes \<Rightarrow> bytes \<Rightarrow> bytes option" where
  "look_for p bs = (if take (length p) bs = p then Some (drop (length p) bs) else None)"

text \<open>A field of another version is kept as it came; groups are refused.\<close>

definition keep :: "u32 \<Rightarrow> bytes \<Rightarrow> bytes \<Rightarrow> (bytes \<times> bytes) option" where
  "keep t bs u =
     (let w = unat t mod 8; fixed = (\<lambda>n. if n \<le> length bs then Some (drop n bs, u @ tag_bytes t @ take n bs) else None)
      in if w = 0 then map_option (\<lambda>(v, r). (r, u @ tag_bytes t @ varint v)) (read_varint 10 bs)
         else if w = 1 then fixed 8
         else if w = 2 then map_option (\<lambda>(s, r). (r, u @ tag_bytes t @ delimited s)) (read_delimited bs)
         else if w = 5 then fixed 4 else None)"

definition field_out :: "nat \<Rightarrow> nat \<Rightarrow> bytes \<Rightarrow> bytes" where
  "field_out i w p = tag_bytes (tag_of i w) @ p"

definition varint_lib :: wire_lib where
  "varint_lib = \<lparr>
     read_tag = first_tag,
     legit_end = (\<lambda>bs. bs = []),
     tag_field = (\<lambda>t. unat t div 8),
     tag_wire = (\<lambda>t. unat t mod 8),
     expect_tag = (\<lambda>t. look_for (tag_bytes t)),
     expect_end = (\<lambda>bs. bs = []),
     read_uint32 = read_num,
     read_int32 = read_num,
     read_bool = (\<lambda>bs. map_option (\<lambda>(v, r). (v \<noteq> 0, r)) (read_varint 10 bs)),
     read_string = read_delimited,
     read_bytes = read_delimited,
     read_message = read_whole,
     skip_field = keep,
     write_tag = tag_bytes,
     enc_uint32 = (\<lambda>v. varint (unat v)),
     enc_int32 = (\<lambda>v. varint (num64 v)),
     enc_bool = (\<lambda>b. [if b then 1 else 0]),
     enc_delimited = delimited,
     write_uint32 = (\<lambda>i v. field_out i WIRETYPE_VARINT (varint (unat v))),
     write_int32 = (\<lambda>i v. field_out i WIRETYPE_VARINT (varint (num64 v))),
     write_bool = (\<lambda>i b. field_out i WIRETYPE_VARINT [if b then 1 else 0]),
     write_string = (\<lambda>i s. field_out i WIRETYPE_LENGTH_DELIMITED (delimited s)),
     write_bytes = (\<lambda>i s. field_out i WIRETYPE_LENGTH_DELIMITED (delimited s)),
     write_message = (\<lambda>i n p. field_out i WIRETYPE_LENGTH_DELIMITED (varint n @ p)),
     array_uint32 = (\<lambda>i v t. t @ field_out i WIRETYPE_VARINT (varint (unat v))),
     array_int32 = (\<lambda>i v t. t @ field_out i WIRETYPE_VARINT (varint (num64 v))),
     array_bool = (\<lambda>i b t. t @ field_out i WIRETYPE_VARINT [if b then 1 else 0]),
     array_string = (\<lambda>i s t. t @ field_out i WIRETYPE_LENGTH_DELIMITED (delimited s)),
     array_bytes = (\<lambda>i s t. t @ field_out i WIRETYPE_LENGTH_DELIMITED (delimited s)),
     array_message = (\<lambda>i n f t. f (t @ field_out i WIRETYPE_LENGTH_DELIMITED (varint n))),
     uint32_size = (\<lambda>v. length (varint (unat v))),
     int32_size = (\<lambda>v. length (varint (num64 v))),
     string_size = (\<lambda>s. length (delimited s)),
     bytes_size = (\<lambda>s. length (delimited s)),
     message_size = (\<lambda>n. length (varint n) + n),
     write_unknown = (\<lambda>u. u),
     array_unknown = (\<lambda>u t. t @ u),
     unknown_size = length,
     merge_unknown = (\<lambda>u v. u @ v),
     parse_string = (\<lambda>m init bs ob. case m bs ob of None \<Rightarrow> None | Some Failed \<Rightarrow> Some None
        | Some (Merged ob' consumed) \<Rightarrow> Some (if consumed \<and> init ob' then Some ob' else None)),
     serialize_string = (\<lambda>n f. take n (f [])),
     size_limit = 64 * 2 ^ 20\<rparr>"

section \<open>It behaves as documented\<close>

lemma read_num_back: "n < 128 ^ 10 \<Longrightarrow> read_num (varint n @ r) = Some (of_nat n, r)"
  using read_10_back [of n r] by (simp add: read_num_def)

lemma num64_less: "num64 v < 128 ^ 10" "unat v < 128 ^ 10"
proof -
  have v: "unat v < 2 ^ 32" using unsigned_less [of v] by simp
  then show "unat v < 128 ^ 10" by simp
  show "num64 v < 128 ^ 10" using v by (simp add: num64_def)
qed

lemma of_num64: "of_nat (num64 v) = v"
proof -
  have "of_nat (2 ^ 64 - 2 ^ 32) = (0 :: u32)" by (simp only: word_of_nat_eq_0_iff) simp
  then have "of_nat (2 ^ 64 - 2 ^ 32 + unat v) = v" by (simp only: of_nat_add) simp
  then show ?thesis by (simp add: num64_def del: of_nat_add)
qed

lemma read_delimited_back: "length s < 128 ^ 10 \<Longrightarrow> read_delimited (delimited s @ r) = Some (s, r)"
  using read_10_back [of "length s" "s @ r"] by (simp add: read_delimited_def delimited_def)

lemma tag_small: "plain_tag i w \<Longrightarrow> unat (tag_of i w) = 8 * i + w \<and> 8 * i + w < 128"
proof -
  assume "plain_tag i w"
  then have s: "8 * i + w < 128" by (auto simp: plain_tag_def WIRETYPE_VARINT_def WIRETYPE_LENGTH_DELIMITED_def)
  then have "8 * i + w < 2 ^ LENGTH(32)" by simp
  then have "unat (of_nat (8 * i + w) :: u32) = 8 * i + w" by (simp only: unat_of_nat mod_less)
  with s show ?thesis by (simp only: tag_of_def)
qed

lemma varint_tags: "tags_ok varint_lib"
  unfolding tags_ok_def
proof (intro allI impI)
  fix i w assume p: "plain_tag i w"
  have t: "unat (tag_of i w) = 8 * i + w" "8 * i + w < 128" using tag_small [OF p] by simp_all
  have w: "w < 8" "1 \<le> i" using p by (auto simp: plain_tag_def WIRETYPE_VARINT_def WIRETYPE_LENGTH_DELIMITED_def)
  have r: "first_tag (tag_bytes (tag_of i w) @ r) = (tag_of i w, r)" for r
    using read_num_back [OF num64_less(2), of "tag_of i w" r] by (simp add: first_tag_def tag_bytes_def)
  have "tag_of i w \<noteq> 0" using t w by (metis unat_0 add_is_0 mult_is_0 not_one_le_zero zero_neq_numeral)
  moreover have "length (tag_bytes (tag_of i w)) = 1" using t by (simp add: tag_bytes_def varint.simps [of "8 * i + w"])
  ultimately show "tag_of i w \<noteq> 0 \<and> tag_field varint_lib (tag_of i w) = i \<and> tag_wire varint_lib (tag_of i w) = w \<and>
      length (write_tag varint_lib (tag_of i w)) = 1 \<and>
      (\<forall>r. read_tag varint_lib (write_tag varint_lib (tag_of i w) @ r) = (tag_of i w, r))"
    using t w r by (simp add: varint_lib_def)
qed

lemma look_for_found: "look_for p bs = Some r \<longleftrightarrow> bs = p @ r"
  unfolding look_for_def by (metis append_eq_conv_conj append_take_drop_id option.distinct(1) option.inject)

lemma varint_ends: "ends_ok varint_lib"
  by (simp add: ends_ok_def varint_lib_def look_for_found first_tag_def read_num_def read_10)

lemma varint_reads: "reads_ok varint_lib"
proof -
  have lim: "length s \<le> 64 * 2 ^ 20 \<Longrightarrow> length s < 128 ^ 10" for s :: bytes by simp
  have b: "read_varint 10 ((if b then 1 else 0) # r) = Some (if b then 1 else 0, r)" for b r
    using read_10(2) [of "if b then 1 else 0" r] by simp
  have m: "m p ob = Some (Merged ob' True) \<Longrightarrow> length p \<le> 64 * 2 ^ 20 \<Longrightarrow>
      read_whole m (delimited p @ r) ob = Some (Some (ob', r))" for m p ob ob' r
    using read_delimited_back [OF lim] by (simp add: read_whole_def)
  show ?thesis unfolding reads_ok_def
    using read_num_back [OF num64_less(1)] read_num_back [OF num64_less(2)] read_delimited_back [OF lim] m b
    by (auto simp: varint_lib_def of_num64 delimited_def split: if_splits)
qed

lemma varint_writes: "writes_ok varint_lib" "arrays_ok varint_lib" "sizes_ok varint_lib" "whole_ok varint_lib"
  by (simp_all add: writes_ok_def arrays_ok_def sizes_ok_def whole_ok_def varint_lib_def field_out_def delimited_def)

theorem varint_ok: "wire_ok varint_lib"
  using varint_tags varint_ends varint_reads varint_writes by (simp add: wire_ok_def)

lemma read_num_less: "read_num bs = Some (v, r) \<Longrightarrow> length r < length bs"
  using read_varint_less by (auto simp: read_num_def)

lemma read_delimited_less: "read_delimited bs = Some (s, r) \<Longrightarrow> length r \<le> length bs \<and> length s \<le> length bs"
  using read_varint_less [of 10 bs] by (fastforce simp: read_delimited_def split: option.splits if_splits)

theorem varint_shrinks: "shrinks varint_lib"
proof -
  have tag: "fst (first_tag bs) \<noteq> 0 \<longrightarrow> length (snd (first_tag bs)) < length bs" for bs
    using read_num_less [of bs] by (auto simp: first_tag_def split: option.splits)
  have exp: "look_for (tag_bytes t) bs = Some r \<longrightarrow> length r < length bs" for t bs r
    by (simp add: look_for_found tag_bytes_def)
  have num: "read_num bs = Some (v, r) \<longrightarrow> length r \<le> length bs" for bs v r
    using read_num_less [of bs v r] by linarith
  have bool: "map_option (\<lambda>(v, r). (v \<noteq> 0, r)) (read_varint 10 bs) = Some (b, r) \<longrightarrow> length r \<le> length bs" for bs b r
    using read_varint_less [of 10 bs] by fastforce
  have del: "read_delimited bs = Some (s, r) \<longrightarrow> length r \<le> length bs" for bs s r
    using read_delimited_less by blast
  have kept: "keep t bs u = Some (r, v) \<longrightarrow> length r \<le> length bs" for t bs u v r
    using read_varint_less [of 10 bs] read_delimited_less [of bs]
    by (fastforce simp: keep_def Let_def split: if_splits)
  have whole: "(\<forall>p ob. length p \<le> length bs \<longrightarrow> m p ob \<noteq> None) \<longrightarrow> read_whole m bs ob \<noteq> None \<and>
      (\<forall>ob' r. read_whole m bs ob = Some (Some (ob', r)) \<longrightarrow> length r \<le> length bs)" for m bs ob
  proof (intro impI)
    assume m: "\<forall>p ob. length p \<le> length bs \<longrightarrow> m p ob \<noteq> None"
    show "read_whole m bs ob \<noteq> None \<and> (\<forall>ob' r. read_whole m bs ob = Some (Some (ob', r)) \<longrightarrow> length r \<le> length bs)"
    proof (cases "read_delimited bs")
      case (Some pr)
      obtain p r where pr: "pr = (p, r)" by (cases pr)
      have l: "length r \<le> length bs" "length p \<le> length bs" using read_delimited_less [of bs p r] Some pr by simp_all
      then have "m p ob \<noteq> None" using m by blast
      then show ?thesis using Some pr l by (auto simp: read_whole_def split: merged.splits bool.splits)
    qed (simp add: read_whole_def)
  qed
  have sel: "read_tag varint_lib = first_tag" "expect_tag varint_lib = (\<lambda>t. look_for (tag_bytes t))"
    "read_uint32 varint_lib = read_num" "read_int32 varint_lib = read_num"
    "read_bool varint_lib = (\<lambda>bs. map_option (\<lambda>(v, r). (v \<noteq> 0, r)) (read_varint 10 bs))"
    "read_string varint_lib = read_delimited" "read_bytes varint_lib = read_delimited"
    "read_message varint_lib = read_whole" "skip_field varint_lib = keep"
    by (simp_all add: varint_lib_def)
  show ?thesis unfolding shrinks_def sel by (intro conjI allI tag exp num bool del kept whole)
qed

end
