(* ===== verification/Pb_Properties.thy ===== *)
theory Pb_Properties
  imports Pb_Server Pb_Varint Demo_Run
begin

text \<open>
  The properties of the message classes and of the server with them, each applied to the encoding of
  Pb_Varint.
\<close>

section \<open>An object is what its accessors give\<close>



section \<open>Sizes in the concrete encoding\<close>





section \<open>The classes\<close>

text \<open>C11. Each of the 28 message classes does what message.proto declares: a new object, parsing, size,
  both serializers, merging, the check of the required fields, and for objects of the class \<open>Swap\<close>.\<close>

theorem classes_as_declared:
  assumes "C \<in> set message_classes" "d = c_proto C"
  shows "c_new C = new_of d \<and> c_init C = init_of d \<and> c_parse C W = merge_partial W (cases_of W d) \<and>
    c_size C W = size_of W d \<and> c_ser C W = ser_of W d \<and> c_arr C W = arr_of W d \<and> c_merge C W = merge_of W d \<and>
    (typed d a \<and> typed d b \<longrightarrow> c_swap C (a, b) = (b, a))"
  using class_facts [OF assms(1)] swap_exchanges [OF assms(1)] assms(2) by simp

theorem classes_as_declared_witness:
  "c_parse LogOnorOut_class varint_lib = merge_partial varint_lib (cases_of varint_lib (Msg [(Required, T_string), (Required, T_string)])) \<and>
   c_swap Echo_class (Echo_new, Obj 1 [V_str [97]] []) = (Obj 1 [V_str [97]] [], Echo_new)"
proof -
  have p: "LogOnorOut_proto = c_proto LogOnorOut_class" "Echo_proto = c_proto Echo_class"
    by (simp_all add: LogOnorOut_class_def Echo_class_def)
  have t: "typed Echo_proto Echo_new" "typed Echo_proto (Obj 1 [V_str [97]] [])"
    by (simp_all add: Echo_proto_def Echo_new_def val_def)
  show ?thesis
    using classes_as_declared [OF LogOnorOut_listed p(1), of varint_lib] classes_as_declared [OF Echo_listed p(2), of varint_lib] t
    unfolding LogOnorOut_proto_def [symmetric] by blast
qed

text \<open>C10. What \<open>SerializeToString\<close> writes of an object, \<open>ParseFromString\<close> reads back as the same object; it
  refuses it exactly when a required field is missing.\<close>

theorem message_read_back:
  assumes "wire_ok W" "C \<in> set message_classes" "proper_obj C m" "length (SerializeToString W C m) \<le> size_limit W"
  shows "ParseFromString W C (SerializeToString W C m) (c_new C) = Some (if c_init C m then Some m else None)"
  by (rule parse_back [OF assms])

lemma varint_fields:
  "write_string varint_lib i s = field_out i WIRETYPE_LENGTH_DELIMITED (delimited s)" "size_limit varint_lib = 67108864"
  "merge_unknown varint_lib u v = u @ v"
  by (simp_all add: varint_lib_def)

lemmas run_simps = has_def val_def varint_fields field_out_def delimited_def tag_bytes_def tag_of_def
  WIRETYPE_LENGTH_DELIMITED_def varint.simps string_out_def unknown_out_def

definition demo_login :: "bool \<Rightarrow> pb_obj" where
  "demo_login full = (if full then Obj 3 [V_str [97], V_str [112]] [] else Obj 1 [V_str [97], V_str []] [])"

lemma demo_login_out: "SerializeToString varint_lib LogOnorOut_class (demo_login full) =
    (if full then [10, 1, 97, 18, 1, 112] else [10, 1, 97])"
  unfolding serialize_to_string [OF varint_ok LogOnorOut_listed]
  by (simp add: LogOnorOut_class_def LogOnorOut_Serialize_def demo_login_def run_simps)

lemma class_new: "c_new LogOnorOut_class = LogOnorOut_new" "c_merge LogOnorOut_class = LogOnorOut_MergeFrom"
  by (simp_all add: LogOnorOut_class_def)

lemma bits_low: "k < 32 \<Longrightarrow> bit (1 :: u32) k = (k = 0)" "k < 32 \<Longrightarrow> bit (3 :: u32) k = (k < 2)"
proof -
  have "mask 2 = (3 :: u32)" by (simp add: mask_eq_exp_minus_1)
  then show "k < 32 \<Longrightarrow> bit (3 :: u32) k = (k < 2)" using bit_mask_iff [of 2 k, where ?'a = "32 word"] by auto
qed (simp add: bit_1_iff)

lemma demo_login_proper: "proper_obj LogOnorOut_class (demo_login full)" "c_init LogOnorOut_class (demo_login full) = full"
  using bits_low
  by (auto simp: proper_obj_def LogOnorOut_class_def LogOnorOut_proto_def demo_login_def has_def val_def
    LogOnorOut_agrees(7) less_Suc_eq nth_Cons')

theorem message_read_back_witness:
  "ParseFromString varint_lib LogOnorOut_class [10, 1, 97, 18, 1, 112] LogOnorOut_new = Some (Some (demo_login True)) \<and>
   ParseFromString varint_lib LogOnorOut_class [10, 1, 97] LogOnorOut_new = Some None"
  using message_read_back [OF varint_ok LogOnorOut_listed demo_login_proper(1), of True]
    message_read_back [OF varint_ok LogOnorOut_listed demo_login_proper(1), of False]
  by (simp add: demo_login_out demo_login_proper varint_fields class_new)

text \<open>C12. \<open>ByteSize\<close> is the number of bytes that both serializers write, and they write the same.\<close>

theorem sizes_agree:
  assumes "wire_ok W" "C \<in> set message_classes"
  shows "c_size C W ob = length (c_ser C W ob) \<and> c_arr C W ob t = t @ c_ser C W ob \<and> SerializeToString W C ob = c_ser C W ob"
  using class_sizes [OF assms] serialize_to_string [OF assms] by simp

theorem sizes_agree_witness:
  "LogOnorOut_ByteSize varint_lib (demo_login True) = 6 \<and>
   LogOnorOut_ToArray varint_lib (demo_login True) [0] = [0, 10, 1, 97, 18, 1, 112]"
  using sizes_agree [OF varint_ok LogOnorOut_listed, of "demo_login True" "[0]"] demo_login_out [of True]
  by (simp add: LogOnorOut_class_def)

text \<open>C13. Reading two serialized messages one after the other is merging the second into the first.\<close>

theorem concatenation_merges:
  assumes "wire_ok W" "C \<in> set message_classes" "proper_obj C a" "proper_obj C b"
    and "length (SerializeToString W C a) \<le> size_limit W" "length (SerializeToString W C b) \<le> size_limit W"
  shows "ParseFromString W C (SerializeToString W C a @ SerializeToString W C b) (c_new C) =
    Some (if c_init C (c_merge C W b a) then Some (c_merge C W b a) else None)"
  by (simp add: ParseFromString_def parse_string_result [OF assms(1)] class_facts(3) [OF assms(2)]
    parse_pair [OF assms(1,2,3,5,4,6), simplified])

theorem concatenation_merges_witness:
  "ParseFromString varint_lib LogOnorOut_class [10, 1, 97, 10, 1, 97, 18, 1, 112] LogOnorOut_new = Some (Some (demo_login True))"
proof -
  have "LogOnorOut_MergeFrom varint_lib (demo_login True) (demo_login False) = demo_login True"
    by (simp add: LogOnorOut_MergeFrom_def demo_login_def when_any_def set_from_def put_at_def set_has_def val_def has_def
      unknown_from_def put_unknown_def varint_fields Let_def set_bit_eq_or)
  then show ?thesis
    using concatenation_merges [OF varint_ok LogOnorOut_listed demo_login_proper(1) demo_login_proper(1), of False True]
      demo_login_proper(2) [of True]
    by (simp add: demo_login_out varint_fields class_new)
qed

text \<open>C14. Parsing returns on any input, whatever the object holds.\<close>

theorem parser_returns:
  assumes "wire_ok W" "shrinks W" "C \<in> set message_classes"
  shows "ParseFromString W C bs ob \<noteq> None"
proof -
  have "c_parse C W (length bs + 1) bs (c_clear C ob) \<noteq> None"
    using parse_returns(1) [OF assms(2) class_declared [OF assms(3)]] by (simp add: class_facts [OF assms(3)])
  then show ?thesis
    by (auto simp: ParseFromString_def parse_string_result [OF assms(1)] split: option.split merged.split)
qed

theorem parser_returns_witness:
  "ParseFromString varint_lib HallInfo_class [42, 200, 1, 8] HallInfo_new \<noteq> None"
  by (rule parser_returns [OF varint_ok varint_shrinks HallInfo_listed])

section \<open>The server over the classes\<close>



lemma reply_read:
  assumes "wire_ok W" "made C ob" "C \<in> set message_classes" "new = c_new C" "length (SerializeToString W C ob) \<le> size_limit W"
  shows "ParseFromString W C (SerializeToString W C ob) new = Some (Some ob)"
  using parse_back [OF assms(1,3) _ assms(5)] assms(2,4) by (simp add: made_def)

lemma written_new:
  "Echo_new = c_new Echo_class"
  "ReplyStatus_new = c_new ReplyStatus_class"
  "ChessBoardInfo_new = c_new ChessBoardInfo_class"
  "HallInfo_new = c_new HallInfo_class"
  "GameHallSumary_new = c_new GameHallSumary_class"
  "RequestPlayReply_new = c_new RequestPlayReply_class"
  "MoveAction_new = c_new MoveAction_class"
  "GiveUp_new = c_new GiveUp_class"
  "GameStatusReply_new = c_new GameStatusReply_class"
  "AdPictureItemReply_new = c_new AdPictureItemReply_class"
  "AdPictureContentReply_new = c_new AdPictureContentReply_class"
  by (simp_all add: Echo_class_def ReplyStatus_class_def ChessBoardInfo_class_def HallInfo_class_def GameHallSumary_class_def RequestPlayReply_class_def MoveAction_class_def GiveUp_class_def GameStatusReply_class_def AdPictureItemReply_class_def AdPictureContentReply_class_def)

lemmas written_made = Echo_obj_made ReplyStatus_obj_made ChessBoardInfo_obj_made HallInfo_obj_made GameHallSumary_obj_made RequestPlayReply_obj_made MoveAction_obj_made GiveUp_obj_made GameStatusReply_obj_made AdPictureItemReply_obj_made AdPictureContentReply_obj_made listed written_new

text \<open>C16. Whatever the server writes, the generated code of a client reads back: the object with the fields
  the server set, and nothing else set.\<close>

theorem replies_decoded:
  assumes "wire_ok W"
  shows "(length (ser_Echo (with_protobuf W E) a) \<le> size_limit W \<longrightarrow>
      ParseFromString W Echo_class (ser_Echo (with_protobuf W E) a) Echo_new = Some (Some (Echo_obj a))) \<and>
    (length (ser_ReplyStatus (with_protobuf W E) b) \<le> size_limit W \<longrightarrow>
      ParseFromString W ReplyStatus_class (ser_ReplyStatus (with_protobuf W E) b) ReplyStatus_new = Some (Some (ReplyStatus_obj b))) \<and>
    (length (ser_ChessBoardInfo (with_protobuf W E) c) \<le> size_limit W \<longrightarrow>
      ParseFromString W ChessBoardInfo_class (ser_ChessBoardInfo (with_protobuf W E) c) ChessBoardInfo_new = Some (Some (ChessBoardInfo_obj c))) \<and>
    (length (ser_HallInfo (with_protobuf W E) d) \<le> size_limit W \<longrightarrow>
      ParseFromString W HallInfo_class (ser_HallInfo (with_protobuf W E) d) HallInfo_new = Some (Some (HallInfo_obj d))) \<and>
    (length (ser_GameHallSumary (with_protobuf W E) e) \<le> size_limit W \<longrightarrow>
      ParseFromString W GameHallSumary_class (ser_GameHallSumary (with_protobuf W E) e) GameHallSumary_new = Some (Some (GameHallSumary_obj e))) \<and>
    (length (ser_RequestPlayReply (with_protobuf W E) f) \<le> size_limit W \<longrightarrow>
      ParseFromString W RequestPlayReply_class (ser_RequestPlayReply (with_protobuf W E) f) RequestPlayReply_new = Some (Some (RequestPlayReply_obj f))) \<and>
    (ma_token_locate g \<noteq> None \<and> length (ser_MoveAction (with_protobuf W E) g) \<le> size_limit W \<longrightarrow>
      ParseFromString W MoveAction_class (ser_MoveAction (with_protobuf W E) g) MoveAction_new = Some (Some (MoveAction_obj g))) \<and>
    (length (ser_GiveUp (with_protobuf W E) h) \<le> size_limit W \<longrightarrow>
      ParseFromString W GiveUp_class (ser_GiveUp (with_protobuf W E) h) GiveUp_new = Some (Some (GiveUp_obj h))) \<and>
    (length (ser_GameStatusReply (with_protobuf W E) i) \<le> size_limit W \<longrightarrow>
      ParseFromString W GameStatusReply_class (ser_GameStatusReply (with_protobuf W E) i) GameStatusReply_new = Some (Some (GameStatusReply_obj i))) \<and>
    (length (ser_AdPictureItemReply (with_protobuf W E) j) \<le> size_limit W \<longrightarrow>
      ParseFromString W AdPictureItemReply_class (ser_AdPictureItemReply (with_protobuf W E) j) AdPictureItemReply_new = Some (Some (AdPictureItemReply_obj j))) \<and>
    (length (ser_AdPictureContentReply (with_protobuf W E) k) \<le> size_limit W \<longrightarrow>
      ParseFromString W AdPictureContentReply_class (ser_AdPictureContentReply (with_protobuf W E) k) AdPictureContentReply_new = Some (Some (AdPictureContentReply_obj k)))"
  by (intro conjI impI; simp add: replies_written; rule reply_read [OF assms]; simp add: written_made)

text \<open>The reply to an echo request.\<close>

theorem replies_decoded_witness:
  "ParseFromString varint_lib Echo_class (ser_Echo (with_protobuf varint_lib demo_env) \<lparr>echo_time_stamp = Some ''9''\<rparr>) Echo_new =
     Some (Some (Obj 1 [V_str [57]] []))"
proof -
  let ?r = "\<lparr>echo_time_stamp = Some ''9''\<rparr>"
  have o: "Echo_obj ?r = Obj 1 [V_str [57]] []"
    by (simp add: Echo_obj_def Echo_new_def assign_def set_has_def put_at_def octets_def set_bit_eq_or)
  have "length (ser_Echo (with_protobuf varint_lib demo_env) ?r) \<le> size_limit varint_lib"
    unfolding replies_written serialize_to_string [OF varint_ok Echo_listed] o
    by (simp add: Echo_class_def Echo_Serialize_def run_simps)
  then show ?thesis using replies_decoded [OF varint_ok, of demo_env ?r] o by simp
qed




end
