(* ===== verification/Test_Client.thy ===== *)
theory Test_Client
  imports Reading
begin

text \<open>
  client.cpp, the test client: it sends the server two users in a frame, prints what it is answered and
  sends them again. Its message class \<open>User\<close> is no longer in message.proto, so its parser and serializer
  are parameters; so are the answers of \<open>send\<close> and \<open>recv\<close>, as a list for each loop. The theory shows what
  the client puts on the wire, which frames it reads, and how the server takes what it sends.
\<close>

section \<open>State\<close>

text \<open>The class \<open>user_info\<close> of the client, and the members of \<open>User\<close> that it calls.\<close>

record person =
  person_account :: string
  person_name :: string
  person_password :: string
  person_score :: u32
  person_email :: string

record user_lib =
  users_ser :: "person list \<Rightarrow> bytes"
  users_parse :: "bytes \<Rightarrow> person list option"

text \<open>What the client prints.\<close>

datatype line = L_server_close | L_net_error | L_message u32 u32 | L_account string | L_name string
  | L_password string | L_score u32 | L_email string | L_gethostname_error | L_usage | L_socket_error | L_connect_error

text \<open>\<open>has_event\<close>: the event object of the connection exists and is registered. \<open>in_kernel\<close> are the
  bytes of the server that have not been read, \<open>on_wire\<close> those that \<open>send\<close> has taken.\<close>

record client =
  has_event :: bool
  closes :: nat
  in_kernel :: bytes
  on_wire :: bytes
  screen :: "line list"

definition client_new :: client where
  "client_new = \<lparr>has_event = True, closes = 0, in_kernel = [], on_wire = [], screen = []\<rparr>"

definition say :: "line list \<Rightarrow> client \<Rightarrow> client" where
  "say ls c = c\<lparr>screen := screen c @ ls\<rparr>"

text \<open>\<open>Crash\<close>: the code leaves an array, uses a deleted object or ends in an exception that nothing
  catches. \<open>Running\<close>: the loop has used up the answers it was given.\<close>

datatype stop = Crash | Running

text \<open>\<open>again\<close>: \<open>errno\<close> is \<open>EAGAIN\<close>, \<open>EINTR\<close> or \<open>EWOULDBLOCK\<close>. Both loops look at it when the call
  gives nothing.\<close>

record answer =
  iLen :: int
  again :: bool

record news =
  fresh :: bytes
  idle_again :: bool

definition CLIENT_MAX :: nat where "CLIENT_MAX = 10240"

text \<open>The error branch of both loops: \<open>event_del\<close> and \<open>delete\<close> of the event, \<open>close\<close> of the descriptor.\<close>

definition net_gone :: "line \<Rightarrow> client \<Rightarrow> stop + client" where
  "net_gone l c =
     (if has_event c then Inr (say [l] (c\<lparr>has_event := False, closes := Suc (closes c)\<rparr>)) else Inl Crash)"

section \<open>Sending\<close>

text \<open>Each turn passes \<open>totalSize\<close> to \<open>send\<close>, whatever has been sent; the error branch does not leave
  the loop.\<close>

fun send_loop :: "bytes \<Rightarrow> nat \<Rightarrow> nat \<Rightarrow> answer list \<Rightarrow> client \<Rightarrow> stop + client" where
  "send_loop buf totalSize sendLen [] c = (if sendLen < totalSize then Inl Running else Inr c)"
| "send_loop buf totalSize sendLen (a # as) c =
     (if \<not> sendLen < totalSize then Inr c
      else if iLen a \<le> 0 then
        (if again a then send_loop buf totalSize sendLen as c
         else case net_gone L_net_error c of
             Inl e \<Rightarrow> Inl e
           | Inr c \<Rightarrow> send_loop buf totalSize sendLen as c)
      else
        let n = min (nat (iLen a)) totalSize in
        if length buf < sendLen + n then Inl Crash
        else send_loop buf totalSize (sendLen + n) as (c\<lparr>on_wire := on_wire c @ take n (drop sendLen buf)\<rparr>))"

definition client_OnWrite :: "u32 \<Rightarrow> bytes \<Rightarrow> answer list \<Rightarrow> client \<Rightarrow> stop + client" where
  "client_OnWrite ty data as c =
     (let totalSize = (of_nat (length data + 8) :: u32) in
      if CLIENT_MAX < length data + 8 then Inl Crash
      else send_loop (le32 totalSize @ le32 ty @ data @ replicate (CLIENT_MAX - (length data + 8)) 0)
        (unat totalSize) 0 as c)"

definition stern :: person where
  "stern = \<lparr>person_account = ''517564967@qq.com'', person_name = ''Stern'', person_password = ''111111'',
     person_score = 100, person_email = ''wei.yan1@motorolasolutions.com''\<rparr>"

definition constructMsg :: "user_lib \<Rightarrow> answer list \<Rightarrow> client \<Rightarrow> stop + client" where
  "constructMsg U as c = client_OnWrite 1 (users_ser U [stern, stern]) as c"

section \<open>Reading\<close>

record reader =
  rd_buf :: bytes
  leftLen :: u32
  totalSize :: u32
  gotHead :: bool
  head_type :: u32

definition reader_new :: reader where
  "reader_new = \<lparr>rd_buf = [], leftLen = of_nat CLIENT_MAX, totalSize = of_nat CLIENT_MAX, gotHead = False, head_type = 0\<rparr>"

text \<open>\<open>recvLen\<close> is the length of \<open>rd_buf\<close>. A piece that arrives is stored without a look at the size
  of the array; \<open>leftLen\<close> wraps when more than the message has been read.\<close>

definition take_piece :: "bytes \<Rightarrow> reader \<Rightarrow> reader" where
  "take_piece bs rd =
     (let buf = rd_buf rd @ bs;
          rd = (if \<not> gotHead rd \<and> 8 \<le> length buf
            then rd\<lparr>totalSize := get_le32 0 buf, head_type := get_le32 4 buf, gotHead := True\<rparr> else rd)
      in rd\<lparr>rd_buf := buf, leftLen := totalSize rd - of_nat (length buf)\<rparr>)"

text \<open>The result \<open>None\<close> stands for the \<open>return\<close> after \<open>Server Close\<close>.\<close>

fun read_loop :: "news list \<Rightarrow> reader \<Rightarrow> client \<Rightarrow> stop + (reader option \<times> client)" where
  "read_loop [] rd c = (if length (rd_buf rd) < unat (totalSize rd) then Inl Running else Inr (Some rd, c))"
| "read_loop (a # as) rd c =
     (if \<not> length (rd_buf rd) < unat (totalSize rd) then Inr (Some rd, c)
      else
        let waiting = in_kernel c @ fresh a; got = take (unat (leftLen rd)) waiting;
            c = c\<lparr>in_kernel := drop (unat (leftLen rd)) waiting\<rparr> in
        if got \<noteq> [] then
          (if CLIENT_MAX < length (rd_buf rd) + length got then Inl Crash else read_loop as (take_piece got rd) c)
        else if idle_again a then read_loop as rd c
        else case net_gone L_server_close c of Inl e \<Rightarrow> Inl e | Inr c \<Rightarrow> Inr (None, c))"

definition show_person :: "person \<Rightarrow> line list" where
  "show_person p = [L_account (person_account p), L_name (person_name p), L_password (person_password p),
     L_score (person_score p), L_email (person_email p)]"

text \<open>\<open>buf[recvLen] = 0\<close> needs a free place behind the message, and a size below that of the header
  makes the length of the string wrap, on which \<open>std::string\<close> throws.\<close>

definition onRead :: "user_lib \<Rightarrow> news list \<Rightarrow> answer list \<Rightarrow> client \<Rightarrow> stop + client" where
  "onRead U rs ss c =
     (case read_loop rs reader_new c of
        Inl e \<Rightarrow> Inl e
      | Inr (None, c) \<Rightarrow> Inr c
      | Inr (Some rd, c) \<Rightarrow>
          if \<not> length (rd_buf rd) < CLIENT_MAX then Inl Crash
          else if unat (totalSize rd) < 8 then Inl Crash
          else
            let data = take (unat (totalSize rd) - 8) (drop 8 (rd_buf rd));
                c = say [L_message (head_type rd) (totalSize rd)] c;
                c = (case users_parse U data of None \<Rightarrow> c | Some us \<Rightarrow> say (concat (map show_person us)) c)
            in constructMsg U ss c)"

section \<open>The program\<close>

text \<open>\<open>event_base_dispatch\<close> calls \<open>onRead\<close> as long as the event is registered.\<close>

fun dispatch :: "user_lib \<Rightarrow> (news list \<times> answer list) list \<Rightarrow> client \<Rightarrow> stop + client" where
  "dispatch U [] c = (if has_event c then Inl Running else Inr c)"
| "dispatch U ((rs, ss) # calls) c =
     (if \<not> has_event c then Inr c
      else case onRead U rs ss c of Inl e \<Rightarrow> Inl e | Inr c \<Rightarrow> dispatch U calls c)"

text \<open>\<open>host\<close>: \<open>gethostbyname\<close> finds the address; then the results of \<open>socket\<close> and \<open>connect\<close>. The result
  is the exit code with the last state.\<close>

definition client_main :: "user_lib \<Rightarrow> bool \<Rightarrow> int \<Rightarrow> int \<Rightarrow> answer list \<Rightarrow> (news list \<times> answer list) list \<Rightarrow> stop + (int \<times> client)" where
  "client_main U host sockfd connect_rc first calls =
     (let portnumber = 8888 :: int in
      if \<not> host then Inr (1, say [L_gethostname_error] (client_new\<lparr>has_event := False\<rparr>))
      else if portnumber < 0 then Inr (1, say [L_usage] (client_new\<lparr>has_event := False\<rparr>))
      else if sockfd = -1 then Inr (1, say [L_socket_error] (client_new\<lparr>has_event := False\<rparr>))
      else if connect_rc = -1 then Inr (1, say [L_connect_error] (client_new\<lparr>has_event := False\<rparr>))
      else case constructMsg U first client_new of
          Inl e \<Rightarrow> Inl e
        | Inr c \<Rightarrow> (case dispatch U calls c of
            Inl e \<Rightarrow> Inl e
          | Inr c \<Rightarrow> Inr (0, c\<lparr>closes := Suc (closes c)\<rparr>)))"

section \<open>What is sent\<close>

text \<open>The connection is closed at most once while the client runs, and the event tells whether.\<close>

definition client_ok :: "client \<Rightarrow> bool" where
  "client_ok c \<longleftrightarrow> closes c = (if has_event c then 0 else 1)"

lemma net_gone_ok: "net_gone l c = Inr c' \<Longrightarrow> client_ok c \<Longrightarrow> client_ok c' \<and> \<not> has_event c'"
  by (auto simp: net_gone_def client_ok_def say_def split: if_splits)

lemma send_loop_step [consumes 1, case_names stop again gone sent]:
  assumes "send_loop buf n k (a # as) c = Inr c'"
  obtains "n \<le> k" "c' = c"
  | "k < n" "send_loop buf n k as c = Inr c'"
  | c1 where "k < n" "net_gone L_net_error c = Inr c1" "send_loop buf n k as c1 = Inr c'"
  | j where "k < n" "k + j \<le> length buf" "send_loop buf n (k + j) as (c\<lparr>on_wire := on_wire c @ take j (drop k buf)\<rparr>) = Inr c'"
  using assms by (auto simp: Let_def not_less split: if_splits sum.splits)

lemma send_loop_Nil: "send_loop buf n k [] c = Inr c' \<longleftrightarrow> n \<le> k \<and> c' = c"
  by auto

lemma send_loop_ok: "send_loop buf n k as c = Inr c' \<Longrightarrow> client_ok c \<Longrightarrow> client_ok c'"
proof (induction as arbitrary: k c)
  case (Cons a as)
  from Cons.prems(1) show ?case
  proof (cases rule: send_loop_step)
    case (gone c1)
    then show ?thesis using Cons net_gone_ok by blast
  next
    case (sent j)
    then show ?thesis using Cons.IH [OF sent(3)] Cons.prems(2) by (simp add: client_ok_def)
  qed (use Cons in simp_all)
qed (simp only: send_loop_Nil)

lemma send_loop_event: "send_loop buf n k as c = Inr c' \<Longrightarrow> has_event c' \<Longrightarrow> has_event c"
proof (induction as arbitrary: k c)
  case (Cons a as)
  from Cons.prems(1) show ?case
  proof (cases rule: send_loop_step)
    case (gone c1)
    then show ?thesis by (simp add: net_gone_def split: if_splits)
  next
    case (sent j)
    then show ?thesis using Cons.IH [OF sent(3)] Cons.prems(2) by simp
  qed (use Cons in simp_all)
qed (simp only: send_loop_Nil)

text \<open>As long as the connection is up, the loop sends the first bytes of the array, at least as many
  as the message has.\<close>

lemma take_on: "take j (drop k xs) @ take (m - (k + j)) (drop (k + j) xs) = take (m - k) (drop k xs)" if "k + j \<le> m"
proof -
  have "m - k = j + (m - (k + j))" using that by simp
  then show ?thesis by (metis take_add drop_drop add.commute)
qed

lemma send_loop_sent:
  "send_loop buf n k as c = Inr c' \<Longrightarrow> has_event c' \<Longrightarrow> k \<le> length buf \<Longrightarrow>
     \<exists>m \<le> length buf. k \<le> m \<and> n \<le> m \<and> c' = c\<lparr>on_wire := on_wire c @ take (m - k) (drop k buf)\<rparr>"
proof (induction as arbitrary: k c)
  case (Cons a as)
  from Cons.prems(1) show ?case
  proof (cases rule: send_loop_step)
    case (gone c1)
    then have "\<not> has_event c1" by (auto simp: net_gone_def say_def split: if_splits)
    then show ?thesis using send_loop_event [OF gone(3) Cons.prems(2)] by simp
  next
    case (sent j)
    from Cons.IH [OF sent(3) Cons.prems(2) sent(2)] obtain m where
      "m \<le> length buf" "k + j \<le> m" "n \<le> m"
      "c' = c\<lparr>on_wire := on_wire c @ take j (drop k buf) @ take (m - (k + j)) (drop (k + j) buf)\<rparr>" by auto
    then show ?thesis using take_on [of k j m buf] by (intro exI [of _ m]) simp
  qed (use Cons in \<open>auto intro!: exI [of _ k]\<close>)
next
  case Nil
  then show ?case by (intro exI [of _ k]) (auto simp only: send_loop_Nil, simp_all)
qed

text \<open>Once the connection has failed, \<open>send\<close> on the closed descriptor fails again: the loop reaches
  its error branch a second time and uses the deleted event.\<close>

lemma send_loop_dead:
  assumes "\<not> has_event c" "k < n" "\<forall>a \<in> set as. iLen a \<le> 0"
  shows "send_loop buf n k as c = Inl (if \<exists>a \<in> set as. \<not> again a then Crash else Running)"
  using assms by (induction as arbitrary: c) (auto simp: net_gone_def)

lemma send_loop_fails:
  assumes "iLen a \<le> 0" "\<not> again a" "k < n" "\<forall>a \<in> set as. iLen a \<le> 0" "\<exists>a \<in> set as. \<not> again a"
  shows "send_loop buf n k (a # as) c = Inl Crash"
  using assms send_loop_dead [of _ k n as buf] by (auto simp: net_gone_def say_def split: sum.split)

text \<open>What arrives at the server is the frame, followed by zero bytes when \<open>send\<close> took it in more than
  one piece and the last one was too long.\<close>

lemma client_frame:
  assumes "length d + 8 \<le> CLIENT_MAX" "length d + 8 \<le> m" "m \<le> CLIENT_MAX"
  shows "take (m - 0) (le32 (of_nat (length d + 8)) @ le32 ty @ d @ replicate (CLIENT_MAX - (length d + 8)) 0) =
      wire_frame ty d @ replicate (m - (length d + 8)) 0"
proof -
  have "frame_fits d" using assms by (simp add: frame_fits_def CLIENT_MAX_def DATA_HEAD_LENGTH_def)
  then have f: "wire_frame ty d = le32 (of_nat (length d + 8)) @ le32 ty @ d" by (simp add: wire_frame_eq DATA_HEAD_LENGTH_def)
  show ?thesis unfolding f using assms by (simp add: min_def add.commute)
qed

lemma client_OnWrite_sent:
  assumes "client_OnWrite ty d as c = Inr c'" "has_event c'"
  shows "\<exists>k. length d + 8 + k \<le> CLIENT_MAX \<and>
    c' = c\<lparr>on_wire := on_wire c @ wire_frame ty d @ replicate k 0\<rparr>"
proof -
  let ?buf = "le32 (of_nat (length d + 8)) @ le32 ty @ d @ replicate (CLIENT_MAX - (length d + 8)) 0"
  have n: "length d + 8 \<le> CLIENT_MAX"
    and r: "send_loop ?buf (unat (of_nat (length d + 8) :: u32)) 0 as c = Inr c'"
    using assms(1) by (auto simp: client_OnWrite_def Let_def split: if_splits)
  have u: "unat (of_nat (length d + 8) :: u32) = length d + 8" using n by (simp add: unat_of_nat CLIENT_MAX_def del: of_nat_add)
  have b: "length ?buf = CLIENT_MAX" using n by simp
  from send_loop_sent [OF r assms(2)] obtain m where
    "m \<le> CLIENT_MAX" "length d + 8 \<le> m" "c' = c\<lparr>on_wire := on_wire c @ take (m - 0) ?buf\<rparr>"
    unfolding u b by auto
  then show ?thesis using client_frame [OF n, of m] by (intro exI [of _ "m - (length d + 8)"]) simp
qed

text \<open>And each number of zero bytes that fits the array happens: a first piece of that length, and then
  \<open>send\<close> takes all it is offered.\<close>

lemma send_loop_two:
  assumes "0 < k" "k < n" "k + n \<le> length buf"
  shows "send_loop buf n 0 [\<lparr>iLen = int k, again = b\<rparr>, \<lparr>iLen = int n, again = b\<rparr>] c =
    Inr (c\<lparr>on_wire := on_wire c @ take k buf @ take n (drop k buf)\<rparr>)"
  using assms by (simp add: Let_def)

lemma client_OnWrite_pieces:
  assumes "0 < k" "k < length d + 8" "length d + 8 + k \<le> CLIENT_MAX"
  shows "client_OnWrite ty d [\<lparr>iLen = int k, again = b\<rparr>, \<lparr>iLen = int (length d + 8), again = b\<rparr>] c =
    Inr (c\<lparr>on_wire := on_wire c @ wire_frame ty d @ replicate k 0\<rparr>)"
proof -
  let ?buf = "le32 (of_nat (length d + 8)) @ le32 ty @ d @ replicate (CLIENT_MAX - (length d + 8)) 0"
  have u: "unat (of_nat (length d + 8) :: u32) = length d + 8"
    using assms by (simp add: unat_of_nat CLIENT_MAX_def del: of_nat_add)
  have b: "length ?buf = CLIENT_MAX" using assms by simp
  have t: "take k ?buf @ take (length d + 8) (drop k ?buf) = wire_frame ty d @ replicate k 0"
    using take_on [of 0 k "length d + 8 + k" ?buf] client_frame [of d "length d + 8 + k"] assms by simp
  have "send_loop ?buf (length d + 8) 0 [\<lparr>iLen = int k, again = b\<rparr>, \<lparr>iLen = int (length d + 8), again = b\<rparr>] c =
    Inr (c\<lparr>on_wire := on_wire c @ take k ?buf @ take (length d + 8) (drop k ?buf)\<rparr>)"
    using assms b by (intro send_loop_two) simp_all
  then show ?thesis using assms unfolding t by (simp add: client_OnWrite_def Let_def u del: of_nat_add)
qed

lemma client_OnWrite_whole:
  assumes "length d + 8 \<le> CLIENT_MAX"
  shows "client_OnWrite ty d (replicate m \<lparr>iLen = -1, again = True\<rparr> @ [\<lparr>iLen = int (length d + 8), again = b\<rparr>]) c =
    Inr (c\<lparr>on_wire := on_wire c @ wire_frame ty d\<rparr>)"
proof -
  let ?buf = "le32 (of_nat (length d + 8)) @ le32 ty @ d @ replicate (CLIENT_MAX - (length d + 8)) 0"
  have "send_loop buf n 0 (replicate m \<lparr>iLen = -1, again = True\<rparr> @ [\<lparr>iLen = int n, again = b\<rparr>]) c =
    Inr (c\<lparr>on_wire := on_wire c @ take n buf\<rparr>)" if "0 < n" "n \<le> length buf" for buf n
    using that by (induction m) (simp_all add: Let_def)
  moreover have "unat (of_nat (length d + 8) :: u32) = length d + 8"
    using assms by (simp add: unat_of_nat CLIENT_MAX_def del: of_nat_add)
  ultimately show ?thesis using assms client_frame [OF assms, of "length d + 8" ty]
    by (simp add: client_OnWrite_def Let_def del: of_nat_add)
qed

section \<open>How the server takes it\<close>

text \<open>With zero bytes behind the frame the server never handles it, nor anything the client sends
  later; without them it handles the frame.\<close>

lemma client_to_server:
  assumes c: "client_OnWrite ty d as client_new = Inr c'" "has_event c'" and f: "acceptable ty d"
    and u: "sess w s = Some u" "thread u = Some t" "inbuf u = []" "\<not> got_head (buf_info u)"
  shows "if length (on_wire c') = length d + 8 then receive E s (on_wire c') w = handle_frame E t s ty d u w
    else \<exists>u'. for_each (receive E s) (on_wire c' # later) w = Some (w\<lparr>sess := (sess w)(s \<mapsto> u')\<rparr>) \<and>
      inbuf u' = on_wire c' @ concat later"
proof -
  obtain k where k: "on_wire c' = wire_frame ty d @ replicate k 0"
    using client_OnWrite_sent [OF c] by (auto simp: client_new_def)
  have n: "length (wire_frame ty d) = length d + 8" using length_frame [OF f] by (simp add: DATA_HEAD_LENGTH_def)
  show ?thesis
  proof (cases "k = 0")
    case True
    have "pending (wire_frame ty d) [] u" using u by (simp add: pending_def)
    then have "receive E s (wire_frame ty d) w = handle_frame E t s ty d u w"
      using receive_last [OF f refl _ u(1,2)] by simp
    then show ?thesis using True k n by simp
  next
    case False
    then have "replicate k (0 :: u8) \<noteq> []" by simp
    from receive_two [OF f refl this u] obtain v where
      v: "receive E s (on_wire c') w = Some (w\<lparr>sess := (sess w)(s \<mapsto> v)\<rparr>)" "overrun v" "thread v = Some t"
      "inbuf v = on_wire c'" unfolding k by blast
    have "sess (w\<lparr>sess := (sess w)(s \<mapsto> v)\<rparr>) s = Some v" by simp
    from feed_overrun [OF this v(3,2)] show ?thesis using v False k n by (auto simp: fun_upd_upd)
  qed
qed

section \<open>What is read\<close>

text \<open>\<open>a\<close> has arrived of the frame \<open>f\<close>.\<close>

definition reader_at :: "bytes \<Rightarrow> bytes \<Rightarrow> reader" where
  "reader_at f a =
     (let t = (if 8 \<le> length a then get_le32 0 f else of_nat CLIENT_MAX)
      in \<lparr>rd_buf = a, leftLen = t - of_nat (length a), totalSize = t, gotHead = (8 \<le> length a),
        head_type = (if 8 \<le> length a then get_le32 4 f else 0)\<rparr>)"

lemma reader_at_new: "reader_new = reader_at f []"
  by (simp add: reader_new_def reader_at_def Let_def)

lemma reader_at_simps [simp]:
  "rd_buf (reader_at f a) = a" "gotHead (reader_at f a) \<longleftrightarrow> 8 \<le> length a"
  "totalSize (reader_at f a) = (if 8 \<le> length a then get_le32 0 f else of_nat CLIENT_MAX)"
  "8 \<le> length a \<Longrightarrow> head_type (reader_at f a) = get_le32 4 f"
  "leftLen (reader_at f a) = totalSize (reader_at f a) - of_nat (length a)"
  by (simp_all add: reader_at_def Let_def)

lemma take_piece_at: "f = (a @ b) @ r \<Longrightarrow> take_piece b (reader_at f a) = reader_at f (a @ b)"
  using get_le32_prefix [of 0 "a @ b" r] get_le32_prefix [of 4 "a @ b" r]
  by (auto simp: take_piece_def reader_at_def Let_def)

lemma client_room:
  assumes "length f \<le> CLIENT_MAX" "unat (get_le32 0 f) = length f" "f = a @ r"
  shows "unat (totalSize (reader_at f a)) \<ge> length f" "unat (leftLen (reader_at f a)) \<ge> length r"
proof -
  have c: "unat (of_nat CLIENT_MAX :: u32) = CLIENT_MAX" by (simp add: CLIENT_MAX_def)
  let ?t = "totalSize (reader_at f a)"
  show t: "unat ?t \<ge> length f" using assms c by simp
  have "length a < 2 ^ 32" using assms by (simp add: CLIENT_MAX_def)
  then have a: "unat (of_nat (length a) :: u32) = length a" by (simp add: unat_of_nat)
  then have "(of_nat (length a) :: u32) \<le> ?t" using t assms(3) by (simp add: word_le_nat_alt)
  then have "unat (?t - of_nat (length a)) = unat ?t - length a" using a by (simp add: unat_sub)
  then show "unat (leftLen (reader_at f a)) \<ge> length r" using t assms(3) by simp
qed

lemma read_loop_piece:
  assumes "in_kernel c = []" "b \<noteq> []" "length (rd_buf rd) < unat (totalSize rd)"
    and "length b \<le> unat (leftLen rd)" "length (rd_buf rd) + length b \<le> CLIENT_MAX"
  shows "read_loop (\<lparr>fresh = b, idle_again = i\<rparr> # as) rd c = read_loop as (take_piece b rd) c"
proof -
  have e: "c\<lparr>in_kernel := []\<rparr> = c" using assms(1) by (cases c) simp
  have "0 < unat (leftLen rd)" using assms(2,4) by (cases b) auto
  then show ?thesis using assms by (simp add: Let_def e)
qed

text \<open>A frame is read whole, whatever pieces it arrives in.\<close>

lemma read_pieces:
  assumes f: "length f \<le> CLIENT_MAX" "unat (get_le32 0 f) = length f" "8 \<le> length f"
    and "f = a @ concat bs" "[] \<notin> set bs" "in_kernel c = []"
  shows "read_loop (map (\<lambda>b. \<lparr>fresh = b, idle_again = i\<rparr>) bs) (reader_at f a) c = Inr (Some (reader_at f f), c)"
  using assms(4-)
proof (induction bs arbitrary: a)
  case Nil
  then have "a = f" by simp
  then show ?case using f by simp
next
  case (Cons b bs)
  then have "0 < length b" by auto
  then have "length a < length f" using Cons.prems(1) by (simp del: length_greater_0_conv)
  note l = less_le_trans [OF this client_room(1) [OF f(1,2) Cons.prems(1)]]
  have "read_loop (map (\<lambda>b. \<lparr>fresh = b, idle_again = i\<rparr>) (b # bs)) (reader_at f a) c =
    read_loop (map (\<lambda>b. \<lparr>fresh = b, idle_again = i\<rparr>) bs) (take_piece b (reader_at f a)) c"
    unfolding list.map
  proof (rule read_loop_piece)
    show "length b \<le> unat (leftLen (reader_at f a))" using client_room(2) [OF f(1,2) Cons.prems(1)]
      by (simp del: reader_at_simps(3-))
  qed (use l Cons.prems f(1) in auto)
  also have "take_piece b (reader_at f a) = reader_at f (a @ b)"
    by (rule take_piece_at [of _ _ _ "concat bs"]) (simp add: Cons.prems(1))
  finally show ?case using Cons.IH [of "a @ b"] Cons.prems by simp
qed

text \<open>Then its users are printed and the client answers; a frame that fills the array has no place for
  the zero byte.\<close>

definition answered :: "user_lib \<Rightarrow> u32 \<Rightarrow> bytes \<Rightarrow> client \<Rightarrow> client" where
  "answered U ty d c = say (L_message ty (of_nat (length d + 8)) #
     (case users_parse U d of None \<Rightarrow> [] | Some us \<Rightarrow> concat (map show_person us))) c"

lemma client_frame_head:
  assumes "length d + 8 \<le> CLIENT_MAX"
  shows "length (wire_frame ty d) = length d + 8" "get_le32 0 (wire_frame ty d) = of_nat (length d + 8)"
    "unat (get_le32 0 (wire_frame ty d)) = length d + 8" "get_le32 4 (wire_frame ty d) = ty" "drop 8 (wire_frame ty d) = d"
proof -
  have f: "frame_fits d" using assms by (simp add: frame_fits_def CLIENT_MAX_def DATA_HEAD_LENGTH_def)
  show l: "length (wire_frame ty d) = length d + 8" by (simp add: wire_frame_eq [OF f] DATA_HEAD_LENGTH_def)
  show "get_le32 0 (wire_frame ty d) = of_nat (length d + 8)"
    by (simp add: wire_frame_eq [OF f] get_le32_le32 DATA_HEAD_LENGTH_def)
  show "unat (get_le32 0 (wire_frame ty d)) = length d + 8" using wf.enc_size [OF f] l by simp
  show "get_le32 4 (wire_frame ty d) = ty" by (rule wf.enc_type [OF f])
  show "drop 8 (wire_frame ty d) = d" using wf.enc_body [OF f] by (simp add: DATA_HEAD_LENGTH_def)
qed

lemma onRead_frame:
  assumes d: "length d + 8 \<le> CLIENT_MAX" and b: "wire_frame ty d = concat bs" "[] \<notin> set bs" and c: "in_kernel c = []"
  shows "onRead U (map (\<lambda>b. \<lparr>fresh = b, idle_again = i\<rparr>) bs) ss c =
    (if length d + 8 = CLIENT_MAX then Inl Crash else constructMsg U ss (answered U ty d c))"
proof -
  note h = client_frame_head [OF d, of ty]
  have "read_loop (map (\<lambda>b. \<lparr>fresh = b, idle_again = i\<rparr>) bs) reader_new c =
    Inr (Some (reader_at (wire_frame ty d) (wire_frame ty d)), c)"
    unfolding reader_at_new [of "wire_frame ty d"] by (rule read_pieces) (use d b c h in simp_all)
  then show ?thesis using d h
    by (auto simp: onRead_def answered_def say_def Let_def unat_of_nat CLIENT_MAX_def simp del: of_nat_add split: option.split)
qed

text \<open>What arrives behind a frame together with it is thrown away.\<close>

lemma onRead_swallows:
  assumes d: "length d + 8 + length r < CLIENT_MAX" and c: "in_kernel c = []"
  shows "onRead U [\<lparr>fresh = wire_frame ty d @ r, idle_again = i\<rparr>] ss c = constructMsg U ss (answered U ty d c)"
proof -
  have l: "length d + 8 \<le> CLIENT_MAX" using d by simp
  note h = client_frame_head [OF l, of ty]
  let ?in = "wire_frame ty d @ r"
  have g: "get_le32 0 ?in = get_le32 0 (wire_frame ty d)" "get_le32 4 ?in = ty"
    using h by (simp_all add: get_le32_prefix)
  have "read_loop [\<lparr>fresh = ?in, idle_again = i\<rparr>] reader_new c = read_loop [] (take_piece ?in reader_new) c"
    by (rule read_loop_piece) (use d c h in \<open>auto simp: reader_new_def CLIENT_MAX_def\<close>)
  moreover have "rd_buf (take_piece ?in reader_new) = ?in" "totalSize (take_piece ?in reader_new) = of_nat (length d + 8)"
    "head_type (take_piece ?in reader_new) = ty"
    using h g by (simp_all add: take_piece_def reader_new_def Let_def)
  ultimately show ?thesis using d h
    by (auto simp: onRead_def answered_def say_def Let_def unat_of_nat CLIENT_MAX_def simp del: of_nat_add split: option.split)
qed

text \<open>Frames the client does not survive: the size that the server gives is not checked. A frame of the
  server that does not fit the array is written past its end, and a size below that of the header makes the
  string's length wrap.\<close>

lemma read_loop_first:
  assumes "in_kernel c = []" "8 \<le> length bs"
  shows "read_loop (\<lparr>fresh = bs, idle_again = i\<rparr> # as) reader_new c =
    read_loop as (take_piece (take CLIENT_MAX bs) reader_new) (c\<lparr>in_kernel := drop CLIENT_MAX bs\<rparr>)"
  using assms by (auto simp: reader_new_def Let_def CLIENT_MAX_def)

lemma take_piece_new:
  assumes "8 \<le> length bs"
  shows "take_piece bs reader_new = \<lparr>rd_buf = bs, leftLen = get_le32 0 bs - of_nat (length bs), totalSize = get_le32 0 bs,
    gotHead = True, head_type = get_le32 4 bs\<rparr>"
  using assms by (simp add: take_piece_def reader_new_def Let_def)

lemma onRead_too_long:
  assumes d: "CLIENT_MAX \<le> length d + 8" "frame_fits d" and c: "in_kernel c = []"
  shows "onRead U (\<lparr>fresh = wire_frame ty d, idle_again = i\<rparr> # \<lparr>fresh = [], idle_again = j\<rparr> # rs) ss c = Inl Crash"
proof -
  let ?f = "wire_frame ty d" and ?b = "take CLIENT_MAX (wire_frame ty d)"
  have l: "length ?f = length d + 8" by (simp add: wire_frame_eq [OF d(2)] DATA_HEAD_LENGTH_def)
  then have b: "length ?b = CLIENT_MAX" "8 \<le> length ?b" using d(1) by (simp_all add: CLIENT_MAX_def)
  have t: "unat (get_le32 0 ?b) = length d + 8"
    using wf.enc_size [OF d(2), of ty] get_le32_prefix [of 0 ?b "drop CLIENT_MAX ?f"] b l by simp
  have first: "read_loop (\<lparr>fresh = ?f, idle_again = i\<rparr> # as) reader_new c =
      read_loop as (take_piece ?b reader_new) (c\<lparr>in_kernel := drop CLIENT_MAX ?f\<rparr>)" for as
    by (rule read_loop_first) (use c l in simp_all)
  show ?thesis
  proof (cases "length d + 8 = CLIENT_MAX")
    case True
    then show ?thesis unfolding onRead_def first take_piece_new [OF b(2)] using t b by simp
  next
    case False
    then have r: "0 < length d + 8 - CLIENT_MAX" using d(1) by simp
    have "(of_nat CLIENT_MAX :: u32) \<le> get_le32 0 ?b"
      using t d(1) by (simp add: word_le_nat_alt unat_of_nat CLIENT_MAX_def)
    then have "unat (get_le32 0 ?b - of_nat CLIENT_MAX) = length d + 8 - CLIENT_MAX"
      using t by (simp add: unat_sub unat_of_nat CLIENT_MAX_def)
    then show ?thesis unfolding onRead_def first take_piece_new [OF b(2)] using t b r l False
      by (simp add: Let_def)
  qed
qed

lemma onRead_too_short:
  assumes "8 \<le> length bs" "length bs < CLIENT_MAX" "unat (get_le32 0 bs) < 8" "in_kernel c = []"
  shows "onRead U (\<lparr>fresh = bs, idle_again = i\<rparr> # rs) ss c = Inl Crash"
proof -
  have "read_loop (\<lparr>fresh = bs, idle_again = i\<rparr> # rs) reader_new c =
      read_loop rs (take_piece bs reader_new) (c\<lparr>in_kernel := []\<rparr>)"
    using read_loop_first [OF assms(4,1)] assms(2) by simp
  also have "\<dots> = Inr (Some (take_piece bs reader_new), c\<lparr>in_kernel := []\<rparr>)"
    using assms by (cases rs) (simp_all add: take_piece_new)
  finally show ?thesis using assms by (simp add: onRead_def take_piece_new)
qed

section \<open>The way out\<close>

lemma client_OnWrite_ok: "client_OnWrite ty d as c = Inr c' \<Longrightarrow> client_ok c \<Longrightarrow> client_ok c'"
  by (auto simp: client_OnWrite_def Let_def split: if_splits dest: send_loop_ok)

lemma read_loop_ok: "read_loop as rd c = Inr (r, c') \<Longrightarrow> client_ok c \<Longrightarrow> client_ok c' \<and> (r = None \<longrightarrow> \<not> has_event c')"
proof (induction as arbitrary: rd c)
  case (Cons a as)
  have k: "client_ok (c\<lparr>in_kernel := x\<rparr>)" for x using Cons.prems(2) by (simp add: client_ok_def)
  show ?case using Cons.prems(1) Cons.IH [OF _ k] Cons.prems(2) net_gone_ok [OF _ k]
    by (auto simp: Let_def split: if_splits sum.splits)
qed (auto split: if_splits)

lemma onRead_ok:
  assumes "onRead U rs ss c = Inr c'" "client_ok c"
  shows "client_ok c'"
proof -
  have s: "client_ok x \<Longrightarrow> client_ok (say ls x)" for ls x by (simp add: client_ok_def say_def)
  show ?thesis using assms
    by (auto simp: onRead_def constructMsg_def Let_def split: sum.splits option.splits if_splits prod.splits
        dest!: read_loop_ok intro!: s elim!: client_OnWrite_ok)
qed

lemma dispatch_ok: "dispatch U calls c = Inr c' \<Longrightarrow> client_ok c \<Longrightarrow> client_ok c' \<and> \<not> has_event c'"
  by (induction U calls c rule: dispatch.induct) (auto split: if_splits sum.splits dest: onRead_ok)

text \<open>When the client ends with exit code 0, the connection had ended before, which closed the
  descriptor; \<open>main\<close> closes the same number once more. The other exits are before there is a connection.\<close>

lemma client_main_ends:
  assumes "client_main U host sockfd connect_rc first calls = Inr (code, c)"
  shows "code = 0 \<and> closes c = 2 \<and> host \<and> sockfd \<noteq> -1 \<and> connect_rc \<noteq> -1 \<or>
    code = 1 \<and> closes c = 0 \<and> on_wire c = [] \<and> \<not> (host \<and> sockfd \<noteq> -1 \<and> connect_rc \<noteq> -1)"
proof -
  have "client_ok client_new" by (simp add: client_ok_def client_new_def)
  then have n: "constructMsg U first client_new = Inr c1 \<Longrightarrow> client_ok c1" for c1
    unfolding constructMsg_def using client_OnWrite_ok by blast
  have "dispatch U calls c1 = Inr c2 \<Longrightarrow> client_ok c1 \<Longrightarrow> closes c2 = 1" for c1 c2
    using dispatch_ok [of U calls c1 c2] by (auto simp: client_ok_def)
  then show ?thesis using assms n
    by (force simp: client_main_def say_def client_new_def Let_def split: if_splits sum.splits)
qed

text \<open>A whole run: the users are sent, an answer is read in pieces and printed, the users are sent
  again, and the server closes.\<close>

lemma client_main_run:
  fixes U :: user_lib
  defines "d \<equiv> users_ser U [stern, stern]"
  defines "taken \<equiv> [\<lparr>iLen = int (length d + 8), again = False\<rparr>]"
  assumes "length d + 8 \<le> CLIENT_MAX" "length r + 8 < CLIENT_MAX" "wire_frame ty r = concat bs" "[] \<notin> set bs" "0 \<le> sockfd"
  shows "client_main U True sockfd 0 taken [(map (\<lambda>b. \<lparr>fresh = b, idle_again = False\<rparr>) bs, taken), ([\<lparr>fresh = [], idle_again = False\<rparr>], [])] =
    Inr (0, \<lparr>has_event = False, closes = 2, in_kernel = [], on_wire = wire_frame 1 d @ wire_frame 1 d,
      screen = screen (answered U ty r client_new) @ [L_server_close]\<rparr>)"
proof -
  have w: "constructMsg U taken c = Inr (c\<lparr>on_wire := on_wire c @ wire_frame 1 d\<rparr>)" for c
    using client_OnWrite_whole [OF assms(3), of 1 0] by (simp add: constructMsg_def taken_def d_def)
  have r: "onRead U (map (\<lambda>b. \<lparr>fresh = b, idle_again = False\<rparr>) bs) taken c = constructMsg U taken (answered U ty r c)"
    if "in_kernel c = []" for c
    using onRead_frame [OF _ assms(5,6) that] assms(4) by simp
  have e: "onRead U [\<lparr>fresh = [], idle_again = False\<rparr>] [] c =
      Inr (say [L_server_close] (c\<lparr>has_event := False, closes := Suc (closes c)\<rparr>))"
    if "in_kernel c = []" "has_event c" for c
    using that by (cases c) (simp add: onRead_def reader_new_def net_gone_def say_def CLIENT_MAX_def)
  show ?thesis using assms(7)
    by (simp add: client_main_def w r e client_new_def answered_def say_def del: reader_at_simps)
qed

end
