(* ===== verification/Timer_Demo.thy ===== *)
theory Timer_Demo
  imports Timer_Run
begin

text \<open>
  The two programs that exercise the timer library, libtimer/main.c (a thousand timers, one of them removed) and
  libtimer/main2.c (a timer whose handler sets it again). Each calls the library in between the turns of
  the library's own threads, which are given for each call; a handler reads the program's array when it is called.
\<close>

section \<open>State\<close>

record timer_struct =
  ts_id :: int
  ts_sec :: int
  ts_usec :: int

datatype demo_fun = Timer_test | Timer_test2

text \<open>What is printed, without the times of day.\<close>

datatype demo_line = P_timer int int int | P_test | P_added int int | P_over

record timer_demo =
  t_arr :: "timer_struct list"
  lib_of :: "(demo_fun, nat) lib_run"
  t_out :: "demo_line list"

definition demo_start :: "nat \<Rightarrow> timer_demo" where
  "demo_start n = \<lparr>t_arr = replicate n \<lparr>ts_id = 0, ts_sec = 0, ts_usec = 0\<rparr>, lib_of = (timer_init, None, []), t_out = []\<rparr>"

text \<open>A call of the library: how its request fares, the time, and what the threads of the library do before
  the request is served and between that and the answer.\<close>

record lib_call =
  c_link :: link
  c_mem :: bool
  c_now :: timeval
  c_before :: "(demo_fun, nat) event list"
  c_after :: "(demo_fun, nat) event list"

section \<open>main.c\<close>

definition MAX_SIZE :: nat where "MAX_SIZE = 1000"

text \<open>\<open>timer_test\<close> and \<open>timer_test2\<close>; the argument of the first is a place of the array.\<close>

fun handler_prints :: "timer_struct list \<Rightarrow> demo_fun \<times> nat option \<Rightarrow> demo_line list option" where
  "handler_prints ts (Timer_test, None) = None"
| "handler_prints ts (Timer_test, Some i) =
     (if i < length ts then Some [P_timer (ts_id (ts ! i)) (ts_sec (ts ! i)) (ts_usec (ts ! i))] else None)"
| "handler_prints ts (Timer_test2, x) = Some [P_test]"

fun all_print :: "timer_struct list \<Rightarrow> (demo_fun \<times> nat option) list \<Rightarrow> demo_line list option" where
  "all_print ts [] = Some []"
| "all_print ts (c # cs) = do { p \<leftarrow> handler_prints ts c; ps \<leftarrow> all_print ts cs; Some (p @ ps) }"

fun demo_turns :: "(demo_fun, nat) event list \<Rightarrow> timer_demo \<Rightarrow> timer_demo option" where
  "demo_turns [] d = Some d"
| "demo_turns (e # es) d = do {
     l \<leftarrow> timer_event e (lib_of d);
     ps \<leftarrow> all_print (t_arr d) (drop (length (snd (snd (lib_of d)))) (snd (snd l)));
     demo_turns es (d\<lparr>lib_of := l, t_out := t_out d @ ps\<rparr>) }"

definition on_lib :: "((demo_fun, nat) timerlib \<Rightarrow> ('x \<times> (demo_fun, nat) timerlib) option) \<Rightarrow> timer_demo \<Rightarrow> ('x \<times> timer_demo) option" where
  "on_lib f d = (case lib_of d of (st, r, calls) \<Rightarrow> do { (x, st) \<leftarrow> f st; Some (x, d\<lparr>lib_of := (st, r, calls)\<rparr>) })"

definition demo_add :: "lib_call \<Rightarrow> int \<Rightarrow> int \<Rightarrow> demo_fun \<Rightarrow> nat option \<Rightarrow> timer_demo \<Rightarrow> (int \<times> timer_demo) option" where
  "demo_add c sec usec h x d = do {
     d \<leftarrow> demo_turns (c_before c) d;
     (i, d) \<leftarrow> on_lib (timer_add (c_link c) (c_mem c) (c_now c) sec usec (Some h) x) d;
     d \<leftarrow> demo_turns (c_after c) d;
     Some (i, d) }"

definition demo_rem :: "lib_call \<Rightarrow> u32 \<Rightarrow> timer_demo \<Rightarrow> timer_demo option" where
  "demo_rem c i d = do {
     d \<leftarrow> demo_turns (c_before c) d;
     (_, d) \<leftarrow> on_lib (\<lambda>st. map_option (Pair ()) (timer_rem (c_link c) (c_mem c) (c_now c) i None st)) d;
     demo_turns (c_after c) d }"

text \<open>The loop over the array; \<open>n\<close> turns are left.\<close>

fun demo_fill :: "(nat \<Rightarrow> lib_call) \<Rightarrow> nat \<Rightarrow> nat \<Rightarrow> timer_demo \<Rightarrow> timer_demo option" where
  "demo_fill C 0 i d = Some d"
| "demo_fill C (Suc n) i d = do {
     let d = d\<lparr>t_arr := (t_arr d)[i := (t_arr d ! i)\<lparr>ts_sec := 2, ts_usec := int i * 100\<rparr>]\<rparr>;
     (k, d) \<leftarrow> demo_add (C i) (ts_sec (t_arr d ! i)) 0 Timer_test (Some i) d;
     let d = d\<lparr>t_arr := (t_arr d)[i := (t_arr d ! i)\<lparr>ts_id := k\<rparr>]\<rparr>;
     demo_fill C n (i + 1) (d\<lparr>t_out := t_out d @ [P_added k (ts_sec (t_arr d ! i))]\<rparr>) }"

text \<open>The turns during \<open>sleep(22)\<close> are those before the last call, \<open>es\<close> those during the last \<open>sleep\<close>.\<close>

definition timers_main :: "(nat \<Rightarrow> lib_call) \<Rightarrow> (demo_fun, nat) event list \<Rightarrow> (int \<times> timer_demo) option" where
  "timers_main C es = do {
     d \<leftarrow> demo_fill C (MAX_SIZE - 2) 0 (demo_start MAX_SIZE);
     d \<leftarrow> demo_rem (C (MAX_SIZE - 2)) 7 d;
     (_, d) \<leftarrow> demo_add (C (MAX_SIZE - 1)) 7 0 Timer_test2 None d;
     d \<leftarrow> demo_turns es d;
     Some (0, d\<lparr>t_out := t_out d @ [P_over]\<rparr>) }"

section \<open>main2.c\<close>

text \<open>The handler prints and then sets its own timer again, within the turn \<open>Take\<close> of the thread of
  expired timers; each turn comes with the fate of that request.\<close>

type_synonym again_turn = "(demo_fun, nat) event \<times> link \<times> bool \<times> timeval"

fun again_calls :: "link \<Rightarrow> bool \<Rightarrow> timeval \<Rightarrow> (demo_fun \<times> nat option) list \<Rightarrow> timer_demo \<Rightarrow> timer_demo option" where
  "again_calls lk mem now [] d = Some d"
| "again_calls lk mem now ((h, x) # cs) d = do {
     i \<leftarrow> x;
     ps \<leftarrow> handler_prints (t_arr d) (h, Some i);
     let d = d\<lparr>t_out := t_out d @ ps\<rparr>;
     (k, d) \<leftarrow> on_lib (timer_add lk mem now (ts_sec (t_arr d ! i)) 0 (Some Timer_test) (Some i)) d;
     again_calls lk mem now cs (d\<lparr>t_arr := (t_arr d)[i := (t_arr d ! i)\<lparr>ts_id := k\<rparr>]\<rparr>) }"

fun again_turns :: "again_turn list \<Rightarrow> timer_demo \<Rightarrow> timer_demo option" where
  "again_turns [] d = Some d"
| "again_turns ((e, lk, mem, now) # es) d = do {
     l \<leftarrow> timer_event e (lib_of d);
     d' \<leftarrow> again_calls lk mem now (drop (length (snd (snd (lib_of d)))) (snd (snd l))) (d\<lparr>lib_of := l\<rparr>);
     again_turns es d' }"

text \<open>\<open>es1\<close> are the turns before \<open>main\<close> has the identifier, \<open>es2\<close> those of its long \<open>sleep\<close>.\<close>

definition again_main :: "link \<Rightarrow> bool \<Rightarrow> timeval \<Rightarrow> again_turn list \<Rightarrow> again_turn list \<Rightarrow> (int \<times> timer_demo) option" where
  "again_main lk mem now es1 es2 = do {
     let d = demo_start 300;
     let d = d\<lparr>t_arr := (t_arr d)[0 := (t_arr d ! 0)\<lparr>ts_sec := 2\<rparr>]\<rparr>;
     (k, d) \<leftarrow> on_lib (timer_add lk mem now (ts_sec (t_arr d ! 0)) 0 (Some Timer_test) (Some 0)) d;
     d \<leftarrow> again_turns es1 d;
     d \<leftarrow> again_turns es2 (d\<lparr>t_arr := (t_arr d)[0 := (t_arr d ! 0)\<lparr>ts_id := k\<rparr>]\<rparr>);
     Some (0, d) }"

section \<open>Turns without requests\<close>

text \<open>Only the programs themselves send requests.\<close>

fun idle_event :: "('h, 'a) event \<Rightarrow> bool" where
  "idle_event (Turn mem created now (Request msg)) = False"
| "idle_event e = True"

lemma idle_proper: "idle_event e \<Longrightarrow> proper e"
  by (cases e rule: idle_event.cases) (simp_all add: served_def)

lemma idle_requested: "idle_event e \<Longrightarrow> requested e = []"
  by (cases e rule: idle_event.cases) simp_all

lemma idle_next: "idle_event e \<Longrightarrow> next_timer (fst (spec_event e t)) = next_timer (fst t)"
  by (cases t; cases e rule: idle_event.cases)
    (auto simp: spec_turn_def spec_expire_def spec_run_def split: list.splits)

section \<open>Calls are printed\<close>

definition printable :: "nat \<Rightarrow> demo_fun option \<times> nat option \<Rightarrow> bool" where
  "printable m c \<longleftrightarrow> (case c of (Some Timer_test, x) \<Rightarrow> \<exists>i < m. x = Some i | (Some Timer_test2, x) \<Rightarrow> True | _ \<Rightarrow> False)"

lemma handler_prints_some: "printable (length ts) (Some h, x) \<Longrightarrow> \<exists>ps. handler_prints ts (h, x) = Some ps"
  by (cases h; cases x) (auto simp: printable_def)

lemma all_print_some: "\<forall>(h, x) \<in> set cs. printable (length ts) (Some h, x) \<Longrightarrow> \<exists>ps. all_print ts cs = Some ps"
proof (induction cs)
  case (Cons c cs)
  then obtain ps where "all_print ts cs = Some ps" by auto
  moreover obtain p where "handler_prints ts c = Some p"
    using Cons.prems handler_prints_some [of ts "fst c" "snd c"] by (cases c) auto
  ultimately show ?case by simp
qed simp

text \<open>\<open>N\<close> are the calls that were asked for, \<open>k\<close> is the next identifier.\<close>

definition demo_inv :: "nat \<Rightarrow> (demo_fun option \<times> nat option) multiset \<Rightarrow> nat \<Rightarrow> timer_demo \<Rightarrow> bool" where
  "demo_inv m N k d \<longleftrightarrow> length (t_arr d) = m \<and> (\<forall>c \<in># N. printable m c) \<and>
     (\<exists>t. run_matches (lib_of d) t \<and> due_callable t \<and> outstanding t \<subseteq># N \<and> next_timer (fst t) = of_nat k)"

lemma demo_invE:
  assumes "demo_inv m N k d"
  obtains st r calls a where "lib_of d = (st, r, calls)" "implements (set_option r) st a"
    "due_callable (a, r \<noteq> None, calls)" "outstanding (a, r \<noteq> None, calls) \<subseteq># N" "next_timer a = of_nat k"
    "length (t_arr d) = m" "\<forall>c \<in># N. printable m c"
  using assms by (cases "lib_of d") (auto simp: demo_inv_def run_matches_def)

lemma demo_invI:
  assumes "implements (set_option r) st a" "due_callable (a, r \<noteq> None, calls)" "outstanding (a, r \<noteq> None, calls) \<subseteq># N"
    and "next_timer a = of_nat k" "length (t_arr d) = m" "\<forall>c \<in># N. printable m c"
  shows "demo_inv m N k (d\<lparr>lib_of := (st, r, calls)\<rparr>)"
  unfolding demo_inv_def using assms by (auto simp: run_matches_def intro!: exI [of _ "(a, r \<noteq> None, calls)"])

lemma outstanding_calls: "c \<in> set (snd (snd t)) \<Longrightarrow> (Some (fst c), snd c) \<in># outstanding t"
  by (cases t; cases c) (force simp: outstanding_def)

lemma demo_turn:
  assumes "demo_inv m N k d" "idle_event e"
  shows "\<exists>d'. demo_turns [e] d = Some d' \<and> demo_inv m N k d' \<and> t_arr d' = t_arr d"
proof -
  obtain t where t: "run_matches (lib_of d) t" "due_callable t" "outstanding t \<subseteq># N" "next_timer (fst t) = of_nat k"
    and m: "length (t_arr d) = m" and N: "\<forall>c \<in># N. printable m c" using assms(1) by (auto simp: demo_inv_def)
  obtain l where l: "timer_event e (lib_of d) = Some l" "run_matches l (spec_event e t)"
    using event_matches [OF t(1) idle_proper [OF assms(2)]] by blast
  have o: "due_callable (spec_event e t)" "outstanding (spec_event e t) \<subseteq># N"
    using event_outstanding [OF t(2), of e] idle_requested [OF assms(2)] t(3) by (auto intro: subset_mset.order_trans)
  have "snd (snd l) = snd (snd (spec_event e t))" using l(2) by (auto simp: run_matches_def split: prod.splits)
  then have "\<forall>(h, x) \<in> set (snd (snd l)). printable m (Some h, x)"
    using outstanding_calls [of _ "spec_event e t"] mset_subset_eqD [OF o(2)] N by fastforce
  then have "\<forall>(h, x) \<in> set (drop (length (snd (snd (lib_of d)))) (snd (snd l))). printable (length (t_arr d)) (Some h, x)"
    unfolding m by (meson in_set_dropD)
  from all_print_some [OF this] obtain ps where
    "all_print (t_arr d) (drop (length (snd (snd (lib_of d)))) (snd (snd l))) = Some ps" by blast
  moreover have "demo_inv m N k (d\<lparr>lib_of := l, t_out := t_out d @ ps\<rparr>)" for ps
    using l(2) o t(4) m N idle_next [OF assms(2), of t] unfolding demo_inv_def by fastforce
  ultimately show ?thesis using l(1) by simp
qed

lemma demo_turns_inv:
  "demo_inv m N k d \<Longrightarrow> list_all idle_event es \<Longrightarrow> \<exists>d'. demo_turns es d = Some d' \<and> demo_inv m N k d' \<and> t_arr d' = t_arr d"
proof (induction es arbitrary: d)
  case (Cons e es)
  have e: "idle_event e" "list_all idle_event es" using Cons.prems(2) by simp_all
  obtain d1 where d1: "demo_turns [e] d = Some d1" "demo_inv m N k d1" "t_arr d1 = t_arr d"
    using demo_turn [OF Cons.prems(1) e(1)] by blast
  obtain d2 where "demo_turns es d1 = Some d2" "demo_inv m N k d2" "t_arr d2 = t_arr d1"
    using Cons.IH [OF d1(2) e(2)] by blast
  then show ?case using d1 by (auto split: bind_splits)
qed simp

section \<open>Requests\<close>

lemma small_id:
  assumes "k < 2 ^ 31"
  shows "sint (of_nat k :: u32) = int k" "(of_nat k :: u32) \<noteq> -1" "new_id (of_nat k) = of_nat k"
proof -
  have "signed_take_bit 31 (int k) = int k" using assms by (simp add: signed_take_bit_int_eq_self_iff)
  then show i: "sint (of_nat k :: u32) = int k" by (simp add: signed_of_nat)
  then show n: "(of_nat k :: u32) \<noteq> -1" by (metis of_nat_0_le_iff sint_n1 neg_0_le_iff_le not_one_le_zero)
  then show "new_id (of_nat k) = of_nat k" by (simp add: new_id_def)
qed

lemma outstanding_add: "outstanding (spec_add now d h x a, b, calls) = add_mset (h, x) (outstanding (a, b, calls))"
  by (simp add: outstanding_def spec_add_def mset_enqueue)

lemma on_lib_add:
  assumes "demo_inv m N k d" "\<not> in_past (Timeval sec usec)" "k < 2 ^ 31" "printable m (Some h, x)"
  shows "\<exists>d'. on_lib (timer_add Answered True now sec usec (Some h) x) d = Some (int k, d') \<and>
    demo_inv m (add_mset (Some h, x) N) (k + 1) d' \<and> t_arr d' = t_arr d"
  using assms(1)
proof (rule demo_invE)
  fix st r calls a
  assume l: "lib_of d = (st, r, calls)" and i: "implements (set_option r) st a"
    and t: "due_callable (a, r \<noteq> None, calls)" "outstanding (a, r \<noteq> None, calls) \<subseteq># N" "next_timer a = of_nat k"
    and m: "length (t_arr d) = m" "\<forall>c \<in># N. printable m c"
  let ?a = "spec_add now (Timeval sec usec) (Some h) x a"
  from timer_add_implements [OF i assms(2), of now h x] obtain st' where
    st': "timer_add Answered True now sec usec (Some h) x st = Some (int k, st')" "implements (set_option r) st' ?a"
    by (auto simp: t(3) small_id [OF assms(3)])
  have "next_timer ?a = of_nat (k + 1)" by (simp add: spec_add_def t(3) small_id [OF assms(3)])
  moreover have "due_callable (?a, r \<noteq> None, calls)" using t(1) by (simp add: due_callable_def spec_add_def)
  ultimately have "demo_inv m (add_mset (Some h, x) N) (k + 1) (d\<lparr>lib_of := (st', r, calls)\<rparr>)"
    by (intro demo_invI [OF st'(2)]) (use t(2) m assms(4) in \<open>simp_all add: outstanding_add\<close>)
  then show ?thesis using st'(1) by (auto simp: on_lib_def l)
qed

lemma demo_add_inv:
  assumes "demo_inv m N k d" "\<not> in_past (Timeval sec usec)" "k < 2 ^ 31" "printable m (Some h, x)"
    and "c_link c = Answered" "c_mem c" "list_all idle_event (c_before c)" "list_all idle_event (c_after c)"
  shows "\<exists>d'. demo_add c sec usec h x d = Some (int k, d') \<and> demo_inv m (add_mset (Some h, x) N) (k + 1) d' \<and> t_arr d' = t_arr d"
proof -
  from demo_turns_inv [OF assms(1,7)] obtain d1 where d1: "demo_turns (c_before c) d = Some d1" "demo_inv m N k d1"
    "t_arr d1 = t_arr d" by blast
  from on_lib_add [OF d1(2) assms(2-4), of "c_now c"] obtain d2 where
    d2: "on_lib (timer_add Answered True (c_now c) sec usec (Some h) x) d1 = Some (int k, d2)"
    "demo_inv m (add_mset (Some h, x) N) (k + 1) d2" "t_arr d2 = t_arr d1" by blast
  from demo_turns_inv [OF d2(2) assms(8)] d1 d2 assms(5,6) show ?thesis by (auto simp: demo_add_def)
qed

lemma timer_rem_implements:
  assumes "implements rs st a" "0 \<le> sint i"
  shows "\<exists>st'. timer_rem Answered True now i f st = Some st' \<and> implements rs st' (spec_remove i f a)"
proof -
  have "i \<noteq> -1" using assms(2) by auto
  then obtain r st' where "del_timernode_from_list (zero_timer\<lparr>action := e_ACTION_TYPY_DEL, id_of := i, handler := f\<rparr>) st = Some (r, st')"
    "implements rs st' (spec_remove i f a)"
    using del_timernode_implements [OF assms(1), of "zero_timer\<lparr>action := e_ACTION_TYPY_DEL, id_of := i, handler := f\<rparr>"] by auto
  then show ?thesis using assms(2) by (simp add: timer_rem_def send_recv_msg_def handle_proc_req_def handle_msg_def)
qed

lemma spec_remove_fields: "next_timer (spec_remove i f a) = next_timer a" "due (spec_remove i f a) = due a"
  "queue (spec_remove i f a) = remove_id i (queue a)"
proof -
  have "dropWhile (\<lambda>x. timer_id x \<noteq> i) (queue a) = [] \<Longrightarrow> remove_id i (queue a) = queue a"
    by (rule remove_id_absent) (auto simp: dropWhile_eq_Nil_conv)
  then show "queue (spec_remove i f a) = remove_id i (queue a)" by (auto simp: spec_remove_def split: list.split)
qed (simp_all add: spec_remove_def split: list.split)

lemma outstanding_remove: "outstanding (spec_remove i f a, b, calls) \<subseteq># outstanding (a, b, calls)"
proof -
  have "mset (map call_of (remove_id i (queue a))) \<subseteq># mset (map call_of (queue a))"
    using image_mset_subseteq_mono [OF mset_remove_id] by (simp add: image_mset.comp)
  then show ?thesis by (simp add: outstanding_def spec_remove_fields subset_mset.add_right_mono)
qed

lemma demo_rem_inv:
  assumes "demo_inv m N k d" "0 \<le> sint i"
    and "c_link c = Answered" "c_mem c" "list_all idle_event (c_before c)" "list_all idle_event (c_after c)"
  shows "\<exists>d'. demo_rem c i d = Some d' \<and> demo_inv m N k d' \<and> t_arr d' = t_arr d"
proof -
  from demo_turns_inv [OF assms(1,5)] obtain d1 where d1: "demo_turns (c_before c) d = Some d1" "demo_inv m N k d1"
    "t_arr d1 = t_arr d" by blast
  from d1(2) show ?thesis
  proof (rule demo_invE)
    fix st r calls a
    assume l: "lib_of d1 = (st, r, calls)" and i: "implements (set_option r) st a"
      and t: "due_callable (a, r \<noteq> None, calls)" "outstanding (a, r \<noteq> None, calls) \<subseteq># N" "next_timer a = of_nat k"
      and m: "length (t_arr d1) = m" "\<forall>c \<in># N. printable m c"
    from timer_rem_implements [OF i assms(2)] obtain st' where
      st': "timer_rem Answered True (c_now c) i None st = Some st'" "implements (set_option r) st' (spec_remove i None a)" by blast
    let ?d = "d1\<lparr>lib_of := (st', r, calls)\<rparr>"
    have "outstanding (spec_remove i None a, r \<noteq> None, calls) \<subseteq># N"
      by (rule subset_mset.order_trans [OF outstanding_remove t(2)])
    then have "demo_inv m N k ?d"
      by (intro demo_invI [OF st'(2)]) (use t m in \<open>auto simp: due_callable_def spec_remove_fields\<close>)
    from demo_turns_inv [OF this assms(6)] show ?thesis using d1 st'(1) assms(3,4) by (auto simp: demo_rem_def on_lib_def l)
  qed
qed

section \<open>The thousand timers\<close>

definition call_ok :: "lib_call \<Rightarrow> bool" where
  "call_ok c \<longleftrightarrow> c_link c = Answered \<and> c_mem c \<and> list_all idle_event (c_before c) \<and> list_all idle_event (c_after c)"

lemma demo_inv_more [simp]:
  "length ts = length (t_arr d) \<Longrightarrow> demo_inv m N k (d\<lparr>t_arr := ts\<rparr>) = demo_inv m N k d"
  "demo_inv m N k (d\<lparr>t_out := ps\<rparr>) = demo_inv m N k d"
  by (simp_all add: demo_inv_def)

lemma demo_fill_inv:
  assumes C: "\<And>i. call_ok (C i)" and m: "m \<le> 2 ^ 31"
  shows "demo_inv m N i d \<Longrightarrow> i + n \<le> m \<Longrightarrow> \<exists>d'. demo_fill C n i d = Some d' \<and>
    demo_inv m (N + mset (map (\<lambda>j. (Some Timer_test, Some j)) [i..<i + n])) (i + n) d' \<and>
    (\<forall>j < m. t_arr d' ! j = (if i \<le> j \<and> j < i + n then \<lparr>ts_id = int j, ts_sec = 2, ts_usec = int j * 100\<rparr> else t_arr d ! j))"
proof (induction n arbitrary: i d N)
  case (Suc n)
  have l: "length (t_arr d) = m" "i < m" using Suc.prems by (simp_all add: demo_inv_def)
  let ?d = "d\<lparr>t_arr := (t_arr d)[i := (t_arr d ! i)\<lparr>ts_sec := 2, ts_usec := int i * 100\<rparr>]\<rparr>"
  have "printable m (Some Timer_test, Some i)" using l by (simp add: printable_def)
  moreover have "demo_inv m N i ?d" using Suc.prems(1) by simp
  ultimately obtain d1 where d1: "demo_add (C i) 2 0 Timer_test (Some i) ?d = Some (int i, d1)"
    "demo_inv m (add_mset (Some Timer_test, Some i) N) (i + 1) d1" "t_arr d1 = t_arr ?d"
    using demo_add_inv [of m N i ?d 2 0 Timer_test "Some i" "C i"] C [of i] l m by (auto simp: call_ok_def in_past_def)
  let ?ts = "(t_arr d1)[i := (t_arr d1 ! i)\<lparr>ts_id := int i\<rparr>]"
  let ?d2 = "d1\<lparr>t_arr := ?ts, t_out := t_out d1 @ [P_added (int i) (ts_sec (?ts ! i))]\<rparr>"
  have "demo_inv m (add_mset (Some Timer_test, Some i) N) (i + 1) ?d2" using d1(2) by simp
  moreover have "i + 1 + n \<le> m" using Suc.prems(2) by simp
  ultimately obtain d' where d': "demo_fill C n (i + 1) ?d2 = Some d'"
    "demo_inv m (add_mset (Some Timer_test, Some i) N + mset (map (\<lambda>j. (Some Timer_test, Some j)) [i + 1..<i + 1 + n])) (i + 1 + n) d'"
    "\<forall>j < m. t_arr d' ! j = (if i + 1 \<le> j \<and> j < i + 1 + n then \<lparr>ts_id = int j, ts_sec = 2, ts_usec = int j * 100\<rparr> else t_arr ?d2 ! j)"
    using Suc.IH by blast
  have run: "demo_fill C (Suc n) i d = Some d'" using d1(1) d'(1) l by (simp add: Let_def)
  moreover have "[i..<i + Suc n] = i # [i + 1..<i + 1 + n]" by (simp add: upt_conv_Cons)
  then have "demo_inv m (N + mset (map (\<lambda>j. (Some Timer_test, Some j)) [i..<i + Suc n])) (i + Suc n) d'"
    using d'(2) by simp
  moreover have "t_arr ?d2 ! j = (if j = i then \<lparr>ts_id = int i, ts_sec = 2, ts_usec = int i * 100\<rparr> else t_arr d ! j)" for j
    using l d1(3) by (cases "t_arr d ! i") simp
  then have "\<forall>j < m. t_arr d' ! j = (if i \<le> j \<and> j < i + Suc n then \<lparr>ts_id = int j, ts_sec = 2, ts_usec = int j * 100\<rparr> else t_arr d ! j)"
    using d'(3) by auto
  ultimately show ?case by blast
qed simp

lemma distinct_sub: "mset xs \<subseteq># mset ys \<Longrightarrow> distinct ys \<Longrightarrow> distinct xs"
  by (metis distinct_append mset_append mset_eq_imp_distinct_iff ex_mset subset_mset.le_iff_add)

lemma demo_inv_calls:
  assumes "demo_inv m (mset ns) k d" "distinct ns"
  shows "distinct (snd (snd (lib_of d))) \<and> (\<lambda>(h, x). (Some h, x)) ` set (snd (snd (lib_of d))) \<subseteq> set ns"
proof -
  from assms(1) have s: "mset (map (\<lambda>(h, x). (Some h, x)) (snd (snd (lib_of d)))) \<subseteq># mset ns"
    by (rule demo_invE) (auto simp: outstanding_def intro: subset_mset.order_trans [OF mset_subset_eq_add_right])
  have "distinct (map (\<lambda>(h, x). (Some h, x)) (snd (snd (lib_of d))))" by (rule distinct_sub [OF s assms(2)])
  then show ?thesis using set_mset_mono [OF s] by (auto simp: distinct_map)
qed

lemma demo_inv_start: "demo_inv n {#} 0 (demo_start n)"
  unfolding demo_start_def demo_inv_def using start_matches
  by (auto simp: due_callable_def outstanding_def no_timers_def intro!: exI [of _ "(no_timers, False, [])"])

text \<open>main.c runs to its end whatever the threads of the library do in between: the identifiers are the
  places in the array, and no timer is called twice.\<close>

lemma timers_main_runs:
  assumes C: "\<And>i. call_ok (C i)" and es: "list_all idle_event es"
  shows "\<exists>d. timers_main C es = Some (0, d) \<and> distinct (snd (snd (lib_of d))) \<and>
    set (snd (snd (lib_of d))) \<subseteq> insert (Timer_test2, None) ((\<lambda>i. (Timer_test, Some i)) ` {..<MAX_SIZE - 2}) \<and>
    (\<forall>i < MAX_SIZE - 2. t_arr d ! i = \<lparr>ts_id = int i, ts_sec = 2, ts_usec = int i * 100\<rparr>)"
proof -
  have S: "MAX_SIZE - 2 = 998" "MAX_SIZE - 1 = 999" "MAX_SIZE = 1000" by (simp_all add: MAX_SIZE_def)
  let ?ns = "map (\<lambda>j. (Some Timer_test, Some j)) [0..<998] :: (demo_fun option \<times> nat option) list"
  from demo_fill_inv [where C = C, OF C _ demo_inv_start, of 1000 998] obtain d1 where d1: "demo_fill C 998 0 (demo_start 1000) = Some d1"
    "demo_inv 1000 (mset ?ns) 998 d1"
    and ts: "\<forall>j < 998. t_arr d1 ! j = \<lparr>ts_id = int j, ts_sec = 2, ts_usec = int j * 100\<rparr>" by auto
  have c: "c_link (C i) = Answered" "c_mem (C i)" "list_all idle_event (c_before (C i))" "list_all idle_event (c_after (C i))" for i
    using C [of i] by (simp_all add: call_ok_def)
  have "0 \<le> sint (7 :: u32)" by simp
  from demo_rem_inv [OF d1(2) this c] obtain d2 where d2: "demo_rem (C 998) 7 d1 = Some d2" "demo_inv 1000 (mset ?ns) 998 d2"
    "t_arr d2 = t_arr d1" by blast
  have "\<not> in_past (Timeval 7 0)" "printable 1000 (Some Timer_test2, None)" by (simp_all add: in_past_def printable_def)
  with demo_add_inv [OF d2(2) _ _ _ c, of 7 0 Timer_test2 None 999] obtain d3 where
    d3: "demo_add (C 999) 7 0 Timer_test2 None d2 = Some (998, d3)"
    "demo_inv 1000 (mset ((Some Timer_test2, None) # ?ns)) 999 d3" "t_arr d3 = t_arr d2" by auto
  from demo_turns_inv [OF d3(2) es] obtain d4 where d4: "demo_turns es d3 = Some d4"
    "demo_inv 1000 (mset ((Some Timer_test2, None) # ?ns)) 999 d4" "t_arr d4 = t_arr d3" by blast
  have run: "timers_main C es = Some (0, d4\<lparr>t_out := t_out d4 @ [P_over]\<rparr>)"
    unfolding timers_main_def S using d1(1) d2(1) d3(1) d4(1) by simp
  have "distinct ((Some Timer_test2, None) # ?ns)" by (auto simp: distinct_map inj_on_def)
  from demo_inv_calls [OF d4(2) this] show ?thesis unfolding S using run ts d2(3) d3(3) d4(3) by (auto simp: image_iff)
qed

section \<open>The timer that sets itself again\<close>

text \<open>Without a failing \<open>malloc\<close> there is always exactly one timer, either waiting in the queue or due.\<close>

fun sound_turn :: "again_turn \<Rightarrow> bool" where
  "sound_turn (Turn mem created now arr, lk, ok, t) = (mem \<and> idle_event (Turn mem created now arr) \<and> lk = Answered \<and> ok)"
| "sound_turn (e, lk, ok, t) = (lk = Answered \<and> ok)"

definition one_timer :: "timer_demo \<Rightarrow> bool" where
  "one_timer d \<longleftrightarrow> length (t_arr d) = 300 \<and> ts_sec (t_arr d ! 0) = 2 \<and>
     (\<exists>a b calls. run_matches (lib_of d) (a, b, calls) \<and> map call_of (queue a) @ due a = [(Some Timer_test, Some 0)])"

lemma on_lib_add_matches:
  assumes "run_matches (lib_of d) (a, b, calls)" "\<not> in_past (Timeval sec usec)"
  shows "\<exists>i l. on_lib (timer_add Answered True now sec usec (Some h) x) d = Some (i, d\<lparr>lib_of := l\<rparr>) \<and>
    run_matches l (spec_add now (Timeval sec usec) (Some h) x a, b, calls)"
proof -
  obtain st r where l: "lib_of d = (st, r, calls)" "b = (r \<noteq> None)" "implements (set_option r) st a"
    using assms(1) by (auto simp: run_matches_def split: prod.splits)
  from timer_add_implements [OF l(3) assms(2), of now h x] obtain st' where
    "timer_add Answered True now sec usec (Some h) x st = Some (sint (new_id (next_timer a)), st')"
    "implements (set_option r) st' (spec_add now (Timeval sec usec) (Some h) x a)" by blast
  then show ?thesis
    by (intro exI [of _ "sint (new_id (next_timer a))"] exI [of _ "(st', r, calls)"]) (simp add: on_lib_def l(1,2) run_matches_def)
qed

lemma again_turn_kept:
  assumes d: "one_timer d" and e: "sound_turn (e, lk, ok, now)"
  shows "\<exists>d'. again_turns [(e, lk, ok, now)] d = Some d' \<and> one_timer d'"
proof -
  obtain a b calls where m: "run_matches (lib_of d) (a, b, calls)" and q: "map call_of (queue a) @ due a = [(Some Timer_test, Some 0)]"
    and arr: "length (t_arr d) = 300" "ts_sec (t_arr d ! 0) = 2" using d by (auto simp: one_timer_def)
  have k: "lk = Answered" "ok" "idle_event e" using e by (cases e; simp)+
  obtain l where l: "timer_event e (lib_of d) = Some l" "run_matches l (spec_event e (a, b, calls))"
    using event_matches [OF m idle_proper [OF k(3)]] by blast
  have c: "snd (snd (lib_of d)) = calls" using m by (auto simp: run_matches_def split: prod.splits)
  have c': "snd (snd l) = snd (snd (spec_event e (a, b, calls)))" using l(2) by (auto simp: run_matches_def split: prod.splits)
  show ?thesis
  proof (cases "e = Take \<and> \<not> b \<and> due a \<noteq> []")
    case True
    then have s: "queue a = []" "due a = [(Some Timer_test, Some 0)]" using q by (cases "queue a"; simp)+
    let ?c = "calls @ [(Timer_test, Some 0)]"
    have s': "spec_event e (a, b, calls) = (a\<lparr>due := []\<rparr>, True, ?c)" using True s by (simp add: spec_run_def)
    let ?d = "d\<lparr>lib_of := l, t_out := t_out d @ [P_timer (ts_id (t_arr d ! 0)) 2 (ts_usec (t_arr d ! 0))]\<rparr>"
    have "run_matches (lib_of ?d) (a\<lparr>due := []\<rparr>, True, ?c)" "\<not> in_past (Timeval 2 0)" using l(2) s' by (simp_all add: in_past_def)
    from on_lib_add_matches [OF this, of now Timer_test "Some 0"] obtain i l' where
      l': "on_lib (timer_add Answered True now 2 0 (Some Timer_test) (Some 0)) ?d = Some (i, ?d\<lparr>lib_of := l'\<rparr>)"
      "run_matches l' (spec_add now (Timeval 2 0) (Some Timer_test) (Some 0) (a\<lparr>due := []\<rparr>), True, ?c)" by blast
    let ?d' = "?d\<lparr>lib_of := l', t_arr := (t_arr d)[0 := (t_arr d ! 0)\<lparr>ts_id := i\<rparr>]\<rparr>"
    have "again_turns [(e, lk, ok, now)] d = Some ?d'"
      using l(1) c c' s' k(1,2) arr l'(1) by simp
    moreover have "one_timer ?d'"
      unfolding one_timer_def
    proof (intro conjI exI)
      show "run_matches (lib_of ?d') (spec_add now (Timeval 2 0) (Some Timer_test) (Some 0) (a\<lparr>due := []\<rparr>), True, ?c)"
        using l'(2) by simp
    qed (use arr s(1) in \<open>simp_all add: spec_add_def\<close>)
    ultimately show ?thesis by blast
  next
    case False
    then have "snd (snd (spec_event e (a, b, calls))) = calls" by (cases e) auto
    then have "again_turns [(e, lk, ok, now)] d = Some (d\<lparr>lib_of := l\<rparr>)" using l(1) c c' by simp
    moreover obtain a' b' calls' where a': "spec_event e (a, b, calls) = (a', b', calls')" by (cases "spec_event e (a, b, calls)")
    have "map call_of (queue a') @ due a' = [(Some Timer_test, Some 0)]"
    proof (cases e)
      case (Turn mem created now' arr)
      then show ?thesis using a' q e
        by (cases arr; cases "queue a") (auto simp: spec_turn_def spec_expire_def)
    qed (use a' q False in \<open>auto split: if_splits\<close>)
    then have "one_timer (d\<lparr>lib_of := l\<rparr>)" unfolding one_timer_def using arr l(2) a' by auto
    ultimately show ?thesis by blast
  qed
qed

lemma again_turns_Cons: "again_turns (x # es) d = Option.bind (again_turns [x] d) (again_turns es)"
  by (cases x) (simp split: bind_splits)

lemma again_turns_kept:
  "one_timer d \<Longrightarrow> list_all sound_turn es \<Longrightarrow> \<exists>d'. again_turns es d = Some d' \<and> one_timer d'"
proof (induction es arbitrary: d)
  case (Cons x es)
  obtain e lk ok now where x: "x = (e, lk, ok, now)" by (cases x)
  with Cons.prems(2) have "sound_turn (e, lk, ok, now)" by simp
  from again_turn_kept [OF Cons.prems(1) this] obtain d1 where d1: "again_turns [x] d = Some d1" "one_timer d1" unfolding x by blast
  show ?case using Cons.IH [OF d1(2)] Cons.prems(2) d1(1) unfolding again_turns_Cons [of x es d] by simp
qed simp

lemma again_main_runs:
  assumes "list_all sound_turn es1" "list_all sound_turn es2"
  shows "\<exists>d. again_main Answered True now es1 es2 = Some (0, d) \<and> one_timer d"
proof -
  let ?d = "(demo_start 300)\<lparr>t_arr := (t_arr (demo_start 300))[0 := (t_arr (demo_start 300) ! 0)\<lparr>ts_sec := 2\<rparr>]\<rparr>"
  have arr: "length (t_arr ?d) = 300" "ts_sec (t_arr ?d ! 0) = 2" by (simp_all add: demo_start_def)
  have "run_matches (lib_of ?d) (no_timers, False, [])" "\<not> in_past (Timeval 2 0)"
    using start_matches by (simp_all add: demo_start_def in_past_def)
  from on_lib_add_matches [OF this, of now Timer_test "Some 0"] obtain k l where
    l: "on_lib (timer_add Answered True now 2 0 (Some Timer_test) (Some 0)) ?d = Some (k, ?d\<lparr>lib_of := l\<rparr>)"
    "run_matches l (spec_add now (Timeval 2 0) (Some Timer_test) (Some 0) no_timers, False, [])" by blast
  have "one_timer (?d\<lparr>lib_of := l\<rparr>)"
    unfolding one_timer_def
  proof (intro conjI exI)
    show "run_matches (lib_of (?d\<lparr>lib_of := l\<rparr>)) (spec_add now (Timeval 2 0) (Some Timer_test) (Some 0) no_timers, False, [])"
      using l(2) by simp
  qed (use arr in \<open>simp_all add: spec_add_def no_timers_def\<close>)
  from again_turns_kept [OF this assms(1)] obtain d1 where d1: "again_turns es1 (?d\<lparr>lib_of := l\<rparr>) = Some d1" "one_timer d1" by blast
  have "one_timer (d1\<lparr>t_arr := (t_arr d1)[0 := (t_arr d1 ! 0)\<lparr>ts_id := k\<rparr>]\<rparr>)"
    using d1(2) by (simp add: one_timer_def)
  from again_turns_kept [OF this assms(2)] show ?thesis
    using l(1) d1(1) arr by (auto simp: again_main_def Let_def)
qed

end
