(* ===== verification/Spec2Isabelle.thy ===== *)
theory Spec2Isabelle
  imports Demo_Run Find_Pwd Program Unix_Socket Ad_Init Log_Module Thread_Start Timer_Start Pb_Properties Test_Client Timer_Demo
begin

text \<open>
  Verification development of the chess game server.

  THE PROGRAM. A TCP server for a three-player chess game. \<open>main\<close> (server.cpp) creates the main thread
  object and one worker thread. The main thread (mainthread.cpp) accepts connections and hands their
  descriptors to the worker through a pipe; the worker (thread.cpp) owns the sessions, reads frames from
  the connections and passes each message to the session's state object (stateauth.cpp, statecommon.cpp,
  stategameready.cpp, stategameplay.cpp). Handlers of a playing session work on its board and hall
  (chessboard.cpp), write to the other players' connections, and read and write accounts, scores,
  pictures and versions in MySQL (thread.cpp over mysqldb.cpp). A lost password goes to findpwd.cpp, which
  runs on the timer library libtimer with its two threads and a Unix domain socket between them. debug.cpp
  is the log, md5.cpp the digest, adinit.cpp a program of its own that fills the picture table, client.cpp
  a test client for an earlier message.proto, and main.c and main2.c of libtimer exercise the timers. The
  messages are classes that protoc made from message.proto (message.pb.h, message.pb.cpp).

  THE MODEL, in the order of its theories.
  \<^item> Srv_Prelude: integers of utils.h as words, a C string as the part before its first zero byte,
    \<open>std::map\<close> as an ordered association list (locale \<open>std_map\<close>, interpretation \<open>sm\<close>), loops that may crash.
  \<^item> Messages: the message numbers and states of state.h, the messages of message.proto as records, and the
    outside world \<open>env\<close>. Session: usersession.h. Board: the object \<open>ChessBoard\<close> alone (locale \<open>seating\<close>,
    interpretation \<open>cb\<close>). Framing: the wire format (locale \<open>frame_codec\<close>, interpretation \<open>wf\<close>). Sql:
    mysqldb.cpp and the commands of \<open>WorkThread\<close>. Md5, Md5_Stream: md5.cpp.
  \<^item> Server_State: the state \<open>world\<close> of the server, that is the heap of sessions and boards, the halls, the
    threads with their maps and pipes, the pool, and logs of what left the process. Handlers: the members of
    \<open>ChessBoard\<close> that reach through pointers. States: the four state classes. Worker: the pool, the threads,
    the libevent callbacks, and the steps \<open>srv_step\<close> with the reachable states \<open>srv_reach\<close>.
  \<^item> Shutdown: listening socket, worker set-up and the destructors. Program: \<open>main\<close> as a function of what
    happens to the process; it meets exactly the states of \<open>srv_reach\<close> (\<open>reach_iff_met\<close>).
  \<^item> Timer: libtimer.c over an explicit heap of nodes. Unix_Socket: unixsktapi.c. Find_Pwd: findpwd.cpp.
    Ad_Init: adinit.cpp and the tables. Log_Module: debug.cpp. Thread_Start: the class \<open>Thread\<close>. Timer_Start:
    \<open>timer_init\<close> and the start of its server thread.
  \<^item> Pb_Runtime: the objects of the generated classes, and what they call of the protobuf runtime. Pb_Code: the
    pieces the generated functions are made of. Pb_Messages, Pb_Messages2: the 28 classes of message.pb.cpp, ten
    functions each, as they are written there. Pb_Reference: the same ten functions defined once, by recursion on
    a declaration. Pb_Agree: the declarations of message.proto. Pb_Classes: the list of the classes. Pb_Server:
    the objects as the server fills and reads them, and \<open>with_protobuf\<close>, which puts the classes in the place of
    the parameters of \<open>pb_lib\<close>.
  \<^item> Test_Client: client.cpp, with what it sends, what it reads, and how the server takes it. Timer_Demo: the
    programs main.c and main2.c of libtimer.

  WHAT THE LEMMAS SHOW.
  \<^item> Invariants of the reachable states: Frames and Structure say what each operation leaves alone, Seats that
    seats and sessions point at each other, Transitions that a message moves a session along the state graph,
    Lifetime that descriptors, pool and session table stay consistent, Reach puts them together for every
    callback, Serving reads off what this means for a connection.
  \<^item> Functional behaviour, error branches included: Broadcast, Game_Rules, Game_Flow, Joining (moves, scores,
    undo, readiness, seats, leaving), Login, Reading (frames in pieces, pipelined frames, bad headers).
  \<^item> Returning without a crash: Progress and Join_Progress for messages, Closing for time-outs and errors
    in every reachable state, Shutdown and Program for the way down.
  \<^item> The timers: Timer_Queue relates the linked nodes to sequences, Timer_Spec each operation to abstract
    timers, Timer_Run whole runs of the two threads (locale \<open>deadline_queue\<close>, interpretation \<open>dq\<close>), on which
    Find_Pwd rests.
  \<^item> The generated code: Pb_Agree shows that every class is the reference of its declaration, so that Pb_Merge
    (sizes, the two serializers, parsing back) and Pb_Whole (new objects, two messages in one stream, the parser
    returns) hold of all of them; Pb_Varint builds a runtime that satisfies the hypotheses; Pb_Properties
    composes this with the server: the bytes of a frame, the message read back, the handler, the reply.
  \<^item> Demo and Demo_Run hold a concrete outside world and a concrete run of the server, on which the
    properties below are applied.

  CONVENTIONS. Pointers are numbers or pairs into explicit maps. A definition returns \<open>None\<close> where the code
  dereferences a null or dangling pointer, overruns a block, locks a mutex it holds or unlocks one it does
  not; a return value of the code, errors included, is part of the \<open>Some\<close> result. A callback of the worker
  is one step, as one thread runs them all; the threads that share data under a mutex (class \<open>Thread\<close>, the
  timer library) are step relations or interleaved runs. Log calls change no state of the server and are left
  out of its components.

  THE OUTSIDE WORLD is given by parameters: the protobuf runtime (record \<open>wire_lib\<close>), the MySQL client calls
  as functions of the commands sent so far, files and whether a bufferevent can be made (record \<open>env\<close>), and, as
  arguments, clocks, results of system calls, the answers of \<open>select\<close>, \<open>send\<close> and \<open>recv\<close> turn by turn, and
  whether \<open>malloc\<close> of the timer library and \<open>pthread_create\<close> succeed. Hypotheses on them: \<open>db_plain\<close> (MySQL's
  functions return an error flag and not the error number the retry loops test) and \<open>env_ok\<close> (besides,
  bufferevents can be made, and reading a map's \<open>end()\<close> gives a null pointer, on which \<open>GetChessBoardByID\<close> relies).
  Allocation by \<open>new\<close> succeeds. Both are satisfied by \<open>demo_env\<close>. The theories of the server hold for any
  functions that parse and serialize (\<open>pb_lib\<close>); where the generated code is meant, they are those of
  \<open>with_protobuf\<close>. On the runtime the hypotheses are \<open>wire_ok\<close> (a value that was written is read back, sizes are
  the lengths written, a tag is what \<open>tag_of\<close> says) and \<open>shrinks\<close> (reading takes bytes off the input), both
  satisfied by \<open>varint_lib\<close>.

  BOUNDS. Loops that need not end (retries, walks over linked nodes, the 32-bit index of \<open>MD5::update\<close>) are
  partial functions whose values are proved to exist where a property says so. The worker's last loop takes a
  number of turns; the length of its pipe and two more are enough (\<open>program_ends\<close>). Loops over sockets
  take the kernel's answers as a list; \<open>None\<close> says that it is used up. A generated parser has as fuel the length
  of its input and one more, which is enough (\<open>parser_returns\<close>).

  NOT MODELLED. The scripts in other languages. Of message.pb.cpp and message.pb.h: descriptors, reflection and
  the tables at the head of the file, the allocation of strings, the accessors that release or hand over an
  object, and the cached sizes; an element of a repeated field is a new one where the runtime may use a cleared
  one again. libevent's loop itself: which callback runs next is left open. The deletion of a main object with
  other than one worker thread, which \<open>main\<close> never creates. A second \<open>timer_init\<close>, which would need the
  password component after its destruction.
\<close>

section \<open>Every reachable state\<close>

text \<open>C1. In every state the server can reach, a seat of a board holds a session exactly when that
  session carries the board and the seat: the two directions of the pointer structure agree.\<close>

theorem seats_agree:
  assumes "srv_reach E w"
  shows "sits_at w b l s \<longleftrightarrow> (\<exists>u. sess w s = Some u \<and> currChessBoard u = Some b \<and> locate u = l)"
  using srv_reach_ok [OF assms] unfolding world_ok_def srv_inv_def seat_inv_def has_place_def by blast

theorem seats_agree_witness:
  "\<exists>w. srv_reach demo_env w \<and> sits_at w (1, 1) LOCATION_LEFT 0 \<and>
     (\<exists>u. sess w 0 = Some u \<and> currChessBoard u = Some (1, 1) \<and> locate u = LOCATION_LEFT)"
  using reach_seated seats_agree by blast

text \<open>C2. Every board of a reachable state counts its users correctly (never more than three, no
  session twice), knows its number and hall, and is registered in that hall under its number.\<close>

theorem boards_consistent:
  assumes "srv_reach E w" "boards w (h, i) = Some cb"
  shows "unat (GetUserNum cb) = length (seated cb) \<and> length (seated cb) \<le> 3 \<and> distinct (seated cb) \<and>
    GetChessBoardID cb = i \<and> currentHall cb = h \<and> i \<noteq> 0 \<and> i \<le> chessBoardMax \<and>
    (\<exists>hall. halls w h = Some hall \<and> sm_find i (chessBoardInfo hall) = Some (h, i))"
proof -
  have i: "seat_inv {} w" using srv_reach_ok [OF assms(1)] by (simp add: world_ok_def srv_inv_def)
  have "board_ok cb \<and> currentHall cb = fst (h, i) \<and> chessBoardID cb = snd (h, i)"
    using i assms(2) unfolding seat_inv_def boards_ok_def by blast
  then have ok: "board_ok cb" "currentHall cb = h" "chessBoardID cb = i" by simp_all
  have "boards w (h, i) \<noteq> None" using assms(2) by simp
  then obtain hall where hall: "halls w h = Some hall" "sm_find i (chessBoardInfo hall) = Some (h, i)"
    using seat_inv_halls [OF i] unfolding halls_ok_def by blast
  then have "i \<noteq> 0 \<and> i \<le> chessBoardMax" using seat_inv_halls [OF i] unfolding halls_ok_def by blast
  moreover have "unat (GetUserNum cb) = length (seated cb)"
    using ok(1) seated_bound [of cb] by (simp add: board_ok_def GetUserNum_def unat_of_nat)
  ultimately show ?thesis
    using hall ok(2,3) seated_bound [of cb] seated_distinct [OF i assms(2)] by (simp add: GetChessBoardID_def)
qed

theorem boards_consistent_witness:
  "\<exists>w cb. srv_reach demo_env w \<and> boards w (1, 1) = Some cb \<and> leftUser cb = Some 0 \<and>
     unat (GetUserNum cb) = length (seated cb) \<and> GetChessBoardID cb = 1"
proof -
  obtain w cb where "srv_reach demo_env w" "boards w (1, 1) = Some cb" "leftUser cb = Some 0"
    using reach_seated by (auto simp: sits_at_def)
  then show ?thesis using boards_consistent [of demo_env w 1 1 cb] by blast
qed

text \<open>C3. Every session object of a reachable state is either blank and in the pool (with no
  descriptor), or outside the pool and registered under exactly its own descriptor; the pool has no
  duplicates and stays below its limit of twenty.\<close>

theorem sessions_accounted:
  assumes "srv_reach E w" "sess w s = Some u"
  shows "(if s \<in> set (sessionList w) then idle u \<and> (\<forall>t fd. \<not> connected w t fd s)
      else thread u = Some 0 \<and> (\<forall>t fd. connected w t fd s \<longleftrightarrow> t = 0 \<and> fd = clifd u)) \<and>
    distinct (sessionList w) \<and> GetUnhandledSessionsSize w < 20"
  using session_cases [OF srv_reach_ok [OF assms(1)] assms(2)] pool_bounds(1,2) [OF srv_reach_ok [OF assms(1)]]
  by (simp add: GetUnhandledSessionsSize_def connectionMaxStep_def)

theorem sessions_accounted_witness:
  "(\<forall>t fd. connected (stage online [] []) t fd 0 \<longleftrightarrow> t = 0 \<and> fd = 10) \<and> distinct (sessionList (stage online [] []))"
  using sessions_accounted [OF reach_online, of 0 online] by (simp add: online_def stage_def)

text \<open>C4. In a reachable state only users in the playing state sit at a board: whoever has a board
  handles his next message in \<open>STATE_GAME_PLAY\<close>, and will stay in it.\<close>

theorem only_players_sit:
  assumes "srv_reach E w" "sits_at w b l s"
  shows "l \<in> set seats \<and> (\<exists>u. sess w s = Some u \<and> stateMachine u = Some STATE_GAME_PLAY \<and>
    nextState u = Some STATE_GAME_PLAY \<and> connected w 0 (clifd u) s)"
proof -
  have ok: "world_ok w" using assms(1) by (rule srv_reach_ok)
  then obtain u where u: "sess w s = Some u" "currChessBoard u = Some b"
    using assms(2) unfolding world_ok_def srv_inv_def seat_inv_def has_place_def by blast
  have "placed {} (shape w)" using ok by (simp add: world_ok_def srv_inv_def)
  then have "stateMachine u = Some STATE_GAME_PLAY \<and> nextState u = Some STATE_GAME_PLAY"
    using u unfolding placed_def by force
  moreover have "connected w 0 (clifd u) s"
    using session_cases [OF ok u(1)] u(2) by (auto simp: idle_def split: if_splits)
  moreover have "l \<in> set seats" using assms(2) GetUserByLocation_seat unfolding sits_at_def by blast
  ultimately show ?thesis using u(1) by blast
qed

theorem only_players_sit_witness:
  "\<exists>w u. srv_reach demo_env w \<and> sess w 0 = Some u \<and> stateMachine u = Some STATE_GAME_PLAY"
  using reach_seated only_players_sit by blast

section \<open>One message\<close>

text \<open>C5. A message that is accepted moves the session along the state graph (login, advertisement,
  hall, board and back), keeps every connection, and leaves every other session where it is, except
  that a player's message may take another player off the board.\<close>

theorem message_accepted:
  assumes "srv_reach E w" "connected w t fd s" "WorkThread_MessageHandle E t fd ty msg w = Some (True, w')"
  shows "\<exists>u u'. sess w s = Some u \<and> sess w' s = Some u' \<and> allowed (phase u) (phase u') \<and> timer_on u' \<and>
    (\<forall>k x. connected w' 0 k x = connected w 0 k x) \<and>
    (\<forall>s' v. s' \<noteq> s \<longrightarrow> sess w s' = Some v \<longrightarrow>
       (\<exists>v'. sess w' s' = Some v' \<and> undisturbed (phase u = STATE_GAME_PLAY) v v'))"
  using accepted_kept [OF srv_reach_ok [OF assms(1)] assms(2,3)] others_undisturbed by metis

theorem message_accepted_witness:
  "\<exists>w w' u u'. srv_reach demo_env w \<and>
     WorkThread_MessageHandle demo_env 0 10 (mt_code MSG_AD_IMAGE_REQ) [] w = Some (True, w') \<and>
     sess w 0 = Some u \<and> sess w' 0 = Some u' \<and> phase u = STATE_DOWN_AD \<and> allowed (phase u) (phase u')"
proof -
  obtain u log net w' where r: "srv_reach demo_env (stage u log net)" "phase u = STATE_DOWN_AD"
    "WorkThread_MessageHandle demo_env 0 10 (mt_code MSG_AD_IMAGE_REQ) [] (stage u log net) = Some (True, w')"
    using reach_accepted by blast
  from message_accepted [OF r(1) _ r(3), of 0] r show ?thesis by (fastforce simp: stage_connected)
qed

text \<open>C6. A message that is refused (or that its state does not know) ends the connection: its
  descriptor is unregistered and no other, the session is blank in the pool or deleted, and it holds
  no seat any more.\<close>

theorem message_refused:
  assumes "srv_reach E w" "connected w t fd s" "WorkThread_MessageHandle E t fd ty msg w = Some (False, w')"
  shows "(\<forall>k x. connected w' 0 k x \<longleftrightarrow> k \<noteq> fd \<and> connected w 0 k x) \<and>
    (sess w' s = None \<or> (\<exists>u. sess w' s = Some u \<and> idle u \<and> s \<in> set (sessionList w'))) \<and>
    (\<forall>b l. \<not> sits_at w' b l s)"
  using refused_gone [OF srv_reach_ok [OF assms(1)] assms(2,3)] unfolding gone_def .

theorem message_refused_witness:
  "\<exists>w'. WorkThread_MessageHandle demo_env 0 10 100 [] (stage online [] []) = Some (False, w') \<and> \<not> connected w' 0 10 0"
  using reach_refused message_refused [OF reach_online, of 0 10 0] by (metis stage_connected)

section \<open>Playing\<close>

text \<open>C7. Leaving the table, in full: a user who leaves while playing loses 30 points and is marked as
  gone; if exactly one player is left he wins 10 points and his game is over; and when the leaver was
  playing the game is over for everybody at the table. Nobody else changes.\<close>

theorem leave_room:
  assumes "seat_inv {} w" "sess w s = Some u" "currChessBoard u = Some b" "boards w b = Some cb"
    and "LeaveRoomHandle E b s really w = Some w'"
  shows "users w' = (\<lambda>x. if x = s then Some (leaver really (strip u))
     else map_option (left_behind (filter (\<lambda>x. x \<noteq> s) (playing w cb) = [x])
       (status u = STATUS_PLAYING \<and> x \<in> set (seated cb))) (users w x))"
  by (rule leave_users [OF assms])

theorem leave_room_witness:
  "\<exists>w'. LeaveRoomHandle demo_env (1, 1) 0 True (table STATUS_PLAYING STATUS_PLAYING STATUS_ENDED) = Some w' \<and>
     map_option (score \<circ> user_info) (users w' 0) = Some 70 \<and> map_option (score \<circ> user_info) (users w' 1) = Some 110 \<and>
     map_option status (users w' 0) = Some STATUS_EXITED \<and> map_option status (users w' 1) = Some STATUS_ENDED"
proof -
  let ?w = "table STATUS_PLAYING STATUS_PLAYING STATUS_ENDED"
  note d = demo_cb(1)
  obtain w' where r: "LeaveRoomHandle demo_env (1, 1) 0 True ?w = Some w'"
    using leave_returns [OF table_going [OF d]] by (fastforce simp: ret_def)
  have p: "playing ?w demo_board = [0, 1]"
    using d by (simp add: playing_def in_play_def users_def)
  note l = leave_room [OF table_seats [OF d] _ _ _ r, of "player 10 LOCATION_LEFT STATUS_PLAYING" demo_board]
  have "users w' 0 = Some (leaver True (strip (player 10 LOCATION_LEFT STATUS_PLAYING)))" using l by simp
  moreover have "users w' 1 = Some (left_behind True True (strip (player 11 LOCATION_RIGHT STATUS_PLAYING)))"
    using l d p by (simp add: users_def)
  ultimately show ?thesis
    using r by (intro exI [of _ w'] conjI) (simp_all add: leaver_def score_add_def score_sub_def player_score)
qed



text \<open>C17. A capture: the mover wins 10 points, the captured user loses 10 and is out of the game, the
  pair is remembered on the board, and nobody else changes.\<close>

theorem capture_scores:
  assumes "parse_MoveChess E msg = Some mc" "mc_is_winner mc" "boards w b = Some cb"
    and "GetUserByLocation (mc_src_user_locate mc) cb = Some a"
    and "GetUserByLocation (getd 0 (mc_target_user_locate mc)) cb = Some t" "a \<noteq> t"
    and "MoveChessHandle E b msg w = Some (r, w')"
  shows "\<exists>ua ut st. users w a = Some ua \<and> users w t = Some ut \<and>
    users w' = (users w)(a \<mapsto> score_add 10 (ua\<lparr>status := st\<rparr>), t \<mapsto> score_sub 10 (ut\<lparr>status := STATUS_ENDED\<rparr>)) \<and>
    (st = status ua \<or> st = STATUS_ENDED) \<and>
    boards w' b = Some (cb\<lparr>recent_winner_locate := mc_src_user_locate mc,
      recent_loser_locate := getd 0 (mc_target_user_locate mc)\<rparr>)"
  by (rule capture_users [OF assms])

theorem capture_scores_witness:
  "\<exists>r w'. MoveChessHandle demo_env (1, 1) [1] (table STATUS_PLAYING STATUS_PLAYING STATUS_PLAYING) = Some (r, w') \<and>
     map_option (score \<circ> user_info) (users w' 0) = Some 110 \<and> map_option (score \<circ> user_info) (users w' 1) = Some 90 \<and>
     map_option status (users w' 1) = Some STATUS_ENDED \<and> boards w' (1, 1) = Some captured_board"
proof -
  let ?w = "table STATUS_PLAYING STATUS_PLAYING STATUS_PLAYING"
  note d = demo_cb(1)
  have p: "parse_MoveChess demo_env [1] = Some (demo_move True)" by (simp add: demo_env_def)
  obtain r w' where r: "MoveChessHandle demo_env (1, 1) [1] ?w = Some (r, w')"
    using move_returns [where b = "(1, 1)" and cb = demo_board, OF going_wired [OF table_going [OF d]] _ p] d
    by (force simp: ret_def demo_move_def)
  have mc: "mc_is_winner (demo_move True)" "mc_src_user_locate (demo_move True) = LOCATION_LEFT"
    "getd 0 (mc_target_user_locate (demo_move True)) = LOCATION_RIGHT" by (simp_all add: demo_move_def)
  obtain ua ut st where u: "users ?w 0 = Some ua" "users ?w 1 = Some ut"
    "users w' = (users ?w)(0 \<mapsto> score_add 10 (ua\<lparr>status := st\<rparr>), 1 \<mapsto> score_sub 10 (ut\<lparr>status := STATUS_ENDED\<rparr>))"
    "boards w' (1, 1) = Some (demo_board\<lparr>recent_winner_locate := LOCATION_LEFT, recent_loser_locate := LOCATION_RIGHT\<rparr>)"
    using capture_scores [where cb = demo_board and a = 0 and t = 1, OF p mc(1) _ _ _ _ r] d mc by auto
  have "ua = strip (player 10 LOCATION_LEFT STATUS_PLAYING)" "ut = strip (player 11 LOCATION_RIGHT STATUS_PLAYING)"
    using u(1,2) by (simp_all add: users_def)
  then show ?thesis
    using r u(4) by (intro exI [of _ r] exI [of _ w'] conjI)
      (simp_all add: u(3) score_add_def score_sub_def player_score captured_board_def)
qed

text \<open>C18. An accepted undo takes a capture back: the scores of both users are those before the
  capture and the captured user plays again. (The winner of the last capture of a game stays marked
  as ended, and the pair stays remembered on the board.)\<close>

theorem capture_undone:
  assumes c: "parse_MoveChess E msg = Some mc" "mc_is_winner mc" "boards w b = Some cb"
    "GetUserByLocation (mc_src_user_locate mc) cb = Some a"
    "GetUserByLocation (getd 0 (mc_target_user_locate mc)) cb = Some t" "a \<noteq> t"
    "MoveChessHandle E b msg w = Some (r, w1)"
    and u: "parse_Undo E msg' = Some ud" "ud_rep_or_respon ud = 1" "ud_status ud = Some True"
    "UndoHandle E b msg' ty w1 = Some (r', w')"
  shows "\<exists>ua ut st. users w a = Some ua \<and> users w t = Some ut \<and> (st = status ua \<or> st = STATUS_ENDED) \<and>
    users w' = (users w)(a \<mapsto> ua\<lparr>status := st\<rparr>, t \<mapsto> ut\<lparr>status := STATUS_PLAYING\<rparr>) \<and> boards w' = boards w1"
proof -
  obtain ua ut st where 1: "users w a = Some ua" "users w t = Some ut" "st = status ua \<or> st = STATUS_ENDED"
    "users w1 = (users w)(a \<mapsto> score_add 10 (ua\<lparr>status := st\<rparr>), t \<mapsto> score_sub 10 (ut\<lparr>status := STATUS_ENDED\<rparr>))"
    and b1: "boards w1 b = Some (cb\<lparr>recent_winner_locate := mc_src_user_locate mc,
      recent_loser_locate := getd 0 (mc_target_user_locate mc)\<rparr>)"
    using capture_users [OF c] by blast
  have g: "GetUserByLocation l (cb\<lparr>recent_winner_locate := x, recent_loser_locate := y\<rparr>) = GetUserByLocation l cb" for l x y
    by (simp add: GetUserByLocation_def)
  obtain va vt where "users w1 a = Some va" "users w1 t = Some vt"
    "users w' = (users w1)(a \<mapsto> score_sub 10 va, t \<mapsto> score_add 10 (vt\<lparr>status := STATUS_PLAYING\<rparr>))" "boards w' = boards w1"
    using undo_users [OF u(1-3) b1 _ _ c(6) u(4)] c(4,5) by (auto simp: g)
  then show ?thesis using 1 c(6) by (auto simp: score_undo fun_upd_twist)
qed

text \<open>The board does not forget the pair, so the same undo can be accepted again, and every
  repetition moves another 10 points from the winner to the loser.\<close>

theorem undo_repeats:
  assumes "parse_Undo E msg = Some ud" "ud_rep_or_respon ud = 1" "ud_status ud = Some True"
    and "boards w b = Some cb" "GetUserByLocation (recent_winner_locate cb) cb = Some a"
    and "GetUserByLocation (recent_loser_locate cb) cb = Some t" "a \<noteq> t"
    and "UndoHandle E b msg ty w = Some (r, w1)" "UndoHandle E b msg ty w1 = Some (r', w')"
  shows "\<exists>ua ut. users w a = Some ua \<and> users w t = Some ut \<and>
    map_option (score \<circ> user_info) (users w' a) = Some (score (user_info ua) - 20) \<and>
    map_option (score \<circ> user_info) (users w' t) = Some (score (user_info ut) + 20)"
proof -
  obtain ua ut where 1: "users w a = Some ua" "users w t = Some ut"
    "users w1 = (users w)(a \<mapsto> score_sub 10 ua, t \<mapsto> score_add 10 (ut\<lparr>status := STATUS_PLAYING\<rparr>))" "boards w1 = boards w"
    using undo_users [OF assms(1-8)] by blast
  have "boards w1 b = Some cb" using 1(4) assms(4) by simp
  from undo_users [OF assms(1-3) this assms(5-7,9)] 1 assms(7) show ?thesis
    by (auto simp: score_sub_def score_add_def)
qed

theorem capture_undone_witness:
  "\<exists>r w1 r' w'. MoveChessHandle demo_env (1, 1) [1] (table STATUS_PLAYING STATUS_PLAYING STATUS_PLAYING) = Some (r, w1) \<and>
     UndoHandle demo_env (1, 1) [] MSG_UNDO_REPS w1 = Some (r', w') \<and>
     map_option (score \<circ> user_info) (users w' 0) = Some 100 \<and> map_option (score \<circ> user_info) (users w' 1) = Some 100 \<and>
     map_option status (users w' 1) = Some STATUS_PLAYING"
proof -
  let ?w = "table STATUS_PLAYING STATUS_PLAYING STATUS_PLAYING"
  obtain r w1 where r: "MoveChessHandle demo_env (1, 1) [1] ?w = Some (r, w1)"
    and w1: "wired demo_env {0, 1, 2} {(1, 1)} w1" and m: "boards w1 (1, 1) = Some captured_board" using demo_capture by blast
  obtain ud where u: "parse_Undo demo_env [] = Some ud" "ud_rep_or_respon ud = 1" "ud_status ud = Some True"
    using demo_undo by blast
  have c: "recent_winner_locate captured_board = LOCATION_LEFT" "recent_loser_locate captured_board = LOCATION_RIGHT"
    by (simp_all add: captured_board_def)
  obtain r' w' where r': "UndoHandle demo_env (1, 1) [] MSG_UNDO_REPS w1 = Some (r', w')"
    using undo_returns [where ty = MSG_UNDO_REPS, OF w1 _ u m] demo_cb_seats [OF demo_cb(2)] by (auto simp: ret_def c)
  obtain ua ut st where "users ?w 0 = Some ua" "users ?w 1 = Some ut"
      "users w' = (users ?w)(0 \<mapsto> ua\<lparr>status := st\<rparr>, 1 \<mapsto> ut\<lparr>status := STATUS_PLAYING\<rparr>)"
    using capture_undone [where cb = demo_board and a = 0 and t = 1, OF demo_move_simps(2) _ _ _ _ _ r u r'] demo_cb(1) by auto
  moreover from this have "ua = strip (player 10 LOCATION_LEFT STATUS_PLAYING)" "ut = strip (player 11 LOCATION_RIGHT STATUS_PLAYING)"
    by (simp_all add: users_def)
  ultimately show ?thesis using r r' by (intro exI [of _ r] exI [of _ w1] exI [of _ r'] exI [of _ w'] conjI) (simp_all add: player_score)
qed

theorem undo_repeats_witness:
  "\<exists>r w1 r' w'. UndoHandle demo_env (1, 1) [] MSG_UNDO_REPS
       (table_with captured_board STATUS_PLAYING STATUS_PLAYING STATUS_PLAYING) = Some (r, w1) \<and>
     UndoHandle demo_env (1, 1) [] MSG_UNDO_REPS w1 = Some (r', w') \<and>
     map_option (score \<circ> user_info) (users w' 0) = Some 80 \<and> map_option (score \<circ> user_info) (users w' 1) = Some 120"
proof -
  let ?w = "table_with captured_board STATUS_PLAYING STATUS_PLAYING STATUS_PLAYING"
  note g = going_wired [OF table_going [OF demo_cb(2), of STATUS_PLAYING STATUS_PLAYING STATUS_PLAYING]]
  obtain ud where u: "parse_Undo demo_env [] = Some ud" "ud_rep_or_respon ud = 1" "ud_status ud = Some True"
    using demo_undo by blast
  have c: "recent_winner_locate captured_board = LOCATION_LEFT" "recent_loser_locate captured_board = LOCATION_RIGHT"
    by (simp_all add: captured_board_def)
  have b: "boards ?w (1, 1) = Some captured_board" by simp
  obtain r w1 where r: "UndoHandle demo_env (1, 1) [] MSG_UNDO_REPS ?w = Some (r, w1)"
    using undo_returns [where ty = MSG_UNDO_REPS, OF g _ u b] demo_cb_seats [OF demo_cb(2)] by (auto simp: ret_def c)
  have "post (wired demo_env {0, 1, 2} {(1, 1)}) (\<lambda>(r, w). wired demo_env {0, 1, 2} {(1, 1)} w)
      (UndoHandle demo_env (1, 1) [] MSG_UNDO_REPS ?w)"
    by (rule call_UndoHandle [OF stable_wired g]) simp
  from postD [OF this r] have w1: "wired demo_env {0, 1, 2} {(1, 1)} w1" by simp
  have s: "GetUserByLocation (recent_winner_locate captured_board) captured_board = Some 0"
    "GetUserByLocation (recent_loser_locate captured_board) captured_board = Some 1"
    using demo_cb_seats [OF demo_cb(2)] by (simp_all add: c)
  have b1: "boards w1 (1, 1) = Some captured_board" using undo_users [OF u b s _ r] b by auto
  obtain r' w' where r': "UndoHandle demo_env (1, 1) [] MSG_UNDO_REPS w1 = Some (r', w')"
    using undo_returns [where ty = MSG_UNDO_REPS, OF w1 _ u b1] demo_cb_seats [OF demo_cb(2)] by (auto simp: ret_def c)
  obtain ua ut where "users ?w 0 = Some ua" "users ?w 1 = Some ut"
    "map_option (score \<circ> user_info) (users w' 0) = Some (score (user_info ua) - 20)"
    "map_option (score \<circ> user_info) (users w' 1) = Some (score (user_info ut) + 20)"
    using undo_repeats [OF u b s _ r r'] by auto
  moreover from this have "ua = strip (player 10 LOCATION_LEFT STATUS_PLAYING)" "ut = strip (player 11 LOCATION_RIGHT STATUS_PLAYING)"
    by (simp_all add: users_def)
  ultimately show ?thesis using r r' by (intro exI [of _ r] exI [of _ w1] exI [of _ r'] exI [of _ w'] conjI) (simp_all add: player_score)
qed

text \<open>C19. The token goes round the table: with more than one user still playing, \<open>next_token\<close> finds a
  seat other than the mover's whose user is playing, and takes the seat whose turn it is if that user
  is still in the game.\<close>

theorem token_passes:
  assumes "GetActiveUsersNum b w = Some n" "1 < n" "l \<in> set seats"
  shows "\<exists>t. next_token b l w = Some (Some t) \<and> t \<noteq> l \<and> plays w b t \<and> (plays w b (turn_after l) \<longrightarrow> t = turn_after l)"
  by (rule next_token_plays [OF assms])

theorem token_passes_witness:
  "next_token (1, 1) LOCATION_RIGHT (table STATUS_PLAYING STATUS_PLAYING STATUS_ENDED) = Some (Some LOCATION_LEFT) \<and>
   next_token (1, 1) LOCATION_LEFT (table STATUS_PLAYING STATUS_PLAYING STATUS_ENDED) = Some (Some LOCATION_RIGHT)"
proof -
  let ?w = "table STATUS_PLAYING STATUS_PLAYING STATUS_ENDED"
  have n: "GetActiveUsersNum (1, 1) ?w = Some 2"
    using demo_cb_seats [OF demo_cb(1)] by (simp add: GetActiveUsersNum_def count_status_def status_at_def)
  have p: "plays ?w (1, 1) LOCATION_LEFT" "plays ?w (1, 1) LOCATION_RIGHT" "\<not> plays ?w (1, 1) LOCATION_BOTTOM"
    using demo_cb_seats [OF demo_cb(1)] by (simp_all add: plays_def)
  have seat: "t \<in> set seats" if "plays ?w (1, 1) t" for t
    using that GetUserByLocation_seat unfolding plays_def by blast
  show ?thesis
    using token_passes [OF n, of LOCATION_RIGHT] token_passes [OF n, of LOCATION_LEFT] p seat
    by (auto simp: turn_after_def)
qed

text \<open>A move that captures nobody, while the game goes on, changes no user at all; the only effect
  is that everybody at the table is told of the move and of the seat whose turn it is.\<close>

theorem move_announced:
  assumes "parse_MoveChess E msg = Some mc" "\<not> mc_is_winner mc" "seat_inv {} w"
    and "boards w b = Some cb" "GetActiveUsersNum b w = Some n" "1 < n"
    and "MoveChessHandle E b msg w = Some (r, w')"
  shows "\<exists>s u t. GetUserByLocation (mc_src_user_locate mc) cb = Some s \<and> sess w s = Some u \<and>
    next_token b (mc_src_user_locate mc) w = Some (Some t) \<and> users w' = users w \<and> dblog w' = dblog w \<and>
    netlog w' = frames_to w MSG_ANNOUNCE_MOVE (ser_MoveAction E \<lparr>ma_src_user_locate = mc_src_user_locate mc,
      ma_movechess = mc, ma_token_locate = Some t\<rparr>) (receivers LOCATION_MAX cb) @ netlog w"
  using move_quiet [OF assms] by (simp add: same_users_eq)

theorem move_announced_witness:
  "\<exists>r w'. MoveChessHandle demo_env (1, 1) [] (table STATUS_PLAYING STATUS_PLAYING STATUS_PLAYING) = Some (r, w') \<and>
     map fst (netlog w') = [12, 11, 10] \<and> users w' = users (table STATUS_PLAYING STATUS_PLAYING STATUS_PLAYING)"
proof -
  let ?w = "table STATUS_PLAYING STATUS_PLAYING STATUS_PLAYING"
  note g = going_wired [OF table_going [OF demo_cb(1), of STATUS_PLAYING STATUS_PLAYING STATUS_PLAYING]]
  have n: "GetActiveUsersNum (1, 1) ?w = Some 3"
    using demo_cb_seats [OF demo_cb(1)] by (simp add: GetActiveUsersNum_def count_status_def status_at_def)
  have b: "boards ?w (1, 1) = Some demo_board" by simp
  obtain r w' where r: "MoveChessHandle demo_env (1, 1) [] ?w = Some (r, w')"
    using move_returns [where b = "(1, 1)" and cb = demo_board, OF g _ demo_move_simps(1)] demo_cb(1)
    by (auto simp: ret_def)
  have rc: "receivers LOCATION_MAX demo_board = [0, 1, 2]"
    using demo_cb_seats [OF demo_cb(1)] by (simp add: receivers_def seats_def map_filter_simps)
  have "netlog ?w = []" by (simp add: table_with_def MainThread_new_def)
  then show ?thesis
    using move_announced [OF demo_move_simps(1) _ table_seats [OF demo_cb(1)] b n _ r] r
    by (auto simp: rc frame_to_def)
qed

text \<open>C20. A request for a seat: a user without a board gets it exactly when the seat exists and is free
  and the game at that board has not begun; he is then ready and will be in the playing state. If not,
  he sits nowhere and gets a refusal. Nobody else's seat changes in either case.\<close>

theorem request_seat:
  assumes "seat_inv {} w" "sess w s = Some u" "currChessBoard u = None"
    and "parse_RequestPlay E msg = Some rp" "rp_game_hall_id rp \<in> set hall_numbers"
    and "b = (rp_game_hall_id rp, rp_chess_board_id rp)" "GameRequestHandle E s msg w = Some (x, w')"
  shows "(\<forall>b' l' s'. s' \<noteq> s \<longrightarrow> sits_at w' b' l' s' = sits_at w b' l' s') \<and>
    (if joinable w b (rp_locate rp)
     then sits_at w' b (rp_locate rp) s \<and>
       (\<exists>u'. users w' s = Some u' \<and> status u' = STATUS_READY \<and> nextState u' = Some STATE_GAME_PLAY)
     else (\<forall>b' l'. \<not> sits_at w' b' l' s) \<and> (\<exists>c. netlog w' = frame_to u MSG_REQUEST_PLAY_REPLY
       (ser_RequestPlayReply E \<lparr>rr_status = 0, rr_first_come_user_locate = c, rr_chessboard = None\<rparr>) @ netlog w))"
  using request_play [OF assms(1-5,7)] unfolding assms(6) by blast

theorem request_seat_witness:
  "\<exists>w x w'. srv_reach demo_env w \<and> GameRequestHandle demo_env 0 [] w = Some (x, w') \<and>
     \<not> sits_at w (1, 1) LOCATION_LEFT 0 \<and> sits_at w' (1, 1) LOCATION_LEFT 0"
proof -
  obtain u log net where u: "srv_reach demo_env (stage u log net)" "waiting (Some STATE_GAME_READY) u"
    using reach_ready by blast
  note g = stage_going [OF u(2), of log net]
  obtain x w' where r: "GameRequestHandle demo_env 0 [] (stage u log net) = Some (x, w')"
    using request_returns [where msg = "[]" and s = 0, OF g(1) _ _ demo_request] by (auto simp: ret_def hall_numbers_eq chessBoardMax_def)
  have "joinable (stage u log net) (1, 1) LOCATION_LEFT" "\<not> sits_at (stage u log net) (1, 1) LOCATION_LEFT 0"
    by (simp_all add: stage_empty joinable_def sits_at_def)
  then show ?thesis
    using request_seat [OF g(2) _ _ demo_request _ refl r] u r by (auto simp: hall_numbers_eq waiting_fields(7))
qed



text \<open>C22. Getting ready: the seat named in the message is marked, and if after that all three seats are
  taken by users who are ready, all three of them play; otherwise nothing else changes.\<close>

theorem game_starts:
  assumes "seat_inv {} w" "parse_GameReadyReq E msg = Some g" "boards w b = Some cb"
    and "GameReadyHandle E b msg w = Some (r, w')"
    and "wb = (\<lambda>x. if GetUserByLocation (gr_src_user_locate g) cb = Some x
      then map_option (\<lambda>u. u\<lparr>status := STATUS_BEGAN\<rparr>) (users w x) else users w x)"
  shows "users w' = (\<lambda>x. if all_began wb cb \<and> x \<in> set (seated cb)
      then map_option (\<lambda>u. u\<lparr>status := STATUS_PLAYING\<rparr>) (wb x) else wb x)"
  unfolding assms(5) by (rule ready_users [OF assms(1-4)])

theorem game_starts_witness:
  "\<exists>r w'. GameReadyHandle demo_env (1, 1) [] (table STATUS_READY STATUS_BEGAN STATUS_BEGAN) = Some (r, w') \<and>
     (\<forall>x \<in> {0, 1, 2}. map_option status (users w' x) = Some STATUS_PLAYING)"
proof -
  let ?w = "table STATUS_READY STATUS_BEGAN STATUS_BEGAN"
  obtain g where p: "parse_GameReadyReq demo_env [] = Some g" "gr_src_user_locate g = LOCATION_LEFT"
    by (simp add: demo_env_def)
  obtain r w' where r: "GameReadyHandle demo_env (1, 1) [] ?w = Some (r, w')"
    using ready_returns [where msg = "[]" and b = "(1, 1)", OF table_going [OF demo_cb(1), of STATUS_READY STATUS_BEGAN STATUS_BEGAN]] by (auto simp: ret_def)
  have b: "boards ?w (1, 1) = Some demo_board" by simp
  show ?thesis
    using game_starts [OF table_seats [OF demo_cb(1)] p(1) b r refl] r demo_cb_seats [OF demo_cb(1)]
    by (auto simp: p(2) all_began_def seats_def)
qed

text \<open>A move is handled exactly when the seat it names as its source is taken: with an empty or
  unknown seat the handler dereferences a null pointer.\<close>

theorem move_needs_mover:
  assumes "wired E S B w" "b \<in> B" "parse_MoveChess E msg = Some mc" "boards w b = Some cb"
  shows "MoveChessHandle E b msg w = None \<longleftrightarrow> GetUserByLocation (mc_src_user_locate mc) cb = None"
  using move_returns [OF assms] unfolding ret_def by blast

theorem move_needs_mover_witness:
  "MoveChessHandle (demo_env\<lparr>parse_MoveChess := (\<lambda>_. Some ((demo_move False)\<lparr>mc_src_user_locate := 9\<rparr>))\<rparr>) (1, 1) []
     (table STATUS_PLAYING STATUS_PLAYING STATUS_PLAYING) = None \<and>
   MoveChessHandle demo_env (1, 1) [] (table STATUS_PLAYING STATUS_PLAYING STATUS_PLAYING) \<noteq> None"
proof -
  let ?w = "table STATUS_PLAYING STATUS_PLAYING STATUS_PLAYING"
  let ?E = "demo_env\<lparr>parse_MoveChess := (\<lambda>_. Some ((demo_move False)\<lparr>mc_src_user_locate := 9\<rparr>))\<rparr>"
  note t = table_going [OF demo_cb(1), of STATUS_PLAYING STATUS_PLAYING STATUS_PLAYING]
  have b: "boards ?w (1, 1) = Some demo_board" by simp
  have "going ?E {0, 1, 2} {(1, 1)} {0, 1, 2} ?w"
    using t by (rule going_env) (simp_all add: demo_env_def db_plain_def CR_SERVER_GONE_ERROR_def)
  from move_needs_mover [where msg = "[]", OF going_wired [OF this] _ _ b]
  have "MoveChessHandle ?E (1, 1) [] ?w = None" by (simp add: GetUserByLocation_def loc_defs)
  moreover have "MoveChessHandle demo_env (1, 1) [] ?w \<noteq> None"
    using move_needs_mover [OF going_wired [OF t] _ demo_move_simps(1) b] demo_cb(1) by simp
  ultimately show ?thesis by blast
qed

text \<open>An accepted undo is handled exactly when no capture is on record or both users of the recorded
  capture still have their seats; otherwise a null pointer is dereferenced (the handler's try block
  does not help).\<close>

theorem undo_needs_both:
  assumes "wired E S B w" "b \<in> B" "parse_Undo E msg = Some ud" "ud_rep_or_respon ud = 1" "ud_status ud = Some True"
    and "boards w b = Some cb"
  shows "UndoHandle E b msg ty w = None \<longleftrightarrow> recent_winner_locate cb \<noteq> LOCATION_MAX \<and>
     (GetUserByLocation (recent_winner_locate cb) cb = None \<or> GetUserByLocation (recent_loser_locate cb) cb = None)"
  using undo_returns [OF assms] unfolding ret_def by blast

theorem undo_needs_both_witness:
  "UndoHandle demo_env (1, 1) [] MSG_UNDO_REPS (table_with captured_board STATUS_PLAYING STATUS_ENDED STATUS_PLAYING) \<noteq> None"
proof -
  obtain ud where u: "parse_Undo demo_env [] = Some ud" "ud_rep_or_respon ud = 1" "ud_status ud = Some True"
    using demo_undo by blast
  let ?w = "table_with captured_board STATUS_PLAYING STATUS_ENDED STATUS_PLAYING"
  have b: "boards ?w (1, 1) = Some captured_board" by simp
  have c: "recent_winner_locate captured_board = LOCATION_LEFT" "recent_loser_locate captured_board = LOCATION_RIGHT"
    by (simp_all add: captured_board_def)
  show ?thesis
    using undo_needs_both [OF going_wired [OF table_going [OF demo_cb(2)]] _ u b] demo_cb_seats [OF demo_cb(2)] by (simp add: c)
qed

section \<open>Logging in\<close>

text \<open>C25. A login is accepted exactly when no connected session has the account and the database knows
  the account with this password; then the session carries the data of the account, and if not it has
  no account.\<close>

theorem login_decided:
  assumes "parse_LogOnorOut E msg = Some lo" "sess w s = Some u" "the_thread (thread u) w = Some t"
    and "HandleLogin E s msg w = Some (ok, w')"
  shows "(ok \<longleftrightarrow> account_free t (lo_account lo) w \<and> credentials E lo u (dblog w)) \<and>
    (\<exists>u'. sess w' s = Some u' \<and> (ok \<longrightarrow> password (user_info u') = lo_password lo) \<and>
      (\<forall>info log. account_free t (lo_account lo) w \<longrightarrow>
        GetUsersInfoFromDB E (lo_account lo) (user_info u) (dblog w) = Some (True, info, log) \<longrightarrow>
        account (user_info u') = (if ok then account info else [])))"
  by (rule login_spec [OF assms])

theorem login_decided_witness:
  "\<exists>w' u'. HandleLogin demo_env 0 [] (stage online [] []) = Some (True, w') \<and>
     credentials demo_env \<lparr>lo_account = ''a'', lo_password = ''p''\<rparr> online [] \<and>
     sess w' 0 = Some u' \<and> password (user_info u') = ''p''"
proof -
  obtain v log' net' where r: "HandleLogin demo_env 0 [] (stage online [] []) = Some (True, stage v log' net')"
    using run_HandleLogin [of None online] waiting_online by blast
  have "the_thread (thread online) (stage online [] []) = Some (new_thread\<lparr>fdSessionMap := [(10, 0)]\<rparr>)"
    by (simp add: the_thread_def online_def)
  from login_decided [OF parse_demo _ this r] r show ?thesis by auto
qed

text \<open>Before login every message but registering, logging in and out, echo and the request for a
  password is refused without any effect.\<close>

theorem stranger_refused:
  assumes "ty \<notin> mt_code ` {MSG_REGISTER, MSG_LOGIN, MSG_LOGOUT, MSG_ECHO, MSG_FIND_PASSWORD}"
  shows "StateAuth_MsgHandle E s ty msg w = Some (False, w)"
  by (rule auth_rejects [OF assms])

theorem stranger_refused_witness:
  "StateAuth_MsgHandle demo_env 0 (mt_code MSG_MOVE_CHESS) [] (stage online [] []) = Some (False, stage online [] [])"
  using stranger_refused [of "mt_code MSG_MOVE_CHESS"] by simp

section \<open>The wire\<close>

text \<open>A frame can be read back: from the bytes \<open>OnWrite\<close> sends, \<open>OnReadCb\<close> reads the length, the
  type and the payload, for every payload whose frame length fits into 32 bits.\<close>

theorem frame_roundtrip:
  assumes "length d + DATA_HEAD_LENGTH < 2 ^ 32"
  shows "unat (get_le32 0 (wire_frame ty d)) = length (wire_frame ty d) \<and> get_le32 4 (wire_frame ty d) = ty \<and>
    drop DATA_HEAD_LENGTH (wire_frame ty d) = d"
  using wf.enc_size wf.enc_type wf.enc_body assms by (simp add: frame_fits_def)

theorem frame_roundtrip_witness:
  "get_le32 4 (wire_frame 15 [1, 2, 3]) = 15 \<and> drop DATA_HEAD_LENGTH (wire_frame 15 [1, 2, 3]) = [1, 2, 3]"
  using frame_roundtrip [of "[1, 2, 3]" 15] by (simp add: DATA_HEAD_LENGTH_def)

text \<open>C26. A frame may arrive in any number of pieces, cut anywhere, header included: nothing is handled
  before the last piece, and then the effect is that of the whole frame.\<close>

theorem pieces_reassembled:
  assumes "acceptable ty d" "wire_frame ty d = concat bs" "bs \<noteq> []" "[] \<notin> set bs"
    and "sess w s = Some u" "thread u = Some t" "inbuf u = []" "\<not> got_head (buf_info u)"
  shows "for_each (receive E s) bs w = receive E s (wire_frame ty d) w"
proof -
  have p: "pending (wire_frame ty d) [] u" using assms(7,8) by (simp add: pending_def)
  have "for_each (receive E s) bs w = handle_frame E t s ty d u w"
    by (rule receive_pieces [OF assms(1) refl, of "[]"]) (use assms p in simp_all)
  moreover have "receive E s (wire_frame ty d) w = handle_frame E t s ty d u w"
    by (rule receive_last [OF assms(1) refl, of "[]"]) (use assms p in simp_all)
  ultimately show ?thesis by simp
qed

theorem pieces_reassembled_witness:
  "for_each (receive demo_env 0) [[9, 0], [0, 0, 20], [0, 0, 0, 7]] (stage online [] []) =
   receive demo_env 0 [9, 0, 0, 0, 20, 0, 0, 0, 7] (stage online [] [])"
proof -
  have f: "wire_frame 20 [7] = [9, 0, 0, 0, 20, 0, 0, 0, 7]" by (simp add: wire_frame_def le32_def DATA_HEAD_LENGTH_def)
  have a: "acceptable 20 [7]" by (simp add: acceptable_def max_total_size_eq DATA_HEAD_LENGTH_def)
  show ?thesis
    using pieces_reassembled [where E = demo_env and bs = "[[9, 0], [0, 0, 20], [0, 0, 0, 7]]" and s = 0 and
        w = "stage online [] []", OF a _ _ _ stage_simps(2)]
    by (simp add: f online_def UserSession_new_def ReadBufInfo_Reset_def)
qed

text \<open>C27. Two frames in one read stall the connection: the input is then longer than the frame, the
  test for equality never succeeds again, and whatever arrives later is only appended.\<close>

theorem pipelined_frames_stall:
  assumes "acceptable ty d" "bs \<noteq> []"
    and "sess w s = Some u" "thread u = Some t" "inbuf u = []" "\<not> got_head (buf_info u)"
  shows "\<exists>u'. for_each (receive E s) ((wire_frame ty d @ bs) # bss) w = Some (w\<lparr>sess := (sess w)(s \<mapsto> u')\<rparr>) \<and>
    inbuf u' = wire_frame ty d @ bs @ concat bss"
proof -
  obtain u1 where 1: "receive E s (wire_frame ty d @ bs) w = Some (w\<lparr>sess := (sess w)(s \<mapsto> u1)\<rparr>)" "overrun u1" "thread u1 = Some t"
    and i1: "inbuf u1 = wire_frame ty d @ bs"
    using receive_two [OF assms(1) refl assms(2-6)] by blast
  let ?w1 = "w\<lparr>sess := (sess w)(s \<mapsto> u1)\<rparr>"
  obtain u' where "for_each (receive E s) bss ?w1 = Some (?w1\<lparr>sess := (sess ?w1)(s \<mapsto> u')\<rparr>)" "inbuf u' = inbuf u1 @ concat bss"
    using feed_overrun [where w = ?w1 and u = u1 and s = s, OF _ 1(3,2)] by fastforce
  then show ?thesis using 1(1) i1 by auto
qed

theorem pipelined_frames_stall_witness:
  "\<exists>u'. for_each (receive demo_env 0) [wire_frame 1 [] @ wire_frame 1 [], [1, 2, 3]] (stage online [] []) = Some (stage u' [] []) \<and>
     length (inbuf u') = 19"
proof -
  have a: "acceptable 1 []" by (simp add: acceptable_def max_total_size_eq DATA_HEAD_LENGTH_def)
  have l: "length (wire_frame 1 []) = 8" using length_frame [OF a] by (simp add: DATA_HEAD_LENGTH_def)
  then have "wire_frame 1 [] \<noteq> []" by auto
  from pipelined_frames_stall [where E = demo_env and s = 0 and bss = "[[1, 2, 3]]" and w = "stage online [] []", OF a this stage_simps(2)]
  show ?thesis using l by (auto simp: online_def UserSession_new_def ReadBufInfo_Reset_def)
qed

text \<open>C28. A header with an unknown type or an excessive length closes the connection as soon as its
  eight bytes are there: the descriptor is unregistered, the session is blank again or deleted, and its
  seat is free.\<close>

theorem bad_header_closes:
  assumes "srv_reach E w" "connected w t fd s" "sess w s = Some u" "\<not> got_head (buf_info u)"
    and "8 \<le> length (inbuf u @ bs)" "get_le32 4 (inbuf u @ bs) > 33 \<or> unat (get_le32 0 (inbuf u @ bs)) > 4198400"
    and "receive E s bs w = Some w'"
  shows "(\<forall>k x. connected w' 0 k x \<longleftrightarrow> k \<noteq> fd \<and> connected w 0 k x) \<and>
    (sess w' s = None \<or> (\<exists>u. sess w' s = Some u \<and> idle u \<and> s \<in> set (sessionList w'))) \<and>
    (\<forall>b l. \<not> sits_at w' b l s)"
proof -
  have ok: "world_ok w" using assms(1) by (rule srv_reach_ok)
  obtain v where v: "sess w s = Some v" "clifd v = fd" "thread v = Some 0" using ok assms(2) by (rule connected_sess)
  let ?u = "u\<lparr>inbuf := inbuf u @ bs, buf_info := (buf_info u)\<lparr>total_size := get_le32 0 (inbuf u @ bs),
      msg_type := get_le32 4 (inbuf u @ bs)\<rparr>\<rparr>"
  let ?w = "w\<lparr>sess := (sess w)(s \<mapsto> ?u)\<rparr>"
  have uv: "u = v" using v(1) assms(3) by simp
  have t0: "t = 0" using assms(2) ok by (metis world_threads connected_one)
  have "get_le32 4 (inbuf u @ bs) > mt_code MSG_TYPE_MAX \<or> unat (get_le32 0 (inbuf u @ bs)) > max_total_size"
    using assms(6) by (simp add: max_total_size_eq)
  from receive_refused [OF assms(3) _ assms(4,5) this, of t E] assms(7) v uv t0
  have "map_option snd (ClosingClientCon E t fd ?w) = Some w'" by simp
  then obtain x where c: "ClosingClientCon E t fd ?w = Some (x, w')" by auto
  have "upd_sess s (\<lambda>y. if y = u then ?u else y) w = Some ?w" using assms(3) by (simp add: upd_sess_def)
  with ok have ok': "world_ok ?w" by (rule world_ok_upd_sess) simp
  have cn: "connected ?w k f y = connected w k f y" for k f y by (simp add: connected_def)
  have "gone fd s ?w w'" using close_gone [OF ok' _ c] assms(2) by (simp add: cn)
  then show ?thesis by (simp add: gone_def cn)
qed

theorem bad_header_closes_witness:
  "\<exists>w'. receive demo_env 0 [8, 0, 0, 0, 34, 0, 0, 0] (stage online [] []) = Some w' \<and> \<not> connected w' 0 10 0"
proof -
  have h: "get_le32 4 [8, 0, 0, 0, 34, 0, 0, 0] = 34" by (simp add: get_le32_def)
  obtain w' where "receive demo_env 0 [8, 0, 0, 0, 34, 0, 0, 0] (stage online [] []) = Some w'"
    by (simp add: receive_def OnReadCb_def online_def UserSession_new_def read_head_def DATA_HEAD_LENGTH_def h Let_def
        ReadBufInfo_Reset_def ClosingClientCon_def the_thread_def upd_thread_def
      RecycleSession_def DestructResource_def leave_current_board_def connectionMaxStep_def upd_sess_def stage_def)
  then show ?thesis
    using bad_header_closes [OF reach_online, of 0 10 0 online "[8, 0, 0, 0, 34, 0, 0, 0]" w'] h
    by (auto simp: stage_connected online_def UserSession_new_def ReadBufInfo_Reset_def)
qed

section \<open>Connections and tables\<close>

text \<open>C29. A descriptor that main has handed to the worker is served: processing the notification
  always succeeds (the pool is refilled when it is empty) and registers a blank session under the
  descriptor, with all other connections as they were.\<close>

theorem connection_served:
  assumes "srv_reach E w" "threadList w = [th]"
    and "notify_pipe th = \<lparr>command = COMMAND_NOTIFY_ADD_EVENT, pipe_fd = fd\<rparr> # rest"
  shows "\<exists>w' s u. NotifyReceivedProcess E 0 w = Some w' \<and> sess w' s = Some u \<and> clifd u = fd \<and>
    thread u = Some 0 \<and> stateMachine u = None \<and> inbuf u = [] \<and> timer_on u \<and>
    (\<forall>k x. connected w' 0 k x \<longleftrightarrow> k = fd \<and> x = s \<or> connected w 0 k x)"
  by (rule notify_connects [OF srv_reach_ok [OF assms(1)] assms(2,3)])

theorem connection_served_witness:
  "\<exists>w' s u. NotifyReceivedProcess demo_env 0 piped = Some w' \<and> sess w' s = Some u \<and> clifd u = 10 \<and> connected w' 0 10 s"
proof -
  have "srv_reach demo_env piped"
    by (rule srv_reach.step [OF srv_reach.start], rule srv_step.accept [OF _ run_accept])
      (simp add: open_fds_def server_start_def CreateWorkTheads_def MainThread_new_def new_thread_def)
  moreover have "threadList piped = [new_thread\<lparr>notify_pipe := [\<lparr>command = COMMAND_NOTIFY_ADD_EVENT, pipe_fd = 10\<rparr>]\<rparr>]"
    by (simp add: piped_def)
  ultimately obtain w' s u where "NotifyReceivedProcess demo_env 0 piped = Some w'" "sess w' s = Some u" "clifd u = 10"
    "\<forall>k x. connected w' 0 k x \<longleftrightarrow> k = 10 \<and> x = s \<or> connected piped 0 k x"
    using connection_served [of demo_env piped "new_thread\<lparr>notify_pipe := [\<lparr>command = COMMAND_NOTIFY_ADD_EVENT, pipe_fd = 10\<rparr>]\<rparr>"
      10 "[]"] by auto
  then show ?thesis by blast
qed



section \<open>The database commands\<close>

text \<open>The command that stores a head photo stays in its heap block exactly when the escaped data
  and the account exceed the raw data by at most two thirds of it plus 202 characters; otherwise the
  copy runs over the end of the block.\<close>

theorem head_image_bounds:
  assumes "db_plain E"
  shows "UpdateHeadImageToDB E con acct data log = None \<longleftrightarrow>
    length (db_escape E data) + length (c_str acct) > length data + length data * 2 div 3 + 202"
  using head_image_fits [of E acct data] run_cmd_plain [OF assms] by (auto simp: UpdateHeadImageToDB_def Let_def)

theorem head_image_bounds_witness:
  "UpdateHeadImageToDB (demo_env\<lparr>db_escape := (\<lambda>d. concat (map (\<lambda>c. [c, c]) d))\<rparr>) True [] (replicate 900 CHR 0x27) [] = None"
proof -
  let ?E = "demo_env\<lparr>db_escape := (\<lambda>d. concat (map (\<lambda>c. [c, c]) d))\<rparr>"
  have "db_plain ?E" by (simp add: db_plain_def demo_env_def CR_SERVER_GONE_ERROR_def)
  moreover have "length (db_escape ?E (replicate 900 CHR 0x27)) = 1800"
    by (simp add: length_concat comp_def sum_list_replicate)
  ultimately show ?thesis using head_image_bounds [of ?E True "[]" "replicate 900 CHR 0x27" "[]"] by (simp add: c_str_def)
qed

section \<open>The digest\<close>

text \<open>C33. The unrolled block function, 64 macro calls on four registers, is the loop of 64 steps with
  the message index, the shift and the constant of each step given by formula and table.\<close>

theorem transform_is_loop:
  "transform block st = compress block st"
  by (rule transform_compress)

text \<open>C34. \<open>md5(text)\<close> is, for every text shorter than the 32-bit length can express, the hexadecimal
  digest of the padded message taken block by block, whatever the uninitialised object held.\<close>

theorem md5_digest_of:
  assumes "length (md5_buffer junk) = 64" "length text < 2 ^ 32 - 64"
  shows "md5 junk text = Some (concat (map hex_byte (md5_of text)))"
  by (rule md5_eq [OF assms])

theorem md5_digest_of_witness:
  "md5 (MD5.make False (replicate 64 5) (1, 2) (0, 0, 0, 0) []) [] = Some ''d41d8cd98f00b204e9800998ecf8427e''"
proof -
  have e: "encode [0, 0] = replicate 8 0" by code_simp
  have "replicate 55 (0 :: u8) @ replicate 8 0 = replicate 63 0" by (simp flip: replicate_add)
  then have p: "md5_padded [] = 0x80 # replicate 63 0" by (simp add: md5_padded_def pad_length_def e)
  have b: "compress (0x80 # replicate 63 0) md5_magic = (3649838548, 78774415, 2550759657, 2118318316)" by code_simp
  have h: "concat (map hex_byte (encode (state_words (3649838548, 78774415, 2550759657, 2118318316)))) =
      ''d41d8cd98f00b204e9800998ecf8427e''" by code_simp
  have "md5_blocks (md5_padded []) md5_magic = (3649838548, 78774415, 2550759657, 2118318316)"
    unfolding p using md5_blocks_block [of "0x80 # replicate 63 0" "[]"] b
    by (simp add: transform_compress md5_blocks_short)
  then have "concat (map hex_byte (md5_of [])) = ''d41d8cd98f00b204e9800998ecf8427e''"
    unfolding md5_of_def by (simp only: h)
  then show ?thesis using md5_digest_of [of "MD5.make False (replicate 64 5) (1, 2) (0, 0, 0, 0) []" "[]"]
    by (simp add: MD5.make_def)
qed

text \<open>C35. The digest does not depend on how the text is cut into calls of \<open>update\<close>: any pieces, each
  shorter than the 32-bit limit, give the digest of their concatenation, and the 64-bit counter kept in
  two words, the buffer and the padding always have room.\<close>

theorem pieces_digest:
  assumes "length (md5_buffer junk) = 64" "\<forall>p \<in> set ps. length p < 2 ^ 32 - 64"
  shows "\<exists>ctx ctx'. feed ps (MD5_init junk) = Some ctx \<and> MD5_finalize ctx = Some ctx' \<and>
    MD5_hexdigest ctx' = concat (map hex_byte (md5_of (concat ps))) \<and> length (md5_padded (concat ps)) mod 64 = 0"
proof -
  obtain c where c: "feed ps (MD5_init junk) = Some c" "absorbed (concat ps) c"
    using feed_absorbed [OF absorbed_init [OF assms(1)] assms(2)] by auto
  then show ?thesis using finalize_absorbed [OF c(2)] md5_padded_length by (fastforce simp: MD5_hexdigest_def)
qed

theorem pieces_digest_witness:
  "\<exists>ctx ctx'. feed [[97], [], [98, 99]] (MD5_init (MD5.make True (replicate 64 0) (7, 7) (0, 0, 0, 0) [])) = Some ctx \<and>
     MD5_finalize ctx = Some ctx' \<and> MD5_hexdigest ctx' = concat (map hex_byte (md5_of [97, 98, 99]))"
  using pieces_digest [of "MD5.make True (replicate 64 0) (7, 7) (0, 0, 0, 0) []" "[[97], [], [98, 99]]"]
  by (auto simp: MD5.make_def)

section \<open>The timer library\<close>



text \<open>C37. Timers added with \<open>timer_add\<close> at any times with any future delays run in the order of their
  absolute deadlines, and those with the same deadline in the order in which they were added.\<close>

theorem timers_in_order:
  assumes "\<forall>e \<in> set es. in_future e"
  shows "\<exists>s1 s2. put_all add_request es timer_init = Some s1 \<and>
    take_all run_next (length es) s1 = Some (map (\<lambda>e. Some (the_call e)) (sort_key due_time es), s2) \<and> queued s2 []"
  using timers_served assms .

theorem timers_in_order_witness:
  "\<exists>s1 s2. put_all add_request [(Timeval 1 0, Timeval 3 0, ''a'', Some True), (Timeval 1 5, Timeval 0 9, ''b'', None),
       (Timeval 2 0, Timeval 2 0, ''c'', None)] timer_init = Some s1 \<and>
     take_all run_next 3 s1 = Some ([Some (''b'', None), Some (''a'', Some True), Some (''c'', None)], s2)"
proof -
  let ?es = "[(Timeval 1 0, Timeval 3 0, ''a'', Some True), (Timeval 1 5, Timeval 0 9, ''b'', None),
      (Timeval 2 0, Timeval 2 0, ''c'', None)]"
  have f: "\<forall>e \<in> set ?es. in_future e" by (simp add: in_future_def in_past_def)
  have m: "map (\<lambda>e. Some (the_call e)) (sort_key due_time ?es) =
      [Some (''b'', None), Some (''a'', Some True), Some (''c'', None)]"
    by (simp add: due_time_def abs_time_def MICRO_PER_SEC_def less_eq_timeval_def TV_LESS_THAN_def the_call_def)
  have len: "length ?es = 3" by simp
  from timers_in_order [OF f] show ?thesis unfolding m len by blast
qed

text \<open>C38. A handler is called for nothing but an added timer, and at most once for each: in any run the
  calls, with multiplicity, are among the requests to add.\<close>

theorem handlers_run_once:
  assumes "list_all proper es" "timer_events es (timer_init, None, []) = Some (st, r, calls)"
  shows "mset (map (\<lambda>(h, x). (Some h, x)) calls) \<subseteq># mset (concat (map requested es))"
  by (rule calls_requested [OF assms])

theorem handlers_run_once_witness:
  "mset [(Some 30 :: nat option, None :: nat option)] \<subseteq># mset (concat (map requested demo_events))"
proof -
  obtain st where "timer_events demo_events (timer_init, None, []) = Some (st, None, [(30, None)])"
    using events_refine [OF demo_events_proper] demo_events_spec by force
  from handlers_run_once [OF demo_events_proper this] show ?thesis by simp
qed

text \<open>The time the server waits for the first timer is exactly what is left until the deadline,
  less one microsecond when the microseconds have to be borrowed (the timer then runs that much
  early), and a millisecond when the deadline has passed; it is a valid, non-negative time.\<close>

theorem rest_time_bounds:
  assumes "implements rs st a" "queue a = e # q" "normal_time now" "normal_time (deadline e)"
  shows "\<exists>r. get_rest_time now st = Some (Some r) \<and> normal_time r \<and> 0 \<le> tv_sec r \<and>
    (if micros now < micros (deadline e)
     then micros r = micros (deadline e) - micros now - (if tv_usec (deadline e) < tv_usec now then 1 else 0)
     else micros r = 1000)"
  by (rule rest_bounds [OF assms])

theorem rest_time_bounds_witness:
  "\<exists>st r. timer_events demo_events (timer_init, None, []) = Some (st, None, [(30, None)]) \<and>
     get_rest_time (Timeval 6 200000) st = Some (Some r) \<and> micros r = 799999"
proof -
  obtain st :: "(nat, nat) timerlib" and a where st: "timer_events demo_events (timer_init, None, []) = Some (st, None, [(30, None)])"
    "implements {} st a" "queue a = [(Timeval 7 0, 0, Some 20, Some 1)]"
    using events_refine [OF demo_events_proper] demo_events_spec by force
  from rest_time_bounds [OF st(2,3), of "Timeval 6 200000"] st(1) show ?thesis
    by (auto simp: normal_time_def MAX_USEC_def micros_def MICRO_PER_SEC_def)
qed

text \<open>C39. The wake-up of the thread that runs handlers can be lost: if a timer expires after the thread
  has counted no expired timers and before it waits, the signal finds nobody, the wait times out and
  the thread ends, marked as off, with the handler not run.\<close>

theorem wake_up_lost:
  assumes "implements rs st a" "thread_on a" "due a = []" "queue a = e # q" "fst (call_of e) \<noteq> None"
  shows "\<exists>st1 st2. get_pending_list_count st = Some (0, st) \<and> timer_execute True created st = Some (Signalled, st1) \<and>
    wait_timed_out st1 = Some st2 \<and> implements rs st2 (a\<lparr>queue := q, due := [call_of e], thread_on := False\<rparr>)"
  by (rule wake_up_missed [OF assms])

theorem wake_up_lost_witness:
  "\<exists>st st1 st2. timer_events demo_events (timer_init, None, []) = Some (st, None, [(30, None)]) \<and>
     get_pending_list_count st = Some (0, st) \<and> timer_execute True True st = Some (Signalled, st1) \<and>
     wait_timed_out st1 = Some st2 \<and> \<not> timeout_thread_is_on st2 \<and> get_pending_list_count st2 = Some (1, st2)"
proof -
  obtain st :: "(nat, nat) timerlib" and a where st: "timer_events demo_events (timer_init, None, []) = Some (st, None, [(30, None)])"
    "implements {} st a" "queue a = [(Timeval 7 0, 0, Some 20, Some 1)]" "due a = []"
    and f: "fold spec_event demo_events (no_timers, False, []) = (a, False, [(30, None)])"
    using events_refine [OF demo_events_proper] demo_events_spec by force
  have on: "thread_on a" using f
    by (auto simp: demo_events_def spec_turn_def spec_add_def spec_expire_def spec_run_def no_timers_def zero_timer_def
      new_id_def abs_time_def MICRO_PER_SEC_def less_timeval_def TV_LESS_THAN_def)
  from wake_up_lost [OF st(2) on st(4,3), of True] obtain st1 st2 where s: "get_pending_list_count st = Some (0, st)"
    "timer_execute True True st = Some (Signalled, st1)" "wait_timed_out st1 = Some st2"
    "implements {} st2 (a\<lparr>queue := [], due := [(Some 20, Some 1)], thread_on := False\<rparr>)" by auto
  have "\<not> timeout_thread_is_on st2" using s(4) view_fields by (fastforce elim: implementsE)
  then show ?thesis using st(1) s(1-3) pending_count [OF s(4)] by auto
qed

section \<open>Password recovery\<close>



section \<open>Around the server\<close>









end
